(* ===== verification/Prelude.thy ===== *)
theory Prelude
  imports "HOL-Library.Word" "HOL-Library.AList"
begin

text \<open>
  The vocabulary the components share: the machine integers and byte strings of the Rust
  sources, the error-or-value result type, hash maps as association lists (whose order stands
  for the unspecified iteration order of a \<open>HashMap\<close>), and the generic facts about
  lists, maps and bits that the component proofs use.
\<close>

unbundle bit_operations_syntax

section \<open>Types\<close>

type_synonym u8 = "8 word"
type_synonym u16 = "16 word"
type_synonym u32 = "32 word"
type_synonym u64 = "64 word"
type_synonym usize = "64 word"
type_synonym i32 = "32 word"
type_synonym bytes = "u8 list"

text \<open>\<open>ResultType\<close>: the left summand is the error message.\<close>

type_synonym 'a result_type = "string + 'a"

text \<open>
  The operating systems the conditional compilation of the sources distinguishes
  (\<open>cfg(target_os = ...)\<close>); code that depends on it takes the target as an argument.
\<close>

datatype target_os = Windows | Linux | MacOS | Android | IOS

fun is_mobile :: "target_os \<Rightarrow> bool" where
  "is_mobile Android = True"
| "is_mobile IOS = True"
| "is_mobile _ = False"

section \<open>Named collections\<close>

named_theorems codec_simps \<open>evaluation of the packet codec\<close>
named_theorems service_simps \<open>field equations of the service operations\<close>
named_theorems qos_simps \<open>field equations of the quality-of-service operations\<close>
named_theorems conn_simps \<open>field equations of the connection operations\<close>

section \<open>Hash maps\<close>

text \<open>
  A \<open>HashMap\<close> is an association list without repeated keys. Lookup is \<open>map_of\<close>, insertion
  is \<open>AList.update\<close> and removal is \<open>AList.delete\<close>; iteration visits the entries in list
  order, and no property fixes that order.
\<close>

type_synonym ('k, 'v) hashmap = "('k \<times> 'v) list"

definition hm_wf :: "('k, 'v) hashmap \<Rightarrow> bool" where
  "hm_wf m \<longleftrightarrow> distinct (map fst m)"

abbreviation hm_get :: "('k, 'v) hashmap \<Rightarrow> 'k \<Rightarrow> 'v option" where
  "hm_get \<equiv> map_of"

abbreviation hm_insert :: "'k \<Rightarrow> 'v \<Rightarrow> ('k, 'v) hashmap \<Rightarrow> ('k, 'v) hashmap" where
  "hm_insert \<equiv> AList.update"

abbreviation hm_remove :: "'k \<Rightarrow> ('k, 'v) hashmap \<Rightarrow> ('k, 'v) hashmap" where
  "hm_remove \<equiv> AList.delete"

definition hm_contains :: "('k, 'v) hashmap \<Rightarrow> 'k \<Rightarrow> bool" where
  "hm_contains m k \<longleftrightarrow> map_of m k \<noteq> None"

text \<open>\<open>if let Some(v) = m.get_mut(k) { *v = f(v) }\<close>\<close>

definition hm_modify :: "'k \<Rightarrow> ('v \<Rightarrow> 'v) \<Rightarrow> ('k, 'v) hashmap \<Rightarrow> ('k, 'v) hashmap" where
  "hm_modify k f m = (case map_of m k of None \<Rightarrow> m | Some v \<Rightarrow> AList.update k (f v) m)"

lemma hm_wf_Nil [simp]: "hm_wf []"
  by (simp add: hm_wf_def)

lemma hm_wf_insert [simp]: "hm_wf m \<Longrightarrow> hm_wf (hm_insert k v m)"
  by (simp add: hm_wf_def distinct_update)

lemma hm_wf_remove [simp]: "hm_wf m \<Longrightarrow> hm_wf (hm_remove k m)"
  by (simp add: hm_wf_def distinct_delete)

lemma hm_wf_modify [simp]: "hm_wf m \<Longrightarrow> hm_wf (hm_modify k f m)"
  by (auto simp: hm_modify_def split: option.split)

lemma hm_get_insert [simp]: "hm_get (hm_insert k v m) = (hm_get m)(k \<mapsto> v)"
  by (rule update_conv')

lemma hm_get_remove [simp]: "hm_get (hm_remove k m) = (hm_get m)(k := None)"
  by (rule delete_conv')

lemma hm_get_modify [simp]:
  "hm_get (hm_modify k f m) = (hm_get m)(k := map_option f (hm_get m k))"
  by (auto simp: hm_modify_def fun_eq_iff split: option.split)

lemma hm_contains_insert [simp]:
  "hm_contains (hm_insert k v m) k' \<longleftrightarrow> k' = k \<or> hm_contains m k'"
  by (auto simp: hm_contains_def)

lemma hm_contains_remove [simp]:
  "hm_contains (hm_remove k m) k' \<longleftrightarrow> k' \<noteq> k \<and> hm_contains m k'"
  by (auto simp: hm_contains_def)

lemma hm_get_in_set: "hm_get m k = Some v \<Longrightarrow> (k, v) \<in> set m"
  by (rule map_of_SomeD)

lemma hm_get_eq_Some: "hm_wf m \<Longrightarrow> hm_get m k = Some v \<longleftrightarrow> (k, v) \<in> set m"
  by (simp add: hm_wf_def)

text \<open>\<open>m == n\<close> on hash maps, \<open>m.extend(n)\<close> and \<open>m.retain(p)\<close>.\<close>

definition hm_eq :: "('k, 'v) hashmap \<Rightarrow> ('k, 'v) hashmap \<Rightarrow> bool" where
  "hm_eq m n \<longleftrightarrow> list_all (\<lambda>(k, _). map_of m k = map_of n k) (m @ n)"

definition hm_extend :: "('k, 'v) hashmap \<Rightarrow> ('k, 'v) hashmap \<Rightarrow> ('k, 'v) hashmap" where
  "hm_extend m n = foldl (\<lambda>m (k, v). hm_insert k v m) m n"

definition hm_retain :: "('k \<Rightarrow> 'v \<Rightarrow> bool) \<Rightarrow> ('k, 'v) hashmap \<Rightarrow> ('k, 'v) hashmap" where
  "hm_retain p m = filter (\<lambda>(k, v). p k v) m"

lemma hm_eq_iff: "hm_eq m n \<longleftrightarrow> hm_get m = hm_get n"
proof
  assume h: "hm_eq m n"
  have "hm_get m k = hm_get n k" for k
  proof (cases "k \<in> fst ` set (m @ n)")
    case True
    then show ?thesis using h by (auto simp: hm_eq_def list_all_iff)
  next
    case False
    then have "hm_get m k = None" "hm_get n k = None" by (auto simp: map_of_eq_None_iff)
    then show ?thesis by simp
  qed
  then show "hm_get m = hm_get n" by blast
qed (auto simp: hm_eq_def list_all_iff)

lemma hm_get_extend:
  "hm_wf n \<Longrightarrow> hm_get (hm_extend m n) k = (case hm_get n k of None \<Rightarrow> hm_get m k | Some v \<Rightarrow> Some v)"
  unfolding hm_extend_def hm_wf_def
proof (induction n arbitrary: m)
  case (Cons x n)
  obtain a b where x: "x = (a, b)" by fastforce
  from Cons.prems x have "map_of n a = None" by (auto simp: map_of_eq_None_iff)
  with Cons x show ?case by (auto split: option.split)
qed simp

lemma hm_wf_extend [simp]: "hm_wf m \<Longrightarrow> hm_wf (hm_extend m n)"
  unfolding hm_extend_def by (induction n arbitrary: m) auto

lemma hm_wf_retain [simp]: "hm_wf m \<Longrightarrow> hm_wf (hm_retain p m)"
  unfolding hm_wf_def hm_retain_def by (induction m) auto

lemma hm_get_retain:
  "hm_wf m \<Longrightarrow> hm_get (hm_retain p m) k = (case hm_get m k of Some v \<Rightarrow> if p k v then Some v else None | None \<Rightarrow> None)"
  unfolding hm_wf_def hm_retain_def
proof (induction m)
  case (Cons x m)
  then have "map_of m (fst x) = None" by (auto simp: map_of_eq_None_iff)
  with Cons show ?case by (cases x) (auto split: option.split)
qed simp

text \<open>A predicate on every value of a map.\<close>

definition hm_all :: "('v \<Rightarrow> bool) \<Rightarrow> ('k, 'v) hashmap \<Rightarrow> bool" where
  "hm_all P m \<longleftrightarrow> (\<forall>v \<in> set (map snd m). P v)"

lemma hm_all_Nil [simp]: "hm_all P []"
  by (simp add: hm_all_def)

lemma hm_all_insert: "hm_all P m \<Longrightarrow> P v \<Longrightarrow> hm_all P (hm_insert k v m)"
  unfolding hm_all_def by (induction m) (auto split: if_splits)

lemma hm_all_remove: "hm_all P m \<Longrightarrow> hm_all P (hm_remove k m)"
  unfolding hm_all_def by (induction m) (auto split: if_splits)

lemma hm_all_get: "hm_all P m \<Longrightarrow> hm_get m k = Some v \<Longrightarrow> P v"
  by (force simp: hm_all_def dest: map_of_SomeD)

lemma hm_all_modify: "hm_all P m \<Longrightarrow> (\<And>v. P v \<Longrightarrow> P (f v)) \<Longrightarrow> hm_all P (hm_modify k f m)"
  by (auto simp: hm_modify_def hm_all_insert hm_all_get split: option.split)

lemma hm_all_in: "hm_all P m \<Longrightarrow> (k, v) \<in> set m \<Longrightarrow> P v"
  by (force simp: hm_all_def)

section \<open>Lists\<close>

lemma take_append_le: "n \<le> length xs \<Longrightarrow> take n (xs @ ys) = take n xs"
  by simp

lemma drop_append_le: "n \<le> length xs \<Longrightarrow> drop n (xs @ ys) = drop n xs @ ys"
  by simp

text \<open>\<open>Iterator::min\<close> and \<open>Iterator::max\<close>: nothing on an empty iterator.\<close>

fun iter_min :: "'a::linorder list \<Rightarrow> 'a option" where
  "iter_min [] = None"
| "iter_min (x # xs) = (case iter_min xs of None \<Rightarrow> Some x | Some y \<Rightarrow> Some (min x y))"

fun iter_max :: "'a::linorder list \<Rightarrow> 'a option" where
  "iter_max [] = None"
| "iter_max (x # xs) = (case iter_max xs of None \<Rightarrow> Some x | Some y \<Rightarrow> Some (max x y))"

lemma iter_min_eq_None [simp]: "iter_min xs = None \<longleftrightarrow> xs = []"
  by (cases xs) (auto split: option.split)

lemma iter_max_eq_None [simp]: "iter_max xs = None \<longleftrightarrow> xs = []"
  by (cases xs) (auto split: option.split)

lemma iter_min_eq: "xs \<noteq> [] \<Longrightarrow> iter_min xs = Some (Min (set xs))"
proof (induction xs)
  case (Cons x xs)
  then show ?case by (cases "xs = []") simp_all
qed simp

lemma iter_max_eq: "xs \<noteq> [] \<Longrightarrow> iter_max xs = Some (Max (set xs))"
proof (induction xs)
  case (Cons x xs)
  then show ?case by (cases "xs = []") simp_all
qed simp

lemma iter_min_in: "iter_min xs = Some m \<Longrightarrow> m \<in> set xs"
  by (cases "xs = []") (auto simp: iter_min_eq simp del: Min_in intro: Min_in)

lemma iter_min_le: "iter_min xs = Some m \<Longrightarrow> x \<in> set xs \<Longrightarrow> m \<le> x"
  by (cases "xs = []") (auto simp: iter_min_eq)

section \<open>Bits\<close>

lemma bit_less_exp:
  fixes n :: "'a::len word"
  assumes "n < 2 ^ k" "k < LENGTH('a)" "bit n i"
  shows "i < k"
proof (rule ccontr)
  assume "\<not> i < k"
  have "n = take_bit k n"
    using assms less_mask_eq [of n k] by (simp add: take_bit_eq_mask)
  with assms \<open>\<not> i < k\<close> show False by (metis bit_take_bit_iff)
qed

lemma and_3_eq_take_bit: "x AND 3 = take_bit 2 (x :: 'a::len word)"
  by (simp add: take_bit_eq_mask mask_eq_exp_minus_1)

lemma and_FFFF_eq_take_bit: "x AND 0xFFFF = take_bit 16 (x :: 'a::len word)"
  by (simp add: take_bit_eq_mask mask_eq_exp_minus_1)

section \<open>Strings\<close>

text \<open>The decimal text of an unsigned integer, as \<open>format!\<close> prints it.\<close>

fun show_nat :: "nat \<Rightarrow> string" where
  "show_nat n = (if n < 10 then [char_of (48 + n)] else show_nat (n div 10) @ [char_of (48 + n mod 10)])"

declare show_nat.simps [simp del]

definition read_nat :: "string \<Rightarrow> nat" where
  "read_nat s = foldl (\<lambda>acc c. 10 * acc + (of_char c - 48)) 0 s"

lemma read_show_nat: "read_nat (show_nat n) = n"
proof (induction n rule: show_nat.induct)
  case (1 n)
  show ?case
  proof (cases "n < 10")
    case True
    then show ?thesis by (simp add: show_nat.simps [of n] read_nat_def)
  next
    case False
    with "1.IH" have "read_nat (show_nat (n div 10)) = n div 10" by simp
    with False show ?thesis by (simp add: show_nat.simps [of n] read_nat_def)
  qed
qed

lemma show_nat_inj [simp]: "show_nat m = show_nat n \<longleftrightarrow> m = n"
  by (metis read_show_nat)

definition starts_with :: "string \<Rightarrow> string \<Rightarrow> bool" where
  "starts_with s p \<longleftrightarrow> take (length p) s = p"

lemma starts_with_append [simp]: "starts_with (p @ s) p"
  by (simp add: starts_with_def)

text \<open>\<open>str::trim\<close> on ASCII text.\<close>

definition trim_spaces :: "string \<Rightarrow> string" where
  "trim_spaces s =
     (let blank = (\<lambda>c. of_char c \<in> {9 :: nat, 10, 11, 12, 13, 32})
      in rev (dropWhile blank (rev (dropWhile blank s))))"

lemma set_trim_spaces: "set (trim_spaces s) \<subseteq> set s"
  unfolding trim_spaces_def Let_def set_rev by (blast dest: set_dropWhileD [where xs = "rev _", unfolded set_rev] set_dropWhileD)

end
