(* ===== verification/Bytes_Codec.thy ===== *)
theory Bytes_Codec
  imports Prelude
begin

text \<open>
  \<open>libs/hbb_common/src/bytes_codec.rs\<close>: the length-prefixed packet codec every TCP stream of
  the program uses. The two low bits of the first byte give the size of the head (1 to 4 bytes,
  little endian), the remaining bits the length of the data. \<open>decode\<close> is a two-state
  machine: waiting for a head, or waiting for the \<open>n\<close> bytes of data the head announced.
\<close>

section \<open>Model\<close>

datatype io_error = InvalidData string | InvalidInput string

datatype decode_state = Head | Data usize

record bytes_codec =
  bc_state :: decode_state
  bc_raw :: bool
  bc_max_packet_length :: usize

definition bc_new :: bytes_codec where
  "bc_new = \<lparr>bc_state = Head, bc_raw = False, bc_max_packet_length = - 1\<rparr>"

definition bc_set_raw :: "bytes_codec \<Rightarrow> bytes_codec" where
  "bc_set_raw c = c\<lparr>bc_raw := True\<rparr>"

definition bc_set_max_packet_length :: "usize \<Rightarrow> bytes_codec \<Rightarrow> bytes_codec" where
  "bc_set_max_packet_length n c = c\<lparr>bc_max_packet_length := n\<rparr>"

text \<open>
  The head: \<open>Inr None\<close> when more bytes are needed, \<open>Inr (Some (n, rest))\<close> when the
  head was consumed. On the error branch the source buffer is untouched.
\<close>

definition bc_head_len :: "u8 \<Rightarrow> nat" where
  "bc_head_len b = unat ((b AND 3) + 1)"

definition bc_head_value :: "bytes \<Rightarrow> usize" where
  "bc_head_value src =
     (let head_len = bc_head_len (src ! 0);
          n = (ucast (src ! 0) :: usize);
          n = (if head_len > 1 then n OR push_bit 8 (ucast (src ! 1)) else n);
          n = (if head_len > 2 then n OR push_bit 16 (ucast (src ! 2)) else n);
          n = (if head_len > 3 then n OR push_bit 24 (ucast (src ! 3)) else n)
      in drop_bit 2 n)"

definition bc_decode_head :: "bytes_codec \<Rightarrow> bytes \<Rightarrow> io_error + (usize \<times> bytes) option" where
  "bc_decode_head c src =
     (if src = [] then Inr None
      else let head_len = bc_head_len (src ! 0) in
        if length src < head_len then Inr None
        else let n = bc_head_value src in
          if n > bc_max_packet_length c then Inl (InvalidData ''Too big packet'')
          else Inr (Some (n, drop head_len src)))"

definition bc_decode_data :: "usize \<Rightarrow> bytes \<Rightarrow> (bytes \<times> bytes) option" where
  "bc_decode_data n src =
     (if length src < unat n then None else Some (take (unat n) src, drop (unat n) src))"

text \<open>One call of \<open>decode\<close>: the result, the codec after it and what is left in the buffer.\<close>

type_synonym bc_outcome = "(io_error + bytes option) \<times> bytes_codec \<times> bytes"

definition bc_decode_payload :: "bytes_codec \<Rightarrow> usize \<Rightarrow> bytes \<Rightarrow> bc_outcome" where
  "bc_decode_payload c n src =
     (case bc_decode_data n src of
        Some (dat, rest) \<Rightarrow> (Inr (Some dat), c\<lparr>bc_state := Head\<rparr>, rest)
      | None \<Rightarrow> (Inr None, c, src))"

definition bc_decode :: "bytes_codec \<Rightarrow> bytes \<Rightarrow> bc_outcome" where
  "bc_decode c src =
     (if bc_raw c then
        (if src \<noteq> [] then (Inr (Some src), c, []) else (Inr None, c, src))
      else case bc_state c of
        Head \<Rightarrow>
          (case bc_decode_head c src of
             Inl e \<Rightarrow> (Inl e, c, src)
           | Inr None \<Rightarrow> (Inr None, c, src)
           | Inr (Some (n, rest)) \<Rightarrow> bc_decode_payload (c\<lparr>bc_state := Data n\<rparr>) n rest)
      | Data n \<Rightarrow> bc_decode_payload c n src)"

text \<open>
  The encoder appends to \<open>buf\<close>. The shifts and casts are the source's: the length is
  shifted as a \<open>usize\<close> and then truncated to the width of the head.
\<close>

definition put_u16_le :: "u16 \<Rightarrow> bytes" where
  "put_u16_le h = [ucast h, ucast (drop_bit 8 h)]"

definition put_u32_le :: "u32 \<Rightarrow> bytes" where
  "put_u32_le h = [ucast h, ucast (drop_bit 8 h), ucast (drop_bit 16 h), ucast (drop_bit 24 h)]"

definition bc_encode_head :: "nat \<Rightarrow> io_error + bytes" where
  "bc_encode_head len =
     (let s = push_bit 2 (of_nat len :: usize) in
      if len \<le> 0x3F then Inr [ucast s]
      else if len \<le> 0x3FFF then Inr (put_u16_le (ucast s OR 1))
      else if len \<le> 0x3FFFFF then
        (let h = (ucast s OR 2 :: u32)
         in Inr (put_u16_le (ucast (h AND 0xFFFF)) @ [ucast (drop_bit 16 h)]))
      else if len \<le> 0x3FFFFFFF then Inr (put_u32_le (ucast s OR 3))
      else Inl (InvalidInput ''Overflow''))"

definition bc_encode :: "bytes_codec \<Rightarrow> bytes \<Rightarrow> bytes \<Rightarrow> io_error + bytes" where
  "bc_encode c dat buf =
     (if bc_raw c then Inr (buf @ dat)
      else case bc_encode_head (length dat) of
             Inl e \<Rightarrow> Inl e
           | Inr head \<Rightarrow> Inr (buf @ head @ dat))"

section \<open>The head: splitting into bytes and joining again\<close>

lemma join_u16:
  fixes h :: u16
  shows "(ucast (ucast h :: u8) :: usize) OR push_bit 8 (ucast (ucast (drop_bit 8 h) :: u8))
    = ucast h" (is "?l = ?r")
proof (rule bit_word_eqI)
  fix i
  assume "i < LENGTH(64)"
  then consider "i < 8" | "8 \<le> i" "i < 16" | "16 \<le> i" by linarith
  then show "bit ?l i = bit ?r i"
    by cases (auto simp: bit_simps dest: bit_imp_le_length)
qed

lemma join_u24:
  fixes h :: u32
  shows "(ucast (ucast (ucast h :: u16) :: u8) :: usize)
      OR push_bit 8 (ucast (ucast (drop_bit 8 (ucast h :: u16)) :: u8))
      OR push_bit 16 (ucast (ucast (drop_bit 16 h) :: u8))
    = take_bit 24 (ucast h)" (is "?l = ?r")
proof (rule bit_word_eqI)
  fix i
  assume "i < LENGTH(64)"
  then consider "i < 8" | "8 \<le> i" "i < 16" | "16 \<le> i" "i < 24" | "24 \<le> i" by linarith
  then show "bit ?l i = bit ?r i" by cases (auto simp: bit_simps)
qed

lemma join_u32:
  fixes h :: u32
  shows "(ucast (ucast h :: u8) :: usize)
      OR push_bit 8 (ucast (ucast (drop_bit 8 h) :: u8))
      OR push_bit 16 (ucast (ucast (drop_bit 16 h) :: u8))
      OR push_bit 24 (ucast (ucast (drop_bit 24 h) :: u8))
    = ucast h" (is "?l = ?r")
proof (rule bit_word_eqI)
  fix i
  assume "i < LENGTH(64)"
  then consider "i < 8" | "8 \<le> i" "i < 16" | "16 \<le> i" "i < 24" | "24 \<le> i" "i < 32"
    | "32 \<le> i" by linarith
  then show "bit ?l i = bit ?r i"
    by cases (auto simp: bit_simps dest: bit_imp_le_length)
qed

text \<open>Shifting the two tag bits out of a truncated head gives the length back.\<close>

lemma drop_tag:
  fixes n :: usize and k :: "'a::len word"
  assumes n: "n < 2 ^ m" and m: "m + 2 \<le> LENGTH('a)" "m < 64" and k: "k < 4"
    and l: "LENGTH('a) \<le> 64" "2 < LENGTH('a)"
  shows "drop_bit 2 (ucast (ucast (push_bit 2 n) OR k :: 'a word)) = n"
proof (rule bit_word_eqI)
  fix i
  assume i: "i < LENGTH(64)"
  have "bit n i \<Longrightarrow> i < m" using n m bit_less_exp [of n m i] by simp
  moreover have "\<not> bit k (2 + i)" "\<not> bit k (Suc (Suc i))"
    using k l bit_less_exp [of k 2 "i + 2"] by auto
  ultimately show "bit (drop_bit 2 (ucast (ucast (push_bit 2 n) OR k :: 'a word)) :: usize) i
      = bit n i"
    using m l i by (cases "i < m") (auto simp: bit_simps)
qed

text \<open>The tag bits of the first byte are those of the constant the encoder puts in.\<close>

lemma low_tag:
  fixes n :: usize and k :: "'a::len word"
  assumes "8 \<le> LENGTH('a)"
  shows "(ucast (ucast (push_bit 2 n) OR k :: 'a word) :: u8) AND 3 = ucast k AND 3"
  unfolding and_3_eq_take_bit
proof (rule bit_word_eqI)
  fix i
  assume "i < LENGTH(8)"
  then show "bit (take_bit 2 (ucast (ucast (push_bit 2 n) OR k :: 'a word) :: u8)) i
      = bit (take_bit 2 (ucast k :: u8)) i"
    using assms by (auto simp: bit_simps)
qed

lemma of_nat_usize_less:
  "len \<le> b \<Longrightarrow> b < 2 ^ m \<Longrightarrow> m < 64 \<Longrightarrow> (of_nat len :: usize) < 2 ^ m"
proof -
  assume "len \<le> b" "b < 2 ^ m" "m < 64"
  moreover have "(2::nat) ^ m < 2 ^ 64"
    using \<open>m < 64\<close> by (intro power_strict_increasing) auto
  moreover have "unat (2 ^ m :: usize) = 2 ^ m"
    using calculation(4) unat_of_nat [of "2 ^ m", where 'a = 64]
    by (simp add: take_bit_eq_mod)
  ultimately show ?thesis
    by (simp add: word_less_nat_alt unat_of_nat take_bit_eq_mod)
qed

text \<open>
  The codec's key fact: what \<open>bc_encode_head\<close> writes, \<open>bc_head_len\<close> and
  \<open>bc_head_value\<close> read back, whatever follows it in the buffer.
\<close>

lemma bc_encode_head_decode:
  assumes "bc_encode_head len = Inr h"
  shows "len \<le> 0x3FFFFFFF \<and> h \<noteq> [] \<and> bc_head_len (h ! 0) = length h
    \<and> bc_head_value (h @ rest) = of_nat len"
proof -
  let ?n = "of_nat len :: usize"
  let ?s = "push_bit 2 ?n"
  consider (1) "len \<le> 0x3F" | (2) "0x3F < len" "len \<le> 0x3FFF"
    | (3) "0x3FFF < len" "len \<le> 0x3FFFFF" | (4) "0x3FFFFF < len" "len \<le> 0x3FFFFFFF"
    using assms by (fastforce simp: bc_encode_head_def Let_def split: if_splits)
  then show ?thesis
  proof cases
    case 1
    then have h: "h = [ucast ?s]" using assms by (simp add: bc_encode_head_def)
    have "?n < 2 ^ 6" using 1 of_nat_usize_less [of len "0x3F" 6] by simp
    then have "drop_bit 2 (ucast (ucast ?s OR 0 :: u8)) = ?n"
      by (intro drop_tag [where m = 6]) auto
    moreover have "(ucast ?s :: u8) AND 3 = 0" using low_tag [of ?n "0 :: u8"] by simp
    ultimately show ?thesis using 1 h by (simp add: bc_head_len_def bc_head_value_def)
  next
    case 2
    obtain w where w: "w = (ucast ?s OR 1 :: u16)" by simp
    have h: "h = put_u16_le w" using 2 assms w by (simp add: bc_encode_head_def Let_def)
    have "?n < 2 ^ 14" using 2 of_nat_usize_less [of len "0x3FFF" 14] by simp
    then have "drop_bit 2 (ucast w) = ?n" unfolding w by (intro drop_tag [where m = 14]) auto
    moreover have "(ucast w :: u8) AND 3 = 1" using low_tag [of ?n "1 :: u16"] w by simp
    ultimately show ?thesis using 2 h join_u16 [of w]
      by (simp add: bc_head_len_def bc_head_value_def put_u16_le_def Let_def del: drop_bit_or)
  next
    case 3
    obtain w where w: "w = (ucast ?s OR 2 :: u32)" by simp
    have e: "(ucast (w AND 0xFFFF) :: u16) = ucast w" "(ucast (ucast w :: u16) :: u8) = ucast w"
      unfolding and_FFFF_eq_take_bit by (rule bit_word_eqI; auto simp: bit_simps)+
    have h: "h = put_u16_le (ucast w) @ [ucast (drop_bit 16 w)]"
      using 3 assms e w by (simp add: bc_encode_head_def Let_def)
    have n: "?n < 2 ^ 22" using 3 of_nat_usize_less [of len "0x3FFFFF" 22] by simp
    have "drop_bit 2 (take_bit 24 (ucast w)) = take_bit 22 (drop_bit 2 (ucast w) :: usize)"
      by (simp add: drop_bit_take_bit)
    also have "drop_bit 2 (ucast w) = ?n"
      using n unfolding w by (intro drop_tag [where m = 22]) auto
    also have "take_bit 22 ?n = ?n"
      using n less_mask_eq [of ?n 22] by (simp add: take_bit_eq_mask)
    finally have "drop_bit 2 (take_bit 24 (ucast w)) = ?n" .
    moreover have "(ucast w :: u8) AND 3 = 2" using low_tag [of ?n "2 :: u32"] w by simp
    ultimately show ?thesis using 3 h e join_u24 [of w]
      by (simp add: bc_head_len_def bc_head_value_def put_u16_le_def Let_def or.assoc
          del: drop_bit_or)
  next
    case 4
    obtain w where w: "w = (ucast ?s OR 3 :: u32)" by simp
    have h: "h = put_u32_le w" using 4 assms w by (simp add: bc_encode_head_def Let_def)
    have "?n < 2 ^ 30" using 4 of_nat_usize_less [of len "0x3FFFFFFF" 30] by simp
    then have "drop_bit 2 (ucast w) = ?n" unfolding w by (intro drop_tag [where m = 30]) auto
    moreover have "(ucast w :: u8) AND 3 = 3" using low_tag [of ?n "3 :: u32"] w by simp
    ultimately show ?thesis using 4 h join_u32 [of w]
      by (simp add: bc_head_len_def bc_head_value_def put_u32_le_def Let_def or.assoc
          del: drop_bit_or)
  qed
qed

section \<open>Encoding and decoding packets\<close>

lemma bc_encode_head_ok: "len \<le> 0x3FFFFFFF \<Longrightarrow> \<exists>h. bc_encode_head len = Inr h"
  by (auto simp: bc_encode_head_def Let_def)

lemma bc_decode_payload_append:
  "length dat = unat n \<Longrightarrow>
    bc_decode_payload c n (dat @ rest) = (Inr (Some dat), c\<lparr>bc_state := Head\<rparr>, rest)"
  by (simp add: bc_decode_payload_def bc_decode_data_def)

lemma unat_of_nat_usize: "len \<le> 0x3FFFFFFF \<Longrightarrow> unat (of_nat len :: usize) = len"
  by (simp add: unat_of_nat take_bit_eq_mod)

lemma bc_decode_encoded:
  assumes "\<not> bc_raw c" "bc_state c = Head" "bc_encode_head (length dat) = Inr h"
    and "of_nat (length dat) \<le> bc_max_packet_length c"
  shows "bc_decode c (h @ dat @ rest) = (Inr (Some dat), c, rest)"
proof -
  from bc_encode_head_decode [OF assms(3), of "dat @ rest"]
  have h: "length dat \<le> 0x3FFFFFFF" "h \<noteq> []" "bc_head_len (h ! 0) = length h"
    "bc_head_value (h @ dat @ rest) = of_nat (length dat)" by auto
  have "bc_decode_head c (h @ dat @ rest) = Inr (Some (of_nat (length dat), dat @ rest))"
    using h assms(4) by (simp add: bc_decode_head_def nth_append Let_def not_less)
  then show ?thesis
    using h assms(1,2) unat_of_nat_usize [OF h(1)]
    by (simp add: bc_decode_def bc_decode_payload_append)
qed

lemma bc_decode_keeps:
  "bc_decode c src = (r, c', src') \<Longrightarrow>
    bc_raw c' = bc_raw c \<and> bc_max_packet_length c' = bc_max_packet_length c"
  by (auto simp: bc_decode_def bc_decode_payload_def split: if_splits option.splits sum.splits
      decode_state.splits)

text \<open>
  A call that wants more bytes changes nothing that matters: whatever arrives next, decoding
  what it left behind gives exactly what decoding everything at once gives.
\<close>

lemma bc_decode_head_append:
  "src \<noteq> [] \<Longrightarrow> bc_head_len (src ! 0) \<le> length src \<Longrightarrow>
    bc_decode_head c (src @ later) =
      map_sum id (map_option (map_prod id (\<lambda>rest. rest @ later))) (bc_decode_head c src)"
proof -
  assume src: "src \<noteq> []" "bc_head_len (src ! 0) \<le> length src"
  have "bc_head_len b = 1 \<or> bc_head_len b = 2 \<or> bc_head_len b = 3 \<or> bc_head_len b = 4" for b
  proof -
    have "b AND 3 \<le> 3" by (rule word_and_le1)
    then have "unat (b AND 3) \<le> 3" by (simp add: word_le_nat_alt)
    then show ?thesis
      by (auto simp: bc_head_len_def unat_word_ariths)
  qed
  then have "bc_head_value (src @ later) = bc_head_value src"
    using src by (auto simp: bc_head_value_def nth_append Let_def)
  then show ?thesis
    using src by (simp add: bc_decode_head_def nth_append Let_def)
qed

lemma bc_decode_payload_more:
  "bc_decode_payload c n src = (Inr None, c', src') \<Longrightarrow> c' = c \<and> src' = src"
  by (auto simp: bc_decode_payload_def bc_decode_data_def split: if_splits)

lemma bc_decode_incremental:
  assumes "bc_decode c src = (Inr None, c', src')"
  shows "bc_decode c' (src' @ later) = bc_decode c (src @ later)"
proof (cases "bc_raw c")
  case True
  with assms show ?thesis by (auto simp: bc_decode_def split: if_splits)
next
  case raw: False
  show ?thesis
  proof (cases "bc_state c")
    case (Data n)
    with raw assms have "bc_decode_payload c n src = (Inr None, c', src')"
      by (simp add: bc_decode_def)
    then show ?thesis by (auto dest: bc_decode_payload_more)
  next
    case Head
    show ?thesis
    proof (cases "bc_decode_head c src")
      case (Inl e)
      with raw Head assms show ?thesis by (simp add: bc_decode_def)
    next
      case (Inr r)
      show ?thesis
      proof (cases r)
        case None
        with raw Head Inr assms show ?thesis by (simp add: bc_decode_def)
      next
        case (Some nr)
        obtain n rest where nr: "nr = (n, rest)" by (cases nr)
        from raw Head Inr Some nr assms
        have "bc_decode_payload (c\<lparr>bc_state := Data n\<rparr>) n rest = (Inr None, c', src')"
          by (simp add: bc_decode_def)
        then have c': "c' = c\<lparr>bc_state := Data n\<rparr>" "src' = rest"
          by (auto dest: bc_decode_payload_more)
        from Inr Some nr have "src \<noteq> []" "bc_head_len (src ! 0) \<le> length src"
          by (auto simp: bc_decode_head_def Let_def split: if_splits)
        from bc_decode_head_append [OF this] Inr Some nr
        have "bc_decode_head c (src @ later) = Inr (Some (n, rest @ later))" by simp
        with raw Head c' show ?thesis by (simp add: bc_decode_def)
      qed
    qed
  qed
qed

text \<open>A packet or an error found in a prefix is found again when more bytes follow.\<close>

lemma bc_decode_payload_some:
  "bc_decode_payload c n src = (Inr (Some m), c', src') \<Longrightarrow>
    bc_decode_payload c n (src @ later) = (Inr (Some m), c', src' @ later)"
  by (auto simp: bc_decode_payload_def bc_decode_data_def split: if_splits)

lemma bc_decode_head_consumed:
  "bc_decode_head c src = Inr (Some (n, rest)) \<Longrightarrow>
    bc_decode_head c (src @ later) = Inr (Some (n, rest @ later))"
  using bc_decode_head_append [of src c later]
  by (auto simp: bc_decode_head_def Let_def split: if_splits)

lemma bc_decode_some_append:
  assumes "\<not> bc_raw c" "bc_decode c src = (Inr (Some m), c', src')"
  shows "bc_decode c (src @ later) = (Inr (Some m), c', src' @ later)"
proof (cases "bc_state c")
  case (Data n)
  with assms show ?thesis by (simp add: bc_decode_def bc_decode_payload_some)
next
  case Head
  with assms obtain n rest where "bc_decode_head c src = Inr (Some (n, rest))"
    "bc_decode_payload (c\<lparr>bc_state := Data n\<rparr>) n rest = (Inr (Some m), c', src')"
    by (auto simp: bc_decode_def split: sum.splits option.splits)
  with assms(1) Head show ?thesis
    by (simp add: bc_decode_def bc_decode_head_consumed bc_decode_payload_some)
qed

lemma bc_decode_err_append:
  assumes "\<not> bc_raw c" "bc_decode c src = (Inl e, c', src')"
  shows "fst (bc_decode c (src @ later)) = Inl e"
proof (cases "bc_state c")
  case (Data n)
  with assms show ?thesis
    by (auto simp: bc_decode_def bc_decode_payload_def split: option.splits)
next
  case Head
  with assms have h: "bc_decode_head c src = Inl e"
    by (auto simp: bc_decode_def bc_decode_payload_def split: sum.splits option.splits)
  then have "src \<noteq> []" "bc_head_len (src ! 0) \<le> length src"
    by (auto simp: bc_decode_head_def Let_def split: if_splits)
  from bc_decode_head_append [OF this] h have "bc_decode_head c (src @ later) = Inl e" by simp
  with assms(1) Head show ?thesis by (simp add: bc_decode_def)
qed

end
