(* ===== verification/Framing.thy ===== *)
theory Framing
  imports Bytes_Codec
begin

text \<open>
  The interface between a stream and its codec. \<open>Framed\<close> of \<open>tokio_util\<close> appends what the
  socket delivers to a buffer and calls \<open>decode\<close> until it asks for more bytes; \<open>drain\<close> and
  \<open>feed\<close> are that documented loop. The locale \<open>framing\<close> collects what the loop needs of a codec,
  and proves once that the packets come out whole and in order however the byte stream is cut
  into chunks; the interpretation discharges the laws for the program's codec.
\<close>

type_synonym ('e, 'm, 'c, 'b) decoder = "'c \<Rightarrow> 'b list \<Rightarrow> ('e + 'm option) \<times> 'c \<times> 'b list"

fun drain :: "('e, 'm, 'c, 'b) decoder \<Rightarrow> nat \<Rightarrow> 'c \<Rightarrow> 'b list
    \<Rightarrow> 'm list \<times> 'e option \<times> 'c \<times> 'b list" where
  "drain dec 0 c buf = ([], None, c, buf)"
| "drain dec (Suc fuel) c buf =
     (case dec c buf of
        (Inl e, c', buf') \<Rightarrow> ([], Some e, c', buf')
      | (Inr None, c', buf') \<Rightarrow> ([], None, c', buf')
      | (Inr (Some m), c', buf') \<Rightarrow> (case drain dec fuel c' buf' of (ms, r) \<Rightarrow> (m # ms, r)))"

fun feed :: "('e, 'm, 'c, 'b) decoder \<Rightarrow> nat \<Rightarrow> 'c \<Rightarrow> 'b list \<Rightarrow> 'b list list
    \<Rightarrow> 'm list \<times> 'e option \<times> 'c \<times> 'b list" where
  "feed dec fuel c buf [] = ([], None, c, buf)"
| "feed dec fuel c buf (chunk # chunks) =
     (case drain dec fuel c (buf @ chunk) of
        (ms, Some e, c', buf') \<Rightarrow> (ms, Some e, c', buf')
      | (ms, None, c', buf') \<Rightarrow>
          (case feed dec fuel c' buf' chunks of (ms', r) \<Rightarrow> (ms @ ms', r)))"

locale framing =
  fixes dec :: "('e, 'm, 'c, 'b) decoder"
    and enc :: "'m \<Rightarrow> 'b list"
    and idle :: 'c
    and ok :: "'m \<Rightarrow> bool"
  assumes frame: "ok m \<Longrightarrow> dec idle (enc m @ rest) = (Inr (Some m), idle, rest)"
    and frame_nonempty: "ok m \<Longrightarrow> enc m \<noteq> []"
    and idle_empty: "dec idle [] = (Inr None, idle, [])"
    and incremental: "dec c src = (Inr None, c', src') \<Longrightarrow> dec c' (src' @ later) = dec c (src @ later)"
    and some_append: "dec idle src = (Inr (Some m), c', src') \<Longrightarrow>
      dec idle (src @ later) = (Inr (Some m), c', src' @ later)"
    and err_append: "dec idle src = (Inl e, c', src') \<Longrightarrow> fst (dec idle (src @ later)) = Inl e"
begin

lemma partial_frame:
  assumes "ok m" "p @ q = enc m" "q \<noteq> []"
  shows "\<exists>c b. dec idle p = (Inr None, c, b)"
proof -
  have whole: "dec idle (p @ q) = (Inr (Some m), idle, [])"
    using frame [OF assms(1), of "[]"] assms(2) by simp
  obtain r c b where d: "dec idle p = (r, c, b)" by (cases "dec idle p")
  show ?thesis
  proof (cases r)
    case (Inl e)
    with err_append [of p e c b q] d whole show ?thesis by simp
  next
    case (Inr o')
    show ?thesis
    proof (cases o')
      case None
      with Inr d show ?thesis by simp
    next
      case (Some m')
      with some_append [of p m' c b q] Inr d whole assms(3) show ?thesis by simp
    qed
  qed
qed

lemma drain_prefix:
  assumes "\<forall>m \<in> set ms. ok m" "p @ q = concat (map enc ms)" "length ms < fuel"
  shows "\<exists>ms1 ms2 p2 c b. drain dec fuel idle p = (ms1, None, c, b) \<and> ms = ms1 @ ms2
    \<and> dec idle p2 = (Inr None, c, b) \<and> p2 @ q = concat (map enc ms2)"
  using assms
proof (induction ms arbitrary: p fuel)
  case Nil
  then obtain k where "fuel = Suc k" by (cases fuel) auto
  with Nil idle_empty show ?case by auto
next
  case (Cons m ms)
  then obtain k where k: "fuel = Suc k" by (cases fuel) auto
  have m: "ok m" and ms: "\<forall>m \<in> set ms. ok m" using Cons.prems(1) by auto
  consider p' where "p = enc m @ p'" "p' @ q = concat (map enc ms)"
    | q' where "p @ q' = enc m" "q' \<noteq> []" "q = q' @ concat (map enc ms)"
    using Cons.prems(2) by (fastforce simp: append_eq_append_conv2)
  then show ?case
  proof cases
    case 1
    then obtain ms1 ms2 p2 c b where "drain dec k idle p' = (ms1, None, c, b)"
      "ms = ms1 @ ms2" "dec idle p2 = (Inr None, c, b)" "p2 @ q = concat (map enc ms2)"
      using Cons.IH [OF ms, of p' k] Cons.prems(3) k by auto
    with 1 k frame [OF m] show ?thesis
      by (intro exI [of _ "m # ms1"] exI [of _ ms2] exI [of _ p2] exI) auto
  next
    case 2
    with partial_frame [OF m] obtain c b where "dec idle p = (Inr None, c, b)" by blast
    with k Cons.prems(2) show ?thesis
      by (intro exI [of _ "[]"] exI [of _ "m # ms"] exI [of _ p] exI [of _ c] exI [of _ b]) auto
  qed
qed

lemma drain_resume:
  "dec idle p = (Inr None, c, b) \<Longrightarrow> 0 < fuel \<Longrightarrow>
    drain dec fuel c (b @ chunk) = drain dec fuel idle (p @ chunk)"
  using incremental by (cases fuel) auto

lemma feed_from:
  assumes "\<forall>m \<in> set ms. ok m" "dec idle p = (Inr None, c, b)"
    and "p @ concat chunks = concat (map enc ms)" "length ms < fuel"
  shows "feed dec fuel c b chunks = (ms, None, idle, [])"
  using assms
proof (induction chunks arbitrary: ms p c b)
  case Nil
  show ?case
  proof (cases ms)
    case Nil
    with Nil.prems idle_empty show ?thesis by simp
  next
    case (Cons m ms')
    with Nil.prems frame [of m "concat (map enc ms')"] show ?thesis by simp
  qed
next
  case (Cons chunk chunks)
  have "(p @ chunk) @ concat chunks = concat (map enc ms)" using Cons.prems(3) by simp
  from drain_prefix [OF Cons.prems(1) this Cons.prems(4)]
  obtain ms1 ms2 p2 c' b' where d: "drain dec fuel idle (p @ chunk) = (ms1, None, c', b')"
    "ms = ms1 @ ms2" "dec idle p2 = (Inr None, c', b')" "p2 @ concat chunks = concat (map enc ms2)"
    by blast
  have "feed dec fuel c' b' chunks = (ms2, None, idle, [])"
    using Cons.IH [of ms2 p2] Cons.prems(1,4) d by simp
  with d drain_resume [OF Cons.prems(2)] Cons.prems(4) show ?case by simp
qed

lemma feed_stream:
  assumes "\<forall>m \<in> set ms. ok m" "concat chunks = concat (map enc ms)" "length ms < fuel"
  shows "feed dec fuel idle [] chunks = (ms, None, idle, [])"
  using feed_from [OF assms(1) idle_empty] assms(2,3) by simp

end

section \<open>The program's codec frames\<close>

definition packet_ok :: "bytes_codec \<Rightarrow> bytes \<Rightarrow> bool" where
  "packet_ok c dat \<longleftrightarrow>
     length dat \<le> 0x3FFFFFFF \<and> of_nat (length dat) \<le> bc_max_packet_length c"

definition packet_bytes :: "bytes \<Rightarrow> bytes" where
  "packet_bytes dat = (case bc_encode bc_new dat [] of Inl _ \<Rightarrow> [] | Inr buf \<Rightarrow> buf)"

lemma packet_bytes_split:
  assumes "length dat \<le> 0x3FFFFFFF"
  shows "\<exists>h. bc_encode_head (length dat) = Inr h \<and> h \<noteq> [] \<and> packet_bytes dat = h @ dat"
proof -
  from bc_encode_head_ok [OF assms] obtain h where h: "bc_encode_head (length dat) = Inr h" ..
  moreover from bc_encode_head_decode [OF h] have "h \<noteq> []" by blast
  ultimately show ?thesis by (simp add: packet_bytes_def bc_encode_def bc_new_def)
qed

lemma bc_decode_idle_empty: "\<not> bc_raw c \<Longrightarrow> bc_state c = Head \<Longrightarrow> bc_decode c [] = (Inr None, c, [])"
  by (simp add: bc_decode_def bc_decode_head_def)

lemma framing_bc:
  assumes "\<not> bc_raw c" "bc_state c = Head"
  shows "framing bc_decode packet_bytes c (packet_ok c)"
proof (unfold_locales, goal_cases)
  case (1 m rest)
  then obtain h where "bc_encode_head (length m) = Inr h" "packet_bytes m = h @ m"
    using packet_bytes_split by (auto simp: packet_ok_def)
  with 1 bc_decode_encoded [OF assms] show ?case by (simp add: packet_ok_def)
next
  case (2 m)
  then show ?case using packet_bytes_split by (fastforce simp: packet_ok_def)
next
  case 3
  show ?case using assms by (rule bc_decode_idle_empty)
next
  case (4 c src c' src' later)
  then show ?case by (rule bc_decode_incremental)
next
  case (5 src m c' src' later)
  then show ?case using assms(1) by (intro bc_decode_some_append)
next
  case (6 src e c' src' later)
  then show ?case using assms(1) by (intro bc_decode_err_append)
qed

interpretation bc_frames: framing bc_decode packet_bytes bc_new "packet_ok bc_new"
  by (rule framing_bc) (simp_all add: bc_new_def)

section \<open>Properties\<close>

text \<open>
  C1: Packets survive any fragmentation of the byte stream: however the encoded packets are cut
  into chunks on the wire, the read loop delivers exactly the packets that were encoded, in order,
  without an error, and is left idle with an empty buffer.
\<close>

theorem packets_survive_chunking:
  assumes "\<forall>m \<in> set ms. length m \<le> 0x3FFFFFFF"
    and "concat chunks = concat (map packet_bytes ms)"
    and "length ms < fuel"
  shows "feed bc_decode fuel bc_new [] chunks = (ms, None, bc_new, [])"
  using assms by (intro bc_frames.feed_stream) (simp_all add: packet_ok_def bc_new_def)

theorem packets_survive_chunking_witness:
  "feed bc_decode 3 bc_new [] [[12, 1], [], [2, 3, 4], [7]] = ([[1, 2, 3], [7]], None, bc_new, [])"
proof -
  have "concat [[12, 1], [], [2, 3, 4], [7]] = concat (map packet_bytes [[1, 2, 3], [7]])"
    by code_simp
  from packets_survive_chunking [OF _ this, of 3] show ?thesis by simp
qed

text \<open>
  The encoder's outcome on every branch: it appends a head of 1, 2, 3 or 4 bytes chosen by the
  length of the data and then the data, and refuses exactly the packets longer than 30 bits of
  length can express; a raw codec appends the data alone.
\<close>

definition head_size :: "nat \<Rightarrow> nat" where
  "head_size len = (if len \<le> 0x3F then 1 else if len \<le> 0x3FFF then 2
     else if len \<le> 0x3FFFFF then 3 else 4)"

theorem bc_encode_outcome:
  "bc_encode c dat buf =
     (if bc_raw c then Inr (buf @ dat)
      else if length dat \<le> 0x3FFFFFFF
      then Inr (buf @ take (head_size (length dat)) (packet_bytes dat) @ dat)
      else Inl (InvalidInput ''Overflow''))"
proof (cases "length dat \<le> 0x3FFFFFFF")
  case True
  then obtain h where h: "bc_encode_head (length dat) = Inr h" "packet_bytes dat = h @ dat"
    using packet_bytes_split by blast
  then have "length h = head_size (length dat)"
    by (auto simp: bc_encode_head_def head_size_def put_u16_le_def put_u32_le_def Let_def
        split: if_splits)
  with h True show ?thesis by (simp add: bc_encode_def)
next
  case False
  then show ?thesis by (simp add: bc_encode_def bc_encode_head_def Let_def)
qed

text \<open>
  A head that announces more than the configured maximum is refused as soon as it is
  complete, and the refusal changes neither the codec nor the buffer, so the stream stays in error
  whatever else arrives.
\<close>

theorem bc_decode_refuses_oversized:
  assumes "\<not> bc_raw c" "bc_state c = Head" "bc_encode_head len = Inr h"
    and "bc_max_packet_length c < of_nat len"
  shows "bc_decode c (h @ rest) = (Inl (InvalidData ''Too big packet''), c, h @ rest)"
proof -
  from bc_encode_head_decode [OF assms(3), of rest]
  have "h \<noteq> []" "bc_head_len (h ! 0) = length h" "bc_head_value (h @ rest) = of_nat len" by auto
  with assms show ?thesis
    by (simp add: bc_decode_def bc_decode_head_def nth_append Let_def)
qed

theorem bc_decode_refuses_oversized_witness:
  "bc_decode (bc_set_max_packet_length 5 bc_new) [24, 9] =
     (Inl (InvalidData ''Too big packet''), bc_set_max_packet_length 5 bc_new, [24, 9])"
proof -
  have h: "bc_encode_head 6 = Inr [24]" by (simp add: bc_encode_head_def)
  have c: "\<not> bc_raw (bc_set_max_packet_length 5 bc_new)"
    "bc_state (bc_set_max_packet_length 5 bc_new) = Head"
    "bc_max_packet_length (bc_set_max_packet_length 5 bc_new) < of_nat 6"
    by (simp_all add: bc_set_max_packet_length_def bc_new_def)
  from bc_decode_refuses_oversized [OF c(1,2) h c(3), of "[9]"] show ?thesis by simp
qed

end
