(* ===== verification/Tcp_Stream.thy ===== *)
theory Tcp_Stream
  imports Framing
begin

text \<open>
  \<open>libs/hbb_common/src/tcp.rs\<close>: the framed TCP stream and its symmetric encryption. The
  authenticated cipher (\<open>sodiumoxide::crypto::secretbox\<close>) is a parameter: \<open>seal\<close> and
  \<open>sopen\<close> take the text, the nonce and the key.
\<close>

section \<open>Model\<close>

type_synonym nonce = bytes
type_synonym 'k sealer = "bytes \<Rightarrow> nonce \<Rightarrow> 'k \<Rightarrow> bytes"
type_synonym 'k opener = "bytes \<Rightarrow> nonce \<Rightarrow> 'k \<Rightarrow> bytes option"

datatype stream_error = Codec io_error | Decryption string

text \<open>\<open>Encrypt(Key, u64, u64)\<close>: the key, the counter of sent and of received messages.\<close>

record 'k encrypt =
  en_key :: 'k
  en_sent :: u64
  en_received :: u64

definition encrypt_new :: "'k \<Rightarrow> 'k encrypt" where
  "encrypt_new key = \<lparr>en_key = key, en_sent = 0, en_received = 0\<rparr>"

definition u64_to_le_bytes :: "u64 \<Rightarrow> bytes" where
  "u64_to_le_bytes n = map (\<lambda>i. ucast (drop_bit (8 * i) n)) [0..<8]"

text \<open>\<open>secretbox::NONCEBYTES\<close> is 24: eight counter bytes, then zeros.\<close>

definition get_nonce :: "u64 \<Rightarrow> nonce" where
  "get_nonce seqnum = u64_to_le_bytes seqnum @ replicate 16 0"

definition encrypt_enc :: "'k sealer \<Rightarrow> 'k encrypt \<Rightarrow> bytes \<Rightarrow> bytes \<times> 'k encrypt" where
  "encrypt_enc seal e dat =
     (let e = e\<lparr>en_sent := en_sent e + 1\<rparr>
      in (seal dat (get_nonce (en_sent e)) (en_key e), e))"

definition encrypt_dec :: "'k opener \<Rightarrow> 'k encrypt \<Rightarrow> bytes \<Rightarrow> (stream_error + bytes) \<times> 'k encrypt" where
  "encrypt_dec sopen e byts =
     (if length byts \<le> 1 then (Inr byts, e)
      else let e = e\<lparr>en_received := en_received e + 1\<rparr> in
        (case sopen byts (get_nonce (en_received e)) (en_key e) of
           Some res \<Rightarrow> (Inr res, e)
         | None \<Rightarrow> (Inl (Decryption ''decryption error''), e)))"

text \<open>The stream: its codec with the receive buffer, the encryption, the send timeout.\<close>

record 'k framed_stream =
  fs_codec :: bytes_codec
  fs_buf :: bytes
  fs_encrypt :: "'k encrypt option"
  fs_send_timeout :: u64

definition framed_from :: "'k framed_stream" where
  "framed_from = \<lparr>fs_codec = bc_new, fs_buf = [], fs_encrypt = None, fs_send_timeout = 0\<rparr>"

definition fs_set_raw :: "'k framed_stream \<Rightarrow> 'k framed_stream" where
  "fs_set_raw s = s\<lparr>fs_codec := bc_set_raw (fs_codec s), fs_encrypt := None\<rparr>"

definition fs_is_secured :: "'k framed_stream \<Rightarrow> bool" where
  "fs_is_secured s \<longleftrightarrow> fs_encrypt s \<noteq> None"

definition fs_set_key :: "'k \<Rightarrow> 'k framed_stream \<Rightarrow> 'k framed_stream" where
  "fs_set_key key s = s\<lparr>fs_encrypt := Some (encrypt_new key)\<rparr>"

definition fs_set_send_timeout :: "u64 \<Rightarrow> 'k framed_stream \<Rightarrow> 'k framed_stream" where
  "fs_set_send_timeout ms s = s\<lparr>fs_send_timeout := ms\<rparr>"

text \<open>\<open>send_raw\<close>: the bytes that go to the socket, or the codec's error.\<close>

definition fs_send_raw :: "'k sealer \<Rightarrow> 'k framed_stream \<Rightarrow> bytes \<Rightarrow> (stream_error + bytes) \<times> 'k framed_stream" where
  "fs_send_raw seal s msg =
     (let (msg, s) = (case fs_encrypt s of
            None \<Rightarrow> (msg, s)
          | Some key \<Rightarrow> (case encrypt_enc seal key msg of (m, key') \<Rightarrow> (m, s\<lparr>fs_encrypt := Some key'\<rparr>)))
      in (case bc_encode (fs_codec s) msg [] of
            Inl e \<Rightarrow> (Inl (Codec e), s)
          | Inr byts \<Rightarrow> (Inr byts, s)))"

text \<open>
  \<open>next\<close> once the socket has delivered \<open>received\<close>: \<open>Inr None\<close> stands for waiting for more.
\<close>

definition fs_next :: "'k opener \<Rightarrow> 'k framed_stream \<Rightarrow> bytes
    \<Rightarrow> (stream_error + bytes option) \<times> 'k framed_stream" where
  "fs_next sopen s received =
     (case bc_decode (fs_codec s) (fs_buf s @ received) of
        (Inl e, c, buf) \<Rightarrow> (Inl (Codec e), s\<lparr>fs_codec := c, fs_buf := buf\<rparr>)
      | (Inr None, c, buf) \<Rightarrow> (Inr None, s\<lparr>fs_codec := c, fs_buf := buf\<rparr>)
      | (Inr (Some byts), c, buf) \<Rightarrow>
          (let s = s\<lparr>fs_codec := c, fs_buf := buf\<rparr> in
           case fs_encrypt s of
             None \<Rightarrow> (Inr (Some byts), s)
           | Some key \<Rightarrow>
               (case encrypt_dec sopen key byts of
                  (Inl e, key') \<Rightarrow> (Inl e, s\<lparr>fs_encrypt := Some key'\<rparr>)
                | (Inr res, key') \<Rightarrow> (Inr (Some res), s\<lparr>fs_encrypt := Some key'\<rparr>))))"

text \<open>Sending a list of messages, and receiving until the stream asks for more bytes.\<close>

fun send_all :: "'k sealer \<Rightarrow> 'k framed_stream \<Rightarrow> bytes list \<Rightarrow> (stream_error + bytes) \<times> 'k framed_stream" where
  "send_all seal s [] = (Inr [], s)"
| "send_all seal s (m # ms) =
     (case fs_send_raw seal s m of
        (Inl e, s') \<Rightarrow> (Inl e, s')
      | (Inr b, s') \<Rightarrow>
          (case send_all seal s' ms of
             (Inl e, s'') \<Rightarrow> (Inl e, s'')
           | (Inr bs, s'') \<Rightarrow> (Inr (b @ bs), s'')))"

fun receive_all :: "'k opener \<Rightarrow> nat \<Rightarrow> 'k framed_stream \<Rightarrow> bytes \<Rightarrow> bytes list \<times> stream_error option" where
  "receive_all sopen 0 s b = ([], None)"
| "receive_all sopen (Suc fuel) s b =
     (case fs_next sopen s b of
        (Inl e, s') \<Rightarrow> ([], Some e)
      | (Inr None, s') \<Rightarrow> ([], None)
      | (Inr (Some m), s') \<Rightarrow> (case receive_all sopen fuel s' [] of (ms, e) \<Rightarrow> (m # ms, e)))"

section \<open>Nonces\<close>

lemma u64_to_le_bytes_inj: "u64_to_le_bytes m = u64_to_le_bytes n \<Longrightarrow> m = n"
proof (rule bit_word_eqI)
  fix i
  assume eq: "u64_to_le_bytes m = u64_to_le_bytes n" and i: "i < LENGTH(64)"
  have "(u64_to_le_bytes k) ! (i div 8) = ucast (drop_bit (8 * (i div 8)) k)" for k
  proof -
    from i have "i div 8 < 8" by simp
    then show ?thesis by (simp add: u64_to_le_bytes_def nth_upt del: upt_rec_numeral)
  qed
  with eq have "(ucast (drop_bit (8 * (i div 8)) m) :: u8) = ucast (drop_bit (8 * (i div 8)) n)"
    by metis
  then have "bit (ucast (drop_bit (8 * (i div 8)) m) :: u8) (i mod 8)
      = bit (ucast (drop_bit (8 * (i div 8)) n) :: u8) (i mod 8)" by simp
  then show "bit m i = bit n i" using i by (simp add: bit_simps)
qed

lemma get_nonce_inj: "get_nonce m = get_nonce n \<Longrightarrow> m = n"
  by (simp add: get_nonce_def u64_to_le_bytes_inj)

section \<open>Secured streams\<close>

text \<open>A stream between two messages: idle codec, nothing buffered, encryption in the given state.\<close>

definition secured_at :: "'k \<Rightarrow> u64 \<Rightarrow> u64 \<Rightarrow> 'k framed_stream \<Rightarrow> bool" where
  "secured_at key sent received s \<longleftrightarrow>
     fs_codec s = bc_new \<and> fs_buf s = []
     \<and> fs_encrypt s = Some \<lparr>en_key = key, en_sent = sent, en_received = received\<rparr>"

lemma secured_at_start: "secured_at key 0 0 (fs_set_key key framed_from)"
  by (simp add: secured_at_def fs_set_key_def framed_from_def encrypt_new_def)

lemma packet_ok_bc_new: "packet_ok bc_new dat \<longleftrightarrow> length dat \<le> 0x3FFFFFFF"
  by (simp add: packet_ok_def bc_new_def)

lemma fs_send_secured:
  assumes "secured_at key n r s" "length (seal m (get_nonce (n + 1)) key) \<le> 0x3FFFFFFF"
  shows "\<exists>s'. fs_send_raw seal s m = (Inr (packet_bytes (seal m (get_nonce (n + 1)) key)), s')
    \<and> secured_at key (n + 1) r s'"
proof -
  obtain h where "bc_encode_head (length (seal m (get_nonce (n + 1)) key)) = Inr h"
    "packet_bytes (seal m (get_nonce (n + 1)) key) = h @ seal m (get_nonce (n + 1)) key"
    using packet_bytes_split [OF assms(2)] by blast
  with assms(1) show ?thesis
    by (simp add: fs_send_raw_def secured_at_def encrypt_enc_def Let_def bc_encode_def bc_new_def)
qed

lemma fs_next_secured:
  assumes s: "fs_codec s = bc_new" "fs_encrypt s = Some \<lparr>en_key = key, en_sent = n, en_received = r\<rparr>"
    and b: "fs_buf s @ received = packet_bytes x @ rest" and x: "length x \<le> 0x3FFFFFFF" "1 < length x"
    and m: "sopen x (get_nonce (r + 1)) key = Some m"
  shows "fs_next sopen s received = (Inr (Some m),
    s\<lparr>fs_buf := rest, fs_encrypt := Some \<lparr>en_key = key, en_sent = n, en_received = r + 1\<rparr>\<rparr>)"
proof -
  have "bc_decode (fs_codec s) (fs_buf s @ received) = (Inr (Some x), bc_new, rest)"
    using bc_frames.frame [of x rest] x(1) b by (simp add: packet_ok_bc_new s(1))
  with s m x(2) show ?thesis by (simp add: fs_next_def encrypt_dec_def Let_def)
qed

lemma fs_next_waits:
  "fs_codec s = bc_new \<Longrightarrow> fs_buf s = [] \<Longrightarrow> fs_next sopen s [] = (Inr None, s)"
  using bc_frames.idle_empty by (simp add: fs_next_def)

lemma secured_stream_transfers:
  assumes rt: "\<And>m n. sopen (seal m n key) n key = Some m"
    and len: "\<And>m n. length (seal m n key) = length m + 16"
    and ms: "\<forall>m \<in> set ms. length m + 16 \<le> 0x3FFFFFFF"
    and a: "secured_at key n r' a"
    and b: "fs_codec b = bc_new" "fs_encrypt b = Some \<lparr>en_key = key, en_sent = n', en_received = n\<rparr>"
  shows "\<exists>bs a' n1. send_all seal a ms = (Inr bs, a') \<and> secured_at key n1 r' a'
    \<and> (fs_buf b @ received = bs \<longrightarrow> receive_all sopen (Suc (length ms)) b received = (ms, None))"
  using ms a b
proof (induction ms arbitrary: n a b received)
  case Nil
  then have "fs_buf b @ received = [] \<Longrightarrow> fs_next sopen b received = (Inr None, b)"
    by (auto intro: fs_next_waits)
  with Nil.prems(2) show ?case by auto
next
  case (Cons m ms)
  let ?x = "seal m (get_nonce (n + 1)) key"
  have x: "length ?x \<le> 0x3FFFFFFF" "1 < length ?x" using Cons.prems(1) len by auto
  from fs_send_secured [where seal = seal and m = m, OF Cons.prems(2) x(1)] obtain a1
    where a1: "fs_send_raw seal a m = (Inr (packet_bytes ?x), a1)" "secured_at key (n + 1) r' a1"
    by blast
  have nxt: "fs_buf b @ received = packet_bytes ?x @ rest \<Longrightarrow>
      fs_next sopen b received = (Inr (Some m), b\<lparr>fs_buf := rest,
        fs_encrypt := Some \<lparr>en_key = key, en_sent = n', en_received = n + 1\<rparr>\<rparr>)" for rest
    by (rule fs_next_secured [OF Cons.prems(3,4) _ x]) (assumption, rule rt)
  let ?b1 = "\<lambda>rest. b\<lparr>fs_buf := rest,
    fs_encrypt := Some \<lparr>en_key = key, en_sent = n', en_received = n + 1\<rparr>\<rparr>"
  from Cons.prems(1) have ms: "\<forall>m \<in> set ms. length m + 16 \<le> 0x3FFFFFFF" by simp
  have b1: "fs_codec (?b1 rest) = bc_new"
    "fs_encrypt (?b1 rest) = Some \<lparr>en_key = key, en_sent = n', en_received = n + 1\<rparr>" for rest
    using Cons.prems(3) by simp_all
  obtain bs a' where bs: "send_all seal a1 ms = (Inr bs, a')"
    using Cons.IH [OF ms a1(2) b1] by blast
  then obtain n1 where "secured_at key n1 r' a'" using Cons.IH [OF ms a1(2) b1] by fastforce
  moreover have "receive_all sopen (Suc (length ms)) (?b1 bs) [] = (ms, None)"
    using Cons.IH [OF ms a1(2) b1, of bs "[]"] bs by auto
  ultimately show ?case using nxt [of bs] a1(1) bs by auto
qed

section \<open>Properties\<close>

text \<open>
  C2: What one end of a secured connection sends, the other end receives: every message, in
  order, unchanged, with no message lost or invented. The hypotheses are the cipher's documented
  behaviour (opening undoes sealing under the same nonce and key, sealing adds 16 bytes).
\<close>

theorem secure_stream_roundtrip:
  assumes "\<And>m n. sopen (seal m n key) n key = Some m"
    and "\<And>m n. length (seal m n key) = length m + 16"
    and "\<forall>m \<in> set ms. length m + 16 \<le> 0x3FFFFFFF"
  shows "\<exists>bs s. send_all seal (fs_set_key key framed_from) ms = (Inr bs, s)
    \<and> receive_all sopen (Suc (length ms)) (fs_set_key key framed_from) bs = (ms, None)"
proof -
  have start: "fs_codec (fs_set_key key framed_from) = bc_new"
    "fs_buf (fs_set_key key framed_from) = []"
    "fs_encrypt (fs_set_key key framed_from) = Some \<lparr>en_key = key, en_sent = 0, en_received = 0\<rparr>"
    by (simp_all add: fs_set_key_def framed_from_def encrypt_new_def)
  obtain bs s where "send_all seal (fs_set_key key framed_from) ms = (Inr bs, s)"
    using secured_stream_transfers [where seal = seal and sopen = sopen,
      OF assms secured_at_start start(1,3)] by blast
  with secured_stream_transfers [where seal = seal and sopen = sopen,
      OF assms secured_at_start start(1,3), where received = bs] start(2)
  show ?thesis by simp
qed

text \<open>A sealer with the documented shape: it prefixes the 16 leading bytes of the nonce.\<close>

definition tag_seal :: "unit sealer" where
  "tag_seal m n k = take 16 (n @ replicate 16 0) @ m"

definition tag_open :: "unit opener" where
  "tag_open c n k = (if take 16 c = take 16 (n @ replicate 16 0) then Some (drop 16 c) else None)"

lemma tag_open_seal: "tag_open (tag_seal m n k) n k = Some m"
  by (simp add: tag_open_def tag_seal_def)

lemma tag_seal_length: "length (tag_seal m n k) = length m + 16"
  by (simp add: tag_seal_def)

theorem secure_stream_roundtrip_witness:
  "\<exists>bs s. send_all tag_seal (fs_set_key () framed_from) [[1, 2, 3], [], [9]] = (Inr bs, s)
    \<and> receive_all tag_open 4 (fs_set_key () framed_from) bs = ([[1, 2, 3], [], [9]], None)"
proof -
  let ?ms = "[[1, 2, 3], [], [9]] :: bytes list"
  have "\<forall>m \<in> set ?ms. length m + 16 \<le> 0x3FFFFFFF" by simp
  note run = secure_stream_roundtrip [where seal = tag_seal and sopen = tag_open,
      OF tag_open_seal tag_seal_length this]
  have "Suc (length ?ms) = 4" by simp
  then show ?thesis using run by (simp only:)
qed

text \<open>
  C4: The two directions of a connection are not told apart: both ends start their counters at zero under the same key,
  so whatever an end has sent is accepted when it is sent back to it. It receives its own messages, in order and without
  an error, as if they came from the other end.
\<close>

theorem reflected_messages_accepted:
  assumes "\<And>m n. sopen (seal m n key) n key = Some m"
    and "\<And>m n. length (seal m n key) = length m + 16"
    and "\<forall>m \<in> set ms. length m + 16 \<le> 0x3FFFFFFF"
  shows "\<exists>bs s. send_all seal (fs_set_key key framed_from) ms = (Inr bs, s)
    \<and> receive_all sopen (Suc (length ms)) s bs = (ms, None)"
proof -
  have start: "fs_codec (fs_set_key key framed_from) = bc_new"
    "fs_encrypt (fs_set_key key framed_from) = Some \<lparr>en_key = key, en_sent = 0, en_received = 0\<rparr>"
    by (simp_all add: fs_set_key_def framed_from_def encrypt_new_def)
  obtain bs s n1 where s: "send_all seal (fs_set_key key framed_from) ms = (Inr bs, s)" "secured_at key n1 0 s"
    using secured_stream_transfers [where seal = seal and sopen = sopen, OF assms secured_at_start start] by blast
  then have b: "fs_codec s = bc_new" "fs_encrypt s = Some \<lparr>en_key = key, en_sent = n1, en_received = 0\<rparr>" "fs_buf s = []"
    by (simp_all add: secured_at_def)
  with s(1) secured_stream_transfers [where seal = seal and sopen = sopen, OF assms secured_at_start b(1,2),
      where received = bs] show ?thesis by auto
qed

theorem reflected_messages_accepted_witness:
  "\<exists>bs s. send_all tag_seal (fs_set_key () framed_from) [[1, 2, 3], [], [9]] = (Inr bs, s)
    \<and> receive_all tag_open 4 s bs = ([[1, 2, 3], [], [9]], None)"
proof -
  let ?ms = "[[1, 2, 3], [], [9]] :: bytes list"
  have "\<forall>m \<in> set ?ms. length m + 16 \<le> 0x3FFFFFFF" by simp
  note run = reflected_messages_accepted [where seal = tag_seal and sopen = tag_open,
      OF tag_open_seal tag_seal_length this]
  have "Suc (length ?ms) = 4" by simp
  then show ?thesis using run by (simp only:)
qed

text \<open>
  A packet of at most one byte passes a secured stream unauthenticated: injected in front of
  the genuine traffic it is delivered as it is, and everything after it is still accepted.
\<close>

theorem short_packet_unauthenticated:
  assumes "secured_at key n r s" "length x \<le> 1" "receive_all sopen fuel s bs = (ms, e)" "0 < fuel"
  shows "receive_all sopen (Suc fuel) s (packet_bytes x @ bs) = (x # ms, e)"
proof -
  have "bc_decode bc_new (packet_bytes x @ bs) = (Inr (Some x), bc_new, bs)"
    using bc_frames.frame [of x bs] assms(2) by (simp add: packet_ok_bc_new)
  with assms(1,2) have "fs_next sopen s (packet_bytes x @ bs) = (Inr (Some x), s\<lparr>fs_buf := bs\<rparr>)"
    by (simp add: secured_at_def fs_next_def encrypt_dec_def)
  moreover have "receive_all sopen fuel (s\<lparr>fs_buf := bs\<rparr>) [] = receive_all sopen fuel s bs"
  proof -
    have "fs_next sopen (s\<lparr>fs_buf := bs\<rparr>) [] = fs_next sopen s bs"
      using assms(1) by (cases s; cases "bc_decode bc_new bs")
        (simp add: fs_next_def secured_at_def split: sum.split option.split)
    then show ?thesis using assms(4) by (cases fuel) simp_all
  qed
  ultimately show ?thesis using assms(3) by simp
qed

theorem short_packet_unauthenticated_witness:
  "receive_all tag_open 2 (fs_set_key () framed_from) (packet_bytes [7] @ []) = ([[7]], None)"
proof -
  have "receive_all tag_open 1 (fs_set_key () framed_from) [] = ([], None)"
    by (simp add: fs_next_def fs_set_key_def framed_from_def bc_decode_idle_empty bc_new_def)
  from short_packet_unauthenticated [OF secured_at_start _ this, of "[7]"] show ?thesis
    by (simp add: numeral_2_eq_2)
qed

section \<open>An attacker on the wire\<close>

text \<open>The sealed texts a sender produces.\<close>

fun seal_all :: "'k sealer \<Rightarrow> 'k encrypt \<Rightarrow> bytes list \<Rightarrow> bytes list" where
  "seal_all seal e [] = []"
| "seal_all seal e (m # ms) = (case encrypt_enc seal e m of (c, e') \<Rightarrow> c # seal_all seal e' ms)"

lemma seal_all_nth:
  "seal_all seal e ms = map (\<lambda>i. seal (ms ! i) (get_nonce (en_sent e + of_nat (Suc i))) (en_key e)) [0..<length ms]"
proof (induction ms arbitrary: e)
  case (Cons m ms)
  have "[0..<length (m # ms)] = 0 # map Suc [0..<length ms]"
    by (simp only: list.size upt_conv_Cons map_Suc_upt) simp
  then show ?case
    using Cons.IH [of "e\<lparr>en_sent := en_sent e + 1\<rparr>"]
    by (simp add: encrypt_enc_def Let_def add.assoc del: upt_Suc)
qed simp

lemma sealed_at:
  assumes "c \<in> set (seal_all seal (encrypt_new key) ms)"
  shows "\<exists>i < length ms. c = seal (ms ! i) (get_nonce (of_nat (Suc i))) key"
  using assms by (auto simp: seal_all_nth encrypt_new_def)

text \<open>
  A message that a packet of more than one byte is opened to is the one with the number of the receiver that one of the
  ends sealed.
\<close>

lemma opened_is_sealed:
  assumes cipher: "\<And>m i m' j. sopen (seal m (get_nonce i) key) (get_nonce j) key = Some m' \<Longrightarrow> get_nonce j = get_nonce i \<and> m' = m"
    and forged: "\<And>c j m. sopen c (get_nonce j) key = Some m \<Longrightarrow>
      c \<in> set (seal_all seal (encrypt_new key) ms) \<union> set (seal_all seal (encrypt_new key) own)"
    and small: "length ms < 2 ^ 64 - 1" "length own < 2 ^ 64 - 1" "k < 2 ^ 64 - 1"
    and x: "sopen c (get_nonce (of_nat (Suc k))) key = Some x"
  shows "k < length ms \<and> x = ms ! k \<or> k < length own \<and> x = own ! k"
proof -
  have same: "i = k" if "get_nonce (of_nat (Suc k)) = get_nonce (of_nat (Suc i))" "i < 2 ^ 64 - 1" for i
  proof -
    have "(of_nat (Suc k) :: u64) = of_nat (Suc i)" using get_nonce_inj [OF that(1)] .
    then have "unat (of_nat (Suc k) :: u64) = unat (of_nat (Suc i) :: u64)" by simp
    with that(2) small(3) show ?thesis by (simp add: unat_of_nat take_bit_eq_mod del: of_nat_Suc)
  qed
  have from_: "k < length ns \<and> x = ns ! k"
    if ns: "c \<in> set (seal_all seal (encrypt_new key) ns)" "length ns < 2 ^ 64 - 1" for ns
  proof -
    obtain i where i: "i < length ns" "c = seal (ns ! i) (get_nonce (of_nat (Suc i))) key" using sealed_at [OF ns(1)] by blast
    with cipher x have "get_nonce (of_nat (Suc k)) = get_nonce (of_nat (Suc i))" "x = ns ! i" by blast+
    with same [of i] i(1) ns(2) show ?thesis by simp
  qed
  show ?thesis using forged [OF x] from_ [of ms] from_ [of own] small by blast
qed

lemma attacked_stream:
  assumes cipher: "\<And>m i m' j. sopen (seal m (get_nonce i) key) (get_nonce j) key = Some m' \<Longrightarrow> get_nonce j = get_nonce i \<and> m' = m"
    and forged: "\<And>c j m. sopen c (get_nonce j) key = Some m \<Longrightarrow>
      c \<in> set (seal_all seal (encrypt_new key) ms) \<union> set (seal_all seal (encrypt_new key) own)"
    and small: "length ms < 2 ^ 64 - 1" "length own < 2 ^ 64 - 1" "k + fuel < 2 ^ 64 - 1"
    and s: "fs_encrypt s = Some \<lparr>en_key = key, en_sent = n, en_received = of_nat k\<rparr>"
    and run: "receive_all sopen fuel s bs = (out, e)"
  shows "\<exists>got short. out \<in> shuffles got short \<and> (\<forall>x \<in> set short. length x \<le> 1)
    \<and> (\<forall>i < length got. k + i < length ms \<and> got ! i = ms ! (k + i) \<or> k + i < length own \<and> got ! i = own ! (k + i))"
  using small(3) s run
proof (induction fuel arbitrary: k s bs out)
  case 0
  then show ?case by (intro exI [of _ "[]"]) simp
next
  case (Suc fuel)
  obtain r s' where nxt: "fs_next sopen s bs = (r, s')" by fastforce
  show ?case
  proof (cases "\<exists>m. r = Inr (Some m)")
    case False
    with Suc.prems(3) nxt have "out = []" by (auto split: sum.splits option.splits)
    then show ?thesis by (intro exI [of _ "[]"]) simp
  next
    case True
    then obtain m where m: "r = Inr (Some m)" by blast
    obtain rest where out: "out = m # rest" "receive_all sopen fuel s' [] = (rest, e)"
      using Suc.prems(3) nxt m by (auto split: prod.splits)
    from nxt m Suc.prems(2) obtain c buf byts where d: "bc_decode (fs_codec s) (fs_buf s @ bs) = (Inr (Some byts), c, buf)"
      by (auto simp: fs_next_def split: prod.splits sum.splits option.splits)
    show ?thesis
    proof (cases "length byts \<le> 1")
      case True
      with nxt m d Suc.prems(2) have "m = byts" "fs_encrypt s' = Some \<lparr>en_key = key, en_sent = n, en_received = of_nat k\<rparr>"
        by (auto simp: fs_next_def encrypt_dec_def)
      with True Suc.IH [OF _ _ out(2), of k] Suc.prems(1) obtain got short where g: "rest \<in> shuffles got short"
        "\<forall>x \<in> set short. length x \<le> 1"
        "\<forall>i < length got. k + i < length ms \<and> got ! i = ms ! (k + i) \<or> k + i < length own \<and> got ! i = own ! (k + i)"
        by auto
      then have "out \<in> shuffles got (m # short)" using out(1) by (cases got) (auto simp: Cons_in_shuffles_iff)
      with g True \<open>m = byts\<close> show ?thesis by (intro exI [of _ got] exI [of _ "m # short"]) simp
    next
      case False
      with nxt m d Suc.prems(2) have o: "sopen byts (get_nonce (of_nat (Suc k))) key = Some m"
        "fs_encrypt s' = Some \<lparr>en_key = key, en_sent = n, en_received = of_nat (Suc k)\<rparr>"
        by (auto simp: fs_next_def encrypt_dec_def Let_def add.commute split: option.splits)
      have this_is: "k < length ms \<and> m = ms ! k \<or> k < length own \<and> m = own ! k"
      proof (rule opened_is_sealed [where sopen = sopen and seal = seal and key = key])
        show "k < 2 ^ 64 - 1" using Suc.prems(1) by simp
      qed (fact cipher forged small(1,2) o(1))+
      from Suc.IH [OF _ o(2) out(2)] Suc.prems(1) obtain got short where g: "rest \<in> shuffles got short"
        "\<forall>x \<in> set short. length x \<le> 1"
        "\<forall>i < length got. Suc k + i < length ms \<and> got ! i = ms ! (Suc k + i)
          \<or> Suc k + i < length own \<and> got ! i = own ! (Suc k + i)"
        by auto
      have "out \<in> shuffles (m # got) short" using out(1) g(1) by (cases short) (auto simp: Cons_in_shuffles_iff)
      moreover have "k + i < length ms \<and> (m # got) ! i = ms ! (k + i) \<or> k + i < length own \<and> (m # got) ! i = own ! (k + i)"
        if "i < length (m # got)" for i
        using that this_is Suc.prems(1) g(3) by (cases i) auto
      ultimately show ?thesis using g(2) by blast
    qed
  qed
qed

text \<open>
  C3: What an attacker on the wire can do. Whatever bytes reach an end of a secured connection, cut, repeated, reordered or
  made up, the messages it delivers before the first error are, apart from texts of at most one byte, the first messages
  of the connection in their order: the i-th of them is the i-th message the other end sealed or the i-th it sealed itself.
  The cipher is assumed to be authenticated: it opens only what one of the two ends has sealed with the key, and
  that only under its own nonce.
\<close>

theorem attacker_delivers_prefix:
  assumes "\<And>m i m' j. sopen (seal m (get_nonce i) key) (get_nonce j) key = Some m' \<Longrightarrow> get_nonce j = get_nonce i \<and> m' = m"
    and "\<And>c j m. sopen c (get_nonce j) key = Some m \<Longrightarrow>
      c \<in> set (seal_all seal (encrypt_new key) ms) \<union> set (seal_all seal (encrypt_new key) own)"
    and "length ms < 2 ^ 64 - 1" "length own < 2 ^ 64 - 1" "fuel < 2 ^ 64 - 1"
    and "receive_all sopen fuel (fs_set_key key framed_from) bs = (out, e)"
  shows "\<exists>got short. out \<in> shuffles got short \<and> (\<forall>x \<in> set short. length x \<le> 1)
    \<and> (\<forall>i < length got. i < length ms \<and> got ! i = ms ! i \<or> i < length own \<and> got ! i = own ! i)"
  using attacked_stream [where sopen = sopen and seal = seal and key = key and ms = ms and own = own and k = 0
      and fuel = fuel and s = "fs_set_key key framed_from" and n = 0 and bs = bs and out = out and e = e] assms
  by (simp add: fs_set_key_def encrypt_new_def)

text \<open>
  A cipher that opens nothing but two packets: in an example the other end sends two messages, and the attacker puts a
  text of one byte between them, then repeats the second and makes one up.
\<close>

definition two_open :: "unit opener" where
  "two_open c n k = (if c \<in> set (seal_all tag_seal (encrypt_new ()) [[5, 6], [7, 8]]) \<and> take 16 c = take 16 n
     then Some (drop 16 c) else None)"

lemma nonce_length: "length (get_nonce k) = 24"
  by (simp add: get_nonce_def u64_to_le_bytes_def)

lemma nonce_front: "take 16 (get_nonce i) = take 16 (get_nonce j) \<Longrightarrow> get_nonce i = get_nonce j"
proof -
  assume "take 16 (get_nonce i) = take 16 (get_nonce j)"
  then have "take 8 (take 16 (get_nonce i)) = take 8 (take 16 (get_nonce j))" by (rule arg_cong)
  then show "get_nonce i = get_nonce j" by (simp add: get_nonce_def u64_to_le_bytes_def)
qed

definition attack :: bytes where
  "attack = (let c1 = tag_seal [5, 6] (get_nonce 1) (); c2 = tag_seal [7, 8] (get_nonce 2) ()
     in packet_bytes c1 @ packet_bytes [0] @ packet_bytes c2 @ packet_bytes c2 @ packet_bytes [1, 2, 3])"

theorem attacker_delivers_prefix_witness:
  "receive_all two_open 9 (fs_set_key () framed_from) attack = ([[5, 6], [0], [7, 8]], Some (Decryption ''decryption error''))
   \<and> (\<exists>got short. ([[5, 6], [0], [7, 8]] :: bytes list) \<in> shuffles got short \<and> (\<forall>x \<in> set short. length x \<le> 1)
     \<and> (\<forall>i < length got. i < 2 \<and> got ! i = ([[5, 6], [7, 8]] :: bytes list) ! i))"
proof -
  let ?ms = "[[5, 6], [7, 8]] :: bytes list"
  have cipher: "get_nonce j = get_nonce i \<and> m' = m"
    if "two_open (tag_seal m (get_nonce i) ()) (get_nonce j) () = Some m'" for m i m' j
    using that nonce_front [of j i] by (simp add: two_open_def tag_seal_def nonce_length split: if_splits)
  have forged: "c \<in> set (seal_all tag_seal (encrypt_new ()) ?ms) \<union> set (seal_all tag_seal (encrypt_new ()) [])"
    if "two_open c (get_nonce j) () = Some m" for c j m
    using that by (simp add: two_open_def del: seal_all.simps split: if_splits)
  have run: "receive_all two_open 9 (fs_set_key () framed_from) attack
      = ([[5, 6], [0], [7, 8]], Some (Decryption ''decryption error''))"
    by code_simp
  have "\<exists>got short. [[5, 6], [0], [7, 8]] \<in> shuffles got short \<and> (\<forall>x \<in> set short. length x \<le> 1)
     \<and> (\<forall>i < length got. i < length ?ms \<and> got ! i = ?ms ! i \<or> i < length ([] :: bytes list) \<and> got ! i = [] ! i)"
    by (rule attacker_delivers_prefix [where sopen = two_open and seal = tag_seal and key = "()", OF _ _ _ _ _ run])
      (blast dest: cipher, rule forged, assumption, simp_all)
  with run show ?thesis by (simp add: numeral_2_eq_2)
qed

end
