(* ===== verification/Service.thy ===== *)
theory Service
  imports Prelude
begin

text \<open>
  \<open>src/server/service.rs\<close> and the sender half of \<open>src/server/connection.rs\<close>: a service
  (video, audio, clipboard, cursor, ...) keeps its subscribers in two maps. A new subscriber of a
  service with snapshots waits in \<open>new_subscribes\<close> until the service has sent it the snapshot,
  and is then swapped into \<open>subscribes\<close>. Sending does not change a service, so the senders
  return the list of deliveries they make.
\<close>

section \<open>Subscribers and messages\<close>

text \<open>
  The cases of the protobuf unions the code tells apart; the others are one case that carries an
  opaque payload.
\<close>

datatype misc_union = SwitchDisplay nat | StopService bool | OtherMisc nat

datatype message_union = VideoFrame nat | MiscUnion "misc_union option" | OtherUnion nat

type_synonym message = "message_union option"

text \<open>
  \<open>ConnInner\<close>: the channel ends are shared by all clones, so the model keeps whether each is
  there and records what is sent as deliveries.
\<close>

record conn_inner =
  ci_id :: i32
  ci_tx :: bool
  ci_tx_video :: bool

datatype channel = TxMain | TxVideo

type_synonym delivery = "i32 \<times> channel \<times> message"

definition tx_by_video :: "message \<Rightarrow> bool" where
  "tx_by_video msg =
     (case msg of
        Some (VideoFrame _) \<Rightarrow> True
      | Some (MiscUnion misc) \<Rightarrow> (case misc of Some (SwitchDisplay _) \<Rightarrow> True | _ \<Rightarrow> False)
      | _ \<Rightarrow> False)"

definition conn_send :: "conn_inner \<Rightarrow> message \<Rightarrow> delivery list" where
  "conn_send c msg =
     (if tx_by_video msg then (if ci_tx_video c then [(ci_id c, TxVideo, msg)] else [])
      else (if ci_tx c then [(ci_id c, TxMain, msg)] else []))"

section \<open>Services\<close>

type_synonym subscribers = "(i32, conn_inner) hashmap"

record service =
  sv_name :: string
  sv_handle :: bool
  sv_subscribes :: subscribers
  sv_new_subscribes :: subscribers
  sv_active :: bool
  sv_need_snapshot :: bool
  sv_options :: "(string, string) hashmap"

definition service_new :: "string \<Rightarrow> bool \<Rightarrow> service" where
  "service_new name need_snapshot =
     \<lparr>sv_name = name, sv_handle = False, sv_subscribes = [], sv_new_subscribes = [],
      sv_active = True, sv_need_snapshot = need_snapshot, sv_options = []\<rparr>"

definition send_new_subscribes :: "service \<Rightarrow> message \<Rightarrow> delivery list" where
  "send_new_subscribes s msg = concat (map (\<lambda>(_, c). conn_send c msg) (sv_new_subscribes s))"

definition swap_new_subscribes :: "service \<Rightarrow> service" where
  "swap_new_subscribes s =
     s\<lparr>sv_subscribes := fold (\<lambda>(_, c) m. hm_insert (ci_id c) c m) (sv_new_subscribes s) (sv_subscribes s),
       sv_new_subscribes := []\<rparr>"

definition has_subscribes :: "service \<Rightarrow> bool" where
  "has_subscribes s \<longleftrightarrow> length (sv_subscribes s) > 0 \<or> length (sv_new_subscribes s) > 0"

definition is_subed :: "service \<Rightarrow> i32 \<Rightarrow> bool" where
  "is_subed s cid \<longleftrightarrow> hm_contains (sv_subscribes s) cid \<or> hm_contains (sv_new_subscribes s) cid"

definition on_subscribe :: "service \<Rightarrow> conn_inner \<Rightarrow> service" where
  "on_subscribe s sub =
     (if hm_contains (sv_subscribes s) (ci_id sub) then s
      else if sv_need_snapshot s
      then s\<lparr>sv_new_subscribes := hm_insert (ci_id sub) sub (sv_new_subscribes s)\<rparr>
      else s\<lparr>sv_subscribes := hm_insert (ci_id sub) sub (sv_subscribes s)\<rparr>)"

definition on_unsubscribe :: "service \<Rightarrow> i32 \<Rightarrow> service" where
  "on_unsubscribe s cid =
     (if hm_contains (sv_subscribes s) cid
      then s\<lparr>sv_subscribes := hm_remove cid (sv_subscribes s)\<rparr>
      else s\<lparr>sv_new_subscribes := hm_remove cid (sv_new_subscribes s)\<rparr>)"

definition service_join :: "service \<Rightarrow> service" where
  "service_join s = s\<lparr>sv_active := False, sv_handle := False\<rparr>"

definition sv_get_option :: "service \<Rightarrow> string \<Rightarrow> string option" where
  "sv_get_option s opt = hm_get (sv_options s) opt"

text \<open>\<open>HashMap::insert\<close> returns the value it replaces.\<close>

definition sv_set_option :: "service \<Rightarrow> string \<Rightarrow> string \<Rightarrow> service \<times> string option" where
  "sv_set_option s opt val =
     (s\<lparr>sv_options := hm_insert opt val (sv_options s)\<rparr>, hm_get (sv_options s) opt)"

definition service_ok :: "service \<Rightarrow> bool" where
  "service_ok s \<longleftrightarrow> sv_active s \<and> has_subscribes s"

definition is_option_true :: "service \<Rightarrow> string \<Rightarrow> bool" where
  "is_option_true s opt = (case sv_get_option s opt of None \<Rightarrow> False | Some v \<Rightarrow> v = ''1'')"

definition set_option_bool :: "service \<Rightarrow> string \<Rightarrow> bool \<Rightarrow> service" where
  "set_option_bool s opt val = fst (sv_set_option s opt (if val then ''1'' else ''0''))"

definition send_to :: "service \<Rightarrow> message \<Rightarrow> i32 \<Rightarrow> delivery list" where
  "send_to s msg cid =
     (case hm_get (sv_subscribes s) cid of None \<Rightarrow> [] | Some c \<Rightarrow> conn_send c msg)"

definition send_to_others :: "service \<Rightarrow> message \<Rightarrow> i32 \<Rightarrow> delivery list" where
  "send_to_others s msg cid =
     concat (map (\<lambda>(sid, c). if sid \<noteq> cid then conn_send c msg else []) (sv_subscribes s))"

definition send_shared :: "service \<Rightarrow> message \<Rightarrow> delivery list" where
  "send_shared s msg = concat (map (\<lambda>(_, c). conn_send c msg) (sv_subscribes s))"

definition send_video_frame_shared :: "service \<Rightarrow> message \<Rightarrow> delivery list \<times> i32 set" where
  "send_video_frame_shared s msg =
     (concat (map (\<lambda>(_, c). conn_send c msg) (sv_subscribes s)),
      set (map (\<lambda>(_, c). ci_id c) (sv_subscribes s)))"

definition send_without :: "service \<Rightarrow> message \<Rightarrow> i32 \<Rightarrow> delivery list" where
  "send_without s msg sub =
     concat (map (\<lambda>(_, c). if sub \<noteq> ci_id c then conn_send c msg else []) (sv_subscribes s))"

section \<open>Snapshots\<close>

text \<open>
  \<open>snapshot\<close> looks whether somebody waits, and then hands a \<open>ServiceSwap\<close> to its callback, through which the callback
  can only send to those who wait; dropping it swaps them in, also when the callback fails. Each of these takes the lock
  of the service for itself, and so does every other operation: they interleave as events. The flag says that the
  service's thread is between the test and the drop.
\<close>

datatype service_event =
    EvSubscribe conn_inner
  | EvUnsubscribe i32
  | EvBroadcast message
  | EvSendTo message i32
  | EvSendToOthers message i32
  | SnapshotBegin
  | SnapshotSend message
  | SnapshotEnd

fun snapshot_step :: "service_event \<Rightarrow> service \<times> bool \<Rightarrow> (service \<times> bool) \<times> delivery list" where
  "snapshot_step (EvSubscribe c) (s, b) = ((on_subscribe s c, b), [])"
| "snapshot_step (EvUnsubscribe cid) (s, b) = ((on_unsubscribe s cid, b), [])"
| "snapshot_step (EvBroadcast msg) (s, b) = ((s, b), send_shared s msg)"
| "snapshot_step (EvSendTo msg cid) (s, b) = ((s, b), send_to s msg cid)"
| "snapshot_step (EvSendToOthers msg cid) (s, b) = ((s, b), send_to_others s msg cid)"
| "snapshot_step SnapshotBegin (s, b) = ((s, b \<or> length (sv_new_subscribes s) > 0), [])"
| "snapshot_step (SnapshotSend msg) (s, b) = ((s, b), if b then send_new_subscribes s msg else [])"
| "snapshot_step SnapshotEnd (s, b) = ((if b then swap_new_subscribes s else s, False), [])"

fun service_run :: "service_event list \<Rightarrow> service \<times> bool \<Rightarrow> delivery list" where
  "service_run [] sb = []"
| "service_run (ev # evs) sb = (case snapshot_step ev sb of (sb', out) \<Rightarrow> out @ service_run evs sb')"

section \<open>The service threads\<close>

text \<open>
  \<open>repeat\<close>: one turn of its loop, given whether there are subscribers: what it does with the
  service's private state, and the flag \<open>may_reset\<close> after it.
\<close>

datatype loop_action = InitState | Callback | ResetState

definition repeat_step :: "bool \<Rightarrow> bool \<Rightarrow> loop_action list \<times> bool" where
  "repeat_step subscribed may_reset =
     (if subscribed then ((if \<not> may_reset then [InitState] else []) @ [Callback], True)
      else if may_reset then ([ResetState], False)
      else ([], may_reset))"

fun repeat_loop :: "bool \<Rightarrow> bool list \<Rightarrow> loop_action list" where
  "repeat_loop may_reset [] = []"
| "repeat_loop may_reset (b # bs) =
     (case repeat_step b may_reset of (acts, may_reset') \<Rightarrow> acts @ repeat_loop may_reset' bs)"

definition HIBERNATE_TIMEOUT :: u64 where
  "HIBERNATE_TIMEOUT = 30"

definition MAX_ERROR_TIMEOUT :: u64 where
  "MAX_ERROR_TIMEOUT = 1000"

text \<open>
  \<open>run\<close>: the sleep after a callback that failed; \<open>slow\<close> says it had run for longer than
  \<open>MAX_ERROR_TIMEOUT\<close>.
\<close>

definition run_error_timeout :: "bool \<Rightarrow> u64 \<Rightarrow> u64" where
  "run_error_timeout slow error_timeout =
     (let t = (if slow then HIBERNATE_TIMEOUT else error_timeout * 2)
      in if t > MAX_ERROR_TIMEOUT then MAX_ERROR_TIMEOUT else t)"

section \<open>The service invariant\<close>

definition keyed_by_id :: "subscribers \<Rightarrow> bool" where
  "keyed_by_id m \<longleftrightarrow> hm_wf m \<and> (\<forall>(k, c) \<in> set m. ci_id c = k)"

definition service_wf :: "service \<Rightarrow> bool" where
  "service_wf s \<longleftrightarrow>
     keyed_by_id (sv_subscribes s) \<and> keyed_by_id (sv_new_subscribes s)
     \<and> (\<forall>k. \<not> (hm_contains (sv_subscribes s) k \<and> hm_contains (sv_new_subscribes s) k))
     \<and> (\<not> sv_need_snapshot s \<longrightarrow> sv_new_subscribes s = [])"

lemma keyed_by_id_Nil [simp]: "keyed_by_id []"
  by (simp add: keyed_by_id_def)

lemma keyed_by_id_iff:
  "keyed_by_id m \<longleftrightarrow> hm_wf m \<and> (\<forall>k c. hm_get m k = Some c \<longrightarrow> ci_id c = k)"
  by (auto simp: keyed_by_id_def hm_get_eq_Some)

lemma keyed_by_id_insert [simp]: "keyed_by_id m \<Longrightarrow> keyed_by_id (hm_insert (ci_id c) c m)"
  by (auto simp: keyed_by_id_iff)

lemma keyed_by_id_remove [simp]: "keyed_by_id m \<Longrightarrow> keyed_by_id (hm_remove k m)"
  by (auto simp: keyed_by_id_iff)

lemma hm_contains_Nil [simp]: "\<not> hm_contains [] k"
  by (simp add: hm_contains_def)

lemma swap_fold:
  "keyed_by_id m \<Longrightarrow> keyed_by_id news \<Longrightarrow>
    keyed_by_id (fold (\<lambda>(_, c) m. hm_insert (ci_id c) c m) news m)
    \<and> hm_get (fold (\<lambda>(_, c) m. hm_insert (ci_id c) c m) news m) = hm_get m ++ hm_get news"
proof (induction news arbitrary: m)
  case (Cons kc news)
  obtain k c where kc: "kc = (k, c)" by (cases kc)
  from Cons.prems(2) kc have k: "ci_id c = k" "keyed_by_id news" "hm_get news k = None"
    by (auto simp: keyed_by_id_def hm_wf_def map_of_eq_None_iff)
  have "keyed_by_id (hm_insert k c m)" using keyed_by_id_insert [of m c] Cons.prems(1) k(1) by simp
  from Cons.IH [OF this k(2)] kc k show ?case
    by (auto simp: fun_eq_iff map_add_def split: option.split)
qed simp

lemma on_subscribe_wf: "service_wf s \<Longrightarrow> service_wf (on_subscribe s c)"
  by (auto simp: service_wf_def on_subscribe_def)

lemma on_unsubscribe_wf: "service_wf s \<Longrightarrow> service_wf (on_unsubscribe s k)"
  by (auto simp: service_wf_def on_unsubscribe_def)

lemma swap_new_subscribes_wf: "service_wf s \<Longrightarrow> service_wf (swap_new_subscribes s)"
  using swap_fold by (simp add: service_wf_def swap_new_subscribes_def)

lemma service_new_wf: "service_wf (service_new name need_snapshot)"
  by (simp add: service_wf_def service_new_def)

lemma service_wf_others [simp]:
  "service_wf (s\<lparr>sv_options := opts\<rparr>) = service_wf s"
  "service_wf (s\<lparr>sv_active := a\<rparr>) = service_wf s"
  "service_wf (s\<lparr>sv_handle := h\<rparr>) = service_wf s"
  by (simp_all add: service_wf_def)

lemma is_subed_on_subscribe: "is_subed (on_subscribe s c) k \<longleftrightarrow> k = ci_id c \<or> is_subed s k"
  by (auto simp: is_subed_def on_subscribe_def)

lemma is_subed_on_unsubscribe:
  "service_wf s \<Longrightarrow> is_subed (on_unsubscribe s cid) k \<longleftrightarrow> k \<noteq> cid \<and> is_subed s k"
  by (auto simp: is_subed_def on_unsubscribe_def service_wf_def)

lemma is_subed_swap: "service_wf s \<Longrightarrow> is_subed (swap_new_subscribes s) k = is_subed s k"
  using swap_fold [of "sv_subscribes s" "sv_new_subscribes s"]
  by (auto simp: is_subed_def swap_new_subscribes_def service_wf_def hm_contains_def map_add_def
      split: option.splits)

lemma service_frame [service_simps]:
  "sv_name (on_subscribe s c) = sv_name s" "sv_name (on_unsubscribe s k) = sv_name s"
  "sv_options (on_subscribe s c) = sv_options s" "sv_options (on_unsubscribe s k) = sv_options s"
  "sv_active (on_subscribe s c) = sv_active s" "sv_active (on_unsubscribe s k) = sv_active s"
  by (simp_all add: on_subscribe_def on_unsubscribe_def)

section \<open>The contract of a service\<close>

text \<open>
  What the server relies on when it works with a \<open>dyn Service\<close>: subscribing and unsubscribing
  act on the set of subscribed connections as insertion and removal, under an invariant both keep.
\<close>

locale subscription =
  fixes subed :: "'s \<Rightarrow> 'i \<Rightarrow> bool"
    and sub :: "'s \<Rightarrow> 'c \<Rightarrow> 's"
    and unsub :: "'s \<Rightarrow> 'i \<Rightarrow> 's"
    and ident :: "'c \<Rightarrow> 'i"
    and inv :: "'s \<Rightarrow> bool"
  assumes subed_sub: "inv s \<Longrightarrow> subed (sub s c) k \<longleftrightarrow> k = ident c \<or> subed s k"
    and subed_unsub: "inv s \<Longrightarrow> subed (unsub s i) k \<longleftrightarrow> k \<noteq> i \<and> subed s k"
    and inv_sub: "inv s \<Longrightarrow> inv (sub s c)"
    and inv_unsub: "inv s \<Longrightarrow> inv (unsub s i)"
begin

lemma set_subscription:
  "inv s \<Longrightarrow> subed (if subed s (ident c) = b then s else if b then sub s c else unsub s (ident c)) k
    \<longleftrightarrow> (if k = ident c then b else subed s k)"
  by (auto simp: subed_sub subed_unsub)

lemma inv_set_subscription:
  "inv s \<Longrightarrow> inv (if subed s (ident c) = b then s else if b then sub s c else unsub s (ident c))"
  by (simp add: inv_sub inv_unsub)

lemma sub_then_unsub: "inv s \<Longrightarrow> \<not> subed s (ident c) \<Longrightarrow> subed (unsub (sub s c) (ident c)) = subed s"
  by (auto simp: fun_eq_iff subed_sub subed_unsub inv_sub)

end

interpretation svc: subscription is_subed on_subscribe on_unsubscribe ci_id service_wf
  by unfold_locales
    (auto simp: is_subed_on_subscribe is_subed_on_unsubscribe on_subscribe_wf on_unsubscribe_wf)

section \<open>Properties\<close>

text \<open>The steps that change a service, in any order and any number.\<close>

inductive service_step :: "service \<Rightarrow> service \<Rightarrow> bool" where
  subscribe: "service_step s (on_subscribe s c)"
| unsubscribe: "service_step s (on_unsubscribe s k)"
| swap: "service_step s (swap_new_subscribes s)"
| set_option: "service_step s (fst (sv_set_option s opt val))"
| join: "service_step s (service_join s)"

inductive_simps service_step_iff: "service_step s s'"

inductive service_reachable :: "service \<Rightarrow> bool" where
  new: "service_reachable (service_new name need_snapshot)"
| step: "service_reachable s \<Longrightarrow> service_step s s' \<Longrightarrow> service_reachable s'"

text \<open>
  C5: In every reachable state of a service each connection is subscribed in at most one of the
  two maps, each entry is stored under its own connection id, and a service without snapshots
  never has waiting subscribers.
\<close>

theorem service_reachable_wf: "service_reachable s \<Longrightarrow> service_wf s"
proof (induction rule: service_reachable.induct)
  case (new name need_snapshot)
  show ?case by (rule service_new_wf)
next
  case (step s s')
  from step.hyps(2) show ?case
    by (cases rule: service_step.cases)
      (auto simp: step.IH on_subscribe_wf on_unsubscribe_wf swap_new_subscribes_wf
        sv_set_option_def service_join_def)
qed

theorem service_reachable_wf_witness:
  "service_wf (on_subscribe (service_new ''monitor0'' True) \<lparr>ci_id = 7, ci_tx = True, ci_tx_video = True\<rparr>)"
  by (rule service_reachable_wf [OF service_reachable.step [OF service_reachable.new
        service_step.subscribe]])

lemma keyed_delivery:
  assumes "keyed_by_id m"
  shows "filter (\<lambda>d. fst d = k) (concat (map (\<lambda>(_, c). conn_send c msg) m))
    = (case hm_get m k of None \<Rightarrow> [] | Some c \<Rightarrow> conn_send c msg)"
  using assms
proof (induction m)
  case (Cons kc m)
  obtain k' c where kc: "kc = (k', c)" by (cases kc)
  have rest: "keyed_by_id m" "ci_id c = k'" "k' \<notin> fst ` set m"
    using Cons.prems kc by (auto simp: keyed_by_id_def hm_wf_def)
  have "filter (\<lambda>d. fst d = k) (conn_send c msg) = (if k' = k then conn_send c msg else [])"
    using rest(2) by (auto simp: conn_send_def)
  with Cons.IH [OF rest(1)] rest(3) kc show ?case
    by (auto split: option.split dest: hm_get_in_set intro: rev_image_eqI)
qed simp

lemma send_shared_once:
  "service_wf s \<Longrightarrow> filter (\<lambda>d. fst d = k) (send_shared s msg)
    = (case hm_get (sv_subscribes s) k of None \<Rightarrow> [] | Some c \<Rightarrow> conn_send c msg)"
  by (simp add: send_shared_def service_wf_def keyed_delivery)

text \<open>
  A broadcast reaches every swapped-in subscriber exactly once on the channel the message
  belongs to, and nobody else; \<open>send_to_others\<close> and \<open>send_without\<close> leave out exactly the one
  connection they name.
\<close>

theorem broadcast_exactly_once:
  assumes "service_wf s"
  shows "filter (\<lambda>d. fst d = k) (send_shared s msg)
      = (case hm_get (sv_subscribes s) k of None \<Rightarrow> [] | Some c \<Rightarrow> conn_send c msg)
    \<and> send_to_others s msg j = filter (\<lambda>d. fst d \<noteq> j) (send_shared s msg)
    \<and> send_without s msg j = send_to_others s msg j
    \<and> send_video_frame_shared s msg = (send_shared s msg, fst ` set (sv_subscribes s))"
proof (intro conjI)
  show "filter (\<lambda>d. fst d = k) (send_shared s msg)
      = (case hm_get (sv_subscribes s) k of None \<Rightarrow> [] | Some c \<Rightarrow> conn_send c msg)"
    using assms by (rule send_shared_once)
  have ids: "(i, c) \<in> set (sv_subscribes s) \<Longrightarrow> ci_id c = i" for i c
    using assms by (auto simp: service_wf_def keyed_by_id_def)
  have one: "filter (\<lambda>d. fst d \<noteq> j) (conn_send c msg) = (if ci_id c \<noteq> j then conn_send c msg else [])"
    for c by (auto simp: conn_send_def)
  show "send_to_others s msg j = filter (\<lambda>d. fst d \<noteq> j) (send_shared s msg)"
    by (auto simp: send_to_others_def send_shared_def filter_concat one dest!: ids
        intro!: arg_cong [of _ _ concat])
  show "send_without s msg j = send_to_others s msg j"
    by (auto simp: send_to_others_def send_without_def dest!: ids intro!: arg_cong [of _ _ concat])
  show "send_video_frame_shared s msg = (send_shared s msg, fst ` set (sv_subscribes s))"
    using ids by (force simp: send_video_frame_shared_def send_shared_def)
qed

theorem broadcast_exactly_once_witness:
  "send_without (on_subscribe (service_new ''audio'' False) \<lparr>ci_id = 7, ci_tx = True, ci_tx_video = True\<rparr>)
     (Some (VideoFrame 1)) 8 = [(7, TxVideo, Some (VideoFrame 1))]"
proof -
  let ?s = "on_subscribe (service_new ''audio'' False) \<lparr>ci_id = 7, ci_tx = True, ci_tx_video = True\<rparr>"
  have wf: "service_wf ?s" by (intro on_subscribe_wf service_new_wf)
  have "send_shared ?s (Some (VideoFrame 1)) = [(7, TxVideo, Some (VideoFrame 1))]"
    by (simp add: send_shared_def on_subscribe_def service_new_def conn_send_def tx_by_video_def)
  with broadcast_exactly_once [OF wf, of 7 "Some (VideoFrame 1)" 8] show ?thesis by simp
qed

lemma send_to_others_once:
  assumes "service_wf s"
  shows "filter (\<lambda>d. fst d = k) (send_to_others s msg j)
    = (if k = j then [] else case hm_get (sv_subscribes s) k of None \<Rightarrow> [] | Some c \<Rightarrow> conn_send c msg)"
proof -
  have "send_to_others s msg j = filter (\<lambda>d. fst d \<noteq> j) (send_shared s msg)"
    using broadcast_exactly_once [OF assms, of k msg j] by blast
  then have "filter (\<lambda>d. fst d = k) (send_to_others s msg j)
      = (if k = j then [] else filter (\<lambda>d. fst d = k) (send_shared s msg))"
    by (auto simp: filter_filter intro!: filter_cong)
  then show ?thesis using send_shared_once [OF assms] by simp
qed

text \<open>The deliveries to one connection, and the messages it is to get: from a snapshot, and once it is swapped in.\<close>

definition received_by :: "i32 \<Rightarrow> delivery list \<Rightarrow> delivery list" where
  "received_by k out = filter (\<lambda>d. fst d = k) out"

fun names_connection :: "i32 \<Rightarrow> service_event \<Rightarrow> bool" where
  "names_connection k (EvSubscribe c) = (ci_id c = k)"
| "names_connection k (EvUnsubscribe cid) = (cid = k)"
| "names_connection k _ = False"

fun snapshot_part :: "service_event \<Rightarrow> message list" where
  "snapshot_part (SnapshotSend msg) = [msg]"
| "snapshot_part _ = []"

fun update_part :: "i32 \<Rightarrow> service_event \<Rightarrow> message list" where
  "update_part k (EvBroadcast msg) = [msg]"
| "update_part k (EvSendTo msg cid) = (if cid = k then [msg] else [])"
| "update_part k (EvSendToOthers msg cid) = (if cid = k then [] else [msg])"
| "update_part k _ = []"

definition waits :: "conn_inner \<Rightarrow> service \<Rightarrow> bool" where
  "waits c s \<longleftrightarrow> service_wf s \<and> sv_need_snapshot s
     \<and> hm_get (sv_subscribes s) (ci_id c) = None \<and> hm_get (sv_new_subscribes s) (ci_id c) = Some c"

definition joined :: "conn_inner \<Rightarrow> service \<Rightarrow> bool" where
  "joined c s \<longleftrightarrow> service_wf s \<and> hm_get (sv_subscribes s) (ci_id c) = Some c"

lemma received_by_simps [simp]: "received_by k [] = []" "received_by k (xs @ ys) = received_by k xs @ received_by k ys"
  by (simp_all add: received_by_def)

lemma send_new_once:
  assumes "service_wf s"
  shows "received_by k (send_new_subscribes s msg)
    = (case hm_get (sv_new_subscribes s) k of None \<Rightarrow> [] | Some c \<Rightarrow> conn_send c msg)"
  using assms keyed_delivery [of "sv_new_subscribes s" k msg]
  by (simp add: received_by_def send_new_subscribes_def service_wf_def)

lemma send_to_once:
  assumes "service_wf s"
  shows "received_by k (send_to s msg j)
    = (if k = j then case hm_get (sv_subscribes s) k of None \<Rightarrow> [] | Some c \<Rightarrow> conn_send c msg else [])"
  using assms by (auto simp: received_by_def send_to_def service_wf_def keyed_by_id_iff conn_send_def split: option.splits)

lemmas send_once = send_shared_once [folded received_by_def] send_to_others_once [folded received_by_def] send_to_once send_new_once

lemma snapshot_step_wf: "service_wf s \<Longrightarrow> snapshot_step ev (s, b) = ((s', b'), out) \<Longrightarrow> service_wf s'"
  by (cases ev) (auto simp: on_subscribe_wf on_unsubscribe_wf swap_new_subscribes_wf)

lemma waits_step:
  assumes "waits c s" "\<not> names_connection (ci_id c) ev" "snapshot_step ev (s, b) = ((s', b'), out)"
  shows "received_by (ci_id c) out = (if b then concat (map (conn_send c) (snapshot_part ev)) else [])"
    "if ev = SnapshotEnd \<and> b then joined c s' \<and> \<not> b' else waits c s'"
    "b' = (if ev = SnapshotBegin then True else if ev = SnapshotEnd then False else b)"
proof -
  have wf: "service_wf s" using assms(1) by (simp add: waits_def)
  have new: "sv_new_subscribes s \<noteq> []" using assms(1) by (auto simp: waits_def)
  note once = send_once [OF wf]
  show "received_by (ci_id c) out = (if b then concat (map (conn_send c) (snapshot_part ev)) else [])"
    using assms once by (cases ev) (auto simp: waits_def)
  show "if ev = SnapshotEnd \<and> b then joined c s' \<and> \<not> b' else waits c s'"
    using assms swap_fold [of "sv_subscribes s" "sv_new_subscribes s"] snapshot_step_wf [OF wf assms(3)] wf [unfolded service_wf_def]
    by (cases ev) (auto simp: waits_def joined_def on_subscribe_def on_unsubscribe_def swap_new_subscribes_def split: if_splits)
  show "b' = (if ev = SnapshotBegin then True else if ev = SnapshotEnd then False else b)"
    using assms(3) new by (cases ev) auto
qed

lemma joined_step:
  assumes "joined c s" "\<not> names_connection (ci_id c) ev" "snapshot_step ev (s, b) = ((s', b'), out)"
  shows "received_by (ci_id c) out = concat (map (conn_send c) (update_part (ci_id c) ev))" "joined c s'"
proof -
  have wf: "service_wf s" using assms(1) by (simp add: joined_def)
  then have "\<not> (hm_contains (sv_subscribes s) (ci_id c) \<and> hm_contains (sv_new_subscribes s) (ci_id c))"
    by (simp add: service_wf_def)
  then have none: "hm_get (sv_new_subscribes s) (ci_id c) = None"
    using assms(1) by (simp add: joined_def hm_contains_def)
  note once = send_once [OF wf]
  show "received_by (ci_id c) out = concat (map (conn_send c) (update_part (ci_id c) ev))"
    using assms once none by (cases ev) (auto simp: joined_def)
  show "joined c s'"
    using assms none swap_fold [of "sv_subscribes s" "sv_new_subscribes s"] snapshot_step_wf [OF wf assms(3)] wf [unfolded service_wf_def]
    by (cases ev) (auto simp: joined_def on_subscribe_def on_unsubscribe_def swap_new_subscribes_def map_add_def split: if_splits)
qed

lemma joined_run:
  "joined c s \<Longrightarrow> \<forall>ev \<in> set evs. \<not> names_connection (ci_id c) ev \<Longrightarrow>
    received_by (ci_id c) (service_run evs (s, b)) = concat (map (conn_send c) (concat (map (update_part (ci_id c)) evs)))"
proof (induction evs arbitrary: s b)
  case (Cons ev evs)
  obtain s' b' out where st: "snapshot_step ev (s, b) = ((s', b'), out)" by (metis surj_pair)
  from joined_step [OF Cons.prems(1) _ st] Cons.prems(2)
  have "received_by (ci_id c) out = concat (map (conn_send c) (update_part (ci_id c) ev))" "joined c s'" by simp_all
  with st Cons.IH [of s' b'] Cons.prems(2) show ?case by simp
qed simp

lemma snapshot_run:
  assumes "SnapshotEnd \<notin> set during"
  shows "waits c s \<Longrightarrow> \<forall>ev \<in> set (during @ after). \<not> names_connection (ci_id c) ev \<Longrightarrow>
    received_by (ci_id c) (service_run (during @ SnapshotEnd # after) (s, True))
      = concat (map (conn_send c) (concat (map snapshot_part during) @ concat (map (update_part (ci_id c)) after)))"
  using assms
proof (induction during arbitrary: s)
  case Nil
  obtain s' b' out where st: "snapshot_step SnapshotEnd (s, True) = ((s', b'), out)" by (metis surj_pair)
  from waits_step [OF Nil(1) _ st] have "received_by (ci_id c) out = []" "joined c s'" by simp_all
  with st joined_run [of c s' after b'] Nil(2) show ?case by simp
next
  case (Cons ev during)
  obtain s' b' out where st: "snapshot_step ev (s, True) = ((s', b'), out)" by (metis surj_pair)
  from waits_step [OF Cons.prems(1) _ st] Cons.prems(2,3)
  have "received_by (ci_id c) out = concat (map (conn_send c) (snapshot_part ev))" "waits c s'" b'
    by (auto split: if_splits)
  with st Cons.IH [of s'] Cons.prems show ?case by simp
qed

lemma quiet_run:
  assumes "SnapshotBegin \<notin> set quiet"
  shows "waits c s \<Longrightarrow> \<forall>ev \<in> set (quiet @ during @ after). \<not> names_connection (ci_id c) ev \<Longrightarrow> SnapshotEnd \<notin> set during \<Longrightarrow>
    received_by (ci_id c) (service_run (quiet @ SnapshotBegin # during @ SnapshotEnd # after) (s, False))
      = concat (map (conn_send c) (concat (map snapshot_part during) @ concat (map (update_part (ci_id c)) after)))"
  using assms
proof (induction quiet arbitrary: s)
  case Nil
  have "sv_new_subscribes s \<noteq> []" using Nil(1) by (auto simp: waits_def)
  then have "snapshot_step SnapshotBegin (s, False) = ((s, True), [])" by simp
  with snapshot_run [of during c s after] Nil show ?case by simp
next
  case (Cons ev quiet)
  obtain s' b' out where st: "snapshot_step ev (s, False) = ((s', b'), out)" by (metis surj_pair)
  from waits_step [OF Cons.prems(1) _ st] Cons.prems(2,4)
  have "received_by (ci_id c) out = []" "waits c s'" "\<not> b'" by (auto split: if_splits)
  with st Cons.IH [of s'] Cons.prems show ?case by simp
qed

lemma fresh_waits:
  assumes "service_wf s" "sv_need_snapshot s" "\<not> is_subed s (ci_id c)"
  shows "waits c (on_subscribe s c)"
  using assms on_subscribe_wf [OF assms(1), of c] by (auto simp: waits_def is_subed_def on_subscribe_def hm_contains_def)

text \<open>
  C6: Snapshot before updates, however the operations of a service interleave: a connection that subscribes while no
  snapshot is being sent gets nothing until the next one begins, then the messages of that snapshot in their order and
  nothing else (also when the callback fails half-way), and once the snapshot has ended every message that is broadcast or
  sent to it, once. Subscribing, leaving, sending and the single messages of the snapshot may come in any order between, as
  long as they do not subscribe or unsubscribe the connection itself.
\<close>

theorem snapshot_before_updates:
  assumes "service_wf s" "sv_need_snapshot s" "\<not> is_subed s (ci_id c)"
    and "SnapshotBegin \<notin> set quiet" "SnapshotEnd \<notin> set during"
    and "\<forall>ev \<in> set (quiet @ during @ after). \<not> names_connection (ci_id c) ev"
  shows "received_by (ci_id c)
      (service_run (EvSubscribe c # quiet @ SnapshotBegin # during @ SnapshotEnd # after) (s, False))
    = concat (map (conn_send c) (concat (map snapshot_part during) @ concat (map (update_part (ci_id c)) after)))"
  using quiet_run [OF assms(4) fresh_waits [OF assms(1-3)] assms(6,5)] by simp

theorem snapshot_before_updates_witness:
  "received_by 7 (service_run
     (EvSubscribe \<lparr>ci_id = 7, ci_tx = True, ci_tx_video = True\<rparr> # [EvBroadcast (Some (OtherUnion 1))]
      @ SnapshotBegin # [SnapshotSend (Some (OtherUnion 2)), EvBroadcast (Some (OtherUnion 3)),
          EvSubscribe \<lparr>ci_id = 8, ci_tx = True, ci_tx_video = True\<rparr>, SnapshotSend (Some (OtherUnion 4))]
      @ SnapshotEnd # [EvBroadcast (Some (OtherUnion 5))])
     (service_new ''monitor0'' True, False))
   = [(7, TxMain, Some (OtherUnion 2)), (7, TxMain, Some (OtherUnion 4)), (7, TxMain, Some (OtherUnion 5))]"
proof -
  let ?c = "\<lparr>ci_id = 7, ci_tx = True, ci_tx_video = True\<rparr>"
  have s: "sv_need_snapshot (service_new ''monitor0'' True)"
    "\<not> is_subed (service_new ''monitor0'' True) (ci_id ?c)"
    by (simp_all add: service_new_def is_subed_def)
  let ?during = "[SnapshotSend (Some (OtherUnion 2)), EvBroadcast (Some (OtherUnion 3)),
    EvSubscribe \<lparr>ci_id = 8, ci_tx = True, ci_tx_video = True\<rparr>, SnapshotSend (Some (OtherUnion 4))]"
  have "concat (map (conn_send ?c) (concat (map snapshot_part ?during)
      @ concat (map (update_part (ci_id ?c)) [EvBroadcast (Some (OtherUnion 5))])))
    = [(7, TxMain, Some (OtherUnion 2)), (7, TxMain, Some (OtherUnion 4)), (7, TxMain, Some (OtherUnion 5))]"
    by (simp add: conn_send_def tx_by_video_def)
  then show ?thesis
    using snapshot_before_updates [OF service_new_wf s, of "[EvBroadcast (Some (OtherUnion 1))]" ?during
        "[EvBroadcast (Some (OtherUnion 5))]"] by simp
qed

text \<open>
  A connection that subscribes while a snapshot is being sent is swapped in with the others at its end: of the snapshot it
  gets only what is sent after it subscribed, and it never gets the rest.
\<close>

theorem late_subscriber_misses_snapshot:
  assumes "service_wf s" "sv_need_snapshot s" "\<not> is_subed s (ci_id c)" "SnapshotEnd \<notin> set during"
    and "\<forall>ev \<in> set (during @ after). \<not> names_connection (ci_id c) ev"
  shows "received_by (ci_id c) (service_run (EvSubscribe c # during @ SnapshotEnd # after) (s, True))
    = concat (map (conn_send c) (concat (map snapshot_part during) @ concat (map (update_part (ci_id c)) after)))"
  using snapshot_run [OF assms(4) fresh_waits [OF assms(1-3)] assms(5)] by simp

theorem late_subscriber_misses_snapshot_witness:
  "received_by 8 (service_run (EvSubscribe \<lparr>ci_id = 8, ci_tx = True, ci_tx_video = True\<rparr> # [] @ SnapshotEnd # [])
     (fst (snapshot_step (SnapshotSend (Some (OtherUnion 2)))
       (on_subscribe (service_new ''monitor0'' True) \<lparr>ci_id = 7, ci_tx = True, ci_tx_video = True\<rparr>, True)))) = []"
proof -
  let ?s = "on_subscribe (service_new ''monitor0'' True) \<lparr>ci_id = 7, ci_tx = True, ci_tx_video = True\<rparr>"
  let ?c = "\<lparr>ci_id = 8, ci_tx = True, ci_tx_video = True\<rparr>"
  have s: "service_wf ?s" "sv_need_snapshot ?s" "\<not> is_subed ?s (ci_id ?c)"
    by (rule on_subscribe_wf [OF service_new_wf])
      (simp_all add: on_subscribe_def service_new_def is_subed_def hm_contains_def)
  show ?thesis using late_subscriber_misses_snapshot [OF s, of "[]" "[]"] by simp
qed

text \<open>
  The state hooks of a \<open>repeat\<close> loop are properly bracketed: whatever the pattern in which
  subscribers come and go, the callback only runs on initialised state, the state is never
  initialised twice without a reset in between, and is only reset when it had been initialised.
\<close>

fun bracketed :: "bool \<Rightarrow> loop_action list \<Rightarrow> bool" where
  "bracketed opened [] = True"
| "bracketed opened (InitState # acts) = (\<not> opened \<and> bracketed True acts)"
| "bracketed opened (Callback # acts) = (opened \<and> bracketed opened acts)"
| "bracketed opened (ResetState # acts) = (opened \<and> bracketed False acts)"

theorem repeat_loop_bracketed: "bracketed may_reset (repeat_loop may_reset bs)"
  by (induction bs arbitrary: may_reset) (simp_all add: repeat_step_def)

text \<open>
  The back-off of a failing service: after \<open>k\<close> quick failures in a row the thread sleeps
  \<open>30 * 2^k\<close> milliseconds, capped at one second, for every \<open>k\<close>: the doubling never wraps
  around, and the sleep is never shorter than the hibernation time.
\<close>

lemma run_error_timeout_unat:
  assumes "unat t \<le> 1000"
  shows "unat (run_error_timeout False t) = min 1000 (2 * unat t)"
proof -
  have "unat (t * 2) = 2 * unat t" using assms by (simp add: unat_word_ariths)
  then show ?thesis
    by (simp add: run_error_timeout_def Let_def MAX_ERROR_TIMEOUT_def word_less_nat_alt)
qed

theorem error_backoff:
  "unat ((run_error_timeout False ^^ k) HIBERNATE_TIMEOUT) = min 1000 (30 * 2 ^ k)
    \<and> run_error_timeout True t = HIBERNATE_TIMEOUT"
proof
  show "unat ((run_error_timeout False ^^ k) HIBERNATE_TIMEOUT) = min 1000 (30 * 2 ^ k)"
  proof (induction k)
    case 0
    show ?case by (simp add: HIBERNATE_TIMEOUT_def)
  next
    case (Suc k)
    then show ?case by (auto simp: run_error_timeout_unat)
  qed
  show "run_error_timeout True t = HIBERNATE_TIMEOUT"
    by (simp add: run_error_timeout_def HIBERNATE_TIMEOUT_def MAX_ERROR_TIMEOUT_def)
qed

end
