(* ===== verification/Server.thy ===== *)
theory Server
  imports Service
begin

text \<open>
  \<open>src/server.rs\<close>: the registry of connections and services, and the operations by which a
  connection is subscribed to services. The registry owns each service under its name. The target
  is Linux or Windows; what differs on a Mac (\<open>update_enable_retina\<close>) is a definition of its own.
\<close>

section \<open>Model\<close>

datatype video_source = Monitor | Camera

fun service_name_prefix :: "video_source \<Rightarrow> string" where
  "service_name_prefix Monitor = ''monitor''"
| "service_name_prefix Camera = ''camera''"

definition get_service_name :: "video_source \<Rightarrow> nat \<Rightarrow> string" where
  "get_service_name source idx = service_name_prefix source @ show_nat idx"

definition video_service_new :: "video_source \<Rightarrow> nat \<Rightarrow> service" where
  "video_service_new source idx = (service_new (get_service_name source idx) True)\<lparr>sv_handle := True\<rparr>"

record server =
  srv_connections :: subscribers
  srv_services :: "(string, service) hashmap"
  srv_id_count :: i32

definition is_video_service_name :: "string \<Rightarrow> bool" where
  "is_video_service_name name \<longleftrightarrow>
     starts_with name (service_name_prefix Monitor) \<or> starts_with name (service_name_prefix Camera)"

definition srv_contains :: "server \<Rightarrow> string \<Rightarrow> bool" where
  "srv_contains s name = hm_contains (srv_services s) name"

definition add_service :: "server \<Rightarrow> service \<Rightarrow> server" where
  "add_service s svc = s\<lparr>srv_services := hm_insert (sv_name svc) svc (srv_services s)\<rparr>"

text \<open>\<open>Server::new\<close>; what it asks of the platform and of the build is in the arguments.\<close>

definition server_new ::
  "target_os \<Rightarrow> bool \<Rightarrow> bool \<Rightarrow> bool \<Rightarrow> bool \<Rightarrow> i32 \<Rightarrow> server" where
  "server_new os unix_file_copy_paste cursor_embedded x11 printer_ok random =
     (let named = (\<lambda>name need_snapshot. (service_new name need_snapshot)\<lparr>sv_handle := True\<rparr>);
          s = \<lparr>srv_connections = [], srv_services = [],
               srv_id_count = word_of_int (sgn (sint random) * (\<bar>sint random\<bar> mod 1000) + 1000)\<rparr>;
          s = add_service s (named ''audio'' True);
          s = (if os = IOS then s
               else let s = add_service s (named ''display'' True);
                        s = add_service s (named ''clipboard'' False)
                    in if unix_file_copy_paste then add_service s (named ''file-clipboard'' False) else s);
          s = (if is_mobile os \<or> cursor_embedded then s
               else let s = add_service s (named ''mouse_cursor'' True);
                        s = add_service s (named ''mouse_pos'' False)
                    in if os = Linux \<and> \<not> x11 then s else add_service s (named ''window_focus'' False));
          s = (if is_mobile os \<or> \<not> printer_ok then s else add_service s (named ''remote-printer'' False))
      in s)"

definition try_add_primary_camera_service :: "bool \<Rightarrow> server \<Rightarrow> server" where
  "try_add_primary_camera_service camera_exists s =
     (if \<not> camera_exists then s
      else let name = get_service_name Camera 0
        in if \<not> srv_contains s name then add_service s (video_service_new Camera 0) else s)"

definition try_add_primay_video_service :: "nat \<Rightarrow> server \<Rightarrow> server" where
  "try_add_primay_video_service primary s =
     (let name = get_service_name Monitor primary
      in if \<not> srv_contains s name then add_service s (video_service_new Monitor primary) else s)"

text \<open>The effect of an operation on one named service: \<open>self.services.get(name)\<close>.\<close>

abbreviation with_service :: "string \<Rightarrow> (service \<Rightarrow> service) \<Rightarrow> server \<Rightarrow> server" where
  "with_service name f s \<equiv> s\<lparr>srv_services := hm_modify name f (srv_services s)\<rparr>"

definition add_camera_connection :: "bool \<Rightarrow> server \<Rightarrow> conn_inner \<Rightarrow> server" where
  "add_camera_connection camera_exists s conn =
     (let s = (if camera_exists
               then with_service (get_service_name Camera 0) (\<lambda>svc. on_subscribe svc conn) s else s)
      in s\<lparr>srv_connections := hm_insert (ci_id conn) conn (srv_connections s)\<rparr>)"

definition add_connection :: "nat \<Rightarrow> server \<Rightarrow> conn_inner \<Rightarrow> string list \<Rightarrow> server" where
  "add_connection primary s conn noperms =
     (let primary_name = get_service_name Monitor primary;
          visit = (\<lambda>(key, svc).
            (key, let name = sv_name svc in
                  if is_video_service_name name \<and> name \<noteq> primary_name then svc
                  else if name \<notin> set noperms then on_subscribe svc conn else svc))
      in s\<lparr>srv_services := map visit (srv_services s),
           srv_connections := hm_insert (ci_id conn) conn (srv_connections s)\<rparr>)"

definition remove_connection :: "server \<Rightarrow> conn_inner \<Rightarrow> server" where
  "remove_connection s conn =
     s\<lparr>srv_services := map (\<lambda>(key, svc). (key, on_unsubscribe svc (ci_id conn))) (srv_services s),
       srv_connections := hm_remove (ci_id conn) (srv_connections s)\<rparr>"

definition close_connections :: "server \<Rightarrow> delivery list" where
  "close_connections s =
     concat (map (\<lambda>(_, c). conn_send c (Some (MiscUnion (Some (StopService True))))) (srv_connections s))"

definition srv_subscribe :: "server \<Rightarrow> string \<Rightarrow> conn_inner \<Rightarrow> bool \<Rightarrow> server" where
  "srv_subscribe s name conn sub =
     with_service name (\<lambda>svc.
       if is_subed svc (ci_id conn) = sub then svc
       else if sub then on_subscribe svc conn else on_unsubscribe svc (ci_id conn)) s"

definition get_new_id :: "server \<Rightarrow> i32 \<times> server" where
  "get_new_id s = (let s = s\<lparr>srv_id_count := srv_id_count s + 1\<rparr> in (srv_id_count s, s))"

definition set_video_service_opt ::
  "server \<Rightarrow> (video_source \<times> nat) option \<Rightarrow> string \<Rightarrow> string \<Rightarrow> server" where
  "set_video_service_opt s display opt value =
     (let chosen = (\<lambda>k. case display of None \<Rightarrow> True
                      | Some (source, display) \<Rightarrow> k = get_service_name source display)
      in s\<lparr>srv_services := map (\<lambda>(k, v).
             (k, if chosen k \<and> is_video_service_name k then fst (sv_set_option v opt value) else v))
           (srv_services s)\<rparr>)"

definition get_subbed_displays_count :: "server \<Rightarrow> i32 \<Rightarrow> nat" where
  "get_subbed_displays_count s conn_id =
     length (filter (\<lambda>k. is_video_service_name k
       \<and> (case hm_get (srv_services s) k of None \<Rightarrow> False | Some svc \<Rightarrow> is_subed svc conn_id))
     (map fst (srv_services s)))"

definition capture_displays ::
  "server \<Rightarrow> conn_inner \<Rightarrow> video_source \<Rightarrow> nat list \<Rightarrow> bool \<Rightarrow> bool \<Rightarrow> server" where
  "capture_displays s conn source displays include exclude =
     (let displays = map (get_service_name source) displays;
          keys = map fst (srv_services s)
      in fold (\<lambda>name s.
           if is_video_service_name name then
             (if name \<in> set displays
              then (if include then srv_subscribe s name conn True else s)
              else (if exclude then srv_subscribe s name conn False else s))
           else s) keys s)"

definition update_enable_retina :: "server \<Rightarrow> bool" where
  "update_enable_retina s \<longleftrightarrow>
     length (filter (\<lambda>(name, svc). is_video_service_name name \<and> service_ok svc) (srv_services s)) < 2"

definition server_drop :: "server \<Rightarrow> server" where
  "server_drop s = s\<lparr>srv_services := map (\<lambda>(k, svc). (k, service_join svc)) (srv_services s)\<rparr>"

section \<open>Invariant and the effect on subscriptions\<close>

text \<open>Whether a connection is subscribed to the service of a name.\<close>

definition subed_to :: "server \<Rightarrow> string \<Rightarrow> i32 \<Rightarrow> bool" where
  "subed_to s name k = (case hm_get (srv_services s) name of None \<Rightarrow> False | Some svc \<Rightarrow> is_subed svc k)"

definition server_wf :: "server \<Rightarrow> bool" where
  "server_wf s \<longleftrightarrow> hm_wf (srv_services s) \<and> keyed_by_id (srv_connections s)
     \<and> (\<forall>(k, svc) \<in> set (srv_services s). sv_name svc = k \<and> service_wf svc)"

lemma server_wf_get:
  "server_wf s \<Longrightarrow> hm_get (srv_services s) k = Some svc \<Longrightarrow> sv_name svc = k \<and> service_wf svc"
  by (auto simp: server_wf_def dest: hm_get_in_set)

lemma server_wf_iff:
  "server_wf s \<longleftrightarrow> hm_wf (srv_services s) \<and> keyed_by_id (srv_connections s)
     \<and> (\<forall>k svc. hm_get (srv_services s) k = Some svc \<longrightarrow> sv_name svc = k \<and> service_wf svc)"
  by (auto simp: server_wf_def hm_get_eq_Some)

lemma server_wf_modify:
  assumes "server_wf s" "\<And>svc. service_wf svc \<Longrightarrow> service_wf (f svc) \<and> sv_name (f svc) = sv_name svc"
  shows "server_wf (with_service name f s)"
  using assms by (auto simp: server_wf_iff split: if_splits)

text \<open>A visit of every service, as \<open>for s in self.services.values()\<close> makes.\<close>

lemma get_map_values: "hm_get (map (\<lambda>(k, v). (k, f k v)) m) k = map_option (f k) (hm_get m k)"
  by (induction m) auto

lemma keys_map_values: "map fst (map (\<lambda>(k, v). (k, f k v)) m) = map fst m"
  by (induction m) auto

lemma hm_wf_map_values [simp]: "hm_wf (map (\<lambda>(k, v). (k, f k v)) m) = hm_wf m"
  by (simp add: hm_wf_def keys_map_values del: map_map)

lemma server_wf_visit:
  assumes "server_wf s" "\<And>k svc. service_wf svc \<Longrightarrow> service_wf (f k svc) \<and> sv_name (f k svc) = sv_name svc"
  shows "server_wf (s\<lparr>srv_services := map (\<lambda>(k, v). (k, f k v)) (srv_services s)\<rparr>)"
  using assms by (auto simp: server_wf_iff get_map_values)

lemma srv_subscribe_wf: "server_wf s \<Longrightarrow> server_wf (srv_subscribe s name c b)"
  unfolding srv_subscribe_def
  by (rule server_wf_modify) (auto simp: service_simps svc.inv_sub svc.inv_unsub)

lemma subed_to_subscribe:
  assumes "server_wf s"
  shows "subed_to (srv_subscribe s name c b) n k
    \<longleftrightarrow> (if n = name \<and> k = ci_id c \<and> srv_contains s name then b else subed_to s n k)"
proof (cases "hm_get (srv_services s) name")
  case None
  then show ?thesis by (auto simp: subed_to_def srv_subscribe_def srv_contains_def hm_contains_def)
next
  case (Some svc)
  with assms have "service_wf svc" by (blast dest: server_wf_get)
  from svc.set_subscription [OF this, of c b] Some show ?thesis
    by (auto simp: subed_to_def srv_subscribe_def srv_contains_def hm_contains_def)
qed

lemma srv_contains_subscribe [simp]:
  "srv_contains (srv_subscribe s name c b) n = srv_contains s n"
  by (auto simp: srv_contains_def srv_subscribe_def hm_contains_def)

lemma srv_keys_subscribe [simp]:
  "map fst (srv_services (srv_subscribe s name c b)) = map fst (srv_services s)"
  by (auto simp: srv_subscribe_def hm_modify_def update_keys split: option.split
      simp flip: map_of_eq_None_iff)

lemma srv_subscribe_connections [simp]:
  "srv_connections (srv_subscribe s name c b) = srv_connections s"
  by (simp add: srv_subscribe_def)

definition capture_step ::
  "conn_inner \<Rightarrow> string list \<Rightarrow> bool \<Rightarrow> bool \<Rightarrow> string \<Rightarrow> server \<Rightarrow> server" where
  "capture_step conn displays include exclude name s =
     (if is_video_service_name name then
        (if name \<in> set displays
         then (if include then srv_subscribe s name conn True else s)
         else (if exclude then srv_subscribe s name conn False else s))
      else s)"

lemma capture_displays_fold:
  "capture_displays s conn source displays include exclude =
     fold (capture_step conn (map (get_service_name source) displays) include exclude)
       (map fst (srv_services s)) s"
  unfolding capture_displays_def capture_step_def [abs_def] Let_def ..

lemma capture_step_keeps:
  "server_wf s \<Longrightarrow> server_wf (capture_step conn displays include exclude name s)"
  "srv_contains (capture_step conn displays include exclude name s) n = srv_contains s n"
  "srv_connections (capture_step conn displays include exclude name s) = srv_connections s"
  by (simp_all add: capture_step_def srv_subscribe_wf)

lemma capture_fold_keeps:
  "server_wf s \<Longrightarrow> server_wf (fold (capture_step conn displays include exclude) ks s)"
  "srv_contains (fold (capture_step conn displays include exclude) ks s) n = srv_contains s n"
  "srv_connections (fold (capture_step conn displays include exclude) ks s) = srv_connections s"
  by (induction ks arbitrary: s) (simp_all add: capture_step_keeps)

definition captured :: "string list \<Rightarrow> bool \<Rightarrow> bool \<Rightarrow> string \<Rightarrow> bool \<Rightarrow> bool" where
  "captured displays include exclude n before \<longleftrightarrow>
     (if n \<in> set displays then include \<or> before else \<not> exclude \<and> before)"

lemma subed_to_capture_step:
  "server_wf s \<Longrightarrow> subed_to (capture_step conn displays include exclude name s) n k
    \<longleftrightarrow> (if n = name \<and> k = ci_id conn \<and> is_video_service_name n \<and> srv_contains s n
        then captured displays include exclude n (subed_to s n k) else subed_to s n k)"
  by (auto simp: capture_step_def subed_to_subscribe captured_def)

lemma captured_idem:
  "captured ds incl excl n (captured ds incl excl n b) = captured ds incl excl n b"
  by (auto simp: captured_def)

lemma subed_to_capture_fold:
  "server_wf s \<Longrightarrow> subed_to (fold (capture_step conn displays include exclude) ks s) n k
    \<longleftrightarrow> (if n \<in> set ks \<and> k = ci_id conn \<and> is_video_service_name n \<and> srv_contains s n
        then captured displays include exclude n (subed_to s n k) else subed_to s n k)"
proof (induction ks arbitrary: s)
  case (Cons name ks)
  from Cons.IH [OF capture_step_keeps(1) [OF Cons.prems]] subed_to_capture_step [OF Cons.prems]
  show ?case by (auto simp: capture_step_keeps(2) captured_idem)
qed simp

lemma srv_contains_iff: "srv_contains s n \<longleftrightarrow> n \<in> set (map fst (srv_services s))"
  by (simp add: srv_contains_def hm_contains_def map_of_eq_None_iff)

lemma subed_to_contains: "subed_to s n k \<Longrightarrow> srv_contains s n"
  by (auto simp: subed_to_def srv_contains_def hm_contains_def split: option.splits)

section \<open>Properties\<close>

lemma capture_displays_facts:
  assumes "server_wf s"
  shows "server_wf (capture_displays s conn source displays include exclude)
    \<and> (\<forall>n k. subed_to (capture_displays s conn source displays include exclude) n k
        \<longleftrightarrow> (if k = ci_id conn \<and> is_video_service_name n \<and> srv_contains s n
            then (if n \<in> get_service_name source ` set displays then include \<or> subed_to s n k
                  else \<not> exclude \<and> subed_to s n k)
            else subed_to s n k))"
  unfolding capture_displays_fold
  using capture_fold_keeps(1) [OF assms] subed_to_capture_fold [OF assms] subed_to_contains
  by (auto simp: captured_def srv_contains_iff)

text \<open>
  Choosing displays: after \<open>capture_displays\<close> a connection is subscribed to exactly the
  video services the request asks for (the listed ones if \<open>include\<close>, none of the others if
  \<open>exclude\<close>, the rest as before), every other connection and every service that is not a video
  service keeps its subscriptions, and the registry stays well formed.
\<close>

theorem capture_displays_exact:
  assumes "server_wf s"
  shows "server_wf (capture_displays s conn source displays include exclude)
    \<and> (\<forall>n k. subed_to (capture_displays s conn source displays include exclude) n k
        \<longleftrightarrow> (if k = ci_id conn \<and> is_video_service_name n \<and> srv_contains s n
            then (if n \<in> get_service_name source ` set displays then include \<or> subed_to s n k
                  else \<not> exclude \<and> subed_to s n k)
            else subed_to s n k))"
  by (rule capture_displays_facts [OF assms])

definition sample_conn :: "nat \<Rightarrow> conn_inner" where
  "sample_conn k = \<lparr>ci_id = of_nat k, ci_tx = True, ci_tx_video = True\<rparr>"

definition sample_server :: server where
  "sample_server = \<lparr>srv_connections = [], srv_services =
     [(''monitor0'', service_new ''monitor0'' True), (''monitor1'', service_new ''monitor1'' True),
      (''audio'', service_new ''audio'' True)], srv_id_count = 1000\<rparr>"

lemma sample_server_wf: "server_wf sample_server"
  by (simp add: server_wf_def sample_server_def hm_wf_def service_new_wf) (simp add: service_new_def)

theorem capture_displays_exact_witness:
  "subed_to (capture_displays sample_server (sample_conn 7) Monitor [1] True True) ''monitor1'' 7
    \<and> \<not> subed_to (capture_displays sample_server (sample_conn 7) Monitor [1] True True) ''monitor0'' 7"
proof -
  have names: "is_video_service_name ''monitor1''" "is_video_service_name ''monitor0''"
    "srv_contains sample_server ''monitor1''" "srv_contains sample_server ''monitor0''"
    "get_service_name Monitor 1 = ''monitor1''" "ci_id (sample_conn 7) = 7"
    by code_simp+
  with capture_displays_exact [OF sample_server_wf, of "sample_conn 7" Monitor "[1]" True True]
  show ?thesis by simp
qed

lemma visit_subed_to:
  "subed_to (s\<lparr>srv_services := map (\<lambda>(k, v). (k, f k v)) (srv_services s)\<rparr>) n k
    \<longleftrightarrow> (case hm_get (srv_services s) n of None \<Rightarrow> False | Some svc \<Rightarrow> is_subed (f n svc) k)"
  by (auto simp: subed_to_def get_map_values split: option.split)

lemma server_wf_connections:
  "server_wf s \<Longrightarrow> keyed_by_id m \<Longrightarrow> server_wf (s\<lparr>srv_connections := m\<rparr>)"
  by (simp add: server_wf_def)

lemma add_connection_facts:
  assumes "server_wf s"
  shows "server_wf (add_connection primary s c noperms)
    \<and> hm_get (srv_connections (add_connection primary s c noperms)) (ci_id c) = Some c
    \<and> (\<forall>n k. subed_to (add_connection primary s c noperms) n k
        \<longleftrightarrow> subed_to s n k
          \<or> k = ci_id c \<and> srv_contains s n \<and> n \<notin> set noperms
            \<and> (is_video_service_name n \<longrightarrow> n = get_service_name Monitor primary))"
proof -
  obtain f where f: "f = (\<lambda>(key :: string) svc.
      if is_video_service_name (sv_name svc) \<and> sv_name svc \<noteq> get_service_name Monitor primary then svc
      else if sv_name svc \<notin> set noperms then on_subscribe svc c else svc)" by simp
  obtain s1 where s1: "s1 = s\<lparr>srv_services := map (\<lambda>(k, v). (k, f k v)) (srv_services s)\<rparr>" by simp
  have add: "add_connection primary s c noperms
      = s1\<lparr>srv_connections := hm_insert (ci_id c) c (srv_connections s)\<rparr>"
    by (simp add: add_connection_def f s1 Let_def)
  have "server_wf s1"
    unfolding s1 by (rule server_wf_visit [OF assms]) (auto simp: f on_subscribe_wf service_simps)
  then have "server_wf (add_connection primary s c noperms)"
    using assms unfolding add by (intro server_wf_connections) (simp_all add: server_wf_def)
  moreover have "subed_to (add_connection primary s c noperms) n k \<longleftrightarrow> subed_to s n k
      \<or> k = ci_id c \<and> srv_contains s n \<and> n \<notin> set noperms
        \<and> (is_video_service_name n \<longrightarrow> n = get_service_name Monitor primary)" for n k
  proof -
    have "subed_to (add_connection primary s c noperms) n k = subed_to s1 n k"
      by (simp add: add subed_to_def)
    also have "\<dots> \<longleftrightarrow> (case hm_get (srv_services s) n of None \<Rightarrow> False | Some svc \<Rightarrow> is_subed (f n svc) k)"
      unfolding s1 by (rule visit_subed_to)
    finally show ?thesis
      using server_wf_get [OF assms, of n]
      by (auto simp: f subed_to_def srv_contains_def hm_contains_def is_subed_on_subscribe
          split: option.split)
  qed
  ultimately show ?thesis by (simp add: add)
qed

text \<open>
  C7: A connection that logs on is subscribed to exactly the services it has permission for: to
  every registered service that is not on the list \<open>noperms\<close>, among the video services only to
  the primary display's; no other connection gains or loses a subscription.
\<close>

theorem add_connection_exact:
  assumes "server_wf s"
  shows "server_wf (add_connection primary s c noperms)
    \<and> hm_get (srv_connections (add_connection primary s c noperms)) (ci_id c) = Some c
    \<and> (\<forall>n k. subed_to (add_connection primary s c noperms) n k
        \<longleftrightarrow> subed_to s n k
          \<or> k = ci_id c \<and> srv_contains s n \<and> n \<notin> set noperms
            \<and> (is_video_service_name n \<longrightarrow> n = get_service_name Monitor primary))"
  by (rule add_connection_facts [OF assms])

theorem add_connection_exact_witness:
  "subed_to (add_connection 0 sample_server (sample_conn 7) [''audio'']) ''monitor0'' 7
    \<and> \<not> subed_to (add_connection 0 sample_server (sample_conn 7) [''audio'']) ''monitor1'' 7
    \<and> \<not> subed_to (add_connection 0 sample_server (sample_conn 7) [''audio'']) ''audio'' 7"
proof -
  have facts: "is_video_service_name ''monitor0''" "is_video_service_name ''monitor1''"
    "srv_contains sample_server ''monitor0''" "get_service_name Monitor 0 = ''monitor0''"
    "ci_id (sample_conn 7) = 7" "\<not> subed_to sample_server ''monitor1'' 7"
    "\<not> subed_to sample_server ''audio'' 7"
    by code_simp+
  with add_connection_exact [OF sample_server_wf, of 0 "sample_conn 7" "[''audio'']"]
  show ?thesis by simp
qed

text \<open>
  A connection that goes away leaves nothing behind: after \<open>remove_connection\<close> no service has
  it as a subscriber and the registry does not know it, while every other connection keeps its
  entry and all its subscriptions.
\<close>

theorem remove_connection_total:
  assumes "server_wf s"
  shows "server_wf (remove_connection s c)
    \<and> hm_get (srv_connections (remove_connection s c)) = (hm_get (srv_connections s))(ci_id c := None)
    \<and> (\<forall>n k. subed_to (remove_connection s c) n k \<longleftrightarrow> k \<noteq> ci_id c \<and> subed_to s n k)"
proof -
  obtain s1 where s1: "s1 = s\<lparr>srv_services :=
      map (\<lambda>(k, v). (k, (\<lambda>_ svc. on_unsubscribe svc (ci_id c)) k v)) (srv_services s)\<rparr>" by simp
  have rem: "remove_connection s c = s1\<lparr>srv_connections := hm_remove (ci_id c) (srv_connections s)\<rparr>"
    by (simp add: remove_connection_def s1)
  have "server_wf s1"
    unfolding s1 by (rule server_wf_visit [OF assms]) (auto simp: on_unsubscribe_wf service_simps)
  then have "server_wf (remove_connection s c)"
    using assms unfolding rem by (intro server_wf_connections) (simp_all add: server_wf_def)
  moreover have "subed_to (remove_connection s c) n k \<longleftrightarrow> k \<noteq> ci_id c \<and> subed_to s n k" for n k
  proof -
    have "subed_to (remove_connection s c) n k = subed_to s1 n k" by (simp add: rem subed_to_def)
    also have "\<dots> \<longleftrightarrow> (case hm_get (srv_services s) n of None \<Rightarrow> False
        | Some svc \<Rightarrow> is_subed (on_unsubscribe svc (ci_id c)) k)"
      unfolding s1 by (rule visit_subed_to)
    finally show ?thesis
      using server_wf_get [OF assms, of n]
      by (auto simp: subed_to_def is_subed_on_unsubscribe split: option.split)
  qed
  ultimately show ?thesis by (simp add: rem)
qed

theorem remove_connection_total_witness:
  "\<not> subed_to (remove_connection (add_connection 0 sample_server (sample_conn 7) []) (sample_conn 7))
      ''monitor0'' 7"
  using remove_connection_total [of "add_connection 0 sample_server (sample_conn 7) []" "sample_conn 7"]
    add_connection_exact [OF sample_server_wf, of 0 "sample_conn 7" "[]"]
  by (auto simp: sample_conn_def)

text \<open>
  The number of displays a connection is said to watch is the number of the displays it asked
  for that have a service, each counted once, however often the request lists it.
\<close>

theorem subbed_displays_count_after_capture:
  assumes "server_wf s"
  shows "get_subbed_displays_count (capture_displays s conn source displays True True) (ci_id conn)
    = card (get_service_name source ` set displays \<inter> set (map fst (srv_services s)))"
proof -
  let ?s = "capture_displays s conn source displays True True"
  have video: "is_video_service_name (get_service_name source d)" for d
    by (cases source) (simp_all add: is_video_service_name_def get_service_name_def starts_with_def)
  have wf: "server_wf ?s" and sub: "\<And>n. subed_to ?s n (ci_id conn) \<longleftrightarrow>
      (if is_video_service_name n \<and> srv_contains s n then n \<in> get_service_name source ` set displays
       else subed_to s n (ci_id conn))"
    using capture_displays_exact [OF assms, of conn source displays True True] by auto
  have keys: "set (map fst (srv_services ?s)) = set (map fst (srv_services s))"
    using capture_fold_keeps(2) [of conn _ True True] unfolding capture_displays_fold
    by (auto simp: srv_contains_iff simp del: set_map)
  let ?p = "\<lambda>n. is_video_service_name n \<and> subed_to ?s n (ci_id conn)"
  have "get_subbed_displays_count ?s (ci_id conn) = length (filter ?p (map fst (srv_services ?s)))"
    by (simp add: get_subbed_displays_count_def subed_to_def)
  also have "\<dots> = card (set (filter ?p (map fst (srv_services ?s))))"
    using wf by (intro distinct_card [symmetric] distinct_filter) (simp add: server_wf_def hm_wf_def)
  also have "set (filter ?p (map fst (srv_services ?s)))
      = get_service_name source ` set displays \<inter> set (map fst (srv_services s))"
    using keys video by (auto simp: sub srv_contains_iff simp del: set_map)
  finally show ?thesis .
qed

theorem subbed_displays_count_after_capture_witness:
  "get_subbed_displays_count (capture_displays sample_server (sample_conn 7) Monitor [1, 1, 5] True True) 7 = 1"
proof -
  have "get_service_name Monitor ` set [1, 1, 5] \<inter> set (map fst (srv_services sample_server)) = {''monitor1''}"
    by code_simp
  moreover have "ci_id (sample_conn 7) = 7" by code_simp
  ultimately show ?thesis
    using subbed_displays_count_after_capture [OF sample_server_wf, of "sample_conn 7" Monitor "[1, 1, 5]"]
    by simp
qed

text \<open>
  Connection ids are positive and never repeat: whatever the random number the registry starts
  from, the first two thousand million calls of \<open>get_new_id\<close> return pairwise different positive
  numbers.
\<close>

fun new_ids :: "nat \<Rightarrow> server \<Rightarrow> i32 list" where
  "new_ids 0 s = []"
| "new_ids (Suc n) s = (case get_new_id s of (i, s') \<Rightarrow> i # new_ids n s')"

lemma new_ids_counter: "new_ids n s = map (\<lambda>i. srv_id_count s + of_nat (Suc i)) [0..<n]"
proof (induction n arbitrary: s)
  case (Suc n)
  have "[0..<Suc n] = 0 # map Suc [0..<n]" by (simp only: upt_conv_Cons map_Suc_upt zero_less_Suc)
  then show ?case
    using Suc.IH [of "s\<lparr>srv_id_count := srv_id_count s + 1\<rparr>"]
    by (simp add: get_new_id_def Let_def add.assoc del: upt_Suc)
qed simp

lemma add_service_id_count [simp]: "srv_id_count (add_service s svc) = srv_id_count s"
  by (simp add: add_service_def)

lemma server_new_id_count:
  "1 \<le> sint (srv_id_count (server_new os ufcp cursor x11 printer r))
    \<and> sint (srv_id_count (server_new os ufcp cursor x11 printer r)) \<le> 1999"
proof -
  obtain z where z: "z = sgn (sint r) * (\<bar>sint r\<bar> mod 1000) + 1000" by simp
  have "srv_id_count (server_new os ufcp cursor x11 printer r) = word_of_int z"
    by (simp only: z server_new_def Let_def) simp
  moreover have "1 \<le> z" "z \<le> 1999"
    using pos_mod_bound [of 1000 "\<bar>sint r\<bar>"] pos_mod_sign [of 1000 "\<bar>sint r\<bar>"]
    by (auto simp: z sgn_if)
  ultimately show ?thesis
    by (simp add: sint_sbintrunc' signed_take_bit_int_eq_self)
qed

theorem new_ids_fresh:
  assumes "n \<le> 2000000000"
  shows "distinct (new_ids n (server_new os ufcp cursor x11 printer r))
    \<and> (\<forall>i \<in> set (new_ids n (server_new os ufcp cursor x11 printer r)). 0 < sint i)"
proof -
  let ?c = "srv_id_count (server_new os ufcp cursor x11 printer r)"
  have pos: "sint (?c + of_nat (Suc i)) = sint ?c + int (Suc i)" if "i < n" for i
  proof -
    have i: "sint (of_nat (Suc i) :: i32) = int (Suc i)"
      using that assms by (simp add: sint_sbintrunc' signed_take_bit_int_eq_self signed_of_nat del: of_nat_Suc)
    then show ?thesis
      using that assms server_new_id_count [of os ufcp cursor x11 printer r]
      by (simp add: sint_word_ariths signed_take_bit_int_eq_self del: of_nat_Suc)
  qed
  have "inj_on (\<lambda>i. ?c + of_nat (Suc i)) (set [0..<n])"
    by (rule inj_on_inverseI [where g = "\<lambda>w. nat (sint w - sint ?c - 1)"]) (simp add: pos del: of_nat_Suc)
  then show ?thesis
    using pos server_new_id_count [of os ufcp cursor x11 printer r]
    by (auto simp: new_ids_counter distinct_map simp del: of_nat_Suc)
qed

theorem new_ids_fresh_witness:
  "distinct (new_ids 3 (server_new Linux True False True True 123456))"
  using new_ids_fresh [of 3 Linux True False True True 123456] by simp

end
