(* ===== verification/F32.thy ===== *)
theory F32
  imports Prelude "HOL-Library.Log_Nat"
begin

text \<open>
  Single-precision arithmetic as Rust's \<open>f32\<close> does it on finite values: a value is a rational,
  and every operation rounds its exact result to the nearest multiple of the unit in the last
  place (24 bits of precision, subnormals from \<open>2^-149\<close>, ties to even). Overflow to infinity
  and NaN are not represented; the components that use this theory stay far below the largest
  finite value \<open>2^128\<close>, and every division they do has a positive divisor.
\<close>

section \<open>Rounding\<close>

type_synonym f32 = rat

definition pow2 :: "int \<Rightarrow> rat" where
  "pow2 e = (if 0 \<le> e then 2 ^ nat e else 1 / 2 ^ nat (- e))"

definition flog2 :: "rat \<Rightarrow> int" where
  "flog2 x = (if 1 \<le> x then bitlen \<lfloor>x\<rfloor> - 1 else - bitlen (\<lceil>1 / x\<rceil> - 1))"

definition round_even :: "rat \<Rightarrow> int" where
  "round_even x = (let f = \<lfloor>x\<rfloor>; d = x - of_int f
                   in if d < 1 / 2 then f else if 1 / 2 < d then f + 1
                      else if even f then f else f + 1)"

definition ulp_exp :: "rat \<Rightarrow> int" where
  "ulp_exp x = max (flog2 \<bar>x\<bar> - 23) (- 149)"

definition rnd :: "rat \<Rightarrow> f32" where
  "rnd x = (if x = 0 then 0 else of_int (round_even (x / pow2 (ulp_exp x))) * pow2 (ulp_exp x))"

definition f32_rep :: "rat \<Rightarrow> bool" where
  "f32_rep x \<longleftrightarrow> rnd x = x"

section \<open>Operations\<close>

definition f32_mul :: "f32 \<Rightarrow> f32 \<Rightarrow> f32" where "f32_mul x y = rnd (x * y)"
definition f32_add :: "f32 \<Rightarrow> f32 \<Rightarrow> f32" where "f32_add x y = rnd (x + y)"
definition f32_sub :: "f32 \<Rightarrow> f32 \<Rightarrow> f32" where "f32_sub x y = rnd (x - y)"
definition f32_div :: "f32 \<Rightarrow> f32 \<Rightarrow> f32" where "f32_div x y = rnd (x / y)"

text \<open>\<open>n as f32\<close>, and the saturating \<open>x as u32\<close>.\<close>

definition f32_of_u32 :: "u32 \<Rightarrow> f32" where
  "f32_of_u32 n = rnd (of_nat (unat n))"

definition f32_of_i32 :: "i32 \<Rightarrow> f32" where
  "f32_of_i32 n = rnd (of_int (sint n))"

definition u32_of_f32 :: "f32 \<Rightarrow> u32" where
  "u32_of_f32 x = (if x \<le> 0 then 0 else if 4294967295 \<le> x then 4294967295 else word_of_int \<lfloor>x\<rfloor>)"

definition f32_ceil :: "f32 \<Rightarrow> f32" where
  "f32_ceil x = of_int \<lceil>x\<rceil>"

text \<open>\<open>x.clamp(lo, hi)\<close> panics unless \<open>lo <= hi\<close>; a panic is \<open>None\<close>.\<close>

definition clamp :: "'a::linorder \<Rightarrow> 'a \<Rightarrow> 'a \<Rightarrow> 'a option" where
  "clamp x lo hi = (if hi < lo then None else Some (if x < lo then lo else if hi < x then hi else x))"

lemma clamp_bounds: "clamp x lo hi = Some v \<Longrightarrow> lo \<le> v \<and> v \<le> hi"
  by (auto simp: clamp_def split: if_splits)

lemma clamp_eq: "lo \<le> hi \<Longrightarrow> clamp x lo hi = Some (max lo (min x hi))"
proof -
  assume "lo \<le> hi"
  then show ?thesis
    by (cases "x < lo"; cases "hi < x") (auto simp: clamp_def max_def min_def)
qed

section \<open>Powers and logarithms\<close>

lemma pow2_powi: "pow2 e = 2 powi e"
  by (cases "0 \<le> e") (simp_all only: pow2_def power_int_def if_True if_False divide_inverse power_inverse mult_1)

lemma pow2_pos [simp]: "0 < pow2 e"
  by (simp add: pow2_powi)

lemma pow2_nonzero [simp]: "pow2 e \<noteq> 0"
  by (simp add: pow2_powi)

lemma pow2_add: "pow2 (a + b) = pow2 a * pow2 b"
  by (simp add: pow2_powi power_int_add)

lemma pow2_mono: "a \<le> b \<Longrightarrow> pow2 a \<le> pow2 b"
  by (simp add: pow2_powi power_int_increasing)

lemma pow2_strict: "a < b \<Longrightarrow> pow2 a < pow2 b"
  by (simp add: pow2_powi power_int_strict_increasing)

lemma pow2_less_iff [simp]: "pow2 a < pow2 b \<longleftrightarrow> a < b"
  by (metis linorder_not_less pow2_mono pow2_strict)

lemma pow2_nat [simp]: "pow2 (int n) = 2 ^ n"
  by (simp add: pow2_def)

lemma pow2_Suc: "pow2 (e + 1) = 2 * pow2 e"
  using pow2_add [of e 1] pow2_nat [of 1] by simp

lemma floor_numeral_div [simp]:
  "\<lfloor>(numeral a :: rat) / numeral b\<rfloor> = numeral a div numeral b"
  by (metis floor_divide_of_int_eq of_int_numeral)

lemma floor_one_div [simp]: "\<lfloor>(1 :: rat) / numeral b\<rfloor> = 1 div numeral b"
  by (metis floor_divide_of_int_eq of_int_numeral of_int_1)

lemma ceiling_numeral_div [simp]:
  "\<lceil>(numeral a :: rat) / numeral b\<rceil> = - (- numeral a div numeral b)"
  by (metis ceiling_divide_eq_div of_int_numeral)

lemma pow2_int: "0 \<le> e \<Longrightarrow> pow2 e = of_int (2 ^ nat e)"
  by (simp add: pow2_def)

lemma bitlen_pow2: "0 < n \<Longrightarrow> pow2 (bitlen n - 1) \<le> of_int n \<and> of_int n < pow2 (bitlen n)"
proof -
  assume n: "0 < n"
  have "bitlen n \<noteq> 0" "0 \<le> bitlen n" using n by (simp_all add: bitlen_eq_zero_iff bitlen_nonneg)
  then have "0 \<le> bitlen n - 1" by linarith
  with \<open>0 \<le> bitlen n\<close> show ?thesis using bitlen_bounds [OF n]
    by (simp only: pow2_int of_int_less_iff of_int_le_iff)
qed

lemma pow2_uminus: "1 / pow2 k = pow2 (- k)"
  by (simp add: pow2_def)

lemma flog2_bounds:
  assumes "0 < x"
  shows "pow2 (flog2 x) \<le> x" "x < pow2 (flog2 x + 1)"
proof -
  have "pow2 (flog2 x) \<le> x \<and> x < pow2 (flog2 x + 1)"
  proof (cases "1 \<le> x")
    case True
    then have f: "0 < \<lfloor>x\<rfloor>" by linarith
    have "\<lfloor>x\<rfloor> < 2 ^ nat (bitlen \<lfloor>x\<rfloor>)" using bitlen_bounds [OF f] by simp
    then have "\<lfloor>x\<rfloor> + 1 \<le> 2 ^ nat (bitlen \<lfloor>x\<rfloor>)" by simp
    then have u: "of_int (\<lfloor>x\<rfloor> + 1) \<le> pow2 (bitlen \<lfloor>x\<rfloor>)"
      using bitlen_nonneg by (simp only: pow2_int of_int_le_iff)
    have v: "of_int \<lfloor>x\<rfloor> \<le> x" "x < of_int (\<lfloor>x\<rfloor> + 1)" by linarith+
    have "pow2 (bitlen \<lfloor>x\<rfloor> - 1) \<le> of_int \<lfloor>x\<rfloor>" using bitlen_pow2 [OF f] by simp
    then have "pow2 (bitlen \<lfloor>x\<rfloor> - 1) \<le> x" "x < pow2 (bitlen \<lfloor>x\<rfloor>)"
      using u v by linarith+
    then show ?thesis using True by (simp add: flog2_def)
  next
    case False
    obtain n where n: "n = \<lceil>1 / x\<rceil> - 1" by simp
    have "1 < 1 / x" using False assms by simp
    then have np: "0 < n" using n by linarith
    have a: "of_int n < 1 / x" "1 / x \<le> of_int (n + 1)" using n by linarith+
    have "n + 1 \<le> 2 ^ nat (bitlen n)" using bitlen_bounds [OF np] by simp
    then have "of_int (n + 1) \<le> pow2 (bitlen n)"
      using bitlen_nonneg by (simp only: pow2_int of_int_le_iff)
    with a have u: "1 / x \<le> pow2 (bitlen n)" by linarith
    have "pow2 (bitlen n - 1) < 1 / x" using a bitlen_pow2 [OF np] by linarith
    then have "x < 1 / pow2 (bitlen n - 1)" using assms by (simp add: field_simps)
    moreover have "1 / pow2 (bitlen n) \<le> x" using u assms by (simp add: field_simps)
    ultimately show ?thesis using False by (simp add: flog2_def n [symmetric] pow2_uminus)
  qed
  then show "pow2 (flog2 x) \<le> x" "x < pow2 (flog2 x + 1)" by simp_all
qed

lemma flog2_less: "0 < x \<Longrightarrow> x < pow2 k \<Longrightarrow> flog2 x < k"
  using flog2_bounds(1) [of x] by (metis le_less_trans pow2_less_iff)

lemma flog2_mono:
  assumes "0 < x" "x \<le> y"
  shows "flog2 x \<le> flog2 y"
proof -
  have "pow2 (flog2 x) < pow2 (flog2 y + 1)"
    using flog2_bounds(1) [of x] flog2_bounds(2) [of y] assms by linarith
  then show ?thesis by simp
qed

section \<open>Properties of rounding\<close>

lemma round_even_of_int [simp]: "round_even (of_int n) = n"
  by (simp add: round_even_def)

lemma round_even_mono: "x \<le> y \<Longrightarrow> round_even x \<le> round_even y"
proof -
  assume "x \<le> y"
  then have "\<lfloor>x\<rfloor> \<le> \<lfloor>y\<rfloor>" by (rule floor_mono)
  show ?thesis
  proof (cases "\<lfloor>x\<rfloor> = \<lfloor>y\<rfloor>")
    case True
    then show ?thesis using \<open>x \<le> y\<close> by (auto simp: round_even_def Let_def)
  next
    case False
    with \<open>\<lfloor>x\<rfloor> \<le> \<lfloor>y\<rfloor>\<close> have "\<lfloor>x\<rfloor> + 1 \<le> \<lfloor>y\<rfloor>" by linarith
    then show ?thesis by (auto simp: round_even_def Let_def)
  qed
qed

lemma rnd_0 [simp]: "rnd 0 = 0"
  by (simp add: rnd_def)

text \<open>Multiples of a unit with at most 24 significant bits are representable.\<close>

lemma rnd_fixed:
  assumes "\<bar>m\<bar> \<le> 2 ^ 24" "- 149 \<le> e"
  shows "rnd (of_int m * pow2 e) = of_int m * pow2 e"
proof (cases "m = 0")
  case False
  obtain x where x: "x = of_int m * pow2 e" by simp
  have ax: "\<bar>x\<bar> = of_int \<bar>m\<bar> * pow2 e" by (simp add: x abs_mult abs_of_pos)
  have pos: "0 < \<bar>x\<bar>" using False by (simp add: ax)
  obtain k where k: "k = ulp_exp x" by simp
  have "\<exists>n. x = of_int n * pow2 k"
  proof (cases "k \<le> e")
    case True
    then have "pow2 (e - k) = of_int (2 ^ nat (e - k))" by (intro pow2_int) simp
    then have "pow2 e = of_int (2 ^ nat (e - k)) * pow2 k" using pow2_add [of "e - k" k] by simp
    then have "x = of_int (m * 2 ^ nat (e - k)) * pow2 k" by (simp add: x)
    then show ?thesis by blast
  next
    case False
    have "\<bar>m\<bar> = 2 ^ 24"
    proof (rule ccontr)
      assume "\<bar>m\<bar> \<noteq> 2 ^ 24"
      with assms(1) have "of_int \<bar>m\<bar> < (2 ^ 24 :: rat)"
        by (metis of_int_less_iff of_int_numeral of_int_power order_le_less)
      then have "\<bar>x\<bar> < 2 ^ 24 * pow2 e" by (simp add: ax)
      then have "\<bar>x\<bar> < pow2 (e + 24)" using pow2_add [of e 24] pow2_nat [of 24] by simp
      then have "flog2 \<bar>x\<bar> < e + 24" using pos flog2_less by blast
      with False assms(2) show False by (simp add: k ulp_exp_def)
    qed
    then have "\<bar>x\<bar> = 2 ^ 24 * pow2 e" by (metis ax of_int_numeral of_int_power)
    then have "\<bar>x\<bar> < pow2 (e + 25)" using pow2_add [of e 25] pow2_nat [of 25] by simp
    then have "flog2 \<bar>x\<bar> < e + 25" using pos flog2_less by blast
    then have "k = e + 1" using False assms(2) by (simp add: k ulp_exp_def)
    moreover have "m = 2 * 2 ^ 23 \<or> m = 2 * - (2 ^ 23)" using \<open>\<bar>m\<bar> = 2 ^ 24\<close> by auto
    then obtain n where "m = 2 * n" by blast
    ultimately have "x = of_int n * pow2 k" by (simp add: x pow2_Suc)
    then show ?thesis by blast
  qed
  then obtain n where "x = of_int n * pow2 k" by blast
  then have "x / pow2 k = of_int n" by simp
  then have "rnd x = of_int n * pow2 k" by (auto simp: rnd_def k [symmetric])
  with \<open>x = of_int n * pow2 k\<close> show ?thesis unfolding x [symmetric] by simp
qed simp

lemma rnd_form: "\<exists>m e. rnd x = of_int m * pow2 e \<and> \<bar>m\<bar> \<le> 2 ^ 24 \<and> - 149 \<le> e"
proof (cases "x = 0")
  case True
  then show ?thesis by (auto intro!: exI [of _ 0])
next
  case False
  obtain e where e: "e = ulp_exp x" by simp
  have "\<bar>x\<bar> < pow2 (flog2 \<bar>x\<bar> + 1)" using False flog2_bounds(2) by simp
  also have "\<dots> \<le> pow2 (e + 24)" by (rule pow2_mono) (simp add: e ulp_exp_def)
  also have "\<dots> = 2 ^ 24 * pow2 e" using pow2_add [of e 24] pow2_nat [of 24] by simp
  finally have "\<bar>x\<bar> / pow2 e \<le> of_int (2 ^ 24)" by (simp add: field_simps)
  then have "x / pow2 e \<le> of_int (2 ^ 24)" "of_int (- (2 ^ 24)) \<le> x / pow2 e"
    by (simp_all add: field_simps abs_le_iff)
  from round_even_mono [OF this(1)] round_even_mono [OF this(2)]
  have "\<bar>round_even (x / pow2 e)\<bar> \<le> 2 ^ 24" unfolding round_even_of_int by simp
  moreover have "rnd x = of_int (round_even (x / pow2 e)) * pow2 e" "- 149 \<le> e"
    using False by (simp_all add: rnd_def e ulp_exp_def)
  ultimately show ?thesis by blast
qed

lemma rnd_rnd [simp]: "rnd (rnd x) = rnd x"
  by (metis rnd_form rnd_fixed)

lemma f32_rep_rnd [simp]: "f32_rep (rnd x)"
  by (simp add: f32_rep_def)

lemma rnd_nonneg: "0 \<le> x \<Longrightarrow> 0 \<le> rnd x"
  using round_even_mono [of 0 "x / pow2 (ulp_exp x)"] round_even_of_int [of 0]
  by (simp add: rnd_def less_imp_le)

lemma rnd_mono_pos:
  assumes "0 < x" "x \<le> y"
  shows "rnd x \<le> rnd y"
proof -
  have fl: "flog2 x \<le> flog2 y" using assms by (rule flog2_mono)
  obtain a b where ab: "a = ulp_exp x" "b = ulp_exp y" by simp
  have r: "rnd x = of_int (round_even (x / pow2 a)) * pow2 a"
      "rnd y = of_int (round_even (y / pow2 b)) * pow2 b"
    using assms by (simp_all add: rnd_def ab)
  show ?thesis
  proof (cases "a = b")
    case True
    then show ?thesis using round_even_mono [of "x / pow2 a" "y / pow2 a"] assms r
      by (simp add: divide_right_mono less_imp_le)
  next
    case False
    then have b: "b = flog2 y - 23" "a < b" "flog2 x < flog2 y"
      using fl assms by (auto simp: ab ulp_exp_def max_def split: if_splits)
    obtain c where c: "c = flog2 y" by simp
    have ge: "pow2 c \<le> y" using assms flog2_bounds(1) [of y] by (simp add: c)
    have lt: "x < pow2 c"
      using flog2_bounds(2) [OF assms(1)] pow2_mono [of "flog2 x + 1" c] b c by simp
    have p: "pow2 c = of_int (2 ^ nat (c - a)) * pow2 a" "pow2 c = of_int (2 ^ 23) * pow2 b"
      using pow2_add [of "c - a" a] pow2_add [of 23 b] pow2_int [of "c - a"] pow2_nat [of 23] b c
      by simp_all
    have "x / pow2 a \<le> of_int (2 ^ nat (c - a))" "of_int (2 ^ 23) \<le> y / pow2 b"
      using lt ge p by (simp_all add: field_simps)
    from this [THEN round_even_mono]
    have n: "round_even (x / pow2 a) \<le> 2 ^ nat (c - a)" "2 ^ 23 \<le> round_even (y / pow2 b)"
      unfolding round_even_of_int by simp_all
    have "rnd x \<le> of_int (2 ^ nat (c - a)) * pow2 a" "of_int (2 ^ 23) * pow2 b \<le> rnd y"
      unfolding r using n by (simp_all only: mult_right_mono of_int_le_iff pow2_pos less_imp_le)
    then show ?thesis using p by linarith
  qed
qed

lemma rnd_mono: "0 \<le> x \<Longrightarrow> x \<le> y \<Longrightarrow> rnd x \<le> rnd y"
  using rnd_mono_pos [of x y] rnd_nonneg [of y] by (cases "x = 0") auto

lemmas f32_eval = rnd_def ulp_exp_def flog2_def compute_bitlen pow2_def round_even_def Let_def

end
