(* ===== verification/Video_QoS.thy ===== *)
theory Video_QoS
  imports F32
begin

text \<open>
  The video quality controller (\<open>src/server/video_qos.rs\<close>): the round-trip time estimator, the
  delay history of each user, and the controller that turns network delays, user settings and
  display activity into one frame rate and one bitrate ratio. Times (\<open>Instant\<close>) are natural
  numbers of milliseconds handed in as \<open>now\<close>; a panic is \<open>None\<close>: a division by zero, or
  \<open>clamp\<close> with bounds in the wrong order. Additions wrap, as they do in the release profile of
  \<open>Cargo.toml\<close>, which does not switch overflow checks on.
\<close>

section \<open>Constants and qualities\<close>

definition FPS :: u32 where "FPS = 60"
definition MIN_FPS :: u32 where "MIN_FPS = 1"
definition MAX_FPS :: u32 where "MAX_FPS = 120"
definition INIT_FPS :: u32 where "INIT_FPS = 60"

definition BR_MAX :: f32 where "BR_MAX = 5"
definition BR_MIN :: f32 where "BR_MIN = rnd (2 / 10)"
definition BR_MIN_HIGH_RESOLUTION :: f32 where "BR_MIN_HIGH_RESOLUTION = rnd (1 / 10)"
definition MAX_BR_MULTIPLE :: f32 where "MAX_BR_MULTIPLE = 1"
definition BR_BEST :: f32 where "BR_BEST = rnd (15 / 10)"
definition BR_BALANCED :: f32 where "BR_BALANCED = rnd (67 / 100)"
definition BR_SPEED :: f32 where "BR_SPEED = rnd (5 / 10)"

definition HISTORY_DELAY_LEN :: nat where "HISTORY_DELAY_LEN = 2"
definition ADJUST_RATIO_INTERVAL :: nat where "ADJUST_RATIO_INTERVAL = 1"
definition DYNAMIC_SCREEN_THRESHOLD :: nat where "DYNAMIC_SCREEN_THRESHOLD = 2"
definition DELAY_THRESHOLD_150MS :: u32 where "DELAY_THRESHOLD_150MS = 80"

lemmas fps_consts = FPS_def MIN_FPS_def MAX_FPS_def INIT_FPS_def DELAY_THRESHOLD_150MS_def

text \<open>\<open>Quality\<close> and its ratio (\<open>libs/scrap/src/common/codec.rs\<close>).\<close>

datatype quality = Best | Balanced | Low | Custom f32

fun quality_ratio :: "quality \<Rightarrow> f32" where
  "quality_ratio Best = BR_BEST"
| "quality_ratio Balanced = BR_BALANCED"
| "quality_ratio Low = BR_SPEED"
| "quality_ratio (Custom v) = v"

section \<open>Round-trip time estimation\<close>

record rtt_calculator =
  rc_min_rtt :: "u32 option"
  rc_window_min_rtt :: "u32 option"
  rc_smoothed_rtt :: "u32 option"
  rc_samples :: "u32 list"

definition rtt_default :: rtt_calculator where
  "rtt_default = \<lparr>rc_min_rtt = None, rc_window_min_rtt = None, rc_smoothed_rtt = None, rc_samples = []\<rparr>"

definition WINDOW_SAMPLES :: nat where "WINDOW_SAMPLES = 60"
definition MIN_SAMPLES :: nat where "MIN_SAMPLES = 10"
definition ALPHA :: f32 where "ALPHA = rnd (5 / 10)"

definition rtt_update :: "u32 \<Rightarrow> rtt_calculator \<Rightarrow> rtt_calculator" where
  "rtt_update delay c =
     (let m = (case rc_min_rtt c of
                 Some m \<Rightarrow> if delay < m then Some delay else Some m
               | None \<Rightarrow> Some delay);
          s = (if WINDOW_SAMPLES \<le> length (rc_samples c) then tl (rc_samples c) else rc_samples c) @ [delay];
          w = iter_min s;
          r = (if WINDOW_SAMPLES \<le> length s
               then (case (m, w) of
                       (Some a, Some b) \<Rightarrow>
                         Some (u32_of_f32 (f32_add (f32_mul (f32_sub 1 ALPHA) (f32_of_u32 a))
                                                   (f32_mul ALPHA (f32_of_u32 b))))
                     | _ \<Rightarrow> rc_smoothed_rtt c)
               else rc_smoothed_rtt c)
      in \<lparr>rc_min_rtt = m, rc_window_min_rtt = w, rc_smoothed_rtt = r, rc_samples = s\<rparr>)"

definition get_rtt :: "rtt_calculator \<Rightarrow> u32 option" where
  "get_rtt c = (case rc_smoothed_rtt c of
                  Some r \<Rightarrow> Some r
                | None \<Rightarrow> if MIN_SAMPLES \<le> length (rc_samples c) then rc_min_rtt c else None)"

section \<open>Delays of one user\<close>

record user_delay =
  ud_response_delayed :: bool
  ud_delay_history :: "u32 list"
  ud_fps :: "u32 option"
  ud_rtt_calculator :: rtt_calculator
  ud_quick_increase_fps_count :: nat
  ud_increase_fps_count :: nat

definition user_delay_default :: user_delay where
  "user_delay_default = \<lparr>ud_response_delayed = False, ud_delay_history = [], ud_fps = None,
     ud_rtt_calculator = rtt_default, ud_quick_increase_fps_count = 0, ud_increase_fps_count = 0\<rparr>"

definition add_delay :: "u32 \<Rightarrow> user_delay \<Rightarrow> user_delay" where
  "add_delay delay d =
     (let h = ud_delay_history d;
          h' = (if HISTORY_DELAY_LEN < length h then tl h else h)
      in d\<lparr>ud_rtt_calculator := rtt_update delay (ud_rtt_calculator d),
           ud_delay_history := h' @ [delay]\<rparr>)"

text \<open>Division of \<open>u32\<close> panics on zero.\<close>

definition u32_div :: "u32 \<Rightarrow> u32 \<Rightarrow> u32 option" where
  "u32_div a b = (if b = 0 then None else Some (a div b))"

text \<open>The average of the history (the sum wraps in \<open>u32\<close>) minus the round-trip time.\<close>

definition avg_delay :: "user_delay \<Rightarrow> u32 option" where
  "avg_delay d =
     (let h = ud_delay_history d; len = length h in
      if len > 0 then
        map_option (\<lambda>avg. case get_rtt (ud_rtt_calculator d) of
             Some rtt \<Rightarrow> if rtt < avg then avg - rtt else avg
           | None \<Rightarrow> avg)
          (u32_div (sum_list h) (of_nat len))
      else Some DELAY_THRESHOLD_150MS)"

section \<open>The controller\<close>

record user_data =
  us_auto_adjust_fps :: "u32 option"
  us_custom_fps :: "u32 option"
  us_quality :: "(int \<times> quality) option"
  us_delay :: user_delay
  us_record :: bool

definition user_data_default :: user_data where
  "user_data_default = \<lparr>us_auto_adjust_fps = None, us_custom_fps = None, us_quality = None,
     us_delay = user_delay_default, us_record = False\<rparr>"

record display_data =
  dd_send_counter :: u64
  dd_support_changing_quality :: bool

definition display_data_default :: display_data where
  "display_data_default = \<lparr>dd_send_counter = 0, dd_support_changing_quality = False\<rparr>"

record video_qos =
  q_fps :: u32
  q_ratio :: f32
  q_users :: "(i32, user_data) hashmap"
  q_displays :: "(string, display_data) hashmap"
  q_bitrate_store :: u32
  q_adjust_ratio_instant :: nat
  q_abr_config :: bool
  q_new_user_instant :: nat

definition qos_default :: "nat \<Rightarrow> video_qos" where
  "qos_default now = \<lparr>q_fps = FPS, q_ratio = BR_BALANCED, q_users = [], q_displays = [],
     q_bitrate_store = 0, q_adjust_ratio_instant = now, q_abr_config = True, q_new_user_instant = now\<rparr>"

text \<open>\<open>Instant::elapsed().as_secs()\<close>.\<close>

definition elapsed_secs :: "nat \<Rightarrow> nat \<Rightarrow> nat" where
  "elapsed_secs now t = (now - t) div 1000"

subsection \<open>Reading and settings\<close>

definition qos_fps :: "video_qos \<Rightarrow> u32" where
  "qos_fps q = (let fps = q_fps q in if MIN_FPS \<le> fps \<and> fps \<le> MAX_FPS then fps else FPS)"

definition store_bitrate :: "u32 \<Rightarrow> video_qos \<Rightarrow> video_qos" where
  "store_bitrate b q = q\<lparr>q_bitrate_store := b\<rparr>"

definition bitrate :: "video_qos \<Rightarrow> u32" where
  "bitrate q = q_bitrate_store q"

definition qos_ratio :: "video_qos \<Rightarrow> f32 \<times> video_qos" where
  "qos_ratio q =
     (let q' = (if q_ratio q < BR_MIN_HIGH_RESOLUTION \<or> BR_MAX < q_ratio q
                then q\<lparr>q_ratio := BR_BALANCED\<rparr> else q)
      in (q_ratio q', q'))"

definition qos_record :: "video_qos \<Rightarrow> bool" where
  "qos_record q = list_ex (\<lambda>(_, u). us_record u) (q_users q)"

definition set_support_changing_quality :: "string \<Rightarrow> bool \<Rightarrow> video_qos \<Rightarrow> video_qos" where
  "set_support_changing_quality nm support q =
     q\<lparr>q_displays := hm_modify nm (\<lambda>d. d\<lparr>dd_support_changing_quality := support\<rparr>) (q_displays q)\<rparr>"

definition in_vbr_state :: "video_qos \<Rightarrow> bool" where
  "in_vbr_state q \<longleftrightarrow> q_abr_config q \<and> list_all (\<lambda>(_, d). dd_support_changing_quality d) (q_displays q)"

text \<open>\<open>max_by\<close> keeps the later of two equal elements.\<close>

definition latest_quality :: "video_qos \<Rightarrow> quality" where
  "latest_quality q =
     (case List.map_filter (\<lambda>(_, u). us_quality u) (q_users q) of
        [] \<Rightarrow> Balanced
      | x # xs \<Rightarrow> snd (foldl (\<lambda>a b. if fst b < fst a then a else b) x xs))"

definition user_cap :: "user_data \<Rightarrow> u32" where
  "user_cap u =
     (let fps = (case us_custom_fps u of None \<Rightarrow> FPS | Some f \<Rightarrow> f) in
      case us_auto_adjust_fps u of
        Some a \<Rightarrow> if fps = 0 \<or> a < fps then a else fps
      | None \<Rightarrow> fps)"

definition highest_fps :: "video_qos \<Rightarrow> u32 option" where
  "highest_fps q =
     (let fps = (case iter_min (filter (\<lambda>f. MIN_FPS \<le> f) (map (user_cap \<circ> snd) (q_users q))) of
                   None \<Rightarrow> FPS | Some f \<Rightarrow> f)
      in clamp fps MIN_FPS MAX_FPS)"

definition adjust_fps :: "nat \<Rightarrow> video_qos \<Rightarrow> video_qos option" where
  "adjust_fps now q =
     (case highest_fps q of
        None \<Rightarrow> None
      | Some highest \<Rightarrow>
          let fps = (case iter_min (map (\<lambda>(_, u). case ud_fps (us_delay u) of None \<Rightarrow> INIT_FPS | Some f \<Rightarrow> f)
                                        (q_users q)) of
                       None \<Rightarrow> INIT_FPS | Some f \<Rightarrow> f);
              fps = (if list_ex (\<lambda>(_, u). ud_response_delayed (us_delay u)) (q_users q) \<and> MIN_FPS + 1 < fps
                     then MIN_FPS + 1 else fps);
              fps = (if elapsed_secs now (q_new_user_instant q) < 1 \<and> INIT_FPS < fps then INIT_FPS else fps)
          in map_option (\<lambda>f. q\<lparr>q_fps := f\<rparr>) (clamp fps MIN_FPS highest))"

subsection \<open>Adjusting the ratio\<close>

definition ratio_1mbps :: "video_qos \<Rightarrow> f32 option" where
  "ratio_1mbps q =
     (if 0 < bitrate q
      then Some (max (f32_div (f32_mul (q_ratio q) 1000) (f32_of_u32 (bitrate q))) BR_MIN_HIGH_RESOLUTION)
      else None)"

definition ratio_add_150kbps :: "video_qos \<Rightarrow> f32 option" where
  "ratio_add_150kbps q =
     (if 0 < bitrate q
      then Some (f32_div (f32_mul (f32_of_u32 (bitrate q + 150)) (q_ratio q)) (f32_of_u32 (bitrate q)))
      else None)"

definition ratio_min :: "quality \<Rightarrow> f32 option \<Rightarrow> f32" where
  "ratio_min quality r =
     (case quality of
        Best \<Rightarrow>
          let m = f32_div BR_BEST (rnd (25 / 10));
              m = (case r of Some r \<Rightarrow> if r < m then r else m | None \<Rightarrow> m)
          in max m BR_MIN
      | Balanced \<Rightarrow>
          let m = min (f32_div BR_BALANCED 2) (rnd (4 / 10));
              m = (case r of Some r \<Rightarrow> if r < m then r else m | None \<Rightarrow> m)
          in max m BR_MIN_HIGH_RESOLUTION
      | Low \<Rightarrow> BR_MIN_HIGH_RESOLUTION
      | Custom _ \<Rightarrow> BR_MIN_HIGH_RESOLUTION)"

definition ratio_for_delay :: "u32 \<Rightarrow> bool \<Rightarrow> f32 \<Rightarrow> f32" where
  "ratio_for_delay max_delay dynamic_screen current =
     (if max_delay < 50 then (if dynamic_screen then f32_mul current (rnd (115 / 100)) else current)
      else if max_delay < 100 then (if dynamic_screen then f32_mul current (rnd (11 / 10)) else current)
      else if max_delay < DELAY_THRESHOLD_150MS
           then (if dynamic_screen then f32_mul current (rnd (105 / 100)) else current)
      else if max_delay < 200 then f32_mul current (rnd (95 / 100))
      else if max_delay < 300 then f32_mul current (rnd (9 / 10))
      else if max_delay < 500 then f32_mul current (rnd (85 / 100))
      else f32_mul current (rnd (8 / 10)))"

definition adjust_ratio :: "nat \<Rightarrow> bool \<Rightarrow> video_qos \<Rightarrow> video_qos option" where
  "adjust_ratio now dynamic_screen q =
     (if \<not> in_vbr_state q then Some q
      else case map_option iter_max (those (map (\<lambda>(_, u). avg_delay (us_delay u)) (q_users q))) of
        None \<Rightarrow> None
      | Some None \<Rightarrow> Some q
      | Some (Some max_delay) \<Rightarrow>
          let current = q_ratio q;
              lo = ratio_min (latest_quality q) (ratio_1mbps q);
              hi = f32_mul (quality_ratio (latest_quality q)) MAX_BR_MULTIPLE;
              v = ratio_for_delay max_delay dynamic_screen current;
              v = (case ratio_add_150kbps q of
                     Some r \<Rightarrow> if r < v \<and> current < r \<and> BR_SPEED \<le> current then r else v
                   | None \<Rightarrow> v)
          in map_option (\<lambda>v. q\<lparr>q_ratio := v, q_adjust_ratio_instant := now\<rparr>) (clamp v lo hi))"

subsection \<open>Users\<close>

definition on_connection_open :: "nat \<Rightarrow> string \<Rightarrow> i32 \<Rightarrow> video_qos \<Rightarrow> video_qos" where
  "on_connection_open now enable_abr cid q =
     q\<lparr>q_users := hm_insert cid user_data_default (q_users q),
       q_abr_config := enable_abr \<noteq> ''N'',
       q_new_user_instant := now\<rparr>"

definition on_connection_close :: "nat \<Rightarrow> i32 \<Rightarrow> video_qos \<Rightarrow> video_qos" where
  "on_connection_close now cid q =
     (let q' = q\<lparr>q_users := hm_remove cid (q_users q)\<rparr>
      in if q_users q' = [] then qos_default now else q')"

definition user_custom_fps :: "i32 \<Rightarrow> u32 \<Rightarrow> video_qos \<Rightarrow> video_qos" where
  "user_custom_fps cid fps q =
     (if fps < MIN_FPS \<or> MAX_FPS < fps then q
      else q\<lparr>q_users := hm_modify cid (\<lambda>u. u\<lparr>us_custom_fps := Some fps\<rparr>) (q_users q)\<rparr>)"

definition user_auto_adjust_fps :: "i32 \<Rightarrow> u32 \<Rightarrow> video_qos \<Rightarrow> video_qos" where
  "user_auto_adjust_fps cid fps q =
     (if fps < MIN_FPS \<or> MAX_FPS < fps then q
      else q\<lparr>q_users := hm_modify cid (\<lambda>u. u\<lparr>us_auto_adjust_fps := Some fps\<rparr>) (q_users q)\<rparr>)"

text \<open>\<open>ImageQuality\<close> of the message definitions: Low is 2, Balanced 3, Best 4.\<close>

definition convert_quality :: "i32 \<Rightarrow> quality option" where
  "convert_quality v =
     (if v = 3 then Some Balanced
      else if v = 2 then Some Low
      else if v = 4 then Some Best
      else map_option Custom
             (clamp (f32_div (f32_of_i32 ((signed_drop_bit 8 v AND 0xFFF) * 2)) 100) BR_MIN BR_MAX))"

definition user_image_quality :: "int \<Rightarrow> i32 \<Rightarrow> i32 \<Rightarrow> video_qos \<Rightarrow> video_qos option" where
  "user_image_quality time cid image_quality q =
     map_option
       (\<lambda>quality.
          if hm_contains (q_users q) cid
          then let q' = q\<lparr>q_users := hm_modify cid (\<lambda>u. u\<lparr>us_quality := Some (time, quality)\<rparr>) (q_users q)\<rparr>
               in q'\<lparr>q_ratio := quality_ratio (latest_quality q')\<rparr>
          else q)
       (convert_quality image_quality)"

definition user_record :: "i32 \<Rightarrow> bool \<Rightarrow> video_qos \<Rightarrow> video_qos" where
  "user_record cid v q = q\<lparr>q_users := hm_modify cid (\<lambda>u. u\<lparr>us_record := v\<rparr>) (q_users q)\<rparr>"

subsection \<open>Network delays\<close>

definition fps_targets :: "f32 \<Rightarrow> u32 \<times> u32" where
  "fps_targets target_ratio =
     (if BR_BEST \<le> target_ratio then (20, 30)
      else if BR_BALANCED \<le> target_ratio then (30, 45)
      else (45, 60))"

definition devide_fps :: "u32 \<Rightarrow> u32 \<Rightarrow> u32" where
  "devide_fps fps avg =
     u32_of_f32 (f32_ceil (f32_div (f32_of_u32 fps)
                                   (f32_div (f32_of_u32 avg) (f32_of_u32 DELAY_THRESHOLD_150MS))))"

text \<open>
  The frame rate after a delay sample, from the rate before, and the counter of consecutive good
  samples: the chain of \<open>if avg_delay < ...\<close> in \<open>user_network_delay\<close>.
\<close>

definition fps_for_delay ::
  "u32 \<Rightarrow> u32 \<Rightarrow> u32 \<Rightarrow> u32 \<Rightarrow> u32 \<Rightarrow> nat \<Rightarrow> (u32 \<times> nat) option" where
  "fps_for_delay fps min_fps normal_fps old_avg avg quick =
     (let dividend_ms = DELAY_THRESHOLD_150MS * min_fps in
      if avg < 50 then
        (let quick = quick + 1;
             step = (if fps < normal_fps then 1 else 0)
         in Some (if 3 \<le> quick then (max min_fps (fps + 5), 0) else (max min_fps (fps + step), quick)))
      else if avg < 100 then
        (let step = (if avg < old_avg then (if fps < normal_fps then 1 else 0) else 0)
         in Some (max min_fps (fps + step), quick))
      else if avg < DELAY_THRESHOLD_150MS then Some (max min_fps fps, quick)
      else map_option (\<lambda>fps. (fps, quick))
        (let dv = devide_fps fps avg in
         if avg < 200 then Some (max min_fps dv)
         else if avg < 300 then Some (min min_fps dv)
         else if avg < 600 then u32_div dividend_ms avg
         else map_option (\<lambda>f. min f dv) (u32_div dividend_ms avg)))"

text \<open>The update of one user by a delay sample; the second component is the local \<open>adjust_ratio\<close>.\<close>

definition delay_sample :: "u32 \<Rightarrow> u32 \<Rightarrow> u32 \<Rightarrow> u32 \<Rightarrow> u32 \<Rightarrow> user_delay \<Rightarrow> (user_delay \<times> bool) option" where
  "delay_sample highest fps0 min_fps normal_fps delay d0 =
     (let delay = max delay 10; d = add_delay delay d0 in
      case (avg_delay d0, avg_delay d) of
        (Some old_avg, Some avg) \<Rightarrow>
          (let avg = max avg 10 in
           case fps_for_delay fps0 min_fps normal_fps old_avg avg (ud_quick_increase_fps_count d) of
             None \<Rightarrow> None
           | Some (fps, quick) \<Rightarrow>
               (let incr = (if avg < DELAY_THRESHOLD_150MS then ud_increase_fps_count d + 1 else 0);
                    (fps, incr) = (if 3 \<le> incr then (fps + 1, 0) else (fps, incr));
                    quick = (if 50 < avg then 0 else quick);
                    adjust_ratio = (ud_fps d = None)
                in map_option
                     (\<lambda>fps. (d\<lparr>ud_fps := Some fps, ud_quick_increase_fps_count := quick, ud_increase_fps_count := incr\<rparr>,
                             adjust_ratio))
                     (clamp fps MIN_FPS highest)))
      | _ \<Rightarrow> None)"

definition user_network_delay :: "target_os \<Rightarrow> nat \<Rightarrow> i32 \<Rightarrow> u32 \<Rightarrow> video_qos \<Rightarrow> video_qos option" where
  "user_network_delay os now cid delay q =
     (case highest_fps q of
        None \<Rightarrow> None
      | Some highest \<Rightarrow>
          let (min_fps, normal_fps) = fps_targets (quality_ratio (latest_quality q));
              r = (case hm_get (q_users q) cid of
                     None \<Rightarrow> Some (q, False)
                   | Some u \<Rightarrow>
                       map_option
                         (\<lambda>(d, adj). (q\<lparr>q_users := hm_insert cid (u\<lparr>us_delay := d\<rparr>) (q_users q)\<rparr>, adj))
                         (delay_sample highest (q_fps q) min_fps normal_fps delay (us_delay u)))
          in case r of
               None \<Rightarrow> None
             | Some (q1, adj) \<Rightarrow>
                 (case adjust_fps now q1 of
                    None \<Rightarrow> None
                  | Some q2 \<Rightarrow> if adj \<and> os \<noteq> Linux then adjust_ratio now False q2 else Some q2))"

definition user_delay_response_elapsed :: "nat \<Rightarrow> i32 \<Rightarrow> nat \<Rightarrow> video_qos \<Rightarrow> video_qos option" where
  "user_delay_response_elapsed now cid elapsed q =
     (case hm_get (q_users q) cid of
        None \<Rightarrow> Some q
      | Some u \<Rightarrow>
          let d = (us_delay u)\<lparr>ud_response_delayed := 2000 < elapsed\<rparr>;
              d' = (if ud_response_delayed d then add_delay (of_nat elapsed) d else d);
              q' = q\<lparr>q_users := hm_insert cid (u\<lparr>us_delay := d'\<rparr>) (q_users q)\<rparr>
          in if ud_response_delayed d then adjust_fps now q' else Some q')"

subsection \<open>Displays\<close>

definition new_display :: "string \<Rightarrow> video_qos \<Rightarrow> video_qos" where
  "new_display nm q = q\<lparr>q_displays := hm_insert nm display_data_default (q_displays q)\<rparr>"

definition remove_display :: "string \<Rightarrow> video_qos \<Rightarrow> video_qos" where
  "remove_display nm q = q\<lparr>q_displays := hm_remove nm (q_displays q)\<rparr>"

definition update_display_data :: "nat \<Rightarrow> string \<Rightarrow> u64 \<Rightarrow> video_qos \<Rightarrow> video_qos option" where
  "update_display_data now nm send_counter q =
     (let q1 = q\<lparr>q_displays := hm_modify nm (\<lambda>d. d\<lparr>dd_send_counter := dd_send_counter d + send_counter\<rparr>)
                                 (q_displays q)\<rparr>
      in case adjust_fps now q1 of
           None \<Rightarrow> None
         | Some q2 \<Rightarrow>
             if in_vbr_state q2
             then if ADJUST_RATIO_INTERVAL \<le> elapsed_secs now (q_adjust_ratio_instant q2)
                  then let dynamic_screen = list_ex (\<lambda>(_, d). of_nat (ADJUST_RATIO_INTERVAL * DYNAMIC_SCREEN_THRESHOLD)
                                                               \<le> dd_send_counter d) (q_displays q2);
                           q3 = q2\<lparr>q_displays := map (\<lambda>(k, d). (k, d\<lparr>dd_send_counter := 0\<rparr>)) (q_displays q2)\<rparr>
                       in adjust_ratio now dynamic_screen q3
                  else Some q2
             else Some (q2\<lparr>q_ratio := quality_ratio (latest_quality q2)\<rparr>))"

section \<open>Bounds of the bitrate ratio\<close>

lemma br_values:
  "BR_MAX = 5" "BR_MIN = 13421773 / 67108864" "BR_MIN_HIGH_RESOLUTION = 13421773 / 134217728"
  "BR_BEST = 3 / 2" "BR_BALANCED = 11240735 / 16777216" "BR_SPEED = 1 / 2" "MAX_BR_MULTIPLE = 1"
  by (simp_all add: BR_MAX_def BR_MIN_def BR_MIN_HIGH_RESOLUTION_def BR_BEST_def BR_BALANCED_def
      BR_SPEED_def MAX_BR_MULTIPLE_def f32_eval)

lemma br_reps:
  "f32_rep BR_MAX" "f32_rep BR_MIN" "f32_rep BR_BEST" "f32_rep BR_BALANCED" "f32_rep BR_SPEED"
  "f32_rep BR_MIN_HIGH_RESOLUTION"
  by (simp_all add: BR_MIN_def BR_BEST_def BR_BALANCED_def BR_SPEED_def BR_MIN_HIGH_RESOLUTION_def)
     (simp add: br_values f32_rep_def f32_eval)

lemma br_order:
  "BR_MIN_HIGH_RESOLUTION \<le> BR_MIN" "BR_MIN \<le> BR_SPEED" "BR_SPEED \<le> BR_BALANCED"
  "BR_BALANCED \<le> BR_BEST" "BR_BEST \<le> BR_MAX"
  by (simp_all add: br_values)

definition quality_ok :: "quality \<Rightarrow> bool" where
  "quality_ok x \<longleftrightarrow> (case x of Custom v \<Rightarrow> f32_rep v \<and> BR_MIN \<le> v \<and> v \<le> BR_MAX | _ \<Rightarrow> True)"

lemma quality_ratio_bounds:
  "quality_ok x \<Longrightarrow> f32_rep (quality_ratio x) \<and> BR_MIN \<le> quality_ratio x \<and> quality_ratio x \<le> BR_MAX"
  using br_order by (cases x) (simp_all add: quality_ok_def br_reps)

lemma convert_quality_total: "\<exists>x. convert_quality v = Some x \<and> quality_ok x"
proof -
  obtain y where y: "y = f32_div (f32_of_i32 ((signed_drop_bit 8 v AND 0xFFF) * 2)) 100" by simp
  have b: "BR_MIN \<le> BR_MAX" using br_order by linarith
  have "clamp y BR_MIN BR_MAX = Some (max BR_MIN (min y BR_MAX))"
    by (rule clamp_eq [OF b])
  moreover have "f32_rep y" by (simp add: y f32_div_def)
  ultimately show ?thesis using b
    by (auto simp: convert_quality_def quality_ok_def y [symmetric] max_def min_def br_reps)
qed

lemma ratio_min_bounds:
  assumes "quality_ok x"
  shows "BR_MIN_HIGH_RESOLUTION \<le> ratio_min x r \<and> ratio_min x r \<le> quality_ratio x"
proof -
  have m: "f32_div BR_BEST (rnd (25 / 10)) \<le> BR_BEST"
      "min (f32_div BR_BALANCED 2) (rnd (4 / 10)) \<le> BR_BALANCED"
    by (simp_all add: br_values f32_div_def f32_eval)
  show ?thesis
    using assms m br_order
    by (cases x; cases r) (auto simp: ratio_min_def quality_ok_def Let_def)
qed

lemma foldl_latest:
  fixes x :: "'a::linorder \<times> 'b"
  shows "foldl (\<lambda>a b. if fst b < fst a then a else b) x xs \<in> set (x # xs) \<and>
   (\<forall>y \<in> set (x # xs). fst y \<le> fst (foldl (\<lambda>a b. if fst b < fst a then a else b) x xs))"
proof (induction xs arbitrary: x)
  case (Cons y ys)
  from Cons [of "if fst y < fst x then x else y"] show ?case
    by (auto split: if_splits)
qed simp

lemma latest_quality_cases:
  "(\<forall>(k, u) \<in> set (q_users q). us_quality u = None) \<and> latest_quality q = Balanced
   \<or> (\<exists>k u t. (k, u) \<in> set (q_users q) \<and> us_quality u = Some (t, latest_quality q) \<and>
        (\<forall>k' u' t' x'. (k', u') \<in> set (q_users q) \<longrightarrow> us_quality u' = Some (t', x') \<longrightarrow> t' \<le> t))"
proof -
  have s: "y \<in> set (List.map_filter (\<lambda>(_, u). us_quality u) (q_users q)) \<longleftrightarrow>
      (\<exists>k u. (k, u) \<in> set (q_users q) \<and> us_quality u = Some y)" for y
    by (force simp: List.map_filter_def image_iff)
  show ?thesis
  proof (cases "List.map_filter (\<lambda>(_, u). us_quality u) (q_users q)")
    case Nil
    then have "(k, u) \<in> set (q_users q) \<Longrightarrow> us_quality u = None" for k u
      using s by (cases "us_quality u") auto
    with Nil show ?thesis by (auto simp: latest_quality_def)
  next
    case (Cons x xs)
    obtain z where z: "z = foldl (\<lambda>a b. if fst b < fst a then a else b) x xs" by simp
    have f: "z \<in> set (x # xs)" "\<forall>y \<in> set (x # xs). fst y \<le> fst z"
      using foldl_latest [of x xs] by (simp_all add: z)
    have l: "latest_quality q = snd z" by (simp add: latest_quality_def Cons z)
    from f(1) s obtain k u where "(k, u) \<in> set (q_users q)" "us_quality u = Some z"
      unfolding Cons by blast
    moreover from f(2) s have "\<forall>k' u' t' x'. (k', u') \<in> set (q_users q) \<longrightarrow>
        us_quality u' = Some (t', x') \<longrightarrow> t' \<le> fst z"
      unfolding Cons by (metis fst_conv)
    ultimately show ?thesis unfolding l by (metis prod.collapse)
  qed
qed

section \<open>The controller invariant\<close>

text \<open>
  What every operation keeps: frame rates within \<open>MIN_FPS .. MAX_FPS\<close>, the ratio within
  \<open>BR_MIN_HIGH_RESOLUTION .. BR_MAX\<close>, bounded histories and counters.
\<close>

definition fps_ok :: "u32 \<Rightarrow> bool" where
  "fps_ok f \<longleftrightarrow> MIN_FPS \<le> f \<and> f \<le> MAX_FPS"

definition delay_ok :: "user_delay \<Rightarrow> bool" where
  "delay_ok d \<longleftrightarrow> (\<forall>f. ud_fps d = Some f \<longrightarrow> fps_ok f)
     \<and> length (ud_delay_history d) \<le> HISTORY_DELAY_LEN + 1
     \<and> length (rc_samples (ud_rtt_calculator d)) \<le> WINDOW_SAMPLES
     \<and> ud_quick_increase_fps_count d < 3 \<and> ud_increase_fps_count d < 3"

definition user_ok :: "user_data \<Rightarrow> bool" where
  "user_ok u \<longleftrightarrow> (\<forall>f. us_custom_fps u = Some f \<longrightarrow> fps_ok f)
     \<and> (\<forall>f. us_auto_adjust_fps u = Some f \<longrightarrow> fps_ok f)
     \<and> (\<forall>t x. us_quality u = Some (t, x) \<longrightarrow> quality_ok x)
     \<and> delay_ok (us_delay u)"

definition qos_inv :: "video_qos \<Rightarrow> bool" where
  "qos_inv q \<longleftrightarrow> hm_wf (q_users q) \<and> hm_all user_ok (q_users q)
     \<and> fps_ok (q_fps q) \<and> BR_MIN_HIGH_RESOLUTION \<le> q_ratio q \<and> q_ratio q \<le> BR_MAX"

lemma qos_inv_modify:
  assumes "qos_inv q" "\<And>u. user_ok u \<Longrightarrow> user_ok (f u)"
  shows "qos_inv (q\<lparr>q_users := hm_modify cid f (q_users q)\<rparr>)"
  using assms by (auto simp: qos_inv_def hm_all_modify)

lemma qos_inv_insert:
  assumes "qos_inv q" "user_ok u"
  shows "qos_inv (q\<lparr>q_users := hm_insert cid u (q_users q)\<rparr>)"
  using assms by (auto simp: qos_inv_def hm_all_insert)

lemma qos_inv_user: "qos_inv q \<Longrightarrow> hm_get (q_users q) cid = Some u \<Longrightarrow> user_ok u"
  by (auto simp: qos_inv_def dest: hm_all_get)

lemma latest_quality_ok: "qos_inv q \<Longrightarrow> quality_ok (latest_quality q)"
  using latest_quality_cases [of q] hm_all_in [of user_ok "q_users q"]
  by (auto simp: qos_inv_def user_ok_def quality_ok_def [of Balanced])

lemma clamp_fps:
  "fps_ok h \<Longrightarrow> \<exists>v. clamp x MIN_FPS h = Some v \<and> fps_ok v \<and> v \<le> h \<and> v = max MIN_FPS (min x h)"
  using clamp_eq [of MIN_FPS h x] by (auto simp: fps_ok_def min.coboundedI2)

lemma highest_fps_total: "\<exists>h. highest_fps q = Some h \<and> fps_ok h"
proof -
  have "fps_ok MAX_FPS" by (simp add: fps_ok_def fps_consts)
  from clamp_fps [OF this] show ?thesis unfolding highest_fps_def Let_def by blast
qed

lemma user_cap_ok: "user_ok u \<Longrightarrow> fps_ok (user_cap u)"
  by (auto simp: user_ok_def user_cap_def fps_ok_def fps_consts split: option.split)

lemma highest_fps_le_cap:
  assumes "qos_inv q" "highest_fps q = Some h" "(k, u) \<in> set (q_users q)"
  shows "h \<le> user_cap u"
proof -
  have ok: "fps_ok (user_cap u)" using assms user_cap_ok by (auto simp: qos_inv_def dest: hm_all_in)
  obtain xs where xs: "xs = filter (\<lambda>f. MIN_FPS \<le> f) (map (user_cap \<circ> snd) (q_users q))" by simp
  have m: "user_cap u \<in> set xs" using assms(3) ok by (force simp: xs fps_ok_def)
  then obtain f where f: "iter_min xs = Some f" by (cases "iter_min xs") auto
  have "f \<le> user_cap u" using iter_min_le [OF f m] .
  moreover have "MIN_FPS \<le> f" using iter_min_in [OF f] by (simp add: xs)
  moreover have "highest_fps q = clamp f MIN_FPS MAX_FPS" by (simp add: highest_fps_def xs [symmetric] f)
  ultimately show ?thesis using assms(2) ok by (auto simp: clamp_def fps_ok_def split: if_splits)
qed

lemma adjust_fps_total:
  assumes "qos_inv q"
  shows "\<exists>f. adjust_fps now q = Some (q\<lparr>q_fps := f\<rparr>) \<and> fps_ok f
    \<and> (\<forall>k u. (k, u) \<in> set (q_users q) \<longrightarrow> f \<le> user_cap u)
    \<and> (\<forall>k u. (k, u) \<in> set (q_users q) \<longrightarrow> ud_response_delayed (us_delay u) \<longrightarrow> f \<le> MIN_FPS + 1)
    \<and> qos_inv (q\<lparr>q_fps := f\<rparr>)"
proof -
  from highest_fps_total obtain h where h: "highest_fps q = Some h" "fps_ok h" by blast
  obtain x0 where x0: "x0 = (case iter_min (map (\<lambda>(_, u). case ud_fps (us_delay u) of None \<Rightarrow> INIT_FPS | Some f \<Rightarrow> f)
      (q_users q)) of None \<Rightarrow> INIT_FPS | Some f \<Rightarrow> f)" by simp
  obtain b where b: "b \<longleftrightarrow> list_ex (\<lambda>(_, u). ud_response_delayed (us_delay u)) (q_users q)" by simp
  obtain x1 where x1: "x1 = (if b \<and> MIN_FPS + 1 < x0 then MIN_FPS + 1 else x0)" by simp
  obtain x where x: "x = (if elapsed_secs now (q_new_user_instant q) < 1 \<and> INIT_FPS < x1 then INIT_FPS else x1)"
    by simp
  from clamp_fps [OF h(2)] obtain f where f: "clamp x MIN_FPS h = Some f" "fps_ok f" "f \<le> h"
      "f = max MIN_FPS (min x h)" by blast
  have "adjust_fps now q = Some (q\<lparr>q_fps := f\<rparr>)"
    by (simp only: adjust_fps_def h(1) option.case Let_def x0 [symmetric] b [symmetric] x1 [symmetric]
        x [symmetric] f(1) option.map)
  moreover have "f \<le> user_cap u" if "(k, u) \<in> set (q_users q)" for k u
    using highest_fps_le_cap [OF assms h(1) that] f(3) by simp
  moreover have "f \<le> MIN_FPS + 1" if "b"
  proof -
    have "x1 \<le> MIN_FPS + 1" using that by (auto simp: x1 not_less)
    then have "x \<le> MIN_FPS + 1" by (auto simp: x)
    then show ?thesis by (simp add: f(4) MIN_FPS_def min.coboundedI1)
  qed
  moreover have "b" if "(k, u) \<in> set (q_users q)" "ud_response_delayed (us_delay u)" for k u
    using that by (auto simp: b list_ex_iff)
  moreover have "qos_inv (q\<lparr>q_fps := f\<rparr>)" using assms f by (simp add: qos_inv_def)
  ultimately show ?thesis using f(2) by blast
qed

lemma avg_delay_total:
  assumes "delay_ok d"
  shows "\<exists>a. avg_delay d = Some a"
proof -
  have "length (ud_delay_history d) \<le> 3" using assms by (simp add: delay_ok_def HISTORY_DELAY_LEN_def)
  then have "unat (of_nat (length (ud_delay_history d)) :: u32) = length (ud_delay_history d)"
    by (simp add: unat_of_nat take_bit_nat_eq_self)
  then have "(of_nat (length (ud_delay_history d)) :: u32) \<noteq> 0" if "0 < length (ud_delay_history d)"
    using that by (metis gr_implies_not0 unat_0)
  then show ?thesis by (simp add: avg_delay_def u32_div_def Let_def)
qed

lemma those_total:
  assumes "\<forall>x \<in> set xs. \<exists>y. f x = Some y"
  shows "\<exists>ys. those (map f xs) = Some ys \<and> length ys = length xs"
  using assms by (induction xs) auto

lemma adjust_ratio_total:
  assumes "qos_inv q"
  shows "\<exists>q'. adjust_ratio now dyn q = Some q' \<and> qos_inv q' \<and> q_users q' = q_users q \<and> q_fps q' = q_fps q"
proof (cases "in_vbr_state q \<and> q_users q \<noteq> []")
  case True
  have ok: "quality_ok (latest_quality q)" using assms by (rule latest_quality_ok)
  note m = ratio_min_bounds [OF ok, of "ratio_1mbps q"]
  have hi: "f32_mul (quality_ratio (latest_quality q)) MAX_BR_MULTIPLE = quality_ratio (latest_quality q)"
    using quality_ratio_bounds [OF ok] by (simp add: f32_mul_def MAX_BR_MULTIPLE_def f32_rep_def)
  have "\<forall>u \<in> set (q_users q). \<exists>a. (\<lambda>(_, u). avg_delay (us_delay u)) u = Some a"
    using avg_delay_total assms by (fastforce simp: qos_inv_def user_ok_def dest: hm_all_in)
  from those_total [OF this] obtain ds where
    ds: "those (map (\<lambda>(_, u). avg_delay (us_delay u)) (q_users q)) = Some ds" "length ds = length (q_users q)" by blast
  have "iter_max ds \<noteq> None" using True ds(2) by (cases ds; cases "iter_max (tl ds)") auto
  then obtain d where "iter_max ds = Some d" by blast
  with ds(1) have d: "map_option iter_max (those (map (\<lambda>(_, u). avg_delay (us_delay u)) (q_users q))) = Some (Some d)" by simp
  obtain v where "adjust_ratio now dyn q = map_option (\<lambda>v. q\<lparr>q_ratio := v, q_adjust_ratio_instant := now\<rparr>)
      (clamp v (ratio_min (latest_quality q) (ratio_1mbps q)) (quality_ratio (latest_quality q)))"
    using True by (simp add: adjust_ratio_def d hi Let_def)
  moreover from m have "ratio_min (latest_quality q) (ratio_1mbps q) \<le> quality_ratio (latest_quality q)" by simp
  ultimately obtain w where w: "adjust_ratio now dyn q = Some (q\<lparr>q_ratio := w, q_adjust_ratio_instant := now\<rparr>)"
      "ratio_min (latest_quality q) (ratio_1mbps q) \<le> w" "w \<le> quality_ratio (latest_quality q)"
    using clamp_eq clamp_bounds by (metis option.simps(9))
  then have "BR_MIN_HIGH_RESOLUTION \<le> w" "w \<le> BR_MAX"
    using m quality_ratio_bounds [OF ok] by linarith+
  then show ?thesis using w(1) assms by (simp add: qos_inv_def)
next
  case False
  then have "adjust_ratio now dyn q = Some q"
    by (cases "in_vbr_state q") (simp_all add: adjust_ratio_def)
  then show ?thesis using assms by simp
qed

lemma add_delay_ok:
  "delay_ok d \<Longrightarrow> delay_ok (add_delay x d)"
  by (auto simp: delay_ok_def add_delay_def rtt_update_def Let_def WINDOW_SAMPLES_def HISTORY_DELAY_LEN_def)

lemma delay_sample_total:
  assumes "fps_ok h" "delay_ok d"
  shows "\<exists>d' f. delay_sample h f0 mn nrm x d = Some (d', ud_fps d = None) \<and> delay_ok d' \<and>
    ud_fps d' = Some f \<and> f \<le> h"
proof -
  let ?d = "add_delay (max x 10) d"
  have ok: "delay_ok ?d" by (rule add_delay_ok [OF assms(2)])
  obtain old a where avgs: "avg_delay d = Some old" "avg_delay ?d = Some a"
    using avg_delay_total assms(2) ok by blast
  define avg where "avg = max a 10"
  have "10 \<le> avg" by (simp add: avg_def)
  then have "avg \<noteq> 0" by auto
  then obtain f q where fq: "fps_for_delay f0 mn nrm old avg (ud_quick_increase_fps_count ?d) = Some (f, q)"
    by (cases "fps_for_delay f0 mn nrm old avg (ud_quick_increase_fps_count ?d)")
      (auto simp: fps_for_delay_def u32_div_def Let_def split: if_splits)
  have q: "q < 3" using fq ok by (auto simp: fps_for_delay_def delay_ok_def Let_def split: if_splits)
  define i where "i = (if avg < DELAY_THRESHOLD_150MS then ud_increase_fps_count ?d + 1 else 0)"
  define f1 where "f1 = (if 3 \<le> i then f + 1 else f)"
  have [simp]: "ud_fps ?d = ud_fps d" by (simp add: add_delay_def Let_def)
  from clamp_fps [OF assms(1), of f1] obtain f2 where f2: "clamp f1 MIN_FPS h = Some f2" "fps_ok f2" "f2 \<le> h" by blast
  have "delay_sample h f0 mn nrm x d = Some (?d\<lparr>ud_fps := Some f2,
      ud_quick_increase_fps_count := (if 50 < avg then 0 else q),
      ud_increase_fps_count := (if 3 \<le> i then 0 else i)\<rparr>, ud_fps ?d = None)"
    using f2(1) unfolding f1_def delay_sample_def
    by (cases "3 \<le> i") (simp_all only: Let_def avgs fq avg_def [symmetric] i_def [symmetric] split_conv if_True if_False
        option.map option.case prod.case)
  then show ?thesis using ok q f2 by (auto simp: delay_ok_def)
qed

section \<open>Runs of the controller\<close>

text \<open>The calls the connections and video services make, with the times they make them at.\<close>

datatype qos_event =
    EvOpen nat string i32
  | EvClose nat i32
  | EvCustomFps i32 u32
  | EvAutoAdjustFps i32 u32
  | EvImageQuality int i32 i32
  | EvRecord i32 bool
  | EvNetworkDelay nat i32 u32
  | EvResponseElapsed nat i32 nat
  | EvNewDisplay string
  | EvRemoveDisplay string
  | EvDisplayData nat string u64
  | EvSupportChanging string bool
  | EvBitrate u32
  | EvReadRatio

fun qos_apply :: "target_os \<Rightarrow> qos_event \<Rightarrow> video_qos \<Rightarrow> video_qos option" where
  "qos_apply os (EvOpen now abr c) q = Some (on_connection_open now abr c q)"
| "qos_apply os (EvClose now c) q = Some (on_connection_close now c q)"
| "qos_apply os (EvCustomFps c f) q = Some (user_custom_fps c f q)"
| "qos_apply os (EvAutoAdjustFps c f) q = Some (user_auto_adjust_fps c f q)"
| "qos_apply os (EvImageQuality t c v) q = user_image_quality t c v q"
| "qos_apply os (EvRecord c b) q = Some (user_record c b q)"
| "qos_apply os (EvNetworkDelay now c d) q = user_network_delay os now c d q"
| "qos_apply os (EvResponseElapsed now c e) q = user_delay_response_elapsed now c e q"
| "qos_apply os (EvNewDisplay nm) q = Some (new_display nm q)"
| "qos_apply os (EvRemoveDisplay nm) q = Some (remove_display nm q)"
| "qos_apply os (EvDisplayData now nm n) q = update_display_data now nm n q"
| "qos_apply os (EvSupportChanging nm b) q = Some (set_support_changing_quality nm b q)"
| "qos_apply os (EvBitrate b) q = Some (store_bitrate b q)"
| "qos_apply os EvReadRatio q = Some (snd (qos_ratio q))"

fun qos_run :: "target_os \<Rightarrow> qos_event list \<Rightarrow> video_qos \<Rightarrow> video_qos option" where
  "qos_run os [] q = Some q"
| "qos_run os (e # es) q = (case qos_apply os e q of None \<Rightarrow> None | Some q' \<Rightarrow> qos_run os es q')"

lemma default_user_ok: "user_ok user_data_default"
  by (simp add: user_ok_def user_data_default_def user_delay_default_def delay_ok_def rtt_default_def)

lemma default_inv: "qos_inv (qos_default now)"
  using br_order by (simp add: qos_inv_def qos_default_def fps_ok_def fps_consts)

lemma qos_inv_only:
  "qos_inv q \<Longrightarrow> q_users q' = q_users q \<Longrightarrow> q_fps q' = q_fps q \<Longrightarrow> q_ratio q' = q_ratio q \<Longrightarrow> qos_inv q'"
  by (simp add: qos_inv_def)

lemma qos_inv_ratio:
  "qos_inv q \<Longrightarrow> qos_inv (q\<lparr>q_ratio := quality_ratio (latest_quality q)\<rparr>)"
  using quality_ratio_bounds [OF latest_quality_ok [of q]] br_order by (simp add: qos_inv_def)

lemma user_image_quality_inv:
  assumes "qos_inv q"
  shows "\<exists>q'. user_image_quality t c v q = Some q' \<and> qos_inv q'"
proof -
  from convert_quality_total obtain x where x: "convert_quality v = Some x" "quality_ok x" by blast
  have "qos_inv (q\<lparr>q_users := hm_modify c (\<lambda>u. u\<lparr>us_quality := Some (t, x)\<rparr>) (q_users q)\<rparr>)"
    using assms x by (intro qos_inv_modify) (auto simp: user_ok_def)
  from qos_inv_ratio [OF this] assms x show ?thesis by (simp add: user_image_quality_def Let_def)
qed

text \<open>The effect of a delay sample, for a known user.\<close>

lemma user_network_delay_form:
  assumes inv: "qos_inv q" and u: "hm_get (q_users q) c = Some u"
  shows "\<exists>q2. user_network_delay os now c x q = Some q2 \<and> qos_inv q2
    \<and> (\<forall>k v. hm_get (q_users q2) k = Some v \<longrightarrow> q_fps q2 \<le> user_cap v)
    \<and> (\<forall>k v. hm_get (q_users q2) k = Some v \<longrightarrow> ud_response_delayed (us_delay v) \<longrightarrow> q_fps q2 \<le> MIN_FPS + 1)
    \<and> (ud_fps (us_delay u) \<noteq> None \<longrightarrow> q_ratio q2 = q_ratio q)"
proof -
  from highest_fps_total [of q] obtain h where h: "highest_fps q = Some h" "fps_ok h" by blast
  obtain mn nrm where t: "fps_targets (quality_ratio (latest_quality q)) = (mn, nrm)" by fastforce
  have uok: "user_ok u" using qos_inv_user [OF inv u] .
  then have "delay_ok (us_delay u)" by (simp add: user_ok_def)
  from delay_sample_total [OF h(2) this, of "q_fps q" mn nrm x] obtain d f where
    d: "delay_sample h (q_fps q) mn nrm x (us_delay u) = Some (d, ud_fps (us_delay u) = None)"
      "delay_ok d" "ud_fps d = Some f" "f \<le> h" by blast
  obtain q0 where q0: "q0 = q\<lparr>q_users := hm_insert c (u\<lparr>us_delay := d\<rparr>) (q_users q)\<rparr>" by simp
  have i0: "qos_inv q0" unfolding q0 using inv uok d(2) by (intro qos_inv_insert) (auto simp: user_ok_def)
  from adjust_fps_total [OF this, of now] obtain g where
    g: "adjust_fps now q0 = Some (q0\<lparr>q_fps := g\<rparr>)" "fps_ok g" "\<forall>k v. (k, v) \<in> set (q_users q0) \<longrightarrow> g \<le> user_cap v"
      "\<forall>k v. (k, v) \<in> set (q_users q0) \<longrightarrow> ud_response_delayed (us_delay v) \<longrightarrow> g \<le> MIN_FPS + 1"
      "qos_inv (q0\<lparr>q_fps := g\<rparr>)" by blast
  obtain q3 where q3: "adjust_ratio now False (q0\<lparr>q_fps := g\<rparr>) = Some q3" "qos_inv q3"
      "q_users q3 = q_users q0" "q_fps q3 = g"
    using adjust_ratio_total [OF g(5), of now False] by auto
  obtain q2 where q2: "(if ud_fps (us_delay u) = None \<and> os \<noteq> Linux then adjust_ratio now False (q0\<lparr>q_fps := g\<rparr>) = Some q2
      else q2 = q0\<lparr>q_fps := g\<rparr>)" "qos_inv q2" "q_users q2 = q_users q0" "q_fps q2 = g"
    using q3 g(5) that [of q3] that [of "q0\<lparr>q_fps := g\<rparr>"]
    by (cases "ud_fps (us_delay u) = None \<and> os \<noteq> Linux") auto
  have "user_network_delay os now c x q =
      (if ud_fps (us_delay u) = None \<and> os \<noteq> Linux then adjust_ratio now False (q0\<lparr>q_fps := g\<rparr>) else Some (q0\<lparr>q_fps := g\<rparr>))"
    by (simp add: user_network_delay_def h(1) t u d(1) q0 [symmetric] g(1))
  then have "user_network_delay os now c x q = Some q2" using q2(1) by (simp split: if_splits)
  moreover have "\<forall>k v. hm_get (q_users q2) k = Some v \<longrightarrow> g \<le> user_cap v"
    "\<forall>k v. hm_get (q_users q2) k = Some v \<longrightarrow> ud_response_delayed (us_delay v) \<longrightarrow> g \<le> MIN_FPS + 1"
    using g(3, 4) hm_get_in_set unfolding q2(3) by metis+
  moreover have "ud_fps (us_delay u) \<noteq> None \<longrightarrow> q_ratio q2 = q_ratio q" using q2(1) by (simp add: q0)
  ultimately show ?thesis using q2 by (intro exI [of _ q2]) simp
qed

lemma user_network_delay_inv:
  assumes "qos_inv q"
  shows "\<exists>q'. user_network_delay os now c x q = Some q' \<and> qos_inv q'"
proof (cases "hm_get (q_users q) c")
  case None
  then show ?thesis using adjust_fps_total [OF assms, of now] highest_fps_total [of q]
    by (auto simp: user_network_delay_def split: prod.split)
next
  case (Some u)
  from user_network_delay_form [OF assms Some, of os now x] show ?thesis by blast
qed

lemma user_delay_response_elapsed_inv:
  assumes "qos_inv q"
  shows "\<exists>q'. user_delay_response_elapsed now c e q = Some q' \<and> qos_inv q'"
proof (cases "hm_get (q_users q) c")
  case (Some u)
  from qos_inv_user [OF assms Some] have u: "user_ok u" "delay_ok (us_delay u)" by (simp_all add: user_ok_def)
  obtain d where d: "d = (if 2000 < e then add_delay (of_nat e) ((us_delay u)\<lparr>ud_response_delayed := 2000 < e\<rparr>)
      else (us_delay u)\<lparr>ud_response_delayed := 2000 < e\<rparr>)" by simp
  have "delay_ok ((us_delay u)\<lparr>ud_response_delayed := 2000 < e\<rparr>)" using u(2) by (simp add: delay_ok_def)
  then have "delay_ok d" by (auto simp: d intro: add_delay_ok)
  then have i: "qos_inv (q\<lparr>q_users := hm_insert c (u\<lparr>us_delay := d\<rparr>) (q_users q)\<rparr>)"
    using u(1) by (intro qos_inv_insert [OF assms]) (simp add: user_ok_def)
  from adjust_fps_total [OF i, of now] i show ?thesis
    by (auto simp: user_delay_response_elapsed_def Some Let_def d split: if_splits)
qed (use assms in \<open>simp add: user_delay_response_elapsed_def\<close>)

lemma update_display_data_inv:
  assumes "qos_inv q"
  shows "\<exists>q'. update_display_data now nm n q = Some q' \<and> qos_inv q'"
proof -
  obtain q1 where q1: "q1 = q\<lparr>q_displays := hm_modify nm (\<lambda>d. d\<lparr>dd_send_counter := dd_send_counter d + n\<rparr>)
      (q_displays q)\<rparr>" by simp
  have "qos_inv q1" using assms by (simp add: q1 qos_inv_def)
  from adjust_fps_total [OF this, of now] obtain f where
    f: "adjust_fps now q1 = Some (q1\<lparr>q_fps := f\<rparr>)" "qos_inv (q1\<lparr>q_fps := f\<rparr>)" by blast
  obtain q2 where q2: "q2 = q1\<lparr>q_fps := f\<rparr>" by simp
  have i3: "qos_inv (q2\<lparr>q_displays := ds\<rparr>)" for ds using f(2) by (simp add: q2 qos_inv_def)
  have "\<exists>q'. adjust_ratio now dyn (q2\<lparr>q_displays := ds\<rparr>) = Some q' \<and> qos_inv q'" for dyn ds
    using adjust_ratio_total [OF i3] by blast
  then show ?thesis
    using qos_inv_ratio [OF f(2)] f
    by (auto simp: update_display_data_def Let_def q1 [symmetric] q2 [symmetric])
qed

lemma qos_apply_inv:
  assumes "qos_inv q"
  shows "\<exists>q'. qos_apply os e q = Some q' \<and> qos_inv q'"
proof (cases e)
  case (EvOpen now abr c)
  have "qos_inv (q\<lparr>q_users := hm_insert c user_data_default (q_users q)\<rparr>)"
    using assms default_user_ok by (rule qos_inv_insert)
  then show ?thesis by (auto simp: EvOpen on_connection_open_def intro: qos_inv_only)
next
  case (EvClose now c)
  then show ?thesis using assms default_inv
    by (auto simp: on_connection_close_def Let_def qos_inv_def hm_all_remove)
next
  case (EvCustomFps c f)
  then show ?thesis using assms
    by (auto simp: user_custom_fps_def user_ok_def fps_ok_def intro!: qos_inv_modify)
next
  case (EvAutoAdjustFps c f)
  then show ?thesis using assms
    by (auto simp: user_auto_adjust_fps_def user_ok_def fps_ok_def intro!: qos_inv_modify)
next
  case (EvRecord c b)
  then show ?thesis using assms by (auto simp: user_record_def user_ok_def intro!: qos_inv_modify)
next
  case EvReadRatio
  then show ?thesis using assms by (auto simp: qos_ratio_def qos_inv_def Let_def)
qed (use assms in \<open>auto simp: user_image_quality_inv user_network_delay_inv user_delay_response_elapsed_inv
    update_display_data_inv new_display_def remove_display_def set_support_changing_quality_def
    store_bitrate_def intro: qos_inv_only\<close>)

lemma qos_run_inv: "qos_inv q \<Longrightarrow> \<exists>q'. qos_run os es q = Some q' \<and> qos_inv q'"
proof (induction es arbitrary: q)
  case (Cons e es)
  from qos_apply_inv [OF Cons.prems, of os e] Cons.IH show ?case by auto
qed simp

section \<open>The estimator against its history\<close>

lemma rnd_of_nat: "n \<le> 2 ^ 24 \<Longrightarrow> rnd (of_nat n) = of_nat n"
  using rnd_fixed [of "int n" 0] by (simp add: pow2_def)

lemma f32_of_u32_small: "unat a \<le> 2 ^ 24 \<Longrightarrow> f32_of_u32 a = of_nat (unat a)"
  unfolding f32_of_u32_def by (rule rnd_of_nat)

lemma alpha_value: "ALPHA = 1 / 2"
  by (simp add: ALPHA_def f32_eval)

lemma rnd_half: "n \<le> 2 ^ 24 \<Longrightarrow> rnd (of_nat n / 2) = of_nat n / 2"
  using rnd_fixed [of "int n" "- 1"] by (simp add: pow2_def)

lemma smoothed_between:
  assumes "a \<le> b" "b < 2 ^ 23"
  shows "a \<le> u32_of_f32 (f32_add (f32_mul (f32_sub 1 ALPHA) (f32_of_u32 a)) (f32_mul ALPHA (f32_of_u32 b)))"
    "u32_of_f32 (f32_add (f32_mul (f32_sub 1 ALPHA) (f32_of_u32 a)) (f32_mul ALPHA (f32_of_u32 b))) \<le> b"
proof -
  have u: "unat a \<le> unat b" "unat b < 2 ^ 23"
    using assms by (simp_all add: word_le_nat_alt word_less_nat_alt)
  have one: "f32_sub 1 ALPHA = 1 / 2" by (simp add: f32_sub_def alpha_value f32_eval)
  have h: "f32_mul (1 / 2) (of_nat n) = of_nat n / 2" if "n < 2 ^ 23" for n
    using rnd_half [of n] that by (simp add: f32_mul_def)
  have a: "f32_add (of_nat m / 2) (of_nat n / 2) = of_nat (m + n) / 2" if "m < 2 ^ 23" "n < 2 ^ 23" for m n
    using rnd_half [of "m + n"] that by (simp add: f32_add_def add_divide_distrib)
  have s: "f32_add (f32_mul (f32_sub 1 ALPHA) (f32_of_u32 a)) (f32_mul ALPHA (f32_of_u32 b))
      = of_nat (unat a + unat b) / 2"
  proof -
    have l: "unat a < 2 ^ 23" "unat b < 2 ^ 23" "unat a \<le> 2 ^ 24" "unat b \<le> 2 ^ 24" using u by simp_all
    show ?thesis unfolding one unfolding alpha_value
      using l by (simp only: f32_of_u32_small [OF l(3)] f32_of_u32_small [OF l(4)] h [OF l(1)] h [OF l(2)]
        a [OF l(1) l(2)])
  qed
  have w: "u32_of_f32 (of_nat n / 2) = of_nat (n div 2)" if "n < 2 ^ 24" for n
  proof -
    have "\<lfloor>(of_nat n / 2 :: rat)\<rfloor> = int (n div 2)" using floor_divide_of_nat_eq [of n 2, where 'a = rat] by simp
    then show ?thesis using that by (auto simp: u32_of_f32_def)
  qed
  have "u32_of_f32 (of_nat (unat a + unat b) / 2) = of_nat ((unat a + unat b) div 2)"
    by (rule w) (use u in simp)
  then have v: "unat (u32_of_f32 (of_nat (unat a + unat b) / 2)) = (unat a + unat b) div 2"
    using u by (simp only: unat_of_nat) (simp add: take_bit_nat_eq_self)
  show "a \<le> u32_of_f32 (f32_add (f32_mul (f32_sub 1 ALPHA) (f32_of_u32 a)) (f32_mul ALPHA (f32_of_u32 b)))"
    "u32_of_f32 (f32_add (f32_mul (f32_sub 1 ALPHA) (f32_of_u32 a)) (f32_mul ALPHA (f32_of_u32 b))) \<le> b"
    unfolding s word_le_nat_alt v using u by linarith+
qed

definition rtt_after :: "u32 list \<Rightarrow> rtt_calculator" where
  "rtt_after ds = foldl (\<lambda>c d. rtt_update d c) rtt_default ds"

lemma rtt_after_snoc: "rtt_after (ds @ [d]) = rtt_update d (rtt_after ds)"
  by (simp add: rtt_after_def)

lemma iter_min_snoc:
  "iter_min (xs @ [x]) = (case iter_min xs of None \<Rightarrow> Some x | Some y \<Rightarrow> Some (min y x))"
  by (induction xs) (auto split: option.splits simp: min.assoc)

definition last_n :: "nat \<Rightarrow> 'a list \<Rightarrow> 'a list" where
  "last_n n xs = drop (length xs - n) xs"

lemma last_n_snoc:
  "0 < n \<Longrightarrow> last_n n (xs @ [x]) = (if n \<le> length (last_n n xs) then tl (last_n n xs) else last_n n xs) @ [x]"
  by (auto simp: last_n_def tl_drop Suc_diff_le drop_Suc)

lemma rtt_after_fields:
  "rc_samples (rtt_after ds) = last_n 60 ds"
  "rc_min_rtt (rtt_after ds) = iter_min ds"
  "rc_window_min_rtt (rtt_after ds) = iter_min (last_n 60 ds)"
proof (induction ds rule: rev_induct)
  case Nil
  case 1 show ?case by (simp add: rtt_after_def rtt_default_def last_n_def)
  case 2 show ?case by (simp add: rtt_after_def rtt_default_def)
  case 3 show ?case by (simp add: rtt_after_def rtt_default_def last_n_def)
next
  case (snoc d ds)
  case 1 show ?case using snoc.IH(1) by (simp add: rtt_after_snoc rtt_update_def Let_def last_n_snoc WINDOW_SAMPLES_def)
  case 2 show ?case using snoc.IH(2)
    by (auto simp: rtt_after_snoc rtt_update_def Let_def iter_min_snoc min_def split: option.split)
  case 3 show ?case using snoc.IH(1)
    by (simp add: rtt_after_snoc rtt_update_def Let_def last_n_snoc WINDOW_SAMPLES_def)
qed

lemma rtt_after_smoothed:
  assumes "list_all (\<lambda>d. d < 2 ^ 23) ds"
  shows "case rc_smoothed_rtt (rtt_after ds) of
     None \<Rightarrow> length ds < 60
   | Some r \<Rightarrow> 60 \<le> length ds \<and> (\<exists>a b. iter_min ds = Some a \<and> iter_min (last_n 60 ds) = Some b \<and> a \<le> r \<and> r \<le> b)"
  using assms
proof (induction ds rule: rev_induct)
  case Nil
  show ?case by (simp add: rtt_after_def rtt_default_def)
next
  case (snoc d ds)
  have len: "length (last_n 60 (ds @ [d])) = min 60 (length ds + 1)" by (simp add: last_n_def)
  show ?case
  proof (cases "60 \<le> length ds + 1")
    case False
    then have "rc_smoothed_rtt (rtt_after (ds @ [d])) = rc_smoothed_rtt (rtt_after ds)"
      by (simp add: rtt_after_snoc rtt_update_def Let_def rtt_after_fields WINDOW_SAMPLES_def last_n_def)
    then show ?thesis using snoc False by (auto split: option.splits)
  next
    case True
    obtain a b where ab: "iter_min (ds @ [d]) = Some a" "iter_min (last_n 60 (ds @ [d])) = Some b"
      using True by (cases "iter_min (ds @ [d])"; cases "iter_min (last_n 60 (ds @ [d]))") (auto simp: last_n_def)
    have in_all: "b \<in> set (ds @ [d])" using iter_min_in [OF ab(2)] by (auto simp: last_n_def dest: in_set_dropD)
    then have le: "a \<le> b" using iter_min_le [OF ab(1)] by blast
    have lt: "b < 2 ^ 23" using in_all snoc.prems by (auto simp: list_all_iff)
    have upd: "rtt_after (ds @ [d]) = rtt_update d (rtt_after ds)" by (rule rtt_after_snoc)
    have m: "(case rc_min_rtt (rtt_after ds) of Some m \<Rightarrow> if d < m then Some d else Some m | None \<Rightarrow> Some d) = Some a"
      using ab(1) by (auto simp: rtt_after_fields iter_min_snoc min_def split: option.splits)
    have s: "(if WINDOW_SAMPLES \<le> length (rc_samples (rtt_after ds)) then tl (rc_samples (rtt_after ds))
        else rc_samples (rtt_after ds)) @ [d] = last_n 60 (ds @ [d])"
      by (simp add: rtt_after_fields last_n_snoc WINDOW_SAMPLES_def)
    have "rc_smoothed_rtt (rtt_after (ds @ [d])) =
        Some (u32_of_f32 (f32_add (f32_mul (f32_sub 1 ALPHA) (f32_of_u32 a)) (f32_mul ALPHA (f32_of_u32 b))))"
      unfolding upd rtt_update_def Let_def m s ab(2) using True len by (simp add: WINDOW_SAMPLES_def)
    then show ?thesis using smoothed_between [OF le lt] ab True by auto
  qed
qed

section \<open>Properties\<close>

text \<open>
  C8: The controller never panics and stays in its limits: whatever sequence of connection,
  settings, delay and display events happens at whatever times, no operation divides by zero or
  clamps with its bounds in the wrong order (additions wrap, as in the release profile); the
  frame rate is then between \<open>MIN_FPS\<close> and \<open>MAX_FPS\<close>, the ratio between
  \<open>BR_MIN_HIGH_RESOLUTION\<close> and \<open>BR_MAX\<close>, and so the range checks in \<open>fps()\<close> and
  \<open>ratio()\<close> never replace a value.
\<close>

theorem qos_never_panics:
  "\<exists>q. qos_run os es (qos_default now) = Some q
     \<and> MIN_FPS \<le> q_fps q \<and> q_fps q \<le> MAX_FPS
     \<and> BR_MIN_HIGH_RESOLUTION \<le> q_ratio q \<and> q_ratio q \<le> BR_MAX
     \<and> qos_fps q = q_fps q \<and> qos_ratio q = (q_ratio q, q)"
proof -
  from qos_run_inv [OF default_inv, of os es now] obtain q where q: "qos_run os es (qos_default now) = Some q"
    "qos_inv q" by blast
  then show ?thesis by (intro exI [of _ q]) (simp add: qos_inv_def fps_ok_def qos_fps_def qos_ratio_def Let_def)
qed

text \<open>
  In every reachable state a network delay report of a known user yields a frame rate no
  higher than the limit of any user (the default limit 60 for a user who set none), and of at
  most \<open>MIN_FPS + 1\<close> while any user's delay response is overdue.
\<close>

theorem network_delay_respects_caps:
  assumes "qos_run os es (qos_default t) = Some q" "hm_get (q_users q) c = Some u"
  shows "\<exists>q'. user_network_delay os now c x q = Some q'
     \<and> (\<forall>k v. hm_get (q_users q') k = Some v \<longrightarrow> q_fps q' \<le> user_cap v)
     \<and> (\<forall>k v. hm_get (q_users q') k = Some v \<longrightarrow> ud_response_delayed (us_delay v) \<longrightarrow> q_fps q' \<le> MIN_FPS + 1)"
proof -
  have "qos_inv q" using qos_run_inv [OF default_inv, of os es t] assms(1) by auto
  from user_network_delay_form [OF this assms(2), of os now x] show ?thesis
    by blast
qed

theorem network_delay_respects_caps_witness:
  "\<exists>q'. user_network_delay Windows 5000 1 700
      (the (qos_run Windows [EvOpen 0 '''' 1, EvCustomFps 1 25] (qos_default 0))) = Some q'
     \<and> (\<forall>k v. hm_get (q_users q') k = Some v \<longrightarrow> q_fps q' \<le> user_cap v)
     \<and> (\<forall>k v. hm_get (q_users q') k = Some v \<longrightarrow> ud_response_delayed (us_delay v) \<longrightarrow> q_fps q' \<le> MIN_FPS + 1)"
proof -
  obtain q where q: "q = (qos_default 0)\<lparr>q_users := [(1, user_data_default\<lparr>us_custom_fps := Some 25\<rparr>)]\<rparr>" by simp
  have "qos_run Windows [EvOpen 0 '''' 1, EvCustomFps 1 25] (qos_default 0) = Some q"
    by (simp add: q on_connection_open_def user_custom_fps_def qos_default_def fps_consts hm_modify_def)
  moreover have "hm_get (q_users q) 1 = Some (user_data_default\<lparr>us_custom_fps := Some 25\<rparr>)" by (simp add: q)
  ultimately show ?thesis
    using network_delay_respects_caps [of Windows "[EvOpen 0 '''' 1, EvCustomFps 1 25]" 0 q 1 _ 5000 700] by simp
qed

text \<open>
  After a user's first delay report no further report changes the bitrate ratio, however
  large the delay: the assignment \<open>adjust_ratio = true\<close> made for a delay of 600 ms and more is
  overwritten before it is read.
\<close>

theorem later_delays_keep_ratio:
  assumes "qos_run os es (qos_default t) = Some q" "hm_get (q_users q) c = Some u"
    "ud_fps (us_delay u) \<noteq> None"
  shows "\<exists>q'. user_network_delay os' now c x q = Some q' \<and> q_ratio q' = q_ratio q"
proof -
  have "qos_inv q" using qos_run_inv [OF default_inv, of os es t] assms(1) by auto
  from user_network_delay_form [OF this assms(2), of os' now x] assms(3) show ?thesis by blast
qed

theorem later_delays_keep_ratio_witness:
  "\<exists>q u q'. qos_run Linux [EvOpen 0 '''' 1, EvNetworkDelay 2000 1 20] (qos_default 0) = Some q
     \<and> hm_get (q_users q) 1 = Some u \<and> ud_fps (us_delay u) \<noteq> None
     \<and> user_network_delay Windows 3000 1 900 q = Some q' \<and> q_ratio q' = q_ratio q"
proof -
  obtain q where q: "qos_run Linux [EvOpen 0 '''' 1, EvNetworkDelay 2000 1 20] (qos_default 0) = Some q"
    "hm_get (q_users q) 1 \<noteq> None" "ud_fps (us_delay (the (hm_get (q_users q) 1))) \<noteq> None"
    by (simp add: on_connection_open_def qos_default_def user_network_delay_def highest_fps_def
        latest_quality_def List.map_filter_def fps_targets_def br_values user_cap_def user_data_default_def
        fps_consts clamp_def delay_sample_def add_delay_def user_delay_default_def rtt_default_def
        rtt_update_def Let_def avg_delay_def HISTORY_DELAY_LEN_def WINDOW_SAMPLES_def MIN_SAMPLES_def get_rtt_def
        fps_for_delay_def adjust_fps_def elapsed_secs_def u32_div_def)
  then obtain u where "hm_get (q_users q) 1 = Some u" "ud_fps (us_delay u) \<noteq> None" by auto
  from later_delays_keep_ratio [OF q(1) this, of Windows 3000 900] q(1) this show ?thesis by blast
qed

text \<open>
  The round-trip estimator keeps exactly the last 60 samples, the minimum of all samples and
  the minimum of the last 60; it gives an estimate from the tenth sample on and not before: the
  historical minimum at first, and from the sixtieth sample on a value between the historical
  minimum and the minimum of the last 60 (for samples below \<open>2^23\<close> ms, where single precision is exact).
\<close>

theorem rtt_estimate_correct:
  assumes "list_all (\<lambda>d. d < 2 ^ 23) ds"
  shows "rc_samples (rtt_after ds) = last_n 60 ds
   \<and> rc_min_rtt (rtt_after ds) = iter_min ds
   \<and> rc_window_min_rtt (rtt_after ds) = iter_min (last_n 60 ds)
   \<and> (get_rtt (rtt_after ds) = None \<longleftrightarrow> length ds < 10)
   \<and> (10 \<le> length ds \<and> length ds < 60 \<longrightarrow> get_rtt (rtt_after ds) = iter_min ds)
   \<and> (60 \<le> length ds \<longrightarrow> (\<exists>a r b. iter_min ds = Some a \<and> get_rtt (rtt_after ds) = Some r
        \<and> iter_min (last_n 60 ds) = Some b \<and> a \<le> r \<and> r \<le> b))"
  using rtt_after_smoothed [OF assms]
  by (auto simp: rtt_after_fields get_rtt_def MIN_SAMPLES_def last_n_def split: option.splits)

theorem rtt_estimate_correct_witness:
  "get_rtt (rtt_after (replicate 30 40 @ replicate 31 60)) \<noteq> None
   \<and> list_all (\<lambda>d. d < 2 ^ 23) (replicate 30 40 @ replicate 31 (60 :: u32))"
proof -
  have l: "list_all (\<lambda>d. d < 2 ^ 23) (replicate 30 40 @ replicate 31 (60 :: u32))"
    by (simp add: list_all_iff)
  from rtt_estimate_correct [OF l] l show ?thesis by simp
qed

end
