(* ===== verification/Utf8.thy ===== *)
theory Utf8
  imports Prelude
begin

text \<open>
  Rust strings as the \<open>string\<close> type of this development: a character is a byte, a string the
  sequence of its UTF-8 bytes. The parts of the standard library the sources use on them:
  \<open>as_bytes\<close>, \<open>chars().count()\<close>, \<open>String::from_utf8_lossy\<close> with its replacement of
  every maximal ill-formed piece by U+FFFD.
\<close>

section \<open>Bytes of a string\<close>

definition as_bytes :: "string \<Rightarrow> bytes" where
  "as_bytes s = map (\<lambda>c. of_nat (of_char c)) s"

definition str_of_bytes :: "bytes \<Rightarrow> string" where
  "str_of_bytes v = map (\<lambda>w. char_of (unat w)) v"

lemma str_of_bytes_as_bytes [simp]: "str_of_bytes (as_bytes s) = s"
proof -
  have "char_of (unat (of_nat (of_char c) :: u8)) = c" for c :: char
    using nat_of_char_less_256 [of c] by (simp add: unat_of_nat take_bit_nat_eq_self)
  then show ?thesis by (simp add: as_bytes_def str_of_bytes_def o_def map_idI)
qed

lemma as_bytes_str_of_bytes [simp]: "as_bytes (str_of_bytes v) = v"
proof -
  have "of_nat (of_char (char_of (unat w) :: char)) = w" for w :: u8
    using unsigned_less [of w, where 'a = nat] by (simp add: of_char_of)
  then show ?thesis by (simp add: as_bytes_def str_of_bytes_def o_def map_idI)
qed

lemma as_bytes_append [simp]: "as_bytes (s @ t) = as_bytes s @ as_bytes t"
  by (simp add: as_bytes_def)

lemma str_of_bytes_append [simp]: "str_of_bytes (s @ t) = str_of_bytes s @ str_of_bytes t"
  by (simp add: str_of_bytes_def)

lemma length_as_bytes [simp]: "length (as_bytes s) = length s"
  by (simp add: as_bytes_def)

lemma length_str_of_bytes [simp]: "length (str_of_bytes v) = length v"
  by (simp add: str_of_bytes_def)

lemma as_bytes_Nil_iff [simp]: "as_bytes s = [] \<longleftrightarrow> s = []"
  by (simp add: as_bytes_def)

lemma str_of_bytes_Nil [simp]: "str_of_bytes [] = []"
  by (simp add: str_of_bytes_def)

lemma str_of_bytes_Nil_iff [simp]: "str_of_bytes v = [] \<longleftrightarrow> v = []"
  by (simp add: str_of_bytes_def)

lemma as_bytes_inject [simp]: "as_bytes s = as_bytes t \<longleftrightarrow> s = t"
  by (metis str_of_bytes_as_bytes)

lemma take_as_bytes: "take n (as_bytes s) = as_bytes (take n s)"
  by (simp add: as_bytes_def take_map)

lemma drop_as_bytes: "drop n (as_bytes s) = as_bytes (drop n s)"
  by (simp add: as_bytes_def drop_map)

section \<open>Characters\<close>

definition is_continuation :: "u8 \<Rightarrow> bool" where
  "is_continuation b \<longleftrightarrow> b AND 0xC0 = 0x80"

text \<open>\<open>chars().count()\<close>: one for every byte that starts a character.\<close>

definition chars_count :: "string \<Rightarrow> nat" where
  "chars_count s = length (filter (\<lambda>b. \<not> is_continuation b) (as_bytes s))"

lemma chars_count_le: "chars_count s \<le> length s"
  unfolding chars_count_def by (metis length_as_bytes length_filter_le)

text \<open>The length a lead byte announces (0: not a lead byte), and the range of the second byte.\<close>

definition lead_len :: "u8 \<Rightarrow> nat" where
  "lead_len b = (if b < 0x80 then 1 else if b < 0xC2 then 0 else if b < 0xE0 then 2
                 else if b < 0xF0 then 3 else if b < 0xF5 then 4 else 0)"

definition second_ok :: "u8 \<Rightarrow> u8 \<Rightarrow> bool" where
  "second_ok b c =
     (if b = 0xE0 then 0xA0 \<le> c \<and> c \<le> 0xBF
      else if b = 0xED then 0x80 \<le> c \<and> c \<le> 0x9F
      else if b = 0xF0 then 0x90 \<le> c \<and> c \<le> 0xBF
      else if b = 0xF4 then 0x80 \<le> c \<and> c \<le> 0x8F
      else is_continuation c)"

text \<open>
  One step of the decoder: whether the front of the input is a well-formed character, and how many
  bytes it takes (the length of the maximal ill-formed piece otherwise).
\<close>

fun utf8_step :: "bytes \<Rightarrow> bool \<times> nat" where
  "utf8_step [] = (True, 0)"
| "utf8_step (b # bs) =
     (let n = lead_len b in
      if n = 0 then (False, 1)
      else if n = 1 then (True, 1)
      else case bs of
        [] \<Rightarrow> (False, 1)
      | c # cs \<Rightarrow>
          if \<not> second_ok b c then (False, 1)
          else if n = 2 then (True, 2)
          else (case cs of
                  [] \<Rightarrow> (False, 2)
                | d # ds \<Rightarrow>
                    if \<not> is_continuation d then (False, 2)
                    else if n = 3 then (True, 3)
                    else (case ds of
                            [] \<Rightarrow> (False, 3)
                          | e # _ \<Rightarrow> if is_continuation e then (True, 4) else (False, 3))))"

lemma utf8_step_pos: "v \<noteq> [] \<Longrightarrow> 0 < snd (utf8_step v)"
  by (cases v) (auto simp: Let_def split: list.split)

lemma utf8_step_shrinks: "v \<noteq> [] \<Longrightarrow> (ok, n) = utf8_step v \<Longrightarrow> length (drop n v) < length v"
  using utf8_step_pos [of v] by (cases v; cases "utf8_step v") auto

lemma utf8_step_le: "snd (utf8_step v) \<le> length v"
  by (cases v) (auto simp: Let_def split: list.split)

definition replacement :: bytes where
  "replacement = [0xEF, 0xBF, 0xBD]"

function from_utf8_lossy :: "bytes \<Rightarrow> bytes" where
  "from_utf8_lossy v =
     (if v = [] then []
      else case utf8_step v of
        (ok, n) \<Rightarrow> (if ok then take n v else replacement) @ from_utf8_lossy (drop n v))"
  by pat_completeness auto
termination
  by (relation "measure length", simp) (rule in_measure [THEN iffD2], rule utf8_step_shrinks)

declare from_utf8_lossy.simps [simp del]

function valid_utf8 :: "bytes \<Rightarrow> bool" where
  "valid_utf8 v = (if v = [] then True else case utf8_step v of (ok, n) \<Rightarrow> ok \<and> valid_utf8 (drop n v))"
  by pat_completeness auto
termination
  by (relation "measure length", simp) (rule in_measure [THEN iffD2], rule utf8_step_shrinks)

declare valid_utf8.simps [simp del]

lemma from_utf8_lossy_valid: "valid_utf8 v \<Longrightarrow> from_utf8_lossy v = v"
proof (induction v rule: valid_utf8.induct)
  case (1 v)
  show ?case
  proof (cases "v = []")
    case True
    then show ?thesis by (simp add: from_utf8_lossy.simps)
  next
    case False
    obtain ok n where s: "utf8_step v = (ok, n)" by fastforce
    from "1.prems" False s have ok: "ok" "valid_utf8 (drop n v)" by (simp_all add: valid_utf8.simps [of v])
    have "from_utf8_lossy (drop n v) = drop n v" by (rule "1.IH" [OF False s [symmetric]]) (use ok in auto)
    then show ?thesis using False s ok by (simp add: from_utf8_lossy.simps [of v])
  qed
qed

lemma ascii_valid_utf8: "list_all (\<lambda>b. b < 0x80) v \<Longrightarrow> valid_utf8 v"
proof (induction v)
  case (Cons b v)
  then show ?case by (subst valid_utf8.simps) (simp add: lead_len_def)
qed (simp add: valid_utf8.simps)

end
