(* ===== verification/Secrets.thy ===== *)
theory Secrets
  imports Utf8
begin

text \<open>
  Secrets at rest (\<open>libs/hbb_common/src/password_security.rs\<close>): values written to the
  configuration files are sealed under a key derived from the machine, prefixed with the version
  \<open>00\<close> and base64-encoded; values that cannot be opened are kept as they are. The cipher, the
  base64 codec, the machine's uuid and the stored key pair come from outside and are the fields
  of the environment record.
\<close>

section \<open>Environment\<close>

text \<open>\<open>secretbox::seal\<close> and \<open>open\<close> take the data, the nonce and the key.\<close>

record secrets_env =
  se_seal :: "bytes \<Rightarrow> bytes \<Rightarrow> bytes \<Rightarrow> bytes"
  se_open :: "bytes \<Rightarrow> bytes \<Rightarrow> bytes \<Rightarrow> bytes option"
  se_b64_encode :: "bytes \<Rightarrow> string"
  se_b64_decode :: "bytes \<Rightarrow> bytes option"
  se_uuid :: bytes
  se_existing_pk :: "bytes option"
  se_os :: target_os

text \<open>The documented laws of libsodium's secretbox and base64 codec.\<close>

definition secrets_ok :: "secrets_env \<Rightarrow> bool" where
  "secrets_ok e \<longleftrightarrow>
     (\<forall>v. se_b64_decode e (as_bytes (se_b64_encode e v)) = Some v)
     \<and> se_b64_encode e [] = ''''
     \<and> (\<forall>d n k. se_open e (se_seal e d n k) n k = Some d)
     \<and> (\<forall>d n k. length (se_seal e d n k) = length d + 16)"

definition KEYBYTES :: nat where "KEYBYTES = 32"
definition NONCEBYTES :: nat where "NONCEBYTES = 24"
definition MACBYTES :: nat where "MACBYTES = 16"
definition VERSION_LEN :: nat where "VERSION_LEN = 2"

definition resize :: "nat \<Rightarrow> bytes \<Rightarrow> bytes" where
  "resize n v = take n (v @ replicate n 0)"

section \<open>Sealing\<close>

definition symmetric_crypt :: "secrets_env \<Rightarrow> bytes \<Rightarrow> bool \<Rightarrow> bytes option" where
  "symmetric_crypt e data enc =
     (let key = resize KEYBYTES (se_uuid e);
          nonce = replicate NONCEBYTES 0
      in if enc then Some (se_seal e data nonce key)
         else case se_open e data nonce key of
                Some v \<Rightarrow> Some v
              | None \<Rightarrow>
                  if is_mobile (se_os e) then None
                  else case se_existing_pk e of
                         None \<Rightarrow> None
                       | Some pk \<Rightarrow>
                           if pk \<noteq> se_uuid e then se_open e data nonce (resize KEYBYTES pk) else None)"

definition encrypt :: "secrets_env \<Rightarrow> bytes \<Rightarrow> string option" where
  "encrypt e v = (if v \<noteq> [] then map_option (se_b64_encode e) (symmetric_crypt e v True) else None)"

definition decrypt :: "secrets_env \<Rightarrow> bytes \<Rightarrow> bytes option" where
  "decrypt e v =
     (if v \<noteq> [] then Option.bind (se_b64_decode e v) (\<lambda>d. symmetric_crypt e d False) else None)"

definition version_00 :: bytes where "version_00 = as_bytes ''00''"

definition is_encrypted :: "secrets_env \<Rightarrow> bytes \<Rightarrow> bool" where
  "is_encrypted e v =
     (if length v \<le> VERSION_LEN \<or> take 2 v \<noteq> version_00 then False
      else case se_b64_decode e (drop VERSION_LEN v) of
             Some d \<Rightarrow> MACBYTES \<le> length d
           | None \<Rightarrow> False)"

section \<open>Stored values\<close>

definition encrypt_str_or_original :: "secrets_env \<Rightarrow> string \<Rightarrow> string \<Rightarrow> nat \<Rightarrow> string" where
  "encrypt_str_or_original e s version max_len =
     (if is_encrypted e (as_bytes s) then s
      else if max_len < chars_count s then ''''
      else if version = ''00''
           then (case encrypt e (as_bytes s) of Some c \<Rightarrow> version @ c | None \<Rightarrow> s)
           else s)"

definition decrypt_str_or_original :: "secrets_env \<Rightarrow> string \<Rightarrow> string \<Rightarrow> string \<times> bool \<times> bool" where
  "decrypt_str_or_original e s current =
     (let kept = (s, False, s \<noteq> '''' \<and> \<not> is_encrypted e (as_bytes s)) in
      if VERSION_LEN < length s \<and> take 2 s = ''00''
      then case decrypt e (as_bytes (drop VERSION_LEN s)) of
             Some v \<Rightarrow> (str_of_bytes (from_utf8_lossy v), True, ''00'' \<noteq> current)
           | None \<Rightarrow> kept
      else kept)"

definition encrypt_vec_or_original :: "secrets_env \<Rightarrow> bytes \<Rightarrow> string \<Rightarrow> nat \<Rightarrow> bytes" where
  "encrypt_vec_or_original e v version max_len =
     (if is_encrypted e v then v
      else if max_len < length v then []
      else if version = ''00''
           then (case encrypt e v of Some s \<Rightarrow> as_bytes version @ as_bytes s | None \<Rightarrow> v)
           else v)"

definition decrypt_vec_or_original :: "secrets_env \<Rightarrow> bytes \<Rightarrow> string \<Rightarrow> bytes \<times> bool \<times> bool" where
  "decrypt_vec_or_original e v current =
     (let kept = (v, False, v \<noteq> [] \<and> \<not> is_encrypted e v) in
      if VERSION_LEN < length v
      then let version = str_of_bytes (from_utf8_lossy (take VERSION_LEN v)) in
           if version = ''00''
           then case decrypt e (drop VERSION_LEN v) of
                  Some w \<Rightarrow> (w, True, version \<noteq> current)
                | None \<Rightarrow> kept
           else kept
      else kept)"

section \<open>Lemmas\<close>

lemmas secrets_consts = KEYBYTES_def NONCEBYTES_def MACBYTES_def VERSION_LEN_def

lemma version_00_facts: "length version_00 = 2" "from_utf8_lossy version_00 = version_00"
    "str_of_bytes version_00 = ''00''"
  by (simp add: version_00_def, rule from_utf8_lossy_valid, rule ascii_valid_utf8)
     (simp_all add: version_00_def, simp add: as_bytes_def)

text \<open>What a sealed value looks like, and what opening it gives.\<close>

definition sealed :: "secrets_env \<Rightarrow> bytes \<Rightarrow> bytes" where
  "sealed e v = version_00 @ as_bytes (se_b64_encode e (se_seal e v (replicate NONCEBYTES 0) (resize KEYBYTES (se_uuid e))))"

lemma b64_nonempty:
  assumes "secrets_ok e" "x \<noteq> []"
  shows "se_b64_encode e x \<noteq> ''''"
  using assms unfolding secrets_ok_def by (metis option.inject)

text \<open>Another environment with the same base64 codec, e.g. the same program after the uuid changed.\<close>

definition same_codec :: "secrets_env \<Rightarrow> secrets_env \<Rightarrow> bool" where
  "same_codec e e' \<longleftrightarrow> se_b64_encode e' = se_b64_encode e \<and> se_b64_decode e' = se_b64_decode e"

lemma seal_nonempty: "secrets_ok e \<Longrightarrow> se_seal e d n k \<noteq> []"
  unfolding secrets_ok_def by (metis add_is_0 length_0_conv zero_neq_numeral)

lemma sealed_parts:
  assumes "secrets_ok e" "same_codec e e'"
  shows "take 2 (sealed e v) = version_00" "VERSION_LEN < length (sealed e v)" "drop 2 (sealed e v) \<noteq> []"
    "se_b64_decode e' (drop 2 (sealed e v)) =
       Some (se_seal e v (replicate NONCEBYTES 0) (resize KEYBYTES (se_uuid e)))"
  using assms b64_nonempty [OF assms(1) seal_nonempty [OF assms(1)]]
  by (simp_all add: sealed_def version_00_facts secrets_consts secrets_ok_def same_codec_def)

lemma sealed_is_encrypted:
  "secrets_ok e \<Longrightarrow> same_codec e e' \<Longrightarrow> is_encrypted e' (sealed e v)"
  using sealed_parts [of e e' v]
  by (simp add: is_encrypted_def secrets_ok_def secrets_consts)

lemma encrypt_vec_sealed:
  "v \<noteq> [] \<Longrightarrow> length v \<le> max_len \<Longrightarrow> \<not> is_encrypted e v \<Longrightarrow>
   encrypt_vec_or_original e v ''00'' max_len = sealed e v"
  by (simp add: encrypt_vec_or_original_def encrypt_def symmetric_crypt_def sealed_def version_00_def Let_def)

lemma encrypt_str_sealed:
  "s \<noteq> '''' \<Longrightarrow> chars_count s \<le> max_len \<Longrightarrow> \<not> is_encrypted e (as_bytes s) \<Longrightarrow>
   as_bytes (encrypt_str_or_original e s ''00'' max_len) = sealed e (as_bytes s)"
  by (simp add: encrypt_str_or_original_def encrypt_def symmetric_crypt_def sealed_def version_00_def Let_def
      del: append.simps)

lemma decrypt_sealed: "secrets_ok e \<Longrightarrow> decrypt e (drop 2 (sealed e v)) = Some v"
  using sealed_parts [of e e v]
  by (simp add: decrypt_def same_codec_def symmetric_crypt_def secrets_ok_def Let_def)

lemma decrypt_vec_sealed:
  "secrets_ok e \<Longrightarrow> decrypt_vec_or_original e (sealed e v) ''00'' = (v, True, False)"
  using sealed_parts [of e e v] decrypt_sealed [of e v]
  by (simp add: decrypt_vec_or_original_def same_codec_def secrets_consts version_00_facts Let_def)

lemma decrypt_str_sealed:
  assumes "secrets_ok e" "as_bytes s = sealed e v"
  shows "decrypt_str_or_original e s ''00'' = (str_of_bytes (from_utf8_lossy v), True, False)"
proof -
  have "as_bytes (take 2 s) = version_00" "as_bytes (drop 2 s) = drop 2 (sealed e v)" "length s = length (sealed e v)"
    using sealed_parts [OF assms(1), of e v] assms(2)
    by (simp_all add: same_codec_def flip: take_as_bytes drop_as_bytes length_as_bytes)
  then have "take 2 s = ''00''" "VERSION_LEN < length s" "as_bytes (drop VERSION_LEN s) = drop 2 (sealed e v)"
    using sealed_parts [OF assms(1), of e v]
    by (simp_all only: version_00_def as_bytes_inject same_codec_def secrets_consts simp_thms)
  then show ?thesis using decrypt_sealed [OF assms(1)] by (simp add: decrypt_str_or_original_def)
qed

text \<open>Every key the opening code tries fails on the sealed value.\<close>

definition no_key_opens :: "secrets_env \<Rightarrow> bytes \<Rightarrow> bool" where
  "no_key_opens e c \<longleftrightarrow> symmetric_crypt e c False = None"

lemma decrypt_vec_wrong_key:
  assumes "secrets_ok e" "same_codec e e'"
    "no_key_opens e' (se_seal e v (replicate NONCEBYTES 0) (resize KEYBYTES (se_uuid e)))"
  shows "decrypt_vec_or_original e' (sealed e v) ''00'' = (sealed e v, False, False)"
proof -
  have "decrypt e' (drop 2 (sealed e v)) = None"
    using sealed_parts [OF assms(1, 2), of v] assms(3) by (simp add: decrypt_def no_key_opens_def)
  then show ?thesis
    using sealed_parts [OF assms(1, 2), of v] sealed_is_encrypted [OF assms(1, 2), of v]
    by (simp add: decrypt_vec_or_original_def secrets_consts Let_def)
qed

section \<open>Properties\<close>

text \<open>
  Storing and loading a secret gives it back and asks for no re-encryption: for byte strings,
  and for text (well-formed UTF-8), of at most the limit in length that do not look encrypted
  themselves; storing a stored value again changes nothing.
\<close>

theorem stored_secret_roundtrip:
  assumes "secrets_ok e" "v \<noteq> []" "\<not> is_encrypted e v"
  shows "(length v \<le> max_len \<longrightarrow>
           decrypt_vec_or_original e (encrypt_vec_or_original e v ''00'' max_len) ''00'' = (v, True, False)
           \<and> encrypt_vec_or_original e (encrypt_vec_or_original e v ''00'' max_len) ''00'' max_len
             = encrypt_vec_or_original e v ''00'' max_len)
      \<and> (valid_utf8 v \<and> chars_count (str_of_bytes v) \<le> max_len \<longrightarrow>
           decrypt_str_or_original e (encrypt_str_or_original e (str_of_bytes v) ''00'' max_len) ''00''
             = (str_of_bytes v, True, False)
           \<and> encrypt_str_or_original e (encrypt_str_or_original e (str_of_bytes v) ''00'' max_len) ''00'' max_len
             = encrypt_str_or_original e (str_of_bytes v) ''00'' max_len)"
proof (intro conjI impI)
  assume l: "length v \<le> max_len"
  show "decrypt_vec_or_original e (encrypt_vec_or_original e v ''00'' max_len) ''00'' = (v, True, False)"
    "encrypt_vec_or_original e (encrypt_vec_or_original e v ''00'' max_len) ''00'' max_len
      = encrypt_vec_or_original e v ''00'' max_len"
    using assms l sealed_is_encrypted [OF assms(1), of e v] decrypt_vec_sealed [OF assms(1)]
    by (simp_all add: encrypt_vec_sealed same_codec_def) (simp add: encrypt_vec_or_original_def)
next
  assume a: "valid_utf8 v \<and> chars_count (str_of_bytes v) \<le> max_len"
  have s: "as_bytes (encrypt_str_or_original e (str_of_bytes v) ''00'' max_len) = sealed e v"
    using assms a encrypt_str_sealed [of "str_of_bytes v" max_len e] by simp
  from decrypt_str_sealed [OF assms(1) s] a
  show "decrypt_str_or_original e (encrypt_str_or_original e (str_of_bytes v) ''00'' max_len) ''00''
      = (str_of_bytes v, True, False)"
    by (simp add: from_utf8_lossy_valid)
  from sealed_is_encrypted [OF assms(1), of e v] s
  show "encrypt_str_or_original e (encrypt_str_or_original e (str_of_bytes v) ''00'' max_len) ''00'' max_len
      = encrypt_str_or_original e (str_of_bytes v) ''00'' max_len"
    by (simp add: encrypt_str_or_original_def [of e "encrypt_str_or_original e (str_of_bytes v) ''00'' max_len"]
        same_codec_def)
qed

text \<open>
  A change of the machine's key loses no stored secret: if no key the program tries opens the
  stored value, loading keeps the value as stored without asking to store it again, storing it
  again writes the same bytes, and under the old key it still opens to the original.
\<close>

theorem key_change_keeps_secret:
  assumes "secrets_ok e" "same_codec e e'" "v \<noteq> []" "length v \<le> max_len" "\<not> is_encrypted e v"
    "no_key_opens e' (se_seal e v (replicate NONCEBYTES 0) (resize KEYBYTES (se_uuid e)))"
    "stored = encrypt_vec_or_original e v ''00'' max_len"
  shows "decrypt_vec_or_original e' stored ''00'' = (stored, False, False)
    \<and> encrypt_vec_or_original e' stored ''00'' max_len = stored
    \<and> decrypt_vec_or_original e stored ''00'' = (v, True, False)"
proof -
  have s: "stored = sealed e v" using assms by (simp add: encrypt_vec_sealed)
  show ?thesis
    using decrypt_vec_wrong_key [OF assms(1, 2, 6)] decrypt_vec_sealed [OF assms(1)]
      sealed_is_encrypted [OF assms(1, 2), of v]
    by (simp add: s encrypt_vec_or_original_def)
qed

text \<open>
  A concrete environment: the cipher prepends 16 bytes made of the key's first byte, the base64
  codec writes every byte as two characters.
\<close>

definition demo_env :: "u8 \<Rightarrow> secrets_env" where
  "demo_env u = \<lparr>
     se_seal = (\<lambda>d n k. replicate 16 (hd k) @ d),
     se_open = (\<lambda>c n k. if take 16 c = replicate 16 (hd k) \<and> 16 \<le> length c then Some (drop 16 c) else None),
     se_b64_encode = (\<lambda>v. str_of_bytes v),
     se_b64_decode = (\<lambda>v. Some v),
     se_uuid = [u], se_existing_pk = None, se_os = Linux\<rparr>"

lemma demo_env_ok: "secrets_ok (demo_env u)"
  by (simp add: secrets_ok_def demo_env_def)

theorem stored_secret_roundtrip_witness:
  "decrypt_vec_or_original (demo_env 7) (encrypt_vec_or_original (demo_env 7) [104, 105] ''00'' 128) ''00''
     = ([104, 105], True, False)"
proof -
  have "\<not> is_encrypted (demo_env 7) [104, 105]" by (simp add: is_encrypted_def secrets_consts)
  from stored_secret_roundtrip [OF demo_env_ok _ this, of 128] show ?thesis by simp
qed

theorem key_change_keeps_secret_witness:
  "\<exists>stored. stored = encrypt_vec_or_original (demo_env 7) [104, 105] ''00'' 128
    \<and> decrypt_vec_or_original (demo_env 9) stored ''00'' = (stored, False, False)
    \<and> encrypt_vec_or_original (demo_env 9) stored ''00'' 128 = stored
    \<and> decrypt_vec_or_original (demo_env 7) stored ''00'' = ([104, 105], True, False)"
proof -
  have "same_codec (demo_env 7) (demo_env 9)" by (simp add: same_codec_def demo_env_def)
  moreover have "\<not> is_encrypted (demo_env 7) [104, 105]" by (simp add: is_encrypted_def secrets_consts)
  moreover have "no_key_opens (demo_env 9)
      (se_seal (demo_env 7) [104, 105] (replicate NONCEBYTES 0) (resize KEYBYTES (se_uuid (demo_env 7))))"
    by (simp add: no_key_opens_def symmetric_crypt_def demo_env_def resize_def secrets_consts Let_def numeral_eq_Suc)
  ultimately show ?thesis
    using key_change_keeps_secret [OF demo_env_ok, of 7 "demo_env 9" "[104, 105]" 128] by simp
qed

end
