(* ===== verification/Config.thy ===== *)
theory Config
  imports Secrets
begin

text \<open>
  The configuration store (\<open>libs/hbb_common/src/config.rs\<close>): the main, secondary and local
  configurations with their files, the layered options (overwrite settings, the user's options,
  defaults), identity and permanent password, the trusted devices and the latency-based choice
  of the rendezvous server. The process-wide statics are the fields of one record; a file is the
  value stored last (\<open>None\<close> before the first store). Random numbers, the clock, the JSON codec
  and the host name are arguments.
\<close>

section \<open>Data\<close>

record socks5_server =
  sk_proxy :: string
  sk_username :: string
  sk_password :: string

definition socks_default :: socks5_server where
  "socks_default = \<lparr>sk_proxy = '''', sk_username = '''', sk_password = ''''\<rparr>"

type_synonym key_pair = "bytes \<times> bytes"

record config =
  c_id :: string
  c_enc_id :: string
  c_password :: string
  c_salt :: string
  c_key_pair :: key_pair
  c_key_confirmed :: bool
  c_keys_confirmed :: "(string, bool) hashmap"

definition config_default :: config where
  "config_default = \<lparr>c_id = '''', c_enc_id = '''', c_password = '''', c_salt = '''', c_key_pair = ([], []),
     c_key_confirmed = False, c_keys_confirmed = []\<rparr>"

record config2 =
  c2_rendezvous_server :: string
  c2_nat_type :: i32
  c2_serial :: i32
  c2_unlock_pin :: string
  c2_trusted_devices :: string
  c2_socks :: "socks5_server option"
  c2_options :: "(string, string) hashmap"

definition config2_default :: config2 where
  "config2_default = \<lparr>c2_rendezvous_server = '''', c2_nat_type = 0, c2_serial = 0, c2_unlock_pin = '''',
     c2_trusted_devices = '''', c2_socks = None, c2_options = []\<rparr>"

type_synonym size4 = "i32 \<times> i32 \<times> i32 \<times> i32"

record local_config =
  lc_remote_id :: string
  lc_kb_layout_type :: string
  lc_size :: size4
  lc_fav :: "string list"
  lc_options :: "(string, string) hashmap"
  lc_ui_flutter :: "(string, string) hashmap"

record trusted_device =
  td_hwid :: bytes
  td_time :: int
  td_id :: string
  td_name :: string
  td_platform :: string

type_synonym settings = "(string, string) hashmap"

text \<open>The process-wide statics and the files behind them.\<close>

record app_config =
  g_config :: config
  g_config2 :: config2
  g_local :: local_config
  g_trusted_devices :: "trusted_device list \<times> bool"
  g_key_pair :: "key_pair option"
  g_online :: "(string, int) hashmap"
  g_default_settings :: settings
  g_overwrite_settings :: settings
  g_default_local_settings :: settings
  g_overwrite_local_settings :: settings
  g_hard_settings :: settings
  g_builtin_settings :: settings
  g_file :: "config option"
  g_file2 :: "config2 option"
  g_file_local :: "local_config option"

definition PASSWORD_ENC_VERSION :: string where "PASSWORD_ENC_VERSION = ''00''"
definition ENCRYPT_MAX_LEN :: nat where "ENCRYPT_MAX_LEN = 128"

text \<open>\<open>settings.get(k).map_or(false, |x| x == v)\<close>.\<close>

definition setting_is :: "settings \<Rightarrow> string \<Rightarrow> string \<Rightarrow> bool" where
  "setting_is s k v \<longleftrightarrow> map_of s k = Some v"

section \<open>Loading and storing\<close>

definition config_store :: "secrets_env \<Rightarrow> config \<Rightarrow> config" where
  "config_store e c =
     c\<lparr>c_password := encrypt_str_or_original e (c_password c) PASSWORD_ENC_VERSION ENCRYPT_MAX_LEN,
       c_enc_id := encrypt_str_or_original e (c_id c) PASSWORD_ENC_VERSION ENCRYPT_MAX_LEN,
       c_id := ''''\<rparr>"

text \<open>
  \<open>Config::load\<close>: the configuration from the file (the default one if there is none) and the
  file afterwards. \<open>gen\<close> lists the results of the successive calls of \<open>gen_id\<close>, of which at most
  three are made.
\<close>

definition config_load :: "secrets_env \<Rightarrow> string option list \<Rightarrow> config option \<Rightarrow> config \<times> config option" where
  "config_load e gen file =
     (let c = (case file of None \<Rightarrow> config_default | Some c \<Rightarrow> c);
          (password, _, store1) = decrypt_str_or_original e (c_password c) PASSWORD_ENC_VERSION;
          c = c\<lparr>c_password := password\<rparr>;
          (i, encrypted, store2) = decrypt_str_or_original e (c_enc_id c) PASSWORD_ENC_VERSION;
          (c, id_valid, store) =
            (if encrypted then (c\<lparr>c_id := i\<rparr>, True, store1 \<or> store2)
             else if c_id c \<noteq> '''' \<and> c_enc_id c = ''''
                     \<and> \<not> fst (snd (decrypt_str_or_original e (c_id c) PASSWORD_ENC_VERSION))
                  then (c, True, True)
                  else (c, False, store1));
          (c, store) =
            (if id_valid then (c, store)
             else case List.find (\<lambda>g. g \<noteq> None) (take 3 gen) of
                    Some (Some i) \<Rightarrow> (c\<lparr>c_id := i\<rparr>, True)
                  | _ \<Rightarrow> (c, store))
      in (c, if store then Some (config_store e c) else file))"

definition config2_store :: "secrets_env \<Rightarrow> config2 \<Rightarrow> config2" where
  "config2_store e c =
     c\<lparr>c2_socks := map_option (\<lambda>s. s\<lparr>sk_password :=
         encrypt_str_or_original e (sk_password s) PASSWORD_ENC_VERSION ENCRYPT_MAX_LEN\<rparr>) (c2_socks c),
       c2_unlock_pin := encrypt_str_or_original e (c2_unlock_pin c) PASSWORD_ENC_VERSION ENCRYPT_MAX_LEN\<rparr>"

definition config2_load :: "secrets_env \<Rightarrow> config2 option \<Rightarrow> config2 \<times> config2 option" where
  "config2_load e file =
     (let c = (case file of None \<Rightarrow> config2_default | Some c \<Rightarrow> c);
          (socks, store) =
            (case c2_socks c of
               None \<Rightarrow> (None, False)
             | Some s \<Rightarrow> let (p, _, st) = decrypt_str_or_original e (sk_password s) PASSWORD_ENC_VERSION
                         in (Some (s\<lparr>sk_password := p\<rparr>), st));
          (pin, _, store2) = decrypt_str_or_original e (c2_unlock_pin c) PASSWORD_ENC_VERSION;
          c = c\<lparr>c2_socks := socks, c2_unlock_pin := pin\<rparr>
      in (c, if store \<or> store2 then Some (config2_store e c) else file))"

text \<open>The tail of every setter: replace the static and store it.\<close>

definition put_config :: "secrets_env \<Rightarrow> config \<Rightarrow> app_config \<Rightarrow> app_config" where
  "put_config e c g = g\<lparr>g_config := c, g_file := Some (config_store e c)\<rparr>"

definition put_config2 :: "secrets_env \<Rightarrow> config2 \<Rightarrow> app_config \<Rightarrow> app_config" where
  "put_config2 e c g = g\<lparr>g_config2 := c, g_file2 := Some (config2_store e c)\<rparr>"

definition put_local :: "local_config \<Rightarrow> app_config \<Rightarrow> app_config" where
  "put_local c g = g\<lparr>g_local := c, g_file_local := Some c\<rparr>"

section \<open>Options\<close>

definition get_or :: "settings \<Rightarrow> settings \<Rightarrow> settings \<Rightarrow> string \<Rightarrow> string option" where
  "get_or a b c k =
     (case hm_get a k of Some v \<Rightarrow> Some v
      | None \<Rightarrow> (case hm_get b k of Some v \<Rightarrow> Some v | None \<Rightarrow> hm_get c k))"

definition unwrap_or_default :: "string option \<Rightarrow> string" where
  "unwrap_or_default x = (case x of None \<Rightarrow> '''' | Some v \<Rightarrow> v)"

definition is_option_can_save :: "settings \<Rightarrow> string \<Rightarrow> settings \<Rightarrow> string \<Rightarrow> bool" where
  "is_option_can_save overwrite k defaults v \<longleftrightarrow> \<not> (hm_contains overwrite k \<or> setting_is defaults k v)"

text \<open>
  The body \<open>Config::set_option\<close> and \<open>LocalConfig::set_option\<close> share, on the options map:
  the new map, if it changed.
\<close>

definition set_option_map :: "settings \<Rightarrow> settings \<Rightarrow> string \<Rightarrow> string \<Rightarrow> settings \<Rightarrow> settings option" where
  "set_option_map overwrite defaults k v m =
     (if \<not> is_option_can_save overwrite k defaults v
      then (if hm_contains m k then Some (hm_remove k m) else None)
      else if v = '''' then (if hm_contains m k then Some (hm_remove k m) else None)
      else if hm_get m k \<noteq> Some v then Some (hm_insert k v m)
      else None)"

definition option2bool :: "string \<Rightarrow> string \<Rightarrow> bool" where
  "option2bool opt v =
     (if opt = ''direct-server'' then True
      else if starts_with opt ''enable-'' then v \<noteq> ''N''
      else if starts_with opt ''allow-'' \<or> opt = ''stop-service'' \<or> opt = ''direct-server''
              \<or> opt = ''force-always-relay''
           then v = ''Y''
      else v \<noteq> ''N'')"

definition get_option :: "app_config \<Rightarrow> string \<Rightarrow> string" where
  "get_option g k =
     unwrap_or_default (get_or (g_overwrite_settings g) (c2_options (g_config2 g)) (g_default_settings g) k)"

definition get_bool_option :: "app_config \<Rightarrow> string \<Rightarrow> bool" where
  "get_bool_option g k = option2bool k (get_option g k)"

definition set_option :: "secrets_env \<Rightarrow> string \<Rightarrow> string \<Rightarrow> app_config \<Rightarrow> app_config" where
  "set_option e k v g =
     (case set_option_map (g_overwrite_settings g) (g_default_settings g) k v (c2_options (g_config2 g)) of
        None \<Rightarrow> g
      | Some m \<Rightarrow> put_config2 e ((g_config2 g)\<lparr>c2_options := m\<rparr>) g)"

definition get_options :: "app_config \<Rightarrow> settings" where
  "get_options g =
     hm_extend (hm_extend (g_default_settings g) (c2_options (g_config2 g))) (g_overwrite_settings g)"

definition purify_options :: "app_config \<Rightarrow> settings \<Rightarrow> settings" where
  "purify_options g v = hm_retain (\<lambda>k x. is_option_can_save (g_overwrite_settings g) k (g_default_settings g) x) v"

definition set_options :: "secrets_env \<Rightarrow> settings \<Rightarrow> app_config \<Rightarrow> app_config" where
  "set_options e v g =
     (let v = purify_options g v in
      if hm_eq (c2_options (g_config2 g)) v then g
      else put_config2 e ((g_config2 g)\<lparr>c2_options := v\<rparr>) g)"

subsection \<open>Local options\<close>

definition get_local_option :: "app_config \<Rightarrow> string \<Rightarrow> string" where
  "get_local_option g k =
     unwrap_or_default (get_or (g_overwrite_local_settings g) (lc_options (g_local g)) (g_default_local_settings g) k)"

definition set_local_option :: "string \<Rightarrow> string \<Rightarrow> app_config \<Rightarrow> app_config" where
  "set_local_option k v g =
     (if is_option_can_save (g_overwrite_local_settings g) k (g_default_local_settings g) v
         \<and> k = ''lang'' \<and> v = ''default''
      then put_local ((g_local g)\<lparr>lc_options := hm_insert k '''' (lc_options (g_local g))\<rparr>) g
      else case set_option_map (g_overwrite_local_settings g) (g_default_local_settings g) k v
                  (lc_options (g_local g)) of
             None \<Rightarrow> g
           | Some m \<Rightarrow> put_local ((g_local g)\<lparr>lc_options := m\<rparr>) g)"

definition get_flutter_option :: "app_config \<Rightarrow> string \<Rightarrow> string" where
  "get_flutter_option g k =
     unwrap_or_default (get_or (g_overwrite_local_settings g) (lc_ui_flutter (g_local g)) (g_default_local_settings g) k)"

definition set_flutter_option :: "string \<Rightarrow> string \<Rightarrow> app_config \<Rightarrow> app_config" where
  "set_flutter_option k v g =
     (let m = lc_ui_flutter (g_local g) in
      if v = '''' then (if hm_contains m k then put_local ((g_local g)\<lparr>lc_ui_flutter := hm_remove k m\<rparr>) g else g)
      else if hm_get m k \<noteq> Some v then put_local ((g_local g)\<lparr>lc_ui_flutter := hm_insert k v m\<rparr>) g
      else g)"

definition set_size :: "size4 \<Rightarrow> app_config \<Rightarrow> app_config" where
  "set_size sz g =
     (let (x, y, w, h) = sz in
      if sz = lc_size (g_local g) \<or> w <s 300 \<or> h <s 300 then g
      else put_local ((g_local g)\<lparr>lc_size := sz\<rparr>) g)"

definition set_kb_layout_type :: "string \<Rightarrow> app_config \<Rightarrow> app_config" where
  "set_kb_layout_type k g = put_local ((g_local g)\<lparr>lc_kb_layout_type := k\<rparr>) g"

definition set_remote_id :: "string \<Rightarrow> app_config \<Rightarrow> app_config" where
  "set_remote_id r g =
     (if r = lc_remote_id (g_local g) then g else put_local ((g_local g)\<lparr>lc_remote_id := r\<rparr>) g)"

definition set_fav :: "string list \<Rightarrow> app_config \<Rightarrow> app_config" where
  "set_fav f g = (if lc_fav (g_local g) = f then g else put_local ((g_local g)\<lparr>lc_fav := f\<rparr>) g)"

section \<open>Identity\<close>

definition NUM_CHARS :: string where "NUM_CHARS = ''0123456789''"
definition CHARS :: string where "CHARS = ''23456789abcdefghijkmnpqrstuvwxyz''"

text \<open>\<open>rs\<close> are the random numbers drawn, one per character.\<close>

definition get_auto_password_with_chars :: "usize list \<Rightarrow> nat \<Rightarrow> string \<Rightarrow> string" where
  "get_auto_password_with_chars rs len chars =
     map (\<lambda>r. chars ! (unat r mod length chars)) (take len rs)"

definition get_auto_password :: "usize list \<Rightarrow> nat \<Rightarrow> string" where
  "get_auto_password rs len = get_auto_password_with_chars rs len CHARS"

definition get_auto_numeric_password :: "usize list \<Rightarrow> nat \<Rightarrow> string" where
  "get_auto_numeric_password rs len = get_auto_password_with_chars rs len NUM_CHARS"

text \<open>
  \<open>get_auto_id\<close>: on mobile a random number of \<open>1_000_000_000..2_000_000_000\<close>, elsewhere 29 bits of
  the MAC address (its six bytes, if there is one).
\<close>

definition get_auto_id :: "target_os \<Rightarrow> nat \<Rightarrow> bytes option \<Rightarrow> string option" where
  "get_auto_id os rand mac =
     (if is_mobile os then Some (show_nat rand)
      else case mac of
             None \<Rightarrow> None
           | Some ma \<Rightarrow>
               let i = foldl (\<lambda>(i :: u32) x. push_bit 8 i OR ucast x) 0 (drop 2 ma)
               in Some (show_nat (unat (i AND 0x1FFFFFFF))))"

text \<open>\<open>host\<close> is the host name, if \<open>whoami\<close> finds one; \<open>replace(" ", "-")\<close> on it.\<close>

definition gen_id :: "target_os \<Rightarrow> string option \<Rightarrow> nat \<Rightarrow> bytes option \<Rightarrow> app_config \<Rightarrow> string option" where
  "gen_id os host rand mac g =
     (if is_mobile os then get_auto_id os rand mac
      else if (case hm_get (g_builtin_settings g) ''allow-hostname-as-id'' of
                 None \<Rightarrow> False | Some v \<Rightarrow> option2bool ''allow-hostname-as-id'' v)
           then (case host of
                   Some h \<Rightarrow> Some (map (\<lambda>c. if c = CHR '' '' then CHR ''-'' else c) h)
                 | None \<Rightarrow> get_auto_id os rand mac)
           else get_auto_id os rand mac)"

definition set_id :: "secrets_env \<Rightarrow> string \<Rightarrow> app_config \<Rightarrow> app_config" where
  "set_id e i g = (if i = c_id (g_config g) then g else put_config e ((g_config g)\<lparr>c_id := i\<rparr>) g)"

definition get_id :: "secrets_env \<Rightarrow> string option \<Rightarrow> app_config \<Rightarrow> string \<times> app_config" where
  "get_id e gen g =
     (let i = c_id (g_config g) in
      if i = '''' then (case gen of Some t \<Rightarrow> (t, set_id e t g) | None \<Rightarrow> (i, g))
      else (i, g))"

definition get_id_or :: "string \<Rightarrow> app_config \<Rightarrow> string" where
  "get_id_or b g = (let a = c_id (g_config g) in if a = '''' then b else a)"

definition update_id :: "secrets_env \<Rightarrow> nat \<Rightarrow> app_config \<Rightarrow> app_config" where
  "update_id e rand g = set_id e (show_nat rand) g"

definition is_empty :: "config \<Rightarrow> bool" where
  "is_empty c \<longleftrightarrow> (c_id c = '''' \<and> c_enc_id c = '''') \<or> fst (c_key_pair c) = []"

definition set_key_confirmed :: "secrets_env \<Rightarrow> bool \<Rightarrow> app_config \<Rightarrow> app_config" where
  "set_key_confirmed e v g =
     (let c = g_config g in
      if c_key_confirmed c = v then g
      else put_config e (if v then c\<lparr>c_key_confirmed := v\<rparr>
                         else c\<lparr>c_key_confirmed := v, c_keys_confirmed := []\<rparr>) g)"

definition get_host_key_confirmed :: "string \<Rightarrow> app_config \<Rightarrow> bool" where
  "get_host_key_confirmed host g \<longleftrightarrow> hm_get (c_keys_confirmed (g_config g)) host = Some True"

definition set_host_key_confirmed :: "secrets_env \<Rightarrow> string \<Rightarrow> bool \<Rightarrow> app_config \<Rightarrow> app_config" where
  "set_host_key_confirmed e host v g =
     (if get_host_key_confirmed host g = v then g
      else put_config e ((g_config g)\<lparr>c_keys_confirmed := hm_insert host v (c_keys_confirmed (g_config g))\<rparr>) g)"

text \<open>
  \<open>get_existing_key_pair\<close> and \<open>get_key_pair\<close> (\<open>fresh\<close> is what \<open>gen_keypair\<close> makes); the file is read
  as it is. The last component tells whether the spawned thread that stores a new pair was started.
\<close>

definition file_config :: "app_config \<Rightarrow> config" where
  "file_config g = (case g_file g of None \<Rightarrow> config_default | Some c \<Rightarrow> c)"

definition get_existing_key_pair :: "app_config \<Rightarrow> key_pair option \<times> app_config" where
  "get_existing_key_pair g =
     (case g_key_pair g of
        Some p \<Rightarrow> (Some p, g)
      | None \<Rightarrow> let c = file_config g in
                if fst (c_key_pair c) \<noteq> [] then (Some (c_key_pair c), g\<lparr>g_key_pair := Some (c_key_pair c)\<rparr>)
                else (None, g))"

definition get_key_pair :: "key_pair \<Rightarrow> app_config \<Rightarrow> key_pair \<times> app_config \<times> bool" where
  "get_key_pair fresh g =
     (case g_key_pair g of
        Some p \<Rightarrow> (p, g, False)
      | None \<Rightarrow> let c = file_config g;
                    spawn = (fst (c_key_pair c) = []);
                    p = (if spawn then fresh else c_key_pair c)
                in (p, g\<lparr>g_key_pair := Some p\<rparr>, spawn))"

section \<open>Trusted devices\<close>

definition DAYS_90 :: int where "DAYS_90 = 90 * 24 * 60 * 60 * 1000"

definition outdate :: "int \<Rightarrow> trusted_device \<Rightarrow> bool" where
  "outdate now d \<longleftrightarrow> td_time d + DAYS_90 < now"

text \<open>\<open>serde_json\<close> on lists of trusted devices; a parse error becomes the empty list.\<close>

record json_codec =
  js_to_string :: "trusted_device list \<Rightarrow> string"
  js_from_str :: "string \<Rightarrow> trusted_device list option"

definition set_trusted_devices ::
  "secrets_env \<Rightarrow> json_codec \<Rightarrow> int \<Rightarrow> trusted_device list \<Rightarrow> app_config \<Rightarrow> app_config" where
  "set_trusted_devices e js now ds g =
     (let ds = filter (\<lambda>d. \<not> outdate now d) ds;
          s = js_to_string js ds;
          max_len = 1024 * 1024
      in if max_len < length s then g
         else (put_config2 e ((g_config2 g)\<lparr>c2_trusted_devices :=
                  encrypt_str_or_original e s PASSWORD_ENC_VERSION max_len\<rparr>) g)
              \<lparr>g_trusted_devices := (ds, True)\<rparr>)"

definition get_trusted_devices ::
  "secrets_env \<Rightarrow> json_codec \<Rightarrow> int \<Rightarrow> app_config \<Rightarrow> trusted_device list \<times> app_config" where
  "get_trusted_devices e js now g =
     (let (devices, synced) = g_trusted_devices g in
      if synced then (devices, g)
      else let (s, succ, store) = decrypt_str_or_original e (c2_trusted_devices (g_config2 g)) PASSWORD_ENC_VERSION
           in if succ
              then let all = (case js_from_str js s of None \<Rightarrow> [] | Some ds \<Rightarrow> ds);
                       ds = filter (\<lambda>d. \<not> outdate now d) all;
                       g' = (if store \<or> length ds \<noteq> length all then set_trusted_devices e js now ds g else g)
                   in (ds, g'\<lparr>g_trusted_devices := (ds, True)\<rparr>)
              else ([], g))"

definition add_trusted_device ::
  "secrets_env \<Rightarrow> json_codec \<Rightarrow> int \<Rightarrow> trusted_device \<Rightarrow> app_config \<Rightarrow> app_config" where
  "add_trusted_device e js now d g =
     (let (ds, g) = get_trusted_devices e js now g;
          ds = filter (\<lambda>x. td_hwid x \<noteq> td_hwid d) ds @ [d]
      in set_trusted_devices e js now ds g)"

definition remove_trusted_devices ::
  "secrets_env \<Rightarrow> json_codec \<Rightarrow> int \<Rightarrow> bytes list \<Rightarrow> app_config \<Rightarrow> app_config" where
  "remove_trusted_devices e js now hwids g =
     (let (ds, g) = get_trusted_devices e js now g;
          ds = filter (\<lambda>x. \<not> List.member hwids (td_hwid x)) ds
      in set_trusted_devices e js now ds g)"

definition clear_trusted_devices :: "secrets_env \<Rightarrow> json_codec \<Rightarrow> int \<Rightarrow> app_config \<Rightarrow> app_config" where
  "clear_trusted_devices e js now g = set_trusted_devices e js now [] g"

section \<open>Passwords, proxy and pin\<close>

definition builtin_is :: "app_config \<Rightarrow> string \<Rightarrow> string \<Rightarrow> bool" where
  "builtin_is g k v \<longleftrightarrow> setting_is (g_builtin_settings g) k v"

definition no_register_device :: "app_config \<Rightarrow> bool" where
  "no_register_device g = builtin_is g ''register-device'' ''N''"

definition is_disable_change_permanent_password :: "app_config \<Rightarrow> bool" where
  "is_disable_change_permanent_password g = builtin_is g ''disable-change-permanent-password'' ''Y''"

definition is_disable_change_id :: "app_config \<Rightarrow> bool" where
  "is_disable_change_id g = builtin_is g ''disable-change-id'' ''Y''"

definition is_disable_unlock_pin :: "app_config \<Rightarrow> bool" where
  "is_disable_unlock_pin g = builtin_is g ''disable-unlock-pin'' ''Y''"

definition set_permanent_password ::
  "secrets_env \<Rightarrow> json_codec \<Rightarrow> int \<Rightarrow> string \<Rightarrow> app_config \<Rightarrow> app_config" where
  "set_permanent_password e js now password g =
     (if is_disable_change_permanent_password g then g
      else if setting_is (g_hard_settings g) ''password'' password \<and> c_password (g_config g) = '''' then g
      else if password = c_password (g_config g) then g
      else clear_trusted_devices e js now (put_config e ((g_config g)\<lparr>c_password := password\<rparr>) g))"

definition get_permanent_password :: "app_config \<Rightarrow> string" where
  "get_permanent_password g =
     (let p = c_password (g_config g) in
      if p = '''' then (case hm_get (g_hard_settings g) ''password'' of Some v \<Rightarrow> v | None \<Rightarrow> p) else p)"

definition set_salt :: "secrets_env \<Rightarrow> string \<Rightarrow> app_config \<Rightarrow> app_config" where
  "set_salt e s g = (if s = c_salt (g_config g) then g else put_config e ((g_config g)\<lparr>c_salt := s\<rparr>) g)"

definition get_salt :: "secrets_env \<Rightarrow> usize list \<Rightarrow> app_config \<Rightarrow> string \<times> app_config" where
  "get_salt e rs g =
     (let s = c_salt (g_config g) in
      if s = '''' then let s = get_auto_password rs 6 in (s, set_salt e s g) else (s, g))"

definition socks_or_default :: "socks5_server option \<Rightarrow> socks5_server" where
  "socks_or_default s = (case s of None \<Rightarrow> socks_default | Some s \<Rightarrow> s)"

definition set_socks :: "secrets_env \<Rightarrow> socks5_server option \<Rightarrow> app_config \<Rightarrow> app_config" where
  "set_socks e s g =
     (if hm_contains (g_overwrite_settings g) ''proxy-url'' then g
      else if c2_socks (g_config2 g) = s then g
      else if c2_socks (g_config2 g) = None
              \<and> hm_contains (g_default_settings g) ''proxy-url''
              \<and> setting_is (g_default_settings g) ''proxy-url'' (sk_proxy (socks_or_default s))
              \<and> setting_is (g_default_settings g) ''proxy-username'' (sk_username (socks_or_default s))
              \<and> setting_is (g_default_settings g) ''proxy-password'' (sk_password (socks_or_default s))
           then g
      else put_config2 e ((g_config2 g)\<lparr>c2_socks := s\<rparr>) g)"

definition socks_from_settings :: "settings \<Rightarrow> socks5_server option" where
  "socks_from_settings s =
     map_option (\<lambda>url. \<lparr>sk_proxy = url, sk_username = unwrap_or_default (hm_get s ''proxy-username''),
                        sk_password = unwrap_or_default (hm_get s ''proxy-password'')\<rparr>)
                (hm_get s ''proxy-url'')"

definition get_socks :: "app_config \<Rightarrow> socks5_server option" where
  "get_socks g =
     (case socks_from_settings (g_overwrite_settings g) of
        Some s \<Rightarrow> Some s
      | None \<Rightarrow> (case c2_socks (g_config2 g) of
                   Some s \<Rightarrow> Some s
                 | None \<Rightarrow> socks_from_settings (g_default_settings g)))"

datatype network_type = Direct | ProxySocks

definition get_network_type :: "app_config \<Rightarrow> network_type" where
  "get_network_type g =
     (if hm_contains (g_overwrite_settings g) ''proxy-url'' then ProxySocks
      else if c2_socks (g_config2 g) \<noteq> None then ProxySocks
      else if hm_contains (g_default_settings g) ''proxy-url'' then ProxySocks
      else Direct)"

definition is_proxy :: "app_config \<Rightarrow> bool" where
  "is_proxy g \<longleftrightarrow> get_network_type g \<noteq> Direct"

definition get_unlock_pin :: "app_config \<Rightarrow> string" where
  "get_unlock_pin g = (if is_disable_unlock_pin g then '''' else c2_unlock_pin (g_config2 g))"

definition set_unlock_pin :: "secrets_env \<Rightarrow> string \<Rightarrow> app_config \<Rightarrow> app_config" where
  "set_unlock_pin e pin g =
     (if is_disable_unlock_pin g \<or> pin = c2_unlock_pin (g_config2 g) then g
      else put_config2 e ((g_config2 g)\<lparr>c2_unlock_pin := pin\<rparr>) g)"

section \<open>Rendezvous server\<close>

definition I64_MAX :: int where "I64_MAX = 2 ^ 63 - 1"

definition SERIAL :: i32 where "SERIAL = 3"
definition RENDEZVOUS_PORT :: nat where "RENDEZVOUS_PORT = 21116"
definition RENDEZVOUS_SERVERS :: "string list" where "RENDEZVOUS_SERVERS = []"

definition get_rendezvous_servers :: "app_config \<Rightarrow> string list" where
  "get_rendezvous_servers g =
     (let servers = (if c2_rendezvous_server (g_config2 g) \<noteq> '''' then [c2_rendezvous_server (g_config2 g)] else [])
      in if servers = [] then RENDEZVOUS_SERVERS else servers)"

definition get_rendezvous_server :: "app_config \<Rightarrow> string" where
  "get_rendezvous_server g =
     (let s = (case get_rendezvous_servers g of [] \<Rightarrow> '''' | x # _ \<Rightarrow> x)
      in if List.member s (CHR '':'') then s else s @ '':'' @ show_nat RENDEZVOUS_PORT)"

definition reset_online :: "app_config \<Rightarrow> app_config" where
  "reset_online g = g\<lparr>g_online := []\<rparr>"

text \<open>The loop of \<open>update_latency\<close>: the first host of the smallest positive latency.\<close>

definition best_host :: "(string, int) hashmap \<Rightarrow> string \<times> int" where
  "best_host m = foldl (\<lambda>(host, delay) (h, d). if 0 < d \<and> d < delay then (h, d) else (host, delay)) ('''', I64_MAX) m"

definition update_latency :: "secrets_env \<Rightarrow> string \<Rightarrow> int \<Rightarrow> app_config \<Rightarrow> app_config" where
  "update_latency e host latency g =
     (let g = g\<lparr>g_online := hm_insert host latency (g_online g)\<rparr>;
          best = fst (best_host (g_online g))
      in if best \<noteq> '''' \<and> best \<noteq> c2_rendezvous_server (g_config2 g)
         then put_config2 e ((g_config2 g)\<lparr>c2_rendezvous_server := best\<rparr>) g
         else g)"

definition set_nat_type :: "secrets_env \<Rightarrow> i32 \<Rightarrow> app_config \<Rightarrow> app_config" where
  "set_nat_type e n g =
     (if n = c2_nat_type (g_config2 g) then g else put_config2 e ((g_config2 g)\<lparr>c2_nat_type := n\<rparr>) g)"

definition set_serial :: "secrets_env \<Rightarrow> i32 \<Rightarrow> app_config \<Rightarrow> app_config" where
  "set_serial e n g =
     (if n = c2_serial (g_config2 g) then g else put_config2 e ((g_config2 g)\<lparr>c2_serial := n\<rparr>) g)"

definition get_serial :: "app_config \<Rightarrow> i32" where
  "get_serial g = (if c2_serial (g_config2 g) \<le>s SERIAL then SERIAL else c2_serial (g_config2 g))"

section \<open>Hard settings\<close>

definition is_incoming_only :: "app_config \<Rightarrow> bool" where
  "is_incoming_only g = setting_is (g_hard_settings g) ''conn-type'' ''incoming''"

definition is_outgoing_only :: "app_config \<Rightarrow> bool" where
  "is_outgoing_only g = setting_is (g_hard_settings g) ''conn-type'' ''outgoing''"

definition is_some_hard_option :: "app_config \<Rightarrow> string \<Rightarrow> bool" where
  "is_some_hard_option g nm = setting_is (g_hard_settings g) nm ''Y''"

section \<open>Lemmas\<close>

lemma put_config_fields [simp]:
  "g_config (put_config e c g) = c" "g_file (put_config e c g) = Some (config_store e c)"
  "g_config2 (put_config e c g) = g_config2 g" "g_hard_settings (put_config e c g) = g_hard_settings g"
  "g_trusted_devices (put_config e c g) = g_trusted_devices g"
  by (simp_all add: put_config_def)

lemma put_config2_fields [simp]:
  "g_config2 (put_config2 e c g) = c" "g_file2 (put_config2 e c g) = Some (config2_store e c)"
  "g_config (put_config2 e c g) = g_config g"
  "g_overwrite_settings (put_config2 e c g) = g_overwrite_settings g"
  "g_default_settings (put_config2 e c g) = g_default_settings g"
  "g_online (put_config2 e c g) = g_online g"
  by (simp_all add: put_config2_def)

text \<open>A text that survives storing: well-formed, not too long, not looking like a stored value.\<close>

definition storable :: "secrets_env \<Rightarrow> string \<Rightarrow> bool" where
  "storable e s \<longleftrightarrow> valid_utf8 (as_bytes s) \<and> chars_count s \<le> ENCRYPT_MAX_LEN \<and> \<not> is_encrypted e (as_bytes s)"

lemma storable_roundtrip:
  assumes "secrets_ok e" "storable e s" "s \<noteq> ''''"
  shows "decrypt_str_or_original e (encrypt_str_or_original e s ''00'' ENCRYPT_MAX_LEN) ''00'' = (s, True, False)"
proof -
  have "as_bytes (encrypt_str_or_original e s ''00'' ENCRYPT_MAX_LEN) = sealed e (as_bytes s)"
    using assms by (intro encrypt_str_sealed) (simp_all add: storable_def)
  from decrypt_str_sealed [OF assms(1) this] assms(2) show ?thesis
    by (simp add: from_utf8_lossy_valid storable_def)
qed

lemma empty_roundtrip:
  "decrypt_str_or_original e (encrypt_str_or_original e '''' ''00'' n) ''00'' = ('''', False, False)"
  by (simp add: encrypt_str_or_original_def is_encrypted_def encrypt_def decrypt_str_or_original_def
      chars_count_def secrets_consts)

lemma get_set_option_map:
  "get_or ov (case set_option_map ov df k v m of None \<Rightarrow> m | Some m' \<Rightarrow> m') df k' =
     (if k' \<noteq> k then get_or ov m df k'
      else case hm_get ov k of
             Some x \<Rightarrow> Some x
           | None \<Rightarrow> if v = '''' then hm_get df k else Some v)"
  by (auto simp: get_or_def set_option_map_def is_option_can_save_def setting_is_def hm_contains_def
      split: option.split)

section \<open>Properties\<close>

text \<open>
  Storing the main configuration and loading it back keeps it: with a storable id and a
  storable or empty password, the loaded configuration is the stored one (with the sealed id
  beside it), no new id is generated and the file is not written again.
\<close>

theorem config_reload:
  assumes "secrets_ok e" "storable e (c_id c)" "c_id c \<noteq> ''''"
    "storable e (c_password c) \<or> c_password c = ''''"
  shows "config_load e gen (Some (config_store e c))
    = (c\<lparr>c_enc_id := c_enc_id (config_store e c)\<rparr>, Some (config_store e c))"
proof -
  have i: "decrypt_str_or_original e (encrypt_str_or_original e (c_id c) ''00'' ENCRYPT_MAX_LEN) ''00''
      = (c_id c, True, False)"
    using assms(1-3) by (rule storable_roundtrip)
  have p: "\<exists>b. decrypt_str_or_original e (encrypt_str_or_original e (c_password c) ''00'' ENCRYPT_MAX_LEN) ''00''
      = (c_password c, b, False)"
    using assms(1, 4) storable_roundtrip [of e "c_password c"] empty_roundtrip [of e ENCRYPT_MAX_LEN]
    by (cases "c_password c = ''''") auto
  show ?thesis
    using i p by (auto simp: config_load_def config_store_def PASSWORD_ENC_VERSION_def Let_def)
qed

text \<open>
  A permanent password of more than \<open>ENCRYPT_MAX_LEN\<close> characters works until the program
  restarts: the process keeps it, the file gets the empty string, and the configuration loaded
  from that file has no password.
\<close>

theorem long_password_lost:
  assumes "ENCRYPT_MAX_LEN < chars_count p" "\<not> is_encrypted e (as_bytes p)"
    "\<not> is_disable_change_permanent_password g" "p \<noteq> c_password (g_config g)"
    "g_hard_settings g = []"
  shows "get_permanent_password (set_permanent_password e js now p g) = p
    \<and> c_password (fst (config_load e gen (g_file (set_permanent_password e js now p g)))) = ''''"
proof -
  have ne: "p \<noteq> ''''" using assms(1) by (auto simp: chars_count_def as_bytes_def)
  have f: "g_file (set_permanent_password e js now p g) = Some (config_store e ((g_config g)\<lparr>c_password := p\<rparr>))"
    "g_config (set_permanent_password e js now p g) = (g_config g)\<lparr>c_password := p\<rparr>"
    using assms by (simp_all add: set_permanent_password_def clear_trusted_devices_def set_trusted_devices_def
        setting_is_def Let_def put_config2_def)
  have "encrypt_str_or_original e p ''00'' ENCRYPT_MAX_LEN = ''''"
    using assms(1, 2) by (simp add: encrypt_str_or_original_def)
  moreover have "decrypt_str_or_original e '''' ''00'' = ('''', False, False)"
    by (simp add: decrypt_str_or_original_def)
  ultimately have "c_password (fst (config_load e gen (g_file (set_permanent_password e js now p g)))) = ''''"
    by (simp add: f config_load_def config_store_def PASSWORD_ENC_VERSION_def Let_def split: prod.split option.split)
  then show ?thesis using ne by (simp add: get_permanent_password_def f)
qed

text \<open>
  \<open>get_option\<close> after \<open>set_option\<close>: other options keep their value; the option itself has its
  overwrite setting if there is one, its default (or the empty string) if it was set to the empty
  string, and the new value otherwise. The file is the stored form of the configuration whenever
  something changed.
\<close>

theorem set_option_get_option:
  "get_option (set_option e k v g) k' =
     (if k' \<noteq> k then get_option g k'
      else case hm_get (g_overwrite_settings g) k of
             Some x \<Rightarrow> x
           | None \<Rightarrow> if v = '''' then unwrap_or_default (hm_get (g_default_settings g) k) else v)
   \<and> (set_option e k v g = g
      \<or> g_file2 (set_option e k v g) = Some (config2_store e (g_config2 (set_option e k v g))))"
proof -
  have "get_option (set_option e k v g) k' = unwrap_or_default (get_or (g_overwrite_settings g)
      (case set_option_map (g_overwrite_settings g) (g_default_settings g) k v (c2_options (g_config2 g)) of
         None \<Rightarrow> c2_options (g_config2 g) | Some m \<Rightarrow> m) (g_default_settings g) k')"
    by (simp add: get_option_def set_option_def split: option.split)
  moreover have "set_option e k v g = g \<or>
      g_file2 (set_option e k v g) = Some (config2_store e (g_config2 (set_option e k v g)))"
    by (simp add: set_option_def split: option.split)
  ultimately show ?thesis
    by (simp add: get_set_option_map get_option_def) (auto simp: unwrap_or_default_def split: option.split)
qed

text \<open>
  Replacing all options keeps exactly the savable ones: afterwards an option has its
  overwrite setting, else the new value, else its default; and the merged view \<open>get_options\<close>
  agrees with \<open>get_option\<close> on every key.
\<close>

theorem set_options_get_option:
  assumes "hm_wf v" "hm_wf (g_overwrite_settings g)" "hm_wf (c2_options (g_config2 g))"
  shows "get_option (set_options e v g) k =
      (case hm_get (g_overwrite_settings g) k of
         Some x \<Rightarrow> x
       | None \<Rightarrow> (case hm_get v k of
                    Some x \<Rightarrow> x
                  | None \<Rightarrow> unwrap_or_default (hm_get (g_default_settings g) k)))
    \<and> unwrap_or_default (hm_get (get_options g) k) = get_option g k"
proof -
  have o: "hm_get (c2_options (g_config2 (set_options e v g))) k = hm_get (purify_options g v) k"
    "g_overwrite_settings (set_options e v g) = g_overwrite_settings g"
    "g_default_settings (set_options e v g) = g_default_settings g"
    by (auto simp: set_options_def Let_def hm_eq_iff)
  have "hm_get (purify_options g v) k = (case hm_get v k of
      Some x \<Rightarrow> if is_option_can_save (g_overwrite_settings g) k (g_default_settings g) x then Some x else None
    | None \<Rightarrow> None)"
    using assms(1) by (simp add: purify_options_def hm_get_retain)
  with o have "get_option (set_options e v g) k =
      (case hm_get (g_overwrite_settings g) k of
         Some x \<Rightarrow> x
       | None \<Rightarrow> (case hm_get v k of
                    Some x \<Rightarrow> x
                  | None \<Rightarrow> unwrap_or_default (hm_get (g_default_settings g) k)))"
    by (auto simp: get_option_def get_or_def unwrap_or_default_def is_option_can_save_def hm_contains_def
        setting_is_def split: option.split)
  moreover have "unwrap_or_default (hm_get (get_options g) k) = get_option g k"
    using assms by (simp add: get_options_def hm_get_extend get_option_def get_or_def split: option.split)
  ultimately show ?thesis by blast
qed

lemma set_trusted_devices_get:
  assumes "length (js_to_string js (filter (\<lambda>d. \<not> outdate now d) ds)) \<le> 1024 * 1024"
  shows "get_trusted_devices e js now' (set_trusted_devices e js now ds g)
    = (filter (\<lambda>d. \<not> outdate now d) ds, set_trusted_devices e js now ds g)"
  using assms by (simp add: set_trusted_devices_def get_trusted_devices_def Let_def)

text \<open>
  Trusting a device puts it into the list exactly once, in place of any device of the same
  hardware id, keeps the other devices that have not expired, and drops the expired ones; the
  list is then returned unchanged at any later time, so a device of this process's list is never
  found expired until the next change of the list.
\<close>

theorem add_trusted_device_get:
  assumes "\<not> outdate now d"
    "length (js_to_string js (filter (\<lambda>x. td_hwid x \<noteq> td_hwid d \<and> \<not> outdate now x)
       (fst (get_trusted_devices e js now g)) @ [d])) \<le> 1024 * 1024"
  shows "fst (get_trusted_devices e js later (add_trusted_device e js now d g))
    = filter (\<lambda>x. td_hwid x \<noteq> td_hwid d \<and> \<not> outdate now x) (fst (get_trusted_devices e js now g)) @ [d]"
proof -
  obtain ds g' where dg: "get_trusted_devices e js now g = (ds, g')" by fastforce
  have f: "filter (\<lambda>x. \<not> outdate now x) (filter (\<lambda>x. td_hwid x \<noteq> td_hwid d) ds @ [d])
      = filter (\<lambda>x. td_hwid x \<noteq> td_hwid d \<and> \<not> outdate now x) ds @ [d]"
    using assms(1) by (simp add: conj_commute)
  show ?thesis
    using set_trusted_devices_get [of js now "filter (\<lambda>x. td_hwid x \<noteq> td_hwid d) ds @ [d]" e later g'] assms(2)
    unfolding add_trusted_device_def dg by (simp only: f fst_conv split_conv Let_def)
qed

text \<open>
  Changing the permanent password revokes every trusted device.
\<close>

theorem password_change_revokes_devices:
  assumes "\<not> is_disable_change_permanent_password g" "p \<noteq> c_password (g_config g)"
    "\<not> (setting_is (g_hard_settings g) ''password'' p \<and> c_password (g_config g) = '''')"
    "length (js_to_string js []) \<le> 1024 * 1024"
  shows "fst (get_trusted_devices e js later (set_permanent_password e js now p g)) = []"
  using assms set_trusted_devices_get [of js now "[]"]
  by (auto simp: set_permanent_password_def clear_trusted_devices_def)

lemma best_host_spec:
  assumes "best_host m = (h, d)"
  shows "d \<le> I64_MAX" "\<forall>(h', d') \<in> set m. 0 < d' \<longrightarrow> d \<le> d'"
    "(h, d) = ('''', I64_MAX) \<or> (h, d) \<in> set m \<and> 0 < d \<and> d < I64_MAX"
proof -
  have "d \<le> I64_MAX \<and> (\<forall>(h', d') \<in> set m. 0 < d' \<longrightarrow> d' < I64_MAX \<longrightarrow> d \<le> d') \<and>
      ((h, d) = ('''', I64_MAX) \<or> (h, d) \<in> set m \<and> 0 < d \<and> d < I64_MAX)"
    using assms unfolding best_host_def
  proof (induction m arbitrary: h d rule: rev_induct)
    case (snoc x m)
    obtain h0 d0 where b: "foldl (\<lambda>(host, delay) (h, d). if 0 < d \<and> d < delay then (h, d) else (host, delay))
        ('''', I64_MAX) m = (h0, d0)" by fastforce
    from snoc.IH [OF b] snoc.prems b show ?case
      by (cases x) (auto split: if_splits)
  qed simp
  then show "d \<le> I64_MAX" "\<forall>(h', d') \<in> set m. 0 < d' \<longrightarrow> d \<le> d'"
    "(h, d) = ('''', I64_MAX) \<or> (h, d) \<in> set m \<and> 0 < d \<and> d < I64_MAX"
    by fastforce+
qed

text \<open>
  Reporting a latency selects the fastest server: if any known host has a positive latency
  (below the largest 64-bit value), the rendezvous server of the configuration becomes a host
  whose latency is positive and minimal among the positive ones (or stays one, when it already is
  the chosen one); if none has, the configuration stays as it was.
\<close>

theorem update_latency_fastest:
  assumes "hm_wf (g_online g)" "\<forall>h. hm_get (g_online g) h \<noteq> None \<longrightarrow> h \<noteq> ''''" "host \<noteq> ''''"
    "g' = update_latency e host latency g"
  shows "hm_get (g_online g') = (hm_get (g_online g))(host \<mapsto> latency)
    \<and> (if \<exists>h d. hm_get (g_online g') h = Some d \<and> 0 < d \<and> d < I64_MAX
       then \<exists>d. hm_get (g_online g') (c2_rendezvous_server (g_config2 g')) = Some d \<and> 0 < d
              \<and> (\<forall>h' d'. hm_get (g_online g') h' = Some d' \<longrightarrow> 0 < d' \<longrightarrow> d \<le> d')
       else g_config2 g' = g_config2 g)"
proof -
  obtain m where m: "m = hm_insert host latency (g_online g)" by simp
  have wf: "hm_wf m" using assms(1) by (simp add: m)
  have mem: "(h, d) \<in> set m \<longleftrightarrow> hm_get m h = Some d" for h d using wf by (simp add: hm_get_eq_Some)
  have ne: "\<forall>(h, d) \<in> set m. h \<noteq> ''''"
    using assms(2, 3) by (auto simp: mem) (auto simp: m split: if_splits)
  obtain h d where b: "best_host m = (h, d)" by fastforce
  note spec = best_host_spec [OF b]
  have online: "g_online g' = m" by (simp add: assms(4) update_latency_def Let_def m [symmetric] b)
  have cfg: "h \<noteq> '''' \<longrightarrow> c2_rendezvous_server (g_config2 g') = h" "h = '''' \<longrightarrow> g_config2 g' = g_config2 g"
    by (simp_all add: assms(4) update_latency_def Let_def m [symmetric] b)
  have c1: "hm_get m = (hm_get (g_online g))(host \<mapsto> latency)" by (simp add: m)
  show ?thesis
  proof (cases "h = ''''")
    case True
    with spec(3) ne have "d = I64_MAX" by auto
    with spec(2) have nex: "\<not> (\<exists>h d. hm_get m h = Some d \<and> 0 < d \<and> d < I64_MAX)" by (force simp flip: mem)
    show ?thesis unfolding online using True cfg(2) by (simp only: nex if_False c1 [symmetric] simp_thms)
  next
    case False
    with spec(3) have "hm_get m h = Some d" "0 < d" "d < I64_MAX" by (simp_all add: mem)
    moreover have "\<forall>h' d'. hm_get m h' = Some d' \<longrightarrow> 0 < d' \<longrightarrow> d \<le> d'"
      using spec(2) by (auto simp flip: mem)
    ultimately have pos: "\<exists>d. hm_get m (c2_rendezvous_server (g_config2 g')) = Some d \<and> 0 < d
        \<and> (\<forall>h' d'. hm_get m h' = Some d' \<longrightarrow> 0 < d' \<longrightarrow> d \<le> d')"
      and ex: "\<exists>h d. hm_get m h = Some d \<and> 0 < d \<and> d < I64_MAX"
      using False cfg(1) by blast+
    show ?thesis unfolding online using pos by (simp only: ex if_True c1 [symmetric] simp_thms)
  qed
qed

text \<open>A concrete state for the witnesses.\<close>

definition demo_app :: app_config where
  "demo_app = \<lparr>g_config = config_default\<lparr>c_id := ''123456789'', c_password := ''secret''\<rparr>,
     g_config2 = config2_default, g_local = \<lparr>lc_remote_id = '''', lc_kb_layout_type = '''', lc_size = (0, 0, 0, 0),
       lc_fav = [], lc_options = [], lc_ui_flutter = []\<rparr>,
     g_trusted_devices = ([], True), g_key_pair = None, g_online = [(''a:21116'', 30)],
     g_default_settings = [], g_overwrite_settings = [(''approve-mode'', ''click'')],
     g_default_local_settings = [], g_overwrite_local_settings = [], g_hard_settings = [], g_builtin_settings = [],
     g_file = None, g_file2 = None, g_file_local = None\<rparr>"

definition demo_json :: json_codec where
  "demo_json = \<lparr>js_to_string = (\<lambda>ds. concat (map (\<lambda>d. td_id d @ '','') ds)), js_from_str = (\<lambda>_. None)\<rparr>"

definition demo_device :: "int \<Rightarrow> trusted_device" where
  "demo_device t = \<lparr>td_hwid = [1, 2], td_time = t, td_id = ''id'', td_name = ''pc'', td_platform = ''Linux''\<rparr>"

lemma plain_not_encrypted: "take 2 s \<noteq> ''00'' \<Longrightarrow> \<not> is_encrypted e (as_bytes s)"
  by (simp add: version_00_def take_as_bytes is_encrypted_def)

lemma ascii_storable:
  assumes "list_all (\<lambda>b. b < 0x80) (as_bytes s)" "length s \<le> ENCRYPT_MAX_LEN" "take 2 s \<noteq> ''00''"
  shows "storable e s"
  using assms ascii_valid_utf8 plain_not_encrypted chars_count_le [of s] by (simp add: storable_def)

theorem config_reload_witness:
  "config_load (demo_env 7) [] (Some (config_store (demo_env 7) (g_config demo_app)))
    = ((g_config demo_app)\<lparr>c_enc_id := c_enc_id (config_store (demo_env 7) (g_config demo_app))\<rparr>,
       Some (config_store (demo_env 7) (g_config demo_app)))"
proof -
  have "storable (demo_env 7) (c_id (g_config demo_app))" "storable (demo_env 7) (c_password (g_config demo_app))"
    by (rule ascii_storable; simp add: demo_app_def as_bytes_def ENCRYPT_MAX_LEN_def)+
  with config_reload [OF demo_env_ok, of 7 "g_config demo_app" "[]"] show ?thesis by (simp add: demo_app_def)
qed

theorem long_password_lost_witness:
  "c_password (fst (config_load (demo_env 7) []
     (g_file (set_permanent_password (demo_env 7) demo_json 0 (replicate 129 CHR ''x'') demo_app)))) = ''''"
proof -
  have "ENCRYPT_MAX_LEN < chars_count (replicate 129 CHR ''x'')"
    by (simp add: ENCRYPT_MAX_LEN_def chars_count_def as_bytes_def is_continuation_def)
  moreover have "\<not> is_encrypted (demo_env 7) (as_bytes (replicate 129 CHR ''x''))"
    by (rule plain_not_encrypted) (simp add: numeral_eq_Suc)
  ultimately show ?thesis
    using long_password_lost [of "replicate 129 CHR ''x''" "demo_env 7" demo_app demo_json 0 "[]"]
    by (simp add: demo_app_def is_disable_change_permanent_password_def builtin_is_def setting_is_def numeral_eq_Suc)
qed

theorem set_options_get_option_witness:
  "get_option (set_options (demo_env 7) [(''approve-mode'', ''password''), (''lang'', ''en'')] demo_app) ''lang'' = ''en''"
  using set_options_get_option [of "[(''approve-mode'', ''password''), (''lang'', ''en'')]" demo_app "demo_env 7" "''lang''"]
  by (simp add: hm_wf_def demo_app_def config2_default_def)

theorem add_trusted_device_get_witness:
  "fst (get_trusted_devices (demo_env 7) demo_json 99 (add_trusted_device (demo_env 7) demo_json 5 (demo_device 5) demo_app))
    = [demo_device 5]"
  using add_trusted_device_get [of 5 "demo_device 5" demo_json "demo_env 7" demo_app 99]
  by (simp add: outdate_def DAYS_90_def demo_device_def demo_json_def get_trusted_devices_def demo_app_def)

theorem password_change_revokes_devices_witness:
  "fst (get_trusted_devices (demo_env 7) demo_json 99
     (set_permanent_password (demo_env 7) demo_json 6 ''new''
        (add_trusted_device (demo_env 7) demo_json 5 (demo_device 5) demo_app))) = []"
  by (rule password_change_revokes_devices)
    (simp_all add: add_trusted_device_def set_trusted_devices_def get_trusted_devices_def demo_app_def demo_json_def
      is_disable_change_permanent_password_def builtin_is_def setting_is_def put_config2_def demo_device_def Let_def)

theorem update_latency_fastest_witness:
  "\<exists>d. hm_get (g_online (update_latency (demo_env 7) ''b:21116'' 20 demo_app))
         (c2_rendezvous_server (g_config2 (update_latency (demo_env 7) ''b:21116'' 20 demo_app))) = Some d \<and> d \<le> 20"
proof -
  have "\<exists>h d. hm_get (g_online (update_latency (demo_env 7) ''b:21116'' 20 demo_app)) h = Some d \<and> 0 < d \<and> d < I64_MAX
      \<and> h = ''b:21116'' \<and> d = 20"
    by (simp add: update_latency_def Let_def demo_app_def I64_MAX_def)
  moreover have "\<forall>h. hm_get (g_online demo_app) h \<noteq> None \<longrightarrow> h \<noteq> ''''" by (simp add: demo_app_def)
  ultimately show ?thesis
    using update_latency_fastest [of demo_app "''b:21116''" "update_latency (demo_env 7) ''b:21116'' 20 demo_app"
        "demo_env 7" 20]
    by (simp add: demo_app_def hm_wf_def split: if_splits)
qed

end
