(* ===== verification/Password_Policy.thy ===== *)
theory Password_Policy
  imports Config
begin

text \<open>
  Which passwords open a session (\<open>libs/hbb_common/src/password_security.rs\<close>, first half): the
  verification method and the approval mode read from the options, the one-time password and its
  length. The one-time password is a static of the process and handed in where it is read.
\<close>

datatype verification_method = OnlyUseTemporaryPassword | OnlyUsePermanentPassword | UseBothPasswords

datatype approve_mode = ApproveBoth | ApprovePassword | ApproveClick

definition verification_method :: "app_config \<Rightarrow> verification_method" where
  "verification_method g =
     (let m = get_option g ''verification-method'' in
      if m = ''use-temporary-password'' then OnlyUseTemporaryPassword
      else if m = ''use-permanent-password'' then OnlyUsePermanentPassword
      else UseBothPasswords)"

definition temporary_password_length :: "app_config \<Rightarrow> nat" where
  "temporary_password_length g =
     (let l = get_option g ''temporary-password-length'' in
      if l = ''8'' then 8 else if l = ''10'' then 10 else 6)"

text \<open>\<open>rs\<close>: the random numbers drawn.\<close>

definition new_temporary_password :: "usize list \<Rightarrow> app_config \<Rightarrow> string" where
  "new_temporary_password rs g =
     (let len = temporary_password_length g in
      if get_bool_option g ''allow-numeric-one-time-password'' then get_auto_numeric_password rs len
      else get_auto_password rs len)"

definition temporary_enabled :: "app_config \<Rightarrow> bool" where
  "temporary_enabled g \<longleftrightarrow> verification_method g \<noteq> OnlyUsePermanentPassword"

definition permanent_enabled :: "app_config \<Rightarrow> bool" where
  "permanent_enabled g \<longleftrightarrow> verification_method g \<noteq> OnlyUseTemporaryPassword"

definition has_valid_password :: "string \<Rightarrow> app_config \<Rightarrow> bool" where
  "has_valid_password temporary g \<longleftrightarrow>
     temporary_enabled g \<and> temporary \<noteq> '''' \<or> permanent_enabled g \<and> get_permanent_password g \<noteq> ''''"

definition approve_mode :: "app_config \<Rightarrow> approve_mode" where
  "approve_mode g =
     (let m = get_option g ''approve-mode'' in
      if m = ''password'' then ApprovePassword else if m = ''click'' then ApproveClick else ApproveBoth)"

definition hide_cm :: "app_config \<Rightarrow> bool" where
  "hide_cm g \<longleftrightarrow> approve_mode g = ApprovePassword \<and> verification_method g = OnlyUsePermanentPassword
     \<and> option2bool ''allow-hide-cm'' (get_option g ''allow-hide-cm'')"

lemma some_password_enabled: "temporary_enabled g \<or> permanent_enabled g"
  by (simp add: temporary_enabled_def permanent_enabled_def)

lemma auto_password_chars:
  assumes "chars \<noteq> ''''" "len \<le> length rs"
  shows "length (get_auto_password_with_chars rs len chars) = len
    \<and> set (get_auto_password_with_chars rs len chars) \<subseteq> set chars"
  using assms by (auto simp: get_auto_password_with_chars_def)

text \<open>
  A new one-time password has the configured length (6, 8 or 10) and is made of digits
  exactly when the option asks for it, and otherwise of the 32 characters that cannot be taken
  for one another (no \<open>0\<close>, \<open>1\<close>, \<open>l\<close> or \<open>o\<close>), whatever the random numbers.
\<close>

theorem temporary_password_wellformed:
  assumes "temporary_password_length g \<le> length rs"
  shows "length (new_temporary_password rs g) = temporary_password_length g
    \<and> temporary_password_length g \<in> {6, 8, 10}
    \<and> (if get_option g ''allow-numeric-one-time-password'' = ''Y''
       then set (new_temporary_password rs g) \<subseteq> set ''0123456789''
       else set (new_temporary_password rs g) \<inter> set ''01lo'' = {} \<and> length CHARS = 32)"
proof -
  have b: "get_bool_option g ''allow-numeric-one-time-password'' \<longleftrightarrow>
      get_option g ''allow-numeric-one-time-password'' = ''Y''"
    by (simp add: get_bool_option_def option2bool_def starts_with_def numeral_eq_Suc)
  obtain len where len: "temporary_password_length g = len" by simp
  have l: "len \<in> {6, 8, 10}" by (simp add: temporary_password_length_def Let_def flip: len)
  note num = auto_password_chars [of NUM_CHARS len rs] and alpha = auto_password_chars [of CHARS len rs]
  have c: "set CHARS \<inter> set ''01lo'' = {}" "CHARS \<noteq> ''''" "length CHARS = 32"
    by (simp_all add: CHARS_def)
  show ?thesis
  proof (cases "get_option g ''allow-numeric-one-time-password'' = ''Y''")
    case True
    have "new_temporary_password rs g = get_auto_password_with_chars rs len NUM_CHARS"
      using b True by (simp add: new_temporary_password_def len get_auto_numeric_password_def)
    then show ?thesis using num assms l True by (simp add: len NUM_CHARS_def)
  next
    case False
    have "new_temporary_password rs g = get_auto_password_with_chars rs len CHARS"
      using b False by (simp add: new_temporary_password_def len get_auto_password_def)
    then show ?thesis using alpha assms l False c by (simp add: len) blast
  qed
qed

theorem temporary_password_wellformed_witness:
  "length (new_temporary_password (replicate 6 35) demo_app) = 6"
  using temporary_password_wellformed [of demo_app "replicate 6 35"]
  by (simp add: temporary_password_length_def get_option_def get_or_def demo_app_def config2_default_def
      unwrap_or_default_def)

end
