(* ===== verification/Privacy_Mode.thy ===== *)
theory Privacy_Mode
  imports Prelude
begin

text \<open>
  Privacy mode (\<open>src/privacy_mode.rs\<close>): one implementation object at a time hides the screen of
  the controlled machine for one connection. The trait object is a record of its functions; the
  manager works on any implementation, and the macOS and the Windows top-most-window
  implementations (\<open>src/privacy_mode/macos.rs\<close>, \<open>win_topmost_window.rs\<close>) are provided here. What
  the operating system answers, and the effects on it, are fields of one world record.
\<close>

section \<open>The trait\<close>

definition INVALID_PRIVACY_MODE_CONN_ID :: i32 where "INVALID_PRIVACY_MODE_CONN_ID = 0"
definition OCCUPIED :: string where "OCCUPIED = ''Privacy occupied by another one.''"
definition TURN_OFF_OTHER_ID :: string where
  "TURN_OFF_OTHER_ID = ''Failed to turn off privacy mode that belongs to someone else.''"
definition PRIVACY_MODE_IMPL_WIN_MAG :: string where "PRIVACY_MODE_IMPL_WIN_MAG = ''privacy_mode_impl_mag''"
definition PRIVACY_MODE_IMPL_WIN_EXCLUDE_FROM_CAPTURE :: string where
  "PRIVACY_MODE_IMPL_WIN_EXCLUDE_FROM_CAPTURE = ''privacy_mode_impl_exclude_from_capture''"
definition PRIVACY_MODE_IMPL_WIN_VIRTUAL_DISPLAY :: string where
  "PRIVACY_MODE_IMPL_WIN_VIRTUAL_DISPLAY = ''privacy_mode_impl_virtual_display''"
definition PRIVACY_MODE_IMPL_MACOS :: string where "PRIVACY_MODE_IMPL_MACOS = ''privacy_mode_impl_macos''"

datatype privacy_mode_state = OffSucceeded | OffByPeer | OffUnknown

text \<open>
  \<open>trait PrivacyMode\<close>: an operation takes the object and the world and returns its result and both
  after it; \<open>pt_drop\<close> is the effect of dropping the object.
\<close>

record ('m, 'w) privacy_trait =
  pt_is_async :: "'m \<Rightarrow> 'w \<Rightarrow> bool"
  pt_clear :: "'m \<Rightarrow> 'w \<Rightarrow> 'm \<times> 'w"
  pt_turn_on :: "i32 \<Rightarrow> 'm \<Rightarrow> 'w \<Rightarrow> bool result_type \<times> 'm \<times> 'w"
  pt_turn_off :: "i32 \<Rightarrow> privacy_mode_state option \<Rightarrow> 'm \<Rightarrow> 'w \<Rightarrow> unit result_type \<times> 'm \<times> 'w"
  pt_pre_conn_id :: "'m \<Rightarrow> i32"
  pt_get_impl_key :: "'m \<Rightarrow> string"
  pt_drop :: "'m \<Rightarrow> 'w \<Rightarrow> 'w"

text \<open>The default methods, on the holder \<open>pre_conn_id()\<close>.\<close>

definition check_on_conn_id :: "i32 \<Rightarrow> i32 \<Rightarrow> bool result_type" where
  "check_on_conn_id pre conn_id =
     (if pre = conn_id then Inr True
      else if pre \<noteq> INVALID_PRIVACY_MODE_CONN_ID then Inl OCCUPIED
      else Inr False)"

definition check_off_conn_id :: "i32 \<Rightarrow> i32 \<Rightarrow> unit result_type" where
  "check_off_conn_id pre conn_id =
     (if pre \<noteq> INVALID_PRIVACY_MODE_CONN_ID \<and> conn_id \<noteq> INVALID_PRIVACY_MODE_CONN_ID \<and> pre \<noteq> conn_id
      then Inl TURN_OFF_OTHER_ID else Inr ())"

section \<open>The manager\<close>

text \<open>
  The statics: the current implementation, the constructors by key (\<open>PRIVACY_MODE_CREATOR\<close>), the
  supported keys, the default key and the option \<open>privacy-mode-impl-key\<close>.
\<close>

record 'm privacy_manager =
  pm_mode :: "'m option"
  pm_creator :: "string \<Rightarrow> (string \<Rightarrow> 'm) option"
  pm_supported :: "string list"
  pm_default_impl :: string
  pm_option :: string

definition get_supported_impl :: "'m privacy_manager \<Rightarrow> string \<Rightarrow> string" where
  "get_supported_impl s impl_key =
     (if List.member (pm_supported s) impl_key then impl_key
      else if List.member (pm_supported s) (pm_option s) then pm_option s
      else pm_default_impl s)"

text \<open>The initial value of the statics: the implementation of the option, if supported, or the default one.\<close>

definition initial_manager ::
  "(string \<Rightarrow> (string \<Rightarrow> 'm) option) \<Rightarrow> string list \<Rightarrow> string \<Rightarrow> string \<Rightarrow> 'm privacy_manager" where
  "initial_manager creator supported default_impl opt =
     (let cur = (if List.member supported opt then opt else default_impl)
      in \<lparr>pm_mode = (case creator cur of Some create \<Rightarrow> Some (create cur) | None \<Rightarrow> None),
          pm_creator = creator, pm_supported = supported, pm_default_impl = default_impl, pm_option = opt\<rparr>)"

text \<open>Assigning a new object drops the one that was there.\<close>

definition put_mode ::
  "('m, 'w) privacy_trait \<Rightarrow> 'm \<Rightarrow> 'm privacy_manager \<Rightarrow> 'w \<Rightarrow> 'm privacy_manager \<times> 'w" where
  "put_mode t m s w = (s\<lparr>pm_mode := Some m\<rparr>, case pm_mode s of None \<Rightarrow> w | Some old \<Rightarrow> pt_drop t old w)"

definition switch ::
  "('m, 'w) privacy_trait \<Rightarrow> string \<Rightarrow> 'm privacy_manager \<Rightarrow> 'w \<Rightarrow> 'm privacy_manager \<times> 'w" where
  "switch t impl_key s w =
     (if (case pm_mode s of Some m \<Rightarrow> pt_get_impl_key t m = impl_key | None \<Rightarrow> False) then (s, w)
      else case pm_creator s impl_key of
             Some create \<Rightarrow> put_mode t (create impl_key) s w
           | None \<Rightarrow> (s, w))"

definition clear ::
  "('m, 'w) privacy_trait \<Rightarrow> 'm privacy_manager \<Rightarrow> 'w \<Rightarrow> unit option \<times> 'm privacy_manager \<times> 'w" where
  "clear t s w =
     (case pm_mode s of
        None \<Rightarrow> (None, s, w)
      | Some m \<Rightarrow> let (m', w') = pt_clear t m w in (Some (), s\<lparr>pm_mode := Some m'\<rparr>, w'))"

text \<open>The tail of \<open>turn_on_privacy_sync\<close>: \<open>privacy_mode_lock.as_mut()?.turn_on_privacy(conn_id)\<close>.\<close>

definition turn_on_current ::
  "('m, 'w) privacy_trait \<Rightarrow> i32 \<Rightarrow> 'm privacy_manager \<Rightarrow> 'w
    \<Rightarrow> bool result_type option \<times> 'm privacy_manager \<times> 'w" where
  "turn_on_current t conn_id s w =
     (case pm_mode s of
        None \<Rightarrow> (None, s, w)
      | Some m \<Rightarrow> let (r, m', w') = pt_turn_on t conn_id m w in (Some r, s\<lparr>pm_mode := Some m'\<rparr>, w'))"

definition turn_on_privacy_sync ::
  "('m, 'w) privacy_trait \<Rightarrow> string \<Rightarrow> i32 \<Rightarrow> 'm privacy_manager \<Rightarrow> 'w
    \<Rightarrow> bool result_type option \<times> 'm privacy_manager \<times> 'w" where
  "turn_on_privacy_sync t impl_key0 conn_id s w =
     (let impl_key = get_supported_impl s impl_key0;
          cur_impl_key = (case pm_mode s of None \<Rightarrow> '''' | Some m \<Rightarrow> pt_get_impl_key t m);
          check = (case pm_mode s of None \<Rightarrow> Inr False
                   | Some m \<Rightarrow> check_on_conn_id (pt_pre_conn_id t m) conn_id)
      in case check of
           Inl e \<Rightarrow> (Some (Inl e), s, w)
         | Inr same \<Rightarrow>
             if same \<and> cur_impl_key = impl_key then (Some (Inr True), s, w)
             else if cur_impl_key \<noteq> impl_key
             then (case pm_creator s impl_key of
                     None \<Rightarrow> (Some (Inl (''Unsupported privacy mode: '' @ impl_key)), s, w)
                   | Some create \<Rightarrow>
                       let (s, w) = (case pm_mode s of
                                       None \<Rightarrow> (s, w)
                                     | Some m \<Rightarrow> let (m', w') = pt_clear t m w in (s\<lparr>pm_mode := Some m'\<rparr>, w'));
                           (s, w) = put_mode t (create impl_key) s w
                       in turn_on_current t conn_id s w)
             else turn_on_current t conn_id s w)"

text \<open>
  \<open>turn_on_privacy\<close>: an asynchronous implementation is turned on in a thread of its own, whose
  result is waited for 7.5 seconds; \<open>in_time\<close> says whether it came in time. The thread runs to its
  end either way.
\<close>

definition turn_on_privacy ::
  "('m, 'w) privacy_trait \<Rightarrow> bool \<Rightarrow> string \<Rightarrow> i32 \<Rightarrow> 'm privacy_manager \<Rightarrow> 'w
    \<Rightarrow> bool result_type option \<times> 'm privacy_manager \<times> 'w" where
  "turn_on_privacy t in_time impl_key conn_id s w =
     (let (r, s', w') = turn_on_privacy_sync t impl_key conn_id s w in
      if (case pm_mode s of None \<Rightarrow> False | Some m \<Rightarrow> pt_is_async t m w) \<and> \<not> in_time
      then (Some (Inl ''deadline has elapsed''), s', w')
      else (r, s', w'))"

definition turn_off_privacy ::
  "('m, 'w) privacy_trait \<Rightarrow> i32 \<Rightarrow> privacy_mode_state option \<Rightarrow> 'm privacy_manager \<Rightarrow> 'w
    \<Rightarrow> unit result_type option \<times> 'm privacy_manager \<times> 'w" where
  "turn_off_privacy t conn_id state s w =
     (case pm_mode s of
        None \<Rightarrow> (None, s, w)
      | Some m \<Rightarrow> let (r, m', w') = pt_turn_off t conn_id state m w in (Some r, s\<lparr>pm_mode := Some m'\<rparr>, w'))"

definition get_privacy_mode_conn_id :: "('m, 'w) privacy_trait \<Rightarrow> 'm privacy_manager \<Rightarrow> i32 option" where
  "get_privacy_mode_conn_id t s = map_option (pt_pre_conn_id t) (pm_mode s)"

definition is_in_privacy_mode :: "('m, 'w) privacy_trait \<Rightarrow> 'm privacy_manager \<Rightarrow> bool" where
  "is_in_privacy_mode t s \<longleftrightarrow>
     (case pm_mode s of None \<Rightarrow> False | Some m \<Rightarrow> pt_pre_conn_id t m \<noteq> INVALID_PRIVACY_MODE_CONN_ID)"

definition is_current_privacy_mode_impl :: "('m, 'w) privacy_trait \<Rightarrow> string \<Rightarrow> 'm privacy_manager \<Rightarrow> bool" where
  "is_current_privacy_mode_impl t k s \<longleftrightarrow>
     (case pm_mode s of None \<Rightarrow> False | Some m \<Rightarrow> pt_get_impl_key t m = k)"

definition get_cur_impl_key :: "('m, 'w) privacy_trait \<Rightarrow> 'm privacy_manager \<Rightarrow> string option" where
  "get_cur_impl_key t s = map_option (pt_get_impl_key t) (pm_mode s)"

text \<open>Which keys are supported, and the default one, by platform.\<close>

definition get_supported_privacy_mode_impl ::
  "target_os \<Rightarrow> bool \<Rightarrow> bool \<Rightarrow> bool \<Rightarrow> bool \<Rightarrow> string list" where
  "get_supported_privacy_mode_impl os exclude_supported mag_supported installed service_running =
     (case os of
        Windows \<Rightarrow>
          (if exclude_supported then [PRIVACY_MODE_IMPL_WIN_EXCLUDE_FROM_CAPTURE]
           else if mag_supported then [PRIVACY_MODE_IMPL_WIN_MAG] else [])
          @ (if installed \<and> service_running then [PRIVACY_MODE_IMPL_WIN_VIRTUAL_DISPLAY] else [])
      | MacOS \<Rightarrow> [PRIVACY_MODE_IMPL_MACOS]
      | _ \<Rightarrow> [])"

definition default_privacy_mode_impl :: "target_os \<Rightarrow> bool \<Rightarrow> bool \<Rightarrow> bool \<Rightarrow> string" where
  "default_privacy_mode_impl os exclude_supported mag_supported installed =
     (case os of
        Windows \<Rightarrow>
          (if exclude_supported then PRIVACY_MODE_IMPL_WIN_EXCLUDE_FROM_CAPTURE
           else if mag_supported then PRIVACY_MODE_IMPL_WIN_MAG
           else if installed then PRIVACY_MODE_IMPL_WIN_VIRTUAL_DISPLAY else '''')
      | MacOS \<Rightarrow> PRIVACY_MODE_IMPL_MACOS
      | _ \<Rightarrow> '''')"

section \<open>The contract of an implementation\<close>

locale privacy_contract =
  fixes t :: "('m, 'w) privacy_trait"
    and hidden :: "'w \<Rightarrow> bool"
  assumes on_other: "pt_pre_conn_id t m \<noteq> 0 \<Longrightarrow> pt_pre_conn_id t m \<noteq> c \<Longrightarrow> pt_turn_on t c m w = (Inl OCCUPIED, m, w)"
    and on_same: "pt_pre_conn_id t m = c \<Longrightarrow> pt_turn_on t c m w = (Inr True, m, w)"
    and on_free: "pt_pre_conn_id t m = 0 \<Longrightarrow> c \<noteq> 0 \<Longrightarrow> pt_turn_on t c m w = (r, m', w') \<Longrightarrow>
      (if r = Inr True then pt_pre_conn_id t m' = c \<and> hidden w' else pt_pre_conn_id t m' = 0)"
    and off_other: "pt_pre_conn_id t m \<noteq> 0 \<Longrightarrow> c \<noteq> 0 \<Longrightarrow> pt_pre_conn_id t m \<noteq> c \<Longrightarrow>
      pt_turn_off t c st m w = (Inl TURN_OFF_OTHER_ID, m, w)"
    and off_result: "pt_turn_off t c st m w = (q, m', w') \<Longrightarrow>
      pt_pre_conn_id t m' = (case q of Inr _ \<Rightarrow> 0 | Inl _ \<Rightarrow> pt_pre_conn_id t m)"
begin

text \<open>The connection that holds privacy mode (\<open>0\<close>: nobody).\<close>

definition holder :: "'m privacy_manager \<Rightarrow> i32" where
  "holder s = (case pm_mode s of None \<Rightarrow> 0 | Some m \<Rightarrow> pt_pre_conn_id t m)"

lemma turn_on_other:
  assumes "holder s \<noteq> 0" "c \<noteq> holder s"
  shows "turn_on_privacy_sync t k c s w = (Some (Inl OCCUPIED), s, w)"
  using assms by (auto simp: holder_def turn_on_privacy_sync_def check_on_conn_id_def Let_def
      INVALID_PRIVACY_MODE_CONN_ID_def split: option.splits)

lemma turn_off_other:
  assumes "holder s \<noteq> 0" "c \<noteq> 0" "c \<noteq> holder s"
  shows "turn_off_privacy t c st s w = (Some (Inl TURN_OFF_OTHER_ID), s, w)"
  using assms off_other by (auto simp: holder_def turn_off_privacy_def split: option.splits)

lemma turn_on_current_result:
  assumes "holder s \<in> {0, c}" "c \<noteq> 0" "turn_on_current t c s w = (r, s', w')"
  shows "(if r = Some (Inr True) then holder s' = c \<and> (holder s = 0 \<longrightarrow> hidden w') else holder s' = 0)"
proof (cases "pm_mode s")
  case None
  then show ?thesis using assms by (auto simp: turn_on_current_def holder_def)
next
  case (Some m)
  obtain q m' w1 where q: "pt_turn_on t c m w = (q, m', w1)" using prod_cases3 by blast
  have s: "r = Some q" "s' = s\<lparr>pm_mode := Some m'\<rparr>" "w' = w1"
    using assms(3) Some q by (auto simp: turn_on_current_def)
  show ?thesis
  proof (cases "holder s = 0")
    case True
    then show ?thesis using on_free [OF _ assms(2) q] Some s by (auto simp: holder_def)
  next
    case False
    then have "pt_pre_conn_id t m = c" using assms(1) Some by (auto simp: holder_def)
    with on_same [OF this, of w] q s False show ?thesis by (auto simp: holder_def)
  qed
qed

lemma turn_on_result:
  assumes cr: "\<And>k f. pm_creator s k = Some f \<Longrightarrow> pt_pre_conn_id t (f k) = 0"
    and c: "c \<noteq> 0" and on: "turn_on_privacy_sync t k c s w = (r, s', w')"
  shows "if r = Some (Inr True) then holder s' = c \<and> (holder s \<noteq> c \<longrightarrow> hidden w')
    else holder s' = (if holder s \<in> {0, c} \<and> pm_creator s (get_supported_impl s k) \<noteq> None then 0 else holder s)"
proof (cases "holder s \<in> {0, c}")
  case False
  then show ?thesis using turn_on_other [of s c k w] on by auto
next
  case True
  obtain key where key: "key = get_supported_impl s k" by simp
  obtain cur where cur: "cur = (case pm_mode s of None \<Rightarrow> '''' | Some m \<Rightarrow> pt_get_impl_key t m)" by simp
  have check: "(case pm_mode s of None \<Rightarrow> Inr False | Some m \<Rightarrow> check_on_conn_id (pt_pre_conn_id t m) c)
      = Inr (holder s = c)"
    using True c by (auto simp: holder_def check_on_conn_id_def INVALID_PRIVACY_MODE_CONN_ID_def split: option.split)
  note eq = on [unfolded turn_on_privacy_sync_def Let_def check cur [symmetric] key [symmetric] sum.case]
  show ?thesis
  proof (cases "cur = key")
    case True
    show ?thesis
    proof (cases "holder s = c")
      case True
      then show ?thesis using eq \<open>cur = key\<close> by auto
    next
      case False
      then have "turn_on_current t c s w = (r, s', w')" using eq True by simp
      from turn_on_current_result [OF \<open>holder s \<in> {0, c}\<close> c this] False \<open>holder s \<in> {0, c}\<close> show ?thesis by auto
    qed
  next
    case False
    show ?thesis
    proof (cases "pm_creator s key")
      case None
      then show ?thesis using eq False key by auto
    next
      case (Some f)
      obtain s1 w1 where s1: "(case pm_mode s of None \<Rightarrow> (s, w)
          | Some m \<Rightarrow> (case pt_clear t m w of (m', w') \<Rightarrow> (s\<lparr>pm_mode := Some m'\<rparr>, w'))) = (s1, w1)" by fastforce
      obtain s2 w2 where s2: "put_mode t (f key) s1 w1 = (s2, w2)" by fastforce
      have "turn_on_current t c s2 w2 = (r, s', w')"
        using eq False Some s1 s2 by (simp add: Let_def)
      moreover have "holder s2 = 0" using s2 cr [OF Some] by (auto simp: put_mode_def holder_def)
      ultimately have "if r = Some (Inr True) then holder s' = c \<and> hidden w' else holder s' = 0"
        using turn_on_current_result [of s2 c w2 r s' w'] c by auto
      then show ?thesis using True Some key by auto
    qed
  qed
qed

end

section \<open>Implementations\<close>

text \<open>
  The world: whether the screen is hidden, whether input is hooked, the notifications sent to the
  connection manager; and what the operating system answers to the calls (\<open>x_\<close>).
\<close>

record priv_world =
  w_hidden :: bool
  w_hooked :: bool
  w_notified :: "(i32 \<times> privacy_mode_state \<times> string) list"
  x_mac_set :: "bool \<Rightarrow> bool"
  x_exe_parent :: "bool result_type"
  x_dll_exists :: bool
  x_hwnd_before :: "nat result_type"
  x_hwnd_started :: "nat result_type"
  x_hwnd :: "nat result_type"
  x_token :: bool
  x_create :: bool
  x_inject :: "unit result_type"
  x_resume :: bool
  x_handles :: "nat \<times> nat"
  x_hook :: "unit result_type"
  x_unhook :: "unit result_type"
  x_notify :: "unit result_type"

subsection \<open>macOS\<close>

record mac_impl =
  mi_impl_key :: string
  mi_conn_id :: i32

definition mac_new :: "string \<Rightarrow> mac_impl" where
  "mac_new k = \<lparr>mi_impl_key = k, mi_conn_id = 0\<rparr>"

text \<open>\<open>MacSetPrivacyMode(on)\<close>: the answer, and the screen after it.\<close>

definition mac_set_privacy_mode :: "bool \<Rightarrow> priv_world \<Rightarrow> bool \<times> priv_world" where
  "mac_set_privacy_mode on w = (x_mac_set w on, if x_mac_set w on then w\<lparr>w_hidden := on\<rparr> else w)"

definition mac_clear :: "mac_impl \<Rightarrow> priv_world \<Rightarrow> mac_impl \<times> priv_world" where
  "mac_clear m w = (m\<lparr>mi_conn_id := 0\<rparr>, snd (mac_set_privacy_mode False w))"

definition mac_turn_on :: "i32 \<Rightarrow> mac_impl \<Rightarrow> priv_world \<Rightarrow> bool result_type \<times> mac_impl \<times> priv_world" where
  "mac_turn_on c m w =
     (case check_on_conn_id (mi_conn_id m) c of
        Inl e \<Rightarrow> (Inl e, m, w)
      | Inr True \<Rightarrow> (Inr True, m, w)
      | Inr False \<Rightarrow>
          let (success, w') = mac_set_privacy_mode True w in
          if \<not> success then (Inl ''Failed to turn on privacy mode'', m, w')
          else (Inr True, m\<lparr>mi_conn_id := c\<rparr>, w'))"

definition mac_turn_off ::
  "i32 \<Rightarrow> privacy_mode_state option \<Rightarrow> mac_impl \<Rightarrow> priv_world \<Rightarrow> unit result_type \<times> mac_impl \<times> priv_world" where
  "mac_turn_off c state m w =
     (case check_off_conn_id (mi_conn_id m) c of
        Inl e \<Rightarrow> (Inl e, m, w)
      | Inr _ \<Rightarrow>
          let (success, w') = mac_set_privacy_mode False w in
          if \<not> success then (Inl ''Failed to turn off privacy mode'', m, w')
          else (Inr (), m\<lparr>mi_conn_id := 0\<rparr>, w'))"

subsection \<open>Windows, top-most window\<close>

record topmost_impl =
  ti_impl_key :: string
  ti_conn_id :: i32
  ti_hthread :: nat
  ti_hprocess :: nat
  ti_hwnd :: nat

definition topmost_new :: "string \<Rightarrow> topmost_impl" where
  "topmost_new k = \<lparr>ti_impl_key = k, ti_conn_id = INVALID_PRIVACY_MODE_CONN_ID, ti_hthread = 0, ti_hprocess = 0,
     ti_hwnd = 0\<rparr>"

definition handlers_is_default :: "topmost_impl \<Rightarrow> bool" where
  "handlers_is_default m \<longleftrightarrow> ti_hthread m = 0 \<and> ti_hprocess m = 0"

definition topmost_start :: "topmost_impl \<Rightarrow> priv_world \<Rightarrow> unit result_type \<times> topmost_impl" where
  "topmost_start m w =
     (if ti_hprocess m \<noteq> 0 then (Inr (), m)
      else case x_exe_parent w of
        Inl e \<Rightarrow> (Inl e, m)
      | Inr False \<Rightarrow> (Inl ''Cannot get parent of current exe file'', m)
      | Inr True \<Rightarrow>
          if \<not> x_dll_exists w then (Inl ''Failed to find required file'', m)
          else (case x_hwnd_before w of
                  Inl e \<Rightarrow> (Inl e, m)
                | Inr h \<Rightarrow>
                    if h \<noteq> 0 then (Inr (), m)
                    else if \<not> x_token w then (Inl ''Failed to get token of current user'', m)
                    else if \<not> x_create w then (Inl ''Failed to create privacy window process'', m)
                    else (case x_inject w of
                            Inl e \<Rightarrow> (Inl e, m)
                          | Inr _ \<Rightarrow>
                              if \<not> x_resume w then (Inl ''Failed to create privacy window process'', m)
                              else let m = m\<lparr>ti_hthread := fst (x_handles w), ti_hprocess := snd (x_handles w)\<rparr>
                                   in (case x_hwnd_started w of
                                         Inl e \<Rightarrow> (Inl e, m)
                                       | Inr h \<Rightarrow> if h = 0 then (Inl ''Failed to get hwnd after started'', m)
                                                  else (Inr (), m)))))"

definition topmost_turn_on ::
  "i32 \<Rightarrow> topmost_impl \<Rightarrow> priv_world \<Rightarrow> bool result_type \<times> topmost_impl \<times> priv_world" where
  "topmost_turn_on c m w =
     (case check_on_conn_id (ti_conn_id m) c of
        Inl e \<Rightarrow> (Inl e, m, w)
      | Inr True \<Rightarrow> (Inr True, m, w)
      | Inr False \<Rightarrow>
          (case x_exe_parent w of
             Inl e \<Rightarrow> (Inl e, m, w)
           | Inr False \<Rightarrow> (Inl ''Invalid exe parent'', m, w)
           | Inr True \<Rightarrow>
               if \<not> x_dll_exists w then (Inr False, m, w)
               else (case (if handlers_is_default m then topmost_start m w else (Inr (), m)) of
                       (Inl e, m) \<Rightarrow> (Inl e, m, w)
                     | (Inr _, m) \<Rightarrow>
                         (case x_hwnd w of
                            Inl e \<Rightarrow> (Inl e, m, w)
                          | Inr h \<Rightarrow>
                              if h = 0 then (Inl ''No privacy window created'', m, w)
                              else (case x_hook w of
                                      Inl e \<Rightarrow> (Inl e, m, w)
                                    | Inr _ \<Rightarrow> (Inr True, m\<lparr>ti_conn_id := c, ti_hwnd := h\<rparr>,
                                                w\<lparr>w_hooked := True, w_hidden := True\<rparr>))))))"

definition topmost_turn_off ::
  "i32 \<Rightarrow> privacy_mode_state option \<Rightarrow> topmost_impl \<Rightarrow> priv_world
    \<Rightarrow> unit result_type \<times> topmost_impl \<times> priv_world" where
  "topmost_turn_off c state m w =
     (case check_off_conn_id (ti_conn_id m) c of
        Inl e \<Rightarrow> (Inl e, m, w)
      | Inr _ \<Rightarrow>
          (case x_unhook w of
             Inl e \<Rightarrow> (Inl e, m, w)
           | Inr _ \<Rightarrow>
               let w = w\<lparr>w_hooked := False\<rparr> in
               (case x_hwnd w of
                  Inl e \<Rightarrow> (Inl e, m, w)
                | Inr h \<Rightarrow>
                    let w = (if h \<noteq> 0 then w\<lparr>w_hidden := False\<rparr> else w) in
                    if ti_conn_id m \<noteq> INVALID_PRIVACY_MODE_CONN_ID
                    then (Inr (), m\<lparr>ti_conn_id := INVALID_PRIVACY_MODE_CONN_ID\<rparr>,
                          case state of
                            Some st \<Rightarrow> w\<lparr>w_notified := w_notified w @ [(c, st, PRIVACY_MODE_IMPL_WIN_MAG)]\<rparr>
                          | None \<Rightarrow> w)
                    else (Inr (), m, w))))"

definition topmost_clear :: "topmost_impl \<Rightarrow> priv_world \<Rightarrow> topmost_impl \<times> priv_world" where
  "topmost_clear m w = snd (topmost_turn_off (ti_conn_id m) None m w)"

definition topmost_drop :: "topmost_impl \<Rightarrow> priv_world \<Rightarrow> priv_world" where
  "topmost_drop m w =
     (if ti_conn_id m \<noteq> INVALID_PRIVACY_MODE_CONN_ID then snd (snd (topmost_turn_off (ti_conn_id m) None m w)) else w)"

subsection \<open>The trait objects\<close>

datatype privacy_impl = Mac mac_impl | Topmost topmost_impl

fun impl_conn_id :: "privacy_impl \<Rightarrow> i32" where
  "impl_conn_id (Mac m) = mi_conn_id m"
| "impl_conn_id (Topmost m) = ti_conn_id m"

fun impl_key :: "privacy_impl \<Rightarrow> string" where
  "impl_key (Mac m) = mi_impl_key m"
| "impl_key (Topmost m) = ti_impl_key m"

fun impl_clear :: "privacy_impl \<Rightarrow> priv_world \<Rightarrow> privacy_impl \<times> priv_world" where
  "impl_clear (Mac m) w = apfst Mac (mac_clear m w)"
| "impl_clear (Topmost m) w = apfst Topmost (topmost_clear m w)"

fun impl_turn_on :: "i32 \<Rightarrow> privacy_impl \<Rightarrow> priv_world \<Rightarrow> bool result_type \<times> privacy_impl \<times> priv_world" where
  "impl_turn_on c (Mac m) w = apsnd (apfst Mac) (mac_turn_on c m w)"
| "impl_turn_on c (Topmost m) w = apsnd (apfst Topmost) (topmost_turn_on c m w)"

fun impl_turn_off ::
  "i32 \<Rightarrow> privacy_mode_state option \<Rightarrow> privacy_impl \<Rightarrow> priv_world
    \<Rightarrow> unit result_type \<times> privacy_impl \<times> priv_world" where
  "impl_turn_off c st (Mac m) w = apsnd (apfst Mac) (mac_turn_off c st m w)"
| "impl_turn_off c st (Topmost m) w = apsnd (apfst Topmost) (topmost_turn_off c st m w)"

fun impl_drop :: "privacy_impl \<Rightarrow> priv_world \<Rightarrow> priv_world" where
  "impl_drop (Mac m) w = snd (mac_clear m w)"
| "impl_drop (Topmost m) w = topmost_drop m w"

definition privacy_impls :: "(privacy_impl, priv_world) privacy_trait" where
  "privacy_impls = \<lparr>pt_is_async = (\<lambda>_ _. False), pt_clear = impl_clear, pt_turn_on = impl_turn_on,
     pt_turn_off = impl_turn_off, pt_pre_conn_id = impl_conn_id, pt_get_impl_key = impl_key, pt_drop = impl_drop\<rparr>"

definition privacy_creator :: "target_os \<Rightarrow> bool \<Rightarrow> string \<Rightarrow> (string \<Rightarrow> privacy_impl) option" where
  "privacy_creator os exclude_supported k =
     (case os of
        MacOS \<Rightarrow> if k = PRIVACY_MODE_IMPL_MACOS then Some (\<lambda>k. Mac (mac_new k)) else None
      | Windows \<Rightarrow>
          if k = (if exclude_supported then PRIVACY_MODE_IMPL_WIN_EXCLUDE_FROM_CAPTURE else PRIVACY_MODE_IMPL_WIN_MAG)
          then Some (\<lambda>k. Topmost (topmost_new k)) else None
      | _ \<Rightarrow> None)"

text \<open>The requests connections make, and a sequence of them.\<close>

datatype privacy_request =
    RequestOn string i32
  | RequestOff i32 "privacy_mode_state option"

fun request_conn :: "privacy_request \<Rightarrow> i32" where
  "request_conn (RequestOn k c) = c"
| "request_conn (RequestOff c st) = c"

fun privacy_run ::
  "('m, 'w) privacy_trait \<Rightarrow> privacy_request list \<Rightarrow> 'm privacy_manager \<Rightarrow> 'w \<Rightarrow> 'm privacy_manager \<times> 'w" where
  "privacy_run t [] s w = (s, w)"
| "privacy_run t (RequestOn k c # rs) s w =
     (let (_, s', w') = turn_on_privacy t True k c s w in privacy_run t rs s' w')"
| "privacy_run t (RequestOff c st # rs) s w =
     (let (_, s', w') = turn_off_privacy t c st s w in privacy_run t rs s' w')"

subsection \<open>The implementations meet the contract\<close>

lemma mac_contract:
  "mi_conn_id m \<noteq> 0 \<Longrightarrow> mi_conn_id m \<noteq> c \<Longrightarrow> mac_turn_on c m w = (Inl OCCUPIED, m, w)"
  "mi_conn_id m = c \<Longrightarrow> mac_turn_on c m w = (Inr True, m, w)"
  "mi_conn_id m = 0 \<Longrightarrow> c \<noteq> 0 \<Longrightarrow> mac_turn_on c m w = (r, m', w') \<Longrightarrow>
     if r = Inr True then mi_conn_id m' = c \<and> w_hidden w' else mi_conn_id m' = 0"
  "mi_conn_id m \<noteq> 0 \<Longrightarrow> c \<noteq> 0 \<Longrightarrow> mi_conn_id m \<noteq> c \<Longrightarrow> mac_turn_off c st m w = (Inl TURN_OFF_OTHER_ID, m, w)"
  "mac_turn_off c st m w = (q, m', w') \<Longrightarrow> mi_conn_id m' = (case q of Inr _ \<Rightarrow> 0 | Inl _ \<Rightarrow> mi_conn_id m)"
  by (auto simp: mac_turn_on_def mac_turn_off_def check_on_conn_id_def check_off_conn_id_def
      INVALID_PRIVACY_MODE_CONN_ID_def mac_set_privacy_mode_def split: if_splits)

lemma topmost_start_conn: "topmost_start m w = (r, m') \<Longrightarrow> ti_conn_id m' = ti_conn_id m"
  by (auto simp: topmost_start_def Let_def split: if_splits sum.splits bool.splits)

lemma topmost_exclusive:
  "ti_conn_id m \<noteq> 0 \<Longrightarrow> ti_conn_id m \<noteq> c \<Longrightarrow> topmost_turn_on c m w = (Inl OCCUPIED, m, w)"
  "ti_conn_id m = c \<Longrightarrow> topmost_turn_on c m w = (Inr True, m, w)"
  "ti_conn_id m \<noteq> 0 \<Longrightarrow> c \<noteq> 0 \<Longrightarrow> ti_conn_id m \<noteq> c \<Longrightarrow> topmost_turn_off c st m w = (Inl TURN_OFF_OTHER_ID, m, w)"
  by (simp_all add: topmost_turn_on_def topmost_turn_off_def check_on_conn_id_def check_off_conn_id_def
      INVALID_PRIVACY_MODE_CONN_ID_def)

lemma topmost_on_free:
  assumes "ti_conn_id m = 0" "c \<noteq> 0" "topmost_turn_on c m w = (r, m', w')"
  shows "if r = Inr True then ti_conn_id m' = c \<and> w_hidden w' else ti_conn_id m' = 0"
proof -
  obtain q n where s: "(if handlers_is_default m then topmost_start m w else (Inr (), m)) = (q, n)" by fastforce
  then have n: "ti_conn_id n = 0" using assms(1) topmost_start_conn [of m w q n] by (auto split: if_splits)
  have "check_on_conn_id 0 c = Inr False" using assms(2)
    by (simp add: check_on_conn_id_def INVALID_PRIVACY_MODE_CONN_ID_def)
  note eq = assms(3) [unfolded topmost_turn_on_def assms(1) this s sum.case bool.case split_conv]
  show ?thesis
  proof (cases "x_exe_parent w = Inr True \<and> x_dll_exists w")
    case False
    then show ?thesis using eq assms(1) by (auto split: sum.splits bool.splits)
  next
    case True
    then show ?thesis using eq n
      by (cases q; cases "x_hwnd w"; cases "x_hook w") (auto split: if_splits)
  qed
qed

lemma topmost_off_result:
  assumes "topmost_turn_off c st m w = (q, m', w')"
  shows "ti_conn_id m' = (case q of Inr _ \<Rightarrow> 0 | Inl _ \<Rightarrow> ti_conn_id m)"
proof -
  obtain k u h where k: "check_off_conn_id (ti_conn_id m) c = k" and u: "x_unhook w = u" and h: "x_hwnd w = h"
    by simp
  have "x_hwnd (w\<lparr>w_hooked := False\<rparr>) = h" by (simp add: h)
  note eq = assms [unfolded topmost_turn_off_def k u Let_def this INVALID_PRIVACY_MODE_CONN_ID_def]
  show ?thesis using eq by (cases k; cases u; cases h) (simp_all split: if_splits, (clarsimp)+)
qed

interpretation pv: privacy_contract privacy_impls w_hidden
proof unfold_locales
  fix m :: privacy_impl and c w
  assume "pt_pre_conn_id privacy_impls m \<noteq> 0" "pt_pre_conn_id privacy_impls m \<noteq> c"
  then show "pt_turn_on privacy_impls c m w = (Inl OCCUPIED, m, w)"
    by (cases m) (simp_all add: privacy_impls_def mac_contract(1) topmost_exclusive(1))
next
  fix m :: privacy_impl and c w
  assume "pt_pre_conn_id privacy_impls m = c"
  then show "pt_turn_on privacy_impls c m w = (Inr True, m, w)"
    by (cases m) (simp_all add: privacy_impls_def mac_contract(2) topmost_exclusive(2))
next
  fix m m' :: privacy_impl and c w w' r
  assume a: "pt_pre_conn_id privacy_impls m = 0" "c \<noteq> 0" "pt_turn_on privacy_impls c m w = (r, m', w')"
  show "if r = Inr True then pt_pre_conn_id privacy_impls m' = c \<and> w_hidden w' else pt_pre_conn_id privacy_impls m' = 0"
  proof (cases m)
    case (Mac n)
    obtain q n' v where q: "mac_turn_on c n w = (q, n', v)" using prod_cases3 by blast
    then show ?thesis using a mac_contract(3) [of n c w q n' v] Mac by (auto simp: privacy_impls_def split: if_splits)
  next
    case (Topmost n)
    obtain q n' v where q: "topmost_turn_on c n w = (q, n', v)" using prod_cases3 by blast
    then show ?thesis using a topmost_on_free [of n c w q n' v] Topmost
      by (auto simp: privacy_impls_def split: if_splits)
  qed
next
  fix m :: privacy_impl and c st w
  assume "pt_pre_conn_id privacy_impls m \<noteq> 0" "c \<noteq> 0" "pt_pre_conn_id privacy_impls m \<noteq> c"
  then show "pt_turn_off privacy_impls c st m w = (Inl TURN_OFF_OTHER_ID, m, w)"
    by (cases m) (simp_all add: privacy_impls_def mac_contract(4) topmost_exclusive(3))
next
  fix m m' :: privacy_impl and c st w w' q
  assume a: "pt_turn_off privacy_impls c st m w = (q, m', w')"
  show "pt_pre_conn_id privacy_impls m' = (case q of Inr _ \<Rightarrow> 0 | Inl _ \<Rightarrow> pt_pre_conn_id privacy_impls m)"
  proof (cases m)
    case (Mac n)
    obtain p n' v where p: "mac_turn_off c st n w = (p, n', v)" using prod_cases3 by blast
    then show ?thesis using a mac_contract(5) [OF p] Mac by (auto simp: privacy_impls_def split: sum.split)
  next
    case (Topmost n)
    obtain p n' v where p: "topmost_turn_off c st n w = (p, n', v)" using prod_cases3 by blast
    then show ?thesis using a topmost_off_result [OF p] Topmost by (auto simp: privacy_impls_def split: sum.split)
  qed
qed

lemma pv_holder: "get_privacy_mode_conn_id privacy_impls s = Some c \<Longrightarrow> pv.holder s = c"
  by (auto simp: get_privacy_mode_conn_id_def pv.holder_def)

lemma not_async: "turn_on_privacy privacy_impls in_time k c s w = turn_on_privacy_sync privacy_impls k c s w"
  by (simp add: turn_on_privacy_def privacy_impls_def Let_def split: prod.split option.split)

lemma creator_fresh:
  "privacy_creator os ex k = Some f \<Longrightarrow> pt_pre_conn_id privacy_impls (f j) = 0 \<and> pt_get_impl_key privacy_impls (f j) = j"
  by (auto simp: privacy_creator_def privacy_impls_def mac_new_def topmost_new_def
      INVALID_PRIVACY_MODE_CONN_ID_def split: target_os.splits if_splits)

section \<open>Properties\<close>

text \<open>
  C9: In the privacy manager a connection that holds the privacy mode keeps it: no sequence of requests made
  under the numbers of other connections, to turn it on with any implementation or to turn it off, changes the
  holder, the implementation object or the state of the machine; turning it on under the number 0 is refused
  too. The manager does not stop a request to turn off under the number 0, which stands for whoever holds the
  mode, so this is excluded; the handler of a connection issues it when its own request was refused, see
  \<open>second_privacy_request_turns_off\<close> in \<open>Peer_Properties\<close>.
\<close>

theorem privacy_exclusive:
  assumes "get_privacy_mode_conn_id privacy_impls s = Some c" "c \<noteq> 0"
    "\<forall>r \<in> set rs. request_conn r \<noteq> c \<and> (\<forall>st. r \<noteq> RequestOff 0 st)"
  shows "privacy_run privacy_impls rs s w = (s, w)"
  using assms(3)
proof (induction rs)
  case (Cons r rs)
  have h: "pv.holder s = c" using assms(1) by (rule pv_holder)
  show ?case
  proof (cases r)
    case (RequestOn k d)
    then show ?thesis using Cons pv.turn_on_other [of s d k w] assms(2) h by (simp add: not_async)
  next
    case (RequestOff d st)
    then show ?thesis using Cons pv.turn_off_other [of s d st w] assms(2) h by auto
  qed
qed simp

definition held_manager :: "privacy_impl privacy_manager" where
  "held_manager = \<lparr>pm_mode = Some (Mac \<lparr>mi_impl_key = PRIVACY_MODE_IMPL_MACOS, mi_conn_id = 7\<rparr>),
     pm_creator = privacy_creator MacOS False, pm_supported = [PRIVACY_MODE_IMPL_MACOS],
     pm_default_impl = PRIVACY_MODE_IMPL_MACOS, pm_option = []\<rparr>"

theorem privacy_exclusive_witness:
  "\<forall>w :: priv_world. privacy_run privacy_impls [RequestOn PRIVACY_MODE_IMPL_MACOS 8, RequestOn [] 0, RequestOff 9 (Some OffByPeer)] held_manager w
    = (held_manager, w)"
proof
  fix w :: priv_world
  show "privacy_run privacy_impls [RequestOn PRIVACY_MODE_IMPL_MACOS 8, RequestOn [] 0, RequestOff 9 (Some OffByPeer)] held_manager w
      = (held_manager, w)"
    by (rule privacy_exclusive [of held_manager 7])
      (simp_all add: held_manager_def get_privacy_mode_conn_id_def privacy_impls_def)
qed

text \<open>
  A successful request makes the requester the holder, and hides the screen if the requester
  was not the holder before; after an unsuccessful one nobody holds privacy mode, or the same
  connection as before.
\<close>

theorem turn_on_privacy_holder:
  assumes "pm_creator s = privacy_creator os ex" "c \<noteq> 0"
    "turn_on_privacy privacy_impls in_time k c s w = (r, s', w')"
  shows "if r = Some (Inr True)
    then get_privacy_mode_conn_id privacy_impls s' = Some c
       \<and> (get_privacy_mode_conn_id privacy_impls s \<noteq> Some c \<longrightarrow> w_hidden w')
    else \<not> is_in_privacy_mode privacy_impls s'
       \<or> get_privacy_mode_conn_id privacy_impls s' = get_privacy_mode_conn_id privacy_impls s"
proof -
  have on: "turn_on_privacy_sync privacy_impls k c s w = (r, s', w')" using assms(3) by (simp add: not_async)
  have fresh: "\<And>j f. pm_creator s j = Some f \<Longrightarrow> pt_pre_conn_id privacy_impls (f j) = 0"
    using creator_fresh assms(1) by metis
  have "if r = Some (Inr True) then pv.holder s' = c \<and> (pv.holder s \<noteq> c \<longrightarrow> w_hidden w')
      else pv.holder s' = (if pv.holder s \<in> {0, c} \<and> pm_creator s (get_supported_impl s k) \<noteq> None then 0
        else pv.holder s)"
    by (rule pv.turn_on_result) (use fresh assms(2) on in auto)
  then show ?thesis using assms(2)
    by (auto simp: pv.holder_def get_privacy_mode_conn_id_def is_in_privacy_mode_def
        INVALID_PRIVACY_MODE_CONN_ID_def split: if_splits option.splits)
qed

definition demo_world :: priv_world where
  "demo_world = \<lparr>w_hidden = False, w_hooked = False, w_notified = [], x_mac_set = (\<lambda>_. True),
     x_exe_parent = Inr True, x_dll_exists = True, x_hwnd_before = Inr 0, x_hwnd_started = Inr 5, x_hwnd = Inr 5,
     x_token = True, x_create = True, x_inject = Inr (), x_resume = True, x_handles = (1, 2),
     x_hook = Inr (), x_unhook = Inr (), x_notify = Inr ()\<rparr>"

definition demo_manager :: "privacy_impl privacy_manager" where
  "demo_manager = \<lparr>pm_mode = Some (Topmost (topmost_new PRIVACY_MODE_IMPL_WIN_MAG)),
     pm_creator = privacy_creator Windows False, pm_supported = [PRIVACY_MODE_IMPL_WIN_MAG],
     pm_default_impl = PRIVACY_MODE_IMPL_WIN_MAG, pm_option = []\<rparr>"

theorem turn_on_privacy_holder_witness:
  "\<exists>s' w'. turn_on_privacy privacy_impls True PRIVACY_MODE_IMPL_WIN_MAG 7 demo_manager demo_world
      = (Some (Inr True), s', w') \<and> get_privacy_mode_conn_id privacy_impls s' = Some 7 \<and> w_hidden w'"
proof -
  obtain r s' w' where e: "turn_on_privacy privacy_impls True PRIVACY_MODE_IMPL_WIN_MAG 7 demo_manager demo_world
      = (r, s', w')" using prod_cases3 by blast
  have "r = Some (Inr True)" using e unfolding not_async
    by (simp add: turn_on_privacy_sync_def get_supported_impl_def demo_manager_def privacy_impls_def
        topmost_new_def check_on_conn_id_def INVALID_PRIVACY_MODE_CONN_ID_def turn_on_current_def topmost_turn_on_def
        demo_world_def topmost_start_def handlers_is_default_def Let_def)
  moreover have "pm_creator demo_manager = privacy_creator Windows False"
    "get_privacy_mode_conn_id privacy_impls demo_manager = Some 0"
    by (simp_all add: demo_manager_def get_privacy_mode_conn_id_def privacy_impls_def topmost_new_def
        INVALID_PRIVACY_MODE_CONN_ID_def)
  ultimately show ?thesis using turn_on_privacy_holder [OF _ _ e] e by simp
qed

end
