(* ===== verification/Output_Buffer.thy ===== *)
theory Output_Buffer
  imports Prelude
begin

text \<open>
  The output history of a terminal session (\<open>OutputBuffer\<close> of
  \<open>src/server/terminal_service.rs\<close>): output is kept as lines, trimmed from the oldest to a size
  and a number of lines, and its newest part is replayed to a client that reconnects. The size
  counter is a \<open>usize\<close> and wraps. The trimming loop does not end once the counter is above the
  limit and no line is left, so it is a partial function and not returning is \<open>None\<close>.
\<close>

definition MAX_OUTPUT_BUFFER_SIZE :: usize where "MAX_OUTPUT_BUFFER_SIZE = 1048576"
definition MAX_BUFFER_LINES :: nat where "MAX_BUFFER_LINES = 10000"
definition DEFAULT_RECONNECT_BUFFER_BYTES :: nat where "DEFAULT_RECONNECT_BUFFER_BYTES = 8 * 1024"

section \<open>The buffer\<close>

record output_buffer =
  ob_lines :: "bytes list"
  ob_total_size :: usize
  ob_last_line_incomplete :: bool

definition ob_new :: output_buffer where
  "ob_new = \<lparr>ob_lines = [], ob_total_size = 0, ob_last_line_incomplete = False\<rparr>"

definition newline :: u8 where "newline = 10"

text \<open>\<open>split(|&b| b == b'\n')\<close>: always at least one piece.\<close>

fun split_newline :: "bytes \<Rightarrow> bytes list" where
  "split_newline [] = [[]]"
| "split_newline (b # bs) =
     (if b = newline then [] # split_newline bs
      else case split_newline bs of
             [] \<Rightarrow> [[b]]
           | l # ls \<Rightarrow> (b # l) # ls)"

text \<open>The loop over the pieces.\<close>

fun push_lines :: "bool \<Rightarrow> bytes list \<Rightarrow> output_buffer \<Rightarrow> output_buffer" where
  "push_lines ends [] b = b"
| "push_lines ends [line] b =
     (let b = (if \<not> ends \<and> line \<noteq> [] then b\<lparr>ob_last_line_incomplete := True\<rparr> else b) in
      if line \<noteq> []
      then let line_data = (if ends then line @ [newline] else line)
           in b\<lparr>ob_total_size := ob_total_size b + of_nat (length line_data),
                ob_lines := ob_lines b @ [line_data]\<rparr>
      else b)"
| "push_lines ends (line # more_lines) b =
     (let line_data = line @ [newline]
      in push_lines ends more_lines
           (b\<lparr>ob_total_size := ob_total_size b + of_nat (length line_data),
              ob_lines := ob_lines b @ [line_data]\<rparr>))"

text \<open>\<open>while total_size > MAX || lines.len() > MAX { if let Some(removed) = lines.pop_front() ... }\<close>\<close>

partial_function (option) trim :: "usize \<Rightarrow> bytes list \<Rightarrow> (usize \<times> bytes list) option" where
  "trim total_sz lines =
     (if MAX_OUTPUT_BUFFER_SIZE < total_sz \<or> MAX_BUFFER_LINES < length lines
      then (case lines of
              [] \<Rightarrow> trim total_sz []
            | removed # rest \<Rightarrow> trim (total_sz - of_nat (length removed)) rest)
      else Some (total_sz, lines))"

definition ob_trim :: "output_buffer \<Rightarrow> output_buffer option" where
  "ob_trim b = map_option (\<lambda>(t, ls). b\<lparr>ob_total_size := t, ob_lines := ls\<rparr>) (trim (ob_total_size b) (ob_lines b))"

definition ob_append_rest :: "bytes \<Rightarrow> output_buffer \<Rightarrow> output_buffer option" where
  "ob_append_rest remaining b =
     ob_trim (push_lines (remaining \<noteq> [] \<and> last remaining = newline) (split_newline remaining) b)"

definition ob_append :: "bytes \<Rightarrow> output_buffer \<Rightarrow> output_buffer option" where
  "ob_append data b =
     (if data = [] then Some b
      else if ob_last_line_incomplete b \<and> ob_lines b \<noteq> []
      then let front = butlast (ob_lines b); last_line = last (ob_lines b) in
           (case dropWhile (\<lambda>x. x \<noteq> newline) data of
              [] \<Rightarrow> Some (b\<lparr>ob_lines := front @ [last_line @ data],
                            ob_total_size := ob_total_size b + of_nat (length data)\<rparr>)
            | _ # rest \<Rightarrow>
                ob_append_rest rest
                  (b\<lparr>ob_lines := front @ [last_line @ takeWhile (\<lambda>x. x \<noteq> newline) data @ [newline]],
                     ob_last_line_incomplete := False\<rparr>))
      else ob_append_rest data b)"

section \<open>Replay\<close>

text \<open>How many of the at most three continuation bytes at the cut are skipped.\<close>

definition skip_continuation :: "bytes \<Rightarrow> nat" where
  "skip_continuation tail =
     length (takeWhile (\<lambda>b. b AND 0xC0 = 0x80) (take 3 tail))"

text \<open>The loop over the lines from the newest; the chunks are collected oldest first.\<close>

fun recent_chunks :: "nat \<Rightarrow> nat \<Rightarrow> bytes list \<Rightarrow> bytes list \<Rightarrow> bytes list" where
  "recent_chunks max_bytes sz chunks [] = chunks"
| "recent_chunks max_bytes sz chunks (line # older) =
     (if max_bytes < sz + length line
      then (if sz = 0 \<and> max_bytes < length line
            then let offset = length line - max_bytes;
                     offset = offset + skip_continuation (drop offset line)
                 in if offset < length line then drop offset line # chunks else chunks
            else chunks)
      else recent_chunks max_bytes (sz + length line) (line # chunks) older)"

definition get_recent :: "nat \<Rightarrow> output_buffer \<Rightarrow> bytes" where
  "get_recent max_bytes b =
     (if max_bytes = 0 then [] else concat (recent_chunks max_bytes 0 [] (rev (ob_lines b))))"

section \<open>Lemmas\<close>

definition ob_content :: "output_buffer \<Rightarrow> bytes" where
  "ob_content b = concat (ob_lines b)"

lemma split_newline_not_Nil [simp]: "split_newline v \<noteq> []"
  by (cases v) (auto split: list.split)

lemma push_lines_content:
  assumes "ls \<noteq> []" "ends \<Longrightarrow> last ls = []"
  shows "ob_content (push_lines ends ls b) = ob_content b @ concat (map (\<lambda>l. l @ [newline]) (butlast ls)) @ last ls"
  using assms
proof (induction ends ls b rule: push_lines.induct)
  case (2 ends line b)
  then show ?case by (auto simp: ob_content_def Let_def)
next
  case (3 ends line l more b)
  then show ?case by (simp add: ob_content_def Let_def)
qed simp

lemma split_newline_join:
  "concat (map (\<lambda>l. l @ [newline]) (butlast (split_newline v))) @ last (split_newline v) = v"
proof (induction v)
  case (Cons b v)
  then show ?case by (cases "split_newline v") (auto split: if_splits)
qed simp

lemma split_newline_ends: "v \<noteq> [] \<Longrightarrow> last v = newline \<Longrightarrow> last (split_newline v) = []"
proof (induction v)
  case (Cons b v)
  show ?case
  proof (cases "v = []")
    case False
    then have "last (split_newline v) = []" using Cons by simp
    moreover obtain l ls where "split_newline v = l # ls" by (cases "split_newline v") auto
    moreover have "ls \<noteq> []" if "b \<noteq> newline" "split_newline v = [l]" using that calculation False Cons.prems
      split_newline_join [of v] by auto
    ultimately show ?thesis by auto
  qed (use Cons in simp)
qed simp

text \<open>
  What the trimming loop gives when it returns: a suffix of the lines within both limits, and it
  never starts above the size limit without a line.
\<close>

lemma trim_result:
  assumes "trim t ls = Some y"
  shows "(\<exists>ds. ls = ds @ snd y) \<and> fst y \<le> MAX_OUTPUT_BUFFER_SIZE \<and> length (snd y) \<le> MAX_BUFFER_LINES
    \<and> (MAX_OUTPUT_BUFFER_SIZE < t \<longrightarrow> ls \<noteq> [])"
proof (rule trim.raw_induct [where P = "\<lambda>t ls y. (\<exists>ds. ls = ds @ snd y) \<and> fst y \<le> MAX_OUTPUT_BUFFER_SIZE
    \<and> length (snd y) \<le> MAX_BUFFER_LINES \<and> (MAX_OUTPUT_BUFFER_SIZE < t \<longrightarrow> ls \<noteq> [])", OF _ assms])
  fix f :: "usize \<Rightarrow> bytes list \<Rightarrow> (usize \<times> bytes list) option" and t ls y
  assume ih: "\<And>t ls y. f t ls = Some y \<Longrightarrow> (\<exists>ds. ls = ds @ snd y) \<and> fst y \<le> MAX_OUTPUT_BUFFER_SIZE
      \<and> length (snd y) \<le> MAX_BUFFER_LINES \<and> (MAX_OUTPUT_BUFFER_SIZE < t \<longrightarrow> ls \<noteq> [])"
    and eq: "(if MAX_OUTPUT_BUFFER_SIZE < t \<or> MAX_BUFFER_LINES < length ls
        then (case ls of [] \<Rightarrow> f t [] | removed # rest \<Rightarrow> f (t - of_nat (length removed)) rest)
        else Some (t, ls)) = Some y"
  show "(\<exists>ds. ls = ds @ snd y) \<and> fst y \<le> MAX_OUTPUT_BUFFER_SIZE
      \<and> length (snd y) \<le> MAX_BUFFER_LINES \<and> (MAX_OUTPUT_BUFFER_SIZE < t \<longrightarrow> ls \<noteq> [])"
  proof (cases "MAX_OUTPUT_BUFFER_SIZE < t \<or> MAX_BUFFER_LINES < length ls")
    case False
    with eq show ?thesis by auto
  next
    case True
    show ?thesis
    proof (cases ls)
      case Nil
      with True eq have "f t [] = Some y" "MAX_OUTPUT_BUFFER_SIZE < t" by auto
      with ih [of t "[]" y] show ?thesis by simp
    next
      case (Cons r rest)
      with True eq have "f (t - of_nat (length r)) rest = Some y" by simp
      from ih [OF this] Cons show ?thesis by (auto intro: exI [of _ "r # _"])
    qed
  qed
qed

lemma trim_empty_diverges: "MAX_OUTPUT_BUFFER_SIZE < t \<Longrightarrow> trim t [] = None"
  using trim_result by (cases "trim t []") auto

text \<open>A counter that has wrapped below zero never comes back under the limit.\<close>

lemma trim_wrapped_diverges:
  assumes "d + length (concat ls) \<le> 2 ^ 63" "0 < d"
  shows "trim (- of_nat d) ls = None"
  using assms
proof (induction ls arbitrary: d)
  have big: "MAX_OUTPUT_BUFFER_SIZE < - of_nat n" if "n \<le> 2 ^ 63" "0 < n" for n
  proof -
    have "n \<le> 2 ^ 64" using that by simp
    then obtain m where m: "n + m = 2 ^ 64" using le_Suc_ex by metis
    have "(of_nat n + of_nat m :: usize) = 0" by (simp flip: of_nat_add add: m)
    then have "(- of_nat n :: usize) = of_nat m" by (simp add: minus_unique)
    moreover have "unat (of_nat m :: usize) = m" using that m by (simp add: unat_of_nat take_bit_nat_eq_self)
    ultimately show ?thesis using that m by (simp add: MAX_OUTPUT_BUFFER_SIZE_def word_less_nat_alt)
  qed
  {
    case Nil
    then show ?case using big [of d] by (intro trim_empty_diverges) simp
  next
    case (Cons l ls)
    have e: "- of_nat d - of_nat (length l) = (- of_nat (d + length l) :: usize)" by simp
    have "trim (- of_nat (d + length l)) ls = None" by (rule Cons.IH) (use Cons.prems in simp_all)
    then have "trim (- of_nat d - of_nat (length l)) ls = None" unfolding e .
    then show ?case using big [of d] Cons.prems by (subst trim.simps) (simp del: of_nat_add)
  }
qed

lemma ob_trim_content:
  "ob_trim b = Some b' \<Longrightarrow> \<exists>d. ob_content b = d @ ob_content b'"
  using trim_result [of "ob_total_size b" "ob_lines b"]
  by (force simp: ob_trim_def ob_content_def)

lemma ob_append_rest_content:
  assumes "ob_append_rest data b = Some b'"
  shows "\<exists>d. ob_content b @ data = d @ ob_content b'"
proof -
  obtain ends where ends: "ends \<longleftrightarrow> data \<noteq> [] \<and> last data = newline" by simp
  have "ob_content (push_lines ends (split_newline data) b) = ob_content b @ data"
    using push_lines_content [of "split_newline data" ends b] split_newline_ends [of data]
    by (simp add: ends split_newline_join)
  then show ?thesis using assms ob_trim_content [of "push_lines ends (split_newline data) b" b']
    by (simp add: ob_append_rest_def ends)
qed

lemma ob_append_content:
  assumes "ob_append data b = Some b'"
  shows "\<exists>d. ob_content b @ data = d @ ob_content b'"
proof (cases "data \<noteq> [] \<and> ob_last_line_incomplete b \<and> ob_lines b \<noteq> []")
  case False
  show ?thesis
  proof (cases "data = []")
    case True
    then show ?thesis using assms by (simp add: ob_append_def)
  next
    case f: False
    have "ob_append data b = ob_append_rest data b" unfolding ob_append_def using f False by simp metis
    then show ?thesis using assms ob_append_rest_content [of data b b'] by simp
  qed
next
  case True
  then have lines: "ob_content b = concat (butlast (ob_lines b)) @ last (ob_lines b)"
    unfolding ob_content_def by (metis append_butlast_last_id concat.simps concat_append append_Nil2)
  show ?thesis
  proof (cases "dropWhile (\<lambda>x. x \<noteq> newline) data")
    case Nil
    then have "b' = b\<lparr>ob_lines := butlast (ob_lines b) @ [last (ob_lines b) @ data],
        ob_total_size := ob_total_size b + of_nat (length data)\<rparr>"
      using assms True unfolding ob_append_def Let_def Nil by simp
    then show ?thesis using lines by (simp add: ob_content_def)
  next
    case (Cons nl rest)
    then have "nl = newline" using hd_dropWhile [of "\<lambda>x. x \<noteq> newline" data] by simp
    then have data: "data = takeWhile (\<lambda>x. x \<noteq> newline) data @ newline # rest"
      using takeWhile_dropWhile_id [of "\<lambda>x. x \<noteq> newline" data] Cons by simp
    obtain b1 where b1: "b1 = b\<lparr>ob_lines := butlast (ob_lines b) @ [last (ob_lines b) @
        takeWhile (\<lambda>x. x \<noteq> newline) data @ [newline]], ob_last_line_incomplete := False\<rparr>" by simp
    have "ob_append_rest rest b1 = Some b'" using assms True Cons by (simp add: ob_append_def b1)
    from ob_append_rest_content [OF this] obtain d where "ob_content b1 @ rest = d @ ob_content b'" by blast
    moreover have "ob_content b @ data = ob_content b1 @ rest"
      by (subst data) (simp add: lines, simp add: b1 ob_content_def)
    ultimately show ?thesis by metis
  qed
qed

text \<open>The replay loop collects a suffix of the lines not yet seen and what it has.\<close>

lemma skip_continuation_le: "skip_continuation v \<le> length v"
  unfolding skip_continuation_def by (metis length_take length_takeWhile_le min.boundedE)

lemma recent_chunks_suffix:
  assumes "sz = length (concat chunks)" "sz \<le> n"
  shows "\<exists>d. concat (rev older) @ concat chunks = d @ concat (recent_chunks n sz chunks older)
    \<and> length (concat (recent_chunks n sz chunks older)) \<le> n
    \<and> (length (concat (rev older)) + sz \<le> n \<longrightarrow> d = [])"
  using assms
proof (induction n sz chunks older rule: recent_chunks.induct)
  case (2 n sz chunks line older)
  show ?case
  proof (cases "n < sz + length line")
    case False
    from "2.IH" [OF False] "2.prems" False show ?thesis by auto
  next
    case True
    obtain off where off: "off = length line - n + skip_continuation (drop (length line - n) line)" by simp
    show ?thesis
    proof (cases "sz = 0 \<and> off < length line \<and> n < length line")
      case True
      then have "recent_chunks n sz chunks (line # older) = drop off line # chunks"
        using \<open>n < sz + length line\<close>
        by (simp only: recent_chunks.simps Let_def off [symmetric] if_True simp_thms)
      moreover obtain cc where cc: "cc = concat chunks" by simp
      moreover have "cc = []" using True "2.prems" by (simp add: cc del: concat_eq_Nil_conv)
      moreover have "length (drop off line) \<le> n" by (simp add: off)
      ultimately show ?thesis using True
        by (intro exI [of _ "concat (rev older) @ take off line"])
          (simp del: recent_chunks.simps length_drop add: cc [symmetric])
    next
      case False
      then have "recent_chunks n sz chunks (line # older) = chunks" using \<open>n < sz + length line\<close>
        by (simp only: recent_chunks.simps Let_def off [symmetric] if_True if_cancel split: if_splits) blast
      then show ?thesis using "2.prems" True by auto
    qed
  qed
qed auto

lemma get_recent_suffix:
  "\<exists>d. ob_content b = d @ get_recent n b \<and> length (get_recent n b) \<le> n
    \<and> (length (ob_content b) \<le> n \<longrightarrow> d = [])"
  using recent_chunks_suffix [of 0 "[]" n "rev (ob_lines b)"] by (auto simp: get_recent_def ob_content_def)

section \<open>Runs of output\<close>

fun ob_append_all :: "bytes list \<Rightarrow> output_buffer \<Rightarrow> output_buffer option" where
  "ob_append_all [] b = Some b"
| "ob_append_all (c # cs) b = (case ob_append c b of None \<Rightarrow> None | Some b' \<Rightarrow> ob_append_all cs b')"

lemma ob_append_all_append:
  "ob_append_all (cs @ ds) b = (case ob_append_all cs b of None \<Rightarrow> None | Some b' \<Rightarrow> ob_append_all ds b')"
  by (induction cs arbitrary: b) (auto split: option.split)

lemma ob_append_all_content:
  "ob_append_all cs b = Some b' \<Longrightarrow> \<exists>d. ob_content b @ concat cs = d @ ob_content b'"
proof (induction cs arbitrary: b)
  case (Cons c cs)
  then obtain b1 where b1: "ob_append c b = Some b1" "ob_append_all cs b1 = Some b'" by (auto split: option.splits)
  from ob_append_content [OF b1(1)] obtain d1 where d1: "ob_content b @ c = d1 @ ob_content b1" by blast
  from Cons.IH [OF b1(2)] obtain d2 where "ob_content b1 @ concat cs = d2 @ ob_content b'" by blast
  then have "ob_content b @ concat (c # cs) = (d1 @ d2) @ ob_content b'"
    using d1 by (metis append_assoc concat.simps(2))
  then show ?case by blast
qed simp

text \<open>
  Output that comes in whole lines: what the loop pushes, that the counter is exact, and that the
  trimming loop then ends within both limits.
\<close>

definition whole_lines :: "bytes \<Rightarrow> bool" where
  "whole_lines v \<longleftrightarrow> v = [] \<or> last v = newline"

definition ob_exact :: "output_buffer \<Rightarrow> bool" where
  "ob_exact b \<longleftrightarrow> \<not> ob_last_line_incomplete b \<and> ob_total_size b = of_nat (length (ob_content b))"

lemma push_lines_exact:
  assumes "ls \<noteq> []" "last ls = []" "ob_exact b"
  shows "ob_exact (push_lines ends ls b)"
  using assms
proof (induction ends ls b rule: push_lines.induct)
  case (2 ends line b)
  then show ?case by (simp add: Let_def)
next
  case (3 ends line l more b)
  then show ?case by (simp add: ob_exact_def ob_content_def Let_def)
qed simp

lemma trim_exact_returns:
  assumes "length (concat ls) < 2 ^ 64"
  shows "\<exists>ds ls'. trim (of_nat (length (concat ls))) ls = Some (of_nat (length (concat ls')), ls')
    \<and> ls = ds @ ls' \<and> length (concat ls') \<le> 1048576 \<and> length ls' \<le> MAX_BUFFER_LINES"
  using assms
proof (induction ls)
  case Nil
  then show ?case by (simp add: trim.simps MAX_OUTPUT_BUFFER_SIZE_def)
next
  case (Cons l ls)
  obtain n where n: "n = length (concat (l # ls))" by simp
  have le: "MAX_OUTPUT_BUFFER_SIZE < of_nat n \<longleftrightarrow> 1048576 < n"
  proof -
    have "n < 2 ^ 64" using Cons.prems n by simp
    then show ?thesis by (simp add: MAX_OUTPUT_BUFFER_SIZE_def word_less_nat_alt unat_of_nat take_bit_nat_eq_self)
  qed
  show ?case
  proof (cases "1048576 < n \<or> MAX_BUFFER_LINES < length (l # ls)")
    case True
    have "(of_nat n - of_nat (length l) :: usize) = of_nat (length (concat ls))" by (simp add: n)
    with True le have "trim (of_nat n) (l # ls) = trim (of_nat (length (concat ls))) ls"
      by (subst trim.simps) (simp only: list.case if_True)
    moreover obtain ds ls' where "trim (of_nat (length (concat ls))) ls = Some (of_nat (length (concat ls')), ls')"
        "ls = ds @ ls'" "length (concat ls') \<le> 1048576" "length ls' \<le> MAX_BUFFER_LINES"
      using Cons.IH Cons.prems by auto
    ultimately show ?thesis unfolding n by (intro exI [of _ "l # ds"] exI [of _ ls']) simp
  next
    case False
    with le have "trim (of_nat n) (l # ls) = Some (of_nat n, l # ls)" by (subst trim.simps) simp
    with False show ?thesis unfolding n by (intro exI [of _ "[]"] exI [of _ "l # ls"]) simp
  qed
qed

lemma ob_append_exact:
  assumes "ob_exact b" "whole_lines c" "length (ob_content b) + length c < 2 ^ 64"
    and "length (ob_content b) \<le> 1048576" "length (ob_lines b) \<le> MAX_BUFFER_LINES"
  shows "\<exists>b'. ob_append c b = Some b' \<and> ob_exact b' \<and> length (ob_content b') \<le> 1048576
    \<and> length (ob_lines b') \<le> MAX_BUFFER_LINES"
proof (cases "c = []")
  case True
  then show ?thesis using assms by (simp add: ob_append_def)
next
  case False
  then have c: "last c = newline" using assms by (simp add: whole_lines_def)
  obtain p where p: "p = push_lines True (split_newline c) b" by simp
  have app: "ob_append c b = ob_trim p" using assms False c by (simp add: ob_append_def ob_append_rest_def ob_exact_def p)
  have ex: "ob_exact p" unfolding p by (rule push_lines_exact) (use assms c False split_newline_ends in simp_all)
  have "ob_content p = ob_content b @ c"
    unfolding p using push_lines_content [of "split_newline c" True b] split_newline_ends [OF False c]
      split_newline_join [of c] by simp
  then have "length (concat (ob_lines p)) < 2 ^ 64" using assms by (simp add: ob_content_def)
  from trim_exact_returns [OF this] obtain ls where
    ls: "trim (ob_total_size p) (ob_lines p) = Some (of_nat (length (concat ls)), ls)"
      "length (concat ls) \<le> 1048576" "length ls \<le> MAX_BUFFER_LINES"
    using ex by (auto simp: ob_exact_def ob_content_def)
  then show ?thesis using ex by (simp add: app ob_trim_def ob_exact_def ob_content_def)
qed

lemma ob_append_all_exact:
  assumes "\<forall>c \<in> set cs. whole_lines c \<and> length c < 2 ^ 63" "ob_exact b"
    and "length (ob_content b) \<le> 1048576" "length (ob_lines b) \<le> MAX_BUFFER_LINES"
  shows "\<exists>b'. ob_append_all cs b = Some b' \<and> ob_exact b' \<and> length (ob_content b') \<le> 1048576
    \<and> length (ob_lines b') \<le> MAX_BUFFER_LINES"
  using assms
proof (induction cs arbitrary: b)
  case (Cons c cs)
  then have "length (ob_content b) + length c < 2 ^ 64" by auto
  then obtain b1 where "ob_append c b = Some b1" "ob_exact b1" "length (ob_content b1) \<le> 1048576"
      "length (ob_lines b1) \<le> MAX_BUFFER_LINES"
    using ob_append_exact [of b c] Cons.prems by auto
  with Cons.IH [of b1] Cons.prems(1) show ?case by simp
qed simp

text \<open>A chunk of empty lines.\<close>

lemma split_newline_newlines: "split_newline (replicate n newline) = replicate (Suc n) []"
  by (induction n) auto

lemma push_newlines:
  "push_lines True (replicate (Suc n) []) b =
     b\<lparr>ob_total_size := ob_total_size b + of_nat n, ob_lines := ob_lines b @ replicate n [newline]\<rparr>"
  by (induction n arbitrary: b) (simp_all add: Let_def replicate_app_Cons_same)

lemma append_newlines:
  assumes "0 < n" "\<not> ob_last_line_incomplete b"
  shows "ob_append (replicate n newline) b =
    map_option (\<lambda>(t, ls). b\<lparr>ob_total_size := t, ob_lines := ls\<rparr>)
      (trim (ob_total_size b + of_nat n) (ob_lines b @ replicate n [newline]))"
  using assms unfolding ob_append_def ob_append_rest_def ob_trim_def split_newline_newlines
  by (simp add: push_newlines del: replicate.simps)

section \<open>Properties\<close>

text \<open>
  What a reconnecting client is shown is the end of the session's output: after any chunks of
  output, the replay of at most \<open>n\<close> bytes is a suffix of everything the session has printed, of at
  most \<open>n\<close> bytes, and it is the whole stored history if that has at most \<open>n\<close> bytes.
\<close>

theorem replay_is_recent_output:
  assumes "ob_append_all cs ob_new = Some b"
  shows "(\<exists>d. concat cs = d @ get_recent n b) \<and> length (get_recent n b) \<le> n
    \<and> (length (ob_content b) \<le> n \<longrightarrow> get_recent n b = ob_content b)"
proof -
  have "ob_content ob_new = []" by (simp add: ob_content_def ob_new_def)
  with ob_append_all_content [OF assms] obtain d1 where d1: "concat cs = d1 @ ob_content b" by auto
  from get_recent_suffix [of b n] obtain d2 where d2: "ob_content b = d2 @ get_recent n b"
      "length (get_recent n b) \<le> n" "length (ob_content b) \<le> n \<longrightarrow> d2 = []" by blast
  have "concat cs = (d1 @ d2) @ get_recent n b" using d1 d2(1) by simp
  then show ?thesis using d2 by auto
qed

theorem replay_is_recent_output_witness:
  "\<exists>b. ob_append_all [[104, 105, 10, 111], [107, 10]] ob_new = Some b \<and> get_recent 3 b = [111, 107, 10]
    \<and> (\<exists>d. concat [[104, 105, 10, 111], [107, 10]] = d @ get_recent 3 b)"
proof -
  have a: "ob_append_all [[104, 105, 10, 111], [107, 10]] ob_new
      = Some \<lparr>ob_lines = [[104, 105, 10], [111, 107, 10]], ob_total_size = 4, ob_last_line_incomplete = False\<rparr>"
    by (simp add: ob_append_def ob_append_rest_def ob_trim_def trim.simps ob_new_def newline_def Let_def
        MAX_OUTPUT_BUFFER_SIZE_def MAX_BUFFER_LINES_def)
  from replay_is_recent_output [OF a, of 3] a show ?thesis
    by (simp add: get_recent_def skip_continuation_def)
qed

text \<open>
  C12: Output that comes in whole lines is always stored, within the limits: after any chunks that
  each end with a line end, every append has returned, the counter is the number of stored bytes,
  and at most 1 MB in at most 10000 lines is kept.
\<close>

theorem whole_line_history_bounded:
  assumes "\<forall>c \<in> set cs. whole_lines c \<and> length c < 2 ^ 63"
  shows "\<exists>b. ob_append_all cs ob_new = Some b \<and> ob_total_size b = of_nat (length (ob_content b))
    \<and> length (ob_content b) \<le> 1048576 \<and> length (ob_lines b) \<le> 10000"
  using ob_append_all_exact [OF assms, of ob_new] by (auto simp: ob_exact_def ob_new_def ob_content_def MAX_BUFFER_LINES_def)

theorem whole_line_history_bounded_witness:
  "\<exists>b. ob_append_all [[97, 10], [98, 10, 10]] ob_new = Some b \<and> length (ob_lines b) \<le> 10000"
  using whole_line_history_bounded [of "[[97, 10], [98, 10, 10]]"] by (auto simp: whole_lines_def newline_def)

text \<open>
  The counter leaves out the bytes that complete a line begun in an earlier chunk, and then the
  trimming loop can run forever: this is a sequence of nine chunks of at most 4096 bytes, the size the
  reader thread reads, after which the append of the last one does not return.
\<close>

definition long_line_tail :: bytes where
  "long_line_tail = replicate 4094 97 @ [newline]"

definition hanging_chunks :: "bytes list" where
  "hanging_chunks = [[97], long_line_tail, [97], long_line_tail, [97], long_line_tail,
     replicate 4096 newline, replicate 4096 newline, replicate 1808 newline]"

lemma dropWhile_long_line_tail: "dropWhile (\<lambda>x. x \<noteq> newline) long_line_tail = [newline]"
  by (simp add: long_line_tail_def dropWhile_append newline_def)

lemma takeWhile_long_line_tail:
  "takeWhile (\<lambda>x. x \<noteq> newline) long_line_tail @ [newline] = long_line_tail"
  using takeWhile_dropWhile_id [of "\<lambda>x. x \<noteq> newline" long_line_tail] by (simp only: dropWhile_long_line_tail)

lemma trim_small: "t \<le> MAX_OUTPUT_BUFFER_SIZE \<Longrightarrow> length ls \<le> MAX_BUFFER_LINES \<Longrightarrow> trim t ls = Some (t, ls)"
  by (subst trim.simps) (simp add: not_less [symmetric])

lemma trim_pop:
  "MAX_BUFFER_LINES < Suc (length ls) \<Longrightarrow> trim t (l # ls) = trim (t - of_nat (length l)) ls"
  by (subst trim.simps) simp

lemma append_begins_line:
  assumes "ob_total_size b + 1 \<le> MAX_OUTPUT_BUFFER_SIZE" "length (ob_lines b) < MAX_BUFFER_LINES"
    "\<not> ob_last_line_incomplete b"
  shows "ob_append [97] b = Some (b\<lparr>ob_total_size := ob_total_size b + 1, ob_lines := ob_lines b @ [[97]],
    ob_last_line_incomplete := True\<rparr>)"
  using assms by (simp add: ob_append_def ob_append_rest_def ob_trim_def newline_def Let_def trim_small)

lemma append_completes_line:
  assumes "ob_total_size b \<le> MAX_OUTPUT_BUFFER_SIZE" "length ls < MAX_BUFFER_LINES"
    "ob_last_line_incomplete b" "ob_lines b = ls @ [l]"
  shows "ob_append long_line_tail b = Some (b\<lparr>ob_lines := ls @ [l @ long_line_tail],
    ob_last_line_incomplete := False\<rparr>)"
proof -
  have "long_line_tail \<noteq> []" by (simp add: long_line_tail_def)
  with assms show ?thesis
    by (simp add: ob_append_def dropWhile_long_line_tail takeWhile_long_line_tail ob_append_rest_def ob_trim_def
        Let_def trim_small)
qed

theorem completed_lines_hang_append:
  "ob_append_all hanging_chunks ob_new = None"
proof -
  obtain L where L: "L = 97 # long_line_tail" "length L = 4096" by (simp add: long_line_tail_def)
  obtain st where st: "\<And>t ls i. st t ls i = \<lparr>ob_lines = ls, ob_total_size = t, ob_last_line_incomplete = i\<rparr>"
    using that [of "\<lambda>t ls i. \<lparr>ob_lines = ls, ob_total_size = t, ob_last_line_incomplete = i\<rparr>"] by simp
  note limits = MAX_OUTPUT_BUFFER_SIZE_def MAX_BUFFER_LINES_def
  have pairs: "ob_append_all [[97], long_line_tail, [97], long_line_tail, [97], long_line_tail] ob_new
      = Some (st 3 [L, L, L] False)"
    by (simp add: ob_new_def append_begins_line limits L st
        append_completes_line [where ls = "[]"] append_completes_line [where ls = "[L]" for L]
        append_completes_line [where ls = "[L, K]" for L K])
  have nl: "ob_append (replicate n newline) (st t ls False) = Some (st (t + of_nat n) (ls @ replicate n [newline]) False)"
    if "0 < n" "t + of_nat n \<le> MAX_OUTPUT_BUFFER_SIZE" "length ls + n \<le> MAX_BUFFER_LINES" for n t ls
    using that by (simp add: append_newlines st trim_small)
  obtain rest where rest: "rest = replicate 4096 [newline] @ replicate 4096 [newline] @ replicate 1808 [newline]"
      "length rest = 10000" by simp
  have "trim 10003 (L # L # L # rest) = trim (- of_nat 2285) rest"
    by (simp add: trim_pop limits rest L(2) del: replicate.simps)
  also have "\<dots> = None" by (rule trim_wrapped_diverges) (simp_all add: rest(1))
  finally have "ob_append (replicate 1808 newline) (st 8195 (L # L # L # replicate 4096 [newline] @ replicate 4096 [newline]) False)
      = None"
    by (simp add: append_newlines st rest)
  then have "ob_append_all [replicate 4096 newline, replicate 4096 newline, replicate 1808 newline] (st 3 [L, L, L] False) = None"
    by (simp add: nl limits del: replicate.simps)
  then show ?thesis
    using ob_append_all_append [of "[[97], long_line_tail, [97], long_line_tail, [97], long_line_tail]"
        "[replicate 4096 newline, replicate 4096 newline, replicate 1808 newline]" ob_new]
    by (simp add: hanging_chunks_def pairs del: ob_append_all.simps replicate.simps)
qed

end
