(* ===== verification/Terminal_Helper.thy ===== *)
theory Terminal_Helper
  imports Bytes_Codec
begin

text \<open>
  The message protocol between the terminal service and the helper process that owns the pseudo
  terminal on Windows (\<open>src/server/terminal_helper.rs\<close>): the encoders of the service, and the
  input thread of the helper with its exact reads from the pipe. A pipe is the list of what its
  \<open>read\<close> calls meet: bytes that have arrived together, an interrupted call or an error; the end of
  the list is the end of file. A read takes at most the bytes asked for and leaves the rest.
\<close>

definition MSG_TYPE_DATA :: u8 where "MSG_TYPE_DATA = 1"
definition MSG_TYPE_RESIZE :: u8 where "MSG_TYPE_RESIZE = 2"
definition MSG_HEADER_SIZE :: nat where "MSG_HEADER_SIZE = 5"
definition MAX_PAYLOAD_SIZE :: nat where "MAX_PAYLOAD_SIZE = 16 * 1024 * 1024"

section \<open>Encoding\<close>

definition encode_helper_message :: "u8 \<Rightarrow> bytes \<Rightarrow> bytes" where
  "encode_helper_message msg_type payload = [msg_type] @ put_u32_le (of_nat (length payload)) @ payload"

definition encode_resize_message :: "u16 \<Rightarrow> u16 \<Rightarrow> bytes" where
  "encode_resize_message rows cols = encode_helper_message MSG_TYPE_RESIZE (put_u16_le rows @ put_u16_le cols)"

section \<open>Reading\<close>

datatype pipe_event = Arrived bytes | Interrupted | ReadError string

text \<open>\<open>Inr None\<close> is \<open>Ok(false)\<close>; \<open>Inr (Some v)\<close> is \<open>Ok(true)\<close> with the filled buffer.\<close>

fun read_exact_or_eof :: "nat \<Rightarrow> pipe_event list \<Rightarrow> (string + bytes option) \<times> pipe_event list" where
  "read_exact_or_eof 0 pipe = (Inr (Some []), pipe)"
| "read_exact_or_eof (Suc n) [] = (Inr None, [])"
| "read_exact_or_eof (Suc n) (Interrupted # pipe) = read_exact_or_eof (Suc n) pipe"
| "read_exact_or_eof (Suc n) (ReadError e # pipe) = (Inl e, pipe)"
| "read_exact_or_eof (Suc n) (Arrived c # pipe) =
     (if c = [] then (Inr None, pipe)
      else if Suc n < length c then (Inr (Some (take (Suc n) c)), Arrived (drop (Suc n) c) # pipe)
      else case read_exact_or_eof (Suc n - length c) pipe of
             (Inr (Some v), rest) \<Rightarrow> (Inr (Some (c @ v)), rest)
           | r \<Rightarrow> r)"

definition get_u16_le :: "bytes \<Rightarrow> nat \<Rightarrow> u16" where
  "get_u16_le v i = ucast (v ! i) OR push_bit 8 (ucast (v ! (i + 1)))"

definition get_u32_le :: "bytes \<Rightarrow> nat \<Rightarrow> u32" where
  "get_u32_le v i = ucast (v ! i) OR push_bit 8 (ucast (v ! (i + 1))) OR push_bit 16 (ucast (v ! (i + 2)))
     OR push_bit 24 (ucast (v ! (i + 3)))"

text \<open>What the input thread does to the pseudo terminal.\<close>

datatype pty_action = PtyWrite bytes | PtyResize u16 u16

text \<open>
  The input thread. \<open>exiting i\<close> is the flag when the loop tests it for the \<open>i\<close>-th time and
  \<open>write_ok i\<close> the outcome of the write and the flush of that round. The payload buffer is reused;
  the part that is read is always overwritten first.
\<close>

fun pipe_bytes :: "pipe_event list \<Rightarrow> bytes" where
  "pipe_bytes [] = []"
| "pipe_bytes (Arrived c # pipe) = c @ pipe_bytes pipe"
| "pipe_bytes (_ # pipe) = pipe_bytes pipe"

lemma read_exact_bytes:
  "read_exact_or_eof n pipe = (Inr (Some v), rest) \<Longrightarrow>
    length v = n \<and> pipe_bytes pipe = v @ pipe_bytes rest"
proof (induction n pipe arbitrary: v rest rule: read_exact_or_eof.induct)
  case (5 n c pipe)
  consider "c = []" | "Suc n < length c" | "c \<noteq> []" "\<not> Suc n < length c" by blast
  then show ?case
  proof cases
    case 3
    then obtain w where "read_exact_or_eof (Suc n - length c) pipe = (Inr (Some w), rest)" "v = c @ w"
      using "5.prems" by (cases "read_exact_or_eof (Suc n - length c) pipe") (auto split: sum.splits option.splits)
    with "5.IH" [OF 3, of w rest] 3 show ?thesis by simp
  qed (use "5.prems" in \<open>auto split: if_splits\<close>)
qed auto

text \<open>On a pipe without errors a read finds its bytes if they come at all, however they arrive.\<close>

fun pipe_clean :: "pipe_event list \<Rightarrow> bool" where
  "pipe_clean [] \<longleftrightarrow> True"
| "pipe_clean (Arrived c # pipe) \<longleftrightarrow> c \<noteq> [] \<and> pipe_clean pipe"
| "pipe_clean (Interrupted # pipe) \<longleftrightarrow> pipe_clean pipe"
| "pipe_clean (ReadError e # pipe) \<longleftrightarrow> False"

lemma read_exact_clean:
  assumes "pipe_clean pipe" "n \<le> length (pipe_bytes pipe)"
  shows "\<exists>rest. read_exact_or_eof n pipe = (Inr (Some (take n (pipe_bytes pipe))), rest) \<and> pipe_clean rest
    \<and> pipe_bytes rest = drop n (pipe_bytes pipe)"
  using assms
proof (induction n pipe rule: read_exact_or_eof.induct)
  case (5 n c pipe)
  show ?case
  proof (cases "Suc n < length c")
    case True
    then show ?thesis using "5.prems" by auto
  next
    case False
    have h: "c \<noteq> []" "pipe_clean pipe" "Suc n - length c \<le> length (pipe_bytes pipe)" using "5.prems" by auto
    from "5.IH" [OF h(1) False h(2, 3)] obtain rest where
      "read_exact_or_eof (Suc n - length c) pipe = (Inr (Some (take (Suc n - length c) (pipe_bytes pipe))), rest)"
      "pipe_clean rest" "pipe_bytes rest = drop (Suc n - length c) (pipe_bytes pipe)" by blast
    with False h show ?thesis by simp
  qed
qed auto

function input_thread :: "(nat \<Rightarrow> bool) \<Rightarrow> (nat \<Rightarrow> bool) \<Rightarrow> nat \<Rightarrow> pipe_event list \<Rightarrow> pty_action list" where
  "input_thread exiting write_ok i pipe =
     (if exiting i then []
      else case read_exact_or_eof MSG_HEADER_SIZE pipe of
        (Inr (Some header_buf), pipe1) \<Rightarrow>
          (let msg_type = header_buf ! 0;
               payload_len = unat (get_u32_le header_buf 1)
           in if MAX_PAYLOAD_SIZE < payload_len then []
              else case read_exact_or_eof payload_len pipe1 of
                (Inr (Some payload), pipe2) \<Rightarrow>
                  if msg_type = MSG_TYPE_DATA
                  then PtyWrite payload # (if write_ok i then input_thread exiting write_ok (Suc i) pipe2 else [])
                  else if msg_type = MSG_TYPE_RESIZE
                  then (if 4 \<le> payload_len then [PtyResize (get_u16_le payload 0) (get_u16_le payload 2)] else [])
                       @ input_thread exiting write_ok (Suc i) pipe2
                  else []
              | _ \<Rightarrow> [])
      | _ \<Rightarrow> [])"
  by pat_completeness auto
termination
proof (relation "measure (\<lambda>(_, _, _, pipe). length (pipe_bytes pipe))", goal_cases)
  case 1
  then show ?case by simp
next
  case (2 exiting write_ok i pipe r1 p1 x h m n r2 p2 y v)
  then show ?case
    using read_exact_bytes [of MSG_HEADER_SIZE pipe h p1] read_exact_bytes [of n p1 v p2] by (simp add: MSG_HEADER_SIZE_def)
next
  case (3 exiting write_ok i pipe r1 p1 x h m n r2 p2 y v)
  then show ?case
    using read_exact_bytes [of MSG_HEADER_SIZE pipe h p1] read_exact_bytes [of n p1 v p2] by (simp add: MSG_HEADER_SIZE_def)
qed

declare input_thread.simps [simp del]

section \<open>What the service sends\<close>

text \<open>
  The messages of the service: data of any length and sizes. A message fits when its payload is
  within the limit of the helper.
\<close>

datatype helper_message = DataMessage bytes | ResizeMessage u16 u16

fun helper_encode :: "helper_message \<Rightarrow> bytes" where
  "helper_encode (DataMessage v) = encode_helper_message MSG_TYPE_DATA v"
| "helper_encode (ResizeMessage rows cols) = encode_resize_message rows cols"

fun helper_payload :: "helper_message \<Rightarrow> bytes" where
  "helper_payload (DataMessage v) = v"
| "helper_payload (ResizeMessage rows cols) = put_u16_le rows @ put_u16_le cols"

fun helper_type :: "helper_message \<Rightarrow> u8" where
  "helper_type (DataMessage _) = MSG_TYPE_DATA"
| "helper_type (ResizeMessage _ _) = MSG_TYPE_RESIZE"

fun helper_action :: "helper_message \<Rightarrow> pty_action" where
  "helper_action (DataMessage v) = PtyWrite v"
| "helper_action (ResizeMessage rows cols) = PtyResize rows cols"

definition helper_fits :: "helper_message \<Rightarrow> bool" where
  "helper_fits m \<longleftrightarrow> length (helper_payload m) \<le> MAX_PAYLOAD_SIZE"

lemma helper_encode_parts:
  "helper_encode m = helper_type m # put_u32_le (of_nat (length (helper_payload m))) @ helper_payload m"
  by (cases m) (simp_all add: encode_helper_message_def encode_resize_message_def)

lemma join_u16_u16: "ucast (ucast h :: u8) OR push_bit 8 (ucast (ucast (drop_bit 8 h) :: u8)) = (h :: u16)"
  by (rule bit_word_eqI) (auto simp: bit_or_iff bit_push_bit_iff bit_unsigned_iff bit_drop_bit_eq)

lemma join_u32_u32:
  fixes h :: u32
  shows "ucast (ucast h :: u8) OR push_bit 8 (ucast (ucast (drop_bit 8 h) :: u8))
     OR push_bit 16 (ucast (ucast (drop_bit 16 h) :: u8)) OR push_bit 24 (ucast (ucast (drop_bit 24 h) :: u8)) = h" (is "?l = _")
proof (rule bit_word_eqI)
  fix i
  assume "i < LENGTH(32)"
  then consider "i < 8" | "8 \<le> i" "i < 16" | "16 \<le> i" "i < 24" | "24 \<le> i" "i < 32" by fastforce
  then show "bit ?l i = bit h i"
    by cases (auto simp: bit_simps dest: bit_imp_le_length)
qed

lemma get_u32_le_Cons:
  "get_u32_le (b # b0 # b1 # b2 # b3 # v) 1 =
    ucast b0 OR push_bit 8 (ucast b1) OR push_bit 16 (ucast b2) OR push_bit 24 (ucast b3)"
  by (simp add: get_u32_le_def)

lemma get_u16_le_Cons:
  "get_u16_le (b0 # b1 # v) 0 = ucast b0 OR push_bit 8 (ucast b1)"
  "get_u16_le (b0 # b1 # b2 # b3 # v) 2 = ucast b2 OR push_bit 8 (ucast b3)"
  by (simp_all add: get_u16_le_def)

lemma get_put_u32_le: "get_u32_le (b # put_u32_le h @ v) 1 = h"
  unfolding put_u32_le_def append.simps get_u32_le_Cons by (rule join_u32_u32)

lemma get_put_u16_le:
  "get_u16_le (put_u16_le h @ v) 0 = h" "get_u16_le (put_u16_le g @ put_u16_le h) 2 = h"
  unfolding put_u16_le_def append.simps get_u16_le_Cons by (rule join_u16_u16)+

lemma length_put_le [simp]: "length (put_u32_le h) = 4" "length (put_u16_le g) = 2"
  by (simp_all add: put_u32_le_def put_u16_le_def)

text \<open>One round of the input thread.\<close>

lemma input_thread_round:
  assumes "pipe_clean pipe" "pipe_bytes pipe = helper_encode m @ tail_bytes" "length (helper_payload m) < 2 ^ 32" "\<not> exiting i"
  shows "if helper_fits m
    then \<exists>rest. pipe_clean rest \<and> pipe_bytes rest = tail_bytes
      \<and> input_thread exiting (\<lambda>_. True) i pipe = helper_action m # input_thread exiting (\<lambda>_. True) (Suc i) rest
    else input_thread exiting (\<lambda>_. True) i pipe = []"
proof -
  obtain n where n: "n = length (helper_payload m)" by simp
  obtain h where h: "h = helper_type m # put_u32_le (of_nat n)" by simp
  have bytes: "pipe_bytes pipe = h @ helper_payload m @ tail_bytes" using assms(2) by (simp add: helper_encode_parts h n)
  have "unat (of_nat n :: u32) = n" using assms(3) by (simp add: n unat_of_nat take_bit_nat_eq_self)
  moreover have "get_u32_le h 1 = of_nat n" using get_put_u32_le [of "helper_type m" "of_nat n" "[]"] by (simp add: h)
  ultimately have len: "unat (get_u32_le h 1) = n" by simp
  have "length h = MSG_HEADER_SIZE" by (simp add: h MSG_HEADER_SIZE_def)
  then obtain pipe1 where p1: "read_exact_or_eof MSG_HEADER_SIZE pipe = (Inr (Some h), pipe1)" "pipe_clean pipe1"
      "pipe_bytes pipe1 = helper_payload m @ tail_bytes"
    using read_exact_clean [of pipe MSG_HEADER_SIZE] assms(1) by (auto simp: bytes)
  then obtain pipe2 where p2: "read_exact_or_eof n pipe1 = (Inr (Some (helper_payload m)), pipe2)" "pipe_clean pipe2"
      "pipe_bytes pipe2 = tail_bytes"
    using read_exact_clean [of pipe1 n] by (auto simp: n)
  have h0: "h ! 0 = helper_type m" by (simp add: h)
  have step: "input_thread exiting (\<lambda>_. True) i pipe =
      (if MAX_PAYLOAD_SIZE < n then []
       else if helper_type m = MSG_TYPE_DATA
       then PtyWrite (helper_payload m) # input_thread exiting (\<lambda>_. True) (Suc i) pipe2
       else if helper_type m = MSG_TYPE_RESIZE
       then (if 4 \<le> n then [PtyResize (get_u16_le (helper_payload m) 0) (get_u16_le (helper_payload m) 2)] else [])
            @ input_thread exiting (\<lambda>_. True) (Suc i) pipe2
       else [])"
    using assms(4) by (subst input_thread.simps) (simp add: p1 p2 len [unfolded One_nat_def] h0 Let_def)
  show ?thesis
  proof (cases m)
    case (DataMessage v)
    with step p2 show ?thesis by (auto simp: helper_fits_def n)
  next
    case (ResizeMessage r c)
    with step p2 show ?thesis
      by (auto simp: helper_fits_def n MSG_TYPE_DATA_def MSG_TYPE_RESIZE_def MAX_PAYLOAD_SIZE_def get_put_u16_le)
  qed
qed

lemma input_thread_eof: "input_thread exiting write_ok i pipe = []" if "pipe_bytes pipe = []"
proof -
  have "read_exact_or_eof MSG_HEADER_SIZE pipe \<noteq> (Inr (Some v), rest)" for v rest
    using read_exact_bytes [of MSG_HEADER_SIZE pipe v rest] that by (auto simp: MSG_HEADER_SIZE_def)
  then show ?thesis
    by (subst input_thread.simps) (auto split: prod.split sum.split option.split)
qed

lemma input_thread_messages:
  assumes "pipe_clean pipe" "pipe_bytes pipe = concat (map helper_encode ms)"
    and "\<forall>m \<in> set ms. length (helper_payload m) < 2 ^ 32" "i \<le> k"
  shows "input_thread (\<lambda>j. k \<le> j) (\<lambda>_. True) i pipe
    = map helper_action (takeWhile helper_fits (take (k - i) ms))"
  using assms
proof (induction ms arbitrary: i pipe)
  case Nil
  then show ?case by (simp add: input_thread_eof)
next
  case (Cons m ms)
  show ?case
  proof (cases "i = k")
    case True
    then show ?thesis by (simp add: input_thread.simps)
  next
    case False
    then obtain d where d: "k - i = Suc d" "d = k - Suc i" using Cons.prems(4) by (metis Suc_diff_Suc le_neq_implies_less)
    show ?thesis
    proof (cases "helper_fits m")
      case True
      with input_thread_round [of pipe m "concat (map helper_encode ms)" "\<lambda>j. k \<le> j" i] Cons.prems False
      obtain rest where "pipe_clean rest" "pipe_bytes rest = concat (map helper_encode ms)"
        "input_thread (\<lambda>j. k \<le> j) (\<lambda>_. True) i pipe = helper_action m # input_thread (\<lambda>j. k \<le> j) (\<lambda>_. True) (Suc i) rest"
        by auto
      with Cons.IH [of rest "Suc i"] Cons.prems False True d show ?thesis by simp
    next
      case f: False
      with input_thread_round [of pipe m "concat (map helper_encode ms)" "\<lambda>j. k \<le> j" i] Cons.prems False d
      show ?thesis by simp
    qed
  qed
qed

section \<open>Properties\<close>

text \<open>
  The helper does to its terminal what the service sent: however the pipe cuts the encoded
  messages into pieces and interrupts the reads, the input thread performs exactly the data writes and
  resizes of the messages, in order, up to the first message over 16 MB and up to the round in which
  the exit flag is seen.
\<close>

theorem helper_performs_messages:
  assumes "pipe_clean pipe" "pipe_bytes pipe = concat (map helper_encode ms)"
    and "\<forall>m \<in> set ms. length (helper_payload m) < 2 ^ 32"
  shows "input_thread (\<lambda>j. k \<le> j) (\<lambda>_. True) 0 pipe = map helper_action (takeWhile helper_fits (take k ms))"
  using input_thread_messages [OF assms, of 0 k] by simp

theorem helper_performs_messages_witness:
  "input_thread (\<lambda>j. 5 \<le> j) (\<lambda>_. True) 0 [Arrived [1, 2, 0], Interrupted, Arrived [0, 0, 7], Arrived [8, 2, 4, 0, 0, 0, 24, 0, 80, 0]]
     = [PtyWrite [7, 8], PtyResize 24 80]"
proof -
  have "takeWhile helper_fits (take 5 [DataMessage [7, 8], ResizeMessage 24 80]) = [DataMessage [7, 8], ResizeMessage 24 80]"
    by (simp add: helper_fits_def MAX_PAYLOAD_SIZE_def put_u16_le_def)
  moreover have "concat (map helper_encode [DataMessage [7, 8], ResizeMessage 24 80])
      = [1, 2, 0, 0, 0, 7, 8, 2, 4, 0, 0, 0, 24, 0, 80, 0]" by code_simp
  ultimately show ?thesis
    using helper_performs_messages [of "[Arrived [1, 2, 0], Interrupted, Arrived [0, 0, 7], Arrived [8, 2, 4, 0, 0, 0, 24, 0, 80, 0]]"
      "[DataMessage [7, 8], ResizeMessage 24 80]" 5] by (simp add: put_u16_le_def del: helper_encode.simps)
qed

end
