(* ===== verification/Terminal_Service.thy ===== *)
theory Terminal_Service
  imports Output_Buffer Terminal_Helper
begin

text \<open>
  The terminal service (\<open>src/server/terminal_service.rs\<close>): the registry of services that survive a
  dropped connection, their sessions, the handlers of the client's actions, and the poll that streams
  the output. What the operating system answers (opening a pseudo terminal, spawning, resizing,
  killing, exit codes, locks held by another thread) and the compressor are fields of an environment,
  a new one for each call; the reader and writer threads of a session are steps of their own on its
  channels.
\<close>

definition MAX_SERVICES :: nat where "MAX_SERVICES = 100"
definition SERVICE_IDLE_TIMEOUT :: nat where "SERVICE_IDLE_TIMEOUT = 3600"
definition CHANNEL_BUFFER_SIZE :: nat where "CHANNEL_BUFFER_SIZE = 500"
definition COMPRESS_THRESHOLD :: nat where "COMPRESS_THRESHOLD = 512"
definition MAX_SIGWINCH_PHASE_ATTEMPTS :: u8 where "MAX_SIGWINCH_PHASE_ATTEMPTS = 3"

section \<open>Data\<close>

text \<open>Terminal ids are signed: \<open>keys().min()\<close> compares them as \<open>i32\<close>.\<close>

datatype terminal_id = Terminal_Id (tid_word: i32)

instantiation terminal_id :: linorder
begin

definition less_eq_terminal_id :: "terminal_id \<Rightarrow> terminal_id \<Rightarrow> bool" where
  "less_eq_terminal_id a b \<longleftrightarrow> sint (tid_word a) \<le> sint (tid_word b)"

definition less_terminal_id :: "terminal_id \<Rightarrow> terminal_id \<Rightarrow> bool" where
  "less_terminal_id a b \<longleftrightarrow> sint (tid_word a) < sint (tid_word b)"

instance
proof
  fix a b :: terminal_id
  assume "a \<le> b" "b \<le> a"
  then have "sint (tid_word a) = sint (tid_word b)" by (simp add: less_eq_terminal_id_def)
  then have "tid_word a = tid_word b" by (rule signed_word_eqI)
  then show "a = b" by (rule terminal_id.expand)
qed (auto simp: less_eq_terminal_id_def less_terminal_id_def)

end

datatype sigwinch_phase = Idle | TempResize u8 | Restore u8

datatype sigwinch_action = TempResizeAction | RestoreAction

datatype session_state = Closed | Active "bytes option" sigwinch_phase

record pty_size =
  pz_rows :: u16
  pz_cols :: u16

type_synonym child = nat

text \<open>The sending end of the channel to the writer thread, and whether that thread still receives.\<close>

record input_channel =
  ic_queue :: "bytes list"
  ic_receiver :: bool

record terminal_session =
  ss_created_at :: nat
  ss_last_activity :: nat
  ss_pty_pair :: "pty_size option"
  ss_child :: "child option"
  ss_input_tx :: "input_channel option"
  ss_output_rx :: "bytes list option"
  ss_exiting :: bool
  ss_reader_finished :: "bool option"
  ss_writer_thread :: bool
  ss_output_buffer :: output_buffer
  ss_title :: string
  ss_pid :: u32
  ss_rows :: u16
  ss_cols :: u16
  ss_closed_message_sent :: bool
  ss_state :: session_state
  ss_is_helper_mode :: bool
  ss_helper_handle :: "nat option"

record persistent_service =
  ps_service_id :: string
  ps_sessions :: "(terminal_id, terminal_session) hashmap"
  ps_created_at :: nat
  ps_last_activity :: nat
  ps_is_persistent :: bool
  ps_needs_session_sync :: bool
  ps_is_specified_user :: bool

record terminal_registry =
  tr_services :: "(string, persistent_service) hashmap"
  tr_tasks :: "child list"
  tr_cleanup_running :: bool

record service_proxy =
  px_service_id :: string
  px_is_persistent :: bool
  px_user_token :: "nat option"

record service_metadata =
  md_service_id :: string
  md_created_at :: nat
  md_terminal_count :: nat
  md_is_persistent :: bool

record terminal_env =
  te_os :: target_os
  te_now :: nat
  te_openpty :: "string + unit"
  te_spawn :: "string + child"
  te_writer :: "string + unit"
  te_reader :: "string + unit"
  te_process_id :: "u32 option"
  te_named_pipes :: "string + unit"
  te_launch_helper :: "string + (nat \<times> u32)"
  te_pipe_connection :: "string + unit"
  te_helper_running :: bool
  te_resize :: "terminal_id \<Rightarrow> string + unit"
  te_kill :: "child \<Rightarrow> string + unit"
  te_try_wait :: "child \<Rightarrow> string + i32 option"
  te_locked :: "terminal_id \<Rightarrow> bool"
  te_compress :: "bytes \<Rightarrow> bytes"

text \<open>The messages of the protocol (\<open>message.proto\<close>).\<close>

record open_terminal =
  ot_terminal_id :: terminal_id
  ot_rows :: u32
  ot_cols :: u32

record resize_terminal =
  rt_terminal_id :: terminal_id
  rt_rows :: u32
  rt_cols :: u32

record terminal_data =
  td_terminal_id :: terminal_id
  td_data :: bytes
  td_compressed :: bool

record terminal_opened =
  to_terminal_id :: terminal_id
  to_success :: bool
  to_message :: string
  to_pid :: u32
  to_service_id :: string
  to_persistent_sessions :: "terminal_id list"

datatype terminal_action =
    ActionOpen open_terminal
  | ActionData terminal_data
  | ActionResize resize_terminal
  | ActionClose terminal_id
  | ActionNone

datatype terminal_response =
    RespOpened terminal_opened
  | RespData terminal_data
  | RespClosed terminal_id i32
  | RespError string

section \<open>Sessions\<close>

definition session_new :: "nat \<Rightarrow> terminal_id \<Rightarrow> u16 \<Rightarrow> u16 \<Rightarrow> terminal_session" where
  "session_new now tid rows cols =
     \<lparr>ss_created_at = now, ss_last_activity = now, ss_pty_pair = None, ss_child = None, ss_input_tx = None,
      ss_output_rx = None, ss_exiting = False, ss_reader_finished = None, ss_writer_thread = False,
      ss_output_buffer = ob_new,
      ss_title = ''Terminal '' @ (if sint (tid_word tid) < 0 then ''-'' else '''') @ show_nat (nat \<bar>sint (tid_word tid)\<bar>),
      ss_pid = 0, ss_rows = rows, ss_cols = cols, ss_closed_message_sent = False, ss_state = Closed,
      ss_is_helper_mode = False, ss_helper_handle = None\<rparr>"

text \<open>
  A blocking send on a channel of \<open>CHANNEL_BUFFER_SIZE\<close> messages: when it is full, the send returns once
  the writer thread has received the oldest message (a writer that ends instead is one that ended before).
\<close>

definition channel_send :: "bytes \<Rightarrow> input_channel \<Rightarrow> input_channel" where
  "channel_send msg c =
     (if ic_receiver c
      then c\<lparr>ic_queue := drop (Suc (length (ic_queue c)) - CHANNEL_BUFFER_SIZE) (ic_queue c) @ [msg]\<rparr> else c)"

text \<open>
  \<open>stop\<close>: the session, the channel the writer thread drains before it exits, with the final line end,
  and the child that was killed and goes to the reaper.
\<close>

definition final_message :: "target_os \<Rightarrow> terminal_session \<Rightarrow> bytes" where
  "final_message os s =
     (if os = Windows \<and> ss_is_helper_mode s then encode_helper_message MSG_TYPE_DATA [13, 10] else [13, 10])"

definition session_stop :: "target_os \<Rightarrow> terminal_session \<Rightarrow> terminal_session \<times> input_channel option \<times> child list" where
  "session_stop os s =
     (s\<lparr>ss_state := Closed, ss_exiting := True, ss_input_tx := None, ss_output_rx := None,
        ss_helper_handle := (if os = Windows \<and> ss_is_helper_mode s then None else ss_helper_handle s),
        ss_pty_pair := (if os = Windows \<or> os = Linux then None else ss_pty_pair s),
        ss_reader_finished := None, ss_writer_thread := False, ss_child := None\<rparr>,
      map_option (channel_send (final_message os s)) (ss_input_tx s),
      case ss_child s of None \<Rightarrow> [] | Some c \<Rightarrow> [c])"

section \<open>The registry\<close>

definition service_new_persistent :: "nat \<Rightarrow> string \<Rightarrow> bool \<Rightarrow> bool \<Rightarrow> persistent_service" where
  "service_new_persistent now sid is_persistent is_specified_user =
     \<lparr>ps_service_id = sid, ps_sessions = [], ps_created_at = now, ps_last_activity = now,
      ps_is_persistent = is_persistent, ps_needs_session_sync = False, ps_is_specified_user = is_specified_user\<rparr>"

definition reset_status :: "bool \<Rightarrow> persistent_service \<Rightarrow> persistent_service" where
  "reset_status is_persistent svc =
     svc\<lparr>ps_is_persistent := is_persistent, ps_needs_session_sync := True,
         ps_sessions := map (\<lambda>(k, s). (k, s\<lparr>ss_state := Closed\<rparr>)) (ps_sessions svc)\<rparr>"

definition ensure_cleanup_task :: "terminal_registry \<Rightarrow> terminal_registry" where
  "ensure_cleanup_task reg = (if tr_cleanup_running reg then reg else reg\<lparr>tr_cleanup_running := True\<rparr>)"

definition get_or_create_service ::
  "nat \<Rightarrow> string \<Rightarrow> bool \<Rightarrow> bool \<Rightarrow> terminal_registry \<Rightarrow> (string + unit) \<times> terminal_registry" where
  "get_or_create_service now sid is_persistent is_specified_user reg =
     (if \<not> hm_contains (tr_services reg) sid \<and> MAX_SERVICES \<le> length (tr_services reg)
      then (Inl (''Maximum number of terminal services ('' @ show_nat MAX_SERVICES @ '') reached''), reg)
      else let services = (if hm_contains (tr_services reg) sid then tr_services reg
                           else hm_insert sid (service_new_persistent now sid is_persistent is_specified_user)
                                  (tr_services reg));
               reg = ensure_cleanup_task (reg\<lparr>tr_services := services\<rparr>)
           in (Inr (), reg\<lparr>tr_services := hm_modify sid (reset_status is_persistent) (tr_services reg)\<rparr>))"

definition get_service :: "string \<Rightarrow> terminal_registry \<Rightarrow> persistent_service option" where
  "get_service sid reg = hm_get (tr_services reg) sid"

definition is_service_specified_user :: "string \<Rightarrow> terminal_registry \<Rightarrow> bool option" where
  "is_service_specified_user sid reg = map_option ps_is_specified_user (get_service sid reg)"

definition remove_service :: "target_os \<Rightarrow> string \<Rightarrow> terminal_registry \<Rightarrow> terminal_registry" where
  "remove_service os sid reg =
     (case get_service sid reg of
        None \<Rightarrow> reg
      | Some svc \<Rightarrow> reg\<lparr>tr_services := hm_remove sid (tr_services reg),
          tr_tasks := tr_tasks reg @ concat (map (\<lambda>(_, s). snd (snd (session_stop os s))) (ps_sessions svc))\<rparr>)"

definition list_services :: "terminal_registry \<Rightarrow> service_metadata list" where
  "list_services reg = map (\<lambda>(sid, svc). \<lparr>md_service_id = sid, md_created_at = ps_created_at svc,
     md_terminal_count = length (ps_sessions svc), md_is_persistent = ps_is_persistent svc\<rparr>) (tr_services reg)"

definition service_expired :: "nat \<Rightarrow> persistent_service \<Rightarrow> bool" where
  "service_expired now svc \<longleftrightarrow>
     (\<not> ps_is_persistent svc \<and> SERVICE_IDLE_TIMEOUT < now - ps_last_activity svc) \<or>
     (ps_is_persistent svc \<and> ps_sessions svc = [] \<and> SERVICE_IDLE_TIMEOUT * 2 < now - ps_last_activity svc)"

definition cleanup_inactive_services :: "target_os \<Rightarrow> nat \<Rightarrow> terminal_registry \<Rightarrow> terminal_registry" where
  "cleanup_inactive_services os now reg =
     fold (remove_service os) (map fst (filter (\<lambda>(_, svc). service_expired now svc) (tr_services reg))) reg"

definition set_persistent :: "string \<Rightarrow> bool \<Rightarrow> terminal_registry \<Rightarrow> (string + unit) \<times> terminal_registry" where
  "set_persistent sid is_persistent reg =
     (case get_service sid reg of
        Some _ \<Rightarrow> (Inr (), reg\<lparr>tr_services := hm_modify sid (\<lambda>svc. svc\<lparr>ps_is_persistent := is_persistent\<rparr>) (tr_services reg)\<rparr>)
      | None \<Rightarrow> (Inl (''Service '' @ sid @ '' not found''), reg))"

text \<open>\<open>check_zombie_terminals\<close>: a child stays while \<open>try_wait\<close> says it runs.\<close>

fun check_zombie_terminals :: "(child \<Rightarrow> string + i32 option) \<Rightarrow> child list \<Rightarrow> child list" where
  "check_zombie_terminals try_wait [] = []"
| "check_zombie_terminals try_wait (c # cs) =
     (if try_wait c = Inr None then c # check_zombie_terminals try_wait cs else check_zombie_terminals try_wait cs)"

definition get_terminal_session_count :: "bool \<Rightarrow> terminal_registry \<Rightarrow> nat" where
  "get_terminal_session_count include_zombie_tasks reg =
     length (tr_services reg) + (if include_zombie_tasks then length (tr_tasks reg) else 0)"

definition list_terminals :: "persistent_service \<Rightarrow> (terminal_id \<times> string \<times> u32 \<times> nat) list" where
  "list_terminals svc = map (\<lambda>(k, s). (k, ss_title s, ss_pid s, ss_created_at s)) (ps_sessions svc)"

definition get_terminal_buffer :: "terminal_id \<Rightarrow> nat \<Rightarrow> persistent_service \<Rightarrow> bytes option" where
  "get_terminal_buffer tid max_bytes svc =
     map_option (\<lambda>s. get_recent max_bytes (ss_output_buffer s)) (hm_get (ps_sessions svc) tid)"

definition get_terminal_info :: "terminal_id \<Rightarrow> persistent_service \<Rightarrow> (u16 \<times> u16 \<times> bytes) option" where
  "get_terminal_info tid svc =
     map_option (\<lambda>s. (ss_rows s, ss_cols s, get_recent DEFAULT_RECONNECT_BUFFER_BYTES (ss_output_buffer s)))
       (hm_get (ps_sessions svc) tid)"

definition has_active_terminals :: "persistent_service \<Rightarrow> bool" where
  "has_active_terminals svc \<longleftrightarrow> ps_sessions svc \<noteq> []"

section \<open>Handlers\<close>

definition proxy_new :: "string \<Rightarrow> bool option \<Rightarrow> nat option \<Rightarrow> terminal_registry \<Rightarrow> service_proxy" where
  "proxy_new sid is_persistent user_token reg =
     \<lparr>px_service_id = sid,
      px_is_persistent = (case is_persistent of Some p \<Rightarrow> p
        | None \<Rightarrow> (case get_service sid reg of Some svc \<Rightarrow> ps_is_persistent svc | None \<Rightarrow> False)),
      px_user_token = user_token\<rparr>"

text \<open>Moving the surviving session with the lowest id to the id the client asks for.\<close>

definition remap_session :: "terminal_id \<Rightarrow> persistent_service \<Rightarrow> persistent_service" where
  "remap_session tid svc =
     (if \<not> hm_contains (ps_sessions svc) tid \<and> ps_needs_session_sync svc \<and> ps_sessions svc \<noteq> []
      then case iter_min (map fst (ps_sessions svc)) of
             Some lowest_id \<Rightarrow>
               (case hm_get (ps_sessions svc) lowest_id of
                  Some s \<Rightarrow> svc\<lparr>ps_sessions := hm_insert tid s (hm_remove lowest_id (ps_sessions svc))\<rparr>
                | None \<Rightarrow> svc)
           | None \<Rightarrow> svc
      else svc)"

definition reconnect_session :: "terminal_session \<Rightarrow> terminal_session" where
  "reconnect_session s =
     (let buffer = get_recent DEFAULT_RECONNECT_BUFFER_BYTES (ss_output_buffer s)
      in s\<lparr>ss_state := Active (if buffer \<noteq> [] then Some buffer else None) (TempResize MAX_SIGWINCH_PHASE_ATTEMPTS)\<rparr>)"

definition open_existing ::
  "service_proxy \<Rightarrow> terminal_id \<Rightarrow> terminal_session \<Rightarrow> persistent_service \<Rightarrow> terminal_response \<times> persistent_service" where
  "open_existing px tid s svc =
     (RespOpened \<lparr>to_terminal_id = tid, to_success = True, to_message = ''Reconnected to existing terminal'',
        to_pid = ss_pid s, to_service_id = px_service_id px,
        to_persistent_sessions =
          (if ps_needs_session_sync svc \<and> 1 < length (ps_sessions svc)
           then filter (\<lambda>k. k \<noteq> tid) (map fst (ps_sessions svc)) else [])\<rparr>,
      svc\<lparr>ps_sessions := hm_insert tid (reconnect_session s) (ps_sessions svc), ps_needs_session_sync := False\<rparr>)"

text \<open>A new session that is running: the reply and the service with it.\<close>

definition open_started ::
  "terminal_id \<Rightarrow> string \<Rightarrow> terminal_session \<Rightarrow> persistent_service \<Rightarrow> terminal_response \<times> persistent_service" where
  "open_started tid message s svc =
     (RespOpened \<lparr>to_terminal_id = tid, to_success = True, to_message = message, to_pid = ss_pid s,
        to_service_id = ps_service_id svc,
        to_persistent_sessions = (if ps_needs_session_sync svc then map fst (ps_sessions svc) else [])\<rparr>,
      svc\<lparr>ps_sessions := hm_insert tid s (ps_sessions svc), ps_needs_session_sync := False\<rparr>)"

definition streaming_session :: "terminal_session \<Rightarrow> terminal_session" where
  "streaming_session s =
     s\<lparr>ss_input_tx := Some \<lparr>ic_queue = [], ic_receiver = True\<rparr>, ss_output_rx := Some [],
       ss_reader_finished := Some False, ss_writer_thread := True, ss_state := Active None Idle\<rparr>"

definition handle_open_with_helper ::
  "terminal_env \<Rightarrow> service_proxy \<Rightarrow> open_terminal \<Rightarrow> persistent_service
    \<Rightarrow> (string + terminal_response option) \<times> persistent_service" where
  "handle_open_with_helper env px ot svc =
     (let s = session_new (te_now env) (ot_terminal_id ot) (ucast (ot_rows ot)) (ucast (ot_cols ot)) in
      case px_user_token px of
        None \<Rightarrow> (Inl ''user_token is required for helper mode'', svc)
      | Some _ \<Rightarrow>
      case te_named_pipes env of
        Inl e \<Rightarrow> (Inl e, svc)
      | Inr _ \<Rightarrow>
      case te_launch_helper env of
        Inl e \<Rightarrow> (Inl e, svc)
      | Inr (handle, helper_pid) \<Rightarrow>
      case te_pipe_connection env of
        Inl e \<Rightarrow> (Inl e, svc)
      | Inr _ \<Rightarrow>
      if \<not> te_helper_running env
      then (Inl (''Helper process (PID '' @ show_nat (unat helper_pid) @ '') exited unexpectedly after pipe connection''), svc)
      else let s = (streaming_session (s\<lparr>ss_pid := helper_pid\<rparr>))
                     \<lparr>ss_pty_pair := None, ss_child := None, ss_is_helper_mode := True, ss_helper_handle := Some handle\<rparr>;
               (r, svc) = open_started (ot_terminal_id ot) ''Terminal opened (helper mode)'' s svc
           in (Inr (Some r), svc))"

definition handle_open ::
  "terminal_env \<Rightarrow> service_proxy \<Rightarrow> open_terminal \<Rightarrow> persistent_service
    \<Rightarrow> (string + terminal_response option) \<times> persistent_service" where
  "handle_open env px ot svc =
     (let svc = remap_session (ot_terminal_id ot) svc in
      case hm_get (ps_sessions svc) (ot_terminal_id ot) of
        Some s \<Rightarrow> (let (r, svc) = open_existing px (ot_terminal_id ot) s svc in (Inr (Some r), svc))
      | None \<Rightarrow>
      if te_os env = Windows \<and> px_user_token px \<noteq> None then handle_open_with_helper env px ot svc
      else let s = session_new (te_now env) (ot_terminal_id ot) (ucast (ot_rows ot)) (ucast (ot_cols ot)) in
      case te_openpty env of
        Inl e \<Rightarrow> (Inl ''Failed to open PTY'', svc)
      | Inr _ \<Rightarrow>
      case te_spawn env of
        Inl e \<Rightarrow> (Inl ''Failed to spawn command'', svc)
      | Inr child \<Rightarrow>
      case te_writer env of
        Inl e \<Rightarrow> (Inl ''Failed to get writer'', svc)
      | Inr _ \<Rightarrow>
      case te_reader env of
        Inl e \<Rightarrow> (Inl ''Failed to get reader'', svc)
      | Inr _ \<Rightarrow>
        let s = (streaming_session (s\<lparr>ss_pid := (case te_process_id env of Some p \<Rightarrow> p | None \<Rightarrow> 0)\<rparr>))
                  \<lparr>ss_pty_pair := Some \<lparr>pz_rows = ucast (ot_rows ot), pz_cols = ucast (ot_cols ot)\<rparr>,
                   ss_child := Some child\<rparr>;
            (r, svc) = open_started (ot_terminal_id ot) ''Terminal opened'' s svc
        in (Inr (Some r), svc))"

definition resize_pty :: "terminal_env \<Rightarrow> resize_terminal \<Rightarrow> terminal_session \<Rightarrow> string + terminal_session" where
  "resize_pty env rt s =
     (case ss_pty_pair s of
        None \<Rightarrow> Inr s
      | Some _ \<Rightarrow> (case te_resize env (rt_terminal_id rt) of
          Inl e \<Rightarrow> Inl e
        | Inr _ \<Rightarrow> Inr (s\<lparr>ss_pty_pair := Some \<lparr>pz_rows = ucast (rt_rows rt), pz_cols = ucast (rt_cols rt)\<rparr>\<rparr>)))"

definition resize_session :: "terminal_env \<Rightarrow> resize_terminal \<Rightarrow> terminal_session \<Rightarrow> (string + unit) \<times> terminal_session" where
  "resize_session env rt s =
     (let s = s\<lparr>ss_last_activity := te_now env, ss_rows := ucast (rt_rows rt), ss_cols := ucast (rt_cols rt)\<rparr> in
      if te_os env = Windows \<and> ss_is_helper_mode s
      then (Inr (), s\<lparr>ss_input_tx := map_option (channel_send (encode_resize_message (ucast (rt_rows rt)) (ucast (rt_cols rt))))
                                       (ss_input_tx s)\<rparr>)
      else case resize_pty env rt s of Inl e \<Rightarrow> (Inl e, s) | Inr s \<Rightarrow> (Inr (), s))"

definition handle_resize ::
  "terminal_env \<Rightarrow> resize_terminal \<Rightarrow> persistent_service \<Rightarrow> (string + terminal_response option) \<times> persistent_service" where
  "handle_resize env rt svc =
     (case hm_get (ps_sessions svc) (rt_terminal_id rt) of
        None \<Rightarrow> (Inr None, svc)
      | Some s \<Rightarrow> (let (r, s) = resize_session env rt s;
                     svc = svc\<lparr>ps_sessions := hm_insert (rt_terminal_id rt) s (ps_sessions svc)\<rparr>
                 in (case r of Inl e \<Rightarrow> Inl e | Inr _ \<Rightarrow> Inr None, svc)))"

definition data_session :: "terminal_env \<Rightarrow> bytes \<Rightarrow> terminal_session \<Rightarrow> terminal_session" where
  "data_session env v s =
     (let msg = (if te_os env = Windows \<and> ss_is_helper_mode s then encode_helper_message MSG_TYPE_DATA v else v)
      in s\<lparr>ss_last_activity := te_now env, ss_input_tx := map_option (channel_send msg) (ss_input_tx s)\<rparr>)"

definition handle_data ::
  "terminal_env \<Rightarrow> terminal_data \<Rightarrow> persistent_service \<Rightarrow> (string + terminal_response option) \<times> persistent_service" where
  "handle_data env td svc =
     (Inr None, svc\<lparr>ps_sessions := hm_modify (td_terminal_id td) (data_session env (td_data td)) (ps_sessions svc)\<rparr>)"

text \<open>The third component is what goes to the reaper.\<close>

definition handle_close ::
  "terminal_env \<Rightarrow> terminal_id \<Rightarrow> persistent_service
    \<Rightarrow> (string + terminal_response option) \<times> persistent_service \<times> child list" where
  "handle_close env tid svc =
     (case hm_get (ps_sessions svc) tid of
        None \<Rightarrow> (Inr None, svc, [])
      | Some s \<Rightarrow>
          (let svc = svc\<lparr>ps_sessions := hm_remove tid (ps_sessions svc)\<rparr> in
           case ss_child s of
             Some child \<Rightarrow> (case te_kill env child of
                 Inl e \<Rightarrow> (Inl e, svc, [])
               | Inr _ \<Rightarrow> (Inr (Some (RespClosed tid (- 1))), svc, [child]))
           | None \<Rightarrow> (Inr (Some (RespClosed tid 0)), svc, [])))"

definition dispatch_action ::
  "terminal_env \<Rightarrow> service_proxy \<Rightarrow> terminal_action \<Rightarrow> persistent_service
    \<Rightarrow> (string + terminal_response option) \<times> persistent_service \<times> child list" where
  "dispatch_action env px action svc =
     (case action of
        ActionOpen ot \<Rightarrow> (let (r, svc) = handle_open env px ot svc in (r, svc, []))
      | ActionResize rt \<Rightarrow> (let (r, svc) = handle_resize env rt svc in (r, svc, []))
      | ActionData td \<Rightarrow> (let (r, svc) = handle_data env td svc in (r, svc, []))
      | ActionClose tid \<Rightarrow> handle_close env tid svc
      | ActionNone \<Rightarrow> (Inr None, svc, []))"

definition handle_action ::
  "terminal_env \<Rightarrow> service_proxy \<Rightarrow> terminal_action \<Rightarrow> terminal_registry
    \<Rightarrow> (string + terminal_response option) \<times> terminal_registry" where
  "handle_action env px action reg =
     (case get_service (px_service_id px) reg of
        None \<Rightarrow> (Inr (Some (RespError (''Terminal service '' @ px_service_id px @ '' not found''))), reg)
      | Some svc \<Rightarrow>
          (let (r, svc, reaped) = dispatch_action env px action (svc\<lparr>ps_last_activity := te_now env\<rparr>)
           in (r, reg\<lparr>tr_services := hm_insert (px_service_id px) svc (tr_services reg), tr_tasks := tr_tasks reg @ reaped\<rparr>)))"

section \<open>Polling\<close>

fun sigwinch_target :: "sigwinch_action \<Rightarrow> u16 \<Rightarrow> u16" where
  "sigwinch_target TempResizeAction rows =
     (if 2 < rows then (if rows < 1 then 0 else rows - 1) else (if rows = - 1 then - 1 else rows + 1))"
| "sigwinch_target RestoreAction rows = rows"

definition do_sigwinch_resize ::
  "terminal_env \<Rightarrow> terminal_id \<Rightarrow> sigwinch_action \<Rightarrow> terminal_session \<Rightarrow> bool \<times> terminal_session" where
  "do_sigwinch_resize env tid action s =
     (if ss_rows s = 0 \<or> ss_cols s = 0 then (False, s)
      else let target_rows = sigwinch_target action (ss_rows s) in
        if te_os env = Windows \<and> ss_is_helper_mode s
        then case ss_input_tx s of
               None \<Rightarrow> (False, s)
             | Some tx \<Rightarrow>
                 if ic_receiver tx \<and> length (ic_queue tx) < CHANNEL_BUFFER_SIZE
                 then (True, s\<lparr>ss_input_tx := Some (channel_send (encode_resize_message target_rows (ss_cols s)) tx)\<rparr>)
                 else (False, s)
        else case ss_pty_pair s of
               None \<Rightarrow> (False, s)
             | Some _ \<Rightarrow> (case te_resize env tid of
                 Inl e \<Rightarrow> (False, s)
               | Inr _ \<Rightarrow> (True, s\<lparr>ss_pty_pair := Some \<lparr>pz_rows = target_rows, pz_cols = ss_cols s\<rparr>\<rparr>)))"

definition create_terminal_data_response :: "(bytes \<Rightarrow> bytes) \<Rightarrow> terminal_id \<Rightarrow> bytes \<Rightarrow> terminal_response" where
  "create_terminal_data_response compress tid v =
     RespData (if COMPRESS_THRESHOLD < length v \<and> length (compress v) < length v
               then \<lparr>td_terminal_id = tid, td_data = compress v, td_compressed = True\<rparr>
               else \<lparr>td_terminal_id = tid, td_data = v, td_compressed = False\<rparr>)"

text \<open>One round of the two phases: the phase after counting the attempt, and the resize to do.\<close>

fun poll_sigwinch :: "sigwinch_phase \<Rightarrow> sigwinch_phase \<times> sigwinch_action option" where
  "poll_sigwinch (TempResize retries) =
     (if retries = 0 then (Idle, None) else (TempResize (retries - 1), Some TempResizeAction))"
| "poll_sigwinch (Restore retries) =
     (if retries = 0 then (Idle, None) else (Restore (retries - 1), Some RestoreAction))"
| "poll_sigwinch Idle = (Idle, None)"

fun after_sigwinch :: "sigwinch_action \<Rightarrow> bool \<Rightarrow> sigwinch_phase \<Rightarrow> sigwinch_phase" where
  "after_sigwinch TempResizeAction resize_ok phase = (if resize_ok then Restore MAX_SIGWINCH_PHASE_ATTEMPTS else phase)"
| "after_sigwinch RestoreAction resize_ok phase = (if resize_ok then Idle else phase)"

definition step_sigwinch :: "terminal_env \<Rightarrow> terminal_id \<Rightarrow> sigwinch_phase \<Rightarrow> terminal_session \<Rightarrow> terminal_session" where
  "step_sigwinch env tid phase s =
     (let (phase, action) = poll_sigwinch phase in
      case action of
        None \<Rightarrow> s\<lparr>ss_state := Active None phase\<rparr>
      | Some a \<Rightarrow> (let (resize_ok, s) = do_sigwinch_resize env tid a s
                 in s\<lparr>ss_state := Active None (after_sigwinch a resize_ok phase)\<rparr>))"

text \<open>Draining the channel into the buffer; \<open>None\<close> when an append does not return.\<close>

definition drain_session :: "nat \<Rightarrow> terminal_session \<Rightarrow> (terminal_session \<times> bytes list) option" where
  "drain_session now s =
     (let received_data = (case ss_output_rx s of None \<Rightarrow> [] | Some q \<Rightarrow> q);
          s = s\<lparr>ss_output_rx := map_option (\<lambda>_. []) (ss_output_rx s)\<rparr>;
          s = (if received_data \<noteq> [] then s\<lparr>ss_last_activity := now\<rparr> else s)
      in map_option (\<lambda>b. (s\<lparr>ss_output_buffer := b\<rparr>, received_data)) (ob_append_all received_data (ss_output_buffer s)))"

text \<open>Noticing once that the reader thread has ended.\<close>

definition note_finished :: "terminal_session \<Rightarrow> terminal_session \<times> bool" where
  "note_finished s =
     (if \<not> ss_closed_message_sent s \<and> ss_reader_finished s = Some True
      then (s\<lparr>ss_closed_message_sent := True\<rparr>, True) else (s, False))"

text \<open>What an active session sends: the pending replay, then what was received.\<close>

definition stream_session ::
  "terminal_env \<Rightarrow> terminal_id \<Rightarrow> bytes list \<Rightarrow> terminal_session \<Rightarrow> terminal_session \<times> terminal_response list" where
  "stream_session env tid received_data s =
     (case ss_state s of
        Closed \<Rightarrow> (s, [])
      | Active pending_buffer sigwinch \<Rightarrow>
          (let respond = create_terminal_data_response (te_compress env) tid;
               replay = (case pending_buffer of Some v \<Rightarrow> if v \<noteq> [] then [respond v] else [] | None \<Rightarrow> [])
           in (step_sigwinch env tid sigwinch s, replay @ map respond received_data)))"

text \<open>One session of a poll: the session, its responses and whether its reader was found finished.\<close>

definition read_session ::
  "terminal_env \<Rightarrow> terminal_id \<Rightarrow> terminal_session \<Rightarrow> (terminal_session \<times> terminal_response list \<times> bool) option" where
  "read_session env tid s =
     (let (s, should_send_closed) = note_finished s in
      case drain_session (te_now env) s of
        None \<Rightarrow> None
      | Some (s, received_data) \<Rightarrow>
          (let (s, responses) = stream_session env tid received_data s in Some (s, responses, should_send_closed)))"

fun read_sessions ::
  "terminal_env \<Rightarrow> (terminal_id \<times> terminal_session) list
    \<Rightarrow> ((terminal_id \<times> terminal_session) list \<times> terminal_response list \<times> terminal_id list) option" where
  "read_sessions env [] = Some ([], [], [])"
| "read_sessions env ((tid, s) # rest) =
     (case (if te_locked env tid then Some (s, [], False) else read_session env tid s) of
        None \<Rightarrow> None
      | Some (s', rs, closed) \<Rightarrow>
          (case read_sessions env rest of
             None \<Rightarrow> None
           | Some (rest', rs', cs) \<Rightarrow> Some ((tid, s') # rest', rs @ rs', (if closed then [tid] else []) @ cs)))"

definition child_exit_code :: "terminal_env \<Rightarrow> child option \<Rightarrow> i32" where
  "child_exit_code env c = (case c of None \<Rightarrow> 0 | Some c \<Rightarrow> (case te_try_wait env c of Inr (Some code) \<Rightarrow> code | _ \<Rightarrow> 0))"

text \<open>Reporting the finished terminals: a non-persistent service drops the session, a persistent one its child.\<close>

fun close_finished ::
  "terminal_env \<Rightarrow> bool \<Rightarrow> terminal_id list \<Rightarrow> (terminal_id, terminal_session) hashmap
    \<Rightarrow> (terminal_id, terminal_session) hashmap \<times> terminal_response list \<times> child list" where
  "close_finished env is_persistent [] sessions = (sessions, [], [])"
| "close_finished env is_persistent (tid # tids) sessions =
     (let child = (case hm_get sessions tid of None \<Rightarrow> None | Some s \<Rightarrow> ss_child s);
          sessions = (if is_persistent then hm_modify tid (\<lambda>s. s\<lparr>ss_child := None\<rparr>) sessions else hm_remove tid sessions);
          (sessions, rs, reaped) = close_finished env is_persistent tids sessions
      in (sessions, RespClosed tid (child_exit_code env child) # rs,
          (case child of None \<Rightarrow> [] | Some c \<Rightarrow> [c]) @ reaped))"

definition read_outputs ::
  "terminal_env \<Rightarrow> service_proxy \<Rightarrow> terminal_registry \<Rightarrow> (terminal_registry \<times> terminal_response list) option" where
  "read_outputs env px reg =
     (case get_service (px_service_id px) reg of
        None \<Rightarrow> Some (reg, [])
      | Some svc \<Rightarrow>
          (case read_sessions env (ps_sessions svc) of
             None \<Rightarrow> None
           | Some (sessions, rs, closed_terminals) \<Rightarrow>
               (let (sessions, rs', reaped) = close_finished env (px_is_persistent px) closed_terminals sessions
                in Some (reg\<lparr>tr_services := hm_insert (px_service_id px) (svc\<lparr>ps_sessions := sessions\<rparr>) (tr_services reg),
                             tr_tasks := tr_tasks reg @ reaped\<rparr>, rs @ rs'))))"

definition on_disconnect :: "target_os \<Rightarrow> service_proxy \<Rightarrow> terminal_registry \<Rightarrow> terminal_registry" where
  "on_disconnect os px reg = (if px_is_persistent px then reg else remove_service os (px_service_id px) reg)"

text \<open>A round of the service thread and what it does after its loop.\<close>

definition run_round ::
  "terminal_env \<Rightarrow> string \<Rightarrow> nat option \<Rightarrow> terminal_registry \<Rightarrow> (terminal_registry \<times> terminal_response list) option" where
  "run_round env sid user_token reg = read_outputs env (proxy_new sid None user_token reg) reg"

definition run_end :: "target_os \<Rightarrow> string \<Rightarrow> terminal_registry \<Rightarrow> terminal_registry" where
  "run_end os sid reg =
     (case get_service sid reg of
        Some svc \<Rightarrow> if \<not> ps_is_persistent svc then remove_service os sid reg else reg
      | None \<Rightarrow> reg)"

text \<open>The reader thread of a session: output that arrives is dropped when the channel is full.\<close>

definition reader_output :: "bytes \<Rightarrow> terminal_session \<Rightarrow> terminal_session" where
  "reader_output v s =
     (case (ss_reader_finished s, ss_output_rx s) of
        (Some False, Some q) \<Rightarrow>
          if ss_exiting s then s\<lparr>ss_reader_finished := Some True\<rparr>
          else if length q < CHANNEL_BUFFER_SIZE then s\<lparr>ss_output_rx := Some (q @ [v])\<rparr> else s
      | (Some False, None) \<Rightarrow> s\<lparr>ss_reader_finished := Some True\<rparr>
      | _ \<Rightarrow> s)"

end
