(* ===== verification/Terminal_Sessions.thy ===== *)
theory Terminal_Sessions
  imports Terminal_Service
begin

text \<open>
  The properties of the terminal service: the reachable registries, reconnection, replay before live
  output, and the redraw sequence.
\<close>

section \<open>The registry as a transition system\<close>

text \<open>
  The steps: what connections, the service threads, the cleanup thread and the reader and writer
  threads of the sessions do. An environment step on a session is one of its threads.
\<close>

inductive session_thread_step :: "terminal_session \<Rightarrow> terminal_session \<Rightarrow> bool" where
  reader_reads: "session_thread_step s (reader_output v s)"
| reader_ends: "ss_reader_finished s = Some False \<Longrightarrow> session_thread_step s (s\<lparr>ss_reader_finished := Some True\<rparr>)"
| writer_takes: "ss_input_tx s = Some c \<Longrightarrow> ic_queue c = m # ms \<Longrightarrow>
    session_thread_step s (s\<lparr>ss_input_tx := Some (c\<lparr>ic_queue := ms\<rparr>)\<rparr>)"
| writer_ends: "ss_input_tx s = Some c \<Longrightarrow>
    session_thread_step s (s\<lparr>ss_input_tx := Some (c\<lparr>ic_receiver := False\<rparr>), ss_writer_thread := False\<rparr>)"

inductive terminal_step :: "terminal_registry \<Rightarrow> terminal_registry \<Rightarrow> bool" where
  step_create: "terminal_step reg (snd (get_or_create_service now sid persistent specified reg))"
| step_action: "terminal_step reg (snd (handle_action env px action reg))"
| step_round: "run_round env sid token reg = Some (reg', rs) \<Longrightarrow> terminal_step reg reg'"
| step_run_end: "terminal_step reg (run_end os sid reg)"
| step_disconnect: "terminal_step reg (on_disconnect os px reg)"
| step_cleanup: "terminal_step reg (cleanup_inactive_services os now reg)"
| step_set_persistent: "terminal_step reg (snd (set_persistent sid persistent reg))"
| step_zombies: "terminal_step reg (reg\<lparr>tr_tasks := check_zombie_terminals try_wait (tr_tasks reg)\<rparr>)"
| step_session_thread: "get_service sid reg = Some svc \<Longrightarrow> hm_get (ps_sessions svc) tid = Some s \<Longrightarrow>
    session_thread_step s s' \<Longrightarrow>
    terminal_step reg (reg\<lparr>tr_services := hm_insert sid (svc\<lparr>ps_sessions := hm_insert tid s' (ps_sessions svc)\<rparr>) (tr_services reg)\<rparr>)"

definition registry_empty :: terminal_registry where
  "registry_empty = \<lparr>tr_services = [], tr_tasks = [], tr_cleanup_running = False\<rparr>"

section \<open>The invariant\<close>

fun phase_ok :: "sigwinch_phase \<Rightarrow> bool" where
  "phase_ok Idle \<longleftrightarrow> True"
| "phase_ok (TempResize r) \<longleftrightarrow> r \<le> MAX_SIGWINCH_PHASE_ATTEMPTS"
| "phase_ok (Restore r) \<longleftrightarrow> r \<le> MAX_SIGWINCH_PHASE_ATTEMPTS"

fun state_ok :: "session_state \<Rightarrow> bool" where
  "state_ok Closed \<longleftrightarrow> True"
| "state_ok (Active p phase) \<longleftrightarrow>
     phase_ok phase \<and> (case p of None \<Rightarrow> True | Some v \<Rightarrow> length v \<le> DEFAULT_RECONNECT_BUFFER_BYTES \<and> v \<noteq> [])"

definition session_ok :: "terminal_session \<Rightarrow> bool" where
  "session_ok s \<longleftrightarrow> state_ok (ss_state s)
     \<and> (case ss_output_rx s of None \<Rightarrow> True | Some q \<Rightarrow> length q \<le> CHANNEL_BUFFER_SIZE)
     \<and> (case ss_input_tx s of None \<Rightarrow> True | Some c \<Rightarrow> length (ic_queue c) \<le> CHANNEL_BUFFER_SIZE)
     \<and> (ss_is_helper_mode s \<longrightarrow> ss_pty_pair s = None \<and> ss_child s = None)"

lemma channel_send_bounded [simp]:
  assumes "length (ic_queue c) \<le> CHANNEL_BUFFER_SIZE"
  shows "length (ic_queue (channel_send msg c)) \<le> CHANNEL_BUFFER_SIZE"
proof -
  have "n - (Suc n - CHANNEL_BUFFER_SIZE) + 1 \<le> CHANNEL_BUFFER_SIZE" if "n \<le> CHANNEL_BUFFER_SIZE" for n
    using that unfolding CHANNEL_BUFFER_SIZE_def by linarith
  from this [OF assms] assms show ?thesis by (simp add: channel_send_def)
qed

definition service_ok :: "persistent_service \<Rightarrow> bool" where
  "service_ok svc \<longleftrightarrow> hm_wf (ps_sessions svc) \<and> hm_all session_ok (ps_sessions svc)"

definition registry_ok :: "terminal_registry \<Rightarrow> bool" where
  "registry_ok reg \<longleftrightarrow> hm_wf (tr_services reg) \<and> length (tr_services reg) \<le> MAX_SERVICES
     \<and> hm_all service_ok (tr_services reg)
     \<and> (\<forall>sid svc. get_service sid reg = Some svc \<longrightarrow> ps_service_id svc = sid)"

lemma length_hm_insert: "length (hm_insert k v m) = (if hm_contains m k then length m else Suc (length m))"
  by (induction m) (auto simp: hm_contains_def)

lemma length_hm_remove: "length (hm_remove k m) \<le> length m"
  by (rule length_delete_le)

lemma length_hm_modify [simp]: "length (hm_modify k f m) = length m"
  by (auto simp: hm_modify_def length_hm_insert hm_contains_def split: option.split)

lemma registry_okI:
  assumes "hm_wf (tr_services reg)" "length (tr_services reg) \<le> MAX_SERVICES" "hm_all service_ok (tr_services reg)"
    and "\<And>sid svc. get_service sid reg = Some svc \<Longrightarrow> ps_service_id svc = sid"
  shows "registry_ok reg"
  using assms by (simp add: registry_ok_def)

lemma registry_ok_service: "registry_ok reg \<Longrightarrow> get_service sid reg = Some svc \<Longrightarrow> service_ok svc \<and> ps_service_id svc = sid"
  by (auto simp: registry_ok_def get_service_def intro: hm_all_get)

text \<open>Putting a service back under its id keeps the invariant.\<close>

lemma registry_ok_put:
  assumes "registry_ok reg" "get_service sid reg \<noteq> None" "service_ok svc" "ps_service_id svc = sid"
  shows "registry_ok (reg\<lparr>tr_services := hm_insert sid svc (tr_services reg), tr_tasks := ts\<rparr>)"
    "registry_ok (reg\<lparr>tr_services := hm_insert sid svc (tr_services reg)\<rparr>)"
  using assms by (auto simp: registry_ok_def get_service_def length_hm_insert hm_contains_def hm_all_insert)

lemma registry_ok_remove: "registry_ok reg \<Longrightarrow> registry_ok (remove_service os sid reg)"
  using length_hm_remove [of sid "tr_services reg"]
  by (auto simp: remove_service_def registry_ok_def get_service_def hm_all_remove split: option.split if_splits)

lemma registry_ok_cleanup: "registry_ok reg \<Longrightarrow> registry_ok (cleanup_inactive_services os now reg)"
proof -
  have "registry_ok r \<Longrightarrow> registry_ok (fold (remove_service os) ids r)" for ids r
    by (induction ids arbitrary: r) (simp_all add: registry_ok_remove)
  then show "registry_ok reg \<Longrightarrow> registry_ok (cleanup_inactive_services os now reg)"
    by (simp add: cleanup_inactive_services_def)
qed

lemma service_ok_put: "service_ok svc \<Longrightarrow> session_ok s \<Longrightarrow> service_ok (svc\<lparr>ps_sessions := hm_insert k s (ps_sessions svc)\<rparr>)"
  by (simp add: service_ok_def hm_all_insert)

lemma service_ok_drop: "service_ok svc \<Longrightarrow> service_ok (svc\<lparr>ps_sessions := hm_remove k (ps_sessions svc)\<rparr>)"
  by (simp add: service_ok_def hm_all_remove)

lemma service_ok_fields [simp]:
  "service_ok (svc\<lparr>ps_needs_session_sync := b\<rparr>) = service_ok svc"
  "service_ok (svc\<lparr>ps_last_activity := n\<rparr>) = service_ok svc"
  "service_ok (svc\<lparr>ps_is_persistent := p\<rparr>) = service_ok svc"
  by (simp_all add: service_ok_def)

lemma service_ok_get: "service_ok svc \<Longrightarrow> hm_get (ps_sessions svc) k = Some s \<Longrightarrow> session_ok s"
  by (auto simp: service_ok_def intro: hm_all_get)

lemma service_ok_new: "service_ok (service_new_persistent now sid p q)"
  by (simp add: service_ok_def service_new_persistent_def)

lemma service_ok_reset: "service_ok svc \<Longrightarrow> service_ok (reset_status p svc)"
  unfolding service_ok_def reset_status_def hm_wf_def hm_all_def
  by (auto simp: comp_def case_prod_unfold session_ok_def)

lemma registry_ok_create:
  assumes "registry_ok reg"
  shows "registry_ok (snd (get_or_create_service now sid p q reg))"
proof (cases "\<not> hm_contains (tr_services reg) sid \<and> MAX_SERVICES \<le> length (tr_services reg)")
  case True
  then show ?thesis using assms by (simp add: get_or_create_service_def)
next
  case False
  obtain ss where ss: "ss = (if hm_contains (tr_services reg) sid then tr_services reg
      else hm_insert sid (service_new_persistent now sid p q) (tr_services reg))" by simp
  have "tr_services (snd (get_or_create_service now sid p q reg)) = hm_modify sid (reset_status p) ss"
    unfolding get_or_create_service_def if_not_P [OF False] Let_def ss [symmetric]
    by (simp add: ensure_cleanup_task_def)
  moreover have "hm_wf ss" "length ss \<le> MAX_SERVICES" "hm_all service_ok ss"
    using assms False by (auto simp: ss registry_ok_def length_hm_insert hm_all_insert service_ok_new)
  moreover have "hm_get ss i = Some v \<Longrightarrow> ps_service_id v = i" for i v
    using assms by (auto simp: ss registry_ok_def get_service_def service_new_persistent_def split: if_splits)
  moreover have "hm_all service_ok (hm_modify sid (reset_status p) ss)"
    by (rule hm_all_modify) (use calculation service_ok_reset in auto)
  ultimately show ?thesis
    by (intro registry_okI) (auto simp: get_service_def reset_status_def split: if_splits)
qed

text \<open>The handlers.\<close>

lemma get_recent_le: "length (get_recent n b) \<le> n"
  using get_recent_suffix [of b n] by blast

lemma session_ok_reconnect: "session_ok s \<Longrightarrow> session_ok (reconnect_session s)"
  using get_recent_le [of DEFAULT_RECONNECT_BUFFER_BYTES "ss_output_buffer s"]
  by (simp add: session_ok_def reconnect_session_def Let_def)

lemma session_ok_new: "session_ok (session_new now tid r c)"
  by (simp add: session_ok_def session_new_def)

lemma session_ok_streaming:
  "session_ok ((streaming_session s)\<lparr>ss_pty_pair := None, ss_child := None, ss_is_helper_mode := True, ss_helper_handle := h\<rparr>)"
  "\<not> ss_is_helper_mode s \<Longrightarrow> session_ok ((streaming_session s)\<lparr>ss_pty_pair := p, ss_child := c\<rparr>)"
  by (simp_all add: session_ok_def streaming_session_def)

lemma service_ok_remap: "service_ok svc \<Longrightarrow> service_ok (remap_session tid svc)"
  by (auto simp: remap_session_def service_ok_def
      intro!: hm_all_insert hm_all_remove intro: hm_all_get split: option.split)

lemma remap_id [simp]: "ps_service_id (remap_session tid svc) = ps_service_id svc"
  by (auto simp: remap_session_def split: option.split)

lemma open_existing_ok:
  "service_ok svc \<Longrightarrow> session_ok s \<Longrightarrow> service_ok (snd (open_existing px tid s svc))"
  by (simp add: open_existing_def service_ok_put session_ok_reconnect)

lemma open_started_ok:
  "service_ok svc \<Longrightarrow> session_ok s \<Longrightarrow> service_ok (snd (open_started tid m s svc))"
  by (simp add: open_started_def service_ok_put)

lemma open_ids [simp]:
  "ps_service_id (snd (open_existing px tid s svc)) = ps_service_id svc"
  "ps_service_id (snd (open_started tid m s svc)) = ps_service_id svc"
  by (simp_all add: open_existing_def open_started_def)

lemma handle_open_with_helper_ok:
  "service_ok svc \<Longrightarrow> service_ok (snd (handle_open_with_helper env px ot svc))
    \<and> ps_service_id (snd (handle_open_with_helper env px ot svc)) = ps_service_id svc"
  unfolding handle_open_with_helper_def Let_def
  by (auto simp: open_started_ok session_ok_streaming case_prod_unfold split: option.split sum.split)

lemma handle_open_ok:
  assumes "service_ok svc"
  shows "service_ok (snd (handle_open env px ot svc)) \<and> ps_service_id (snd (handle_open env px ot svc)) = ps_service_id svc"
proof -
  obtain sv where sv: "sv = remap_session (ot_terminal_id ot) svc" by simp
  with assms have ok: "service_ok sv" "ps_service_id sv = ps_service_id svc" by (simp_all add: service_ok_remap)
  have nh: "\<not> ss_is_helper_mode (session_new n t r c\<lparr>ss_pid := p\<rparr>)" for n t r c p by (simp add: session_new_def)
  show ?thesis
    unfolding handle_open_def Let_def sv [symmetric]
    using ok handle_open_with_helper_ok [OF ok(1), of env px ot] service_ok_get [OF ok(1)]
    by (auto simp: open_existing_ok open_started_ok session_ok_streaming nh case_prod_unfold split: option.split sum.split)
qed

lemma handle_resize_ok:
  assumes "service_ok svc"
  shows "service_ok (snd (handle_resize env rt svc)) \<and> ps_service_id (snd (handle_resize env rt svc)) = ps_service_id svc"
proof (cases "hm_get (ps_sessions svc) (rt_terminal_id rt)")
  case (Some s)
  have "session_ok (snd (resize_session env rt s))"
    using service_ok_get [OF assms Some]
    by (auto simp: resize_session_def resize_pty_def session_ok_def Let_def split: option.split sum.split)
  with Some assms show ?thesis
    by (simp add: handle_resize_def case_prod_unfold Let_def service_ok_put)
qed (use assms in \<open>simp add: handle_resize_def\<close>)

lemma handle_data_ok:
  assumes "service_ok svc"
  shows "service_ok (snd (handle_data env td svc)) \<and> ps_service_id (snd (handle_data env td svc)) = ps_service_id svc"
proof -
  have "session_ok s \<Longrightarrow> session_ok (data_session env v s)" for s v
    by (cases "ss_input_tx s") (simp_all add: session_ok_def data_session_def Let_def)
  then have "hm_all session_ok (hm_modify k (data_session env v) (ps_sessions svc))" for k v
    using assms by (auto simp: service_ok_def intro: hm_all_modify)
  with assms show ?thesis by (simp add: handle_data_def service_ok_def)
qed

lemma handle_close_ok:
  "service_ok svc \<Longrightarrow> service_ok (fst (snd (handle_close env tid svc)))
    \<and> ps_service_id (fst (snd (handle_close env tid svc))) = ps_service_id svc"
  by (auto simp: handle_close_def Let_def service_ok_drop split: option.split sum.split)

lemma registry_ok_action:
  assumes "registry_ok reg"
  shows "registry_ok (snd (handle_action env px action reg))"
proof (cases "get_service (px_service_id px) reg")
  case (Some svc)
  obtain sv where sv: "sv = svc\<lparr>ps_last_activity := te_now env\<rparr>" by simp
  from registry_ok_service [OF assms Some] have ok: "service_ok sv" "ps_service_id sv = px_service_id px"
    by (simp_all add: sv)
  obtain r sv' reaped where out: "dispatch_action env px action sv = (r, sv', reaped)" by (metis prod.exhaust)
  then have "service_ok sv' \<and> ps_service_id sv' = px_service_id px"
    using ok handle_open_ok [OF ok(1), of env px] handle_resize_ok [OF ok(1), of env]
      handle_data_ok [OF ok(1), of env] handle_close_ok [OF ok(1), of env]
    by (cases action) (auto simp: dispatch_action_def case_prod_unfold Let_def prod_eq_iff)
  moreover have "snd (handle_action env px action reg) = reg\<lparr>tr_services := hm_insert (px_service_id px) sv' (tr_services reg),
      tr_tasks := tr_tasks reg @ reaped\<rparr>"
    by (simp add: handle_action_def Some sv [symmetric] out)
  ultimately show ?thesis using registry_ok_put(1) [OF assms] Some by simp
qed (use assms in \<open>simp add: handle_action_def\<close>)

text \<open>The poll.\<close>

lemma poll_sigwinch_ok: "phase_ok p \<Longrightarrow> poll_sigwinch p = (p', a) \<Longrightarrow> phase_ok p'"
  by (cases p) (auto simp: word_le_nat_alt unat_minus_one split: if_splits)

lemma after_sigwinch_ok: "phase_ok p \<Longrightarrow> phase_ok (after_sigwinch a ok p)"
  by (cases a) auto

lemma do_sigwinch_resize_ok:
  "session_ok s \<Longrightarrow> session_ok (snd (do_sigwinch_resize env tid a s))"
  by (auto simp: do_sigwinch_resize_def session_ok_def Let_def split: option.split sum.split)

lemma session_ok_active: "session_ok s \<Longrightarrow> phase_ok p \<Longrightarrow> session_ok (s\<lparr>ss_state := Active None p\<rparr>)"
  by (simp add: session_ok_def)

lemma step_sigwinch_ok:
  assumes "session_ok s" "phase_ok p"
  shows "session_ok (step_sigwinch env tid p s)"
proof -
  obtain p' a where pa: "poll_sigwinch p = (p', a)" by fastforce
  with assms have "phase_ok p'" by (auto intro: poll_sigwinch_ok)
  then show ?thesis using assms pa do_sigwinch_resize_ok [of s env tid]
    by (auto simp: step_sigwinch_def Let_def case_prod_unfold after_sigwinch_ok session_ok_active split: option.split)
qed

lemma drain_session_ok: "session_ok s \<Longrightarrow> drain_session now s = Some (s', v) \<Longrightarrow> session_ok s' \<and> ss_state s' = ss_state s"
  by (auto simp: drain_session_def session_ok_def Let_def split: option.splits if_splits)

lemma read_session_parts:
  assumes "read_session env tid s = Some (s', rs, c)"
  obtains s1 s2 v where "note_finished s = (s1, c)" "drain_session (te_now env) s1 = Some (s2, v)"
    "stream_session env tid v s2 = (s', rs)"
  using assms by (auto simp: read_session_def split: prod.splits option.splits)

lemma read_session_ok:
  assumes "session_ok s" "read_session env tid s = Some (s', rs, c)"
  shows "session_ok s'"
proof -
  from assms(2) obtain s1 s2 v where p: "note_finished s = (s1, c)" "drain_session (te_now env) s1 = Some (s2, v)"
    "stream_session env tid v s2 = (s', rs)" by (rule read_session_parts)
  have "session_ok s1" using assms(1) p(1) by (auto simp: note_finished_def session_ok_def split: if_splits)
  from drain_session_ok [OF this p(2)] have "session_ok s2" by simp
  then have ok2: "session_ok s2" "state_ok (ss_state s2)" by (simp_all add: session_ok_def)
  then show ?thesis using p(3)
    by (cases "ss_state s2") (auto simp: stream_session_def step_sigwinch_ok Let_def)
qed

lemma read_sessions_ok:
  "read_sessions env m = Some (m', rs, cs) \<Longrightarrow> hm_all session_ok m \<Longrightarrow>
    hm_all session_ok m' \<and> map fst m' = map fst m"
proof (induction m arbitrary: m' rs cs)
  case (Cons x m)
  obtain k s where x: "x = (k, s)" by fastforce
  obtain s1 r1 c1 where one: "(if te_locked env k then Some (s, [], False) else read_session env k s) = Some (s1, r1, c1)"
    using Cons.prems(1) x by (auto split: option.splits)
  then obtain m1 rs1 cs1 where rest: "read_sessions env m = Some (m1, rs1, cs1)" "m' = (k, s1) # m1"
    using Cons.prems(1) x by (auto split: option.splits prod.splits)
  have "session_ok s1"
    using one Cons.prems(2) read_session_ok [of s env k s1 r1 c1] by (auto simp: x hm_all_def split: if_splits)
  with Cons.IH [OF rest(1)] Cons.prems(2) rest(2) show ?case by (simp add: x hm_all_def)
qed simp

lemma close_finished_ok:
  "close_finished env p tids m = (m', rs, ch) \<Longrightarrow> hm_wf m \<Longrightarrow> hm_all session_ok m \<Longrightarrow> hm_wf m' \<and> hm_all session_ok m'"
proof (induction tids arbitrary: m m' rs ch)
  case (Cons t tids)
  obtain m1 where m1: "m1 = (if p then hm_modify t (\<lambda>s. s\<lparr>ss_child := None\<rparr>) m else hm_remove t m)" by simp
  have "hm_all session_ok (hm_modify t (\<lambda>s. s\<lparr>ss_child := None\<rparr>) m)"
    by (rule hm_all_modify [OF Cons.prems(3)]) (simp add: session_ok_def)
  then have ok: "hm_wf m1" "hm_all session_ok m1" using Cons.prems by (simp_all add: m1 hm_all_remove)
  obtain rs1 ch1 where "close_finished env p tids m1 = (m', rs1, ch1)"
    using Cons.prems(1) by (auto simp: Let_def m1 [symmetric] split: prod.splits)
  from Cons.IH [OF this ok] show ?case .
qed simp

lemma registry_ok_read_outputs:
  assumes "registry_ok reg" "read_outputs env px reg = Some (reg', rs)"
  shows "registry_ok reg'"
proof (cases "get_service (px_service_id px) reg")
  case None
  with assms show ?thesis by (simp add: read_outputs_def)
next
  case (Some svc)
  from registry_ok_service [OF assms(1) Some] have ok: "service_ok svc" "ps_service_id svc = px_service_id px" by simp_all
  from assms(2) Some obtain m1 rs1 cs where r: "read_sessions env (ps_sessions svc) = Some (m1, rs1, cs)"
    by (auto simp: read_outputs_def split: option.splits)
  from read_sessions_ok [OF r] ok have m1: "hm_wf m1" "hm_all session_ok m1" by (auto simp: service_ok_def hm_wf_def)
  obtain m2 rs2 ch where c: "close_finished env (px_is_persistent px) cs m1 = (m2, rs2, ch)" by (metis prod.exhaust)
  from close_finished_ok [OF c m1] have "service_ok (svc\<lparr>ps_sessions := m2\<rparr>)" by (simp add: service_ok_def)
  with registry_ok_put(1) [OF assms(1), of "px_service_id px" "svc\<lparr>ps_sessions := m2\<rparr>"] Some ok assms(2) r c
  show ?thesis by (auto simp: read_outputs_def)
qed

lemma session_thread_step_ok: "session_thread_step s s' \<Longrightarrow> session_ok s \<Longrightarrow> session_ok s'"
  by (induction rule: session_thread_step.induct)
    (auto simp: reader_output_def session_ok_def split: option.splits bool.splits)

inductive terminal_reachable :: "terminal_registry \<Rightarrow> bool" where
  terminal_start: "terminal_reachable registry_empty"
| terminal_next: "terminal_reachable reg \<Longrightarrow> terminal_step reg reg' \<Longrightarrow> terminal_reachable reg'"

lemma terminal_step_ok: "terminal_step reg reg' \<Longrightarrow> registry_ok reg \<Longrightarrow> registry_ok reg'"
proof (induction rule: terminal_step.induct)
  case (step_round env sid token reg reg' rs)
  then show ?case by (auto simp: run_round_def intro: registry_ok_read_outputs)
next
  case (step_run_end reg os sid)
  then show ?case by (auto simp: run_end_def registry_ok_remove split: option.split)
next
  case (step_set_persistent reg sid p)
  show ?case
  proof (cases "get_service sid reg")
    case (Some svc)
    with step_set_persistent registry_ok_service [OF step_set_persistent Some]
      registry_ok_put(2) [of reg sid "svc\<lparr>ps_is_persistent := p\<rparr>"]
    show ?thesis by (simp add: set_persistent_def hm_modify_def get_service_def)
  qed (use step_set_persistent in \<open>simp add: set_persistent_def\<close>)
next
  case (step_zombies reg try_wait)
  then show ?case by (simp add: registry_ok_def get_service_def)
next
  case (step_session_thread sid reg svc tid s s')
  then have "session_ok s'" using registry_ok_service service_ok_get session_thread_step_ok by blast
  with step_session_thread registry_ok_service [of reg sid svc] show ?case
    by (intro registry_ok_put(2)) (simp_all add: service_ok_put)
qed (simp_all add: registry_ok_create registry_ok_action on_disconnect_def registry_ok_remove registry_ok_cleanup)

lemma terminal_reachable_ok: "terminal_reachable reg \<Longrightarrow> registry_ok reg"
proof (induction rule: terminal_reachable.induct)
  case terminal_start
  then show ?case by (simp add: registry_ok_def registry_empty_def get_service_def)
next
  case (terminal_next reg reg')
  then show ?case by (simp add: terminal_step_ok)
qed

section \<open>Reconnection\<close>

abbreviation session_closed :: "terminal_session \<Rightarrow> terminal_session" where
  "session_closed s \<equiv> s\<lparr>ss_state := Closed\<rparr>"

lemma hm_get_reset: "hm_get (ps_sessions (reset_status p svc)) = map_option session_closed \<circ> hm_get (ps_sessions svc)"
  by (simp add: reset_status_def map_of_map)

lemma reset_keys: "map fst (ps_sessions (reset_status p svc)) = map fst (ps_sessions svc)"
  by (simp add: reset_status_def comp_def case_prod_unfold)

lemma reconnect_closed: "reconnect_session (session_closed s) = reconnect_session s"
  by (simp add: reconnect_session_def Let_def)

lemma hm_wf_keys: "hm_wf m \<longleftrightarrow> distinct (map fst m)"
  by (simp add: hm_wf_def)

lemma dom_keys: "dom (hm_get m) = set (map fst m)"
  by (simp add: dom_map_of_conv_image_fst)

text \<open>The remap, as the choice of the session the client gets.\<close>

definition reconnect_source :: "terminal_id \<Rightarrow> persistent_service \<Rightarrow> terminal_id" where
  "reconnect_source tid svc = (if hm_contains (ps_sessions svc) tid then tid else Min (dom (hm_get (ps_sessions svc))))"

lemma remap_session_source:
  assumes "hm_wf (ps_sessions svc)" "ps_needs_session_sync svc" "ps_sessions svc \<noteq> []"
  shows "\<exists>s. hm_get (ps_sessions svc) (reconnect_source tid svc) = Some s
    \<and> hm_get (ps_sessions (remap_session tid svc)) = (hm_get (ps_sessions svc))(reconnect_source tid svc := None, tid \<mapsto> s)
    \<and> hm_wf (ps_sessions (remap_session tid svc)) \<and> ps_needs_session_sync (remap_session tid svc)"
proof (cases "hm_contains (ps_sessions svc) tid")
  case True
  then obtain s where "hm_get (ps_sessions svc) tid = Some s" by (auto simp: hm_contains_def)
  with True assms show ?thesis by (auto simp: remap_session_def reconnect_source_def fun_upd_idem)
next
  case False
  obtain low where low: "low = Min (dom (hm_get (ps_sessions svc)))" by simp
  have ne: "dom (hm_get (ps_sessions svc)) \<noteq> {}" using assms(3) by (simp add: dom_keys)
  have "low \<in> dom (hm_get (ps_sessions svc))" unfolding low by (rule Min_in [OF finite_dom_map_of ne])
  then obtain s where s: "hm_get (ps_sessions svc) low = Some s" by blast
  have "iter_min (map fst (ps_sessions svc)) = Some low"
    using assms(3) iter_min_eq [of "map fst (ps_sessions svc)"] by (simp add: low dom_keys)
  then have "remap_session tid svc = svc\<lparr>ps_sessions := hm_insert tid s (hm_remove low (ps_sessions svc))\<rparr>"
    using False assms s by (simp add: remap_session_def)
  with False s assms show ?thesis by (simp add: reconnect_source_def low)
qed

lemma get_or_create_existing:
  assumes "get_service sid reg = Some svc"
  shows "fst (get_or_create_service now sid p q reg) = Inr ()"
    "get_service sid (snd (get_or_create_service now sid p q reg)) = Some (reset_status p svc)"
  using assms by (simp_all add: get_or_create_service_def get_service_def hm_contains_def ensure_cleanup_task_def Let_def)

lemma handle_open_existing:
  assumes "hm_get (ps_sessions (remap_session (ot_terminal_id ot) svc)) (ot_terminal_id ot) = Some s"
  shows "handle_open env px ot svc =
    (let (r, svc) = open_existing px (ot_terminal_id ot) s (remap_session (ot_terminal_id ot) svc) in (Inr (Some r), svc))"
  using assms by (simp add: handle_open_def Let_def)

lemma reconnect_open:
  assumes "hm_wf (ps_sessions svc)" "ps_needs_session_sync svc" "ps_sessions svc \<noteq> []"
  shows "\<exists>s opn svc'. hm_get (ps_sessions svc) (reconnect_source (ot_terminal_id ot) svc) = Some s
    \<and> handle_open env px ot svc = (Inr (Some (RespOpened opn)), svc')
    \<and> to_success opn \<and> to_terminal_id opn = ot_terminal_id ot \<and> to_pid opn = ss_pid s
    \<and> distinct (to_persistent_sessions opn)
    \<and> set (to_persistent_sessions opn) = dom (hm_get (ps_sessions svc')) - {ot_terminal_id ot}
    \<and> hm_get (ps_sessions svc') = (hm_get (ps_sessions svc))
        (reconnect_source (ot_terminal_id ot) svc := None, ot_terminal_id ot \<mapsto> reconnect_session s)
    \<and> \<not> ps_needs_session_sync svc'"
proof -
  obtain t where t: "t = ot_terminal_id ot" by simp
  obtain sv where sv: "sv = remap_session t svc" by simp
  from remap_session_source [OF assms, of t] obtain s where
    s: "hm_get (ps_sessions svc) (reconnect_source t svc) = Some s"
      "hm_get (ps_sessions sv) = (hm_get (ps_sessions svc))(reconnect_source t svc := None, t \<mapsto> s)"
      "hm_wf (ps_sessions sv)" "ps_needs_session_sync sv" unfolding sv by blast
  then have get: "hm_get (ps_sessions sv) t = Some s" by simp
  obtain rest where rest: "rest = (if 1 < length (ps_sessions sv) then filter (\<lambda>k. k \<noteq> t) (map fst (ps_sessions sv)) else [])"
    by simp
  have "handle_open env px ot svc = (let (r, v) = open_existing px t s sv in (Inr (Some r), v))"
    using get by (simp add: handle_open_def Let_def t [symmetric] sv [symmetric])
  then have "handle_open env px ot svc = (Inr (Some (RespOpened \<lparr>to_terminal_id = t, to_success = True,
      to_message = ''Reconnected to existing terminal'', to_pid = ss_pid s, to_service_id = px_service_id px,
      to_persistent_sessions = rest\<rparr>)),
    sv\<lparr>ps_sessions := hm_insert t (reconnect_session s) (ps_sessions sv), ps_needs_session_sync := False\<rparr>)"
    by (simp add: open_existing_def s(4) rest)
  moreover have "set rest = dom (hm_get (ps_sessions sv)) - {t}"
  proof (cases "1 < length (ps_sessions sv)")
    case True
    then show ?thesis by (auto simp: rest dom_keys)
  next
    case False
    moreover have "t \<in> set (map fst (ps_sessions sv))" using get by (metis domI dom_keys)
    ultimately have "map fst (ps_sessions sv) = [t]" by (cases "ps_sessions sv") auto
    then show ?thesis using False by (simp add: rest dom_keys)
  qed
  moreover have "distinct rest" using s(3) by (simp add: rest hm_wf_def)
  ultimately show ?thesis using s(1,2) unfolding t [symmetric]
    by (intro exI [of _ s] exI conjI) (assumption | simp)+
qed

section \<open>Polling one session\<close>

text \<open>The responses with output for one terminal, and the bytes the client makes of them.\<close>

definition output_for :: "terminal_id \<Rightarrow> terminal_response list \<Rightarrow> terminal_data list" where
  "output_for tid rs = concat (map (\<lambda>r. case r of RespData d \<Rightarrow> if td_terminal_id d = tid then [d] else [] | _ \<Rightarrow> []) rs)"

definition client_bytes :: "(bytes \<Rightarrow> bytes) \<Rightarrow> terminal_data list \<Rightarrow> bytes" where
  "client_bytes decompress ds = concat (map (\<lambda>d. if td_compressed d then decompress (td_data d) else td_data d) ds)"

lemma output_for_append [simp]: "output_for tid (rs @ rs') = output_for tid rs @ output_for tid rs'"
  by (simp add: output_for_def)

lemma output_for_Nil [simp]: "output_for tid [] = []"
  by (simp add: output_for_def)

lemma client_bytes_append [simp]: "client_bytes dc (ds @ ds') = client_bytes dc ds @ client_bytes dc ds'"
  by (simp add: client_bytes_def)

lemma output_for_Cons:
  "output_for tid (RespData d # rs) = (if td_terminal_id d = tid then d # output_for tid rs else output_for tid rs)"
  by (simp add: output_for_def)

lemma respond_cases:
  obtains d where "create_terminal_data_response compress tid v = RespData d" "td_terminal_id d = tid"
    "td_compressed d \<and> td_data d = compress v \<or> \<not> td_compressed d \<and> td_data d = v"
proof (cases "COMPRESS_THRESHOLD < length v \<and> length (compress v) < length v")
  case True
  then show ?thesis by (intro that [of "\<lparr>td_terminal_id = tid, td_data = compress v, td_compressed = True\<rparr>"])
      (simp_all add: create_terminal_data_response_def)
next
  case False
  show ?thesis by (intro that [of "\<lparr>td_terminal_id = tid, td_data = v, td_compressed = False\<rparr>"])
      (use False in \<open>auto simp: create_terminal_data_response_def\<close>)
qed

lemma client_bytes_respond:
  assumes dc: "\<And>v. dc (compress v) = v"
  shows "client_bytes dc (output_for tid (map (create_terminal_data_response compress tid) vs)) = concat vs"
proof (induction vs)
  case (Cons v vs)
  obtain d where d: "create_terminal_data_response compress tid v = RespData d" "td_terminal_id d = tid"
    "td_compressed d \<and> td_data d = compress v \<or> \<not> td_compressed d \<and> td_data d = v" by (rule respond_cases)
  then have "(if td_compressed d then dc (td_data d) else td_data d) = v" using dc [of v] by auto
  with d(1,2) Cons show ?case by (simp add: output_for_Cons client_bytes_def)
qed (simp add: client_bytes_def)

lemma output_for_other:
  assumes "k \<noteq> tid"
  shows "output_for tid (map (create_terminal_data_response compress k) vs) = []"
proof (induction vs)
  case (Cons v vs)
  obtain d where "create_terminal_data_response compress k v = RespData d" "td_terminal_id d = k" by (rule respond_cases)
  with assms Cons show ?case by (simp add: output_for_Cons)
qed simp

text \<open>The output of an active session is the pending replay and the queue; a closed one has none.\<close>

fun pending_replay :: "session_state \<Rightarrow> bytes" where
  "pending_replay Closed = []"
| "pending_replay (Active p _) = (case p of None \<Rightarrow> [] | Some v \<Rightarrow> v)"

definition queued_output :: "terminal_session \<Rightarrow> bytes list" where
  "queued_output s = (case ss_output_rx s of None \<Rightarrow> [] | Some q \<Rightarrow> q)"

lemma stream_session_responses:
  "snd (stream_session env tid v s) = map (create_terminal_data_response (te_compress env) tid)
     (if ss_state s = Closed then [] else (if pending_replay (ss_state s) = [] then [] else [pending_replay (ss_state s)]) @ v)"
  by (cases "ss_state s") (auto simp: stream_session_def Let_def split: option.split)

lemma read_session_responses:
  assumes "read_session env tid s = Some (s', rs, c)"
  shows "rs = map (create_terminal_data_response (te_compress env) tid)
     (if ss_state s = Closed then []
      else (if pending_replay (ss_state s) = [] then [] else [pending_replay (ss_state s)]) @ queued_output s)"
proof -
  from assms obtain s1 s2 v where p: "note_finished s = (s1, c)" "drain_session (te_now env) s1 = Some (s2, v)"
    "stream_session env tid v s2 = (s', rs)" by (rule read_session_parts)
  have "ss_state s1 = ss_state s" "queued_output s1 = queued_output s"
    using p(1) by (auto simp: note_finished_def queued_output_def split: if_splits)
  moreover have "ss_state s2 = ss_state s1" "v = queued_output s1"
    using p(2) by (auto simp: drain_session_def Let_def queued_output_def split: option.splits if_splits)
  ultimately show ?thesis using stream_session_responses [of env tid v s2] p(3) by simp
qed

lemma read_sessions_output:
  assumes "read_sessions env m = Some (m', rs, cs)" "hm_wf m"
  shows "output_for tid rs = (case hm_get m tid of None \<Rightarrow> []
    | Some s \<Rightarrow> if te_locked env tid then [] else output_for tid (fst (snd (the (read_session env tid s)))))"
  using assms
proof (induction m arbitrary: m' rs cs)
  case (Cons x m)
  obtain k s where x: "x = (k, s)" by fastforce
  obtain s1 r1 c1 where one: "(if te_locked env k then Some (s, [], False) else read_session env k s) = Some (s1, r1, c1)"
    using Cons.prems(1) x by (auto split: option.splits)
  then obtain m1 rs1 cs1 where rest: "read_sessions env m = Some (m1, rs1, cs1)" "rs = r1 @ rs1"
    using Cons.prems(1) x by (auto split: option.splits prod.splits)
  have wf: "hm_wf m" "hm_get m k = None" using Cons.prems(2) by (auto simp: hm_wf_def x map_of_eq_None_iff)
  from Cons.IH [OF rest(1) wf(1)] have ih: "output_for tid rs1 = (case hm_get m tid of None \<Rightarrow> []
    | Some s \<Rightarrow> if te_locked env tid then [] else output_for tid (fst (snd (the (read_session env tid s)))))" .
  show ?case
  proof (cases "k = tid")
    case True
    with ih wf(2) have "output_for tid rs1 = []" by simp
    then show ?thesis using one True by (auto simp: x rest(2) split: if_splits)
  next
    case False
    have "output_for tid r1 = []"
    proof (cases "te_locked env k")
      case f: False
      with one have "read_session env k s = Some (s1, r1, c1)" by simp
      from read_session_responses [OF this] False show ?thesis by (simp add: output_for_other)
    qed (use one in simp)
    with ih False show ?thesis by (simp add: x rest(2))
  qed
qed simp

lemma close_finished_output: "close_finished env p tids m = (m', rs, ch) \<Longrightarrow> output_for tid rs = []"
  by (induction tids arbitrary: m m' rs ch) (auto simp: output_for_def Let_def split: prod.splits)

text \<open>What a poll of the service sends for a terminal.\<close>

lemma read_outputs_output:
  assumes "registry_ok reg" "get_service (px_service_id px) reg = Some svc" "hm_get (ps_sessions svc) tid = Some s"
    and "read_outputs env px reg = Some (reg', rs)" "\<not> te_locked env tid" "\<And>v. dc (te_compress env v) = v"
  shows "client_bytes dc (output_for tid rs) = (if ss_state s = Closed then [] else pending_replay (ss_state s) @ concat (queued_output s))"
proof -
  from assms(2,4) obtain m1 rs1 cs where r: "read_sessions env (ps_sessions svc) = Some (m1, rs1, cs)"
    by (auto simp: read_outputs_def split: option.splits)
  obtain m2 rs2 ch where c: "close_finished env (px_is_persistent px) cs m1 = (m2, rs2, ch)" by (metis prod.exhaust)
  have rs: "rs = rs1 @ rs2" using assms(2,4) r c by (simp add: read_outputs_def)
  have wf: "hm_wf (ps_sessions svc)" using registry_ok_service [OF assms(1,2)] by (simp add: service_ok_def)
  have "read_session env tid s \<noteq> None"
  proof -
    have "read_sessions env m = Some y \<Longrightarrow> (tid, s) \<in> set m \<Longrightarrow> read_session env tid s \<noteq> None" for m y
      using assms(5) by (induction m arbitrary: y) (auto split: option.splits if_splits)
    then show ?thesis using r assms(3) by (blast dest: map_of_SomeD)
  qed
  then obtain s' r1 c1 where one: "read_session env tid s = Some (s', r1, c1)" by auto
  have "output_for tid rs = output_for tid r1"
    using read_sessions_output [OF r wf, of tid] close_finished_output [OF c, of tid] assms(3,5) one by (simp add: rs)
  then show ?thesis unfolding read_session_responses [OF one]
    using client_bytes_respond [of dc "te_compress env" tid] assms(6) by simp
qed

section \<open>The redraw sequence\<close>

text \<open>
  An abstract redraw: which of the three sizes the terminal has, moved on by whether the resize of
  a round succeeds. A poll of a session with a pseudo terminal of its own refines it.
\<close>

datatype redraw_size = Original | Temporary | Correct

fun redraw_round :: "bool \<Rightarrow> sigwinch_phase \<times> redraw_size \<Rightarrow> sigwinch_phase \<times> redraw_size" where
  "redraw_round ok (phase, sz) =
     (case poll_sigwinch phase of
        (phase, None) \<Rightarrow> (phase, sz)
      | (phase, Some a) \<Rightarrow>
          (after_sigwinch a ok phase, if ok then (if a = TempResizeAction then Temporary else Correct) else sz))"

fun pty_of_redraw :: "pty_size \<Rightarrow> u16 \<Rightarrow> u16 \<Rightarrow> redraw_size \<Rightarrow> pty_size" where
  "pty_of_redraw z rows cols Original = z"
| "pty_of_redraw z rows cols Temporary = \<lparr>pz_rows = sigwinch_target TempResizeAction rows, pz_cols = cols\<rparr>"
| "pty_of_redraw z rows cols Correct = \<lparr>pz_rows = rows, pz_cols = cols\<rparr>"

definition redraw_rel :: "pty_size \<Rightarrow> terminal_session \<Rightarrow> sigwinch_phase \<times> redraw_size \<Rightarrow> bool" where
  "redraw_rel z s = (\<lambda>(phase, sz). (\<exists>p. ss_state s = Active p phase)
     \<and> ss_pty_pair s = Some (pty_of_redraw z (ss_rows s) (ss_cols s) sz)
     \<and> ss_rows s \<noteq> 0 \<and> ss_cols s \<noteq> 0 \<and> \<not> ss_is_helper_mode s)"

lemma step_sigwinch_refines:
  assumes "redraw_rel z s (phase, sz)"
  shows "redraw_rel z (step_sigwinch env tid phase s) (redraw_round (te_resize env tid = Inr ()) (phase, sz))"
proof -
  obtain phase' a where pa: "poll_sigwinch phase = (phase', a)" by fastforce
  show ?thesis
  proof (cases a)
    case None
    then show ?thesis using assms pa by (simp add: redraw_rel_def step_sigwinch_def)
  next
    case (Some act)
    then show ?thesis using assms pa
      by (cases "te_resize env tid"; cases act)
        (simp_all add: redraw_rel_def step_sigwinch_def do_sigwinch_resize_def Let_def)
  qed
qed

lemma read_session_refines:
  assumes "redraw_rel z s x" "read_session env tid s = Some (s', rs, c)"
  shows "redraw_rel z s' (redraw_round (te_resize env tid = Inr ()) x)"
proof -
  obtain phase sz where x: "x = (phase, sz)" by fastforce
  from assms(2) obtain s1 s2 v where p: "note_finished s = (s1, c)" "drain_session (te_now env) s1 = Some (s2, v)"
    "stream_session env tid v s2 = (s', rs)" by (rule read_session_parts)
  have "redraw_rel z s1 x" using assms(1) p(1) by (auto simp: redraw_rel_def note_finished_def split: if_splits)
  then have r2: "redraw_rel z s2 (phase, sz)" using p(2)
    by (auto simp: x redraw_rel_def drain_session_def Let_def split: option.splits if_splits)
  then obtain q where "ss_state s2 = Active q phase" by (auto simp: redraw_rel_def)
  with p(3) have "s' = step_sigwinch env tid phase s2" by (simp add: stream_session_def Let_def)
  with step_sigwinch_refines [OF r2] show ?thesis by (simp add: x)
qed

text \<open>A session polled again and again.\<close>

fun poll_session :: "terminal_env list \<Rightarrow> terminal_id \<Rightarrow> terminal_session \<Rightarrow> terminal_session option" where
  "poll_session [] tid s = Some s"
| "poll_session (env # envs) tid s =
     (case read_session env tid s of None \<Rightarrow> None | Some (s', _) \<Rightarrow> poll_session envs tid s')"

lemma poll_session_refines:
  "poll_session envs tid s = Some s' \<Longrightarrow> redraw_rel z s x \<Longrightarrow>
    redraw_rel z s' (fold redraw_round (map (\<lambda>e. te_resize e tid = Inr ()) envs) x)"
proof (induction envs arbitrary: s x)
  case (Cons env envs)
  then obtain s1 rs c where "read_session env tid s = Some (s1, rs, c)" "poll_session envs tid s1 = Some s'"
    by (auto split: option.splits)
  with Cons read_session_refines [of z s x env tid s1 rs c] show ?case by simp
qed simp

lemma redraw_seven_rounds:
  "list_all (\<lambda>oks. fold redraw_round oks (TempResize MAX_SIGWINCH_PHASE_ATTEMPTS, Original) =
      (Idle, case dropWhile Not (take 3 oks) of
               [] \<Rightarrow> Original
             | _ \<Rightarrow> if True \<in> set (take 3 (tl (dropWhile Not oks))) then Correct else Temporary))
    (List.n_lists 7 [True, False])"
  by code_simp

lemma n_lists_bool: "oks \<in> set (List.n_lists (length oks) [True, False])"
  by (auto simp: set_n_lists)

lemma handle_action_open:
  assumes "get_service sid reg = Some svc" "handle_open env px ot (svc\<lparr>ps_last_activity := te_now env\<rparr>) = (r, svc')"
    and "px_service_id px = sid"
  shows "fst (handle_action env px (ActionOpen ot) reg) = r"
    "get_service sid (snd (handle_action env px (ActionOpen ot) reg)) = Some svc'"
  using assms by (simp_all add: handle_action_def dispatch_action_def) (simp add: get_service_def)

lemma sigwinch_target_visible:
  assumes "rows \<noteq> 0"
  shows "sigwinch_target TempResizeAction rows \<notin> {0, rows}"
proof (cases "2 < rows")
  case True
  have "rows - 1 \<noteq> 0"
  proof
    assume "rows - 1 = 0"
    then have "rows = 1" by simp
    with True show False by simp
  qed
  with True show ?thesis using assms by (simp add: word_less_1)
next
  case False
  have "2 < (- 1 :: u16)" by code_simp
  with False have "rows \<noteq> - 1" by auto
  then have "rows + 1 \<noteq> 0" by (simp add: eq_neg_iff_add_eq_0)
  with False \<open>rows \<noteq> - 1\<close> show ?thesis by simp
qed

section \<open>What counts as activity\<close>

text \<open>
  Output that streams to a client does not count: a poll leaves the time stamp of its service, so the
  cleanup drops a service that is not persistent an hour after the last action of its client, however
  much output it has delivered since.
\<close>

lemma remove_service_none: "get_service sid reg = None \<Longrightarrow> get_service sid (remove_service os k reg) = None"
  by (auto simp: remove_service_def get_service_def split: option.split)

lemma remove_service_gone: "get_service sid (remove_service os sid reg) = None"
  by (auto simp: remove_service_def get_service_def split: option.split)

lemma fold_remove_service: "sid \<in> set ids \<Longrightarrow> get_service sid (fold (remove_service os) ids reg) = None"
proof -
  have none: "get_service sid r = None \<Longrightarrow> get_service sid (fold (remove_service os) ks r) = None" for ks r
    by (induction ks arbitrary: r) (simp_all add: remove_service_none)
  then show "sid \<in> set ids \<Longrightarrow> get_service sid (fold (remove_service os) ids reg) = None"
    by (induction ids arbitrary: reg) (auto simp: remove_service_gone)
qed

lemma polls_do_not_count_as_activity:
  assumes "read_outputs env px reg = Some (reg', rs)" "get_service sid reg = Some svc"
  shows "\<exists>svc'. get_service sid reg' = Some svc' \<and> ps_last_activity svc' = ps_last_activity svc
    \<and> ps_is_persistent svc' = ps_is_persistent svc"
  using assms by (auto simp: read_outputs_def get_service_def Let_def case_prod_unfold split: option.splits)

lemma cleanup_drops_watched_service:
  assumes "read_outputs env px reg = Some (reg', rs)" "get_service sid reg = Some svc"
    and "\<not> ps_is_persistent svc" "SERVICE_IDLE_TIMEOUT < now - ps_last_activity svc"
  shows "get_service sid (cleanup_inactive_services os now reg') = None"
proof -
  obtain svc' where s: "get_service sid reg' = Some svc'" "ps_last_activity svc' = ps_last_activity svc"
    "ps_is_persistent svc' = ps_is_persistent svc" using polls_do_not_count_as_activity [OF assms(1,2)] by blast
  then have "service_expired now svc'" using assms(3,4) by (simp add: service_expired_def)
  with s(1) have "sid \<in> set (map fst (filter (\<lambda>(_, svc). service_expired now svc) (tr_services reg')))"
    by (force simp: get_service_def dest: map_of_SomeD)
  then show ?thesis unfolding cleanup_inactive_services_def by (rule fold_remove_service)
qed

text \<open>
  A terminal whose shell has ended is reported once: a client that reconnects to it in a persistent
  service is told that it is open and no later poll says that it is closed.
\<close>

lemma ended_terminal_not_reported_again:
  assumes "ss_closed_message_sent s" "read_session env tid s' = Some (s'', rs, closed)"
    and "ss_closed_message_sent s' = ss_closed_message_sent (reconnect_session s)"
  shows "\<not> closed"
  using assms by (auto simp: read_session_def note_finished_def reconnect_session_def Let_def split: option.splits prod.splits)

section \<open>Properties\<close>

text \<open>An environment in which everything succeeds, for the examples.\<close>

definition calm_env :: terminal_env where
  "calm_env = \<lparr>te_os = Linux, te_now = 5, te_openpty = Inr (), te_spawn = Inr 7, te_writer = Inr (), te_reader = Inr (),
     te_process_id = Some 41, te_named_pipes = Inr (), te_launch_helper = Inr (1, 2), te_pipe_connection = Inr (),
     te_helper_running = True, te_resize = (\<lambda>_. Inr ()), te_kill = (\<lambda>_. Inr ()), te_try_wait = (\<lambda>_. Inr None),
     te_locked = (\<lambda>_. False), te_compress = (\<lambda>v. v)\<rparr>"

definition example_registry :: terminal_registry where
  "example_registry = snd (handle_action calm_env \<lparr>px_service_id = ''a'', px_is_persistent = True, px_user_token = None\<rparr>
     (ActionOpen \<lparr>ot_terminal_id = Terminal_Id 2, ot_rows = 24, ot_cols = 80\<rparr>)
     (snd (get_or_create_service 0 ''a'' True False registry_empty)))"

lemma example_registry_reachable: "terminal_reachable example_registry"
  unfolding example_registry_def
  by (intro terminal_next [OF terminal_next [OF terminal_start step_create] step_action])

definition example_session :: terminal_session where
  "example_session = (streaming_session (session_new 5 (Terminal_Id 2) 24 80))
     \<lparr>ss_pid := 41, ss_pty_pair := Some \<lparr>pz_rows = 24, pz_cols = 80\<rparr>, ss_child := Some 7\<rparr>"

lemma example_registry_eq:
  "example_registry = \<lparr>tr_services = [(''a'', \<lparr>ps_service_id = ''a'', ps_sessions = [(Terminal_Id 2, example_session)],
     ps_created_at = 0, ps_last_activity = 5, ps_is_persistent = True, ps_needs_session_sync = False,
     ps_is_specified_user = False\<rparr>)], tr_tasks = [], tr_cleanup_running = True\<rparr>"
  by (simp add: example_registry_def handle_action_def dispatch_action_def case_prod_unfold Let_def
      get_or_create_service_def registry_empty_def hm_contains_def MAX_SERVICES_def ensure_cleanup_task_def
      get_service_def hm_modify_def handle_open_def remap_session_def reset_status_def service_new_persistent_def
      calm_env_def open_started_def example_session_def streaming_session_def)

text \<open>
  C10: In every reachable state of the terminal registry there are at most 100 services, each under its
  own id, with no terminal id twice; every session's output and input queues are within the channels'
  capacity, its redraw phase has at most three attempts left, its pending replay is non-empty and at most 8 KB,
  and a helper session has no pseudo terminal or child of its own.
\<close>

theorem terminal_registry_invariant:
  assumes "terminal_reachable reg"
  shows "length (tr_services reg) \<le> MAX_SERVICES \<and> registry_ok reg"
  using terminal_reachable_ok [OF assms] by (simp add: registry_ok_def)

theorem terminal_registry_invariant_witness:
  "length (tr_services example_registry) \<le> MAX_SERVICES \<and> tr_services example_registry \<noteq> []"
proof -
  have "tr_services example_registry \<noteq> []" by (simp add: example_registry_eq)
  then show ?thesis using terminal_registry_invariant [OF example_registry_reachable] by simp
qed

text \<open>
  C11: A client that reconnects to a service with surviving sessions loses none of them: the open gets
  the session with the requested id or, if there is none, the one with the lowest id, which moves to
  the requested id; every other session stays under its id and is announced, once, in the reply.
\<close>

theorem reconnect_keeps_sessions:
  assumes "terminal_reachable reg" "get_service sid reg = Some svc" "ps_sessions svc \<noteq> []"
    and "px_service_id px = sid" "tid = ot_terminal_id ot" "src = reconnect_source tid svc"
    and "handle_action env px (ActionOpen ot) (snd (get_or_create_service now sid p q reg)) = (r, reg')"
  shows "\<exists>s opn svc'. hm_get (ps_sessions svc) src = Some s \<and> r = Inr (Some (RespOpened opn))
    \<and> to_success opn \<and> to_terminal_id opn = tid
    \<and> get_service sid reg' = Some svc' \<and> \<not> ps_needs_session_sync svc'
    \<and> hm_get (ps_sessions svc') tid = Some (reconnect_session s)
    \<and> (\<forall>k. k \<noteq> tid \<longrightarrow> hm_get (ps_sessions svc') k
          = (if k = src then None else map_option session_closed (hm_get (ps_sessions svc) k)))
    \<and> distinct (to_persistent_sessions opn)
    \<and> set (to_persistent_sessions opn) = dom (hm_get (ps_sessions svc')) - {tid}"
proof -
  obtain sv where sv: "sv = (reset_status p svc)\<lparr>ps_last_activity := te_now env\<rparr>" by simp
  have wf: "hm_wf (ps_sessions svc)"
    using registry_ok_service [OF terminal_reachable_ok [OF assms(1)] assms(2)] by (simp add: service_ok_def)
  have sess: "hm_get (ps_sessions sv) = map_option session_closed \<circ> hm_get (ps_sessions svc)" by (simp add: sv hm_get_reset)
  have "hm_wf (ps_sessions sv)" "ps_needs_session_sync sv" "ps_sessions sv \<noteq> []"
    using wf assms(3) by (auto simp: sv hm_wf_def reset_status_def comp_def case_prod_unfold)
  from reconnect_open [OF this, of ot env px] obtain s opn svc' where o: "hm_get (ps_sessions sv) (reconnect_source tid sv) = Some s"
    "handle_open env px ot sv = (Inr (Some (RespOpened opn)), svc')" "to_success opn" "to_terminal_id opn = tid"
    "distinct (to_persistent_sessions opn)" "set (to_persistent_sessions opn) = dom (hm_get (ps_sessions svc')) - {tid}"
    "hm_get (ps_sessions svc') = (hm_get (ps_sessions sv))(reconnect_source tid sv := None, tid \<mapsto> reconnect_session s)"
    "\<not> ps_needs_session_sync svc'" unfolding assms(5) by blast
  have src: "reconnect_source tid sv = src" unfolding assms(6) reconnect_source_def hm_contains_def sess
    by (auto simp: dom_def)
  from o(1) obtain s0 where s0: "hm_get (ps_sessions svc) src = Some s0" "s = session_closed s0" by (auto simp: src sess)
  have "handle_open env px ot ((reset_status p svc)\<lparr>ps_last_activity := te_now env\<rparr>) = (Inr (Some (RespOpened opn)), svc')"
    using o(2) by (simp add: sv)
  from handle_action_open [OF get_or_create_existing(2) [OF assms(2), where now = now and q = q] this assms(4)]
  have "r = Inr (Some (RespOpened opn)) \<and> get_service sid reg' = Some svc'" using assms(7) by simp
  then show ?thesis using o s0 by (intro exI [of _ s0] exI [of _ opn] exI [of _ svc']) (simp add: src sess reconnect_closed)
qed

theorem reconnect_keeps_sessions_witness:
  "\<exists>r reg'. handle_action calm_env \<lparr>px_service_id = ''a'', px_is_persistent = True, px_user_token = None\<rparr>
      (ActionOpen \<lparr>ot_terminal_id = Terminal_Id 1, ot_rows = 24, ot_cols = 80\<rparr>)
      (snd (get_or_create_service 9 ''a'' True False example_registry)) = (r, reg')
    \<and> (\<exists>svc'. get_service ''a'' reg' = Some svc' \<and> dom (hm_get (ps_sessions svc')) = {Terminal_Id 1})"
proof -
  obtain svc where svc: "get_service ''a'' example_registry = Some svc" "map fst (ps_sessions svc) = [Terminal_Id 2]"
    by (simp add: example_registry_eq get_service_def)
  then have ne: "ps_sessions svc \<noteq> []" by auto
  have src: "reconnect_source (Terminal_Id 1) svc = Terminal_Id 2"
  proof -
    have d: "dom (hm_get (ps_sessions svc)) = {Terminal_Id 2}" using svc(2) by (simp add: dom_keys del: set_map)
    then have "\<not> hm_contains (ps_sessions svc) (Terminal_Id 1)"
      using domIff [of "Terminal_Id 1" "hm_get (ps_sessions svc)"] by (simp add: hm_contains_def)
    then show ?thesis by (simp add: reconnect_source_def d)
  qed
  obtain r reg' where h: "handle_action calm_env \<lparr>px_service_id = ''a'', px_is_persistent = True, px_user_token = None\<rparr>
      (ActionOpen \<lparr>ot_terminal_id = Terminal_Id 1, ot_rows = 24, ot_cols = 80\<rparr>)
      (snd (get_or_create_service 9 ''a'' True False example_registry)) = (r, reg')" by fastforce
  from reconnect_keeps_sessions [OF example_registry_reachable svc(1) ne _ _ _ h, of "Terminal_Id 1" "Terminal_Id 2"] src
  obtain svc' s where s: "get_service ''a'' reg' = Some svc'" "hm_get (ps_sessions svc') (Terminal_Id 1) = Some s"
    "\<forall>k. k \<noteq> Terminal_Id 1 \<longrightarrow> hm_get (ps_sessions svc') k
          = (if k = Terminal_Id 2 then None else map_option session_closed (hm_get (ps_sessions svc) k))" by auto
  have "dom (hm_get (ps_sessions svc)) = {Terminal_Id 2}" using svc(2) by (simp add: dom_keys del: set_map)
  then have "hm_get (ps_sessions svc) k = None" if "k \<noteq> Terminal_Id 2" for k using that by (auto simp: dom_def)
  with s(2,3) have "dom (hm_get (ps_sessions svc')) = {Terminal_Id 1}" by (fastforce simp: dom_def split: if_splits)
  with s(1) h show ?thesis by blast
qed

text \<open>
  A reconnected client first gets the replay and then the live output, nothing twice and nothing
  missing: after an open of an existing session, the bytes the client gets from the next poll are the
  newest stored output, at most 8 KB, followed by the chunks waiting in the channel, in their order,
  compressed or not.
\<close>

theorem replay_precedes_live_output:
  assumes "terminal_reachable reg" "get_service sid reg = Some svc" "hm_get (ps_sessions svc) tid = Some s"
    and "px_service_id px = sid" "ot_terminal_id ot = tid"
    and "read_outputs env' px (snd (handle_action env px (ActionOpen ot) reg)) = Some (reg', rs)"
    and "\<not> te_locked env' tid" "\<And>v. decompress (te_compress env' v) = v"
  shows "client_bytes decompress (output_for tid rs)
    = get_recent DEFAULT_RECONNECT_BUFFER_BYTES (ss_output_buffer s) @ concat (queued_output s)"
proof -
  obtain sv where sv: "sv = svc\<lparr>ps_last_activity := te_now env\<rparr>" by simp
  have get: "hm_get (ps_sessions sv) tid = Some s" using assms(3) by (simp add: sv)
  then have "remap_session tid sv = sv" by (simp add: remap_session_def hm_contains_def)
  then have ho: "handle_open env px ot sv = (let (r, v) = open_existing px tid s sv in (Inr (Some r), v))"
    using get by (simp add: handle_open_def assms(5) Let_def)
  obtain reg1 where reg1: "reg1 = snd (handle_action env px (ActionOpen ot) reg)" by simp
  have "get_service sid reg1 = Some (snd (open_existing px tid s sv))"
    unfolding reg1 using handle_action_open(2) [OF assms(2) _ assms(4), of env ot] ho
    by (simp add: sv [symmetric] case_prod_unfold Let_def)
  moreover have "hm_get (ps_sessions (snd (open_existing px tid s sv))) tid = Some (reconnect_session s)"
    by (simp add: open_existing_def)
  moreover have "registry_ok reg1" unfolding reg1 by (rule registry_ok_action [OF terminal_reachable_ok [OF assms(1)]])
  ultimately have "client_bytes decompress (output_for tid rs) =
      (if ss_state (reconnect_session s) = Closed then []
       else pending_replay (ss_state (reconnect_session s)) @ concat (queued_output (reconnect_session s)))"
    using read_outputs_output [of reg1 px _ tid "reconnect_session s" env' reg' rs decompress] assms
    by (simp add: reg1)
  then show ?thesis by (simp add: reconnect_session_def queued_output_def Let_def)
qed

theorem replay_precedes_live_output_witness:
  "\<exists>reg' rs. read_outputs calm_env \<lparr>px_service_id = ''a'', px_is_persistent = True, px_user_token = None\<rparr>
      (snd (handle_action calm_env \<lparr>px_service_id = ''a'', px_is_persistent = True, px_user_token = None\<rparr>
        (ActionOpen \<lparr>ot_terminal_id = Terminal_Id 2, ot_rows = 24, ot_cols = 80\<rparr>)
        (example_registry\<lparr>tr_services := hm_insert ''a'' ((the (get_service ''a'' example_registry))
          \<lparr>ps_sessions := [(Terminal_Id 2, reader_output [104, 105] example_session)]\<rparr>) (tr_services example_registry)\<rparr>)))
      = Some (reg', rs)
    \<and> client_bytes (\<lambda>v. v) (output_for (Terminal_Id 2) rs) = [104, 105]"
proof -
  obtain px where px: "px = \<lparr>px_service_id = ''a'', px_is_persistent = True, px_user_token = None\<rparr>" by simp
  obtain ot where ot: "ot = \<lparr>ot_terminal_id = Terminal_Id 2, ot_rows = 24, ot_cols = 80\<rparr>" by simp
  obtain svc where svc: "get_service ''a'' example_registry = Some svc" "ps_sessions svc = [(Terminal_Id 2, example_session)]"
    by (simp add: example_registry_eq get_service_def)
  obtain s where s: "s = reader_output [104, 105] example_session" by simp
  obtain svc1 where svc1: "svc1 = svc\<lparr>ps_sessions := [(Terminal_Id 2, s)]\<rparr>" by simp
  obtain reg where reg: "reg = example_registry\<lparr>tr_services := hm_insert ''a'' svc1 (tr_services example_registry)\<rparr>" by simp
  have "terminal_step example_registry (example_registry\<lparr>tr_services := hm_insert ''a''
      (svc\<lparr>ps_sessions := hm_insert (Terminal_Id 2) s (ps_sessions svc)\<rparr>) (tr_services example_registry)\<rparr>)"
    unfolding s by (rule step_session_thread [OF svc(1) _ reader_reads]) (simp add: svc(2))
  then have reach: "terminal_reachable reg"
    using terminal_next [OF example_registry_reachable] by (simp add: reg svc1 svc(2))
  have get: "get_service ''a'' reg = Some svc1" "hm_get (ps_sessions svc1) (Terminal_Id 2) = Some s"
    by (simp_all add: reg svc1 get_service_def)
  have q: "queued_output s = [[104, 105]]" "get_recent n (ss_output_buffer s) = []" "ss_output_buffer s = ob_new" for n
    by (simp_all add: s reader_output_def queued_output_def example_session_def streaming_session_def session_new_def
        CHANNEL_BUFFER_SIZE_def get_recent_def ob_new_def)
  have "read_outputs calm_env px (snd (handle_action calm_env px (ActionOpen ot) reg)) \<noteq> None"
  proof -
    have "read_session env tid (reconnect_session s) \<noteq> None" for env tid
      using q(1,3) by (auto simp: read_session_def note_finished_def drain_session_def reconnect_session_def queued_output_def
          ob_append_def ob_append_rest_def ob_trim_def ob_new_def newline_def trim_small MAX_OUTPUT_BUFFER_SIZE_def
          MAX_BUFFER_LINES_def Let_def case_prod_unfold split: option.split)
    then obtain y where y: "read_session calm_env (Terminal_Id 2) (reconnect_session s) = Some y" by blast
    have "handle_open calm_env px ot (svc1\<lparr>ps_last_activity := te_now calm_env\<rparr>) =
        (let (r, v) = open_existing px (Terminal_Id 2) s (svc1\<lparr>ps_last_activity := te_now calm_env\<rparr>) in (Inr (Some r), v))"
      by (simp add: handle_open_def ot svc1 remap_session_def hm_contains_def)
    from handle_action_open(2) [OF get(1), of calm_env px ot] this
    have "get_service ''a'' (snd (handle_action calm_env px (ActionOpen ot) reg))
        = Some (snd (open_existing px (Terminal_Id 2) s (svc1\<lparr>ps_last_activity := te_now calm_env\<rparr>)))"
      by (simp add: case_prod_unfold Let_def px)
    then show ?thesis using y
      by (simp add: read_outputs_def px open_existing_def svc1 calm_env_def case_prod_unfold Let_def split: option.split prod.split)
  qed
  then obtain reg' rs where r: "read_outputs calm_env px (snd (handle_action calm_env px (ActionOpen ot) reg)) = Some (reg', rs)"
    by auto
  from replay_precedes_live_output [OF reach get _ _ r, of "\<lambda>v. v"] q
  have "client_bytes (\<lambda>v. v) (output_for (Terminal_Id 2) rs) = [104, 105]" by (simp add: px ot calm_env_def)
  with r show ?thesis by (simp add: px ot reg svc1 s svc(1))
qed

text \<open>
  The redraw after a reconnect always ends, within seven polls, and ends at the right size unless
  the system refuses: with \<open>oks\<close> the outcomes of the resizes of seven polls, the phase is idle again;
  the pseudo terminal is untouched if the first three fail; otherwise it has the client's size if one
  of the three attempts after the first success succeeds, and is left one row off if they all fail.
  The temporary size differs from the client's and is never zero rows.
\<close>

theorem redraw_sequence_ends:
  assumes "poll_session envs tid (reconnect_session s) = Some s'" "length envs = 7"
    and "ss_pty_pair s = Some z" "ss_rows s \<noteq> 0" "ss_cols s \<noteq> 0" "\<not> ss_is_helper_mode s"
    and "oks = map (\<lambda>e. te_resize e tid = Inr ()) envs"
  shows "(\<exists>p. ss_state s' = Active p Idle) \<and> ss_pty_pair s' = Some
      (if True \<notin> set (take 3 oks) then z
       else if True \<in> set (take 3 (tl (dropWhile Not oks))) then \<lparr>pz_rows = ss_rows s', pz_cols = ss_cols s'\<rparr>
       else \<lparr>pz_rows = sigwinch_target TempResizeAction (ss_rows s'), pz_cols = ss_cols s'\<rparr>)
    \<and> sigwinch_target TempResizeAction (ss_rows s) \<notin> {0, ss_rows s}"
proof -
  have "redraw_rel z (reconnect_session s) (TempResize MAX_SIGWINCH_PHASE_ATTEMPTS, Original)"
    using assms(3-6) by (simp add: redraw_rel_def reconnect_session_def Let_def)
  from poll_session_refines [OF assms(1) this]
  have rel: "redraw_rel z s' (fold redraw_round oks (TempResize MAX_SIGWINCH_PHASE_ATTEMPTS, Original))" by (simp add: assms(7))
  have "oks \<in> set (List.n_lists 7 [True, False])" using n_lists_bool [of oks] assms(2,7) by simp
  with redraw_seven_rounds have fin: "fold redraw_round oks (TempResize MAX_SIGWINCH_PHASE_ATTEMPTS, Original) =
      (Idle, case dropWhile Not (take 3 oks) of [] \<Rightarrow> Original
        | _ \<Rightarrow> if True \<in> set (take 3 (tl (dropWhile Not oks))) then Correct else Temporary)"
    by (simp only: list_all_iff)
  have none: "dropWhile Not (take 3 oks) = [] \<longleftrightarrow> True \<notin> set (take 3 oks)" by (auto simp: dropWhile_eq_Nil_conv)
  have "sigwinch_target TempResizeAction (ss_rows s) \<notin> {0, ss_rows s}"
    using assms(4) by (rule sigwinch_target_visible)
  moreover have "(\<exists>p. ss_state s' = Active p Idle) \<and> ss_pty_pair s' = Some
      (if True \<notin> set (take 3 oks) then z
       else if True \<in> set (take 3 (tl (dropWhile Not oks))) then \<lparr>pz_rows = ss_rows s', pz_cols = ss_cols s'\<rparr>
       else \<lparr>pz_rows = sigwinch_target TempResizeAction (ss_rows s'), pz_cols = ss_cols s'\<rparr>)"
    using rel none unfolding fin redraw_rel_def by (cases "dropWhile Not (take 3 oks)") auto
  ultimately show ?thesis by blast
qed

theorem redraw_sequence_ends_witness:
  "\<exists>s'. poll_session (replicate 7 calm_env) (Terminal_Id 2) (reconnect_session example_session) = Some s'
    \<and> ss_pty_pair s' = Some \<lparr>pz_rows = ss_rows s', pz_cols = ss_cols s'\<rparr>"
proof -
  have ex: "ss_pty_pair example_session = Some \<lparr>pz_rows = 24, pz_cols = 80\<rparr>" "ss_rows example_session \<noteq> 0"
    "ss_cols example_session \<noteq> 0" "\<not> ss_is_helper_mode example_session"
    by (simp_all add: example_session_def streaming_session_def session_new_def)
  have idle: "\<exists>s'. read_session calm_env tid s = Some (s', [], False) \<and> ss_output_rx s' = Some []
      \<and> ss_reader_finished s' = Some False \<and> (\<exists>phase. ss_state s' = Active None phase)"
    if "ss_output_rx s = Some []" "ss_reader_finished s = Some False" "ss_state s = Active None phase" for s tid phase
    using that by (auto simp: read_session_def note_finished_def drain_session_def stream_session_def step_sigwinch_def
        do_sigwinch_resize_def Let_def case_prod_unfold split: option.split sum.split)
  have "\<exists>s'. poll_session (replicate n calm_env) tid s = Some s'"
    if "ss_output_rx s = Some []" "ss_reader_finished s = Some False" "\<exists>phase. ss_state s = Active None phase" for n s tid
    using that
  proof (induction n arbitrary: s)
    case (Suc n)
    then obtain phase where "ss_state s = Active None phase" by blast
    from idle [OF Suc.prems(1,2) this, of tid] Suc.IH show ?case by fastforce
  qed simp
  moreover have "\<exists>phase. ss_state (reconnect_session example_session) = Active None phase"
    "ss_output_rx (reconnect_session example_session) = Some []"
    "ss_reader_finished (reconnect_session example_session) = Some False"
    by (simp_all add: reconnect_session_def example_session_def streaming_session_def session_new_def get_recent_def ob_new_def)
  ultimately obtain s' where s': "poll_session (replicate 7 calm_env) (Terminal_Id 2) (reconnect_session example_session) = Some s'"
    by blast
  from redraw_sequence_ends [OF s' _ ex refl] show ?thesis
    using s' by (auto simp: calm_env_def eval_nat_numeral)
qed

end
