(* ===== verification/File_Listing.thy ===== *)
theory File_Listing
  imports Prelude
begin

text \<open>
  Directory listings (\<open>libs/hbb_common/src/fs.rs\<close>): the entries of a directory, the recursive list of
  the files a transfer sends, the empty directories, and the removal of empty directories. A part of
  the file system is a tree; a directory that cannot be read has no list of children, a link may lead
  to a tree or nowhere, a special file is a pipe, a socket or a device, and an entry whose name is not
  valid Unicode has the empty name. For \<open>/\<close> Windows shows its drives, given by their bit mask.
\<close>

section \<open>Paths\<close>

definition is_absolute :: "string \<Rightarrow> bool" where
  "is_absolute p \<longleftrightarrow> starts_with p ''/''"

text \<open>\<open>Path::join\<close>: an absolute path replaces the first.\<close>

definition path_join :: "string \<Rightarrow> string \<Rightarrow> string" where
  "path_join p name =
     (if is_absolute name then name
      else if p = [] \<or> last p = CHR ''/'' then p @ name
      else p @ ''/'' @ name)"

text \<open>
  The name of an entry of a directory joined to a path: it has no separator and, on Windows, no colon, so
  it never replaces the path; a bare drive gets no separator.
\<close>

definition separator :: "target_os \<Rightarrow> char" where
  "separator os = (if os = Windows then CHR 0x5C else CHR ''/'')"

definition is_path_sep :: "target_os \<Rightarrow> char \<Rightarrow> bool" where
  "is_path_sep os c \<longleftrightarrow> c = CHR ''/'' \<or> os = Windows \<and> c = CHR 0x5C"

definition is_drive :: "string \<Rightarrow> bool" where
  "is_drive p \<longleftrightarrow> length p = 2 \<and> p ! 1 = CHR '':''"

definition path_push :: "target_os \<Rightarrow> string \<Rightarrow> string \<Rightarrow> string" where
  "path_push os p name =
     (if p = [] \<or> is_path_sep os (last p) \<or> os = Windows \<and> is_drive p then p @ name else p @ separator os # name)"

text \<open>On Windows \<open>/\<close> stands for the list of drives.\<close>

definition drives_path :: "target_os \<Rightarrow> string \<Rightarrow> bool" where
  "drives_path os path \<longleftrightarrow> os = Windows \<and> path = ''/''"

section \<open>Data\<close>

datatype file_type = Dir | DirLink | DirDrive | File | FileLink

record file_entry =
  fe_entry_type :: file_type
  fe_name :: string
  fe_is_hidden :: bool
  fe_size :: u64
  fe_modified_time :: u64

definition default_entry :: file_entry where
  "default_entry = \<lparr>fe_entry_type = Dir, fe_name = '''', fe_is_hidden = False, fe_size = 0, fe_modified_time = 0\<rparr>"

record file_directory =
  fd_path :: string
  fd_entries :: "file_entry list"

text \<open>
  The flag of a node is the hidden attribute of Windows; the time is that of the node itself, zero if
  the system does not give it. \<open>NoMetadata\<close> is an entry whose metadata cannot be read.
\<close>

datatype fs_tree =
    RegularFile bool u64 u64
  | SpecialFile bool u64 u64
  | Directory bool u64 "(string \<times> fs_tree) list option"
  | Link bool u64 "fs_tree option"
  | NoMetadata

fun resolve :: "fs_tree \<Rightarrow> fs_tree option" where
  "resolve (Link _ _ None) = None"
| "resolve (Link _ _ (Some t)) = resolve t"
| "resolve NoMetadata = None"
| "resolve t = Some t"

fun is_dir_tree :: "fs_tree option \<Rightarrow> bool" where
  "is_dir_tree (Some (Directory _ _ _)) = True"
| "is_dir_tree _ = False"

section \<open>Listing\<close>

definition drive_entries :: "u32 \<Rightarrow> file_entry list" where
  "drive_entries drives =
     map (\<lambda>i. default_entry\<lparr>fe_name := [char_of (of_char CHR ''A'' + i :: nat), CHR '':''], fe_entry_type := DirDrive\<rparr>)
       (filter (\<lambda>i. bit drives i) [0..<32])"

fun hidden_attribute :: "fs_tree \<Rightarrow> bool" where
  "hidden_attribute (RegularFile h _ _) = h"
| "hidden_attribute (SpecialFile h _ _) = h"
| "hidden_attribute (Directory h _ _) = h"
| "hidden_attribute (Link h _ _) = h"
| "hidden_attribute NoMetadata = False"

definition is_hidden_name :: "target_os \<Rightarrow> string \<Rightarrow> fs_tree \<Rightarrow> bool" where
  "is_hidden_name os name t = (if os = Windows then hidden_attribute t else starts_with name ''.'')"

fun type_and_size :: "fs_tree \<Rightarrow> file_type \<times> u64 \<times> u64" where
  "type_and_size (RegularFile _ sz mt) = (File, sz, mt)"
| "type_and_size (SpecialFile _ sz mt) = (File, sz, mt)"
| "type_and_size (Directory _ mt _) = (Dir, 0, mt)"
| "type_and_size (Link h mt t) = (if is_dir_tree (resolve (Link h mt t)) then DirLink else FileLink, 0, mt)"
| "type_and_size NoMetadata = (File, 0, 0)"

text \<open>One round of the loop over the directory.\<close>

definition entry_of :: "target_os \<Rightarrow> bool \<Rightarrow> string \<Rightarrow> fs_tree \<Rightarrow> file_entry option" where
  "entry_of os include_hidden name t =
     (if name = [] then None
      else if t = NoMetadata then None
      else if is_hidden_name os name t \<and> \<not> include_hidden then None
      else let (entry_type, sz, modified_time) = type_and_size t
           in Some \<lparr>fe_entry_type = entry_type, fe_name = name, fe_is_hidden = is_hidden_name os name t,
                    fe_size = sz, fe_modified_time = modified_time\<rparr>)"

definition entries_of :: "target_os \<Rightarrow> bool \<Rightarrow> (string \<times> fs_tree) list \<Rightarrow> file_entry list" where
  "entries_of os include_hidden cs = List.map_filter (\<lambda>(name, t). entry_of os include_hidden name t) cs"

definition read_dir :: "target_os \<Rightarrow> u32 \<Rightarrow> string \<Rightarrow> fs_tree option \<Rightarrow> bool \<Rightarrow> string + file_directory" where
  "read_dir os drives path t include_hidden =
     (if drives_path os path then Inr \<lparr>fd_path = path, fd_entries = drive_entries drives\<rparr>
      else case t of
        Some (Directory _ _ (Some cs)) \<Rightarrow> Inr \<lparr>fd_path = path, fd_entries = entries_of os include_hidden cs\<rparr>
      | _ \<Rightarrow> Inl ''read_dir'')"

text \<open>
  The recursion goes by the children themselves: the entry of a child and the child are found under
  the same name.
\<close>

fun read_dir_recursive :: "target_os \<Rightarrow> bool \<Rightarrow> fs_tree option \<Rightarrow> string \<Rightarrow> string + file_entry list"
  and read_children :: "target_os \<Rightarrow> bool \<Rightarrow> (string \<times> fs_tree) list \<Rightarrow> string \<Rightarrow> file_entry list" where
  "read_dir_recursive os ih (Some (Directory _ _ None)) prefix = Inl ''read_dir''"
| "read_dir_recursive os ih (Some (Directory _ _ (Some cs))) prefix = Inr (read_children os ih cs prefix)"
| "read_dir_recursive os ih (Some (RegularFile _ sz mt)) prefix =
     Inr [default_entry\<lparr>fe_entry_type := File, fe_size := sz, fe_modified_time := mt\<rparr>]"
| "read_dir_recursive os ih _ prefix = Inl ''Not exists''"
| "read_children os ih [] prefix = []"
| "read_children os ih ((name, t) # cs) prefix =
     (case entry_of os ih name t of
        None \<Rightarrow> []
      | Some entry \<Rightarrow>
          (case fe_entry_type entry of
             File \<Rightarrow> [entry\<lparr>fe_name := path_push os prefix name\<rparr>]
           | Dir \<Rightarrow> (case read_dir_recursive os ih (Some t) (path_push os prefix name) of
                      Inr tmp \<Rightarrow> tmp
                    | Inl _ \<Rightarrow> [])
           | _ \<Rightarrow> [])) @ read_children os ih cs prefix"

definition follow :: "fs_tree option \<Rightarrow> fs_tree option" where
  "follow t = (case t of None \<Rightarrow> None | Some t \<Rightarrow> resolve t)"

text \<open>Drives are neither files nor directories to walk.\<close>

definition get_recursive_files :: "target_os \<Rightarrow> string \<Rightarrow> fs_tree option \<Rightarrow> bool \<Rightarrow> string + file_entry list" where
  "get_recursive_files os path t include_hidden =
     (if drives_path os path \<and> is_dir_tree (follow t) then Inr []
      else read_dir_recursive os include_hidden (follow t) '''')"

fun read_empty_dirs_recursive :: "target_os \<Rightarrow> bool \<Rightarrow> string \<Rightarrow> fs_tree option \<Rightarrow> string + file_directory list"
  and read_empty_children :: "target_os \<Rightarrow> bool \<Rightarrow> string \<Rightarrow> (string \<times> fs_tree) list \<Rightarrow> file_directory list" where
  "read_empty_dirs_recursive os ih path (Some (Directory _ _ None)) = Inl ''read_dir''"
| "read_empty_dirs_recursive os ih path (Some (Directory _ _ (Some cs))) =
     (if entries_of os ih cs = [] then Inr [\<lparr>fd_path = path, fd_entries = []\<rparr>]
      else Inr (read_empty_children os ih path cs))"
| "read_empty_dirs_recursive os ih path (Some (RegularFile _ _ _)) = Inr []"
| "read_empty_dirs_recursive os ih path _ = Inl ''Not exists''"
| "read_empty_children os ih path [] = []"
| "read_empty_children os ih path ((name, t) # cs) =
     (case entry_of os ih name t of
        None \<Rightarrow> []
      | Some entry \<Rightarrow>
          (case fe_entry_type entry of
             Dir \<Rightarrow> (case read_empty_dirs_recursive os ih (path_push os path name) (Some t) of
                      Inr tmp \<Rightarrow> tmp
                    | Inl _ \<Rightarrow> [])
           | _ \<Rightarrow> [])) @ read_empty_children os ih path cs"

definition get_empty_dirs_recursive ::
  "target_os \<Rightarrow> u32 \<Rightarrow> string \<Rightarrow> fs_tree option \<Rightarrow> bool \<Rightarrow> string + file_directory list" where
  "get_empty_dirs_recursive os drives path t include_hidden =
     (if drives_path os path \<and> is_dir_tree (follow t)
      then Inr (if drive_entries drives = [] then [\<lparr>fd_path = path, fd_entries = []\<rparr>] else [])
      else read_empty_dirs_recursive os include_hidden path (follow t))"

text \<open>
  Removal of empty directories: the result and what is left of the tree. \<open>can_remove\<close> says whether
  the system lets the entry at a path be removed; a directory goes only when nothing is left in it.
\<close>

fun remove_all_empty_dir ::
  "target_os \<Rightarrow> (string \<Rightarrow> bool) \<Rightarrow> string \<Rightarrow> fs_tree \<Rightarrow> (string + unit) \<times> fs_tree option"
  and remove_in_children :: "target_os \<Rightarrow> (string \<Rightarrow> bool) \<Rightarrow> string \<Rightarrow> (string \<times> fs_tree) list \<Rightarrow> (string \<times> fs_tree) list" where
  "remove_all_empty_dir os can_remove path (Directory h mt (Some cs)) =
     (let cs = (if drives_path os path then cs else remove_in_children os can_remove path cs)
      in (Inr (), if cs = [] \<and> can_remove path then None else Some (Directory h mt (Some cs))))"
| "remove_all_empty_dir os can_remove path t = (if drives_path os path then Inr () else Inl ''read_dir'', Some t)"
| "remove_in_children os can_remove path [] = []"
| "remove_in_children os can_remove path ((name, t) # cs) =
     (case map_option fe_entry_type (entry_of os True name t) of
        Some Dir \<Rightarrow> (case snd (remove_all_empty_dir os can_remove (path_push os path name) t) of
                     None \<Rightarrow> []
                   | Some t \<Rightarrow> [(name, t)])
      | Some DirLink \<Rightarrow> if can_remove (path_push os path name) then [] else [(name, t)]
      | Some FileLink \<Rightarrow> if can_remove (path_push os path name) then [] else [(name, t)]
      | _ \<Rightarrow> [(name, t)]) @ remove_in_children os can_remove path cs"

text \<open>The links that go with it, which is all that is removed but empty directories.\<close>

fun removed_links :: "target_os \<Rightarrow> (string \<Rightarrow> bool) \<Rightarrow> string \<Rightarrow> fs_tree \<Rightarrow> string list"
  and removed_in_children :: "target_os \<Rightarrow> (string \<Rightarrow> bool) \<Rightarrow> string \<Rightarrow> (string \<times> fs_tree) list \<Rightarrow> string list" where
  "removed_links os can_remove path (Directory h mt (Some cs)) =
     (if drives_path os path then [] else removed_in_children os can_remove path cs)"
| "removed_links os can_remove path t = []"
| "removed_in_children os can_remove path [] = []"
| "removed_in_children os can_remove path ((name, t) # cs) =
     (case map_option fe_entry_type (entry_of os True name t) of
        Some Dir \<Rightarrow> removed_links os can_remove (path_push os path name) t
      | Some DirLink \<Rightarrow> if can_remove (path_push os path name) then [path_push os path name] else []
      | Some FileLink \<Rightarrow> if can_remove (path_push os path name) then [path_push os path name] else []
      | _ \<Rightarrow> []) @ removed_in_children os can_remove path cs"

section \<open>The files of a tree\<close>

text \<open>
  The files a transfer of a tree is about, special files among them: reached through directories that can be
  read and not through links, hidden entries only if asked for. The path is the list of the names.
\<close>

inductive file_in :: "target_os \<Rightarrow> bool \<Rightarrow> fs_tree \<Rightarrow> string list \<Rightarrow> u64 \<Rightarrow> u64 \<Rightarrow> bool" for os ih where
  file_here: "file_in os ih (RegularFile h sz mt) [] sz mt"
| special_here: "file_in os ih (SpecialFile h sz mt) [] sz mt"
| file_below: "(name, t) \<in> set cs \<Longrightarrow> name \<noteq> [] \<Longrightarrow> ih \<or> \<not> is_hidden_name os name t \<Longrightarrow> file_in os ih t names sz mt \<Longrightarrow>
    file_in os ih (Directory h mt' (Some cs)) (name # names) sz mt"

inductive_simps file_in_simps [simp]:
  "file_in os ih (RegularFile h sz mt) names sz' mt'"
  "file_in os ih (SpecialFile h sz mt) names sz' mt'"
  "file_in os ih (Directory h mt None) names sz' mt'"
  "file_in os ih (Link h mt t) names sz' mt'"
  "file_in os ih NoMetadata names sz' mt'"
  "file_in os ih (Directory h mt (Some cs)) names sz' mt'"

definition join_names :: "target_os \<Rightarrow> string \<Rightarrow> string list \<Rightarrow> string" where
  "join_names os p names = foldl (path_push os) p names"

lemma join_names_simps [simp]:
  "join_names os p [] = p" "join_names os p (n # ns) = join_names os (path_push os p n) ns"
  by (simp_all add: join_names_def)

text \<open>What the transfer lists: name, size and time of each entry.\<close>

definition listed :: "file_entry list \<Rightarrow> (string \<times> u64 \<times> u64) set" where
  "listed es = (\<lambda>e. (fe_name e, fe_size e, fe_modified_time e)) ` set es"

lemma listed_simps [simp]: "listed [] = {}" "listed (e # es) = insert (fe_name e, fe_size e, fe_modified_time e) (listed es)"
  "listed (es @ fs) = listed es \<union> listed fs"
  by (auto simp: listed_def)

definition files_below :: "target_os \<Rightarrow> bool \<Rightarrow> (string \<times> fs_tree) list \<Rightarrow> string \<Rightarrow> (string \<times> u64 \<times> u64) set" where
  "files_below os ih cs prefix = {(join_names os prefix names, sz, mt) | names sz mt.
     file_in os ih (Directory False 0 (Some cs)) names sz mt}"

lemma files_below_Nil [simp]: "files_below os ih [] prefix = {}"
  by (simp add: files_below_def)

lemma files_below_Cons:
  "files_below os ih ((name, t) # cs) prefix =
    (if name \<noteq> [] \<and> (ih \<or> \<not> is_hidden_name os name t)
     then {(join_names os (path_push os prefix name) names, sz, mt) | names sz mt. file_in os ih t names sz mt} else {})
    \<union> files_below os ih cs prefix"
  unfolding files_below_def by auto force+

lemma entry_of_visible:
  "entry_of os ih name t = Some e \<longleftrightarrow> name \<noteq> [] \<and> (ih \<or> \<not> is_hidden_name os name t) \<and> t \<noteq> NoMetadata
    \<and> e = \<lparr>fe_entry_type = fst (type_and_size t), fe_name = name, fe_is_hidden = is_hidden_name os name t,
        fe_size = fst (snd (type_and_size t)), fe_modified_time = snd (snd (type_and_size t))\<rparr>"
  by (auto simp: entry_of_def case_prod_unfold Let_def)

definition files_of :: "target_os \<Rightarrow> bool \<Rightarrow> fs_tree \<Rightarrow> string \<Rightarrow> (string \<times> u64 \<times> u64) set" where
  "files_of os ih t prefix = {(join_names os prefix names, sz, mt) | names sz mt. file_in os ih t names sz mt}"

lemma files_of_simps [simp]:
  "files_of os ih (RegularFile h sz mt) prefix = {(prefix, sz, mt)}"
  "files_of os ih (SpecialFile h sz mt) prefix = {(prefix, sz, mt)}"
  "files_of os ih (Directory h mt None) prefix = {}"
  "files_of os ih (Link h mt t') prefix = {}"
  "files_of os ih NoMetadata prefix = {}"
  by (auto simp: files_of_def)

lemma files_of_Directory: "files_of os ih (Directory h mt (Some cs)) prefix = files_below os ih cs prefix"
  unfolding files_of_def files_below_def by simp

lemma files_below_Cons':
  "files_below os ih ((name, t) # cs) prefix =
    (if name \<noteq> [] \<and> (ih \<or> \<not> is_hidden_name os name t) then files_of os ih t (path_push os prefix name) else {})
    \<union> files_below os ih cs prefix"
  unfolding files_below_Cons files_of_def ..

lemma recursive_listing:
  "is_dir_tree t \<Longrightarrow> listed (case read_dir_recursive os ih t prefix of Inl _ \<Rightarrow> [] | Inr es \<Rightarrow> es) = files_of os ih (the t) prefix"
  "listed (read_children os ih cs prefix) = files_below os ih cs prefix"
proof (induction os ih t prefix and os ih cs prefix rule: read_dir_recursive_read_children.induct)
  case (6 os ih name t cs prefix)
  show ?case
  proof (cases "entry_of os ih name t")
    case None
    then have "name = [] \<or> \<not> (ih \<or> \<not> is_hidden_name os name t) \<or> t = NoMetadata"
      by (auto simp: entry_of_def Let_def split: if_splits prod.splits)
    then have "(if name \<noteq> [] \<and> (ih \<or> \<not> is_hidden_name os name t) then files_of os ih t (path_push os prefix name) else {}) = {}"
      by auto
    with None "6.IH"(2) show ?thesis by (simp add: files_below_Cons')
  next
    case (Some e)
    then have v: "name \<noteq> []" "ih \<or> \<not> is_hidden_name os name t" "t \<noteq> NoMetadata" and e: "fe_entry_type e = fst (type_and_size t)"
      "fe_size e = fst (snd (type_and_size t))" "fe_modified_time e = snd (snd (type_and_size t))"
      by (auto simp: entry_of_visible)
    have below: "files_below os ih ((name, t) # cs) prefix = files_of os ih t (path_push os prefix name) \<union> files_below os ih cs prefix"
      using v by (simp add: files_below_Cons')
    show ?thesis
    proof (cases t)
      case (RegularFile h sz mt)
      then show ?thesis using Some 6 below e by simp
    next
      case (SpecialFile h sz mt)
      then show ?thesis using Some 6 below e by simp
    next
      case (Directory h mt cs')
      with 6 Some e have "listed (case read_dir_recursive os ih (Some t) (path_push os prefix name) of Inl _ \<Rightarrow> [] | Inr es \<Rightarrow> es)
          = files_of os ih t (path_push os prefix name)" by simp
      moreover have "listed (read_children os ih cs prefix) = files_below os ih cs prefix" using 6 Some by blast
      ultimately show ?thesis using Some below e Directory
        by (cases "read_dir_recursive os ih (Some t) (path_push os prefix name)") simp_all
    next
      case (Link h mt t')
      then show ?thesis using Some 6 below e by simp
    qed (use v in simp)
  qed
qed (simp_all add: files_of_Directory)

lemma recursive_types:
  "\<forall>e \<in> set (case read_dir_recursive os ih t prefix of Inl _ \<Rightarrow> [] | Inr es \<Rightarrow> es). fe_entry_type e = File"
  "\<forall>e \<in> set (read_children os ih cs prefix). fe_entry_type e = File"
proof (induction os ih t prefix and os ih cs prefix rule: read_dir_recursive_read_children.induct)
  case (6 os ih name t cs prefix)
  show ?case
  proof (cases "entry_of os ih name t")
    case (Some e)
    obtain r where r: "r = read_dir_recursive os ih (Some t) (path_push os prefix name)" by simp
    have "fe_entry_type e = Dir \<Longrightarrow> \<forall>e \<in> set (case r of Inl _ \<Rightarrow> [] | Inr es \<Rightarrow> es). fe_entry_type e = File"
      unfolding r by (rule "6.IH"(1) [OF Some])
    then show ?thesis using "6.IH"(2) Some
      by (cases "fe_entry_type e"; cases r) (auto simp: r [symmetric])
  qed (use "6.IH"(2) in simp)
qed simp_all

text \<open>
  Removing empty directories and links keeps every regular file: the same files are reached, hidden
  ones included.
\<close>

lemma remove_all_empty_dir_files:
  "\<And>prefix. (case snd (remove_all_empty_dir os can_remove path t) of None \<Rightarrow> {} | Some t' \<Rightarrow> files_of os True t' prefix)
     = files_of os True t prefix"
  "\<And>prefix. files_below os True (remove_in_children os can_remove path cs) prefix = files_below os True cs prefix"
proof (induction os can_remove path t and os can_remove path cs rule: remove_all_empty_dir_remove_in_children.induct)
  case (1 os can_remove path h mt cs)
  show ?case
  proof (cases "remove_in_children os can_remove path cs = [] \<and> can_remove path")
    case True
    with 1 [of prefix] show ?thesis by (simp add: Let_def files_of_Directory)
  next
    case False
    with 1 [of prefix] show ?thesis by (auto simp: Let_def files_of_Directory)
  qed
next
  case (4 os can_remove path name t cs)
  have rest: "files_below os True (remove_in_children os can_remove path cs) p = files_below os True cs p" for p
    using 4 by blast
  show ?case
  proof (cases "entry_of os True name t")
    case None
    then show ?thesis using rest by (simp add: files_below_Cons')
  next
    case (Some e)
    then have e: "fe_entry_type e = fst (type_and_size t)" "name \<noteq> []" "t \<noteq> NoMetadata" by (auto simp: entry_of_visible)
    show ?thesis
    proof (cases "fe_entry_type e = Dir")
      case True
      with "4.IH"(1) Some have "(case snd (remove_all_empty_dir os can_remove (path_push os path name) t) of None \<Rightarrow> {}
          | Some t' \<Rightarrow> files_of os True t' p) = files_of os True t p" for p by simp
      then show ?thesis using Some True rest e(2)
        by (cases "snd (remove_all_empty_dir os can_remove (path_push os path name) t)") (simp_all add: files_below_Cons')
    next
      case False
      have "fe_entry_type e \<in> {DirLink, FileLink} \<Longrightarrow> files_of os True t p = {}" for p using e(1) by (cases t) auto
      with False Some rest e show ?thesis
        by (cases "fe_entry_type e") (auto simp: files_below_Cons')
    qed
  qed
qed simp_all

section \<open>Each file once\<close>

text \<open>
  What a file system guarantees of the names in a directory: no separator, on Windows no colon, and no name
  twice. Names that are not Unicode are all empty here; the listing leaves them out.
\<close>

definition name_ok :: "target_os \<Rightarrow> string \<Rightarrow> bool" where
  "name_ok os name \<longleftrightarrow> (\<forall>c \<in> set name. \<not> is_path_sep os c \<and> (os = Windows \<longrightarrow> c \<noteq> CHR '':''))"

fun tree_ok :: "target_os \<Rightarrow> fs_tree \<Rightarrow> bool"
  and children_ok :: "target_os \<Rightarrow> (string \<times> fs_tree) list \<Rightarrow> bool" where
  "tree_ok os (Directory h mt (Some cs)) = (distinct (filter (\<lambda>n. n \<noteq> []) (map fst cs)) \<and> children_ok os cs)"
| "tree_ok os t = True"
| "children_ok os [] = True"
| "children_ok os ((name, t) # cs) = (name_ok os name \<and> tree_ok os t \<and> children_ok os cs)"

definition prefix_ok :: "target_os \<Rightarrow> string \<Rightarrow> bool" where
  "prefix_ok os p \<longleftrightarrow> p = [] \<or> \<not> is_path_sep os (last p) \<and> (os = Windows \<longrightarrow> CHR '':'' \<notin> set p)"

lemma drive_colon: "is_drive p \<Longrightarrow> CHR '':'' \<in> set p"
  using nth_mem [of 1 p] by (simp add: is_drive_def)

lemma push_ok: "prefix_ok os p \<Longrightarrow> path_push os p n = (if p = [] then n else p @ separator os # n)"
  using drive_colon [of p] by (auto simp: path_push_def prefix_ok_def)

lemma prefix_ok_push: "prefix_ok os p \<Longrightarrow> name_ok os n \<Longrightarrow> n \<noteq> [] \<Longrightarrow> prefix_ok os (path_push os p n)"
  using last_in_set [of n] by (auto simp: push_ok) (auto simp: prefix_ok_def name_ok_def separator_def)

lemma push_nonempty: "n \<noteq> [] \<Longrightarrow> path_push os p n \<noteq> []"
  by (simp add: path_push_def)

lemma sep_is_path_sep [simp]: "is_path_sep os (separator os)"
  by (simp add: is_path_sep_def separator_def)

text \<open>The joined names are the names with separators between them.\<close>

lemma join_names_text:
  assumes "prefix_ok os p" "\<forall>n \<in> set ns. name_ok os n \<and> n \<noteq> []" "p \<noteq> []"
  shows "join_names os p ns = p @ concat (map (\<lambda>n. separator os # n) ns)"
  using assms
proof (induction ns arbitrary: p)
  case (Cons n ns)
  then have "prefix_ok os (path_push os p n)" by (simp add: prefix_ok_push)
  with Cons show ?case by (simp add: push_ok)
qed simp

lemma listed_below:
  "is_dir_tree t \<Longrightarrow> prefix_ok os prefix \<Longrightarrow> prefix \<noteq> [] \<Longrightarrow> (\<And>t'. t = Some t' \<Longrightarrow> tree_ok os t') \<Longrightarrow>
     e \<in> set (case read_dir_recursive os ih t prefix of Inl _ \<Rightarrow> [] | Inr es \<Rightarrow> es) \<Longrightarrow>
     \<exists>rest. fe_name e = prefix @ separator os # rest"
  "prefix_ok os prefix \<Longrightarrow> children_ok os cs \<Longrightarrow> e \<in> set (read_children os ih cs prefix) \<Longrightarrow>
     \<exists>name rest. name \<in> fst ` set cs \<and> name \<noteq> [] \<and> name_ok os name \<and> fe_name e = path_push os prefix name @ rest
       \<and> (rest = [] \<or> is_path_sep os (hd rest))"
proof (induction os ih t prefix and os ih cs prefix rule: read_dir_recursive_read_children.induct)
  case (2 os ih h mt cs prefix)
  from 2 obtain name rest where "fe_name e = path_push os prefix name @ rest" by fastforce
  with 2 show ?case by (simp add: push_ok)
next
  case (6 os ih name t cs prefix)
  show ?case
  proof (cases "e \<in> set (read_children os ih cs prefix)")
    case True
    from "6.IH"(2) [OF "6.prems"(1) _ True] "6.prems"(2) show ?thesis by auto
  next
    case False
    with "6.prems"(3) obtain entry where en: "entry_of os ih name t = Some entry"
      by (cases "entry_of os ih name t") auto
    have nm: "name \<noteq> []" "name_ok os name" "tree_ok os t" using en "6.prems"(2) by (auto simp: entry_of_visible)
    note p = prefix_ok_push [OF "6.prems"(1) nm(2,1)]
    have "\<exists>rest. fe_name e = path_push os prefix name @ rest \<and> (rest = [] \<or> is_path_sep os (hd rest))"
    proof (cases "fe_entry_type entry")
      case Dir
      have d: "is_dir_tree (Some t)" using en Dir by (cases t) (auto simp: entry_of_visible split: if_splits)
      have "e \<in> set (case read_dir_recursive os ih (Some t) (path_push os prefix name) of Inl _ \<Rightarrow> [] | Inr es \<Rightarrow> es)"
        using "6.prems"(3) False en Dir by (auto split: sum.splits)
      from "6.IH"(1) [OF en Dir d p push_nonempty [OF nm(1)] _ this] nm(3) obtain rest
        where "fe_name e = path_push os prefix name @ separator os # rest" by auto
      then show ?thesis by force
    qed (use "6.prems"(3) False en in auto)
    then show ?thesis using nm by auto
  qed
qed simp_all

lemma first_name:
  assumes "prefix_ok os p" "name_ok os n" "name_ok os m" "path_push os p n @ r = path_push os p m @ q"
    "r = [] \<or> is_path_sep os (hd r)" "q = [] \<or> is_path_sep os (hd q)"
  shows "n = m"
proof -
  have "n @ r = m @ q" using assms(4) by (simp add: push_ok [OF assms(1)] split: if_splits)
  moreover have "takeWhile (\<lambda>c. \<not> is_path_sep os c) (x @ y) = x"
    if "name_ok os x" "y = [] \<or> is_path_sep os (hd y)" for x y
    using that by (cases y) (auto simp: name_ok_def takeWhile_append)
  ultimately show ?thesis using assms(2,3,5,6) by metis
qed

lemma listing_distinct:
  "is_dir_tree t \<Longrightarrow> prefix_ok os prefix \<Longrightarrow> (\<And>t'. t = Some t' \<Longrightarrow> tree_ok os t') \<Longrightarrow>
     distinct (map fe_name (case read_dir_recursive os ih t prefix of Inl _ \<Rightarrow> [] | Inr es \<Rightarrow> es))"
  "prefix_ok os prefix \<Longrightarrow> children_ok os cs \<Longrightarrow> distinct (filter (\<lambda>n. n \<noteq> []) (map fst cs)) \<Longrightarrow>
     distinct (map fe_name (read_children os ih cs prefix))"
proof (induction os ih t prefix and os ih cs prefix rule: read_dir_recursive_read_children.induct)
  case (6 os ih name t cs prefix)
  have cs: "distinct (map fe_name (read_children os ih cs prefix))"
    using "6.IH"(2) "6.prems" by (auto split: if_splits)
  show ?case
  proof (cases "entry_of os ih name t")
    case (Some entry)
    have nm: "name \<noteq> []" "name_ok os name" "tree_ok os t" using Some "6.prems"(2) by (auto simp: entry_of_visible)
    note p = prefix_ok_push [OF "6.prems"(1) nm(2,1)]
    define own where "own = (case fe_entry_type entry of
        File \<Rightarrow> [entry\<lparr>fe_name := path_push os prefix name\<rparr>]
      | Dir \<Rightarrow> (case read_dir_recursive os ih (Some t) (path_push os prefix name) of Inr tmp \<Rightarrow> tmp | Inl _ \<Rightarrow> [])
      | _ \<Rightarrow> [])"
    have all: "read_children os ih ((name, t) # cs) prefix = own @ read_children os ih cs prefix"
      using Some by (simp add: own_def)
    have "distinct (map fe_name own) \<and> (\<forall>e \<in> set own. \<exists>rest. fe_name e = path_push os prefix name @ rest
        \<and> (rest = [] \<or> is_path_sep os (hd rest)))"
    proof (cases "fe_entry_type entry")
      case Dir
      have d: "is_dir_tree (Some t)" using Some Dir by (cases t) (auto simp: entry_of_visible split: if_splits)
      have own: "own = (case read_dir_recursive os ih (Some t) (path_push os prefix name) of Inl _ \<Rightarrow> [] | Inr es \<Rightarrow> es)"
        by (simp add: own_def Dir split: sum.split)
      have "distinct (map fe_name own)" unfolding own by (rule "6.IH"(1) [OF Some Dir d p]) (use nm in simp)
      moreover have "\<exists>rest. fe_name e = path_push os prefix name @ separator os # rest" if "e \<in> set own" for e
        by (rule listed_below(1) [OF d p _ _ that [unfolded own]]) (use nm in \<open>simp_all add: push_nonempty\<close>)
      ultimately show ?thesis by fastforce
    qed (simp_all add: own_def)
    moreover have "fe_name e \<noteq> fe_name e'" if "e \<in> set own" "e' \<in> set (read_children os ih cs prefix)" for e e'
    proof
      assume same: "fe_name e = fe_name e'"
      from listed_below(2) [OF "6.prems"(1) _ that(2)] "6.prems"(2) obtain name' rest' where
        other: "name' \<in> fst ` set cs" "name' \<noteq> []" "name_ok os name'" "fe_name e' = path_push os prefix name' @ rest'"
          "rest' = [] \<or> is_path_sep os (hd rest')" by auto
      from calculation that(1) obtain rest where "fe_name e = path_push os prefix name @ rest"
          "rest = [] \<or> is_path_sep os (hd rest)" by blast
      with other same have "name = name'" using first_name [OF "6.prems"(1) nm(2) other(3)] by metis
      with other(1,2) "6.prems"(3) show False by (auto simp: image_iff)
    qed
    ultimately show ?thesis using cs unfolding all by auto
  qed (use cs in simp)
qed simp_all

section \<open>Properties\<close>

text \<open>
  C16: The list of files of a transfer is exact: for a directory that can be read it names each file reached
  through readable directories and not through links exactly once, under its path relative to the directory
  and with its size and time, hidden ones only if they are asked for, and nothing else. Files are all entries
  that are neither directories nor links, so pipes, sockets and devices are among them. The names in a
  directory are those of a file system (distinct, without separators), and the path is not the \<open>/\<close> that
  stands for the drives of Windows, for which nothing is listed.
\<close>

theorem recursive_listing_exact:
  assumes "follow t = Some (Directory h mt (Some cs))" "tree_ok os (Directory h mt (Some cs))" "\<not> drives_path os path"
  shows "\<exists>es. get_recursive_files os path t include_hidden = Inr es
    \<and> listed es = {(join_names os '''' names, sz, mt') | names sz mt'.
        file_in os include_hidden (Directory h mt (Some cs)) names sz mt'}
    \<and> distinct (map fe_name es) \<and> (\<forall>e \<in> set es. fe_entry_type e = File)"
proof -
  have "distinct (map fe_name (read_children os include_hidden cs ''''))"
    by (rule listing_distinct(2)) (use assms(2) in \<open>simp_all add: prefix_ok_def\<close>)
  then show ?thesis
    using recursive_listing(2) [of os include_hidden cs "''''"] recursive_types(2) [of os include_hidden cs "''''"]
    by (simp add: get_recursive_files_def assms(1,3) files_below_def del: file_in_simps) simp
qed

definition demo_dir :: "(string \<times> fs_tree) list" where
  "demo_dir = [(''a'', RegularFile False 3 9), (''.h'', RegularFile False 1 1), (''pipe'', SpecialFile False 0 2),
     (''d'', Directory False 0 (Some [(''b'', RegularFile False 5 7)])), (''l'', Link False 0 (Some (RegularFile False 2 2)))]"

theorem recursive_listing_exact_witness:
  "\<exists>es. get_recursive_files Linux ''/home/u'' (Some (Directory False 0 (Some demo_dir))) False = Inr es
    \<and> listed es = {(''a'', 3, 9), (''pipe'', 0, 2), (''d/b'', 5, 7)} \<and> length es = 3"
proof -
  have ok: "tree_ok Linux (Directory False 0 (Some demo_dir))"
    by (simp add: demo_dir_def name_ok_def is_path_sep_def)
  from recursive_listing_exact [of "Some (Directory False 0 (Some demo_dir))" False 0 demo_dir Linux "''/home/u''" False]
  obtain es where es: "get_recursive_files Linux ''/home/u'' (Some (Directory False 0 (Some demo_dir))) False = Inr es"
    "listed es = {(join_names Linux '''' names, sz, mt) | names sz mt. file_in Linux False (Directory False 0 (Some demo_dir)) names sz mt}"
    "distinct (map fe_name es)"
    using ok by (auto simp: follow_def drives_path_def)
  have "files_below Linux False demo_dir '''' = {(''a'', 3, 9), (''pipe'', 0, 2), (''d/b'', 5, 7)}"
    by (simp add: demo_dir_def insert_commute files_below_Cons' files_of_Directory is_hidden_name_def starts_with_def
        path_push_def separator_def is_path_sep_def)
  then have l: "listed es = {(''a'', 3, 9), (''pipe'', 0, 2), (''d/b'', 5, 7)}" using es(2) by (simp only: files_below_def)
  have "length es = card (fst ` listed es)"
    using distinct_card [OF es(3)] by (simp add: listed_def image_image)
  with l es(1) show ?thesis by simp
qed

end
