(* ===== verification/File_Names.thy ===== *)
theory File_Names
  imports File_Listing
begin

text \<open>
  The check of the names in a transfer to this machine (\<open>src/ui_cm_interface.rs\<close>), and what it is for:
  a path is resolved component by component, \<open>..\<close> going back, and a checked name stays inside the
  directory it is joined to.
\<close>

section \<open>The check\<close>

text \<open>\<open>str::split\<close> with a predicate: always at least one piece.\<close>

fun split_chars :: "(char \<Rightarrow> bool) \<Rightarrow> string \<Rightarrow> string list" where
  "split_chars sep [] = [[]]"
| "split_chars sep (c # cs) =
     (if sep c then [] # split_chars sep cs
      else case split_chars sep cs of
             [] \<Rightarrow> [[c]]
           | w # ws \<Rightarrow> (c # w) # ws)"

definition is_ascii_alphabetic :: "char \<Rightarrow> bool" where
  "is_ascii_alphabetic c \<longleftrightarrow> (let n = (of_char c :: nat) in (65 \<le> n \<and> n \<le> 90) \<or> (97 \<le> n \<and> n \<le> 122))"

definition is_separator :: "char \<Rightarrow> bool" where
  "is_separator c \<longleftrightarrow> c = CHR ''/'' \<or> c = CHR 0x5C"

definition validate_file_name_no_traversal :: "target_os \<Rightarrow> string \<Rightarrow> string + unit" where
  "validate_file_name_no_traversal os name =
     (if CHR 0x00 \<in> set name then Inl ''file name contains null bytes''
      else if list_ex (\<lambda>component. component = ''..'') (filter (\<lambda>s. s \<noteq> []) (split_chars is_separator name))
      then Inl ''path traversal detected in file name''
      else if os = Windows \<and> 2 \<le> length name \<and> is_ascii_alphabetic (name ! 0) \<and> name ! 1 = CHR '':''
      then Inl ''absolute path detected in file name''
      else if starts_with name ''/'' \<or> starts_with name [CHR 0x5C]
      then Inl ''absolute path detected in file name''
      else Inr ())"

definition is_single_file_with_empty_name :: "(string \<times> u64) list \<Rightarrow> bool" where
  "is_single_file_with_empty_name files \<longleftrightarrow>
     length files = 1 \<and> (case files of [] \<Rightarrow> False | f # _ \<Rightarrow> fst f = [])"

fun validate_names :: "target_os \<Rightarrow> (string \<times> u64) list \<Rightarrow> string + unit" where
  "validate_names os [] = Inr ()"
| "validate_names os ((name, _) # files) =
     (if name = [] then Inl ''empty file name in multi-file transfer''
      else case validate_file_name_no_traversal os name of
             Inl e \<Rightarrow> Inl e
           | Inr _ \<Rightarrow> validate_names os files)"

definition validate_transfer_file_names :: "target_os \<Rightarrow> (string \<times> u64) list \<Rightarrow> string + unit" where
  "validate_transfer_file_names os files =
     (if is_single_file_with_empty_name files then Inr () else validate_names os files)"

section \<open>Where a path leads\<close>

text \<open>
  The directories a path goes through from the root, without links: empty and \<open>.\<close> components stay,
  \<open>..\<close> goes back. A relative path is taken from the root, which is no restriction: only paths that
  extend the same base are compared.
\<close>

fun walk :: "string list \<Rightarrow> string \<Rightarrow> string list" where
  "walk at component =
     (if component = [] \<or> component = ''.'' then at
      else if component = ''..'' then butlast at
      else at @ [component])"

definition is_slash :: "char \<Rightarrow> bool" where
  "is_slash c \<longleftrightarrow> c = CHR ''/''"

definition destination :: "string \<Rightarrow> string list" where
  "destination p = foldl walk [] (split_chars is_slash p)"

lemma split_chars_not_Nil [simp]: "split_chars sep s \<noteq> []"
  by (cases s) (auto split: list.split)

lemma split_chars_append_sep:
  "sep c \<Longrightarrow> split_chars sep (s @ c # t) = split_chars sep s @ split_chars sep t"
proof (induction s)
  case (Cons a s)
  then show ?case by (cases "split_chars sep s") auto
qed simp

lemma split_chars_Cons:
  "split_chars sep (c # cs) = (if sep c then [] # split_chars sep cs
     else (c # hd (split_chars sep cs)) # tl (split_chars sep cs))"
  by (cases "split_chars sep cs") auto

lemma split_finer_hd:
  "(\<And>c. sep c \<Longrightarrow> sep' c) \<Longrightarrow> \<forall>c \<in> set (hd (split_chars sep s)). \<not> sep' c \<Longrightarrow>
    hd (split_chars sep' s) = hd (split_chars sep s)"
  by (induction s) (auto simp: split_chars_Cons simp del: split_chars.simps(2))

lemma split_finer_tl:
  assumes fine: "\<And>c. sep c \<Longrightarrow> sep' c" and w: "\<forall>c \<in> set w. \<not> sep' c"
  shows "w \<in> set (tl (split_chars sep s)) \<Longrightarrow> w \<in> set (tl (split_chars sep' s))"
proof (induction s)
  case (Cons a s)
  have hd_tl: "set (split_chars p s) = insert (hd (split_chars p s)) (set (tl (split_chars p s)))" for p
    by (cases "split_chars p s") (use split_chars_not_Nil in auto)
  show ?case
  proof (cases "sep a")
    case True
    with Cons.prems have "w = hd (split_chars sep s) \<or> w \<in> set (tl (split_chars sep s))"
      using hd_tl [of sep] by (simp add: split_chars_Cons del: split_chars.simps(2))
    then have "w \<in> set (split_chars sep' s)"
      using Cons.IH split_finer_hd [of sep sep' s] fine w hd_tl [of sep'] by auto
    with True fine show ?thesis by (simp add: split_chars_Cons del: split_chars.simps(2))
  next
    case False
    with Cons have "w \<in> set (tl (split_chars sep' s))" by (simp add: split_chars_Cons del: split_chars.simps(2))
    then show ?thesis using hd_tl [of sep'] by (simp add: split_chars_Cons del: split_chars.simps(2))
  qed
qed simp

lemma split_finer:
  assumes "\<And>c. sep c \<Longrightarrow> sep' c" "w \<in> set (split_chars sep s)" "\<forall>c \<in> set w. \<not> sep' c"
  shows "w \<in> set (split_chars sep' s)"
proof -
  have hd_tl: "set (split_chars p s) = insert (hd (split_chars p s)) (set (tl (split_chars p s)))" for p
    by (cases "split_chars p s") (use split_chars_not_Nil in auto)
  then show ?thesis
    using assms split_finer_hd [of sep sep' s] split_finer_tl [of sep sep' w s] by auto
qed

text \<open>Without \<open>..\<close> a walk only goes down.\<close>

lemma foldl_walk_down: "''..'' \<notin> set ws \<Longrightarrow> \<exists>ds. foldl walk at ws = at @ ds"
proof (induction ws arbitrary: at)
  case (Cons w ws)
  then have "\<exists>ds. walk at w = at @ ds" by auto
  then obtain ds where "walk at w = at @ ds" by blast
  with Cons.IH [of "at @ ds"] Cons.prems show ?case by auto
qed simp

lemma destination_join:
  assumes "\<not> is_absolute name"
  shows "destination (path_join base name) = foldl walk (destination base) (split_chars is_slash name)"
proof (cases "base = [] \<or> last base = CHR ''/''")
  case False
  then show ?thesis using assms split_chars_append_sep [of is_slash "CHR ''/''" base name]
    by (simp add: path_join_def destination_def is_slash_def)
next
  case True
  show ?thesis
  proof (cases "base = []")
    case True
    then show ?thesis using assms by (simp add: path_join_def destination_def)
  next
    case False
    with True obtain b where b: "base = b @ [CHR ''/'']" by (metis append_butlast_last_id)
    have "split_chars is_slash (b @ CHR ''/'' # name) = split_chars is_slash b @ split_chars is_slash name"
      "split_chars is_slash (b @ [CHR ''/'']) = split_chars is_slash b @ [[]]"
      using split_chars_append_sep [of is_slash "CHR ''/''" b] by (simp_all add: is_slash_def)
    then show ?thesis using assms by (simp add: path_join_def destination_def b)
  qed
qed

lemma validated_no_dotdot:
  assumes "validate_file_name_no_traversal os name = Inr ()"
  shows "''..'' \<notin> set (split_chars is_slash name)" "\<not> is_absolute name"
proof -
  have "''..'' \<notin> set (split_chars is_separator name)"
    using assms by (auto simp: validate_file_name_no_traversal_def list_ex_iff split: if_splits)
  then show "''..'' \<notin> set (split_chars is_slash name)"
    using split_finer [of is_slash is_separator "''..''" name] by (auto simp: is_slash_def is_separator_def)
  show "\<not> is_absolute name"
    using assms by (auto simp: validate_file_name_no_traversal_def is_absolute_def split: if_splits)
qed

text \<open>The names a job writes under: the name itself and the two files next to it.\<close>

definition download_name :: "string \<Rightarrow> string" where
  "download_name p = p @ ''.download''"

definition digest_name :: "string \<Rightarrow> string" where
  "digest_name p = p @ ''.digest''"

lemma split_append_no_sep:
  "\<forall>c \<in> set t. \<not> sep c \<Longrightarrow>
    split_chars sep (s @ t) = butlast (split_chars sep s) @ [last (split_chars sep s) @ t]"
proof (induction s)
  case Nil
  then show ?case by (induction t) (auto simp: split_chars_Cons simp del: split_chars.simps(2))
next
  case (Cons a s)
  then show ?case by (cases "split_chars sep s") (auto split: list.splits)
qed

lemma suffix_no_dotdot:
  assumes "''..'' \<notin> set (split_chars is_slash name)" "3 \<le> length t" "\<forall>c \<in> set t. \<not> is_slash c"
  shows "''..'' \<notin> set (split_chars is_slash (name @ t))"
proof -
  have "last (split_chars is_slash name) @ t \<noteq> ''..''"
  proof
    assume "last (split_chars is_slash name) @ t = ''..''"
    then have "length (last (split_chars is_slash name) @ t) = 2" by simp
    with assms(2) show False by simp
  qed
  then show ?thesis using assms(1) split_append_no_sep [OF assms(3), of name] by (auto dest: in_set_butlastD)
qed

lemma validated_inside:
  assumes "validate_file_name_no_traversal os name = Inr ()" "name \<noteq> []" "t = [] \<or> 3 \<le> length t" "\<forall>c \<in> set t. \<not> is_slash c"
  shows "\<exists>ds. destination (path_join base name @ t) = destination base @ ds"
proof -
  have nd: "''..'' \<notin> set (split_chars is_slash (name @ t))"
    using suffix_no_dotdot [OF validated_no_dotdot(1) [OF assms(1)], of t] validated_no_dotdot(1) [OF assms(1)] assms(3,4) by auto
  have "\<not> is_absolute (name @ t)"
    using validated_no_dotdot(2) [OF assms(1)] assms(2) by (cases name) (auto simp: is_absolute_def starts_with_def)
  moreover have "path_join base name @ t = path_join base (name @ t)"
    using calculation validated_no_dotdot(2) [OF assms(1)] by (simp add: path_join_def)
  ultimately show ?thesis using destination_join [of "name @ t" base] foldl_walk_down [OF nd, of "destination base"] by simp
qed

lemma validate_names_all:
  "validate_names os files = Inr () \<Longrightarrow> (name, mt) \<in> set files \<Longrightarrow>
    name \<noteq> [] \<and> validate_file_name_no_traversal os name = Inr ()"
  by (induction files rule: validate_names.induct) (auto split: if_splits sum.splits)

section \<open>Properties\<close>

text \<open>
  A transfer to this machine cannot leave its target directory: if the names of a request pass the
  check, then every path it writes, the name, its partial download and its digest file, leads to the
  target or below it, whatever the target.
\<close>

theorem checked_transfer_stays_inside:
  assumes "validate_transfer_file_names os files = Inr ()" "(name, mt) \<in> set files" "name \<noteq> []"
    and "t \<in> {'''', ''.download'', ''.digest''}"
  shows "\<exists>ds. destination (path_join base name @ t) = destination base @ ds"
proof -
  have "validate_names os files = Inr ()"
    using assms by (cases files) (auto simp: validate_transfer_file_names_def is_single_file_with_empty_name_def split: if_splits)
  from validate_names_all [OF this assms(2)] show ?thesis
    by (intro validated_inside [of os]) (use assms(4) in \<open>auto simp: is_slash_def\<close>)
qed

theorem checked_transfer_stays_inside_witness:
  "\<exists>ds. destination (path_join ''/home/u'' ''a/b.txt'' @ ''.download'') = [''home'', ''u''] @ ds"
proof -
  have "validate_transfer_file_names Linux [(''a/b.txt'', 1)] = Inr ()" by code_simp
  moreover have "destination ''/home/u'' = [''home'', ''u'']" by code_simp
  ultimately show ?thesis
    using checked_transfer_stays_inside [of Linux "[(''a/b.txt'', 1)]" "''a/b.txt''" 1 "''.download''" "''/home/u''"] by simp
qed

text \<open>The client joins the names a remote machine sends without the check: they can lead anywhere.\<close>

lemma unchecked_name_escapes:
  "destination (path_join ''/home/u/Downloads'' ''../../../etc/passwd'') = [''etc'', ''passwd'']"
  "validate_file_name_no_traversal Linux ''../../../etc/passwd'' \<noteq> Inr ()"
  by code_simp+

end
