(* ===== verification/File_Store.thy ===== *)
theory File_Store
  imports File_Names
begin

text \<open>
  The files a transfer reads and writes: names lead to nodes, so that an open stream keeps its file
  when the name is moved, as on Unix. The operations are those of the standard library the transfer
  jobs use; whether the system refuses one is the answer of the environment to the call. A name is the
  text of a path: two texts that lead to the same file are not identified, and times are whole seconds.
\<close>

section \<open>Files\<close>

record file_node =
  fn_content :: bytes
  fn_mtime :: u64

record file_store =
  st_names :: "string \<rightharpoonup> nat"
  st_nodes :: "nat \<rightharpoonup> file_node"
  st_next :: nat

definition st_file :: "file_store \<Rightarrow> string \<Rightarrow> file_node option" where
  "st_file st p = (case st_names st p of None \<Rightarrow> None | Some n \<Rightarrow> st_nodes st n)"

definition st_exists :: "file_store \<Rightarrow> string \<Rightarrow> bool" where
  "st_exists st p \<longleftrightarrow> st_file st p \<noteq> None"

text \<open>\<open>File::create\<close>: an existing file is emptied, a new one gets a new node.\<close>

definition st_create :: "u64 \<Rightarrow> string \<Rightarrow> file_store \<Rightarrow> nat \<times> file_store" where
  "st_create now p st =
     (case st_names st p of
        Some n \<Rightarrow> (n, st\<lparr>st_nodes := (st_nodes st)(n \<mapsto> \<lparr>fn_content = [], fn_mtime = now\<rparr>)\<rparr>)
      | None \<Rightarrow> (st_next st,
          st\<lparr>st_names := (st_names st)(p \<mapsto> st_next st),
             st_nodes := (st_nodes st)(st_next st \<mapsto> \<lparr>fn_content = [], fn_mtime = now\<rparr>),
             st_next := Suc (st_next st)\<rparr>))"

definition st_remove :: "string \<Rightarrow> file_store \<Rightarrow> file_store" where
  "st_remove p st = st\<lparr>st_names := (st_names st)(p := None)\<rparr>"

text \<open>Links that are removed take with them what was reached through them.\<close>

definition below_any :: "target_os \<Rightarrow> string list \<Rightarrow> string \<Rightarrow> bool" where
  "below_any os links x \<longleftrightarrow> (\<exists>l \<in> set links. starts_with x l \<and> (length l < length x \<longrightarrow> is_path_sep os (x ! length l)))"

definition st_remove_links :: "target_os \<Rightarrow> string list \<Rightarrow> file_store \<Rightarrow> file_store" where
  "st_remove_links os links st = st\<lparr>st_names := (\<lambda>x. if below_any os links x then None else st_names st x)\<rparr>"

definition st_rename :: "string \<Rightarrow> string \<Rightarrow> file_store \<Rightarrow> file_store" where
  "st_rename p q st =
     (case st_names st p of
        None \<Rightarrow> st
      | Some n \<Rightarrow> if p = q then st else st\<lparr>st_names := (st_names st)(p := None, q \<mapsto> n)\<rparr>)"

definition st_set_mtime :: "string \<Rightarrow> u64 \<Rightarrow> file_store \<Rightarrow> file_store" where
  "st_set_mtime p t st =
     (case st_names st p of
        None \<Rightarrow> st
      | Some n \<Rightarrow> st\<lparr>st_nodes := (st_nodes st)(n := map_option (\<lambda>f. f\<lparr>fn_mtime := t\<rparr>) (st_nodes st n))\<rparr>)"

text \<open>Writing at a position; a gap behind the end is filled with zeros.\<close>

definition overwrite :: "nat \<Rightarrow> bytes \<Rightarrow> bytes \<Rightarrow> bytes" where
  "overwrite pos v content =
     take pos content @ replicate (pos - length content) 0 @ v @ drop (pos + length v) content"

definition st_write :: "u64 \<Rightarrow> nat \<Rightarrow> nat \<Rightarrow> bytes \<Rightarrow> file_store \<Rightarrow> file_store" where
  "st_write now n pos v st =
     st\<lparr>st_nodes := (st_nodes st)(n := map_option (\<lambda>f. \<lparr>fn_content = overwrite pos v (fn_content f), fn_mtime = now\<rparr>) (st_nodes st n))\<rparr>"

text \<open>\<open>std::fs::write\<close>: the whole content of a file.\<close>

definition st_write_file :: "u64 \<Rightarrow> string \<Rightarrow> bytes \<Rightarrow> file_store \<Rightarrow> file_store" where
  "st_write_file now p v st = (let (n, st) = st_create now p st in st_write now n 0 v st)"

definition st_ok :: "file_store \<Rightarrow> bool" where
  "st_ok st \<longleftrightarrow> (\<forall>p n. st_names st p = Some n \<longrightarrow> n < st_next st \<and> st_nodes st n \<noteq> None) \<and> inj_on (st_names st) (dom (st_names st))"

section \<open>Facts\<close>

lemma overwrite_end [simp]: "overwrite (length c) v c = c @ v"
  by (simp add: overwrite_def)

lemma overwrite_Nil [simp]: "overwrite 0 v [] = v"
  by (simp add: overwrite_def)

lemma st_okI:
  assumes "\<And>p n. st_names st p = Some n \<Longrightarrow> n < st_next st \<and> st_nodes st n \<noteq> None"
    and "\<And>p q n. st_names st p = Some n \<Longrightarrow> st_names st q = Some n \<Longrightarrow> p = q"
  shows "st_ok st"
  unfolding st_ok_def inj_on_def using assms by (auto simp: dom_def)

lemma st_okD:
  assumes "st_ok st" "st_names st p = Some n"
  shows "n < st_next st" "\<exists>f. st_nodes st n = Some f" "st_names st q = Some n \<Longrightarrow> q = p"
  using assms by (auto simp: st_ok_def inj_on_def dom_def)

lemma st_file_Some: "st_file st p = Some f \<longleftrightarrow> (\<exists>n. st_names st p = Some n \<and> st_nodes st n = Some f)"
  by (auto simp: st_file_def split: option.splits)

lemma st_exists_names: "st_ok st \<Longrightarrow> st_exists st p \<longleftrightarrow> st_names st p \<noteq> None"
  by (auto simp: st_exists_def st_file_def st_ok_def split: option.splits)

lemma st_ok_same_names:
  assumes "st_ok st" "st_names st' = st_names st" "st_next st' = st_next st"
    and "\<And>n. st_nodes st n \<noteq> None \<Longrightarrow> st_nodes st' n \<noteq> None"
  shows "st_ok st'"
  using assms by (fastforce simp: st_ok_def)

text \<open>Creating a file.\<close>

lemma st_create_props:
  assumes ok: "st_ok st" and c: "st_create now p st = (n, st')"
  shows "st_ok st'" "st_names st' p = Some n" "st_nodes st' n = Some \<lparr>fn_content = [], fn_mtime = now\<rparr>"
    "q \<noteq> p \<Longrightarrow> st_file st' q = st_file st q" "q \<noteq> p \<Longrightarrow> st_names st' q = st_names st q"
proof -
  note okD = st_okD [OF ok]
  have fresh: "st_names st q \<noteq> Some (st_next st)" for q using okD(1) by fastforce
  have "st_ok st' \<and> st_names st' p = Some n \<and> st_nodes st' n = Some \<lparr>fn_content = [], fn_mtime = now\<rparr>
    \<and> (q \<noteq> p \<longrightarrow> st_file st' q = st_file st q \<and> st_names st' q = st_names st q)"
  proof (cases "st_names st p")
    case None
    with c have st': "n = st_next st" "st' = st\<lparr>st_names := (st_names st)(p \<mapsto> st_next st),
        st_nodes := (st_nodes st)(st_next st \<mapsto> \<lparr>fn_content = [], fn_mtime = now\<rparr>), st_next := Suc (st_next st)\<rparr>"
      by (auto simp: st_create_def)
    have "st_ok st'" unfolding st'(2)
    proof (rule st_okI)
      fix a m
      assume "st_names (st\<lparr>st_names := (st_names st)(p \<mapsto> st_next st),
        st_nodes := (st_nodes st)(st_next st \<mapsto> \<lparr>fn_content = [], fn_mtime = now\<rparr>), st_next := Suc (st_next st)\<rparr>) a = Some m"
      then show "m < st_next (st\<lparr>st_names := (st_names st)(p \<mapsto> st_next st),
          st_nodes := (st_nodes st)(st_next st \<mapsto> \<lparr>fn_content = [], fn_mtime = now\<rparr>), st_next := Suc (st_next st)\<rparr>)
        \<and> st_nodes (st\<lparr>st_names := (st_names st)(p \<mapsto> st_next st),
          st_nodes := (st_nodes st)(st_next st \<mapsto> \<lparr>fn_content = [], fn_mtime = now\<rparr>), st_next := Suc (st_next st)\<rparr>) m \<noteq> None"
        using okD(1,2) [of a m] by (auto split: if_splits)
    next
      fix a b m
      assume "st_names (st\<lparr>st_names := (st_names st)(p \<mapsto> st_next st),
          st_nodes := (st_nodes st)(st_next st \<mapsto> \<lparr>fn_content = [], fn_mtime = now\<rparr>), st_next := Suc (st_next st)\<rparr>) a = Some m"
        "st_names (st\<lparr>st_names := (st_names st)(p \<mapsto> st_next st),
          st_nodes := (st_nodes st)(st_next st \<mapsto> \<lparr>fn_content = [], fn_mtime = now\<rparr>), st_next := Suc (st_next st)\<rparr>) b = Some m"
      then show "a = b" using fresh [of a] fresh [of b] okD(3) [of b m a] by (auto split: if_splits)
    qed
    with st' fresh [of q] show ?thesis by (auto simp: st_file_def split: option.split)
  next
    case (Some m)
    with c have st': "n = m" "st' = st\<lparr>st_nodes := (st_nodes st)(m \<mapsto> \<lparr>fn_content = [], fn_mtime = now\<rparr>)\<rparr>"
      by (auto simp: st_create_def)
    have "st_ok st'" by (rule st_ok_same_names [OF ok]) (simp_all add: st'(2))
    moreover have "q \<noteq> p \<Longrightarrow> st_names st q \<noteq> Some m" using okD(3) [OF Some] by blast
    ultimately show ?thesis using st' Some by (auto simp: st_file_def split: option.split)
  qed
  then show "st_ok st'" "st_names st' p = Some n" "st_nodes st' n = Some \<lparr>fn_content = [], fn_mtime = now\<rparr>"
    "q \<noteq> p \<Longrightarrow> st_file st' q = st_file st q" "q \<noteq> p \<Longrightarrow> st_names st' q = st_names st q" by blast+
qed

lemma st_remove_props:
  assumes "st_ok st"
  shows "st_ok (st_remove p st)" "st_file (st_remove p st) q = (if q = p then None else st_file st q)"
    "st_names (st_remove p st) q = (if q = p then None else st_names st q)"
proof -
  show "st_ok (st_remove p st)"
  proof (rule st_okI)
    fix a b m
    assume "st_names (st_remove p st) a = Some m" "st_names (st_remove p st) b = Some m"
    then show "a = b" using st_okD(3) [OF assms, of a m b] by (auto simp: st_remove_def split: if_splits)
  qed (use st_okD(1,2) [OF assms] in \<open>fastforce simp: st_remove_def split: if_splits\<close>)
qed (auto simp: st_remove_def st_file_def split: option.split)

lemma st_remove_links_props:
  assumes "st_ok st"
  shows "st_ok (st_remove_links os links st)"
    "st_file (st_remove_links os links st) q = (if below_any os links q then None else st_file st q)"
proof -
  show "st_ok (st_remove_links os links st)"
  proof (rule st_okI)
    fix a b m
    assume "st_names (st_remove_links os links st) a = Some m" "st_names (st_remove_links os links st) b = Some m"
    then show "a = b" using st_okD(3) [OF assms, of a m b] by (auto simp: st_remove_links_def split: if_splits)
  qed (use st_okD(1,2) [OF assms] in \<open>fastforce simp: st_remove_links_def split: if_splits\<close>)
qed (auto simp: st_remove_links_def st_file_def split: option.split)

lemma st_rename_props:
  assumes "st_ok st" "st_names st p = Some n" "p \<noteq> q"
  shows "st_ok (st_rename p q st)"
    "st_file (st_rename p q st) r = (if r = q then st_file st p else if r = p then None else st_file st r)"
    "st_names (st_rename p q st) r = (if r = q then Some n else if r = p then None else st_names st r)"
proof -
  have st': "st_rename p q st = st\<lparr>st_names := (st_names st)(p := None, q \<mapsto> n)\<rparr>"
    using assms by (simp add: st_rename_def)
  show "st_ok (st_rename p q st)"
  proof (rule st_okI)
    fix a m
    assume "st_names (st_rename p q st) a = Some m"
    then show "m < st_next (st_rename p q st) \<and> st_nodes (st_rename p q st) m \<noteq> None"
      using st_okD(1,2) [OF assms(1), of a m] st_okD(1,2) [OF assms(1,2)] by (auto simp: st' split: if_splits)
  next
    fix a b m
    assume "st_names (st_rename p q st) a = Some m" "st_names (st_rename p q st) b = Some m"
    then have "a = q \<and> m = n \<or> a \<noteq> p \<and> st_names st a = Some m" "b = q \<and> m = n \<or> b \<noteq> p \<and> st_names st b = Some m"
      by (auto simp: st' split: if_splits)
    then show "a = b" using st_okD(3) [OF assms(1)] assms(2) by blast
  qed
qed (use assms in \<open>auto simp: st_rename_def st_file_def split: option.split\<close>)

lemma st_rename_None: "st_names st p = None \<Longrightarrow> st_rename p q st = st"
  by (simp add: st_rename_def)

lemma st_set_mtime_props:
  assumes "st_ok st"
  shows "st_ok (st_set_mtime p t st)" "st_names (st_set_mtime p t st) = st_names st"
    "st_file (st_set_mtime p t st) q = (if q = p then map_option (\<lambda>f. f\<lparr>fn_mtime := t\<rparr>) (st_file st q) else st_file st q)"
proof -
  show "st_ok (st_set_mtime p t st)"
    by (rule st_ok_same_names [OF assms]; cases "st_names st p") (auto simp: st_set_mtime_def)
  show "st_file (st_set_mtime p t st) q = (if q = p then map_option (\<lambda>f. f\<lparr>fn_mtime := t\<rparr>) (st_file st q) else st_file st q)"
  proof (cases "st_names st p")
    case (Some n)
    show ?thesis
    proof (cases "q = p")
      case True
      with Some show ?thesis by (simp add: st_set_mtime_def st_file_def)
    next
      case False
      then have "st_names st q \<noteq> Some n" using st_okD(3) [OF assms Some] by blast
      with Some False show ?thesis by (auto simp: st_set_mtime_def st_file_def split: option.split)
    qed
  qed (simp add: st_set_mtime_def st_file_def)
qed (simp add: st_set_mtime_def split: option.split)

lemma st_write_props:
  assumes "st_ok st" "st_names st p = Some n" "st_nodes st n = Some f"
  shows "st_ok (st_write now n pos v st)" "st_names (st_write now n pos v st) = st_names st"
    "st_nodes (st_write now n pos v st) n = Some \<lparr>fn_content = overwrite pos v (fn_content f), fn_mtime = now\<rparr>"
    "q \<noteq> p \<Longrightarrow> st_file (st_write now n pos v st) q = st_file st q"
proof -
  show "st_ok (st_write now n pos v st)"
    by (rule st_ok_same_names [OF assms(1)]) (auto simp: st_write_def)
  show "st_file (st_write now n pos v st) q = st_file st q" if "q \<noteq> p"
  proof -
    have "st_names st q \<noteq> Some n" using st_okD(3) [OF assms(1,2)] that by blast
    then show ?thesis by (auto simp: st_write_def st_file_def split: option.split)
  qed
qed (use assms in \<open>simp_all add: st_write_def\<close>)

lemma st_write_file_props:
  assumes "st_ok st"
  shows "st_ok (st_write_file now p v st)"
    "st_file (st_write_file now p v st) q = (if q = p then Some \<lparr>fn_content = v, fn_mtime = now\<rparr> else st_file st q)"
    "q \<noteq> p \<Longrightarrow> st_names (st_write_file now p v st) q = st_names st q"
proof -
  obtain n st1 where c: "st_create now p st = (n, st1)" by fastforce
  note cp = st_create_props [OF assms c]
  note w = st_write_props [OF cp(1,2,3), where now = now and pos = 0 and v = v]
  show "st_ok (st_write_file now p v st)" using w(1) by (simp add: st_write_file_def c)
  show "st_file (st_write_file now p v st) q = (if q = p then Some \<lparr>fn_content = v, fn_mtime = now\<rparr> else st_file st q)"
    using w(2,3) w(4) [of q] cp(2) cp(4) [of q] by (auto simp: st_write_file_def c st_file_def)
  show "q \<noteq> p \<Longrightarrow> st_names (st_write_file now p v st) q = st_names st q"
    using w(2) cp(5) [of q] by (simp add: st_write_file_def c)
qed

end
