(* ===== verification/Transfer_Job.thy ===== *)
theory Transfer_Job
  imports File_Store
begin

text \<open>
  Transfer jobs (\<open>TransferJob\<close> of \<open>libs/hbb_common/src/fs.rs\<close>): the side that reads files and sends
  blocks, the side that receives blocks and writes files, overwrite detection and resuming. The
  environment says which calls the system refuses and holds the compressor, the decompressor and the
  text form of a digest; the JSON log of a job is not modelled. Paths are those of Unix, where making
  the parent directories has no effect on files. A send that fails ends the connection and with it the
  jobs, so the messages of a step are simply listed.
\<close>

section \<open>Data\<close>

datatype job_type = Generic | Printer

fun job_type_from_i32 :: "i32 \<Rightarrow> job_type" where
  "job_type_from_i32 value = (if value = 0 then Generic else if value = 1 then Printer else Generic)"

fun job_type_into_i32 :: "job_type \<Rightarrow> i32" where
  "job_type_into_i32 Generic = 0"
| "job_type_into_i32 Printer = 1"

datatype data_source = FilePath string | MemoryCursor bytes

fun to_meta :: "data_source \<Rightarrow> string" where
  "to_meta (FilePath p) = p"
| "to_meta (MemoryCursor _) = ''''"

text \<open>
  A stream on a file has the way it was opened, the node and the position; one on a buffer has the
  bytes. A file opened for reading cannot be written, and the other way round.
\<close>

datatype open_mode = ReadOnly | WriteOnly

datatype data_stream = FileStream open_mode nat nat | BufStream bytes nat

definition bad_descriptor :: string where
  "bad_descriptor = ''Bad file descriptor (os error 9)''"

record file_digest =
  dg_size :: u64
  dg_modified :: u64

record transfer_job =
  tj_id :: i32
  tj_type :: job_type
  tj_remote :: string
  tj_data_source :: data_source
  tj_show_hidden :: bool
  tj_is_remote :: bool
  tj_is_last_job :: bool
  tj_is_resume :: bool
  tj_file_num :: i32
  tj_files :: "file_entry list"
  tj_conn_id :: i32
  tj_data_stream :: "data_stream option"
  tj_total_size :: u64
  tj_finished_size :: u64
  tj_transferred :: u64
  tj_enable_overwrite_detection :: bool
  tj_file_confirmed :: bool
  tj_file_skipped :: bool
  tj_file_is_waiting :: bool
  tj_default_overwrite_strategy :: "bool option"
  tj_digest :: file_digest

record transfer_job_meta =
  tm_id :: i32
  tm_remote :: string
  tm_to :: string
  tm_show_hidden :: bool
  tm_file_num :: i32
  tm_is_remote :: bool

record file_transfer_block =
  fb_id :: i32
  fb_file_num :: i32
  fb_data :: bytes
  fb_compressed :: bool

record file_transfer_digest =
  ft_id :: i32
  ft_file_num :: i32
  ft_last_modified :: u64
  ft_file_size :: u64
  ft_is_upload :: bool
  ft_is_identical :: bool
  ft_transferred_size :: u64
  ft_is_resume :: bool

datatype confirm_union = Skip bool | OffsetBlk u32

record send_confirm_request =
  sc_id :: i32
  sc_file_num :: i32
  sc_union :: "confirm_union option"

datatype file_message =
    MsgBlock file_transfer_block
  | MsgError i32 string i32
  | MsgDone i32 i32
  | MsgDigest file_transfer_digest
  | MsgDir i32 string "file_entry list"
  | MsgEmptyDirs string "file_directory list"
  | MsgSendConfirm send_confirm_request

text \<open>
  The calls that can fail, and the environment that answers them; it also knows the part of the time of
  a file that is below a second, which the store does not keep.
\<close>

datatype io_call =
    CallCreate string | CallOpen string | CallRemove string | CallRename string string
  | CallWriteFile string | CallSetMtime string | CallWrite | CallSync | CallRead | CallSeek
  | CallMetadata | CallModified

record transfer_env =
  xe_io :: "io_call \<Rightarrow> string + unit"
  xe_now :: u64
  xe_compress :: "bytes \<Rightarrow> bytes"
  xe_decompress :: "bytes \<Rightarrow> bytes"
  xe_digest_text :: "file_digest \<Rightarrow> bytes"
  xe_parse_digest :: "bytes \<Rightarrow> file_digest option"
  xe_subsec_nanos :: "string \<Rightarrow> nat"

abbreviation io_ok :: "transfer_env \<Rightarrow> io_call \<Rightarrow> bool" where
  "io_ok env c \<equiv> xe_io env c = Inr ()"

definition io_error :: "transfer_env \<Rightarrow> io_call \<Rightarrow> string" where
  "io_error env c = (case xe_io env c of Inl e \<Rightarrow> e | Inr _ \<Rightarrow> '''')"

section \<open>Making a job\<close>

text \<open>The counter of job ids: the id and the next state; it wraps.\<close>

definition get_next_job_id :: "i32 \<Rightarrow> i32 \<times> i32" where
  "get_next_job_id next_id = (next_id, next_id + 1)"

definition update_next_job_id :: "i32 \<Rightarrow> i32 \<Rightarrow> i32" where
  "update_next_job_id i next_id = i"

text \<open>\<open>n as usize\<close> for an \<open>i32\<close>: a negative number is far out of range.\<close>

definition file_index :: "i32 \<Rightarrow> nat" where
  "file_index n = unat (scast n :: usize)"

definition default_job :: transfer_job where
  "default_job =
     \<lparr>tj_id = 0, tj_type = Generic, tj_remote = '''', tj_data_source = FilePath '''', tj_show_hidden = False,
      tj_is_remote = False, tj_is_last_job = False, tj_is_resume = False, tj_file_num = 0, tj_files = [],
      tj_conn_id = 0, tj_data_stream = None, tj_total_size = 0, tj_finished_size = 0, tj_transferred = 0,
      tj_enable_overwrite_detection = False, tj_file_confirmed = False, tj_file_skipped = False,
      tj_file_is_waiting = False, tj_default_overwrite_strategy = None,
      tj_digest = \<lparr>dg_size = 0, dg_modified = 0\<rparr>\<rparr>"

definition sum_sizes :: "file_entry list \<Rightarrow> u64" where
  "sum_sizes files = sum_list (map fe_size files)"

definition new_write ::
  "i32 \<Rightarrow> job_type \<Rightarrow> string \<Rightarrow> data_source \<Rightarrow> i32 \<Rightarrow> bool \<Rightarrow> bool \<Rightarrow> file_entry list \<Rightarrow> bool \<Rightarrow> transfer_job" where
  "new_write id' type' remote data_source file_num show_hidden is_remote files enable_overwrite_detection =
     default_job\<lparr>tj_id := id', tj_type := type', tj_remote := remote, tj_data_source := data_source,
       tj_file_num := file_num, tj_show_hidden := show_hidden, tj_is_remote := is_remote, tj_files := files,
       tj_total_size := sum_sizes files, tj_enable_overwrite_detection := enable_overwrite_detection\<rparr>"

text \<open>\<open>tree\<close> is what the path of the job leads to.\<close>

definition new_read ::
  "target_os \<Rightarrow> fs_tree option \<Rightarrow> i32 \<Rightarrow> job_type \<Rightarrow> string \<Rightarrow> data_source \<Rightarrow> i32 \<Rightarrow> bool \<Rightarrow> bool \<Rightarrow> bool
    \<Rightarrow> string + transfer_job" where
  "new_read os tree id' type' remote data_source file_num show_hidden is_remote enable_overwrite_detection =
     (case (case data_source of
              FilePath p \<Rightarrow> (case get_recursive_files os p tree show_hidden of
                 Inl e \<Rightarrow> Inl e
               | Inr files \<Rightarrow> Inr (files, sum_sizes files))
            | MemoryCursor c \<Rightarrow> Inr ([], of_nat (length c))) of
        Inl e \<Rightarrow> Inl e
      | Inr (files, total_size) \<Rightarrow>
          Inr (default_job\<lparr>tj_id := id', tj_type := type', tj_remote := remote, tj_data_source := data_source,
            tj_file_num := file_num, tj_show_hidden := show_hidden, tj_is_remote := is_remote, tj_files := files,
            tj_total_size := total_size, tj_enable_overwrite_detection := enable_overwrite_detection\<rparr>))"

definition gen_meta :: "transfer_job \<Rightarrow> transfer_job_meta" where
  "gen_meta job = \<lparr>tm_id = tj_id job, tm_remote = tj_remote job, tm_to = to_meta (tj_data_source job),
     tm_show_hidden = tj_show_hidden job, tm_file_num = tj_file_num job, tm_is_remote = tj_is_remote job\<rparr>"

definition get_buf_data :: "transfer_job \<Rightarrow> bytes option" where
  "get_buf_data job = (case tj_data_stream job of Some (BufStream b _) \<Rightarrow> Some b | _ \<Rightarrow> None)"

definition set_files :: "file_entry list \<Rightarrow> transfer_job \<Rightarrow> transfer_job" where
  "set_files files job = job\<lparr>tj_files := files\<rparr>"

definition set_digest :: "u64 \<Rightarrow> u64 \<Rightarrow> transfer_job \<Rightarrow> transfer_job" where
  "set_digest sz modified job = job\<lparr>tj_digest := \<lparr>dg_size = sz, dg_modified = modified\<rparr>\<rparr>"

text \<open>\<open>TransferJob::join\<close>\<close>

definition job_join :: "string \<Rightarrow> string \<Rightarrow> string" where
  "job_join p name = (if name = [] then p else path_join p name)"

definition set_finished_size_on_resume :: "transfer_job \<Rightarrow> transfer_job" where
  "set_finished_size_on_resume job =
     (if tj_is_resume job \<and> 0 < sint (tj_file_num job)
      then job\<lparr>tj_finished_size := sum_sizes (take (file_index (tj_file_num job)) (tj_files job))\<rparr>
      else job)"

section \<open>The writing side\<close>

text \<open>
  The path of the current file when there is one: not for a printer job, a buffer, or a number out of
  range.
\<close>

definition current_entry :: "transfer_job \<Rightarrow> (string \<times> file_entry) option" where
  "current_entry job =
     (if tj_type job = Printer then None
      else case tj_data_source job of
             MemoryCursor _ \<Rightarrow> None
           | FilePath p \<Rightarrow>
               (let file_num = file_index (tj_file_num job) in
                if file_num < length (tj_files job)
                then Some (job_join p (fe_name (tj_files job ! file_num)), tj_files job ! file_num)
                else None))"

definition modify_time :: "transfer_env \<Rightarrow> transfer_job \<Rightarrow> file_store \<Rightarrow> file_store" where
  "modify_time env job st =
     (case current_entry job of
        None \<Rightarrow> st
      | Some (path, entry) \<Rightarrow>
          (let download_path = download_name path;
               digest_path = digest_name path;
               st = (if io_ok env (CallRemove digest_path) then st_remove digest_path st else st);
               st = (if io_ok env (CallRename download_path path) then st_rename download_path path st else st)
           in if io_ok env (CallSetMtime path) then st_set_mtime path (fe_modified_time entry) st else st))"

definition remove_download_file :: "transfer_env \<Rightarrow> transfer_job \<Rightarrow> file_store \<Rightarrow> file_store" where
  "remove_download_file env job st =
     (case current_entry job of
        None \<Rightarrow> st
      | Some (path, entry) \<Rightarrow>
          (let st = (if io_ok env (CallRemove (download_name path)) then st_remove (download_name path) st else st)
           in if io_ok env (CallRemove (digest_name path)) then st_remove (digest_name path) st else st))"

text \<open>Writing bytes to the stream of the job: the stream moves on.\<close>

definition stream_write ::
  "transfer_env \<Rightarrow> bytes \<Rightarrow> data_stream \<Rightarrow> file_store \<Rightarrow> (string + data_stream) \<times> file_store" where
  "stream_write env v stream st =
     (if \<not> io_ok env CallWrite then (Inl (io_error env CallWrite), st)
      else case stream of
        FileStream ReadOnly _ _ \<Rightarrow> (if v = [] then (Inr stream, st) else (Inl bad_descriptor, st))
      | FileStream WriteOnly n pos \<Rightarrow> (Inr (FileStream WriteOnly n (pos + length v)), st_write (xe_now env) n pos v st)
      | BufStream b pos \<Rightarrow> (Inr (BufStream (overwrite pos v b) (pos + length v)), st))"

text \<open>Beginning the file of a block: finishing the current one, making the new one and its digest.\<close>

definition begin_file ::
  "transfer_env \<Rightarrow> string \<Rightarrow> i32 \<Rightarrow> transfer_job \<Rightarrow> file_store \<Rightarrow> (string + transfer_job) \<times> transfer_job \<times> file_store" where
  "begin_file env p block_file_num job st =
     (let st = modify_time env job st in
      if (case tj_data_stream job of Some (FileStream _ _ _) \<Rightarrow> True | _ \<Rightarrow> False) \<and> \<not> io_ok env CallSync
      then (Inl (io_error env CallSync), job, st)
      else let job = job\<lparr>tj_file_num := block_file_num\<rparr>;
               entry = tj_files job ! file_index block_file_num;
               file_path = job_join p (fe_name entry);
               path = (if tj_type job = Printer then p else download_name file_path);
               digest_path = (if tj_type job = Printer then None else Some (digest_name file_path)) in
           if (case digest_path of Some dp \<Rightarrow> st_exists st dp \<and> \<not> io_ok env (CallRemove dp) | None \<Rightarrow> False)
           then (Inl (io_error env (CallRemove (the digest_path))), job, st)
           else let st = (case digest_path of Some dp \<Rightarrow> st_remove dp st | None \<Rightarrow> st) in
                if \<not> io_ok env (CallCreate path) then (Inl (io_error env (CallCreate path)), job, st)
                else let (n, st) = st_create (xe_now env) path st;
                         job = job\<lparr>tj_data_stream := Some (FileStream WriteOnly n 0)\<rparr>;
                         st = (case digest_path of
                                 Some dp \<Rightarrow> if io_ok env (CallWriteFile dp)
                                            then st_write_file (xe_now env) dp (xe_digest_text env (tj_digest job)) st else st
                               | None \<Rightarrow> st)
                     in (Inr job, job, st))"

text \<open>Writing the data of a block to the stream and counting it.\<close>

definition write_data ::
  "transfer_env \<Rightarrow> file_transfer_block \<Rightarrow> transfer_job \<Rightarrow> file_store \<Rightarrow> (string + unit) \<times> transfer_job \<times> file_store" where
  "write_data env block job st =
     (let v = (if fb_compressed block then xe_decompress env (fb_data block) else fb_data block) in
      case tj_data_stream job of
        None \<Rightarrow> (Inl (if fb_compressed block then ''data stream is None'' else ''file is None''), job, st)
      | Some stream \<Rightarrow>
          (case stream_write env v stream st of
             (Inl e, st) \<Rightarrow> (Inl e, job, st)
           | (Inr stream, st) \<Rightarrow>
               (Inr (), job\<lparr>tj_data_stream := Some stream,
                  tj_finished_size := tj_finished_size job + of_nat (length v),
                  tj_transferred := tj_transferred job + of_nat (length (fb_data block))\<rparr>, st)))"

definition job_write ::
  "transfer_env \<Rightarrow> file_transfer_block \<Rightarrow> transfer_job \<Rightarrow> file_store \<Rightarrow> (string + unit) \<times> transfer_job \<times> file_store" where
  "job_write env block job st =
     (if fb_id block \<noteq> tj_id job then (Inl ''Wrong id'', job, st)
      else case tj_data_source job of
        FilePath p \<Rightarrow>
          (if length (tj_files job) \<le> file_index (fb_file_num block) then (Inl ''Wrong file number'', job, st)
           else if file_index (fb_file_num block) \<noteq> file_index (tj_file_num job) \<or> tj_data_stream job = None
           then case begin_file env p (fb_file_num block) job st of
                  (Inl e, job, st) \<Rightarrow> (Inl e, job, st)
                | (Inr job, _, st) \<Rightarrow> write_data env block job st
           else write_data env block job st)
      | MemoryCursor c \<Rightarrow>
          write_data env block
            (if tj_data_stream job = None then job\<lparr>tj_data_stream := Some (BufStream c 0)\<rparr> else job) st)"

section \<open>The reading side\<close>

definition BUF_SIZE :: nat where "BUF_SIZE = 128 * 1024"

fun get_ext_from :: "string \<Rightarrow> string option" where
  "get_ext_from [] = None"
| "get_ext_from (c # cs) =
     (case get_ext_from cs of
        Some e \<Rightarrow> Some e
      | None \<Rightarrow> if c = CHR ''.'' then Some cs else None)"

text \<open>The part behind the last dot.\<close>

definition get_ext :: "string \<Rightarrow> string" where
  "get_ext name = (case get_ext_from name of Some e \<Rightarrow> e | None \<Rightarrow> '''')"

definition is_compressed_file :: "string \<Rightarrow> bool" where
  "is_compressed_file name \<longleftrightarrow>
     get_ext name \<in> set [''xz'', ''gz'', ''zip'', ''7z'', ''rar'', ''bz2'', ''tgz'', ''png'', ''jpg'']"

text \<open>The last component of a path, nothing for a path that ends in \<open>..\<close> or has no component.\<close>

definition path_file_name :: "string \<Rightarrow> string" where
  "path_file_name p =
     (case rev (filter (\<lambda>s. s \<noteq> [] \<and> s \<noteq> ''.'') (split_chars is_slash p)) of
        [] \<Rightarrow> ''''
      | s # _ \<Rightarrow> if s = ''..'' then '''' else s)"

text \<open>\<open>Inr True\<close> when the job is done.\<close>

definition open_data_stream :: "transfer_env \<Rightarrow> transfer_job \<Rightarrow> file_store \<Rightarrow> (string + bool) \<times> transfer_job" where
  "open_data_stream env job st =
     (let file_num = file_index (tj_file_num job) in
      case tj_data_source job of
        FilePath p \<Rightarrow>
          (if length (tj_files job) \<le> file_num then (Inr True, job\<lparr>tj_data_stream := None\<rparr>)
           else if tj_data_stream job = None
           then let path = job_join p (fe_name (tj_files job ! file_num)) in
                case st_names st path of
                  Some n \<Rightarrow>
                    if io_ok env (CallOpen path)
                    then (Inr False, job\<lparr>tj_data_stream := Some (FileStream ReadOnly n 0), tj_file_confirmed := False,
                            tj_file_is_waiting := False\<rparr>)
                    else (Inl (io_error env (CallOpen path)), job\<lparr>tj_file_num := tj_file_num job + 1,
                            tj_file_confirmed := False, tj_file_is_waiting := False\<rparr>)
                | None \<Rightarrow> (Inl ''not found'', job\<lparr>tj_file_num := tj_file_num job + 1,
                            tj_file_confirmed := False, tj_file_is_waiting := False\<rparr>)
           else (Inr False, job))
      | MemoryCursor c \<Rightarrow>
          (if tj_data_stream job = None
           then (Inr False, job\<lparr>tj_data_source := MemoryCursor [], tj_data_stream := Some (BufStream c 0)\<rparr>)
           else (Inr False, job)))"

definition get_current_digest :: "transfer_env \<Rightarrow> transfer_job \<Rightarrow> file_store \<Rightarrow> string + (u64 \<times> u64)" where
  "get_current_digest env job st =
     (case tj_data_stream job of
        None \<Rightarrow> Inl ''file is None''
      | Some (BufStream _ _) \<Rightarrow> Inl ''No digest for buf stream''
      | Some (FileStream _ n _) \<Rightarrow>
          (case st_nodes st n of
             None \<Rightarrow> Inl ''not found''
           | Some f \<Rightarrow>
               if \<not> io_ok env CallMetadata then Inl (io_error env CallMetadata)
               else if \<not> io_ok env CallModified then Inl (io_error env CallModified)
               else Inr (fn_mtime f, of_nat (length (fn_content f)))))"

definition set_file_is_waiting :: "bool \<Rightarrow> transfer_job \<Rightarrow> transfer_job" where
  "set_file_is_waiting w job = job\<lparr>tj_file_is_waiting := w\<rparr>"

definition wants_confirmation :: "transfer_job \<Rightarrow> bool" where
  "wants_confirmation job \<longleftrightarrow> tj_type job = Generic \<and> tj_enable_overwrite_detection job \<and>
     \<not> tj_file_confirmed job \<and> \<not> tj_file_is_waiting job"

definition init_data_stream ::
  "transfer_env \<Rightarrow> transfer_job \<Rightarrow> file_store \<Rightarrow> (string + file_message list) \<times> transfer_job" where
  "init_data_stream env job st =
     (case open_data_stream env job st of
        (Inl e, job) \<Rightarrow> (Inl e, job)
      | (Inr True, job) \<Rightarrow> (Inr [], job)
      | (Inr False, job) \<Rightarrow>
          (if wants_confirmation job
           then case get_current_digest env job st of
                  Inl e \<Rightarrow> (Inl e, job)
                | Inr (last_modified, file_size) \<Rightarrow>
                    (Inr [MsgDigest \<lparr>ft_id = tj_id job, ft_file_num = tj_file_num job, ft_last_modified = last_modified,
                        ft_file_size = file_size, ft_is_upload = False, ft_is_identical = False,
                        ft_transferred_size = 0, ft_is_resume = tj_is_resume job\<rparr>],
                     set_file_is_waiting True job)
           else (Inr [], job)))"

definition init_data_stream_for_cm ::
  "transfer_env \<Rightarrow> transfer_job \<Rightarrow> file_store \<Rightarrow> (string + (u64 \<times> u64) option) \<times> transfer_job" where
  "init_data_stream_for_cm env job st =
     (case open_data_stream env job st of
        (Inl e, job) \<Rightarrow> (Inl e, job)
      | (Inr True, job) \<Rightarrow> (Inr None, job)
      | (Inr False, job) \<Rightarrow>
          (if wants_confirmation job
           then case get_current_digest env job st of
                  Inl e \<Rightarrow> (Inl e, job)
                | Inr digest \<Rightarrow> (Inr (Some digest), set_file_is_waiting True job)
           else (Inr None, job)))"

text \<open>Filling the buffer: up to \<open>BUF_SIZE\<close> bytes from the stream, which moves on.\<close>

definition stream_read :: "data_stream \<Rightarrow> file_store \<Rightarrow> bytes \<times> data_stream" where
  "stream_read stream st =
     (case stream of
        FileStream m n pos \<Rightarrow>
          (let v = take BUF_SIZE (drop pos (case st_nodes st n of Some f \<Rightarrow> fn_content f | None \<Rightarrow> []))
           in (v, FileStream m n (pos + length v)))
      | BufStream b pos \<Rightarrow> (let v = take BUF_SIZE (drop pos b) in (v, BufStream b (pos + length v))))"

text \<open>Leaving the current file.\<close>

definition next_file :: "transfer_job \<Rightarrow> transfer_job" where
  "next_file job = job\<lparr>tj_file_num := tj_file_num job + 1, tj_data_stream := None, tj_file_confirmed := False,
     tj_file_is_waiting := False\<rparr>"

definition is_file_path :: "data_source \<Rightarrow> bool" where
  "is_file_path s \<longleftrightarrow> (case s of FilePath _ \<Rightarrow> True | MemoryCursor _ \<Rightarrow> False)"

text \<open>The part of \<open>read\<close> from the stream on, with the name that decides on compression.\<close>

definition read_block ::
  "transfer_env \<Rightarrow> string \<Rightarrow> transfer_job \<Rightarrow> file_store \<Rightarrow> (string + file_transfer_block option) \<times> transfer_job" where
  "read_block env name job st =
     (case tj_data_stream job of
        None \<Rightarrow> (Inl ''data stream is None'', job)
      | Some stream \<Rightarrow>
          if (case stream of FileStream WriteOnly _ _ \<Rightarrow> True | _ \<Rightarrow> False) then (Inl bad_descriptor, next_file job)
          else if \<not> io_ok env CallRead then (Inl (io_error env CallRead), next_file job)
          else let (buf, stream) = stream_read stream st in
            if buf = [] \<and> \<not> is_file_path (tj_data_source job)
            then (Inr None, job\<lparr>tj_data_stream := None\<rparr>)
            else if buf = []
            then (Inr (Some \<lparr>fb_id = tj_id job, fb_file_num = tj_file_num job, fb_data = [], fb_compressed = False\<rparr>), next_file job)
            else let compressed = (is_file_path (tj_data_source job) \<and> \<not> is_compressed_file name
                                   \<and> length (xe_compress env buf) < length buf);
                     v = (if compressed then xe_compress env buf else buf)
                 in (Inr (Some \<lparr>fb_id = tj_id job, fb_file_num = tj_file_num job, fb_data = v, fb_compressed = compressed\<rparr>),
                     job\<lparr>tj_data_stream := Some stream,
                         tj_finished_size := tj_finished_size job + of_nat (length buf),
                         tj_transferred := tj_transferred job + of_nat (length v)\<rparr>))"

definition job_read ::
  "transfer_env \<Rightarrow> transfer_job \<Rightarrow> file_store \<Rightarrow> (string + file_transfer_block option) \<times> transfer_job" where
  "job_read env job st =
     (if tj_type job = Generic \<and> tj_enable_overwrite_detection job \<and> \<not> tj_file_confirmed job
      then (Inr None, job)
      else let file_num = file_index (tj_file_num job) in
        case tj_data_source job of
          FilePath p \<Rightarrow>
            (if length (tj_files job) \<le> file_num then (Inr None, job\<lparr>tj_data_stream := None\<rparr>)
             else read_block env
                    (if length (tj_files job) = 1 \<and> fe_name (tj_files job ! file_num) = []
                     then path_file_name p else fe_name (tj_files job ! file_num)) job st)
        | MemoryCursor _ \<Rightarrow> read_block env '''' job st)"

section \<open>Confirmation and resuming\<close>

definition set_overwrite_strategy :: "bool option \<Rightarrow> transfer_job \<Rightarrow> transfer_job" where
  "set_overwrite_strategy s job = job\<lparr>tj_default_overwrite_strategy := s\<rparr>"

definition set_file_confirmed :: "bool \<Rightarrow> transfer_job \<Rightarrow> transfer_job" where
  "set_file_confirmed c job = job\<lparr>tj_file_confirmed := c, tj_file_skipped := False\<rparr>"

definition job_skipped :: "transfer_job \<Rightarrow> bool" where
  "job_skipped job \<longleftrightarrow> tj_file_skipped job \<and> length (tj_files job) = 1"

definition job_completed :: "transfer_job \<Rightarrow> bool" where
  "job_completed job \<longleftrightarrow>
     \<not> tj_enable_overwrite_detection job \<or> (\<not> tj_file_confirmed job \<and> \<not> tj_file_is_waiting job)"

definition job_error :: "transfer_job \<Rightarrow> string option" where
  "job_error job = (if job_skipped job then Some ''skipped'' else None)"

definition set_file_skipped :: "transfer_job \<Rightarrow> transfer_job" where
  "set_file_skipped job =
     (let job = set_file_is_waiting False (set_file_confirmed False (job\<lparr>tj_data_stream := None\<rparr>))
      in job\<lparr>tj_file_num := tj_file_num job + 1, tj_file_skipped := True\<rparr>)"

text \<open>\<open>None\<close> is the panic of an index out of range.\<close>

definition set_stream_offset :: "transfer_env \<Rightarrow> nat \<Rightarrow> u64 \<Rightarrow> transfer_job \<Rightarrow> file_store \<Rightarrow> transfer_job option" where
  "set_stream_offset env file_num offset job st =
     (case tj_data_source job of
        MemoryCursor _ \<Rightarrow> Some job
      | FilePath p \<Rightarrow>
          if length (tj_files job) \<le> file_num then None
          else let file_path = job_join p (fe_name (tj_files job ! file_num));
                   download_path = download_name file_path;
                   target = (if st_exists st download_path \<and> st_exists st (digest_name file_path) then Some (WriteOnly, download_path)
                             else if st_exists st file_path then Some (ReadOnly, file_path) else None)
               in case target of
                    None \<Rightarrow> Some job
                  | Some (mode, path) \<Rightarrow>
                      if \<not> io_ok env (CallOpen path) then Some job
                      else if \<not> io_ok env CallSeek then Some job
                      else Some (job\<lparr>tj_data_stream := Some (FileStream mode (the (st_names st path)) (unat offset)),
                                     tj_transferred := tj_transferred job + offset,
                                     tj_finished_size := tj_finished_size job + offset\<rparr>))"

definition confirm :: "transfer_env \<Rightarrow> send_confirm_request \<Rightarrow> transfer_job \<Rightarrow> file_store \<Rightarrow> transfer_job option" where
  "confirm env r job st =
     (if tj_file_num job \<noteq> sc_file_num r then Some job
      else case sc_union r of
        Some (Skip s) \<Rightarrow> Some (if s then set_file_skipped job else set_file_confirmed True job)
      | Some (OffsetBlk offset) \<Rightarrow>
          (let job = set_file_confirmed True job in
           if 0 < offset then set_stream_offset env (file_index (sc_file_num r)) (ucast offset) job st else Some job)
      | None \<Rightarrow> Some job)"

datatype digest_check_result = IsSame | NeedConfirm file_transfer_digest | NoSuchFile

text \<open>The digest of a partial download that can be resumed.\<close>

definition resumable :: "transfer_env \<Rightarrow> bool \<Rightarrow> string \<Rightarrow> file_transfer_digest \<Rightarrow> file_store \<Rightarrow> file_transfer_digest option" where
  "resumable env is_resume file_path digest st =
     (if is_resume
      then case (st_file st (digest_name file_path), st_file st (download_name file_path)) of
             (Some content, Some download) \<Rightarrow>
               (case (if io_ok env (CallOpen (digest_name file_path)) then xe_parse_digest env (fn_content content) else None) of
                  Some local_digest \<Rightarrow>
                    if dg_modified local_digest = ft_last_modified digest \<and> dg_size local_digest = ft_file_size digest
                       \<and> io_ok env CallMetadata \<and> (0 :: u64) < of_nat (length (fn_content download))
                    then Some \<lparr>ft_id = ft_id digest, ft_file_num = ft_file_num digest,
                           ft_last_modified = ft_last_modified digest, ft_file_size = ft_file_size digest,
                           ft_is_upload = False, ft_is_identical = True,
                           ft_transferred_size = of_nat (length (fn_content download)), ft_is_resume = False\<rparr>
                    else None
                | None \<Rightarrow> None)
           | _ \<Rightarrow> None
      else None)"

definition is_write_need_confirmation ::
  "transfer_env \<Rightarrow> bool \<Rightarrow> string \<Rightarrow> file_transfer_digest \<Rightarrow> file_store \<Rightarrow> string + digest_check_result" where
  "is_write_need_confirmation env is_resume file_path digest st =
     (case resumable env is_resume file_path digest st of
        Some d \<Rightarrow> Inr (NeedConfirm d)
      | None \<Rightarrow>
          (case st_file st file_path of
             None \<Rightarrow> Inr NoSuchFile
           | Some f \<Rightarrow>
               if \<not> io_ok env CallMetadata then Inl (io_error env CallMetadata)
               else if \<not> io_ok env CallModified then Inl (io_error env CallModified)
               else Inr (NeedConfirm \<lparr>ft_id = ft_id digest, ft_file_num = ft_file_num digest,
                      ft_last_modified = fn_mtime f, ft_file_size = of_nat (length (fn_content f)),
                      ft_is_upload = False,
                      ft_is_identical = (ft_last_modified digest = fn_mtime f \<and> xe_subsec_nanos env file_path = 0
                        \<and> ft_file_size digest = of_nat (length (fn_content f))),
                      ft_transferred_size = 0, ft_is_resume = False\<rparr>)))"

section \<open>Lists of jobs\<close>

fun remove_job :: "i32 \<Rightarrow> transfer_job list \<Rightarrow> transfer_job option \<times> transfer_job list" where
  "remove_job i [] = (None, [])"
| "remove_job i (job # jobs) =
     (if tj_id job = i then (Some job, jobs)
      else case remove_job i jobs of (r, jobs) \<Rightarrow> (r, job # jobs))"

definition get_job :: "i32 \<Rightarrow> transfer_job list \<Rightarrow> transfer_job option" where
  "get_job i jobs = List.find (\<lambda>job. tj_id job = i) jobs"

text \<open>Writing back a job found by its id: the first of that id.\<close>

fun put_job :: "transfer_job \<Rightarrow> transfer_job list \<Rightarrow> transfer_job list" where
  "put_job job [] = []"
| "put_job job (j # jobs) = (if tj_id j = tj_id job then job # jobs else j # put_job job jobs)"

fun init_jobs :: "transfer_env \<Rightarrow> file_store \<Rightarrow> transfer_job list \<Rightarrow> transfer_job list \<times> file_message list" where
  "init_jobs env st [] = ([], [])"
| "init_jobs env st (job # jobs) =
     (if tj_is_last_job job then (case init_jobs env st jobs of (js, ms) \<Rightarrow> (job # js, ms))
      else case init_data_stream env job st of
             (r, job) \<Rightarrow>
               (case init_jobs env st jobs of
                  (js, ms) \<Rightarrow> (job # js, (case r of Inr m \<Rightarrow> m | Inl e \<Rightarrow> [MsgError (tj_id job) e (tj_file_num job)]) @ ms)))"

text \<open>The outcome that is logged: the job, whether it is done, and the error.\<close>

type_synonym job_log = "(transfer_job \<times> bool \<times> string) option"

text \<open>Reading from the first job that is not waiting to be resumed: the jobs, the messages, the finished id.\<close>

fun read_first_job ::
  "transfer_env \<Rightarrow> file_store \<Rightarrow> transfer_job list \<Rightarrow> transfer_job list \<times> file_message list \<times> i32 list \<times> job_log" where
  "read_first_job env st [] = ([], [], [], None)"
| "read_first_job env st (job # jobs) =
     (if tj_is_last_job job
      then (case read_first_job env st jobs of (js, ms, fin, log) \<Rightarrow> (job # js, ms, fin, log))
      else case job_read env job st of
        (Inl e, job) \<Rightarrow> (job # jobs, [MsgError (tj_id job) e (tj_file_num job)], [], None)
      | (Inr (Some block), job) \<Rightarrow> (job # jobs, [MsgBlock block], [], None)
      | (Inr None, job) \<Rightarrow>
          (if job_completed job
           then (job # jobs,
                 [case job_error job of
                    Some e \<Rightarrow> MsgError (tj_id job) e (tj_file_num job)
                  | None \<Rightarrow> MsgDone (tj_id job) (tj_file_num job)],
                 [tj_id job], Some (job, job_error job = None, case job_error job of Some e \<Rightarrow> e | None \<Rightarrow> ''''))
           else (job # jobs, [], [], None)))"

definition handle_read_jobs ::
  "transfer_env \<Rightarrow> transfer_job list \<Rightarrow> file_store \<Rightarrow> transfer_job list \<times> file_message list \<times> job_log" where
  "handle_read_jobs env jobs st =
     (let (jobs, ms) = init_jobs env st jobs;
          (jobs, ms', finished, log) = read_first_job env st jobs
      in (fold (\<lambda>i js. snd (remove_job i js)) finished jobs, ms @ ms', log))"

section \<open>Single files\<close>

definition remove_file :: "transfer_env \<Rightarrow> string \<Rightarrow> file_store \<Rightarrow> (string + unit) \<times> file_store" where
  "remove_file env file st =
     (if st_names st file = None then (Inl ''not found'', st)
      else if io_ok env (CallRemove file) then (Inr (), st_remove file st)
      else (Inl (io_error env (CallRemove file)), st))"

text \<open>\<open>Path::parent\<close>: without the last component, nothing for the root and the empty path.\<close>

definition path_components :: "string \<Rightarrow> string list" where
  "path_components p = filter (\<lambda>s. s \<noteq> [] \<and> s \<noteq> ''.'') (split_chars is_slash p)"

fun join_components :: "string list \<Rightarrow> string" where
  "join_components [] = []"
| "join_components [c] = c"
| "join_components (c # cs) = c @ CHR ''/'' # join_components cs"

definition path_parent :: "string \<Rightarrow> string option" where
  "path_parent p =
     (if path_components p = [] then None
      else Some ((if is_absolute p then ''/'' else []) @ join_components (butlast (path_components p))))"

definition quoted :: "string \<Rightarrow> string" where
  "quoted s = CHR 0x22 # s @ [CHR 0x22]"

definition rename_file :: "transfer_env \<Rightarrow> string \<Rightarrow> string \<Rightarrow> file_store \<Rightarrow> (string + unit) \<times> file_store" where
  "rename_file env path new_name st =
     (if \<not> st_exists st path then (Inl (quoted path @ '' not exists''), st)
      else case path_parent path of
             None \<Rightarrow> (Inl (''Parent directoy of '' @ quoted path @ '' not exists''), st)
           | Some dir \<Rightarrow>
               (let new_path = path_join dir new_name in
                if io_ok env (CallRename path new_path) then (Inr (), st_rename path new_path st)
                else (Inl (io_error env (CallRename path new_path)), st)))"

definition transform_windows_path :: "file_entry list \<Rightarrow> file_entry list" where
  "transform_windows_path entries =
     map (\<lambda>entry. entry\<lparr>fe_name := map (\<lambda>c. if c = CHR 0x5C then CHR ''/'' else c) (fe_name entry)\<rparr>) entries"

end
