(* ===== verification/Transfer_Run.thy ===== *)
theory Transfer_Run
  imports Transfer_Job
begin

text \<open>
  The rounds of the sending side and the messages the receiving side handles, resuming a file, and what
  happens when a file cannot be opened or created. Whole transfers are in theory Transfer_Exchange.
\<close>

section \<open>The two ends\<close>

text \<open>Rounds of the sending side, over files that do not change meanwhile.\<close>

fun send_rounds :: "transfer_env \<Rightarrow> file_store \<Rightarrow> nat \<Rightarrow> transfer_job list \<Rightarrow> file_message list \<times> transfer_job list" where
  "send_rounds env st 0 jobs = ([], jobs)"
| "send_rounds env st (Suc n) jobs =
     (let (jobs, ms, _) = handle_read_jobs env jobs st;
          (ms', jobs) = send_rounds env st n jobs
      in (ms @ ms', jobs))"

text \<open>
  The receiving client (\<open>src/client/io_loop.rs\<close>): a block goes to the job of its id, and an error of the
  write is dropped; a done message finishes and removes the job.
\<close>

definition receive_message ::
  "transfer_env \<Rightarrow> file_message \<Rightarrow> transfer_job list \<times> file_store \<Rightarrow> transfer_job list \<times> file_store" where
  "receive_message env m = (\<lambda>(jobs, st).
     case m of
       MsgBlock block \<Rightarrow>
         (case get_job (fb_id block) jobs of
            None \<Rightarrow> (jobs, st)
          | Some job \<Rightarrow> (let (_, job, st) = job_write env block job st in (put_job job jobs, st)))
     | MsgDone i _ \<Rightarrow>
         (case remove_job i jobs of
            (None, jobs) \<Rightarrow> (jobs, st)
          | (Some job, jobs) \<Rightarrow> (jobs, modify_time env job st))
     | _ \<Rightarrow> (jobs, st))"

section \<open>Sending a file\<close>

definition env_calm :: "transfer_env \<Rightarrow> bool" where
  "env_calm env \<longleftrightarrow> (\<forall>c. io_ok env c)"

lemma env_calmD [simp]: "env_calm env \<Longrightarrow> io_ok env c"
  by (simp add: env_calm_def)

function chunks :: "bytes \<Rightarrow> bytes list" where
  "chunks v = (if v = [] then [] else take BUF_SIZE v # chunks (drop BUF_SIZE v))"
  by pat_completeness auto
termination by (relation "measure length") (auto simp: BUF_SIZE_def)

declare chunks.simps [simp del]

lemma chunks_Nil [simp]: "chunks [] = []"
  by (simp add: chunks.simps)

lemma concat_chunks: "concat (chunks v) = v"
proof (induction v rule: chunks.induct)
  case (1 v)
  then show ?case by (cases "v = []") (simp_all add: chunks.simps [of v])
qed

text \<open>The block made of a chunk.\<close>

definition block_of :: "transfer_env \<Rightarrow> string \<Rightarrow> i32 \<Rightarrow> i32 \<Rightarrow> bytes \<Rightarrow> file_transfer_block" where
  "block_of env name i k v =
     (if v \<noteq> [] \<and> \<not> is_compressed_file name \<and> length (xe_compress env v) < length v
      then \<lparr>fb_id = i, fb_file_num = k, fb_data = xe_compress env v, fb_compressed = True\<rparr>
      else \<lparr>fb_id = i, fb_file_num = k, fb_data = v, fb_compressed = False\<rparr>)"

definition file_blocks :: "transfer_env \<Rightarrow> string \<Rightarrow> i32 \<Rightarrow> i32 \<Rightarrow> bytes \<Rightarrow> file_transfer_block list" where
  "file_blocks env name i k content = map (block_of env name i k) (chunks content @ [[]])"

text \<open>The name that decides on compression.\<close>

definition job_name :: "string \<Rightarrow> transfer_job \<Rightarrow> nat \<Rightarrow> string" where
  "job_name p job k = (if length (tj_files job) = 1 \<and> fe_name (tj_files job ! k) = [] then path_file_name p
     else fe_name (tj_files job ! k))"

text \<open>
  A job that reads file \<open>k\<close> from position \<open>pos\<close>: the stream is open or, at the beginning, still to be
  opened. With overwrite detection the file has been confirmed. \<open>s\<close> is the job as it was made.
\<close>

definition sending :: "transfer_job \<Rightarrow> file_store \<Rightarrow> string \<Rightarrow> nat \<Rightarrow> nat \<Rightarrow> transfer_job \<Rightarrow> bool" where
  "sending s st p k pos job \<longleftrightarrow>
     tj_id job = tj_id s \<and> tj_files job = tj_files s \<and> tj_data_source job = FilePath p \<and> tj_type job = Generic
     \<and> tj_is_last_job job = False \<and> tj_file_skipped job = False
     \<and> tj_enable_overwrite_detection job = tj_enable_overwrite_detection s
     \<and> (tj_enable_overwrite_detection s \<longrightarrow> tj_file_confirmed job \<and> tj_data_stream job \<noteq> None)
     \<and> tj_file_num job = of_nat k
     \<and> (case tj_data_stream job of
          None \<Rightarrow> pos = 0
        | Some stream \<Rightarrow> k < length (tj_files s) \<and>
            (\<exists>n. st_names st (job_join p (fe_name (tj_files s ! k))) = Some n \<and> stream = FileStream ReadOnly n pos))"

lemma sint_of_nat_i32: "k < 2 ^ 31 \<Longrightarrow> sint (of_nat k :: i32) = int k"
  by (simp add: signed_of_nat signed_take_bit_int_eq_self)

lemma file_index_of_nat:
  assumes "k < 2 ^ 31"
  shows "file_index (of_nat k) = k"
proof -
  have "(scast (of_nat k :: i32) :: usize) = of_nat k" using sint_of_nat_i32 [OF assms] by (simp add: scast_eq)
  then show ?thesis using assms by (simp add: file_index_def unat_of_nat take_bit_nat_eq_self)
qed

section \<open>Receiving files\<close>

text \<open>The three names of a file.\<close>

definition names_of :: "string \<Rightarrow> string set" where
  "names_of p = {p, download_name p, digest_name p}"

lemma three_names [simp]:
  "download_name p \<noteq> p" "p \<noteq> download_name p" "digest_name p \<noteq> p" "p \<noteq> digest_name p"
  "download_name p \<noteq> digest_name p" "digest_name p \<noteq> download_name p"
  by (simp_all add: download_name_def digest_name_def)

definition target :: "transfer_job \<Rightarrow> string \<Rightarrow> nat \<Rightarrow> string" where
  "target r q k = job_join q (fe_name (tj_files r ! k))"

text \<open>The first \<open>k\<close> files have arrived and nothing else has changed.\<close>

definition arrived :: "transfer_job \<Rightarrow> string \<Rightarrow> bytes list \<Rightarrow> file_store \<Rightarrow> nat \<Rightarrow> file_store \<Rightarrow> bool" where
  "arrived r q contents st0 k st \<longleftrightarrow> st_ok st
     \<and> (\<forall>j<k. st_file st (target r q j) = Some \<lparr>fn_content = contents ! j, fn_mtime = fe_modified_time (tj_files r ! j)\<rparr>
           \<and> st_file st (download_name (target r q j)) = None \<and> st_file st (digest_name (target r q j)) = None)
     \<and> (\<forall>x. (\<forall>j<length (tj_files r). x \<notin> names_of (target r q j)) \<longrightarrow> st_file st x = st_file st0 x)"

text \<open>What stays the same in a job while it writes.\<close>

definition same_job :: "transfer_job \<Rightarrow> string \<Rightarrow> transfer_job \<Rightarrow> bool" where
  "same_job r q job \<longleftrightarrow> tj_id job = tj_id r \<and> tj_type job = Generic \<and> tj_data_source job = FilePath q \<and> tj_files job = tj_files r"

definition before_file ::
  "transfer_env \<Rightarrow> transfer_job \<Rightarrow> string \<Rightarrow> bytes list \<Rightarrow> file_store \<Rightarrow> nat \<Rightarrow> transfer_job \<Rightarrow> file_store \<Rightarrow> bool" where
  "before_file env r q contents st0 k job st \<longleftrightarrow> same_job r q job
     \<and> (file_index (tj_file_num job) \<noteq> k \<or> tj_data_stream job = None)
     \<and> arrived r q contents st0 k (modify_time env job st)"

definition in_file ::
  "transfer_job \<Rightarrow> string \<Rightarrow> bytes list \<Rightarrow> file_store \<Rightarrow> nat \<Rightarrow> bytes \<Rightarrow> transfer_job \<Rightarrow> file_store \<Rightarrow> bool" where
  "in_file r q contents st0 k c job st \<longleftrightarrow> same_job r q job \<and> tj_file_num job = of_nat k
     \<and> arrived r q contents st0 k st
     \<and> (\<exists>n mt. tj_data_stream job = Some (FileStream WriteOnly n (length c)) \<and> st_names st (download_name (target r q k)) = Some n
          \<and> st_file st (download_name (target r q k)) = Some \<lparr>fn_content = c, fn_mtime = mt\<rparr>)"

lemma arrived_frame:
  assumes "arrived r q contents st0 k st" "st_ok st'" "k < length (tj_files r)"
    and "\<And>x. x \<notin> names_of (target r q k) \<Longrightarrow> st_file st' x = st_file st x"
    and "\<forall>i<length (tj_files r). \<forall>j<length (tj_files r). i \<noteq> j \<longrightarrow> names_of (target r q i) \<inter> names_of (target r q j) = {}"
  shows "arrived r q contents st0 k st'"
proof -
  have n: "x \<in> names_of (target r q j) \<Longrightarrow> j < k \<Longrightarrow> st_file st' x = st_file st x" for x j
    using assms(3,4) assms(5) [rule_format, of j k] by (metis disjoint_iff less_trans nat_neq_iff)
  show ?thesis
    using assms(1,2,3) n assms(4) unfolding arrived_def names_of_def by (metis insertI1 insertI2)
qed

lemma modify_time_props:
  assumes "env_calm env" "st_ok st" "current_entry job = Some (p, e)"
  shows "st_ok (modify_time env job st)"
    "x \<notin> names_of p \<Longrightarrow> st_file (modify_time env job st) x = st_file st x"
    "st_file st (download_name p) = Some f \<Longrightarrow>
      st_file (modify_time env job st) p = Some (f\<lparr>fn_mtime := fe_modified_time e\<rparr>)
      \<and> st_file (modify_time env job st) (download_name p) = None \<and> st_file (modify_time env job st) (digest_name p) = None"
proof -
  let ?r = "st_remove (digest_name p) st" and ?n = "st_rename (download_name p) p (st_remove (digest_name p) st)"
  have m: "modify_time env job st = st_set_mtime p (fe_modified_time e) ?n"
    using assms(1,3) by (simp add: modify_time_def Let_def)
  note r = st_remove_props [OF assms(2), of "digest_name p"]
  have n: "st_ok ?n \<and> (x \<notin> names_of p \<longrightarrow> st_file ?n x = st_file st x)"
  proof (cases "st_names ?r (download_name p)")
    case None
    then show ?thesis using r by (simp add: st_rename_None names_of_def)
  next
    case (Some a)
    show ?thesis using st_rename_props [OF r(1) Some, of p] r by (simp add: names_of_def)
  qed
  show "st_ok (modify_time env job st)" using m n st_set_mtime_props(1) by simp
  show "x \<notin> names_of p \<Longrightarrow> st_file (modify_time env job st) x = st_file st x"
    using m n st_set_mtime_props(3) by (simp add: names_of_def)
  assume f: "st_file st (download_name p) = Some f"
  then obtain a where a: "st_names ?r (download_name p) = Some a" using r(3) by (auto simp: st_file_Some)
  show "st_file (modify_time env job st) p = Some (f\<lparr>fn_mtime := fe_modified_time e\<rparr>)
      \<and> st_file (modify_time env job st) (download_name p) = None \<and> st_file (modify_time env job st) (digest_name p) = None"
    using m st_set_mtime_props(3) [of ?n p] st_rename_props [OF r(1) a, of p] r f by simp
qed

lemma current_entry_same_job:
  assumes "same_job r q job" "tj_file_num job = of_nat k" "k < length (tj_files r)" "length (tj_files r) < 2 ^ 31"
  shows "current_entry job = Some (target r q k, tj_files r ! k)"
  using assms file_index_of_nat [of k] by (simp add: current_entry_def same_job_def target_def)

abbreviation separate_targets :: "transfer_job \<Rightarrow> string \<Rightarrow> bool" where
  "separate_targets r q \<equiv> \<forall>i<length (tj_files r). \<forall>j<length (tj_files r). i \<noteq> j \<longrightarrow>
     names_of (target r q i) \<inter> names_of (target r q j) = {}"

text \<open>What a block carries.\<close>

definition block_data :: "transfer_env \<Rightarrow> file_transfer_block \<Rightarrow> bytes" where
  "block_data env b = (if fb_compressed b then xe_decompress env (fb_data b) else fb_data b)"

lemma write_data_in_file:
  assumes env: "env_calm env" and f: "in_file r q contents st0 k c job st" and k: "k < length (tj_files r)"
    and sep: "separate_targets r q" and w: "write_data env b job st = (res, job', st')"
  shows "in_file r q contents st0 k (c @ block_data env b) job' st'"
proof -
  obtain n mt where s: "tj_data_stream job = Some (FileStream WriteOnly n (length c))"
      "st_names st (download_name (target r q k)) = Some n"
      "st_file st (download_name (target r q k)) = Some \<lparr>fn_content = c, fn_mtime = mt\<rparr>"
    using f by (auto simp: in_file_def)
  have ok: "st_ok st" using f by (simp add: in_file_def arrived_def)
  have n: "st_nodes st n = Some \<lparr>fn_content = c, fn_mtime = mt\<rparr>" using s by (simp add: st_file_def)
  let ?st = "st_write (xe_now env) n (length c) (block_data env b) st"
  have st': "st' = ?st" and job': "tj_data_stream job' = Some (FileStream WriteOnly n (length (c @ block_data env b)))"
      "same_job r q job'" "tj_file_num job' = of_nat k"
    using w s(1) env f by (auto simp: write_data_def stream_write_def block_data_def Let_def in_file_def same_job_def)
  note p = st_write_props [OF ok s(2) n, where now = "xe_now env" and pos = "length c" and v = "block_data env b"]
  have "arrived r q contents st0 k st'" unfolding st'
  proof (rule arrived_frame [OF _ p(1) k _ sep])
    show "st_file ?st x = st_file st x" if "x \<notin> names_of (target r q k)" for x
      using p(4) that by (simp add: names_of_def)
  qed (use f in \<open>simp add: in_file_def\<close>)
  moreover have "st_file st' (download_name (target r q k)) = Some \<lparr>fn_content = c @ block_data env b, fn_mtime = xe_now env\<rparr>"
    using p(2,3) s(2) by (simp add: st' st_file_def)
  ultimately show ?thesis using job' p(2) s(2) unfolding in_file_def st' by auto
qed

lemma begin_file_in_file:
  assumes env: "env_calm env" and f: "before_file env r q contents st0 k job st" and k: "k < length (tj_files r)"
    and len: "length (tj_files r) < 2 ^ 31" and sep: "separate_targets r q"
  obtains job' st' where "begin_file env q (of_nat k) job st = (Inr job', job', st')" "in_file r q contents st0 k [] job' st'"
proof -
  let ?p = "target r q k" and ?st1 = "modify_time env job st"
  let ?st2 = "st_remove (digest_name ?p) ?st1"
  obtain n st3 where c: "st_create (xe_now env) (download_name ?p) ?st2 = (n, st3)" by fastforce
  define st4 where "st4 = st_write_file (xe_now env) (digest_name ?p) (xe_digest_text env (tj_digest job)) st3"
  define job' where "job' = job\<lparr>tj_file_num := of_nat k, tj_data_stream := Some (FileStream WriteOnly n 0)\<rparr>"
  have same: "same_job r q job" and a1: "arrived r q contents st0 k ?st1" using f by (simp_all add: before_file_def)
  have ok1: "st_ok ?st1" using a1 by (simp add: arrived_def)
  have fi: "file_index (of_nat k) = k" using k len by (simp add: file_index_of_nat)
  note r = st_remove_props [OF ok1, of "digest_name ?p"]
  note cr = st_create_props [OF r(1) c]
  note w = st_write_file_props [OF cr(1), where now = "xe_now env" and p = "digest_name ?p" and v = "xe_digest_text env (tj_digest job)", folded st4_def]
  have bf: "begin_file env q (of_nat k) job st = (Inr job', job', st4)"
    using same env by (simp add: begin_file_def Let_def same_job_def fi c target_def [symmetric] st4_def job'_def)
  have "arrived r q contents st0 k st4"
  proof (rule arrived_frame [OF a1 w(1) k _ sep])
    fix x assume x: "x \<notin> names_of ?p"
    then show "st_file st4 x = st_file ?st1 x"
      using w(2) [of x] cr(4) [of x] r(2) [of x] by (simp add: names_of_def)
  qed
  moreover have "st_names st4 (download_name ?p) = Some n"
    using w(3) [of "download_name ?p"] cr(2) by simp
  moreover have "st_file st4 (download_name ?p) = Some \<lparr>fn_content = [], fn_mtime = xe_now env\<rparr>"
    using w(2) [of "download_name ?p"] cr(2,3) by (simp add: st_file_def)
  moreover have "same_job r q job'" using same by (simp add: same_job_def job'_def)
  ultimately have "in_file r q contents st0 k [] job' st4" unfolding in_file_def by (simp add: job'_def)
  with bf show ?thesis by (rule that)
qed

lemma write_first_block:
  assumes env: "env_calm env" and f: "before_file env r q contents st0 k job st" and k: "k < length (tj_files r)"
    and len: "length (tj_files r) < 2 ^ 31" and sep: "separate_targets r q"
    and b: "fb_id b = tj_id r" "fb_file_num b = of_nat k" and w: "job_write env b job st = (res, job', st')"
  shows "in_file r q contents st0 k (block_data env b) job' st'"
proof -
  obtain job1 st1 where bf: "begin_file env q (of_nat k) job st = (Inr job1, job1, st1)"
      and i: "in_file r q contents st0 k [] job1 st1" by (rule begin_file_in_file [OF env f k len sep])
  have fi: "file_index (of_nat k) = k" using k len by (simp add: file_index_of_nat)
  have "job_write env b job st = write_data env b job1 st1"
    using f b k fi bf by (auto simp: job_write_def before_file_def same_job_def)
  with w have "write_data env b job1 st1 = (res, job', st')" by simp
  from write_data_in_file [OF env i k sep this] show ?thesis by simp
qed

lemma write_next_block:
  assumes env: "env_calm env" and f: "in_file r q contents st0 k c job st" and k: "k < length (tj_files r)"
    and len: "length (tj_files r) < 2 ^ 31" and sep: "separate_targets r q"
    and b: "fb_id b = tj_id r" "fb_file_num b = of_nat k" and w: "job_write env b job st = (res, job', st')"
  shows "in_file r q contents st0 k (c @ block_data env b) job' st'"
proof -
  have fi: "file_index (of_nat k) = k" using k len by (simp add: file_index_of_nat)
  have "job_write env b job st = write_data env b job st"
    using f b k fi by (auto simp: job_write_def in_file_def same_job_def)
  with w have "write_data env b job st = (res, job', st')" by simp
  from write_data_in_file [OF env f k sep this] show ?thesis .
qed

lemma finish_file:
  assumes env: "env_calm env" and f: "in_file r q contents st0 k (contents ! k) job st" and k: "k < length (tj_files r)"
    and len: "length (tj_files r) < 2 ^ 31" and sep: "separate_targets r q"
  shows "arrived r q contents st0 (Suc k) (modify_time env job st)" "before_file env r q contents st0 (Suc k) job st"
proof -
  have same: "same_job r q job" and num: "tj_file_num job = of_nat k" and a: "arrived r q contents st0 k st"
    using f by (simp_all add: in_file_def)
  have ok: "st_ok st" using a by (simp add: arrived_def)
  note m = modify_time_props [OF env ok current_entry_same_job [OF same num k len]]
  have d: "\<exists>mt. st_file st (download_name (target r q k)) = Some \<lparr>fn_content = contents ! k, fn_mtime = mt\<rparr>"
    using f by (auto simp: in_file_def)
  have "arrived r q contents st0 k (modify_time env job st)"
    by (rule arrived_frame [OF a m(1) k m(2) sep])
  then show "arrived r q contents st0 (Suc k) (modify_time env job st)"
    using d m(3) by (auto simp: arrived_def less_Suc_eq)
  moreover have "file_index (tj_file_num job) \<noteq> Suc k" using num k len by (simp add: file_index_of_nat)
  ultimately show "before_file env r q contents st0 (Suc k) job st" using same by (simp add: before_file_def)
qed

section \<open>Rounds of the sender\<close>

lemma send_rounds_add:
  "send_rounds env st (m + n) jobs =
     (let (ms, jobs') = send_rounds env st m jobs; (ms', jobs'') = send_rounds env st n jobs' in (ms @ ms', jobs''))"
  by (induction m arbitrary: jobs) (simp_all add: Let_def split: prod.splits)

text \<open>Some number of rounds sends the messages and leads from the one list of jobs to the other.\<close>

definition sends ::
  "transfer_env \<Rightarrow> file_store \<Rightarrow> transfer_job list \<Rightarrow> file_message list \<Rightarrow> transfer_job list \<Rightarrow> bool" where
  "sends env st jobs ms jobs' \<longleftrightarrow> (\<exists>n. send_rounds env st n jobs = (ms, jobs'))"

lemma sends_trans: "sends env st jobs ms jobs' \<Longrightarrow> sends env st jobs' ms' jobs'' \<Longrightarrow> sends env st jobs (ms @ ms') jobs''"
  unfolding sends_def
proof (elim exE)
  fix m n assume "send_rounds env st m jobs = (ms, jobs')" "send_rounds env st n jobs' = (ms', jobs'')"
  then have "send_rounds env st (m + n) jobs = (ms @ ms', jobs'')" by (simp add: send_rounds_add)
  then show "\<exists>k. send_rounds env st k jobs = (ms @ ms', jobs'')" ..
qed

lemma sends_round: "handle_read_jobs env jobs st = (jobs', ms, log) \<Longrightarrow> sends env st jobs ms jobs'"
  unfolding sends_def by (rule exI [of _ 1]) (simp add: Let_def)

lemma sends_refl: "sends env st jobs [] jobs"
  unfolding sends_def by (rule exI [of _ 0]) simp

text \<open>The content of the \<open>k\<close>th file to send.\<close>

definition holds_files :: "file_store \<Rightarrow> transfer_job \<Rightarrow> string \<Rightarrow> bytes list \<Rightarrow> bool" where
  "holds_files st s p contents \<longleftrightarrow> length contents = length (tj_files s)
     \<and> (\<forall>k<length contents. \<exists>f. st_file st (target s p k) = Some f \<and> fn_content f = contents ! k)"

lemma holds_filesD:
  assumes "holds_files st s p contents" "k < length (tj_files s)"
  obtains n f where "st_names st (target s p k) = Some n" "st_nodes st n = Some f" "fn_content f = contents ! k"
  using assms by (auto simp: holds_files_def st_file_Some)

text \<open>A round opens the file when it is not yet open.\<close>

lemma init_sending:
  assumes env: "env_calm env" and s: "sending s st p k pos job" and h: "holds_files st s p contents"
    and k: "k < length (tj_files s)" and len: "length (tj_files s) < 2 ^ 31"
  obtains job' n where "init_jobs env st [job] = ([job'], [])" "sending s st p k pos job'"
    "tj_data_stream job' = Some (FileStream ReadOnly n pos)" "st_names st (target s p k) = Some n"
proof -
  obtain n f where n: "st_names st (target s p k) = Some n" by (rule holds_filesD [OF h k])
  have fi: "file_index (tj_file_num job) = k" using s k len by (simp add: sending_def file_index_of_nat)
  show ?thesis
  proof (cases "tj_data_stream job")
    case None
    have nd: "\<not> tj_enable_overwrite_detection s" using s None by (auto simp: sending_def)
    let ?job = "job\<lparr>tj_data_stream := Some (FileStream ReadOnly n 0), tj_file_confirmed := False, tj_file_is_waiting := False\<rparr>"
    have "open_data_stream env job st = (Inr False, ?job)"
      using None s fi k n env by (simp add: open_data_stream_def sending_def Let_def target_def)
    then have "init_jobs env st [job] = ([?job], [])"
      using s nd by (simp add: init_data_stream_def wants_confirmation_def sending_def)
    then show ?thesis
      by (rule that) (use s nd None k n in \<open>simp_all add: sending_def target_def\<close>)
  next
    case (Some stream)
    have "open_data_stream env job st = (Inr False, job)"
      using Some s fi k by (simp add: open_data_stream_def sending_def)
    then have "init_jobs env st [job] = ([job], [])"
      using s by (auto simp add: init_data_stream_def wants_confirmation_def sending_def)
    then show ?thesis
      by (rule that) (use s Some n in \<open>auto simp: sending_def target_def\<close>)
  qed
qed

lemma job_read_sending:
  assumes s: "sending s st p k pos job" and k: "k < length (tj_files s)" and len: "length (tj_files s) < 2 ^ 31"
  shows "job_read env job st = read_block env (job_name p s k) job st"
  using assms file_index_of_nat [of k] by (auto simp: job_read_def sending_def job_name_def)

text \<open>A job that has read file \<open>k\<close> to the end.\<close>

definition after_file :: "transfer_job \<Rightarrow> file_store \<Rightarrow> string \<Rightarrow> nat \<Rightarrow> transfer_job \<Rightarrow> bool" where
  "after_file s st p k job \<longleftrightarrow>
     tj_id job = tj_id s \<and> tj_files job = tj_files s \<and> tj_data_source job = FilePath p \<and> tj_type job = Generic
     \<and> tj_is_last_job job = False \<and> tj_file_skipped job = False
     \<and> tj_enable_overwrite_detection job = tj_enable_overwrite_detection s
     \<and> tj_file_num job = of_nat (Suc k) \<and> tj_data_stream job = None
     \<and> tj_file_confirmed job = False \<and> tj_file_is_waiting job = False"

lemma after_file_sending:
  "after_file s st p k job \<Longrightarrow> \<not> tj_enable_overwrite_detection s \<Longrightarrow> sending s st p (Suc k) 0 job"
  by (simp add: after_file_def sending_def)

lemma round_chunk:
  assumes env: "env_calm env" and s: "sending s st p k pos job" and h: "holds_files st s p contents"
    and k: "k < length (tj_files s)" and len: "length (tj_files s) < 2 ^ 31"
    and v: "v = take BUF_SIZE (drop pos (contents ! k))"
  shows "\<exists>job'. handle_read_jobs env [job] st =
      ([job'], [MsgBlock (block_of env (job_name p s k) (tj_id s) (of_nat k) v)], None)
    \<and> (if v = [] then after_file s st p k job' else sending s st p k (pos + length v) job')"
proof -
  obtain job1 n where i: "init_jobs env st [job] = ([job1], [])" "sending s st p k pos job1"
    "tj_data_stream job1 = Some (FileStream ReadOnly n pos)" "st_names st (target s p k) = Some n"
    by (rule init_sending [OF env s h k len])
  obtain f where f: "st_nodes st n = Some f" "fn_content f = contents ! k"
    by (rule holds_filesD [OF h k]) (use i(4) in auto)
  have read: "stream_read (FileStream ReadOnly n pos) st = (v, FileStream ReadOnly n (pos + length v))"
    using f v by (simp add: stream_read_def)
  let ?b = "block_of env (job_name p s k) (tj_id s) (of_nat k) v"
  have "\<exists>job'. read_block env (job_name p s k) job1 st = (Inr (Some ?b), job')
    \<and> (if v = [] then after_file s st p k job' else sending s st p k (pos + length v) job')"
  proof (cases "v = []")
    case True
    have "read_block env (job_name p s k) job1 st = (Inr (Some ?b), next_file job1)"
      using i(2,3) env True read by (simp add: read_block_def is_file_path_def sending_def block_of_def Let_def)
    moreover have "after_file s st p k (next_file job1)"
      using i(2) by (simp add: sending_def after_file_def next_file_def)
    ultimately show ?thesis using True by simp
  next
    case False
    then show ?thesis
      using i(2,3,4) env read k
      by (simp add: read_block_def is_file_path_def sending_def block_of_def Let_def target_def)
  qed
  then obtain job' where b: "read_block env (job_name p s k) job1 st = (Inr (Some ?b), job')"
      and s': "if v = [] then after_file s st p k job' else sending s st p k (pos + length v) job'" by blast
  have last: "tj_is_last_job job1 = False" using i(2) by (simp add: sending_def)
  have "handle_read_jobs env [job] st = ([job'], [MsgBlock ?b], None)"
    using b last i(1) by (simp add: handle_read_jobs_def job_read_sending [OF i(2) k len])
  with s' show ?thesis by blast
qed

lemma send_chunk:
  assumes env: "env_calm env" and s: "sending s st p k pos job" and h: "holds_files st s p contents"
    and k: "k < length (tj_files s)" and len: "length (tj_files s) < 2 ^ 31"
    and v: "v = take BUF_SIZE (drop pos (contents ! k))"
  shows "\<exists>job'. sends env st [job] [MsgBlock (block_of env (job_name p s k) (tj_id s) (of_nat k) v)] [job']
    \<and> (if v = [] then after_file s st p k job' else sending s st p k (pos + length v) job')"
  using round_chunk [OF assms] sends_round by blast

lemma send_rest_of_file:
  assumes env: "env_calm env" and h: "holds_files st s p contents"
    and k: "k < length (tj_files s)" and len: "length (tj_files s) < 2 ^ 31"
  shows "sending s st p k pos job \<Longrightarrow> \<exists>job'. sends env st [job]
      (map MsgBlock (file_blocks env (job_name p s k) (tj_id s) (of_nat k) (drop pos (contents ! k)))) [job']
    \<and> after_file s st p k job'"
proof (induction "drop pos (contents ! k)" arbitrary: pos job rule: chunks.induct)
  case 1
  let ?v = "take BUF_SIZE (drop pos (contents ! k))" and ?b = "block_of env (job_name p s k) (tj_id s) (of_nat k)"
  obtain job1 where j: "sends env st [job] [MsgBlock (?b ?v)] [job1]"
      "if ?v = [] then after_file s st p k job1 else sending s st p k (pos + length ?v) job1"
    using send_chunk [OF env 1(2) h k len refl] by blast
  show ?case
  proof (cases "drop pos (contents ! k) = []")
    case True
    with j show ?thesis by (auto simp: file_blocks_def)
  next
    case False
    then have v: "?v \<noteq> []" by (simp add: BUF_SIZE_def)
    have d: "drop BUF_SIZE (drop pos (contents ! k)) = drop (pos + length ?v) (contents ! k)"
      by (cases "length (contents ! k) - pos \<le> BUF_SIZE") (simp_all add: add.commute)
    have "sending s st p k (pos + length ?v) job1" using j(2) v by simp
    from 1(1) [OF False d this] obtain job2 where j2: "sends env st [job1]
        (map MsgBlock (file_blocks env (job_name p s k) (tj_id s) (of_nat k) (drop BUF_SIZE (drop pos (contents ! k))))) [job2]"
      "after_file s st p k job2" unfolding d by blast
    have "chunks (drop pos (contents ! k)) = ?v # chunks (drop BUF_SIZE (drop pos (contents ! k)))"
      by (subst chunks.simps) (use False in simp)
    then have "map MsgBlock (file_blocks env (job_name p s k) (tj_id s) (of_nat k) (drop pos (contents ! k))) =
       [MsgBlock (?b ?v)] @ map MsgBlock (file_blocks env (job_name p s k) (tj_id s) (of_nat k) (drop BUF_SIZE (drop pos (contents ! k))))"
      by (simp add: file_blocks_def)
    with sends_trans [OF j(1) j2(1)] j2(2) show ?thesis by metis
  qed
qed

section \<open>Messages at the receiver\<close>

lemma receive_block:
  assumes "fb_id b = tj_id job" "job_write env b job st = (res, job', st')" "tj_id job' = tj_id job"
  shows "receive_message env (MsgBlock b) ([job], st) = ([job'], st')"
  using assms by (simp add: receive_message_def get_job_def)

lemma block_of_id [simp]: "fb_id (block_of env name i k v) = i" "fb_file_num (block_of env name i k v) = k"
  by (simp_all add: block_of_def)

lemma block_data_block_of:
  "(\<And>v. xe_decompress renv (xe_compress senv v) = v) \<Longrightarrow> block_data renv (block_of senv name i k v) = v"
  by (simp add: block_data_def block_of_def)

text \<open>A block of the current file, the first one and the next ones.\<close>

lemma receive_first:
  assumes env: "env_calm renv" and k: "k < length (tj_files r)" and len: "length (tj_files r) < 2 ^ 31"
    and sep: "separate_targets r q" and comp: "\<And>v. xe_decompress renv (xe_compress senv v) = v"
    and b: "before_file renv r q contents st0 k job st"
  shows "\<exists>job' st'. receive_message renv (MsgBlock (block_of senv name (tj_id r) (of_nat k) v)) ([job], st) = ([job'], st')
    \<and> in_file r q contents st0 k v job' st'"
proof -
  let ?b = "block_of senv name (tj_id r) (of_nat k) v"
  obtain res job' st' where w: "job_write renv ?b job st = (res, job', st')" by (cases "job_write renv ?b job st") auto
  from write_first_block [OF env b k len sep _ _ w]
  have i: "in_file r q contents st0 k v job' st'" by (simp add: block_data_block_of [OF comp])
  have "receive_message renv (MsgBlock ?b) ([job], st) = ([job'], st')"
    by (rule receive_block [OF _ w]) (use b i in \<open>simp_all add: in_file_def before_file_def same_job_def\<close>)
  with i show ?thesis by blast
qed

lemma receive_next:
  assumes env: "env_calm renv" and k: "k < length (tj_files r)" and len: "length (tj_files r) < 2 ^ 31"
    and sep: "separate_targets r q" and comp: "\<And>v. xe_decompress renv (xe_compress senv v) = v"
    and b: "in_file r q contents st0 k c job st"
  shows "\<exists>job' st'. receive_message renv (MsgBlock (block_of senv name (tj_id r) (of_nat k) v)) ([job], st) = ([job'], st')
    \<and> in_file r q contents st0 k (c @ v) job' st'"
proof -
  let ?b = "block_of senv name (tj_id r) (of_nat k) v"
  obtain res job' st' where w: "job_write renv ?b job st = (res, job', st')" by (cases "job_write renv ?b job st") auto
  from write_next_block [OF env b k len sep _ _ w]
  have i: "in_file r q contents st0 k (c @ v) job' st'" by (simp add: block_data_block_of [OF comp])
  have "receive_message renv (MsgBlock ?b) ([job], st) = ([job'], st')"
    by (rule receive_block [OF _ w]) (use b i in \<open>simp_all add: in_file_def same_job_def\<close>)
  with i show ?thesis by blast
qed

lemma receive_more:
  assumes env: "env_calm renv" and k: "k < length (tj_files r)" and len: "length (tj_files r) < 2 ^ 31"
    and sep: "separate_targets r q" and comp: "\<And>v. xe_decompress renv (xe_compress senv v) = v"
  shows "in_file r q contents st0 k c job st \<Longrightarrow> \<exists>job' st'.
    fold (receive_message renv) (map (MsgBlock \<circ> block_of senv name (tj_id r) (of_nat k)) vs) ([job], st) = ([job'], st')
    \<and> in_file r q contents st0 k (c @ concat vs) job' st'"
proof (induction vs arbitrary: c job st)
  case (Cons v vs)
  obtain job1 st1 where "receive_message renv (MsgBlock (block_of senv name (tj_id r) (of_nat k) v)) ([job], st) = ([job1], st1)"
      and i: "in_file r q contents st0 k (c @ v) job1 st1"
    using receive_next [OF env k len sep comp Cons.prems] by blast
  with Cons.IH [OF i] show ?case by (simp add: append_assoc)
qed simp

lemma before_first_file:
  assumes env: "env_calm env" and ok: "st_ok st" and len: "length (tj_files r) < 2 ^ 31" and sep: "separate_targets r q"
    and r: "same_job r q r" "tj_file_num r = 0" "tj_data_stream r = None"
  shows "before_file env r q contents st 0 r st"
proof (cases "tj_files r")
  case Nil
  then have "modify_time env r st = st" using r by (simp add: modify_time_def current_entry_def same_job_def)
  then show ?thesis using ok r by (simp add: before_file_def arrived_def)
next
  case (Cons e es)
  then have k: "0 < length (tj_files r)" by simp
  have "tj_file_num r = of_nat 0" using r(2) by simp
  from current_entry_same_job [OF r(1) this k len] have e: "current_entry r = Some (target r q 0, tj_files r ! 0)" .
  note m = modify_time_props [OF env ok e]
  have "arrived r q contents st 0 st" using ok by (simp add: arrived_def)
  from arrived_frame [OF this m(1) k m(2) sep] r show ?thesis by (simp add: before_file_def)
qed

lemma receive_done:
  "receive_message env (MsgDone i n) ([job], st) = (if tj_id job = i then ([], modify_time env job st) else ([job], st))"
  by (simp add: receive_message_def)

section \<open>Properties\<close>

text \<open>An environment that refuses nothing and compresses nothing, and a small source.\<close>

definition calm_env :: transfer_env where
  "calm_env = \<lparr>xe_io = (\<lambda>_. Inr ()), xe_now = 100, xe_compress = (\<lambda>v. v), xe_decompress = (\<lambda>v. v),
     xe_digest_text = (\<lambda>_. [123, 125]), xe_parse_digest = (\<lambda>_. None),
     xe_subsec_nanos = (\<lambda>_. 0)\<rparr>"

lemma calm_env: "env_calm calm_env" "xe_decompress calm_env (xe_compress calm_env v) = v"
  by (simp_all add: env_calm_def calm_env_def)

definition demo_tree :: fs_tree where
  "demo_tree = Directory False 0 (Some [(''a'', RegularFile False 3 9), (''b'', RegularFile False 0 7)])"

definition demo_source :: file_store where
  "demo_source = \<lparr>st_names = [''/s/a'' \<mapsto> 0, ''/s/b'' \<mapsto> 1],
     st_nodes = [0 \<mapsto> \<lparr>fn_content = [1, 2, 3], fn_mtime = 9\<rparr>, 1 \<mapsto> \<lparr>fn_content = [], fn_mtime = 7\<rparr>], st_next = 2\<rparr>"

definition empty_store :: file_store where
  "empty_store = \<lparr>st_names = Map.empty, st_nodes = Map.empty, st_next = 0\<rparr>"

lemma resume_position: "n < 2 ^ 32 \<Longrightarrow> unat (ucast (of_nat n :: u32) :: u64) = n"
  by (simp add: unsigned_ucast_eq unsigned_of_nat take_bit_word_eq_self take_bit_nat_eq_self)

lemma confirm_sender:
  assumes env: "env_calm env" and h: "holds_files st s p contents" and k: "k < length (tj_files s)"
    and len: "length (tj_files s) < 2 ^ 31" and off: "0 < n" "n < 2 ^ 32"
    and s: "tj_type s = Generic" "tj_data_source s = FilePath p" "\<not> tj_is_last_job s" "tj_file_num s = of_nat k"
    and partial: "st_file st (download_name (target s p k)) = None"
  obtains s' where "confirm env \<lparr>sc_id = tj_id s, sc_file_num = of_nat k, sc_union = Some (OffsetBlk (of_nat n))\<rparr> s st = Some s'"
    "sending s st p k n s'"
proof -
  obtain m f where m: "st_names st (target s p k) = Some m" "st_nodes st m = Some f" by (rule holds_filesD [OF h k])
  have fi: "file_index (of_nat k) = k" using k len by (simp add: file_index_of_nat)
  have pos: "(0 :: u32) < of_nat n" using off by (simp add: word_gt_0_no [symmetric] word_less_nat_alt unat_of_nat take_bit_nat_eq_self)
  let ?s = "(set_file_confirmed True s)\<lparr>tj_data_stream := Some (FileStream ReadOnly m n),
      tj_transferred := tj_transferred s + ucast (of_nat n :: u32), tj_finished_size := tj_finished_size s + ucast (of_nat n :: u32)\<rparr>"
  have "confirm env \<lparr>sc_id = tj_id s, sc_file_num = of_nat k, sc_union = Some (OffsetBlk (of_nat n))\<rparr> s st = Some ?s"
    using s k m partial env pos fi resume_position [OF off(2)]
    by (simp add: confirm_def set_file_confirmed_def set_stream_offset_def Let_def target_def [symmetric] st_exists_def st_file_def)
  moreover have "sending s st p k n ?s"
    using s k m by (simp add: sending_def set_file_confirmed_def target_def)
  ultimately show ?thesis by (rule that)
qed

lemma confirm_receiver:
  assumes env: "env_calm env" and a: "arrived r q contents st k st" and k: "k < length (tj_files r)"
    and len: "length (tj_files r) < 2 ^ 31" and off: "c \<noteq> []" "length c < 2 ^ 32"
    and r: "same_job r q r" "tj_file_num r = of_nat k"
    and partial: "st_file st (download_name (target r q k)) = Some \<lparr>fn_content = c, fn_mtime = mt\<rparr>"
      "st_file st (digest_name (target r q k)) \<noteq> None"
  obtains r' where
    "confirm env \<lparr>sc_id = tj_id r, sc_file_num = of_nat k, sc_union = Some (OffsetBlk (of_nat (length c)))\<rparr> r st = Some r'"
    "in_file r q contents st k c r' st"
proof -
  obtain m where m: "st_names st (download_name (target r q k)) = Some m" using partial by (auto simp: st_file_Some)
  have fi: "file_index (of_nat k) = k" using k len by (simp add: file_index_of_nat)
  have pos: "(0 :: u32) < of_nat (length c)"
    using off by (simp add: word_less_nat_alt unat_of_nat take_bit_nat_eq_self)
  let ?w = "ucast (of_nat (length c) :: u32)"
  let ?r = "(set_file_confirmed True r)\<lparr>tj_data_stream := Some (FileStream WriteOnly m (length c)),
      tj_transferred := tj_transferred r + ?w, tj_finished_size := tj_finished_size r + ?w\<rparr>"
  have "confirm env \<lparr>sc_id = tj_id r, sc_file_num = of_nat k, sc_union = Some (OffsetBlk (of_nat (length c)))\<rparr> r st = Some ?r"
    using r k m partial env pos fi resume_position [OF off(2)]
    by (simp add: confirm_def set_file_confirmed_def set_stream_offset_def Let_def target_def [symmetric] st_exists_def same_job_def)
  moreover have "in_file r q contents st k c ?r st"
    using a r m partial by (simp add: in_file_def same_job_def set_file_confirmed_def)
  ultimately show ?thesis by (rule that)
qed

text \<open>
  C14: A resumed file is whole. Let both sides be at the same file, its partial download at the receiver,
  with a digest file beside it, be a beginning of the file, and the sender have no partial download of
  its own under that name. When both sides confirm the length of the partial download as the offset, the
  sender goes on with the rest only, and after its blocks and the end of the job the receiver has the
  whole file with its time, the files before it still stand, and nothing else has changed.
\<close>

theorem resume_completes_file:
  assumes env: "env_calm senv" "env_calm renv" and comp: "\<And>v. xe_decompress renv (xe_compress senv v) = v"
    and s: "tj_type s = Generic" "tj_data_source s = FilePath p" "\<not> tj_is_last_job s" "tj_file_num s = of_nat k"
    and h: "holds_files st s p contents" "st_file st (download_name (target s p k)) = None"
    and r: "same_job r q r" "tj_file_num r = of_nat k" "tj_id r = tj_id s" "tj_files r = tj_files s"
    and k: "k < length (tj_files s)" and len: "length (tj_files s) < 2 ^ 31" and sep: "separate_targets r q"
    and a: "arrived r q contents st' k st'"
    and partial: "st_file st' (download_name (target r q k)) = Some \<lparr>fn_content = take n (contents ! k), fn_mtime = mt\<rparr>"
      "st_file st' (digest_name (target r q k)) \<noteq> None"
    and n: "0 < n" "n \<le> length (contents ! k)" "n < 2 ^ 32"
    and req: "req = \<lparr>sc_id = tj_id s, sc_file_num = of_nat k, sc_union = Some (OffsetBlk (of_nat n))\<rparr>"
  shows "\<exists>s' r' blocks s'' st''. confirm senv req s st = Some s' \<and> confirm renv req r st' = Some r'
    \<and> sends senv st [s'] (map MsgBlock blocks) [s'']
    \<and> concat (map (block_data renv) blocks) = drop n (contents ! k)
    \<and> fold (receive_message renv) (map MsgBlock blocks @ [MsgDone (tj_id s) m]) ([r'], st') = ([], st'')
    \<and> arrived r q contents st' (Suc k) st''"
proof -
  obtain s' where cs: "confirm senv req s st = Some s'" "sending s st p k n s'"
    unfolding req by (rule confirm_sender [OF env(1) h(1) k len n(1,3) s h(2)])
  have k': "k < length (tj_files r)" and len': "length (tj_files r) < 2 ^ 31" using k len r(4) by simp_all
  have c: "take n (contents ! k) \<noteq> []" "length (take n (contents ! k)) < 2 ^ 32" using n by auto
  have l: "length (take n (contents ! k)) = n" using n(2) by simp
  obtain r' where cr: "confirm renv req r st' = Some r'" "in_file r q contents st' k (take n (contents ! k)) r' st'"
    by (rule confirm_receiver [OF env(2) a k' len' c r(1,2) partial]) (use l r(3) in \<open>simp add: req\<close>)
  let ?name = "job_name p s k" and ?rest = "drop n (contents ! k)"
  let ?blocks = "file_blocks senv ?name (tj_id s) (of_nat k) ?rest"
  obtain s'' where b: "sends senv st [s'] (map MsgBlock ?blocks) [s'']"
    using send_rest_of_file [OF env(1) h(1) k len cs(2)] by blast
  have dat: "concat (map (block_data renv) ?blocks) = ?rest"
    by (simp add: file_blocks_def comp_def block_data_block_of [OF comp] concat_chunks)
  have "map MsgBlock ?blocks = map (MsgBlock \<circ> block_of senv ?name (tj_id r) (of_nat k)) (chunks ?rest @ [[]])"
    by (simp add: file_blocks_def r(3))
  then obtain r'' sr where f: "fold (receive_message renv) (map MsgBlock ?blocks) ([r'], st') = ([r''], sr)"
      "in_file r q contents st' k (take n (contents ! k) @ concat (chunks ?rest @ [[]])) r'' sr"
    using receive_more [OF env(2) k' len' sep comp cr(2), of ?name "chunks ?rest @ [[]]"] by auto
  have i: "in_file r q contents st' k (contents ! k) r'' sr" using f(2) by (simp add: concat_chunks)
  have "tj_id r'' = tj_id s" using i r(3) by (simp add: in_file_def same_job_def)
  then have "fold (receive_message renv) (map MsgBlock ?blocks @ [MsgDone (tj_id s) m]) ([r'], st') = ([], modify_time renv r'' sr)"
    using f(1) by (simp add: receive_done)
  with cs(1) cr(1) b dat finish_file(1) [OF env(2) i k' len' sep] show ?thesis by blast
qed

definition one_file_job :: "string \<Rightarrow> bool \<Rightarrow> transfer_job" where
  "one_file_job p detect = new_write 5 Generic '''' (FilePath p) 0 False False
     [default_entry\<lparr>fe_name := ''a'', fe_modified_time := 9\<rparr>] detect"

definition partial_store :: file_store where
  "partial_store = \<lparr>st_names = [''/d/a.download'' \<mapsto> 0, ''/d/a.digest'' \<mapsto> 1],
     st_nodes = [0 \<mapsto> \<lparr>fn_content = [1, 2], fn_mtime = 3\<rparr>, 1 \<mapsto> \<lparr>fn_content = [123, 125], fn_mtime = 3\<rparr>], st_next = 2\<rparr>"

theorem resume_completes_file_witness:
  "\<exists>s' r' blocks s'' st''.
     confirm calm_env \<lparr>sc_id = 5, sc_file_num = 0, sc_union = Some (OffsetBlk 2)\<rparr> (one_file_job ''/s'' True) demo_source = Some s'
   \<and> confirm calm_env \<lparr>sc_id = 5, sc_file_num = 0, sc_union = Some (OffsetBlk 2)\<rparr> (one_file_job ''/d'' True) partial_store = Some r'
   \<and> sends calm_env demo_source [s'] (map MsgBlock blocks) [s''] \<and> concat (map (block_data calm_env) blocks) = [3]
   \<and> fold (receive_message calm_env) (map MsgBlock blocks @ [MsgDone 5 1]) ([r'], partial_store) = ([], st'')
   \<and> st_file st'' ''/d/a'' = Some \<lparr>fn_content = [1, 2, 3], fn_mtime = 9\<rparr>"
proof -
  let ?s = "one_file_job ''/s'' True" and ?r = "one_file_job ''/d'' True"
  have t: "target ?s ''/s'' 0 = ''/s/a''" "target ?r ''/d'' 0 = ''/d/a''" "length (tj_files ?s) = 1" "length (tj_files ?r) = 1"
    "tj_files ?r = tj_files ?s" "fe_modified_time (tj_files ?s ! 0) = 9" "tj_id ?s = 5" "tj_id ?r = 5"
    by (simp_all add: one_file_job_def new_write_def target_def job_join_def path_join_def is_absolute_def starts_with_def default_entry_def)
  have s: "tj_type ?s = Generic" "tj_data_source ?s = FilePath ''/s''" "\<not> tj_is_last_job ?s" "tj_file_num ?s = of_nat 0"
    by (simp_all add: one_file_job_def new_write_def default_job_def)
  have h: "holds_files demo_source ?s ''/s'' [[1, 2, 3]]" "st_file demo_source (download_name (target ?s ''/s'' 0)) = None"
    by (simp_all add: holds_files_def t st_file_def demo_source_def download_name_def)
  have r: "same_job ?r ''/d'' ?r" "tj_file_num ?r = of_nat 0" "tj_id ?r = tj_id ?s"
    by (simp_all add: same_job_def one_file_job_def new_write_def default_job_def)
  have k: "0 < length (tj_files ?s)" "length (tj_files ?s) < 2 ^ 31" "separate_targets ?r ''/d''" by (simp_all add: t)
  have "st_ok partial_store" by (auto simp: st_ok_def partial_store_def inj_on_def split: if_splits)
  then have a: "arrived ?r ''/d'' [[1, 2, 3]] partial_store 0 partial_store" by (simp add: arrived_def)
  have p: "st_file partial_store (download_name (target ?r ''/d'' 0)) = Some \<lparr>fn_content = take 2 ([[1, 2, 3]] ! 0), fn_mtime = 3\<rparr>"
    "st_file partial_store (digest_name (target ?r ''/d'' 0)) \<noteq> None"
    by (simp_all add: t st_file_def partial_store_def download_name_def digest_name_def)
  have req: "\<lparr>sc_id = 5, sc_file_num = 0, sc_union = Some (OffsetBlk 2)\<rparr> =
      \<lparr>sc_id = tj_id ?s, sc_file_num = of_nat 0, sc_union = Some (OffsetBlk (of_nat 2))\<rparr>"
    by (simp add: t)
  obtain s' r' blocks s'' st'' where x:
    "confirm calm_env \<lparr>sc_id = 5, sc_file_num = 0, sc_union = Some (OffsetBlk 2)\<rparr> ?s demo_source = Some s'"
    "confirm calm_env \<lparr>sc_id = 5, sc_file_num = 0, sc_union = Some (OffsetBlk 2)\<rparr> ?r partial_store = Some r'"
    "sends calm_env demo_source [s'] (map MsgBlock blocks) [s'']"
    "concat (map (block_data calm_env) blocks) = drop 2 ([[1, 2, 3]] ! 0)"
    "fold (receive_message calm_env) (map MsgBlock blocks @ [MsgDone (tj_id ?s) 1]) ([r'], partial_store) = ([], st'')"
    "arrived ?r ''/d'' [[1, 2, 3]] partial_store (Suc 0) st''"
    using resume_completes_file [OF calm_env(1) calm_env(1) calm_env(2) s h r t(5) k a p _ _ _ req, of 1] by auto
  have "st_file st'' ''/d/a'' = Some \<lparr>fn_content = [1, 2, 3], fn_mtime = 9\<rparr>" using x(6) by (simp add: arrived_def t)
  moreover have "concat (map (block_data calm_env) blocks) = [3]" using x(4) by (simp add: numeral_2_eq_2)
  ultimately show ?thesis using x(1,2,3,5) unfolding t by blast
qed
text \<open>
  A file that cannot be created spoils the one before it. The job moves to the number of the new
  file before it creates it, and keeps the stream of the old one when that fails; the receiver drops the
  error. So while all else goes well, the first block of the new file is lost, the finished file before
  it is put in place, and the next block of the new file is written behind its end.
\<close>

theorem failed_create_corrupts_previous_file:
  assumes f: "in_file r q contents st0 k c job st" and k: "Suc k < length (tj_files r)"
    and len: "length (tj_files r) < 2 ^ 31" and sep: "separate_targets r q"
    and io: "\<And>x. io_ok env x \<longleftrightarrow> x \<noteq> CallCreate (download_name (target r q (Suc k)))"
    and b: "fb_id b1 = tj_id r" "fb_file_num b1 = of_nat (Suc k)" "fb_id b2 = tj_id r" "fb_file_num b2 = of_nat (Suc k)"
  shows "\<exists>job' st'. fold (receive_message env) [MsgBlock b1, MsgBlock b2] ([job], st) = ([job'], st')
    \<and> st_file st' (target r q k) = Some \<lparr>fn_content = c @ block_data env b2, fn_mtime = xe_now env\<rparr>"
proof -
  let ?p = "target r q k" and ?q = "target r q (Suc k)"
  let ?st1 = "modify_time env job st"
  let ?st2 = "st_remove (digest_name ?q) ?st1" and ?job = "job\<lparr>tj_file_num := of_nat (Suc k)\<rparr>"
  have same: "same_job r q job" and num: "tj_file_num job = of_nat k" and a: "arrived r q contents st0 k st"
    using f by (simp_all add: in_file_def)
  obtain n mt where s: "tj_data_stream job = Some (FileStream WriteOnly n (length c))"
      "st_names st (download_name ?p) = Some n" "st_file st (download_name ?p) = Some \<lparr>fn_content = c, fn_mtime = mt\<rparr>"
    using f by (auto simp: in_file_def)
  have ok: "st_ok st" using a by (simp add: arrived_def)
  have e: "current_entry job = Some (?p, tj_files r ! k)"
    by (rule current_entry_same_job [OF same num]) (use k len in simp_all)
  have m: "?st1 = st_set_mtime ?p (fe_modified_time (tj_files r ! k)) (st_rename (download_name ?p) ?p (st_remove (digest_name ?p) st))"
    using e io by (simp add: modify_time_def Let_def)
  note rm = st_remove_props [OF ok, of "digest_name ?p"]
  have "st_names (st_remove (digest_name ?p) st) (download_name ?p) = Some n" using rm(3) s(2) by simp
  note rn = st_rename_props [OF rm(1) this, of ?p]
  have "st_ok ?st1 \<and> st_names ?st1 ?p = Some n \<and> st_file ?st1 ?p = Some \<lparr>fn_content = c, fn_mtime = fe_modified_time (tj_files r ! k)\<rparr>"
    using m rn st_set_mtime_props [of "st_rename (download_name ?p) ?p (st_remove (digest_name ?p) st)"] rm(2) s(3) by simp
  moreover have "digest_name ?q \<noteq> ?p" using sep [rule_format, of k "Suc k"] k by (auto simp: names_of_def)
  ultimately have st2: "st_ok ?st2" "st_names ?st2 ?p = Some n"
      "st_nodes ?st2 n = Some \<lparr>fn_content = c, fn_mtime = fe_modified_time (tj_files r ! k)\<rparr>"
    using st_remove_props [of ?st1 "digest_name ?q"] by (auto simp: st_file_def st_remove_def split: if_splits)
  have fi: "file_index (of_nat (Suc k)) = Suc k" "file_index (of_nat k) = k" using k len file_index_of_nat [of "Suc k"] file_index_of_nat [of k] by simp_all
  have "begin_file env q (of_nat (Suc k)) job st = (Inl (io_error env (CallCreate (download_name ?q))), ?job, ?st2)"
    using same io unfolding begin_file_def same_job_def by (simp add: Let_def fi target_def [symmetric] del: of_nat_Suc)
  then have "job_write env b1 job st = (Inl (io_error env (CallCreate (download_name ?q))), ?job, ?st2)"
    using same b num k fi by (simp add: job_write_def same_job_def del: of_nat_Suc)
  then have r1: "receive_message env (MsgBlock b1) ([job], st) = ([?job], ?st2)"
    by (rule receive_block [rotated]) (use same b in \<open>simp_all add: same_job_def\<close>)
  obtain job2 where w: "job_write env b2 ?job ?st2 = (Inr (), job2, st_write (xe_now env) n (length c) (block_data env b2) ?st2)"
      and id2: "tj_id job2 = tj_id ?job"
    using same b k fi s(1) io by (simp add: job_write_def same_job_def write_data_def stream_write_def block_data_def Let_def del: of_nat_Suc)
  have r2: "receive_message env (MsgBlock b2) ([?job], ?st2) = ([job2], st_write (xe_now env) n (length c) (block_data env b2) ?st2)"
    by (rule receive_block [OF _ w id2]) (use same b in \<open>simp add: same_job_def\<close>)
  note w = st_write_props [OF st2, where now = "xe_now env" and pos = "length c" and v = "block_data env b2"]
  have "st_file (st_write (xe_now env) n (length c) (block_data env b2) ?st2) ?p =
      Some \<lparr>fn_content = c @ block_data env b2, fn_mtime = xe_now env\<rparr>"
    using w(2,3) st2(2) by (simp add: st_file_def)
  then show ?thesis using r1 r2 by simp
qed

definition two_file_job :: "string \<Rightarrow> bool \<Rightarrow> transfer_job" where
  "two_file_job p detect = new_write 5 Generic '''' (FilePath p) 0 False False
     [default_entry\<lparr>fe_name := ''a'', fe_modified_time := 9\<rparr>, default_entry\<lparr>fe_name := ''b'', fe_modified_time := 7\<rparr>] detect"

lemma two_file_job:
  "target (two_file_job ''/d'' x) ''/d'' 0 = ''/d/a''" "target (two_file_job ''/d'' x) ''/d'' (Suc 0) = ''/d/b''"
  "length (tj_files (two_file_job p x)) = 2" "tj_id (two_file_job p x) = 5"
  by (simp_all add: two_file_job_def new_write_def target_def job_join_def path_join_def is_absolute_def starts_with_def default_entry_def)

definition full_disk_env :: transfer_env where
  "full_disk_env = calm_env\<lparr>xe_io := (\<lambda>x. if x = CallCreate ''/d/b.download'' then Inl ''No space left on device'' else Inr ())\<rparr>"

definition first_file_store :: file_store where
  "first_file_store = \<lparr>st_names = [''/d/a.download'' \<mapsto> 0], st_nodes = [0 \<mapsto> \<lparr>fn_content = [1, 2, 3], fn_mtime = 3\<rparr>], st_next = 1\<rparr>"

theorem failed_create_corrupts_previous_file_witness:
  "\<exists>job' st'. fold (receive_message full_disk_env)
       [MsgBlock \<lparr>fb_id = 5, fb_file_num = 1, fb_data = [4], fb_compressed = False\<rparr>,
        MsgBlock \<lparr>fb_id = 5, fb_file_num = 1, fb_data = [5], fb_compressed = False\<rparr>]
       ([(two_file_job ''/d'' False)\<lparr>tj_data_stream := Some (FileStream WriteOnly 0 3)\<rparr>], first_file_store) = ([job'], st')
    \<and> st_file st' ''/d/a'' = Some \<lparr>fn_content = [1, 2, 3, 5], fn_mtime = 100\<rparr>"
proof -
  let ?r = "two_file_job ''/d'' False" and ?n = "of_nat (Suc 0) :: i32"
  have "st_ok first_file_store" by (auto simp: st_ok_def first_file_store_def inj_on_def split: if_splits)
  then have f: "in_file ?r ''/d'' [] first_file_store 0 [1, 2, 3] (?r\<lparr>tj_data_stream := Some (FileStream WriteOnly 0 3)\<rparr>) first_file_store"
    unfolding in_file_def arrived_def
    by (simp add: two_file_job download_name_def st_file_def)
      (simp add: same_job_def two_file_job_def new_write_def default_job_def first_file_store_def)
  have sep: "separate_targets ?r ''/d''"
    by (auto simp: two_file_job less_Suc_eq numeral_2_eq_2 names_of_def download_name_def digest_name_def)
  have io: "io_ok full_disk_env x \<longleftrightarrow> x \<noteq> CallCreate (download_name (target ?r ''/d'' (Suc 0)))" for x
    by (simp add: full_disk_env_def two_file_job download_name_def)
  have k: "Suc 0 < length (tj_files ?r)" "length (tj_files ?r) < 2 ^ 31" by (simp_all add: two_file_job)
  from failed_create_corrupts_previous_file [OF f k sep io, of "\<lparr>fb_id = 5, fb_file_num = ?n, fb_data = [4], fb_compressed = False\<rparr>"
      "\<lparr>fb_id = 5, fb_file_num = ?n, fb_data = [5], fb_compressed = False\<rparr>"]
  show ?thesis by (simp add: two_file_job block_data_def full_disk_env_def calm_env_def)
qed

section \<open>Files that cannot be opened, partial files of earlier runs\<close>

lemma open_failure:
  assumes "tj_type job = Generic" "tj_data_source job = FilePath p" "\<not> tj_is_last_job job" "tj_data_stream job = None"
    and "file_index (tj_file_num job) < length (tj_files job)"
    and "st_names st (job_join p (fe_name (tj_files job ! file_index (tj_file_num job)))) = None"
  shows "init_jobs env st [job] =
    ([job\<lparr>tj_file_num := tj_file_num job + 1, tj_file_confirmed := False, tj_file_is_waiting := False\<rparr>],
     [MsgError (tj_id job) ''not found'' (tj_file_num job + 1)])"
  using assms by (simp add: init_data_stream_def open_data_stream_def Let_def)

text \<open>
  With overwrite detection, a file that cannot be opened ends the whole job: the round reports the
  error, under the number of the next file, and then at once that the job is done, so that the files
  behind it are never sent, although opening is meant to go on with the next file.
\<close>

theorem open_error_drops_rest:
  assumes "tj_type job = Generic" "tj_data_source job = FilePath p" "\<not> tj_is_last_job job" "tj_data_stream job = None"
    and k: "tj_file_num job = of_nat k" "Suc k < length (tj_files job)" "length (tj_files job) < 2 ^ 31"
    and "tj_enable_overwrite_detection job"
    and "st_names st (job_join p (fe_name (tj_files job ! k))) = None"
  shows "\<exists>log. handle_read_jobs env [job] st =
    ([], [MsgError (tj_id job) ''not found'' (of_nat (Suc k)), MsgDone (tj_id job) (of_nat (Suc k))], log)"
proof -
  have fi: "file_index (tj_file_num job) = k" using k by (simp add: file_index_of_nat)
  have "length (tj_files job) \<noteq> 1" using k(2) by linarith
  then show ?thesis
    using assms fi open_failure [of job p st env] k(2)
    by (simp add: handle_read_jobs_def job_read_def job_completed_def job_error_def job_skipped_def)
qed

theorem open_error_drops_rest_witness:
  "\<exists>log. handle_read_jobs calm_env [two_file_job ''/d'' True] empty_store =
    ([], [MsgError 5 ''not found'' 1, MsgDone 5 1], log)"
proof -
  have "\<exists>log. handle_read_jobs calm_env [two_file_job ''/d'' True] empty_store =
    ([], [MsgError (tj_id (two_file_job ''/d'' True)) ''not found'' (of_nat (Suc 0)), MsgDone (tj_id (two_file_job ''/d'' True)) (of_nat (Suc 0))], log)"
    by (rule open_error_drops_rest)
      (simp_all add: two_file_job, simp_all add: two_file_job_def new_write_def default_job_def empty_store_def)
  then show ?thesis by (simp add: two_file_job)
qed

text \<open>
  Without it the round reports two errors, the second of reading without a stream, and the job goes on
  with the next file.
\<close>

lemma open_error_without_detection:
  assumes "tj_type job = Generic" "tj_data_source job = FilePath p" "\<not> tj_is_last_job job" "tj_data_stream job = None"
    and k: "tj_file_num job = of_nat k" "Suc k < length (tj_files job)" "length (tj_files job) < 2 ^ 31"
    and "\<not> tj_enable_overwrite_detection job"
    and "st_names st (job_join p (fe_name (tj_files job ! k))) = None"
  shows "handle_read_jobs env [job] st =
    ([job\<lparr>tj_file_num := of_nat (Suc k), tj_file_confirmed := False, tj_file_is_waiting := False\<rparr>],
     [MsgError (tj_id job) ''not found'' (of_nat (Suc k)), MsgError (tj_id job) ''data stream is None'' (of_nat (Suc k))], None)"
proof -
  have fi: "file_index (tj_file_num job) = k" using k by (simp add: file_index_of_nat)
  have fi': "file_index (of_nat (Suc k)) = Suc k" using k by (intro file_index_of_nat) simp
  have n: "of_nat k + 1 = (of_nat (Suc k) :: i32)" by simp
  show ?thesis
    using assms fi fi' open_failure [of job p st env] k(2)
    by (simp add: handle_read_jobs_def job_read_def read_block_def n del: of_nat_Suc)
qed

text \<open>
  A partial download that an earlier run left is put in place of the file when the first block of the
  file arrives, before anything of the new file has come, and with the new file's time.
\<close>

lemma stale_download_replaces_file:
  assumes env: "env_calm env" and ok: "st_ok st" and same: "same_job r q job" and num: "tj_file_num job = of_nat k"
    and k: "k < length (tj_files r)" "length (tj_files r) < 2 ^ 31"
    and stale: "st_file st (download_name (target r q k)) = Some \<lparr>fn_content = c, fn_mtime = mt\<rparr>"
  shows "st_file (snd (snd (begin_file env q (of_nat k) job st))) (target r q k) =
    Some \<lparr>fn_content = c, fn_mtime = fe_modified_time (tj_files r ! k)\<rparr>"
proof -
  let ?p = "target r q k" and ?st1 = "modify_time env job st"
  note m = modify_time_props [OF env ok current_entry_same_job [OF same num k]]
  obtain n st3 where c: "st_create (xe_now env) (download_name ?p) (st_remove (digest_name ?p) ?st1) = (n, st3)" by fastforce
  have fi: "file_index (of_nat k) = k" using k by (simp add: file_index_of_nat)
  note rm = st_remove_props [OF m(1), of "digest_name ?p"]
  note cr = st_create_props [OF rm(1) c]
  have "snd (snd (begin_file env q (of_nat k) job st)) = st_write_file (xe_now env) (digest_name ?p) (xe_digest_text env (tj_digest job)) st3"
    using same env by (simp add: begin_file_def Let_def same_job_def fi c target_def [symmetric])
  then show ?thesis using st_write_file_props(2) [OF cr(1)] cr(4) [of ?p] rm(2) m(3) [OF stale] by simp
qed

text \<open>
  A sender that has a partial download of its own beside the file opens that one, for writing, when it
  is asked to go on from an offset; the next read then fails and the file is given up.
\<close>

lemma own_partial_breaks_resume:
  assumes env: "env_calm env" and s: "tj_type s = Generic" "tj_data_source s = FilePath p" "tj_file_num s = of_nat k"
    and k: "k < length (tj_files s)" "length (tj_files s) < 2 ^ 31"
    and partial: "st_file st (download_name (target s p k)) \<noteq> None" "st_file st (digest_name (target s p k)) \<noteq> None"
    and off: "0 < off"
  shows "\<exists>s'. confirm env \<lparr>sc_id = tj_id s, sc_file_num = of_nat k, sc_union = Some (OffsetBlk off)\<rparr> s st = Some s'
    \<and> job_read env s' st = (Inl bad_descriptor, next_file s')"
proof -
  have fi: "file_index (of_nat k) = k" using k by (simp add: file_index_of_nat)
  show ?thesis
    using s k partial env off fi
    by (simp add: confirm_def set_file_confirmed_def set_stream_offset_def Let_def target_def [symmetric] st_exists_def
        job_read_def read_block_def split del: if_split)
qed

end
