(* ===== verification/Version.thy ===== *)
theory Version
  imports File_Names "HOL-Library.Product_Lexorder"
begin

text \<open>
  Version numbers (\<open>get_version_number\<close> of \<open>libs/hbb_common/src/lib.rs\<close>) and the checks of the peer's
  version built on them (\<open>src/common.rs\<close>).
\<close>

section \<open>The number of a version\<close>

type_synonym i64 = "64 word"

definition is_digit :: "char \<Rightarrow> bool" where
  "is_digit c \<longleftrightarrow> (let n = (of_char c :: nat) in 48 \<le> n \<and> n \<le> 57)"

text \<open>\<open>str::parse::<i64>\<close>: a sign, then at least one digit, and a value in range.\<close>

definition parse_i64 :: "string \<Rightarrow> i64 option" where
  "parse_i64 s =
     (let neg = (s \<noteq> [] \<and> s ! 0 = CHR ''-'');
          ds = (if s \<noteq> [] \<and> (s ! 0 = CHR ''-'' \<or> s ! 0 = CHR ''+'') then tl s else s);
          v = (if neg then - int (read_nat ds) else int (read_nat ds))
      in if ds \<noteq> [] \<and> list_all is_digit ds \<and> - (2 ^ 63) \<le> v \<and> v < 2 ^ 63 then Some (of_int v) else None)"

definition parse_or_0 :: "string \<Rightarrow> i64" where
  "parse_or_0 s = (case parse_i64 s of Some v \<Rightarrow> v | None \<Rightarrow> 0)"

text \<open>The loop over the parts between dots, with the sum and the last part.\<close>

fun version_loop :: "i64 \<Rightarrow> i64 \<Rightarrow> string list \<Rightarrow> i64 \<times> i64" where
  "version_loop n last' [] = (n, last')"
| "version_loop n last' (x # xs) = (let last' = parse_or_0 x in version_loop (n * 1000 + last') last' xs)"

definition get_version_number :: "string \<Rightarrow> i64" where
  "get_version_number v =
     (let versions = split_chars (\<lambda>c. c = CHR ''-'') v;
          n = (case versions of
                 [] \<Rightarrow> 0
               | v # _ \<Rightarrow> (let (n, last') = version_loop 0 0 (split_chars (\<lambda>c. c = CHR ''.'') v) in n - last' + last' * 10))
      in case versions of
           _ # v # _ \<Rightarrow> n + parse_or_0 v
         | _ \<Rightarrow> n)"

section \<open>What a peer supports\<close>

text \<open>Numbers are compared as signed integers.\<close>

definition at_least :: "i64 \<Rightarrow> string \<Rightarrow> bool" where
  "at_least ver v \<longleftrightarrow> sint (get_version_number v) \<le> sint ver"

definition can_enable_overwrite_detection :: "i64 \<Rightarrow> bool" where
  "can_enable_overwrite_detection version \<longleftrightarrow> at_least version ''1.1.10''"

definition MIN_VER_MULTI_UI_SESSION :: string where "MIN_VER_MULTI_UI_SESSION = ''1.2.4''"

definition MIN_VERSION_RELATIVE_MOUSE_MODE :: string where "MIN_VERSION_RELATIVE_MOUSE_MODE = ''1.4.5''"

definition is_support_multi_ui_session_num :: "i64 \<Rightarrow> bool" where
  "is_support_multi_ui_session_num ver \<longleftrightarrow> at_least ver MIN_VER_MULTI_UI_SESSION"

definition is_support_multi_ui_session :: "string \<Rightarrow> bool" where
  "is_support_multi_ui_session ver \<longleftrightarrow> is_support_multi_ui_session_num (get_version_number ver)"

definition is_support_file_copy_paste_num :: "i64 \<Rightarrow> bool" where
  "is_support_file_copy_paste_num ver \<longleftrightarrow> at_least ver ''1.3.8''"

definition is_support_file_copy_paste :: "string \<Rightarrow> bool" where
  "is_support_file_copy_paste ver \<longleftrightarrow> is_support_file_copy_paste_num (get_version_number ver)"

definition is_support_remote_print :: "string \<Rightarrow> bool" where
  "is_support_remote_print ver \<longleftrightarrow> at_least (get_version_number ver) ''1.3.0''"

definition is_support_file_paste_if_macos :: "string \<Rightarrow> bool" where
  "is_support_file_paste_if_macos ver \<longleftrightarrow> at_least (get_version_number ver) ''1.3.9''"

definition is_support_screenshot :: "string \<Rightarrow> bool" where
  "is_support_screenshot ver \<longleftrightarrow> is_support_multi_ui_session_num (get_version_number ver)"

definition is_support_screenshot_num :: "i64 \<Rightarrow> bool" where
  "is_support_screenshot_num ver \<longleftrightarrow> at_least ver ''1.4.0''"

definition is_support_file_transfer_resume_num :: "i64 \<Rightarrow> bool" where
  "is_support_file_transfer_resume_num ver \<longleftrightarrow> at_least ver ''1.4.2''"

definition is_support_file_transfer_resume :: "string \<Rightarrow> bool" where
  "is_support_file_transfer_resume ver \<longleftrightarrow> is_support_file_transfer_resume_num (get_version_number ver)"

definition is_support_relative_mouse_mode_num :: "i64 \<Rightarrow> bool" where
  "is_support_relative_mouse_mode_num ver \<longleftrightarrow> at_least ver MIN_VERSION_RELATIVE_MOUSE_MODE"

definition is_support_relative_mouse_mode :: "string \<Rightarrow> bool" where
  "is_support_relative_mouse_mode ver \<longleftrightarrow> is_support_relative_mouse_mode_num (get_version_number ver)"

datatype keyboard_mode = Legacy | Map | Translate | Auto

definition ascii_lower :: "char \<Rightarrow> char" where
  "ascii_lower c = (let n = (of_char c :: nat) in if 65 \<le> n \<and> n \<le> 90 then char_of (n + 32) else c)"

text \<open>Only letters of the alphabet become letters of the alphabet when lowered, so this decides the comparison.\<close>

definition is_android :: "string \<Rightarrow> bool" where
  "is_android peer_platform \<longleftrightarrow> map ascii_lower peer_platform = ''android''"

fun is_keyboard_mode_supported :: "keyboard_mode \<Rightarrow> i64 \<Rightarrow> string \<Rightarrow> bool" where
  "is_keyboard_mode_supported Legacy version_number peer_platform = True"
| "is_keyboard_mode_supported Map version_number peer_platform =
     (if is_android peer_platform then False else at_least version_number ''1.2.0'')"
| "is_keyboard_mode_supported Translate version_number peer_platform = at_least version_number ''1.2.0''"
| "is_keyboard_mode_supported Auto version_number peer_platform = at_least version_number ''1.2.0''"

definition get_supported_keyboard_modes :: "i64 \<Rightarrow> string \<Rightarrow> keyboard_mode list" where
  "get_supported_keyboard_modes version peer_platform =
     filter (\<lambda>mode. is_keyboard_mode_supported mode version peer_platform) [Legacy, Map, Translate, Auto]"

section \<open>Facts\<close>

lemma show_nat_digits: "c \<in> set (show_nat n) \<Longrightarrow> is_digit c"
proof (induction n rule: show_nat.induct)
  case (1 n)
  have d: "is_digit (char_of (48 + m))" if "m < 10" for m :: nat using that by (simp add: is_digit_def)
  show ?case
  proof (cases "n < 10")
    case True
    with 1(2) d [of n] show ?thesis by (simp add: show_nat.simps [of n])
  next
    case False
    with 1 d [of "n mod 10"] show ?thesis by (auto simp: show_nat.simps [of n])
  qed
qed

lemma show_nat_not_Nil [simp]: "show_nat n \<noteq> []"
  by (simp add: show_nat.simps [of n])

lemma not_digit [simp]: "\<not> is_digit CHR ''.''" "\<not> is_digit CHR ''-''" "\<not> is_digit CHR ''+''"
  by (simp_all add: is_digit_def)

lemma parse_show_nat:
  assumes "n < 2 ^ 63"
  shows "parse_or_0 (show_nat n) = of_nat n"
proof -
  have "is_digit (show_nat n ! 0)" by (rule show_nat_digits [where n = n]) simp
  then have "show_nat n ! 0 \<noteq> CHR ''-''" "show_nat n ! 0 \<noteq> CHR ''+''" by auto
  moreover have "list_all is_digit (show_nat n)" using show_nat_digits by (auto simp: list_all_iff)
  moreover have "int n < 2 ^ 63" using assms by simp
  ultimately show ?thesis by (simp add: parse_or_0_def parse_i64_def read_show_nat)
qed

lemma split_at_sep: "\<forall>x \<in> set s. \<not> sep x \<Longrightarrow> sep c \<Longrightarrow> split_chars sep (s @ c # t) = s # split_chars sep t"
  by (induction s) auto

lemma split_no_sep: "\<forall>x \<in> set s. \<not> sep x \<Longrightarrow> split_chars sep s = [s]"
  by (induction s) auto

section \<open>Properties\<close>

text \<open>The text of a version with a patch number behind a dash, if there is one.\<close>

definition version_text :: "nat \<Rightarrow> nat \<Rightarrow> nat \<Rightarrow> nat \<Rightarrow> string" where
  "version_text a b c p = show_nat a @ CHR ''.'' # show_nat b @ CHR ''.'' # show_nat c @ (if p = 0 then [] else CHR ''-'' # show_nat p)"

definition number_of :: "nat \<times> nat \<times> nat \<times> nat \<Rightarrow> nat" where
  "number_of = (\<lambda>(a, b, c, p). (a * 1000 + b) * 1000 + c * 10 + p)"

lemma number_of_less:
  "b' < 1000 \<Longrightarrow> c' < 100 \<Longrightarrow> p' < 10 \<Longrightarrow> b < 1000 \<Longrightarrow> c < 100 \<Longrightarrow> p < 10 \<Longrightarrow>
    number_of (a, b, c, p) \<le> number_of (a', b', c', p') \<longleftrightarrow> (a, b, c, p) \<le> (a', b', c', p')"
  by (auto simp: number_of_def)

lemma get_version_number_text:
  assumes "a < 2 ^ 32" "b < 1000" "c < 100" "p < 10"
  shows "get_version_number (version_text a b c p) = of_nat (number_of (a, b, c, p))"
proof -
  have no: "\<forall>x \<in> set (show_nat n). x \<noteq> CHR ''.'' \<and> x \<noteq> CHR ''-''" for n
    using show_nat_digits [of "CHR ''.''" n] show_nat_digits [of "CHR ''-''" n] by auto
  let ?s = "show_nat a @ CHR ''.'' # show_nat b @ CHR ''.'' # show_nat c"
  have dots: "split_chars (\<lambda>c. c = CHR ''.'') ?s = [show_nat a, show_nat b, show_nat c]"
    using no by (simp add: split_at_sep split_no_sep)
  have dash: "split_chars (\<lambda>c. c = CHR ''-'') (version_text a b c p) = (if p = 0 then [?s] else [?s, show_nat p])"
    using no split_at_sep [of ?s "\<lambda>c. c = CHR ''-''" "CHR ''-''" "show_nat p"] split_no_sep [of ?s "\<lambda>c. c = CHR ''-''"]
      split_no_sep [of "show_nat p" "\<lambda>c. c = CHR ''-''"]
    by (auto simp: version_text_def)
  have "version_loop 0 0 [show_nat a, show_nat b, show_nat c] =
      ((of_nat a * 1000 + of_nat b) * 1000 + of_nat c, of_nat c)"
    using assms by (simp add: Let_def parse_show_nat)
  then show ?thesis
    using assms by (simp add: get_version_number_def dash dots parse_show_nat number_of_def del: version_loop.simps)
qed

text \<open>
  C17: Versions are compared as meant: for version texts with a minor number below 1000, a last number
  below 100 and a patch number below 10, the numbers are ordered as the versions, part by part.
\<close>

theorem version_order:
  assumes "a < 2 ^ 32" "b < 1000" "c < 100" "p < 10" and "a' < 2 ^ 32" "b' < 1000" "c' < 100" "p' < 10"
  shows "at_least (get_version_number (version_text a b c p)) (version_text a' b' c' p')
    \<longleftrightarrow> (a', b', c', p') \<le> (a, b, c, p)"
proof -
  have b: "number_of (a, b, c, p) < 2 ^ 63" if "a < 2 ^ 32" "b < 1000" "c < 100" "p < 10" for a b c p
    using that by (simp add: number_of_def)
  have s: "sint (of_nat n :: i64) = int n" if "n < 2 ^ 63" for n
    using that by (simp add: signed_of_nat signed_take_bit_int_eq_self)
  show ?thesis
    using assms b [of a b c p] b [of a' b' c' p'] number_of_less [of b c p b' c' p' a' a]
    by (simp add: at_least_def get_version_number_text s)
qed

theorem version_order_witness:
  "at_least (get_version_number (version_text 1 4 10 1)) (version_text 1 4 2 0)"
  using version_order [of 1 4 10 1 1 4 2 0] by simp

text \<open>Beyond these bounds the order is lost: the hundredth version of a series is the next series.\<close>

lemma version_order_lost:
  "get_version_number ''1.1.100'' = get_version_number ''1.2.0''"
  "at_least (get_version_number ''1.1.101'') ''1.2.0''"
  by code_simp+

text \<open>The comment on the code gives 1001030 for 1.2.3.\<close>

lemma version_example: "get_version_number ''1.2.3'' = 1002030" "get_version_number ''1.1.10'' = 1001100"
  by code_simp+

text \<open>By its text, a version from 1.2.4 on is taken to support screenshots; by its number, one from 1.4.0 on.\<close>

lemma screenshot_checks_differ:
  "is_support_screenshot ''1.3.0'' \<and> \<not> is_support_screenshot_num (get_version_number ''1.3.0'')"
  by code_simp

end
