(* ===== verification/Cm_Files.thy ===== *)
theory Cm_Files
  imports Transfer_Run Version
begin

text \<open>
  File requests in the connection manager (\<open>src/ui_cm_interface.rs\<close>): every request a controlled
  machine gets from the service process, the jobs it keeps, and the tick that reads for the peer. The
  answers are listed in the order they are sent; messages stay structured where the code sends their
  bytes, and the tasks the code runs on other threads end without panic. Directories are seen through
  the environment, which knows what a path leads to.
\<close>

section \<open>Data\<close>

datatype fs_request =
    ReadEmptyDirs string bool
  | ReadDir string bool
  | RemoveDir string i32 bool
  | RemoveFile string i32 i32
  | CreateDir string i32
  | NewWrite string i32 i32 "(string \<times> u64) list" bool u64 i32
  | CancelWrite i32
  | WriteBlock i32 i32 bytes bool
  | WriteDone i32 i32
  | WriteError i32 i32 string
  | WriteOffset i32 i32 u32
  | CheckDigest i32 i32 u64 u64 bool bool
  | SendConfirm "send_confirm_request option"
  | Rename i32 string string
  | ReadFile string i32 i32 bool i32 bool
  | CancelRead i32 i32
  | SendConfirmForRead i32 i32 bool u32 i32
  | ReadAllFiles string i32 bool i32

datatype cm_answer =
    Raw file_message
  | ReadJobInitResult i32 i32 bool i32 "string + (i32 \<times> string \<times> file_entry list)"
  | AllFilesResult i32 i32 string "string + (i32 \<times> string \<times> file_entry list)"
  | FileReadError i32 i32 string i32
  | FileBlockFromCM i32 i32 bytes bool i32
  | FileReadDone i32 i32 i32
  | FileDigestFromCM i32 i32 u64 u64 bool i32

datatype dir_call = RemoveDirCall string | CreateDirCall string

record cm_env =
  ce_fs :: transfer_env
  ce_os :: target_os
  ce_drives :: u32
  ce_home :: string
  ce_tree :: "string \<Rightarrow> fs_tree option"
  ce_can_remove :: "string \<Rightarrow> bool"
  ce_dir :: "dir_call \<Rightarrow> string + unit"
  ce_max_files_option :: string
  ce_has_log :: bool

text \<open>A log entry has the job, whether it is done, whether it is cancelled, and the error.\<close>

record cm_files =
  cf_write_jobs :: "transfer_job list"
  cf_read_jobs :: "transfer_job list"
  cf_store :: file_store
  cf_max_files :: "usize option"
  cf_answers :: "cm_answer list"
  cf_log :: "(transfer_job \<times> bool \<times> bool \<times> string) list"

definition answer :: "cm_answer \<Rightarrow> cm_files \<Rightarrow> cm_files" where
  "answer a s = s\<lparr>cf_answers := cf_answers s @ [a]\<rparr>"

definition log_job :: "cm_env \<Rightarrow> transfer_job \<Rightarrow> bool \<Rightarrow> bool \<Rightarrow> string \<Rightarrow> cm_files \<Rightarrow> cm_files" where
  "log_job env job fin cancel err s =
     (if ce_has_log env then s\<lparr>cf_log := cf_log s @ [(job, fin, cancel, err)]\<rparr> else s)"

section \<open>The limit on the number of files\<close>

definition DEFAULT_MAX_VALIDATED_FILES :: usize where "DEFAULT_MAX_VALIDATED_FILES = 10000"

definition parse_usize :: "string \<Rightarrow> usize option" where
  "parse_usize s =
     (let ds = (if s \<noteq> [] \<and> s ! 0 = CHR ''+'' then tl s else s)
      in if ds \<noteq> [] \<and> list_all is_digit ds \<and> read_nat ds < 2 ^ 64 then Some (of_nat (read_nat ds)) else None)"

text \<open>Read from the option once; an option of zero means the default, an unreadable one no limit.\<close>

definition get_max_validated_files :: "string \<Rightarrow> usize option \<Rightarrow> usize \<times> usize option" where
  "get_max_validated_files opt cell =
     (case cell of
        Some n \<Rightarrow> (n, cell)
      | None \<Rightarrow>
          (let c = (case parse_usize (trim_spaces opt) of Some n \<Rightarrow> n | None \<Rightarrow> - 1);
               n = (if c = 0 then DEFAULT_MAX_VALIDATED_FILES else c)
           in (n, Some n)))"

definition check_file_count_limit :: "string \<Rightarrow> nat \<Rightarrow> usize option \<Rightarrow> (string + unit) \<times> usize option" where
  "check_file_count_limit opt file_count cell =
     (let (max_files, cell) = get_max_validated_files opt cell in
      if unat max_files < file_count
      then (Inl (''file transfer rejected: too many files ('' @ show_nat file_count @ '' files exceeds limit of ''
                 @ show_nat (unat max_files) @ ''). Adjust 'file-transfer-max-files' option to increase limit.''), cell)
      else (Inr (), cell))"

section \<open>Reading for the peer\<close>

definition start_read_job ::
  "cm_env \<Rightarrow> string \<Rightarrow> i32 \<Rightarrow> bool \<Rightarrow> i32 \<Rightarrow> i32 \<Rightarrow> bool \<Rightarrow> cm_files \<Rightarrow> cm_files" where
  "start_read_job env path file_num include_hidden i conn_id overwrite_detection s =
     (case new_read (ce_os env) (ce_tree env path) i Generic [] (FilePath path) file_num include_hidden True overwrite_detection of
        Inl e \<Rightarrow> answer (ReadJobInitResult i file_num include_hidden conn_id (Inl (''validation failed: '' @ e))) s
      | Inr job \<Rightarrow>
          (case check_file_count_limit (ce_max_files_option env) (length (tj_files job)) (cf_max_files s) of
             (Inl msg, cell) \<Rightarrow> answer (ReadJobInitResult i file_num include_hidden conn_id (Inl msg)) (s\<lparr>cf_max_files := cell\<rparr>)
           | (Inr _, cell) \<Rightarrow>
               (let s = answer (ReadJobInitResult i file_num include_hidden conn_id (Inr (i, path, tj_files job)))
                          (s\<lparr>cf_max_files := cell\<rparr>)
                in s\<lparr>cf_read_jobs := cf_read_jobs s @ [job\<lparr>tj_conn_id := conn_id\<rparr>]\<rparr>)))"

definition init_read_job_for_cm ::
  "transfer_env \<Rightarrow> i32 \<Rightarrow> transfer_job \<Rightarrow> file_store \<Rightarrow> (string + cm_answer list) \<times> transfer_job" where
  "init_read_job_for_cm env conn_id job st =
     (case init_data_stream_for_cm env job st of
        (Inl e, job) \<Rightarrow> (Inl e, job)
      | (Inr None, job) \<Rightarrow> (Inr [], job)
      | (Inr (Some (last_modified, file_size)), job) \<Rightarrow>
          (Inr [FileDigestFromCM (tj_id job) (tj_file_num job) last_modified file_size (tj_is_resume job) conn_id], job))"

text \<open>The part of a round from reading on: the answers and whether the job is finished.\<close>

definition tick_read ::
  "transfer_env \<Rightarrow> i32 \<Rightarrow> transfer_job \<Rightarrow> file_store \<Rightarrow> transfer_job \<times> cm_answer list \<times> bool" where
  "tick_read env conn_id job st =
     (case job_read env job st of
        (Inl e, job) \<Rightarrow> (job, [FileReadError (tj_id job) (tj_file_num job) e conn_id], True)
      | (Inr (Some b), job) \<Rightarrow> (job, [FileBlockFromCM (fb_id b) (fb_file_num b) (fb_data b) (fb_compressed b) conn_id], False)
      | (Inr None, job) \<Rightarrow>
          (if job_completed job
           then (job,
                 [case job_error job of
                    Some e \<Rightarrow> FileReadError (tj_id job) (tj_file_num job) e conn_id
                  | None \<Rightarrow> FileReadDone (tj_id job) (tj_file_num job) conn_id], True)
           else (job, [], False)))"

fun tick_jobs ::
  "transfer_env \<Rightarrow> i32 \<Rightarrow> file_store \<Rightarrow> transfer_job list \<Rightarrow> transfer_job list \<times> cm_answer list \<times> i32 list" where
  "tick_jobs env conn_id st [] = ([], [], [])"
| "tick_jobs env conn_id st (job # jobs) =
     (if tj_is_last_job job then (let (js, as, fin) = tick_jobs env conn_id st jobs in (job # js, as, fin))
      else case init_read_job_for_cm env conn_id job st of
        (Inl e, job) \<Rightarrow>
          (let (js, as, fin) = tick_jobs env conn_id st jobs
           in (job # js, FileReadError (tj_id job) (tj_file_num job) e conn_id # as, tj_id job # fin))
      | (Inr as, job) \<Rightarrow>
          (let (job, as', finished) = tick_read env conn_id job st
           in (job # jobs, as @ as', if finished then [tj_id job] else [])))"

definition handle_read_jobs_tick ::
  "transfer_env \<Rightarrow> i32 \<Rightarrow> transfer_job list \<Rightarrow> file_store \<Rightarrow> transfer_job list \<times> cm_answer list" where
  "handle_read_jobs_tick env conn_id jobs st =
     (let (jobs, as, finished) = tick_jobs env conn_id st jobs
      in (fold (\<lambda>i js. snd (remove_job i js)) finished jobs, as))"

definition read_all_files :: "cm_env \<Rightarrow> string \<Rightarrow> bool \<Rightarrow> i32 \<Rightarrow> i32 \<Rightarrow> cm_files \<Rightarrow> cm_files" where
  "read_all_files env path include_hidden i conn_id s =
     (case get_recursive_files (ce_os env) path (ce_tree env path) include_hidden of
        Inl e \<Rightarrow> answer (AllFilesResult i conn_id path (Inl e)) s
      | Inr files \<Rightarrow>
          (case check_file_count_limit (ce_max_files_option env) (length files) (cf_max_files s) of
             (Inl msg, cell) \<Rightarrow> answer (AllFilesResult i conn_id path (Inl msg)) (s\<lparr>cf_max_files := cell\<rparr>)
           | (Inr _, cell) \<Rightarrow> answer (AllFilesResult i conn_id path (Inr (i, path, files))) (s\<lparr>cf_max_files := cell\<rparr>)))"

definition read_empty_dirs :: "cm_env \<Rightarrow> string \<Rightarrow> bool \<Rightarrow> cm_files \<Rightarrow> cm_files" where
  "read_empty_dirs env dir include_hidden s =
     (case get_empty_dirs_recursive (ce_os env) (ce_drives env) dir (ce_tree env dir) include_hidden of
        Inl _ \<Rightarrow> s
      | Inr fds \<Rightarrow> answer (Raw (MsgEmptyDirs dir fds)) s)"

definition read_dir_request :: "cm_env \<Rightarrow> string \<Rightarrow> bool \<Rightarrow> cm_files \<Rightarrow> cm_files" where
  "read_dir_request env dir include_hidden s =
     (let path = (if dir = [] then ce_home env else dir) in
      case read_dir (ce_os env) (ce_drives env) path (follow (ce_tree env path)) include_hidden of
        Inl _ \<Rightarrow> s
      | Inr fd \<Rightarrow> answer (Raw (MsgDir 0 (fd_path fd) (fd_entries fd))) s)"

section \<open>Changes to files and directories\<close>

definition handle_result :: "string + unit \<Rightarrow> i32 \<Rightarrow> i32 \<Rightarrow> cm_files \<Rightarrow> cm_files" where
  "handle_result res i file_num s =
     (case res of
        Inl err \<Rightarrow> answer (Raw (MsgError i err file_num)) s
      | Inr _ \<Rightarrow> answer (Raw (MsgDone i file_num)) s)"

definition remove_file_request :: "cm_env \<Rightarrow> string \<Rightarrow> i32 \<Rightarrow> i32 \<Rightarrow> cm_files \<Rightarrow> cm_files" where
  "remove_file_request env path i file_num s =
     (let (res, st) = remove_file (ce_fs env) path (cf_store s) in handle_result res i file_num (s\<lparr>cf_store := st\<rparr>))"

definition create_dir_request :: "cm_env \<Rightarrow> string \<Rightarrow> i32 \<Rightarrow> cm_files \<Rightarrow> cm_files" where
  "create_dir_request env path i s = handle_result (ce_dir env (CreateDirCall path)) i 0 s"

definition rename_checked :: "cm_env \<Rightarrow> string \<Rightarrow> string \<Rightarrow> file_store \<Rightarrow> (string + unit) \<times> file_store" where
  "rename_checked env path new_name st =
     (if new_name = [] then (Inl ''new file name cannot be empty'', st)
      else case validate_file_name_no_traversal (ce_os env) new_name of
             Inl e \<Rightarrow> (Inl e, st)
           | Inr _ \<Rightarrow> rename_file (ce_fs env) path new_name st)"

definition rename_file_request :: "cm_env \<Rightarrow> string \<Rightarrow> string \<Rightarrow> i32 \<Rightarrow> cm_files \<Rightarrow> cm_files" where
  "rename_file_request env path new_name i s =
     (let (res, st) = rename_checked env path new_name (cf_store s) in handle_result res i 0 (s\<lparr>cf_store := st\<rparr>))"

text \<open>
  Directories are no files of the store, but a recursive removal takes the links below the directory with it.
\<close>

definition remove_dir_request :: "cm_env \<Rightarrow> string \<Rightarrow> i32 \<Rightarrow> bool \<Rightarrow> cm_files \<Rightarrow> cm_files" where
  "remove_dir_request env path i recursive s =
     (if recursive
      then case follow (ce_tree env path) of
             None \<Rightarrow> handle_result (Inl ''read_dir'') i 0 s
           | Some t \<Rightarrow>
               handle_result (fst (remove_all_empty_dir (ce_os env) (ce_can_remove env) path t)) i 0
                 (s\<lparr>cf_store := st_remove_links (ce_os env) (removed_links (ce_os env) (ce_can_remove env) path t) (cf_store s)\<rparr>)
      else handle_result (ce_dir env (RemoveDirCall path)) i 0 s)"

section \<open>Writing for the peer\<close>

definition new_write_request ::
  "cm_env \<Rightarrow> string \<Rightarrow> i32 \<Rightarrow> i32 \<Rightarrow> (string \<times> u64) list \<Rightarrow> bool \<Rightarrow> u64 \<Rightarrow> i32 \<Rightarrow> cm_files \<Rightarrow> cm_files" where
  "new_write_request env path i file_num files overwrite_detection total_sz conn_id s =
     (case validate_transfer_file_names (ce_os env) files of
        Inl e \<Rightarrow> answer (Raw (MsgError i e file_num)) s
      | Inr _ \<Rightarrow>
          (let file_entries = map (\<lambda>f. default_entry\<lparr>fe_name := fst f, fe_modified_time := snd f\<rparr>) files;
               job = new_write i Generic [] (FilePath path) file_num False False file_entries overwrite_detection;
               job = job\<lparr>tj_total_size := total_sz, tj_conn_id := conn_id\<rparr>
           in s\<lparr>cf_write_jobs := cf_write_jobs s @ [job]\<rparr>))"

text \<open>The answer to a digest and the job with the digest noted.\<close>

definition check_digest ::
  "transfer_env \<Rightarrow> file_transfer_digest \<Rightarrow> bool \<Rightarrow> bool \<Rightarrow> transfer_job \<Rightarrow> file_store \<Rightarrow> cm_answer list \<times> transfer_job" where
  "check_digest env digest is_upload is_resume job st =
     (let file_num = file_index (ft_file_num digest);
          req = \<lparr>sc_id = ft_id digest, sc_file_num = ft_file_num digest, sc_union = Some (OffsetBlk 0)\<rparr> in
      if length (tj_files job) \<le> file_num then ([], job)
      else case tj_data_source job of
        MemoryCursor _ \<Rightarrow> ([], job)
      | FilePath p \<Rightarrow>
          (case is_write_need_confirmation env is_resume (job_join p (fe_name (tj_files job ! file_num))) digest st of
             Inl err \<Rightarrow> ([Raw (MsgError (ft_id digest) err (ft_file_num digest))], job)
           | Inr res \<Rightarrow>
               ([Raw (case res of
                        IsSame \<Rightarrow> MsgSendConfirm (req\<lparr>sc_union := Some (Skip True)\<rparr>)
                      | NeedConfirm d \<Rightarrow> MsgDigest (d\<lparr>ft_is_upload := is_upload\<rparr>)
                      | NoSuchFile \<Rightarrow> MsgSendConfirm req)],
                set_digest (ft_file_size digest) (ft_last_modified digest) job)))"

section \<open>A request\<close>

text \<open>\<open>None\<close> is a panic.\<close>

fun handle_fs :: "cm_env \<Rightarrow> fs_request \<Rightarrow> cm_files \<Rightarrow> cm_files option" where
  "handle_fs env (ReadEmptyDirs dir include_hidden) s = Some (read_empty_dirs env dir include_hidden s)"
| "handle_fs env (ReadDir dir include_hidden) s = Some (read_dir_request env dir include_hidden s)"
| "handle_fs env (RemoveDir path i recursive) s = Some (remove_dir_request env path i recursive s)"
| "handle_fs env (RemoveFile path i file_num) s = Some (remove_file_request env path i file_num s)"
| "handle_fs env (CreateDir path i) s = Some (create_dir_request env path i s)"
| "handle_fs env (NewWrite path i file_num files overwrite_detection total_sz conn_id) s =
     Some (new_write_request env path i file_num files overwrite_detection total_sz conn_id s)"
| "handle_fs env (CancelWrite i) s =
     Some (case remove_job i (cf_write_jobs s) of
             (None, _) \<Rightarrow> s
           | (Some job, jobs) \<Rightarrow>
               log_job env job False True []
                 (s\<lparr>cf_write_jobs := jobs, cf_store := remove_download_file (ce_fs env) job (cf_store s)\<rparr>))"
| "handle_fs env (WriteDone i file_num) s =
     Some (case remove_job i (cf_write_jobs s) of
             (None, _) \<Rightarrow> s
           | (Some job, jobs) \<Rightarrow>
               log_job env job True False []
                 (answer (Raw (MsgDone i file_num))
                   (s\<lparr>cf_write_jobs := jobs, cf_store := modify_time (ce_fs env) job (cf_store s)\<rparr>)))"
| "handle_fs env (WriteError i file_num err) s =
     Some (case remove_job i (cf_write_jobs s) of
             (None, _) \<Rightarrow> s
           | (Some job, jobs) \<Rightarrow>
               answer (Raw (MsgError (tj_id job) err file_num))
                 (log_job env job False False err (s\<lparr>cf_write_jobs := jobs\<rparr>)))"
| "handle_fs env (WriteBlock i file_num v compressed) s =
     Some (case get_job i (cf_write_jobs s) of
             None \<Rightarrow> s
           | Some job \<Rightarrow>
               (case job_write (ce_fs env) \<lparr>fb_id = i, fb_file_num = file_num, fb_data = v, fb_compressed = compressed\<rparr> job (cf_store s) of
                  (res, job, st) \<Rightarrow>
                    (let s = s\<lparr>cf_write_jobs := put_job job (cf_write_jobs s), cf_store := st\<rparr> in
                     case res of
                       Inl err \<Rightarrow> answer (Raw (MsgError i err file_num)) s
                     | Inr _ \<Rightarrow> s)))"
| "handle_fs env (CheckDigest i file_num file_size last_modified is_upload is_resume) s =
     Some (case get_job i (cf_write_jobs s) of
             None \<Rightarrow> s
           | Some job \<Rightarrow>
               (let (as, job) = check_digest (ce_fs env)
                      \<lparr>ft_id = i, ft_file_num = file_num, ft_last_modified = last_modified, ft_file_size = file_size,
                       ft_is_upload = False, ft_is_identical = False, ft_transferred_size = 0, ft_is_resume = False\<rparr>
                      is_upload is_resume job (cf_store s)
                in fold answer as (s\<lparr>cf_write_jobs := put_job job (cf_write_jobs s)\<rparr>)))"
| "handle_fs env (SendConfirm parsed) s =
     (case parsed of
        None \<Rightarrow> Some s
      | Some r \<Rightarrow>
          (case get_job (sc_id r) (cf_write_jobs s) of
             None \<Rightarrow> Some s
           | Some job \<Rightarrow> map_option (\<lambda>job. s\<lparr>cf_write_jobs := put_job job (cf_write_jobs s)\<rparr>) (confirm (ce_fs env) r job (cf_store s))))"
| "handle_fs env (Rename i path new_name) s = Some (rename_file_request env path new_name i s)"
| "handle_fs env (ReadFile path i file_num include_hidden conn_id overwrite_detection) s =
     Some (start_read_job env path file_num include_hidden i conn_id overwrite_detection s)"
| "handle_fs env (CancelRead i conn_id) s =
     Some (case remove_job i (cf_read_jobs s) of
             (None, _) \<Rightarrow> s
           | (Some job, jobs) \<Rightarrow> log_job env job False True [] (s\<lparr>cf_read_jobs := jobs\<rparr>))"
| "handle_fs env (SendConfirmForRead i file_num skip offset_blk conn_id) s =
     (case get_job i (cf_read_jobs s) of
        None \<Rightarrow> Some s
      | Some job \<Rightarrow>
          map_option (\<lambda>job. s\<lparr>cf_read_jobs := put_job job (cf_read_jobs s)\<rparr>)
            (confirm (ce_fs env)
               \<lparr>sc_id = i, sc_file_num = tj_file_num job, sc_union = Some (if skip then Skip True else OffsetBlk offset_blk)\<rparr>
               job (cf_store s)))"
| "handle_fs env (ReadAllFiles path i include_hidden conn_id) s = Some (read_all_files env path include_hidden i conn_id s)"
| "handle_fs env (WriteOffset i file_num offset_blk) s = Some s"

definition cm_tick :: "cm_env \<Rightarrow> i32 \<Rightarrow> cm_files \<Rightarrow> cm_files" where
  "cm_tick env conn_id s =
     (let (jobs, as) = handle_read_jobs_tick (ce_fs env) conn_id (cf_read_jobs s) (cf_store s)
      in s\<lparr>cf_read_jobs := jobs, cf_answers := cf_answers s @ as\<rparr>)"

end
