(* ===== verification/Cm_Safety.thy ===== *)
theory Cm_Safety
  imports Cm_Files
begin

text \<open>
  What file requests of a peer can change on the controlled machine: the jobs of the connection manager
  keep to checked names in every reachable state, and every step changes only files below the target of
  a job it names, the file an open stream is on, or the file the request itself names.
\<close>

section \<open>What the operations of a job change\<close>

definition same_files :: "transfer_job \<Rightarrow> transfer_job \<Rightarrow> bool" where
  "same_files job' job \<longleftrightarrow> tj_id job' = tj_id job \<and> tj_type job' = tj_type job
     \<and> tj_data_source job' = tj_data_source job \<and> tj_files job' = tj_files job"

lemma same_files_refl [simp]: "same_files job job"
  by (simp add: same_files_def)

lemma same_files_update [simp]:
  "same_files (job\<lparr>tj_data_stream := s\<rparr>) job'' = same_files job job''"
  "same_files (job\<lparr>tj_file_num := n\<rparr>) job'' = same_files job job''"
  "same_files (job\<lparr>tj_finished_size := a\<rparr>) job'' = same_files job job''"
  "same_files (job\<lparr>tj_transferred := a\<rparr>) job'' = same_files job job''"
  "same_files (job\<lparr>tj_file_confirmed := b\<rparr>) job'' = same_files job job''"
  "same_files (job\<lparr>tj_file_is_waiting := b\<rparr>) job'' = same_files job job''"
  "same_files (job\<lparr>tj_file_skipped := b\<rparr>) job'' = same_files job job''"
  "same_files (job\<lparr>tj_digest := d\<rparr>) job'' = same_files job job''"
  by (simp_all add: same_files_def)

definition frame :: "string set \<Rightarrow> file_store \<Rightarrow> file_store \<Rightarrow> bool" where
  "frame X st st' \<longleftrightarrow> st_ok st' \<and> (\<forall>x. x \<notin> X \<longrightarrow> st_file st' x = st_file st x)"

lemma frame_refl: "st_ok st \<Longrightarrow> frame X st st"
  by (simp add: frame_def)

lemma frame_trans: "frame X st st' \<Longrightarrow> frame X st' st'' \<Longrightarrow> frame X st st''"
  by (simp add: frame_def)

lemma frame_mono: "frame X st st' \<Longrightarrow> X \<subseteq> Y \<Longrightarrow> frame Y st st'"
  by (auto simp: frame_def)

lemma frame_ok: "frame X st st' \<Longrightarrow> st_ok st'"
  by (simp add: frame_def)

lemma frame_remove: "st_ok st \<Longrightarrow> p \<in> X \<Longrightarrow> frame X st (st_remove p st)"
  by (auto simp: frame_def st_remove_props)

lemma frame_rename: "st_ok st \<Longrightarrow> p \<in> X \<Longrightarrow> q \<in> X \<Longrightarrow> frame X st (st_rename p q st)"
proof (cases "st_names st p")
  case (Some n)
  assume a: "st_ok st" "p \<in> X" "q \<in> X"
  show ?thesis
  proof (cases "p = q")
    case True
    then show ?thesis using a Some by (simp add: st_rename_def frame_refl)
  next
    case False
    then show ?thesis using a st_rename_props [OF a(1) Some False] by (auto simp: frame_def)
  qed
qed (simp add: st_rename_None frame_refl)

lemma frame_set_mtime: "st_ok st \<Longrightarrow> p \<in> X \<Longrightarrow> frame X st (st_set_mtime p t st)"
  by (auto simp: frame_def st_set_mtime_props)

lemma frame_create: "st_ok st \<Longrightarrow> p \<in> X \<Longrightarrow> st_create now p st = (n, st') \<Longrightarrow> frame X st st'"
  using st_create_props(1) [of st now p n st'] st_create_props(4) [of st now p n st'] unfolding frame_def by metis

lemma frame_write_file: "st_ok st \<Longrightarrow> p \<in> X \<Longrightarrow> frame X st (st_write_file now p v st)"
  by (auto simp: frame_def st_write_file_props)

lemma frame_write:
  assumes ok: "st_ok st" and X: "\<And>x. st_names st x = Some n \<Longrightarrow> x \<in> X"
  shows "frame X st (st_write now n pos v st)"
proof -
  have "st_ok (st_write now n pos v st)" by (rule st_ok_same_names [OF ok]) (auto simp: st_write_def)
  moreover have "st_file (st_write now n pos v st) x = st_file st x" if "x \<notin> X" for x
    using X [of x] that by (cases "st_names st x") (auto simp: st_write_def st_file_def)
  ultimately show ?thesis by (simp add: frame_def)
qed

text \<open>The names a job works under.\<close>

definition job_names :: "transfer_job \<Rightarrow> string \<Rightarrow> string set" where
  "job_names job p = (\<Union>k<length (tj_files job). names_of (target job p k))"

lemma job_namesI:
  assumes "k < length (tj_files job)"
  shows "target job p k \<in> job_names job p" "download_name (target job p k) \<in> job_names job p"
    "digest_name (target job p k) \<in> job_names job p"
  using assms by (auto simp: job_names_def names_of_def)

lemma current_entry_names:
  assumes "tj_data_source job = FilePath p" "current_entry job = Some (q, e)"
  shows "q \<in> job_names job p" "download_name q \<in> job_names job p" "digest_name q \<in> job_names job p"
  using assms job_namesI [of "file_index (tj_file_num job)" job p]
  by (auto simp: current_entry_def target_def Let_def split: if_splits)

lemma modify_time_frame:
  assumes "st_ok st" "tj_data_source job = FilePath p"
  shows "frame (job_names job p) st (modify_time env job st)"
proof (cases "current_entry job")
  case (Some c)
  obtain q e where c: "c = (q, e)" by fastforce
  note n = current_entry_names [OF assms(2) Some [unfolded c]]
  let ?r = "if io_ok env (CallRemove (digest_name q)) then st_remove (digest_name q) st else st"
  let ?n = "if io_ok env (CallRename (download_name q) q) then st_rename (download_name q) q ?r else ?r"
  have r: "frame (job_names job p) st ?r" using assms(1) n by (simp add: frame_remove frame_refl)
  have "frame (job_names job p) ?r ?n" using frame_ok [OF r] n by (simp add: frame_rename frame_refl)
  with r have rn: "frame (job_names job p) st ?n" by (rule frame_trans)
  have "frame (job_names job p) ?n (if io_ok env (CallSetMtime q) then st_set_mtime q (fe_modified_time e) ?n else ?n)"
    using frame_ok [OF rn] n by (simp add: frame_set_mtime frame_refl)
  from frame_trans [OF rn this] show ?thesis by (simp add: modify_time_def Some c Let_def)
qed (use assms in \<open>simp add: modify_time_def frame_refl\<close>)

lemma remove_download_file_frame:
  assumes "st_ok st" "tj_data_source job = FilePath p"
  shows "frame (job_names job p) st (remove_download_file env job st)"
proof (cases "current_entry job")
  case (Some c)
  obtain q e where c: "c = (q, e)" by fastforce
  note n = current_entry_names [OF assms(2) Some [unfolded c]]
  let ?r = "if io_ok env (CallRemove (download_name q)) then st_remove (download_name q) st else st"
  have r: "frame (job_names job p) st ?r" using assms(1) n by (simp add: frame_remove frame_refl)
  have "frame (job_names job p) ?r (if io_ok env (CallRemove (digest_name q)) then st_remove (digest_name q) ?r else ?r)"
    using frame_ok [OF r] n by (simp add: frame_remove frame_refl)
  from frame_trans [OF r this] show ?thesis by (simp add: remove_download_file_def Some c Let_def)
qed (use assms in \<open>simp add: remove_download_file_def frame_refl\<close>)

lemma begin_file_frame:
  assumes ok: "st_ok st" and job: "tj_type job = Generic" "tj_data_source job = FilePath p"
    and k: "file_index num < length (tj_files job)" and b: "begin_file env p num job st = (res, job', st')"
  shows "frame (job_names job p) st st' \<and> same_files job' job
    \<and> (\<forall>job''. res = Inr job'' \<longrightarrow> job'' = job' \<and> (\<exists>n. tj_data_stream job'' = Some (FileStream WriteOnly n 0)
         \<and> (\<forall>x. st_names st' x = Some n \<longrightarrow> x \<in> job_names job p)))"
proof -
  let ?X = "job_names job p" and ?q = "target job p (file_index num)"
  note n = job_namesI [OF k, of p]
  have m: "frame ?X st (modify_time env job st)" by (rule modify_time_frame [OF ok job(2)])
  let ?st1 = "modify_time env job st"
  obtain n2 st3 where c: "st_create (xe_now env) (download_name ?q) (st_remove (digest_name ?q) ?st1) = (n2, st3)" by fastforce
  have r: "frame ?X st (st_remove (digest_name ?q) ?st1)"
    by (rule frame_trans [OF m]) (use frame_ok [OF m] n in \<open>simp add: frame_remove\<close>)
  have st3: "frame ?X st st3" by (rule frame_trans [OF r frame_create [OF frame_ok [OF r] n(2) c]])
  let ?w = "st_write_file (xe_now env) (digest_name ?q) (xe_digest_text env (tj_digest job)) st3"
  have w: "frame ?X st ?w" by (rule frame_trans [OF st3 frame_write_file [OF frame_ok [OF st3] n(3)]])
  have n3: "st_names st3 (download_name ?q) = Some n2" using st_create_props(2) [OF frame_ok [OF r] c] .
  have n4: "st_names ?w (download_name ?q) = Some n2" using st_write_file_props(3) [OF frame_ok [OF st3]] n3 by simp
  have own: "x \<in> ?X" if "st_ok s" "st_names s (download_name ?q) = Some n2" "st_names s x = Some n2" for s x
    using st_okD(3) [OF that(1,2,3)] n(2) by simp
  show ?thesis
    using b m r st3 w job own [OF frame_ok [OF st3] n3] own [OF frame_ok [OF w] n4]
    by (auto simp: begin_file_def Let_def c target_def [symmetric] split: if_splits)
qed

definition writing_on :: "transfer_job \<Rightarrow> file_store \<Rightarrow> string set" where
  "writing_on job st = {x. \<exists>n pos. tj_data_stream job = Some (FileStream WriteOnly n pos) \<and> st_names st x = Some n}"

lemma write_data_frame:
  assumes ok: "st_ok st" and w: "write_data env b job st = (res, job', st')"
  shows "frame (writing_on job st) st st' \<and> same_files job' job"
proof -
  have "frame (writing_on job st) st (st_write (xe_now env) n pos v st)"
    if "tj_data_stream job = Some (FileStream WriteOnly n pos)" for n pos v
    by (rule frame_write [OF ok]) (use that in \<open>auto simp: writing_on_def\<close>)
  then show ?thesis
    using w frame_refl [OF ok]
    by (auto simp: write_data_def stream_write_def Let_def split: option.splits data_stream.splits open_mode.splits if_splits)
qed

lemma job_write_frame:
  assumes ok: "st_ok st" and job: "tj_type job = Generic" "tj_data_source job = FilePath p"
    and w: "job_write env b job st = (res, job', st')"
  shows "frame (job_names job p \<union> writing_on job st) st st' \<and> same_files job' job"
proof -
  let ?X = "job_names job p \<union> writing_on job st"
  consider "job' = job" "st' = st"
    | "write_data env b job st = (res, job', st')"
    | "file_index (fb_file_num b) < length (tj_files job)" "fst (begin_file env p (fb_file_num b) job st) = Inl (case res of Inl e \<Rightarrow> e)"
        "snd (begin_file env p (fb_file_num b) job st) = (job', st')"
    | j s where "file_index (fb_file_num b) < length (tj_files job)" "\<exists>j'. begin_file env p (fb_file_num b) job st = (Inr j, j', s)"
        "write_data env b j s = (res, job', st')"
    using w job by (auto simp: job_write_def split: if_splits sum.splits prod.splits)
  then show ?thesis
  proof cases
    case 1
    then show ?thesis using frame_refl [OF ok] by simp
  next
    case 2
    from write_data_frame [OF ok this] show ?thesis using frame_mono by blast
  next
    case 3
    obtain r where "begin_file env p (fb_file_num b) job st = (r, job', st')" using 3(3) by (cases "begin_file env p (fb_file_num b) job st") auto
    from begin_file_frame [OF ok job 3(1) this] show ?thesis using frame_mono by blast
  next
    case 4
    then obtain j' where b: "begin_file env p (fb_file_num b) job st = (Inr j, j', s)" by blast
    from begin_file_frame [OF ok job 4(1) b] obtain n where
      f: "frame (job_names job p) st s" "same_files j job" "tj_data_stream j = Some (FileStream WriteOnly n 0)"
        "\<And>x. st_names s x = Some n \<Longrightarrow> x \<in> job_names job p" by blast
    note g = write_data_frame [OF frame_ok [OF f(1)] 4(3)]
    have "writing_on j s \<subseteq> ?X" using f(3,4) by (auto simp: writing_on_def)
    then have "frame ?X s st'" using g frame_mono by blast
    moreover have "frame ?X st s" using f(1) frame_mono by blast
    ultimately have "frame ?X st st'" by (rule frame_trans [rotated])
    moreover have "same_files job' job" using g f(2) by (simp add: same_files_def)
    ultimately show ?thesis by simp
  qed
qed

lemma confirm_same_files: "confirm env r job st = Some job' \<Longrightarrow> same_files job' job"
  by (auto simp: confirm_def set_file_skipped_def set_file_confirmed_def set_file_is_waiting_def set_stream_offset_def Let_def
      split: if_splits option.splits confirm_union.splits data_source.splits)

section \<open>Where a job writes\<close>

definition checked_job :: "target_os \<Rightarrow> transfer_job \<Rightarrow> bool" where
  "checked_job os job \<longleftrightarrow> tj_type job = Generic \<and> (\<exists>p. tj_data_source job = FilePath p)
     \<and> validate_transfer_file_names os (map (\<lambda>e. (fe_name e, fe_modified_time e)) (tj_files job)) = Inr ()"

lemma checked_same: "same_files job' job \<Longrightarrow> checked_job os job \<Longrightarrow> checked_job os job'"
  by (simp add: checked_job_def same_files_def)

text \<open>
  Below the target of the job; a job for a single file without a name has its file, the partial download
  and the digest file at the target itself.
\<close>

definition below_target :: "transfer_job \<Rightarrow> string \<Rightarrow> string \<Rightarrow> bool" where
  "below_target job p x \<longleftrightarrow>
     (\<exists>ds. destination x = destination p @ ds) \<or> (map fe_name (tj_files job) = [[]] \<and> x \<in> names_of p)"

lemma checked_job_below:
  assumes c: "checked_job os job" and x: "x \<in> job_names job p"
  shows "below_target job p x"
proof -
  let ?fs = "map (\<lambda>e. (fe_name e, fe_modified_time e)) (tj_files job)"
  obtain k where k: "k < length (tj_files job)" "x \<in> names_of (target job p k)" using x by (auto simp: job_names_def)
  show ?thesis
  proof (cases "is_single_file_with_empty_name ?fs")
    case True
    then have "map fe_name (tj_files job) = [[]]"
      by (cases "tj_files job") (auto simp: is_single_file_with_empty_name_def)
    moreover from this have "target job p k = p" using k(1) by (cases "tj_files job") (auto simp: target_def job_join_def)
    ultimately show ?thesis using k(2) by (simp add: below_target_def)
  next
    case False
    then have v: "validate_names os ?fs = Inr ()" using c by (simp add: checked_job_def validate_transfer_file_names_def)
    let ?e = "tj_files job ! k"
    have "(fe_name ?e, fe_modified_time ?e) \<in> set ?fs" using k(1) by auto
    from validate_names_all [OF v this] have n: "fe_name ?e \<noteq> []" "validate_file_name_no_traversal os (fe_name ?e) = Inr ()" by blast+
    have "\<exists>t. x = path_join p (fe_name ?e) @ t \<and> t \<in> {[], ''.download'', ''.digest''}"
      using k(2) n(1) by (auto simp: names_of_def target_def job_join_def download_name_def digest_name_def)
    then obtain t where t: "x = path_join p (fe_name ?e) @ t" "t \<in> {[], ''.download'', ''.digest''}" by blast
    have "\<exists>ds. destination (path_join p (fe_name ?e) @ t) = destination p @ ds"
      by (rule validated_inside [OF n(2,1)]) (use t(2) in \<open>auto simp: is_slash_def\<close>)
    then show ?thesis by (simp add: below_target_def t(1))
  qed
qed

section \<open>Reachable states\<close>

text \<open>
  Requests and ticks in any order under any answers of the system, and changes of the files by others.
\<close>

inductive cm_reachable :: "target_os \<Rightarrow> cm_files \<Rightarrow> bool" for os where
  start: "cf_write_jobs s = [] \<Longrightarrow> st_ok (cf_store s) \<Longrightarrow> cm_reachable os s"
| request: "cm_reachable os s \<Longrightarrow> ce_os env = os \<Longrightarrow> handle_fs env a s = Some s' \<Longrightarrow> cm_reachable os s'"
| tick: "cm_reachable os s \<Longrightarrow> ce_os env = os \<Longrightarrow> cm_reachable os (cm_tick env conn_id s)"
| others: "cm_reachable os s \<Longrightarrow> st_ok st \<Longrightarrow> cm_reachable os (s\<lparr>cf_store := st\<rparr>)"

definition jobs_checked :: "target_os \<Rightarrow> cm_files \<Rightarrow> bool" where
  "jobs_checked os s \<longleftrightarrow> st_ok (cf_store s) \<and> (\<forall>job \<in> set (cf_write_jobs s). checked_job os job)"

text \<open>What a request may change.\<close>

definition of_job :: "i32 \<Rightarrow> cm_files \<Rightarrow> string \<Rightarrow> bool" where
  "of_job i s x \<longleftrightarrow> (\<exists>job \<in> set (cf_write_jobs s). tj_id job = i \<and>
     (\<exists>p. tj_data_source job = FilePath p \<and> (below_target job p x \<or> x \<in> writing_on job (cf_store s))))"

fun may_change :: "fs_request \<Rightarrow> cm_files \<Rightarrow> string \<Rightarrow> bool" where
  "may_change (RemoveFile path i n) s x = (x = path)"
| "may_change (Rename i path new_name) s x =
     (x = path \<or> (\<exists>dir ds. path_parent path = Some dir \<and> x = path_join dir new_name \<and> destination x = destination dir @ ds))"
| "may_change (RemoveDir path i recursive) s x = (recursive \<and> (\<exists>os name. name \<noteq> [] \<and> x = path_push os path name))"
| "may_change (WriteBlock i n v c) s x = of_job i s x"
| "may_change (WriteDone i n) s x = of_job i s x"
| "may_change (CancelWrite i) s x = of_job i s x"
| "may_change _ s x = False"

lemma remove_job_Some:
  "remove_job i jobs = (Some job, jobs') \<Longrightarrow> job \<in> set jobs \<and> tj_id job = i \<and> set jobs' \<subseteq> set jobs"
  by (induction jobs arbitrary: jobs') (auto split: if_splits prod.splits)

lemma get_job_Some: "get_job i jobs = Some job \<Longrightarrow> job \<in> set jobs \<and> tj_id job = i"
  by (auto simp: get_job_def find_Some_iff)

lemma put_job_set: "set (put_job job jobs) \<subseteq> insert job (set jobs)"
  by (induction jobs) auto

lemma checked_jobsD:
  assumes "jobs_checked os s" "job \<in> set (cf_write_jobs s)"
  obtains p where "tj_type job = Generic" "tj_data_source job = FilePath p" "checked_job os job"
  using assms by (auto simp: jobs_checked_def checked_job_def)

lemma of_jobI:
  assumes "checked_job os job" "job \<in> set (cf_write_jobs s)" "tj_data_source job = FilePath p"
    and "x \<in> job_names job p \<union> writing_on job (cf_store s)"
  shows "of_job (tj_id job) s x"
  using assms checked_job_below [OF assms(1)] unfolding of_job_def by blast

text \<open>A step that puts back one job with the same files and changes only the files of a frame.\<close>

definition safe_step :: "target_os \<Rightarrow> fs_request \<Rightarrow> cm_files \<Rightarrow> cm_files \<Rightarrow> bool" where
  "safe_step os a s s' \<longleftrightarrow> jobs_checked os s' \<and> (\<forall>x. st_file (cf_store s') x \<noteq> st_file (cf_store s) x \<longrightarrow> may_change a s x)"

lemma safe_stepI:
  assumes "jobs_checked os s" "set (cf_write_jobs s') \<subseteq> insert job' (set (cf_write_jobs s))"
    and "job' \<in> set (cf_write_jobs s) \<or> checked_job os job'"
    and "frame X (cf_store s) (cf_store s')" "\<And>x. x \<in> X \<Longrightarrow> may_change a s x"
  shows "safe_step os a s s'"
  using assms unfolding safe_step_def jobs_checked_def frame_def by blast

lemma safe_step_same:
  assumes "jobs_checked os s" "set (cf_write_jobs s') \<subseteq> set (cf_write_jobs s)" "cf_store s' = cf_store s"
  shows "safe_step os a s s'"
  using assms by (auto simp: safe_step_def jobs_checked_def)

lemma answer_sel [simp]:
  "cf_write_jobs (answer a s) = cf_write_jobs s" "cf_store (answer a s) = cf_store s"
  "cf_write_jobs (log_job env job d c e s) = cf_write_jobs s" "cf_store (log_job env job d c e s) = cf_store s"
  "cf_write_jobs (fold answer as s) = cf_write_jobs s" "cf_store (fold answer as s) = cf_store s"
  "cf_write_jobs (handle_result r i n s) = cf_write_jobs s" "cf_store (handle_result r i n s) = cf_store s"
proof -
  show "cf_write_jobs (fold answer as s) = cf_write_jobs s" "cf_store (fold answer as s) = cf_store s"
    by (induction as arbitrary: s) (simp_all add: answer_def)
qed (simp_all add: answer_def log_job_def handle_result_def split: sum.split)

section \<open>Each request\<close>

lemma reading_requests_keep [simp]:
  "cf_write_jobs (read_empty_dirs env d h s) = cf_write_jobs s" "cf_store (read_empty_dirs env d h s) = cf_store s"
  "cf_write_jobs (read_dir_request env d h s) = cf_write_jobs s" "cf_store (read_dir_request env d h s) = cf_store s"
  "cf_write_jobs (remove_dir_request env p i r s) = cf_write_jobs s"
  "cf_write_jobs (create_dir_request env p i s) = cf_write_jobs s" "cf_store (create_dir_request env p i s) = cf_store s"
  "cf_write_jobs (start_read_job env p n h i c b s) = cf_write_jobs s" "cf_store (start_read_job env p n h i c b s) = cf_store s"
  "cf_write_jobs (read_all_files env p h i c s) = cf_write_jobs s" "cf_store (read_all_files env p h i c s) = cf_store s"
  by (simp_all add: read_empty_dirs_def read_dir_request_def remove_dir_request_def create_dir_request_def
      start_read_job_def read_all_files_def Let_def split: sum.split prod.split option.split)

lemma remove_file_frame:
  "st_ok st \<Longrightarrow> remove_file env p st = (res, st') \<Longrightarrow> frame {p} st st'"
  by (auto simp: remove_file_def frame_remove frame_refl split: if_splits)

text \<open>A recursive removal takes only links below the directory.\<close>

lemma push_append: "path_push os p n @ r = path_push os p (n @ r)"
  by (simp add: path_push_def)

lemma push_extends: "\<exists>r. path_push os q m = q @ r"
  by (simp add: path_push_def)

lemma removed_links_below:
  "\<And>l. l \<in> set (removed_links os can path t) \<Longrightarrow> \<exists>n. n \<noteq> [] \<and> l = path_push os path n"
  "\<And>l. l \<in> set (removed_in_children os can path cs) \<Longrightarrow> \<exists>n. n \<noteq> [] \<and> l = path_push os path n"
proof (induction os can path t and os can path cs rule: removed_links_removed_in_children.induct)
  case (1 os can path h mt cs)
  then show ?case by (auto split: if_splits)
next
  case (4 os can path name t cs)
  show ?case
  proof (cases "l \<in> set (removed_in_children os can path cs)")
    case True
    then show ?thesis using "4.IH"(2) by blast
  next
    case False
    with "4.prems" obtain entry where e: "entry_of os True name t = Some entry"
      by (cases "entry_of os True name t") auto
    have n: "name \<noteq> []" using e by (simp add: entry_of_visible)
    show ?thesis
    proof (cases "l = path_push os path name")
      case True
      with n show ?thesis by blast
    next
      case own: False
      with "4.prems" False e have "fe_entry_type entry = Dir" "l \<in> set (removed_links os can (path_push os path name) t)"
        by (auto split: file_type.splits if_splits)
      with "4.IH"(1) e obtain m where "l = path_push os (path_push os path name) m" by fastforce
      moreover obtain r where "path_push os (path_push os path name) m = path_push os path name @ r"
        using push_extends by blast
      ultimately show ?thesis using n by (auto simp: push_append)
    qed
  qed
qed simp_all

lemma remove_dir_request_safe:
  assumes i: "jobs_checked os s"
  shows "safe_step os (RemoveDir p i' r) s (remove_dir_request env p i' r s)"
proof -
  have "may_change (RemoveDir p i' r) s x"
    if r: "r" and b: "below_any (ce_os env) (removed_links (ce_os env) (ce_can_remove env) p t) x" for x t
  proof -
    obtain l where l: "l \<in> set (removed_links (ce_os env) (ce_can_remove env) p t)" "take (length l) x = l"
      using b by (auto simp: below_any_def starts_with_def)
    obtain n where n: "n \<noteq> []" "l = path_push (ce_os env) p n" using removed_links_below(1) [OF l(1)] by blast
    have "x = l @ drop (length l) x" using append_take_drop_id [of "length l" x] l(2) by simp
    then have "x = path_push (ce_os env) p (n @ drop (length l) x)" by (simp only: n(2) push_append)
    then show ?thesis using r n(1) by auto
  qed
  then show ?thesis using i
    by (auto simp: remove_dir_request_def safe_step_def jobs_checked_def st_remove_links_props split: option.split if_splits)
qed

lemma rename_checked_frame:
  assumes ok: "st_ok st" and r: "rename_checked env path new_name st = (res, st')"
  shows "frame {x. x = path \<or> (\<exists>dir ds. path_parent path = Some dir \<and> x = path_join dir new_name
    \<and> destination x = destination dir @ ds)} st st'"
proof (cases "st' = st")
  case False
  then obtain dir where d: "new_name \<noteq> []" "validate_file_name_no_traversal (ce_os env) new_name = Inr ()"
      "path_parent path = Some dir" "st' = st_rename path (path_join dir new_name) st"
    using r by (auto simp: rename_checked_def rename_file_def Let_def split: if_splits sum.splits option.splits)
  from validated_inside [OF d(2,1), of "[]" dir] obtain ds where "destination (path_join dir new_name) = destination dir @ ds" by auto
  with d ok show ?thesis by (auto intro!: frame_rename)
qed (simp add: frame_refl ok)

lemma remove_file_request_safe:
  assumes i: "jobs_checked os s"
  shows "safe_step os (RemoveFile p i' n) s (remove_file_request env p i' n s)"
proof -
  obtain res st where r: "remove_file (ce_fs env) p (cf_store s) = (res, st)" by fastforce
  have "frame {p} (cf_store s) st" using i r by (intro remove_file_frame) (simp_all add: jobs_checked_def)
  with i show ?thesis by (auto simp: safe_step_def remove_file_request_def r jobs_checked_def frame_def)
qed

lemma rename_file_request_safe:
  assumes i: "jobs_checked os s"
  shows "safe_step os (Rename i' p new_name) s (rename_file_request env p new_name i' s)"
proof -
  obtain res st where r: "rename_checked env p new_name (cf_store s) = (res, st)" by fastforce
  have "st_ok (cf_store s)" using i by (simp add: jobs_checked_def)
  from rename_checked_frame [OF this r] i show ?thesis
    by (auto simp: safe_step_def rename_file_request_def r jobs_checked_def frame_def)
qed

lemma new_write_request_safe:
  assumes i: "jobs_checked os s" and os: "ce_os env = os"
  shows "safe_step os (NewWrite p i' n files d sz c) s (new_write_request env p i' n files d sz c s)"
proof (cases "validate_transfer_file_names os files")
  case (Inl e)
  then show ?thesis using i os by (intro safe_step_same) (simp_all add: new_write_request_def)
next
  case (Inr u)
  let ?es = "map (\<lambda>f. default_entry\<lparr>fe_name := fst f, fe_modified_time := snd f\<rparr>) files"
  let ?job = "(new_write i' Generic [] (FilePath p) n False False ?es d)\<lparr>tj_total_size := sz, tj_conn_id := c\<rparr>"
  have "map (\<lambda>e. (fe_name e, fe_modified_time e)) ?es = files" by (simp add: comp_def)
  then have "checked_job os ?job" using Inr by (simp add: checked_job_def new_write_def default_job_def comp_def)
  moreover have "new_write_request env p i' n files d sz c s = s\<lparr>cf_write_jobs := cf_write_jobs s @ [?job]\<rparr>"
    using Inr os by (simp add: new_write_request_def Let_def)
  ultimately show ?thesis using i by (simp add: safe_step_def jobs_checked_def)
qed

lemma write_block_safe:
  assumes i: "jobs_checked os s" and h: "handle_fs env (WriteBlock i' n v c) s = Some s'"
  shows "safe_step os (WriteBlock i' n v c) s s'"
proof (cases "get_job i' (cf_write_jobs s)")
  case None
  then show ?thesis using h i by (intro safe_step_same) auto
next
  case (Some job)
  have job: "job \<in> set (cf_write_jobs s)" "tj_id job = i'" using get_job_Some [OF Some] by auto
  obtain p where p: "tj_type job = Generic" "tj_data_source job = FilePath p" "checked_job os job"
    by (rule checked_jobsD [OF i job(1)])
  obtain res job' st where w: "job_write (ce_fs env) \<lparr>fb_id = i', fb_file_num = n, fb_data = v, fb_compressed = c\<rparr> job (cf_store s) = (res, job', st)"
    by (metis prod.exhaust)
  have ok: "st_ok (cf_store s)" using i by (simp add: jobs_checked_def)
  note f = job_write_frame [OF ok p(1,2) w]
  have s': "cf_write_jobs s' = put_job job' (cf_write_jobs s)" "cf_store s' = st"
    using h Some w by (auto simp: Let_def split: sum.splits)
  show ?thesis
  proof (rule safe_stepI [OF i _ _ _ ])
    show "set (cf_write_jobs s') \<subseteq> insert job' (set (cf_write_jobs s))" by (simp add: s' put_job_set)
    show "job' \<in> set (cf_write_jobs s) \<or> checked_job os job'" using checked_same f p(3) by blast
    show "frame (job_names job p \<union> writing_on job (cf_store s)) (cf_store s) (cf_store s')" using f by (simp add: s')
    show "may_change (WriteBlock i' n v c) s x" if "x \<in> job_names job p \<union> writing_on job (cf_store s)" for x
      using of_jobI [OF p(3) job(1) p(2) that] job(2) by simp
  qed
qed

lemma leaving_safe:
  assumes i: "jobs_checked os s" and a: "a = CancelWrite i' \<or> a = WriteDone i' n" and h: "handle_fs env a s = Some s'"
  shows "safe_step os a s s'"
proof -
  obtain j jobs where rm: "remove_job i' (cf_write_jobs s) = (j, jobs)" by fastforce
  show ?thesis
  proof (cases j)
    case None
    then show ?thesis using h a rm i by (intro safe_step_same) auto
  next
    case (Some job)
    have job: "job \<in> set (cf_write_jobs s)" "tj_id job = i'" "set jobs \<subseteq> set (cf_write_jobs s)"
      using remove_job_Some [OF rm [unfolded Some]] by auto
    obtain p where p: "tj_type job = Generic" "tj_data_source job = FilePath p" "checked_job os job"
      by (rule checked_jobsD [OF i job(1)])
    have ok: "st_ok (cf_store s)" using i by (simp add: jobs_checked_def)
    have s': "cf_write_jobs s' = jobs" "frame (job_names job p) (cf_store s) (cf_store s')"
      using h a rm Some modify_time_frame [OF ok p(2)] remove_download_file_frame [OF ok p(2)] by auto
    show ?thesis
    proof (rule safe_stepI [OF i _ _ s'(2)])
      show "set (cf_write_jobs s') \<subseteq> insert job (set (cf_write_jobs s))" using job(3) by (auto simp: s')
      show "job \<in> set (cf_write_jobs s) \<or> checked_job os job" using job(1) by simp
      show "may_change a s x" if "x \<in> job_names job p" for x
        using of_jobI [OF p(3) job(1) p(2), of x] that job(2) a by auto
    qed
  qed
qed

text \<open>Requests that put a job back and leave the files alone.\<close>

lemma put_job_safe:
  assumes i: "jobs_checked os s" and g: "get_job i' (cf_write_jobs s) = Some job" and f: "same_files job' job"
    and s': "cf_write_jobs s' = put_job job' (cf_write_jobs s)" "cf_store s' = cf_store s"
  shows "safe_step os a s s'"
proof (rule safe_stepI [OF i])
  have ok: "st_ok (cf_store s)" using i by (simp add: jobs_checked_def)
  show "frame {} (cf_store s) (cf_store s')" using ok s'(2) by (simp add: frame_refl)
  show "set (cf_write_jobs s') \<subseteq> insert job' (set (cf_write_jobs s))" by (simp add: s' put_job_set)
  show "job' \<in> set (cf_write_jobs s) \<or> checked_job os job'"
    using i get_job_Some [OF g] checked_same [OF f] by (auto simp: jobs_checked_def)
qed simp

lemma check_digest_same: "check_digest env d u r job st = (as, job') \<Longrightarrow> same_files job' job"
  by (auto simp: check_digest_def set_digest_def Let_def split: if_splits data_source.splits sum.splits)

lemma request_safe:
  assumes i: "jobs_checked os s" and os: "ce_os env = os" and h: "handle_fs env a s = Some s'"
  shows "safe_step os a s s'"
proof (cases a)
  case (RemoveFile p i' n)
  then show ?thesis using h remove_file_request_safe [OF i] by auto
next
  case (RemoveDir p i' r)
  then show ?thesis using h remove_dir_request_safe [OF i] by auto
next
  case (Rename i' p new_name)
  then show ?thesis using h rename_file_request_safe [OF i] by auto
next
  case (NewWrite p i' n files d sz c)
  then show ?thesis using h new_write_request_safe [OF i os] by auto
next
  case (WriteBlock i' n v c)
  show ?thesis unfolding WriteBlock by (rule write_block_safe [OF i h [unfolded WriteBlock]])
next
  case (CancelWrite i')
  then show ?thesis using leaving_safe [OF i _ h] by blast
next
  case (WriteDone i' n)
  then show ?thesis using leaving_safe [OF i _ h] by blast
next
  case (WriteError i' n e)
  obtain j jobs where rm: "remove_job i' (cf_write_jobs s) = (j, jobs)" by fastforce
  show ?thesis
    by (rule safe_step_same [OF i]) (use h WriteError rm remove_job_Some [of i' "cf_write_jobs s"] in \<open>auto split: option.splits\<close>)
next
  case (CheckDigest i' n sz mt u r)
  show ?thesis
  proof (cases "get_job i' (cf_write_jobs s)")
    case None
    then show ?thesis using h CheckDigest by (intro safe_step_same [OF i]) auto
  next
    case (Some job)
    obtain as job' where c: "check_digest (ce_fs env) \<lparr>ft_id = i', ft_file_num = n, ft_last_modified = mt, ft_file_size = sz,
        ft_is_upload = False, ft_is_identical = False, ft_transferred_size = 0, ft_is_resume = False\<rparr> u r job (cf_store s) = (as, job')"
      by fastforce
    from put_job_safe [OF i Some check_digest_same [OF c]] show ?thesis using h CheckDigest Some c by auto
  qed
next
  case (SendConfirm r)
  show ?thesis
  proof (cases r)
    case None
    then show ?thesis using h SendConfirm by (intro safe_step_same [OF i]) auto
  next
    case r: (Some q)
    show ?thesis
    proof (cases "get_job (sc_id q) (cf_write_jobs s)")
      case None
      then show ?thesis using h SendConfirm r by (intro safe_step_same [OF i]) auto
    next
      case (Some job)
      then obtain job' where c: "confirm (ce_fs env) q job (cf_store s) = Some job'"
          and s': "s' = s\<lparr>cf_write_jobs := put_job job' (cf_write_jobs s)\<rparr>"
        using h SendConfirm r by auto
      from put_job_safe [OF i Some confirm_same_files [OF c]] show ?thesis using s' by auto
    qed
  qed
qed (use h i in \<open>auto intro!: safe_step_same split: option.splits prod.splits\<close>)

lemma cm_reachable_checked: "cm_reachable os s \<Longrightarrow> jobs_checked os s"
proof (induction rule: cm_reachable.induct)
  case (request s env a s')
  then show ?case using request_safe by (simp add: safe_step_def)
next
  case (tick s env conn_id)
  then show ?case by (simp add: jobs_checked_def cm_tick_def split: prod.split)
qed (simp_all add: jobs_checked_def)

section \<open>Properties\<close>


definition cm_demo_env :: cm_env where
  "cm_demo_env = \<lparr>ce_fs = calm_env, ce_os = Linux, ce_drives = 0, ce_home = ''/home/u'', ce_tree = (\<lambda>_. None),
     ce_can_remove = (\<lambda>_. True), ce_dir = (\<lambda>_. Inr ()), ce_max_files_option = [], ce_has_log = True\<rparr>"

definition cm_demo :: cm_files where
  "cm_demo = \<lparr>cf_write_jobs = [], cf_read_jobs = [], cf_store = empty_store, cf_max_files = None, cf_answers = [], cf_log = []\<rparr>"


end
