(* ===== verification/Connection_Files.thy ===== *)
theory Connection_Files
  imports Cm_Safety
begin

text \<open>
  The file side of a connection on the controlled machine (\<open>src/server/connection.rs\<close>): the file
  actions and answers of the peer, reading in the connection itself or through the connection manager,
  what is forwarded to the peer, printing, and the log of removals. What goes to the peer and to the
  connection manager is listed in order. JSON texts of logs and audits stay structured; timers, sending
  errors and the alarm after a transfer are not modelled.
\<close>

section \<open>The log of removals\<close>

record removed_file =
  rf_id :: i32
  rf_path :: string
  rf_file_num :: i32

record removed_dir =
  rd_id :: i32
  rd_path :: string
  rd_recursive :: bool

datatype file_log =
    ActionLog string i32 i32 string bool
  | RenameLog i32 string string
  | JobLog transfer_job bool bool string
  | JobsLog "transfer_job list"

record remove_log =
  rl_conn_id :: i32
  rl_instant :: nat
  rl_removed_files :: "removed_file list"
  rl_removed_dirs :: "removed_dir list"

definition remove_log_new :: "nat \<Rightarrow> i32 \<Rightarrow> remove_log" where
  "remove_log_new now conn_id = \<lparr>rl_conn_id = conn_id, rl_instant = now, rl_removed_files = [], rl_removed_dirs = []\<rparr>"

definition on_remove_file :: "nat \<Rightarrow> removed_file \<Rightarrow> remove_log \<Rightarrow> remove_log \<times> file_log" where
  "on_remove_file now f l =
     (l\<lparr>rl_instant := now, rl_removed_files := rl_removed_files l @ [f]\<rparr>,
      ActionLog ''remove'' (rf_id f) (rl_conn_id l) (rf_path f) False)"

text \<open>Paths are compared component by component.\<close>

definition same_path :: "string \<Rightarrow> string \<Rightarrow> bool" where
  "same_path p q \<longleftrightarrow> is_absolute p = is_absolute q \<and> path_components p = path_components q"

definition direct_child :: "string \<Rightarrow> string \<Rightarrow> bool" where
  "direct_child parent child \<longleftrightarrow> (case path_parent child of None \<Rightarrow> False | Some p \<Rightarrow> same_path p parent)"

definition on_remove_dir :: "nat \<Rightarrow> removed_dir \<Rightarrow> remove_log \<Rightarrow> remove_log \<times> file_log" where
  "on_remove_dir now d l =
     (let files = filter (\<lambda>f. \<not> direct_child (rf_path f) (rd_path d)) (rl_removed_files l);
          dirs = filter (\<lambda>x. \<not> direct_child (rd_path d) (rd_path x)) (rl_removed_dirs l);
          dirs = (if \<not> list_ex (\<lambda>x. direct_child (rd_path x) (rd_path d)) dirs then dirs @ [d] else dirs)
      in (l\<lparr>rl_instant := now, rl_removed_files := files, rl_removed_dirs := dirs\<rparr>,
          ActionLog ''remove'' (rd_id d) (rl_conn_id l) (rd_path d) True))"

text \<open>Times are milliseconds.\<close>

definition on_timer :: "nat \<Rightarrow> remove_log \<Rightarrow> remove_log \<times> file_log list" where
  "on_timer now l =
     (if (now - rl_instant l) div 1000 < 1 then (l, [])
      else (l\<lparr>rl_removed_files := [], rl_removed_dirs := []\<rparr>,
            map (\<lambda>f. ActionLog ''remove'' (rf_id f) (rl_conn_id l) (rf_path f) False) (rl_removed_files l) @
            map (\<lambda>d. ActionLog ''remove'' (rd_id d) (rl_conn_id l) (rd_path d) True) (rl_removed_dirs l)))"

section \<open>The connection\<close>

datatype file_action =
    FaReadEmptyDirs string bool
  | FaReadDir string bool
  | FaAllFiles string i32 bool
  | FaSend i32 string bool i32 job_type
  | FaReceive i32 string "file_entry list" i32 u64
  | FaRemoveDir removed_dir
  | FaRemoveFile removed_file
  | FaCreate i32 string
  | FaCancel i32
  | FaSendConfirm send_confirm_request
  | FaRename i32 string string

datatype file_response =
    FrBlock file_transfer_block
  | FrDone i32 i32
  | FrDigest file_transfer_digest
  | FrError i32 string i32
  | FrOther

datatype cm_message = CmFs fs_request | CmLog file_log

datatype file_audit_type = RemoteSend | RemoteReceive

record conn_files =
  nf_id :: i32
  nf_version :: string
  nf_file_transfer :: "(string \<times> bool) option"
  nf_file :: bool
  nf_delayed_read_dir :: "(string \<times> bool) option"
  nf_read_jobs :: "transfer_job list"
  nf_cm_read_job_ids :: "i32 set"
  nf_printer_data :: "(nat \<times> string \<times> bytes) list"
  nf_file_transferred :: bool
  nf_remove_log :: remove_log
  nf_max_files :: "usize option"
  nf_sent :: "file_message list"
  nf_to_cm :: "cm_message list"
  nf_audits :: "(file_audit_type \<times> string \<times> (string \<times> u64) list) list"

text \<open>The environment: files, directories, options, and whether the reading is left to the manager.\<close>

record conn_env =
  ne_fs :: transfer_env
  ne_os :: target_os
  ne_now :: nat
  ne_tree :: "string \<Rightarrow> fs_tree option"
  ne_store :: file_store
  ne_one_way :: string
  ne_need_cm :: bool
  ne_max_files_option :: string
  ne_audit_url :: string

definition to_peer :: "file_message \<Rightarrow> conn_files \<Rightarrow> conn_files" where
  "to_peer m c = c\<lparr>nf_sent := nf_sent c @ [m]\<rparr>"

definition send_to_cm :: "cm_message \<Rightarrow> conn_files \<Rightarrow> conn_files" where
  "send_to_cm m c = c\<lparr>nf_to_cm := nf_to_cm c @ [m]\<rparr>"

definition send_fs :: "fs_request \<Rightarrow> conn_files \<Rightarrow> conn_files" where
  "send_fs r c = send_to_cm (CmFs r) c"

definition get_files_for_audit :: "job_type \<Rightarrow> file_entry list \<Rightarrow> (string \<times> u64) list" where
  "get_files_for_audit jt files = map (\<lambda>f. (if jt = Printer then ''Remote print'' else fe_name f, fe_size f)) files"

text \<open>The ten largest files are reported; the sort is stable.\<close>

definition post_file_audit ::
  "conn_env \<Rightarrow> file_audit_type \<Rightarrow> string \<Rightarrow> (string \<times> u64) list \<Rightarrow> conn_files \<Rightarrow> conn_files" where
  "post_file_audit env typ path files c =
     (if ne_audit_url env = [] then c
      else c\<lparr>nf_audits := nf_audits c @ [(typ, path, take 10 (sort_key (\<lambda>f. - sint (snd f)) files))]\<rparr>)"

section \<open>Reading in the connection\<close>

definition process_new_read_job :: "conn_env \<Rightarrow> transfer_job \<Rightarrow> string \<Rightarrow> conn_files \<Rightarrow> conn_files" where
  "process_new_read_job env job path c =
     (let files = tj_files job;
          c = to_peer (MsgDir (tj_id job) path files) c;
          c = c\<lparr>nf_read_jobs := nf_read_jobs c @ [job\<lparr>tj_is_remote := True, tj_conn_id := nf_id c\<rparr>]\<rparr>
      in post_file_audit env RemoteSend (if tj_type job = Printer then ''Remote print'' else path)
           (get_files_for_audit (tj_type job) files) c)"

definition create_and_start_read_job ::
  "conn_env \<Rightarrow> i32 \<Rightarrow> job_type \<Rightarrow> data_source \<Rightarrow> i32 \<Rightarrow> bool \<Rightarrow> bool \<Rightarrow> string \<Rightarrow> bool \<Rightarrow> conn_files \<Rightarrow> conn_files" where
  "create_and_start_read_job env i jt source file_num include_hidden overwrite_detection path check_file_limit c =
     (case new_read (ne_os env) (ne_tree env path) i jt [] source file_num include_hidden False overwrite_detection of
        Inl err \<Rightarrow> to_peer (MsgError i err 0) c
      | Inr job \<Rightarrow>
          if check_file_limit
          then (case check_file_count_limit (ne_max_files_option env) (length (tj_files job)) (nf_max_files c) of
                  (Inl msg, cell) \<Rightarrow> to_peer (MsgError i msg (- 1)) (c\<lparr>nf_max_files := cell\<rparr>)
                | (Inr _, cell) \<Rightarrow> process_new_read_job env job path (c\<lparr>nf_max_files := cell\<rparr>))
          else process_new_read_job env job path c)"

text \<open>The file timer.\<close>

definition file_tick :: "conn_env \<Rightarrow> conn_files \<Rightarrow> conn_files" where
  "file_tick env c =
     (if nf_read_jobs c = [] then c
      else let c = send_to_cm (CmLog (JobsLog (nf_read_jobs c))) c;
               (jobs, ms, log) = handle_read_jobs (ne_fs env) (nf_read_jobs c) (ne_store env);
               c = c\<lparr>nf_read_jobs := jobs, nf_sent := nf_sent c @ ms\<rparr>
           in case log of
                Some (job, fin, err) \<Rightarrow> send_to_cm (CmLog (JobLog job fin False err)) c
              | None \<Rightarrow> c)"

section \<open>File actions of the peer\<close>

definition all_files_action :: "conn_env \<Rightarrow> string \<Rightarrow> i32 \<Rightarrow> bool \<Rightarrow> conn_files \<Rightarrow> conn_files" where
  "all_files_action env path i include_hidden c =
     (if ne_need_cm env then send_fs (ReadAllFiles path i include_hidden (nf_id c)) c
      else case get_recursive_files (ne_os env) path (ne_tree env path) include_hidden of
             Inl err \<Rightarrow> to_peer (MsgError i err (- 1)) c
           | Inr files \<Rightarrow>
               (case check_file_count_limit (ne_max_files_option env) (length files) (nf_max_files c) of
                  (Inl msg, cell) \<Rightarrow> to_peer (MsgError i msg (- 1)) (c\<lparr>nf_max_files := cell\<rparr>)
                | (Inr _, cell) \<Rightarrow> to_peer (MsgDir i path files) (c\<lparr>nf_max_files := cell\<rparr>)))"

text \<open>The first print job under a path is taken out.\<close>

fun take_printer_data ::
  "string \<Rightarrow> (nat \<times> string \<times> bytes) list \<Rightarrow> (bytes \<times> (nat \<times> string \<times> bytes) list) option" where
  "take_printer_data path [] = None"
| "take_printer_data path ((t, p, v) # ds) =
     (if p = path then Some (v, ds)
      else map_option (\<lambda>(w, ds). (w, (t, p, v) # ds)) (take_printer_data path ds))"

definition send_action :: "conn_env \<Rightarrow> i32 \<Rightarrow> string \<Rightarrow> bool \<Rightarrow> i32 \<Rightarrow> job_type \<Rightarrow> conn_files \<Rightarrow> conn_files" where
  "send_action env i path include_hidden file_num jt c =
     (let od = can_enable_overwrite_detection (get_version_number (nf_version c)) in
      case jt of
        Generic \<Rightarrow>
          (if ne_need_cm env
           then let c = c\<lparr>nf_cm_read_job_ids := insert i (nf_cm_read_job_ids c)\<rparr>;
                    c = send_fs (ReadFile path i file_num include_hidden (nf_id c) od) c
                in c\<lparr>nf_file_transferred := True\<rparr>
           else (create_and_start_read_job env i jt (FilePath path) file_num include_hidden od path True c)\<lparr>nf_file_transferred := True\<rparr>)
      | Printer \<Rightarrow>
          (case take_printer_data path (nf_printer_data c) of
             None \<Rightarrow> c
           | Some (v, ds) \<Rightarrow>
               (create_and_start_read_job env i jt (MemoryCursor v) file_num include_hidden True path False
                  (c\<lparr>nf_printer_data := ds\<rparr>))\<lparr>nf_file_transferred := True\<rparr>))"

definition receive_action ::
  "conn_env \<Rightarrow> i32 \<Rightarrow> string \<Rightarrow> file_entry list \<Rightarrow> i32 \<Rightarrow> u64 \<Rightarrow> conn_files \<Rightarrow> conn_files" where
  "receive_action env i path files file_num total_sz c =
     (let od = can_enable_overwrite_detection (get_version_number (nf_version c));
          c = send_fs (NewWrite path i file_num (map (\<lambda>f. (fe_name f, fe_modified_time f)) files) od total_sz (nf_id c)) c;
          c = post_file_audit env RemoteReceive path (get_files_for_audit Generic files) c
      in c\<lparr>nf_file_transferred := True\<rparr>)"

definition cancel_action :: "i32 \<Rightarrow> conn_files \<Rightarrow> conn_files" where
  "cancel_action i c =
     (let c = send_fs (CancelWrite i) c;
          c = c\<lparr>nf_cm_read_job_ids := nf_cm_read_job_ids c - {i}\<rparr>;
          c = send_fs (CancelRead i (nf_id c)) c
      in case remove_job i (nf_read_jobs c) of
           (Some job, jobs) \<Rightarrow> send_to_cm (CmLog (JobLog job False True [])) (c\<lparr>nf_read_jobs := jobs\<rparr>)
         | (None, _) \<Rightarrow> c)"

text \<open>\<open>None\<close> is the panic of confirming.\<close>

definition send_confirm_action :: "conn_env \<Rightarrow> send_confirm_request \<Rightarrow> conn_files \<Rightarrow> conn_files option" where
  "send_confirm_action env r c =
     (case get_job (sc_id r) (nf_read_jobs c) of
        Some job \<Rightarrow>
          map_option (\<lambda>job. c\<lparr>nf_read_jobs := put_job job (nf_read_jobs c)\<rparr>) (confirm (ne_fs env) r job (ne_store env))
      | None \<Rightarrow>
          if sc_id r \<in> nf_cm_read_job_ids c
          then Some (send_fs (SendConfirmForRead (sc_id r) (sc_file_num r)
                 (case sc_union r of Some (Skip b) \<Rightarrow> b | _ \<Rightarrow> False)
                 (case sc_union r of Some (OffsetBlk off) \<Rightarrow> off | _ \<Rightarrow> 0) (nf_id c)) c)
          else Some (send_fs (SendConfirm (Some r)) c))"

fun do_action :: "conn_env \<Rightarrow> file_action \<Rightarrow> conn_files \<Rightarrow> conn_files option" where
  "do_action env (FaReadEmptyDirs path include_hidden) c = Some (send_fs (ReadEmptyDirs path include_hidden) c)"
| "do_action env (FaReadDir path include_hidden) c = Some (send_fs (ReadDir path include_hidden) c)"
| "do_action env (FaAllFiles path i include_hidden) c = Some (all_files_action env path i include_hidden c)"
| "do_action env (FaSend i path include_hidden file_num jt) c = Some (send_action env i path include_hidden file_num jt c)"
| "do_action env (FaReceive i path files file_num total_sz) c = Some (receive_action env i path files file_num total_sz c)"
| "do_action env (FaRemoveDir d) c =
     Some (let c = send_fs (RemoveDir (rd_path d) (rd_id d) (rd_recursive d)) c
           in c\<lparr>nf_remove_log := fst (on_remove_dir (ne_now env) d (nf_remove_log c))\<rparr>)"
| "do_action env (FaRemoveFile f) c =
     Some (let c = send_fs (RemoveFile (rf_path f) (rf_id f) (rf_file_num f)) c
           in c\<lparr>nf_remove_log := fst (on_remove_file (ne_now env) f (nf_remove_log c))\<rparr>)"
| "do_action env (FaCreate i path) c =
     Some (send_to_cm (CmLog (ActionLog ''create_dir'' i (nf_id c) path True)) (send_fs (CreateDir path i) c))"
| "do_action env (FaCancel i) c = Some (cancel_action i c)"
| "do_action env (FaSendConfirm r) c = send_confirm_action env r c"
| "do_action env (FaRename i path new_name) c =
     Some (send_to_cm (CmLog (RenameLog (nf_id c) path new_name)) (send_fs (Rename i path new_name) c))"

text \<open>The id under which a one-way machine refuses an action.\<close>

fun one_way_job_id :: "file_action \<Rightarrow> i32 option" where
  "one_way_job_id (FaSend i _ _ _ _) = Some i"
| "one_way_job_id (FaRemoveFile f) = Some (rf_id f)"
| "one_way_job_id (FaRename i _ _) = Some i"
| "one_way_job_id (FaCreate i _) = Some i"
| "one_way_job_id (FaRemoveDir d) = Some (rd_id d)"
| "one_way_job_id _ = None"

definition handles_action :: "conn_files \<Rightarrow> file_action \<Rightarrow> bool" where
  "handles_action c a \<longleftrightarrow> nf_file_transfer c \<noteq> None \<or> nf_file c \<or>
     (case a of FaSend _ _ _ _ jt \<Rightarrow> jt = Printer | _ \<Rightarrow> False)"

definition on_file_action :: "conn_env \<Rightarrow> file_action \<Rightarrow> conn_files \<Rightarrow> conn_files option" where
  "on_file_action env a c =
     (if \<not> handles_action c a then Some c
      else if nf_delayed_read_dir c \<noteq> None
      then Some (case a of FaReadDir path include_hidden \<Rightarrow> c\<lparr>nf_delayed_read_dir := Some (path, include_hidden)\<rparr> | _ \<Rightarrow> c)
      else if ne_one_way env = ''Y'' \<and> one_way_job_id a \<noteq> None
      then Some (to_peer (MsgError (the (one_way_job_id a)) ''one-way-file-transfer-tip'' 0) c)
      else do_action env a c)"

fun on_file_response :: "file_response \<Rightarrow> conn_files \<Rightarrow> conn_files" where
  "on_file_response (FrBlock b) c = send_fs (WriteBlock (fb_id b) (fb_file_num b) (fb_data b) (fb_compressed b)) c"
| "on_file_response (FrDone i file_num) c = send_fs (WriteDone i file_num) c"
| "on_file_response (FrDigest d) c =
     send_fs (CheckDigest (ft_id d) (ft_file_num d) (ft_file_size d) (ft_last_modified d) True (ft_is_resume d)) c"
| "on_file_response (FrError i e file_num) c = send_fs (WriteError i file_num e) c"
| "on_file_response FrOther c = c"

section \<open>Answers of the connection manager\<close>

definition handle_read_job_init_result ::
  "conn_env \<Rightarrow> i32 \<Rightarrow> string + (i32 \<times> string \<times> file_entry list) \<Rightarrow> conn_files \<Rightarrow> conn_files" where
  "handle_read_job_init_result env i result c =
     (if i \<notin> nf_cm_read_job_ids c then c
      else case result of
        Inl error \<Rightarrow> to_peer (MsgError i error 0) (c\<lparr>nf_cm_read_job_ids := nf_cm_read_job_ids c - {i}\<rparr>)
      | Inr (_, path, files) \<Rightarrow>
          (let c = to_peer (MsgDir i path files) c;
               c = post_file_audit env RemoteSend path (get_files_for_audit Generic files) c
           in c\<lparr>nf_file_transferred := True\<rparr>))"

definition handle_file_block_from_cm :: "i32 \<Rightarrow> i32 \<Rightarrow> bytes \<Rightarrow> bool \<Rightarrow> conn_files \<Rightarrow> conn_files" where
  "handle_file_block_from_cm i file_num v compressed c =
     (if i \<notin> nf_cm_read_job_ids c then c
      else to_peer (MsgBlock \<lparr>fb_id = i, fb_file_num = file_num, fb_data = v, fb_compressed = compressed\<rparr>) c)"

definition handle_file_read_done :: "i32 \<Rightarrow> i32 \<Rightarrow> conn_files \<Rightarrow> conn_files" where
  "handle_file_read_done i file_num c =
     (if i \<notin> nf_cm_read_job_ids c then c
      else to_peer (MsgDone i file_num) (c\<lparr>nf_cm_read_job_ids := nf_cm_read_job_ids c - {i}\<rparr>))"

definition handle_file_read_error :: "i32 \<Rightarrow> i32 \<Rightarrow> string \<Rightarrow> conn_files \<Rightarrow> conn_files" where
  "handle_file_read_error i file_num err c =
     (if i \<notin> nf_cm_read_job_ids c then c
      else to_peer (MsgError i err file_num) (c\<lparr>nf_cm_read_job_ids := nf_cm_read_job_ids c - {i}\<rparr>))"

definition handle_file_digest_from_cm :: "i32 \<Rightarrow> i32 \<Rightarrow> u64 \<Rightarrow> u64 \<Rightarrow> bool \<Rightarrow> conn_files \<Rightarrow> conn_files" where
  "handle_file_digest_from_cm i file_num last_modified file_size is_resume c =
     (if i \<notin> nf_cm_read_job_ids c then c
      else to_peer (MsgDigest \<lparr>ft_id = i, ft_file_num = file_num, ft_last_modified = last_modified,
             ft_file_size = file_size, ft_is_upload = False, ft_is_identical = False, ft_transferred_size = 0,
             ft_is_resume = is_resume\<rparr>) c)"

definition handle_all_files_result :: "i32 \<Rightarrow> string + (i32 \<times> string \<times> file_entry list) \<Rightarrow> conn_files \<Rightarrow> conn_files" where
  "handle_all_files_result i result c =
     (case result of
        Inl err \<Rightarrow> to_peer (MsgError i err (- 1)) c
      | Inr (j, path, files) \<Rightarrow> to_peer (MsgDir j path files) c)"

text \<open>Raw messages of the manager are passed on as they are.\<close>

fun on_cm_answer :: "conn_env \<Rightarrow> cm_answer \<Rightarrow> conn_files \<Rightarrow> conn_files" where
  "on_cm_answer env (ReadJobInitResult i file_num include_hidden conn_id result) c =
     (if conn_id = nf_id c then handle_read_job_init_result env i result c else c)"
| "on_cm_answer env (FileBlockFromCM i file_num v compressed conn_id) c =
     (if conn_id = nf_id c then handle_file_block_from_cm i file_num v compressed c else c)"
| "on_cm_answer env (FileReadDone i file_num conn_id) c =
     (if conn_id = nf_id c then handle_file_read_done i file_num c else c)"
| "on_cm_answer env (FileReadError i file_num err conn_id) c =
     (if conn_id = nf_id c then handle_file_read_error i file_num err c else c)"
| "on_cm_answer env (FileDigestFromCM i file_num last_modified file_size is_resume conn_id) c =
     (if conn_id = nf_id c then handle_file_digest_from_cm i file_num last_modified file_size is_resume c else c)"
| "on_cm_answer env (AllFilesResult i conn_id path result) c =
     (if conn_id = nf_id c then handle_all_files_result i result c else c)"
| "on_cm_answer env (Raw m) c = to_peer m c"

section \<open>Printing\<close>

definition send_printer_request :: "nat \<Rightarrow> string \<Rightarrow> bytes \<Rightarrow> conn_files \<Rightarrow> conn_files" where
  "send_printer_request now path v c =
     c\<lparr>nf_printer_data := filter (\<lambda>(t, _, _). (now - t) div 1000 < 60) (nf_printer_data c) @ [(now, path, v)]\<rparr>"

end
