(* ===== verification/Connection_Transfers.thy ===== *)
theory Connection_Transfers
  imports Connection_Files
begin

text \<open>
  What a peer sees of file transfers: reading through the connection manager sends the same messages as
  reading in the connection as long as there is no error, nothing more comes of a transfer after it was
  cancelled, and a machine that only lets files in sends none.
\<close>

section \<open>Jobs keep their id\<close>

definition same_identity :: "transfer_job \<Rightarrow> transfer_job \<Rightarrow> bool" where
  "same_identity job' job \<longleftrightarrow> tj_id job' = tj_id job \<and> tj_is_last_job job' = tj_is_last_job job"

lemma same_identity_refl [simp]: "same_identity job job"
  by (simp add: same_identity_def)

lemma same_identity_trans: "same_identity a b \<Longrightarrow> same_identity b c \<Longrightarrow> same_identity a c"
  by (simp add: same_identity_def)

lemma open_data_stream_identity: "open_data_stream env job st = (r, job') \<Longrightarrow> same_identity job' job"
  by (auto simp: open_data_stream_def same_identity_def Let_def split: data_source.splits if_splits option.splits)

lemma init_data_stream_identity: "init_data_stream env job st = (r, job') \<Longrightarrow> same_identity job' job"
  by (auto simp: init_data_stream_def set_file_is_waiting_def same_identity_def
      split: prod.splits sum.splits bool.splits if_splits dest: open_data_stream_identity)

lemma read_block_identity: "read_block env name job st = (r, job') \<Longrightarrow> same_identity job' job"
  by (auto simp: read_block_def next_file_def same_identity_def Let_def
      split: option.splits data_stream.splits open_mode.splits if_splits prod.splits)

lemma job_read_identity: "job_read env job st = (r, job') \<Longrightarrow> same_identity job' job"
  by (auto simp: job_read_def same_identity_def Let_def
      split: data_source.splits if_splits dest: read_block_identity)

lemma read_block_id: "read_block env name job st = (Inr (Some b), job') \<Longrightarrow> fb_id b = tj_id job"
  by (auto simp: read_block_def Let_def split: option.splits data_stream.splits open_mode.splits if_splits prod.splits)

lemma job_read_id: "job_read env job st = (Inr (Some b), job') \<Longrightarrow> fb_id b = tj_id job"
  by (auto simp: job_read_def Let_def split: data_source.splits if_splits dest: read_block_id)

section \<open>Reading through the connection manager\<close>

text \<open>The two ways to open the stream of a job are the same up to the form of the digest.\<close>

definition same_digest :: "i32 \<Rightarrow> i32 \<Rightarrow> cm_answer list \<Rightarrow> file_message list \<Rightarrow> bool" where
  "same_digest conn_id i as ms \<longleftrightarrow>
     as = [] \<and> ms = [] \<or>
     (\<exists>n mt sz r. as = [FileDigestFromCM i n mt sz r conn_id]
        \<and> ms = [MsgDigest \<lparr>ft_id = i, ft_file_num = n, ft_last_modified = mt, ft_file_size = sz,
                ft_is_upload = False, ft_is_identical = False, ft_transferred_size = 0, ft_is_resume = r\<rparr>])"

lemma init_agree:
  assumes "init_data_stream env job st = (Inr ms, job')"
  shows "\<exists>as. init_read_job_for_cm env conn_id job st = (Inr as, job')
    \<and> same_digest conn_id (tj_id job') as ms"
  using assms
  by (auto simp: init_data_stream_def init_read_job_for_cm_def init_data_stream_for_cm_def set_file_is_waiting_def same_digest_def
      split: prod.splits sum.splits bool.splits if_splits)

lemma init_error_agree:
  "init_data_stream env job st = (Inl e, job') \<Longrightarrow> init_read_job_for_cm env conn_id job st = (Inl e, job')"
  by (auto simp: init_data_stream_def init_read_job_for_cm_def init_data_stream_for_cm_def
      split: prod.splits sum.splits bool.splits if_splits)

definition no_error :: "file_message list \<Rightarrow> bool" where
  "no_error ms \<longleftrightarrow> list_all (\<lambda>m. case m of MsgError _ _ _ \<Rightarrow> False | _ \<Rightarrow> True) ms"

lemma no_error_append [simp]: "no_error (ms @ ms') \<longleftrightarrow> no_error ms \<and> no_error ms'"
  by (simp add: no_error_def)

text \<open>The part of a connection that matters for the messages.\<close>

definition sent_more :: "conn_files \<Rightarrow> file_message list \<Rightarrow> i32 set \<Rightarrow> conn_files \<Rightarrow> bool" where
  "sent_more c ms ids c' \<longleftrightarrow> nf_sent c' = nf_sent c @ ms \<and> nf_id c' = nf_id c \<and> nf_cm_read_job_ids c' = ids"

lemma digest_arrives:
  assumes "i \<in> nf_cm_read_job_ids c" "same_digest (nf_id c) i as ms"
  shows "sent_more c ms (nf_cm_read_job_ids c) (fold (on_cm_answer env) as c)"
  using assms by (auto simp: same_digest_def sent_more_def handle_file_digest_from_cm_def to_peer_def)

text \<open>The reading part of a round without error.\<close>

lemma read_agrees:
  assumes r: "read_first_job fs st [job] = (jobs, ms, fin, log)" and l: "\<not> tj_is_last_job job" and ok: "no_error ms"
    and t: "tick_read fs (nf_id c) job st = (job', as, finished)" and i: "tj_id job \<in> nf_cm_read_job_ids c"
  shows "jobs = [job'] \<and> same_identity job' job \<and> fin = (if finished then [tj_id job] else [])
    \<and> sent_more c ms (if finished then nf_cm_read_job_ids c - {tj_id job} else nf_cm_read_job_ids c) (fold (on_cm_answer env) as c)"
proof -
  obtain res j where j: "job_read fs job st = (res, j)" by fastforce
  note id = job_read_identity [OF j]
  show ?thesis
  proof (cases res)
    case (Inl e)
    with r l j ok show ?thesis by (auto simp: no_error_def)
  next
    case res: (Inr b)
    show ?thesis
    proof (cases b)
      case None
      with r l j ok t i id res show ?thesis
        by (auto simp: tick_read_def no_error_def same_identity_def sent_more_def handle_file_read_done_def to_peer_def
            split: if_splits option.splits)
    next
      case (Some block)
      have "fb_id block = tj_id job" using job_read_id j res Some by blast
      with r l j ok t i id res Some show ?thesis
        by (auto simp: tick_read_def sent_more_def handle_file_block_from_cm_def to_peer_def)
    qed
  qed
qed

lemma sent_more_trans:
  "sent_more c ms ids c' \<Longrightarrow> sent_more c' ms' ids' c'' \<Longrightarrow> sent_more c (ms @ ms') ids' c''"
  by (simp add: sent_more_def)

text \<open>One round.\<close>

lemma round_agrees:
  assumes n: "handle_read_jobs fs [job] st = (jobs, ms, log)" and l: "\<not> tj_is_last_job job" and ok: "no_error ms"
    and i: "tj_id job \<in> nf_cm_read_job_ids c"
  shows "\<exists>as. handle_read_jobs_tick fs (nf_id c) [job] st = (jobs, as)
    \<and> (jobs = [] \<and> sent_more c ms (nf_cm_read_job_ids c - {tj_id job}) (fold (on_cm_answer env) as c)
      \<or> (\<exists>job'. jobs = [job'] \<and> same_identity job' job \<and> sent_more c ms (nf_cm_read_job_ids c) (fold (on_cm_answer env) as c)))"
proof -
  obtain res job1 where init: "init_data_stream fs job st = (res, job1)" by fastforce
  have id1: "same_identity job1 job" by (rule init_data_stream_identity [OF init])
  obtain ms0 where res: "res = Inr ms0"
    using n l init ok by (cases res) (auto simp: handle_read_jobs_def no_error_def split: prod.splits)
  have l1: "\<not> tj_is_last_job job1" "tj_id job1 = tj_id job" using id1 l by (simp_all add: same_identity_def)
  obtain jobs1 ms1 fin lg where r: "read_first_job fs st [job1] = (jobs1, ms1, fin, lg)" by (metis prod.exhaust)
  have ms: "ms = ms0 @ ms1" "jobs = fold (\<lambda>i js. snd (remove_job i js)) fin jobs1"
    using n l init res r by (simp_all add: handle_read_jobs_def)
  obtain as0 where a0: "init_read_job_for_cm fs (nf_id c) job st = (Inr as0, job1)"
      and d: "same_digest (nf_id c) (tj_id job1) as0 ms0"
    using init_agree [OF init [unfolded res], of "nf_id c"] by blast
  have c0: "sent_more c ms0 (nf_cm_read_job_ids c) (fold (on_cm_answer env) as0 c)"
    using digest_arrives d i l1(2) by metis
  let ?c = "fold (on_cm_answer env) as0 c"
  obtain job2 as1 finished where t: "tick_read fs (nf_id ?c) job1 st = (job2, as1, finished)" by (metis prod.exhaust)
  have i1: "tj_id job1 \<in> nf_cm_read_job_ids ?c" using c0 i l1(2) by (simp add: sent_more_def)
  have ok1: "no_error ms1" using ok ms(1) by simp
  note ra = read_agrees [OF r l1(1) ok1 t i1, of env]
  have nid: "nf_id ?c = nf_id c" "nf_cm_read_job_ids ?c = nf_cm_read_job_ids c" using c0 by (simp_all add: sent_more_def)
  have tick: "handle_read_jobs_tick fs (nf_id c) [job] st =
      (fold (\<lambda>i js. snd (remove_job i js)) (if finished then [tj_id job2] else []) [job2], as0 @ as1)"
    using l a0 t nid by (simp add: handle_read_jobs_tick_def)
  have id2: "tj_id job2 = tj_id job1" "same_identity job2 job"
    using ra id1 by (auto simp: same_identity_def)
  have sm: "sent_more c ms (if finished then nf_cm_read_job_ids c - {tj_id job} else nf_cm_read_job_ids c)
      (fold (on_cm_answer env) (as0 @ as1) c)"
  proof -
    have "sent_more ?c ms1 (if finished then nf_cm_read_job_ids c - {tj_id job} else nf_cm_read_job_ids c)
        (fold (on_cm_answer env) as1 ?c)" using ra unfolding nid l1(2) by blast
    from sent_more_trans [OF c0 this] show ?thesis by (simp add: ms(1))
  qed
  have jb: "jobs = (if finished then [] else [job2])" using ms(2) ra id2(1) by (auto split: if_splits)
  show ?thesis
    using tick sm id2 jb by (cases finished) auto
qed

text \<open>Rounds of the manager, its answers handled by the connection.\<close>

fun cm_rounds ::
  "conn_env \<Rightarrow> nat \<Rightarrow> transfer_job list \<Rightarrow> conn_files \<Rightarrow> transfer_job list \<times> conn_files" where
  "cm_rounds env 0 jobs c = (jobs, c)"
| "cm_rounds env (Suc n) jobs c =
     (let (jobs, as) = handle_read_jobs_tick (ne_fs env) (nf_id c) jobs (ne_store env)
      in cm_rounds env n jobs (fold (on_cm_answer env) as c))"

lemma no_rounds: "send_rounds fs st n [] = ([], [])" "cm_rounds env n [] c = ([], c)"
  by (induction n arbitrary: c) (simp_all add: handle_read_jobs_def handle_read_jobs_tick_def)

text \<open>
  C18: Reading through the connection manager is reading in the connection: for a job the connection has
  delegated, as long as the rounds of the direct way report no error, the peer gets exactly the same
  messages in the same order, the same job is left, and the connection forgets the id of the job exactly
  when it is finished.
\<close>

theorem delegated_reading_agrees:
  assumes "send_rounds (ne_fs env) (ne_store env) n [job] = (ms, jobs)" "no_error ms"
    and "\<not> tj_is_last_job job" "tj_id job \<in> nf_cm_read_job_ids c"
  shows "\<exists>c'. cm_rounds env n [job] c = (jobs, c') \<and> nf_sent c' = nf_sent c @ ms
    \<and> nf_cm_read_job_ids c' = (if jobs = [] then nf_cm_read_job_ids c - {tj_id job} else nf_cm_read_job_ids c)"
  using assms
proof (induction n arbitrary: job ms c)
  case 0
  then show ?case by auto
next
  case (Suc n)
  obtain jobs1 ms1 log where r: "handle_read_jobs (ne_fs env) [job] (ne_store env) = (jobs1, ms1, log)" by (metis prod.exhaust)
  obtain ms2 where m: "send_rounds (ne_fs env) (ne_store env) n jobs1 = (ms2, jobs)" "ms = ms1 @ ms2"
    using Suc.prems(1) r by (auto split: prod.splits)
  have ok: "no_error ms1" "no_error ms2" using Suc.prems(2) m(2) by simp_all
  obtain as where a: "handle_read_jobs_tick (ne_fs env) (nf_id c) [job] (ne_store env) = (jobs1, as)"
      and d: "jobs1 = [] \<and> sent_more c ms1 (nf_cm_read_job_ids c - {tj_id job}) (fold (on_cm_answer env) as c)
      \<or> (\<exists>job'. jobs1 = [job'] \<and> same_identity job' job \<and> sent_more c ms1 (nf_cm_read_job_ids c) (fold (on_cm_answer env) as c))"
    using round_agrees [OF r Suc.prems(3) ok(1) Suc.prems(4), of env] by blast
  show ?case
  proof (cases "jobs1 = []")
    case True
    with d m a show ?thesis by (auto simp: no_rounds sent_more_def)
  next
    case False
    then obtain job' where j: "jobs1 = [job']" "same_identity job' job" "sent_more c ms1 (nf_cm_read_job_ids c) (fold (on_cm_answer env) as c)"
      using d by blast
    have "\<not> tj_is_last_job job'" "tj_id job' \<in> nf_cm_read_job_ids (fold (on_cm_answer env) as c)"
      using j Suc.prems(3,4) by (simp_all add: same_identity_def sent_more_def)
    from Suc.IH [OF m(1) [unfolded j(1)] ok(2) this] j a m(2) show ?thesis
      by (auto simp: sent_more_def same_identity_def)
  qed
qed
definition conn_demo :: conn_files where
  "conn_demo = \<lparr>nf_id = 1, nf_version = ''1.4.5'', nf_file_transfer = Some ([], False), nf_file = True, nf_delayed_read_dir = None,
     nf_read_jobs = [], nf_cm_read_job_ids = {5}, nf_printer_data = [], nf_file_transferred = True,
     nf_remove_log = remove_log_new 0 1, nf_max_files = None, nf_sent = [], nf_to_cm = [], nf_audits = []\<rparr>"

definition conn_demo_env :: conn_env where
  "conn_demo_env = \<lparr>ne_fs = calm_env, ne_os = Linux, ne_now = 0, ne_tree = (\<lambda>_. None), ne_store = demo_source,
     ne_one_way = [], ne_need_cm = True, ne_max_files_option = [], ne_audit_url = []\<rparr>"

theorem delegated_reading_agrees_witness:
  "\<exists>jobs c'. cm_rounds conn_demo_env 1 [one_file_job ''/s'' True] conn_demo = (jobs, c') \<and> jobs \<noteq> []
    \<and> nf_sent c' = [MsgDigest \<lparr>ft_id = 5, ft_file_num = 0, ft_last_modified = 9, ft_file_size = 3, ft_is_upload = False,
         ft_is_identical = False, ft_transferred_size = 0, ft_is_resume = False\<rparr>]
    \<and> nf_cm_read_job_ids c' = {5}"
proof -
  let ?job = "one_file_job ''/s'' True"
  let ?m = "MsgDigest \<lparr>ft_id = 5, ft_file_num = 0, ft_last_modified = 9, ft_file_size = 3, ft_is_upload = False,
         ft_is_identical = False, ft_transferred_size = 0, ft_is_resume = False\<rparr>"
  obtain ms jobs where r: "send_rounds calm_env demo_source 1 [?job] = (ms, jobs)" by fastforce
  have "fst (send_rounds calm_env demo_source 1 [?job]) = [?m] \<and> length (snd (send_rounds calm_env demo_source 1 [?job])) = 1"
    by code_simp
  then have m: "ms = [?m]" "jobs \<noteq> []" using r by auto
  have e: "ne_fs conn_demo_env = calm_env" "ne_store conn_demo_env = demo_source" by (simp_all add: conn_demo_env_def)
  have "no_error ms" "\<not> tj_is_last_job ?job" "tj_id ?job \<in> nf_cm_read_job_ids conn_demo"
    by (simp_all add: m no_error_def one_file_job_def new_write_def default_job_def conn_demo_def)
  from delegated_reading_agrees [of conn_demo_env 1 ?job ms jobs, unfolded e, OF r this] m
  show ?thesis by (auto simp: conn_demo_def)
qed

text \<open>After an error the two ways part: the direct one goes on with the job, the manager drops it.\<close>

lemma delegated_reading_ends_on_error:
  assumes "init_data_stream fs job st = (Inr [], job1)" "job_read fs job1 st = (Inl e, job2)" "\<not> tj_is_last_job job"
  shows "fst (handle_read_jobs fs [job] st) = [job2]" "fst (handle_read_jobs_tick fs conn_id [job] st) = []"
proof -
  have l: "\<not> tj_is_last_job job1" using init_data_stream_identity [OF assms(1)] assms(3) by (simp add: same_identity_def)
  show "fst (handle_read_jobs fs [job] st) = [job2]" using assms l by (simp add: handle_read_jobs_def)
  have "init_read_job_for_cm fs conn_id job st = (Inr [], job1)"
    using init_agree [OF assms(1), of conn_id] by (auto simp: same_digest_def)
  then show "fst (handle_read_jobs_tick fs conn_id [job] st) = []"
    using assms by (simp add: handle_read_jobs_tick_def tick_read_def)
qed

section \<open>Events of a connection\<close>

datatype conn_event = Action file_action | Response file_response | Answer cm_answer | FileTick

fun conn_step :: "conn_env \<Rightarrow> conn_event \<Rightarrow> conn_files \<Rightarrow> conn_files option" where
  "conn_step env (Action a) c = on_file_action env a c"
| "conn_step env (Response r) c = Some (on_file_response r c)"
| "conn_step env (Answer a) c = Some (on_cm_answer env a c)"
| "conn_step env FileTick c = Some (file_tick env c)"

fun conn_run :: "(conn_env \<times> conn_event) list \<Rightarrow> conn_files \<Rightarrow> conn_files option" where
  "conn_run [] c = Some c"
| "conn_run ((env, e) # es) c = Option.bind (conn_step env e c) (conn_run es)"

fun message_id :: "file_message \<Rightarrow> i32 option" where
  "message_id (MsgBlock b) = Some (fb_id b)"
| "message_id (MsgError i _ _) = Some i"
| "message_id (MsgDone i _) = Some i"
| "message_id (MsgDigest d) = Some (ft_id d)"
| "message_id (MsgDir i _ _) = Some i"
| "message_id (MsgEmptyDirs _ _) = None"
| "message_id (MsgSendConfirm r) = Some (sc_id r)"

text \<open>
  The actions that name a job id and are answered under it, and the answers to requests the connection
  does not keep track of.
\<close>

fun mentions :: "i32 \<Rightarrow> conn_event \<Rightarrow> bool" where
  "mentions i (Action (FaSend j _ _ _ _)) = (i = j)"
| "mentions i (Action (FaAllFiles _ j _)) = (i = j)"
| "mentions i (Action (FaRemoveFile f)) = (i = rf_id f)"
| "mentions i (Action (FaRemoveDir d)) = (i = rd_id d)"
| "mentions i (Action (FaCreate j _)) = (i = j)"
| "mentions i (Action (FaRename j _ _)) = (i = j)"
| "mentions i (Answer (Raw m)) = (message_id m = Some i)"
| "mentions i (Answer (AllFilesResult j _ _ (Inl _))) = (i = j)"
| "mentions i (Answer (AllFilesResult _ _ _ (Inr (j, _, _)))) = (i = j)"
| "mentions i _ = False"

text \<open>Nothing of the job is going on.\<close>

definition quiet :: "i32 \<Rightarrow> conn_files \<Rightarrow> bool" where
  "quiet i c \<longleftrightarrow> i \<notin> nf_cm_read_job_ids c \<and> (\<forall>job \<in> set (nf_read_jobs c). tj_id job \<noteq> i)"

definition silent_step :: "i32 \<Rightarrow> conn_files \<Rightarrow> conn_files \<Rightarrow> bool" where
  "silent_step i c c' \<longleftrightarrow> quiet i c' \<and> (\<exists>ms. nf_sent c' = nf_sent c @ ms \<and> (\<forall>m \<in> set ms. message_id m \<noteq> Some i))"

lemma silent_same: "quiet i c \<Longrightarrow> nf_cm_read_job_ids c' \<subseteq> nf_cm_read_job_ids c \<Longrightarrow> nf_read_jobs c' = nf_read_jobs c
    \<Longrightarrow> nf_sent c' = nf_sent c \<Longrightarrow> silent_step i c c'"
  by (auto simp: silent_step_def quiet_def)

lemma silent_trans: "silent_step i c c' \<Longrightarrow> silent_step i c' c'' \<Longrightarrow> silent_step i c c''"
  unfolding silent_step_def by (metis Un_iff append.assoc set_append)

lemma conn_sel [simp]:
  "nf_cm_read_job_ids (to_peer m c) = nf_cm_read_job_ids c" "nf_read_jobs (to_peer m c) = nf_read_jobs c"
  "nf_sent (to_peer m c) = nf_sent c @ [m]"
  "nf_cm_read_job_ids (send_fs r c) = nf_cm_read_job_ids c" "nf_read_jobs (send_fs r c) = nf_read_jobs c"
  "nf_sent (send_fs r c) = nf_sent c"
  "nf_cm_read_job_ids (send_to_cm x c) = nf_cm_read_job_ids c" "nf_read_jobs (send_to_cm x c) = nf_read_jobs c"
  "nf_sent (send_to_cm x c) = nf_sent c"
  "nf_cm_read_job_ids (post_file_audit env t p fs c) = nf_cm_read_job_ids c"
  "nf_read_jobs (post_file_audit env t p fs c) = nf_read_jobs c" "nf_sent (post_file_audit env t p fs c) = nf_sent c"
  by (simp_all add: to_peer_def send_fs_def send_to_cm_def post_file_audit_def)

lemma silent_to_peer:
  "quiet i c \<Longrightarrow> message_id m \<noteq> Some i \<Longrightarrow> nf_cm_read_job_ids c' \<subseteq> nf_cm_read_job_ids c \<Longrightarrow> nf_read_jobs c' = nf_read_jobs c
    \<Longrightarrow> nf_sent c' = nf_sent c @ [m] \<Longrightarrow> silent_step i c c'"
  by (auto simp: silent_step_def quiet_def)

lemma init_messages_id:
  "init_data_stream env job st = (Inr ms, job') \<Longrightarrow> m \<in> set ms \<Longrightarrow> message_id m = Some (tj_id job')"
  using init_agree [of env job st ms job' 0] by (auto simp: same_digest_def)

lemma init_jobs_ids:
  "init_jobs env st jobs = (js, ms) \<Longrightarrow>
    map tj_id js = map tj_id jobs \<and> (\<forall>m \<in> set ms. \<exists>job \<in> set jobs. message_id m = Some (tj_id job))"
proof (induction jobs arbitrary: js ms)
  case (Cons job jobs)
  obtain js1 ms1 where r: "init_jobs env st jobs = (js1, ms1)" by fastforce
  note IH = Cons.IH [OF r]
  show ?case
  proof (cases "tj_is_last_job job")
    case True
    then show ?thesis using Cons.prems r IH by auto
  next
    case False
    obtain res job1 where i: "init_data_stream env job st = (res, job1)" by fastforce
    have id: "tj_id job1 = tj_id job" using init_data_stream_identity [OF i] by (simp add: same_identity_def)
    have js: "js = job1 # js1" "ms = (case res of Inr m \<Rightarrow> m | Inl e \<Rightarrow> [MsgError (tj_id job1) e (tj_file_num job1)]) @ ms1"
      using Cons.prems False i r by auto
    have "message_id m = Some (tj_id job1)" if "m \<in> set (case res of Inr m \<Rightarrow> m | Inl e \<Rightarrow> [MsgError (tj_id job1) e (tj_file_num job1)])" for m
      using that init_messages_id [of env job st _ job1 m] i by (auto split: sum.splits)
    then show ?thesis using js IH id by fastforce
  qed
qed simp

lemma read_first_job_ids:
  "read_first_job env st jobs = (js, ms, fin, log) \<Longrightarrow>
    map tj_id js = map tj_id jobs \<and> (\<forall>m \<in> set ms. \<exists>job \<in> set jobs. message_id m = Some (tj_id job))"
proof (induction jobs arbitrary: js ms fin log)
  case (Cons job jobs)
  show ?case
  proof (cases "tj_is_last_job job")
    case True
    obtain js1 ms1 fin1 log1 where r: "read_first_job env st jobs = (js1, ms1, fin1, log1)" by (metis prod.exhaust)
    show ?thesis using Cons.IH [OF r] Cons.prems True r by auto
  next
    case False
    obtain res j where j: "job_read env job st = (res, j)" by fastforce
    have id: "tj_id j = tj_id job" using job_read_identity [OF j] by (simp add: same_identity_def)
    show ?thesis
    proof (cases res)
      case (Inl e)
      then show ?thesis using Cons.prems False j id by auto
    next
      case (Inr b)
      then show ?thesis using Cons.prems False j id job_read_id [of env job st _ j]
        by (cases b) (auto split: if_splits option.splits)
    qed
  qed
qed simp

lemma remove_job_subset: "set (snd (remove_job i jobs)) \<subseteq> set jobs"
  by (induction jobs) (auto split: prod.splits)

lemma fold_remove_job_subset: "set (fold (\<lambda>i js. snd (remove_job i js)) ids jobs) \<subseteq> set jobs"
proof (induction ids arbitrary: jobs)
  case (Cons i ids)
  then show ?case using remove_job_subset [of i jobs] by fastforce
qed simp

lemma handle_read_jobs_ids:
  assumes "handle_read_jobs env jobs st = (jobs', ms, log)"
  shows "tj_id ` set jobs' \<subseteq> tj_id ` set jobs" "\<forall>m \<in> set ms. \<exists>job \<in> set jobs. message_id m = Some (tj_id job)"
proof -
  obtain js1 ms1 where i: "init_jobs env st jobs = (js1, ms1)" by fastforce
  obtain js2 ms2 fin l where r: "read_first_job env st js1 = (js2, ms2, fin, l)" by (metis prod.exhaust)
  have e: "jobs' = fold (\<lambda>i js. snd (remove_job i js)) fin js2" "ms = ms1 @ ms2"
    using assms i r by (simp_all add: handle_read_jobs_def)
  note a = init_jobs_ids [OF i] and b = read_first_job_ids [OF r]
  have s: "tj_id ` set js1 = tj_id ` set jobs" "tj_id ` set js2 = tj_id ` set jobs" using a b by (metis list.set_map)+
  show "tj_id ` set jobs' \<subseteq> tj_id ` set jobs" using fold_remove_job_subset [of fin js2] s unfolding e by (metis image_mono)
  have "\<exists>job \<in> set jobs. tj_id job = tj_id j" if "j \<in> set js1" for j using s(1) that by (metis imageE imageI)
  then have "\<forall>m \<in> set ms2. \<exists>job \<in> set jobs. message_id m = Some (tj_id job)" using b by metis
  with a show "\<forall>m \<in> set ms. \<exists>job \<in> set jobs. message_id m = Some (tj_id job)" by (simp add: e ball_Un)
qed

lemma file_tick_silent:
  assumes q: "quiet i c"
  shows "silent_step i c (file_tick env c)"
proof (cases "nf_read_jobs c = []")
  case True
  then show ?thesis using q by (intro silent_same) (simp_all add: file_tick_def)
next
  case False
  obtain jobs ms log where r: "handle_read_jobs (ne_fs env) (nf_read_jobs c) (ne_store env) = (jobs, ms, log)" by (metis prod.exhaust)
  note h = handle_read_jobs_ids [OF r]
  have e: "nf_sent (file_tick env c) = nf_sent c @ ms" "nf_read_jobs (file_tick env c) = jobs"
      "nf_cm_read_job_ids (file_tick env c) = nf_cm_read_job_ids c"
    using False r by (auto simp: file_tick_def Let_def split: option.split)
  have "\<forall>job \<in> set jobs. tj_id job \<noteq> i" using h(1) q unfolding quiet_def by (metis imageE imageI subsetD)
  moreover have "\<forall>m \<in> set ms. message_id m \<noteq> Some i" using h(2) q by (auto simp: quiet_def)
  ultimately show ?thesis using e q by (auto simp: silent_step_def quiet_def)
qed

lemma new_read_id: "new_read os tree i jt rem src n h r d = Inr job \<Longrightarrow> tj_id job = i"
  by (auto simp: new_read_def split: sum.splits data_source.splits)

lemma process_new_read_job_silent:
  assumes "quiet i c" "tj_id job \<noteq> i"
  shows "silent_step i c (process_new_read_job env job path c)"
  using assms by (auto simp: process_new_read_job_def silent_step_def quiet_def Let_def)

lemma create_read_job_silent:
  assumes "quiet i c" "j \<noteq> i"
  shows "silent_step i c (create_and_start_read_job env j jt src n h od path l c)"
proof (cases "new_read (ne_os env) (ne_tree env path) j jt [] src n h False od")
  case (Inl e)
  then show ?thesis using assms by (intro silent_to_peer) (auto simp: create_and_start_read_job_def)
next
  case (Inr job)
  have id: "tj_id job \<noteq> i" using new_read_id [OF Inr] assms(2) by simp
  obtain res cell where k: "check_file_count_limit (ne_max_files_option env) (length (tj_files job)) (nf_max_files c) = (res, cell)" by fastforce
  have q: "quiet i (c\<lparr>nf_max_files := cell\<rparr>)" using assms(1) by (simp add: quiet_def)
  have s: "silent_step i c (c\<lparr>nf_max_files := cell\<rparr>)" using assms(1) by (intro silent_same) simp_all
  show ?thesis
  proof (cases l)
    case False
    then show ?thesis using Inr process_new_read_job_silent [OF assms(1) id] by (simp add: create_and_start_read_job_def)
  next
    case True
    show ?thesis
    proof (cases res)
      case (Inl msg)
      then show ?thesis using Inr True k assms by (intro silent_to_peer) (auto simp: create_and_start_read_job_def)
    next
      case ok: (Inr u)
      have "create_and_start_read_job env j jt src n h od path l c = process_new_read_job env job path (c\<lparr>nf_max_files := cell\<rparr>)"
        using Inr True k ok by (simp add: create_and_start_read_job_def)
      with silent_trans [OF s process_new_read_job_silent [OF q id]] show ?thesis by simp
    qed
  qed
qed

lemma silent_mark: "silent_step i c c' \<Longrightarrow> silent_step i c (c'\<lparr>nf_file_transferred := b\<rparr>)"
  by (simp add: silent_step_def quiet_def)

lemma send_action_silent:
  assumes q: "quiet i c" and j: "j \<noteq> i"
  shows "silent_step i c (send_action env j path h n jt c)"
proof (cases jt)
  case Generic
  show ?thesis
  proof (cases "ne_need_cm env")
    case True
    then show ?thesis using Generic q j by (auto simp: send_action_def silent_step_def quiet_def Let_def)
  next
    case False
    then show ?thesis using Generic silent_mark [OF create_read_job_silent [OF q j]] by (simp add: send_action_def Let_def)
  qed
next
  case Printer
  show ?thesis
  proof (cases "take_printer_data path (nf_printer_data c)")
    case None
    then show ?thesis using Printer q by (intro silent_same) (simp_all add: send_action_def)
  next
    case (Some d)
    obtain v ds where d: "d = (v, ds)" by fastforce
    have q': "quiet i (c\<lparr>nf_printer_data := ds\<rparr>)" using q by (simp add: quiet_def)
    have s: "silent_step i c (c\<lparr>nf_printer_data := ds\<rparr>)" using q by (intro silent_same) simp_all
    show ?thesis using Printer Some d silent_mark [OF silent_trans [OF s create_read_job_silent [OF q' j]]]
      by (simp add: send_action_def)
  qed
qed

lemma send_confirm_silent:
  assumes q: "quiet i c" and s: "send_confirm_action env r c = Some c'"
  shows "silent_step i c c'"
proof (cases "get_job (sc_id r) (nf_read_jobs c)")
  case None
  then show ?thesis using q s by (intro silent_same) (auto simp: send_confirm_action_def split: if_splits)
next
  case (Some job)
  then obtain job' where k: "confirm (ne_fs env) r job (ne_store env) = Some job'"
      and c': "c' = c\<lparr>nf_read_jobs := put_job job' (nf_read_jobs c)\<rparr>"
    using s by (auto simp: send_confirm_action_def)
  have "tj_id job' = tj_id job" using confirm_same_files [OF k] by (simp add: same_files_def)
  moreover have "tj_id job \<noteq> i" using get_job_Some [OF Some] q by (auto simp: quiet_def)
  ultimately show ?thesis using q put_job_set [of job' "nf_read_jobs c"]
    by (auto simp: c' silent_step_def quiet_def)
qed

lemma cancel_action_sel:
  "nf_sent (cancel_action i c) = nf_sent c" "nf_cm_read_job_ids (cancel_action i c) = nf_cm_read_job_ids c - {i}"
  "nf_read_jobs (cancel_action i c) = snd (remove_job i (nf_read_jobs c))"
proof -
  obtain j jobs where r: "remove_job i (nf_read_jobs c) = (j, jobs)" by fastforce
  have none: "remove_job i js = (None, js') \<Longrightarrow> js' = js" for js js'
    by (induction js arbitrary: js') (auto split: if_splits prod.splits)
  show "nf_sent (cancel_action i c) = nf_sent c" "nf_cm_read_job_ids (cancel_action i c) = nf_cm_read_job_ids c - {i}"
    "nf_read_jobs (cancel_action i c) = snd (remove_job i (nf_read_jobs c))"
    using r none [of "nf_read_jobs c"] by (auto simp: cancel_action_def Let_def split: option.split)
qed

lemma do_action_silent:
  assumes q: "quiet i c" and a: "\<not> mentions i (Action a)" and d: "do_action env a c = Some c'"
  shows "silent_step i c c'"
proof (cases a)
  case (FaAllFiles path j h)

  show ?thesis
    using q a d FaAllFiles
    by (auto simp: all_files_action_def silent_step_def quiet_def split: if_splits sum.splits prod.splits)
next
  case (FaSend j path h n jt)
  then show ?thesis using send_action_silent [OF q] a d by auto
next
  case (FaReceive j path files n sz)
  then show ?thesis using q d by (intro silent_same) (auto simp: receive_action_def Let_def)
next
  case (FaCancel j)
  then show ?thesis using q d remove_job_subset [of j "nf_read_jobs c"]
    by (auto simp: silent_step_def quiet_def cancel_action_sel)
next
  case (FaSendConfirm r)
  then show ?thesis using send_confirm_silent [OF q] d by auto
qed (use q d in \<open>auto intro!: silent_same simp: Let_def\<close>)

lemma on_file_action_silent:
  assumes q: "quiet i c" and a: "\<not> mentions i (Action a)" and d: "on_file_action env a c = Some c'"
  shows "silent_step i c c'"
proof (cases "handles_action c a \<and> nf_delayed_read_dir c = None")
  case False
  then show ?thesis using q d by (intro silent_same) (auto simp: on_file_action_def split: if_splits file_action.splits)
next
  case True
  show ?thesis
  proof (cases "ne_one_way env = ''Y'' \<and> one_way_job_id a \<noteq> None")
    case one: True
    then obtain j where j: "one_way_job_id a = Some j" by auto
    have "j \<noteq> i" using j a by (cases a) auto
    then show ?thesis using True one j q d by (intro silent_to_peer) (auto simp: on_file_action_def)
  next
    case False
    then show ?thesis using True do_action_silent [OF q a] d by (auto simp: on_file_action_def)
  qed
qed

lemma on_cm_answer_silent:
  assumes q: "quiet i c" and a: "\<not> mentions i (Answer a)"
  shows "silent_step i c (on_cm_answer env a c)"
proof (cases a)
  case (ReadJobInitResult j n h k res)
  show ?thesis
  proof (cases "k = nf_id c \<and> j \<in> nf_cm_read_job_ids c")
    case True
    then have "j \<noteq> i" using q by (auto simp: quiet_def)
    then show ?thesis using q True ReadJobInitResult
      by (cases res) (auto simp: handle_read_job_init_result_def silent_step_def quiet_def Let_def)
  next
    case False
    then show ?thesis using q ReadJobInitResult by (intro silent_same) (auto simp: handle_read_job_init_result_def)
  qed
next
  case (AllFilesResult j k path res)
  then show ?thesis using q a
    by (cases res) (auto simp: handle_all_files_result_def silent_step_def quiet_def)
qed (use q a in \<open>auto simp: handle_file_block_from_cm_def handle_file_read_done_def handle_file_read_error_def
      handle_file_digest_from_cm_def silent_step_def quiet_def\<close>)

lemma conn_step_silent:
  assumes "quiet i c" "\<not> mentions i e" "conn_step env e c = Some c'"
  shows "silent_step i c c'"
proof (cases e)
  case (Action a)
  then show ?thesis using on_file_action_silent assms by auto
next
  case (Response r)
  then show ?thesis using assms by (cases r) (auto intro!: silent_same)
next
  case (Answer a)
  then show ?thesis using on_cm_answer_silent assms by auto
next
  case FileTick
  then show ?thesis using file_tick_silent assms by auto
qed

lemma conn_run_silent:
  "quiet i c \<Longrightarrow> \<forall>(env, e) \<in> set es. \<not> mentions i e \<Longrightarrow> conn_run es c = Some c' \<Longrightarrow> silent_step i c c'"
proof (induction es arbitrary: c)
  case Nil
  then show ?case by (intro silent_same) auto
next
  case (Cons x es)
  obtain env e where x: "x = (env, e)" by fastforce
  obtain c1 where s: "conn_step env e c = Some c1" "conn_run es c1 = Some c'"
    using Cons.prems(3) by (auto simp: x bind_eq_Some_conv)
  have st: "silent_step i c c1" using conn_step_silent [OF Cons.prems(1) _ s(1)] Cons.prems(2) by (simp add: x)
  then have "quiet i c1" by (simp add: silent_step_def)
  from Cons.IH [OF this _ s(2)] Cons.prems(2) have "silent_step i c1 c'" by simp
  with st show ?case by (rule silent_trans)
qed

text \<open>
  A cancelled transfer stays cancelled: when the peer cancels a job whose id no other job has, the
  peer hears nothing more under that id, neither block nor digest nor end nor error, whatever else the
  peer does, whatever the connection manager still answers for the job and however often the timer
  reads, unless the peer itself names the id again.
\<close>

theorem cancelled_transfer_is_silent:
  assumes "handles_action c (FaCancel i)" "nf_delayed_read_dir c = None"
    and "\<forall>job \<in> set (snd (remove_job i (nf_read_jobs c))). tj_id job \<noteq> i"
    and "conn_run ((env, Action (FaCancel i)) # es) c = Some c'" "\<forall>(env, e) \<in> set es. \<not> mentions i e"
  shows "\<exists>ms. nf_sent c' = nf_sent c @ ms \<and> (\<forall>m \<in> set ms. message_id m \<noteq> Some i)"
proof -
  let ?c = "cancel_action i c"
  have "on_file_action env (FaCancel i) c = Some ?c" using assms(1,2) by (simp add: on_file_action_def)
  then have r: "conn_run es ?c = Some c'" using assms(4) by simp
  have "quiet i ?c" using assms(3) by (simp add: quiet_def cancel_action_sel)
  from conn_run_silent [OF this assms(5) r] show ?thesis by (simp add: silent_step_def cancel_action_sel)
qed

theorem cancelled_transfer_is_silent_witness:
  "\<exists>c'. conn_run [(conn_demo_env, Action (FaCancel 5)), (conn_demo_env, Answer (FileBlockFromCM 5 0 [1] False 1)),
       (conn_demo_env, Answer (FileReadDone 5 1 1))] conn_demo = Some c'
    \<and> (\<exists>ms. nf_sent c' = nf_sent conn_demo @ ms \<and> (\<forall>m \<in> set ms. message_id m \<noteq> Some 5))"
proof -
  let ?es = "[(conn_demo_env, Answer (FileBlockFromCM 5 0 [1] False 1)), (conn_demo_env, Answer (FileReadDone 5 1 1))]"
  have h: "handles_action conn_demo (FaCancel 5)" "nf_delayed_read_dir conn_demo = None"
    "\<forall>job \<in> set (snd (remove_job 5 (nf_read_jobs conn_demo))). tj_id job \<noteq> 5"
    by (simp_all add: handles_action_def conn_demo_def)
  obtain c' where r: "conn_run ((conn_demo_env, Action (FaCancel 5)) # ?es) conn_demo = Some c'"
    using h by (simp add: on_file_action_def)
  from cancelled_transfer_is_silent [OF h r] r show ?thesis by simp
qed

section \<open>One way only\<close>

text \<open>What carries the content of a file to the peer, and what changes files here other than by writing.\<close>

fun is_block :: "file_message \<Rightarrow> bool" where
  "is_block (MsgBlock _) = True"
| "is_block _ = False"

fun is_outward :: "cm_message \<Rightarrow> bool" where
  "is_outward (CmFs (ReadFile _ _ _ _ _ _)) = True"
| "is_outward (CmFs (RemoveFile _ _ _)) = True"
| "is_outward (CmFs (RemoveDir _ _ _)) = True"
| "is_outward (CmFs (CreateDir _ _)) = True"
| "is_outward (CmFs (Rename _ _ _)) = True"
| "is_outward _ = False"

definition keeps_in :: "conn_files \<Rightarrow> conn_files \<Rightarrow> bool" where
  "keeps_in c c' \<longleftrightarrow> nf_read_jobs c' = [] \<and> nf_cm_read_job_ids c' = {}
     \<and> (\<exists>ms rs. nf_sent c' = nf_sent c @ ms \<and> nf_to_cm c' = nf_to_cm c @ rs
          \<and> (\<forall>m \<in> set ms. \<not> is_block m) \<and> (\<forall>r \<in> set rs. \<not> is_outward r))"

lemma keeps_inI:
  assumes "nf_read_jobs c' = []" "nf_cm_read_job_ids c' = {}" "nf_sent c' = nf_sent c @ ms" "nf_to_cm c' = nf_to_cm c @ rs"
    and "\<forall>m \<in> set ms. \<not> is_block m" "\<forall>r \<in> set rs. \<not> is_outward r"
  shows "keeps_in c c'"
  using assms unfolding keeps_in_def by blast

lemma keeps_in_trans:
  assumes "keeps_in c c'" "keeps_in c' c''"
  shows "keeps_in c c''"
proof -
  obtain ms rs where a: "nf_sent c' = nf_sent c @ ms" "nf_to_cm c' = nf_to_cm c @ rs" "\<forall>m \<in> set ms. \<not> is_block m" "\<forall>r \<in> set rs. \<not> is_outward r"
    using assms(1) unfolding keeps_in_def by blast
  obtain ms' rs' where b: "nf_sent c'' = nf_sent c' @ ms'" "nf_to_cm c'' = nf_to_cm c' @ rs'" "\<forall>m \<in> set ms'. \<not> is_block m" "\<forall>r \<in> set rs'. \<not> is_outward r"
    using assms(2) unfolding keeps_in_def by blast
  show ?thesis
    by (rule keeps_inI [of _ _ "ms @ ms'" "rs @ rs'"]) (use a b assms(2) in \<open>auto simp: keeps_in_def\<close>)
qed

lemma to_cm_sel [simp]:
  "nf_to_cm (to_peer m c) = nf_to_cm c" "nf_to_cm (send_fs r c) = nf_to_cm c @ [CmFs r]"
  "nf_to_cm (send_to_cm x c) = nf_to_cm c @ [x]" "nf_to_cm (post_file_audit env t p fs c) = nf_to_cm c"
  by (simp_all add: to_peer_def send_fs_def send_to_cm_def post_file_audit_def)

lemma one_way_action:
  assumes r: "nf_read_jobs c = []" "nf_cm_read_job_ids c = {}" and o: "one_way_job_id a = None"
    and d: "do_action env a c = Some c'"
  shows "keeps_in c c'"
proof (cases a)
  case (FaAllFiles path j h)
  show ?thesis using r d FaAllFiles
    by (auto simp: all_files_action_def keeps_in_def split: if_splits sum.splits prod.splits)
next
  case (FaReceive j path files n sz)
  then show ?thesis using r d by (auto simp: receive_action_def Let_def keeps_in_def)
next
  case (FaCancel j)
  then show ?thesis using r d by (auto simp: cancel_action_def Let_def keeps_in_def)
next
  case (FaSendConfirm q)
  then show ?thesis using r d by (auto simp: send_confirm_action_def get_job_def keeps_in_def)
qed (use r d o in \<open>auto simp: Let_def keeps_in_def\<close>)

lemma one_way_step:
  assumes r: "nf_read_jobs c = []" "nf_cm_read_job_ids c = {}" and o: "ne_one_way env = ''Y''"
    and e: "\<And>m. e = Answer (Raw m) \<Longrightarrow> \<not> is_block m" and s: "conn_step env e c = Some c'"
  shows "keeps_in c c'"
proof (cases e)
  case (Action a)
  then consider "c' = c" | x where "c' = c\<lparr>nf_delayed_read_dir := x\<rparr>" | i where "c' = to_peer (MsgError i ''one-way-file-transfer-tip'' 0) c"
    | "one_way_job_id a = None" "do_action env a c = Some c'"
    using s o by (auto simp: on_file_action_def split: if_splits file_action.splits)
  then show ?thesis
  proof cases
    case 4
    then show ?thesis using one_way_action [OF r] by blast
  qed (use r in \<open>auto simp: keeps_in_def\<close>)
next
  case (Response q)
  then show ?thesis using s r by (cases q) (auto simp: keeps_in_def)
next
  case (Answer a)
  show ?thesis
  proof (cases a)
    case (AllFilesResult j k path res)
    then show ?thesis using s r Answer by (cases res) (auto simp: keeps_in_def handle_all_files_result_def split: if_splits)
  next
    case (Raw m)
    then show ?thesis using s r Answer e [of m] by (auto simp: keeps_in_def)
  qed (use s r Answer in \<open>auto simp: keeps_in_def handle_read_job_init_result_def handle_file_block_from_cm_def
        handle_file_read_done_def handle_file_read_error_def handle_file_digest_from_cm_def split: if_splits\<close>)
next
  case FileTick
  then show ?thesis using s r by (auto simp: file_tick_def keeps_in_def)
qed

text \<open>
  A machine that takes files one way only gives none away: while the option is on, a connection that
  has no transfer to the peer under way never sends a block of a file to the peer and never asks the
  connection manager to read, remove, rename or create anything for it, whatever the peer and the
  manager do; messages the manager hands over ready made are taken not to be blocks.
\<close>

theorem one_way_sends_no_file:
  assumes "nf_read_jobs c = []" "nf_cm_read_job_ids c = {}" and "conn_run es c = Some c'"
    and "\<forall>(env, e) \<in> set es. ne_one_way env = ''Y'' \<and> (\<forall>b. e \<noteq> Answer (Raw (MsgBlock b)))"
  shows "\<exists>ms rs. nf_sent c' = nf_sent c @ ms \<and> nf_to_cm c' = nf_to_cm c @ rs
    \<and> (\<forall>m \<in> set ms. \<not> is_block m) \<and> (\<forall>r \<in> set rs. \<not> is_outward r)"
proof -
  have "keeps_in c c'" using assms
  proof (induction es arbitrary: c)
    case Nil
    then show ?case by (auto simp: keeps_in_def)
  next
    case (Cons x es)
    obtain env e where x: "x = (env, e)" by fastforce
    obtain c1 where s: "conn_step env e c = Some c1" "conn_run es c1 = Some c'"
      using Cons.prems(3) by (auto simp: x bind_eq_Some_conv)
    have o: "ne_one_way env = ''Y''" and b: "\<And>m. e = Answer (Raw m) \<Longrightarrow> \<not> is_block m"
      using Cons.prems(4) by (auto simp: x elim: is_block.elims)
    have k: "keeps_in c c1" by (rule one_way_step [OF Cons.prems(1,2) o b s(1)])
    then have "nf_read_jobs c1 = []" "nf_cm_read_job_ids c1 = {}" by (simp_all add: keeps_in_def)
    from Cons.IH [OF this s(2)] Cons.prems(4) have "keeps_in c1 c'" by simp
    with k show ?case by (rule keeps_in_trans)
  qed
  then show ?thesis by (simp add: keeps_in_def)
qed

theorem one_way_sends_no_file_witness:
  "\<exists>c' ms rs. conn_run [(conn_demo_env\<lparr>ne_one_way := ''Y''\<rparr>, Action (FaSend 9 ''/s'' False 0 Generic)),
       (conn_demo_env\<lparr>ne_one_way := ''Y''\<rparr>, FileTick)] (conn_demo\<lparr>nf_cm_read_job_ids := {}\<rparr>) = Some c'
    \<and> nf_sent c' = ms \<and> nf_to_cm c' = rs \<and> (\<forall>m \<in> set ms. \<not> is_block m) \<and> (\<forall>r \<in> set rs. \<not> is_outward r)"
proof -
  let ?c = "conn_demo\<lparr>nf_cm_read_job_ids := {}\<rparr>" and ?env = "conn_demo_env\<lparr>ne_one_way := ''Y''\<rparr>"
  let ?es = "[(?env, Action (FaSend 9 ''/s'' False 0 Generic)), (?env, FileTick)]"
  obtain c' where r: "conn_run ?es ?c = Some c'" by (simp add: on_file_action_def conn_demo_def handles_action_def)
  have h: "nf_read_jobs ?c = []" "nf_cm_read_job_ids ?c = {}" "nf_sent ?c = []" "nf_to_cm ?c = []" by (simp_all add: conn_demo_def)
  from one_way_sends_no_file [OF h(1,2) r] r h(3,4) show ?thesis by (auto simp: conn_demo_env_def)
qed

text \<open>
  The log of removals: a directory is meant to take the place of the files removed in it, but the parent
  and the child are exchanged in the test for files, so that the files stay listed; for directories it
  works.
\<close>

lemma removed_files_stay_listed:
  "rl_removed_files (fst (on_remove_dir 1 \<lparr>rd_id = 2, rd_path = ''/a'', rd_recursive = True\<rparr>
     (fst (on_remove_file 0 \<lparr>rf_id = 1, rf_path = ''/a/f'', rf_file_num = 0\<rparr> (remove_log_new 0 7))))) \<noteq> []"
  "rl_removed_dirs (fst (on_remove_dir 1 \<lparr>rd_id = 2, rd_path = ''/a'', rd_recursive = True\<rparr>
     (fst (on_remove_dir 0 \<lparr>rd_id = 1, rd_path = ''/a/d'', rd_recursive = True\<rparr> (remove_log_new 0 7)))))
   = [\<lparr>rd_id = 2, rd_path = ''/a'', rd_recursive = True\<rparr>]"
  by code_simp+

end
