(* ===== verification/Transfer_Exchange.thy ===== *)
theory Transfer_Exchange
  imports Transfer_Run
begin

text \<open>
  A whole transfer from the served side to the client, with overwrite detection as the call sites switch
  it on for peers from 1.1.10 on, or without it: the rounds of the sender, the messages at the client
  (\<open>src/client/io_loop.rs\<close>), the confirmations that go back (\<open>src/server/connection.rs\<close>) and the answers
  of the user who is asked whether to overwrite a file, in any order. The messages of each direction
  arrive in the order in which they were sent.
\<close>

section \<open>The client\<close>

text \<open>A question to the user (\<open>override_file_confirm\<close>): the job, the file, its path, whether it is the same file.\<close>

type_synonym override_question = "i32 \<times> i32 \<times> string \<times> bool"

text \<open>What a handler leaves: the jobs that write, the confirmations it sends, the questions it asks.\<close>

type_synonym client_outcome = "transfer_job list \<times> send_confirm_request list \<times> override_question list"

definition confirm_request :: "i32 \<Rightarrow> i32 \<Rightarrow> confirm_union \<Rightarrow> send_confirm_request" where
  "confirm_request i n u = \<lparr>sc_id = i, sc_file_num = n, sc_union = Some u\<rparr>"

text \<open>Confirming in the own job and telling the peer.\<close>

definition confirm_both ::
  "transfer_env \<Rightarrow> send_confirm_request \<Rightarrow> transfer_job \<Rightarrow> transfer_job list \<Rightarrow> file_store \<Rightarrow> client_outcome option" where
  "confirm_both env req job jobs st = map_option (\<lambda>job. (put_job job jobs, [req], [])) (confirm env req job st)"

text \<open>
  The digest of a file that is to be written: a missing file is taken at once, one that can be resumed
  from where it ends, and about another one the strategy of the job decides, or the user. \<open>support\<close> is
  whether the peer can resume. A digest for a job that reads is not for this side.
\<close>

definition client_digest ::
  "transfer_env \<Rightarrow> bool \<Rightarrow> file_transfer_digest \<Rightarrow> transfer_job list \<Rightarrow> file_store \<Rightarrow> client_outcome option" where
  "client_digest env support digest jobs st =
     (case get_job (ft_id digest) jobs of
        None \<Rightarrow> Some (jobs, [], [])
      | Some job \<Rightarrow>
          if length (tj_files job) \<le> file_index (ft_file_num digest) then Some (jobs, [], [])
          else (case tj_data_source job of
            MemoryCursor _ \<Rightarrow> Some (jobs, [], [])
          | FilePath p \<Rightarrow>
              (let write_path = job_join p (fe_name (tj_files job ! file_index (ft_file_num digest)));
                   job = set_digest (ft_file_size digest) (ft_last_modified digest) job;
                   jobs = put_job job jobs in
               case is_write_need_confirmation env (support \<and> tj_is_resume job) write_path digest st of
                 Inl _ \<Rightarrow> Some (jobs, [], [])
               | Inr IsSame \<Rightarrow>
                   confirm_both env (confirm_request (ft_id digest) (ft_file_num digest) (Skip True)) job jobs st
               | Inr (NeedConfirm digest) \<Rightarrow>
                   (let resume = ft_is_identical digest \<and> tj_is_resume job \<and> 0 < ft_transferred_size digest;
                        overwrite_strategy = (if resume then Some True else tj_default_overwrite_strategy job);
                        offset = (if resume then ucast (ft_transferred_size digest) else 0 :: u32) in
                    case overwrite_strategy of
                      Some over \<Rightarrow>
                        confirm_both env (confirm_request (ft_id digest) (ft_file_num digest)
                          (if over then OffsetBlk offset else Skip True)) job jobs st
                    | None \<Rightarrow>
                        Some (jobs, [], [(ft_id digest, ft_file_num digest, write_path, ft_is_identical digest)]))
               | Inr NoSuchFile \<Rightarrow>
                   confirm_both env (confirm_request (ft_id digest) (ft_file_num digest) (OffsetBlk 0)) job jobs st)))"

definition client_message ::
  "transfer_env \<Rightarrow> bool \<Rightarrow> file_message \<Rightarrow> transfer_job list \<Rightarrow> file_store
    \<Rightarrow> (transfer_job list \<times> file_store \<times> send_confirm_request list \<times> override_question list) option" where
  "client_message env support m jobs st =
     (case m of
        MsgDigest digest \<Rightarrow>
          if ft_is_upload digest then Some (jobs, st, [], [])
          else map_option (\<lambda>(jobs, reqs, questions). (jobs, st, reqs, questions)) (client_digest env support digest jobs st)
      | _ \<Rightarrow> (case receive_message env m (jobs, st) of (jobs, st) \<Rightarrow> Some (jobs, st, [], [])))"

text \<open>The user's answer (\<open>SetConfirmOverrideFile\<close>) about a file to be written.\<close>

definition set_confirm_override_file ::
  "transfer_env \<Rightarrow> i32 \<Rightarrow> i32 \<Rightarrow> bool \<Rightarrow> bool \<Rightarrow> transfer_job list \<Rightarrow> file_store
    \<Rightarrow> (transfer_job list \<times> send_confirm_request list) option" where
  "set_confirm_override_file env i file_num need_override remember jobs st =
     (case get_job i jobs of
        None \<Rightarrow> Some (jobs, [])
      | Some job \<Rightarrow>
          (let job = (if remember then set_overwrite_strategy (Some need_override) job else job);
               req = confirm_request i file_num (if need_override then OffsetBlk 0 else Skip True)
           in map_option (\<lambda>job. (put_job job jobs, [req])) (confirm env req job st)))"

section \<open>The served side\<close>

text \<open>A confirmation goes to the reading job of its id; without one it is handed on to the connection manager.\<close>

definition server_confirm ::
  "transfer_env \<Rightarrow> send_confirm_request \<Rightarrow> transfer_job list \<Rightarrow> file_store \<Rightarrow> transfer_job list option" where
  "server_confirm env req jobs st =
     (case get_job (sc_id req) jobs of
        None \<Rightarrow> Some jobs
      | Some job \<Rightarrow> map_option (\<lambda>job. put_job job jobs) (confirm env req job st))"

section \<open>The exchange\<close>

text \<open>The jobs of both sides, the client's files, what is under way in each direction, the open questions.\<close>

record exchange =
  ex_reads :: "transfer_job list"
  ex_writes :: "transfer_job list"
  ex_store :: file_store
  ex_to_client :: "file_message list"
  ex_to_server :: "send_confirm_request list"
  ex_questions :: "override_question list"

text \<open>
  What can happen next: a round of the sender, the next message at either side, the user's answer to the
  first question (to overwrite or not, and whether to remember it).
\<close>

datatype exchange_event = SenderRound | ClientMessage | ServerMessage | UserAnswer bool bool

text \<open>The sender's files \<open>st\<close> do not change. \<open>None\<close> is a panic.\<close>

definition exchange_step ::
  "transfer_env \<Rightarrow> transfer_env \<Rightarrow> file_store \<Rightarrow> bool \<Rightarrow> exchange_event \<Rightarrow> exchange \<Rightarrow> exchange option" where
  "exchange_step senv renv st support e x =
     (case e of
        SenderRound \<Rightarrow>
          (case handle_read_jobs senv (ex_reads x) st of
             (jobs, ms, _) \<Rightarrow> Some (x\<lparr>ex_reads := jobs, ex_to_client := ex_to_client x @ ms\<rparr>))
      | ClientMessage \<Rightarrow>
          (case ex_to_client x of
             [] \<Rightarrow> Some x
           | m # ms \<Rightarrow>
               map_option (\<lambda>(jobs, store, reqs, questions).
                   x\<lparr>ex_writes := jobs, ex_store := store, ex_to_client := ms,
                     ex_to_server := ex_to_server x @ reqs, ex_questions := ex_questions x @ questions\<rparr>)
                 (client_message renv support m (ex_writes x) (ex_store x)))
      | ServerMessage \<Rightarrow>
          (case ex_to_server x of
             [] \<Rightarrow> Some x
           | req # reqs \<Rightarrow>
               map_option (\<lambda>jobs. x\<lparr>ex_reads := jobs, ex_to_server := reqs\<rparr>) (server_confirm senv req (ex_reads x) st))
      | UserAnswer need_override remember \<Rightarrow>
          (case ex_questions x of
             [] \<Rightarrow> Some x
           | (i, file_num, _, _) # questions \<Rightarrow>
               map_option (\<lambda>(jobs, reqs).
                   x\<lparr>ex_writes := jobs, ex_to_server := ex_to_server x @ reqs, ex_questions := questions\<rparr>)
                 (set_confirm_override_file renv i file_num need_override remember (ex_writes x) (ex_store x))))"

fun exchange_run ::
  "transfer_env \<Rightarrow> transfer_env \<Rightarrow> file_store \<Rightarrow> bool \<Rightarrow> exchange_event list \<Rightarrow> exchange \<Rightarrow> exchange option" where
  "exchange_run senv renv st support [] x = Some x"
| "exchange_run senv renv st support (e # es) x =
     Option.bind (exchange_step senv renv st support e x) (exchange_run senv renv st support es)"

definition exchange_start :: "transfer_job \<Rightarrow> transfer_job \<Rightarrow> file_store \<Rightarrow> exchange" where
  "exchange_start s r store =
     \<lparr>ex_reads = [s], ex_writes = [r], ex_store = store, ex_to_client = [], ex_to_server = [], ex_questions = []\<rparr>"

lemma exchange_run_append:
  "exchange_run senv renv st support (es @ es') x =
    Option.bind (exchange_run senv renv st support es x) (exchange_run senv renv st support es')"
  by (induction es arbitrary: x) (simp_all split: bind_splits)

text \<open>The user says yes to every question.\<close>

definition yes :: "exchange_event \<Rightarrow> bool" where
  "yes e \<longleftrightarrow> (\<forall>remember. e \<noteq> UserAnswer False remember)"

lemma yes_simps [simp]:
  "yes SenderRound" "yes ClientMessage" "yes ServerMessage" "yes (UserAnswer b remember) \<longleftrightarrow> b"
  by (cases b; simp add: yes_def)+

section \<open>The sender between two files\<close>

definition at_rest :: "transfer_job \<Rightarrow> string \<Rightarrow> nat \<Rightarrow> transfer_job \<Rightarrow> bool" where
  "at_rest s p k job \<longleftrightarrow>
     tj_id job = tj_id s \<and> tj_files job = tj_files s \<and> tj_data_source job = FilePath p \<and> tj_type job = Generic
     \<and> tj_is_last_job job = False \<and> tj_file_skipped job = False
     \<and> tj_enable_overwrite_detection job = tj_enable_overwrite_detection s
     \<and> tj_file_num job = of_nat k"

text \<open>Before file \<open>k\<close>, and waiting for its confirmation.\<close>

definition ready :: "transfer_job \<Rightarrow> string \<Rightarrow> nat \<Rightarrow> transfer_job \<Rightarrow> bool" where
  "ready s p k job \<longleftrightarrow> at_rest s p k job \<and> tj_data_stream job = None \<and> \<not> tj_file_confirmed job \<and> \<not> tj_file_is_waiting job"

definition waiting :: "transfer_job \<Rightarrow> file_store \<Rightarrow> string \<Rightarrow> nat \<Rightarrow> transfer_job \<Rightarrow> bool" where
  "waiting s st p k job \<longleftrightarrow> at_rest s p k job \<and> k < length (tj_files s) \<and> tj_enable_overwrite_detection s
     \<and> \<not> tj_file_confirmed job \<and> tj_file_is_waiting job
     \<and> (\<exists>n. st_names st (target s p k) = Some n \<and> tj_data_stream job = Some (FileStream ReadOnly n 0))"

lemma ready_after_file: "after_file s st p k job \<Longrightarrow> ready s p (Suc k) job"
  by (simp add: after_file_def ready_def at_rest_def)

lemma ready_sending: "ready s p k job \<Longrightarrow> \<not> tj_enable_overwrite_detection s \<Longrightarrow> sending s st p k 0 job"
  by (simp add: ready_def at_rest_def sending_def)

text \<open>Rounds there: the digest of the file, nothing while waiting, the end of the job.\<close>

lemma round_digest:
  assumes env: "env_calm env" and s: "ready s p k job" and h: "holds_files st s p contents"
    and k: "k < length (tj_files s)" and len: "length (tj_files s) < 2 ^ 31" and d: "tj_enable_overwrite_detection s"
  shows "\<exists>job' digest. handle_read_jobs env [job] st = ([job'], [MsgDigest digest], None) \<and> waiting s st p k job'
    \<and> ft_id digest = tj_id s \<and> ft_file_num digest = of_nat k \<and> \<not> ft_is_upload digest"
proof -
  obtain n f where n: "st_names st (target s p k) = Some n" "st_nodes st n = Some f" by (rule holds_filesD [OF h k])
  have fi: "file_index (of_nat k) = k" using k len by (simp add: file_index_of_nat)
  show ?thesis
    using assms n fi
    by (simp add: handle_read_jobs_def init_data_stream_def open_data_stream_def wants_confirmation_def get_current_digest_def
        job_read_def job_completed_def ready_def at_rest_def waiting_def set_file_is_waiting_def target_def Let_def)
qed

lemma round_waiting:
  assumes s: "waiting s st p k job" and len: "length (tj_files s) < 2 ^ 31"
  shows "handle_read_jobs env [job] st = ([job], [], None)"
proof -
  have "file_index (of_nat k) = k" using s len by (simp add: waiting_def file_index_of_nat)
  then show ?thesis
    using s by (auto simp: handle_read_jobs_def init_data_stream_def open_data_stream_def wants_confirmation_def
        job_read_def job_completed_def at_rest_def waiting_def Let_def)
qed

lemma round_done:
  assumes s: "ready s p (length (tj_files s)) job" and len: "length (tj_files s) < 2 ^ 31"
  shows "\<exists>log. handle_read_jobs env [job] st = ([], [MsgDone (tj_id s) (of_nat (length (tj_files s)))], log)"
proof -
  have "file_index (of_nat (length (tj_files s))) = length (tj_files s)" using len by (simp add: file_index_of_nat)
  then show ?thesis
    using s by (simp add: handle_read_jobs_def init_data_stream_def open_data_stream_def job_read_def
        job_completed_def job_error_def job_skipped_def ready_def at_rest_def Let_def)
qed

lemma confirmed_sending:
  assumes s: "waiting s st p k job" and len: "length (tj_files s) < 2 ^ 31"
  shows "\<exists>job'. server_confirm env (confirm_request (tj_id s) (of_nat k) (OffsetBlk 0)) [job] st = Some [job'] \<and> sending s st p k 0 job'"
  using s by (auto simp: server_confirm_def get_job_def confirm_def confirm_request_def waiting_def at_rest_def
      set_file_confirmed_def sending_def target_def)

section \<open>The client during a transfer\<close>

text \<open>A job that does not resume and has not been told to keep files.\<close>

definition takes_over :: "transfer_job \<Rightarrow> bool" where
  "takes_over job \<longleftrightarrow> \<not> tj_is_resume job \<and> tj_default_overwrite_strategy job \<noteq> Some False"

lemma begin_file_keeps:
  "begin_file env p n job st = (res, job', st') \<Longrightarrow>
    takes_over job' = takes_over job \<and> (\<forall>j. res = Inr j \<longrightarrow> takes_over j = takes_over job)"
  unfolding begin_file_def by (auto simp: Let_def takes_over_def split: if_splits prod.splits)

lemma write_data_keeps: "write_data env b job st = (res, job', st') \<Longrightarrow> takes_over job' = takes_over job"
  unfolding write_data_def by (auto simp: Let_def takes_over_def split: option.splits sum.splits prod.splits)

lemma job_write_keeps:
  assumes "job_write env b job st = (res, job', st')"
  shows "takes_over job' = takes_over job"
proof (cases "tj_data_source job")
  case (FilePath p)
  obtain res1 job1 st1 where b: "begin_file env p (fb_file_num b) job st = (res1, job1, st1)"
    by (cases "begin_file env p (fb_file_num b) job st") auto
  show ?thesis
    using assms FilePath b begin_file_keeps [OF b] write_data_keeps
    by (auto simp: job_write_def split: if_splits sum.splits)
next
  case (MemoryCursor c)
  with assms show ?thesis
    by (auto simp: job_write_def takes_over_def dest!: write_data_keeps split: if_splits)
qed

lemma set_put_job: "set (put_job job jobs) \<subseteq> insert job (set jobs)"
  by (induction jobs) auto

lemma set_remove_job: "set (snd (remove_job i jobs)) \<subseteq> set jobs"
  by (induction jobs) (auto split: prod.splits)

lemma receive_keeps:
  assumes "\<forall>job\<in>set jobs. takes_over job" "receive_message env m (jobs, st) = (jobs', st')"
  shows "\<forall>job\<in>set jobs'. takes_over job"
proof (cases m)
  case (MsgBlock b)
  show ?thesis
  proof (cases "get_job (fb_id b) jobs")
    case None
    then show ?thesis using assms MsgBlock by (simp add: receive_message_def)
  next
    case (Some job)
    obtain res job' st1 where w: "job_write env b job st = (res, job', st1)" by (cases "job_write env b job st") auto
    have "job \<in> set jobs" using Some by (auto simp: get_job_def find_Some_iff)
    moreover have "jobs' = put_job job' jobs" using assms(2) MsgBlock Some w by (simp add: receive_message_def)
    ultimately show ?thesis using assms(1) job_write_keeps [OF w] set_put_job by blast
  qed
next
  case (MsgDone i n)
  then have "jobs' = snd (remove_job i jobs)"
    using assms(2) by (auto simp: receive_message_def split: prod.splits option.splits)
  then show ?thesis using assms(1) set_remove_job by blast
qed (use assms in \<open>simp_all add: receive_message_def\<close>)

lemma receive_nothing: "fold (receive_message env) ms ([], st) = ([], st)"
  by (induction ms) (simp_all add: receive_message_def get_job_def split: file_message.splits)

text \<open>What a digest and an answer change in a job does not matter for what it is about to write.\<close>

lemma before_file_cong:
  assumes "before_file env r q contents st0 k job st"
    and "tj_id job' = tj_id job" "tj_type job' = tj_type job" "tj_data_source job' = tj_data_source job"
    "tj_files job' = tj_files job" "tj_file_num job' = tj_file_num job" "tj_data_stream job' = tj_data_stream job"
  shows "before_file env r q contents st0 k job' st"
proof -
  have "current_entry job' = current_entry job" unfolding current_entry_def assms(2-) ..
  then have "modify_time env job' st = modify_time env job st" by (simp add: modify_time_def)
  then show ?thesis using assms by (simp add: before_file_def same_job_def)
qed

lemma confirm_from_start:
  "confirm env (confirm_request i n (OffsetBlk 0)) job st = Some (if tj_file_num job = n then set_file_confirmed True job else job)"
  by (simp add: confirm_def confirm_request_def)

lemma need_confirmation_without_resume:
  assumes "env_calm env"
  obtains "is_write_need_confirmation env False path digest st = Inr NoSuchFile"
  | digest' where "is_write_need_confirmation env False path digest st = Inr (NeedConfirm digest')"
      "ft_id digest' = ft_id digest" "ft_file_num digest' = ft_file_num digest"
  using assms by (cases "st_file st path") (auto simp: is_write_need_confirmation_def resumable_def)

lemma client_takes_file:
  assumes env: "env_calm env" and b: "before_file env r q contents st0 k job st" and c: "takes_over job"
    and k: "k < length (tj_files r)" and len: "length (tj_files r) < 2 ^ 31"
    and d: "ft_id digest = tj_id r" "ft_file_num digest = of_nat k"
  shows "\<exists>job' reqs qs. client_digest env support digest [job] st = Some ([job'], reqs, qs)
    \<and> before_file env r q contents st0 k job' st \<and> takes_over job'
    \<and> (reqs = [confirm_request (tj_id r) (of_nat k) (OffsetBlk 0)] \<and> qs = []
       \<or> reqs = [] \<and> (\<exists>path same. qs = [(tj_id r, of_nat k, path, same)]))"
proof -
  have fi: "file_index (of_nat k) = k" using k len by (simp add: file_index_of_nat)
  have j: "tj_id job = tj_id r" "tj_files job = tj_files r" "tj_data_source job = FilePath q" "\<not> tj_is_resume job"
    using b c by (simp_all add: before_file_def same_job_def takes_over_def)
  let ?job = "set_digest (ft_file_size digest) (ft_last_modified digest) job"
  let ?path = "job_join q (fe_name (tj_files r ! k))"
  define job' where "job' = (if tj_file_num job = of_nat k then set_file_confirmed True ?job else ?job)"
  have b1: "before_file env r q contents st0 k ?job st" "before_file env r q contents st0 k job' st"
    by (rule before_file_cong [OF b]; simp add: set_digest_def job'_def set_file_confirmed_def)+
  have c1: "takes_over ?job" "takes_over job'" using c by (simp_all add: takes_over_def set_digest_def job'_def set_file_confirmed_def)
  have cb: "confirm_both env (confirm_request (tj_id r) (of_nat k) (OffsetBlk 0)) ?job [?job] st =
      Some ([job'], [confirm_request (tj_id r) (of_nat k) (OffsetBlk 0)], [])"
  proof -
    have n: "tj_file_num ?job = tj_file_num job" by (simp add: set_digest_def)
    have i: "tj_id ?job = tj_id job'" by (simp add: job'_def set_digest_def set_file_confirmed_def)
    have "confirm env (confirm_request (tj_id r) (of_nat k) (OffsetBlk 0)) ?job st = Some job'"
      unfolding confirm_from_start job'_def n ..
    then show ?thesis unfolding confirm_both_def by (simp add: i)
  qed
  have dg: "client_digest env support digest [job] st =
     (case is_write_need_confirmation env False ?path digest st of
        Inl _ \<Rightarrow> Some ([?job], [], [])
      | Inr IsSame \<Rightarrow> confirm_both env (confirm_request (ft_id digest) (ft_file_num digest) (Skip True)) ?job [?job] st
      | Inr (NeedConfirm digest) \<Rightarrow>
          (case tj_default_overwrite_strategy job of
             Some over \<Rightarrow> confirm_both env (confirm_request (ft_id digest) (ft_file_num digest) (if over then OffsetBlk 0 else Skip True)) ?job [?job] st
           | None \<Rightarrow> Some ([?job], [], [(ft_id digest, ft_file_num digest, ?path, ft_is_identical digest)]))
      | Inr NoSuchFile \<Rightarrow> confirm_both env (confirm_request (ft_id digest) (ft_file_num digest) (OffsetBlk 0)) ?job [?job] st)"
  proof -
    have g: "get_job (ft_id digest) [job] = Some job" "\<not> length (tj_files job) \<le> file_index (ft_file_num digest)"
      using j d fi k by (simp_all add: get_job_def)
    have p: "put_job ?job [job] = [?job]" "tj_is_resume ?job = False" "tj_default_overwrite_strategy ?job = tj_default_overwrite_strategy job"
      using j by (simp_all add: set_digest_def)
    show ?thesis
      unfolding client_digest_def g(1) option.case g(2) if_False j(3) data_source.case Let_def p j(2) d(2) fi
      unfolding simp_thms if_False using k by simp
  qed
  show ?thesis
  proof (rule need_confirmation_without_resume [OF env, of ?path digest st])
    assume "is_write_need_confirmation env False ?path digest st = Inr NoSuchFile"
    then show ?thesis using dg cb d b1(2) c1(2) by simp
  next
    fix digest' assume n: "is_write_need_confirmation env False ?path digest st = Inr (NeedConfirm digest')"
      "ft_id digest' = ft_id digest" "ft_file_num digest' = ft_file_num digest"
    show ?thesis
    proof (cases "tj_default_overwrite_strategy job")
      case None
      then show ?thesis using dg n d b1(1) c1(1) by simp
    next
      case (Some over)
      then have "over" using c by (simp add: takes_over_def)
      then show ?thesis using dg n Some cb d b1(2) c1(2) by simp
    qed
  qed
qed

lemma client_answers_yes:
  assumes b: "before_file env r q contents st0 k job st" and c: "takes_over job"
  shows "\<exists>job'. set_confirm_override_file env (tj_id r) (of_nat k) True remember [job] st =
      Some ([job'], [confirm_request (tj_id r) (of_nat k) (OffsetBlk 0)])
    \<and> before_file env r q contents st0 k job' st \<and> takes_over job'"
proof -
  have j: "tj_id job = tj_id r" using b by (simp add: before_file_def same_job_def)
  define job1 where "job1 = (if remember then set_overwrite_strategy (Some True) job else job)"
  define job2 where "job2 = (if tj_file_num job1 = of_nat k then set_file_confirmed True job1 else job1)"
  have "set_confirm_override_file env (tj_id r) (of_nat k) True remember [job] st =
      Some ([job2], [confirm_request (tj_id r) (of_nat k) (OffsetBlk 0)])"
    using j by (simp add: set_confirm_override_file_def get_job_def confirm_from_start job1_def job2_def Let_def
        set_overwrite_strategy_def set_file_confirmed_def)
  moreover have "before_file env r q contents st0 k job2 st"
    by (rule before_file_cong [OF b]) (simp_all add: job1_def job2_def set_overwrite_strategy_def set_file_confirmed_def)
  moreover have "takes_over job2"
    using c by (simp add: takes_over_def job1_def job2_def set_overwrite_strategy_def set_file_confirmed_def)
  ultimately show ?thesis by blast
qed

section \<open>How far an exchange is\<close>

text \<open>What a transfer needs: a source with these contents, and a job to write them that has the same files.\<close>

definition setting ::
  "transfer_env \<Rightarrow> transfer_env \<Rightarrow> transfer_job \<Rightarrow> file_store \<Rightarrow> string \<Rightarrow> transfer_job \<Rightarrow> string \<Rightarrow> bytes list \<Rightarrow> bool" where
  "setting senv renv s st p r q contents \<longleftrightarrow>
     env_calm senv \<and> env_calm renv \<and> (\<forall>v. xe_decompress renv (xe_compress senv v) = v)
     \<and> holds_files st s p contents \<and> length (tj_files s) < 2 ^ 31 \<and> separate_targets r q
     \<and> tj_files r = tj_files s \<and> tj_id r = tj_id s"

text \<open>The client's job and files when these blocks, which are under way, have been handled.\<close>

definition handled ::
  "transfer_env \<Rightarrow> file_message list \<Rightarrow> exchange \<Rightarrow> transfer_job \<Rightarrow> file_store \<Rightarrow> bool" where
  "handled env ms x job st \<longleftrightarrow> (\<forall>m\<in>set ms. \<exists>b. m = MsgBlock b)
     \<and> fold (receive_message env) ms (ex_writes x, ex_store x) = ([job], st)"

definition quiet :: "exchange \<Rightarrow> bool" where
  "quiet x \<longleftrightarrow> ex_to_server x = [] \<and> ex_questions x = []"

text \<open>
  The sender reads a file, is about to go to the next one or waits, and the client will have everything
  before that as soon as it has handled what is under way.
\<close>

inductive exchanging ::
  "transfer_env \<Rightarrow> transfer_job \<Rightarrow> file_store \<Rightarrow> string \<Rightarrow> transfer_job \<Rightarrow> string \<Rightarrow> bytes list \<Rightarrow> file_store \<Rightarrow> exchange \<Rightarrow> bool"
  for renv s st p r q contents st0 where
  Sends: "\<lbrakk>ex_reads x = [sj]; sending s st p k pos sj; k < length (tj_files s); pos \<le> length (contents ! k);
      handled renv (ex_to_client x) x rj rs;
      if pos = 0 then before_file renv r q contents st0 k rj rs else in_file r q contents st0 k (take pos (contents ! k)) rj rs;
      quiet x\<rbrakk> \<Longrightarrow> exchanging renv s st p r q contents st0 x"
| Ready: "\<lbrakk>ex_reads x = [sj]; ready s p k sj; k \<le> length (tj_files s); handled renv (ex_to_client x) x rj rs;
      before_file renv r q contents st0 k rj rs; quiet x\<rbrakk> \<Longrightarrow> exchanging renv s st p r q contents st0 x"
| Waits: "\<lbrakk>ex_reads x = [sj]; waiting s st p k sj; ex_to_client x = ms @ [MsgDigest digest];
      ft_id digest = tj_id s; ft_file_num digest = of_nat k; \<not> ft_is_upload digest; handled renv ms x rj rs;
      before_file renv r q contents st0 k rj rs; quiet x\<rbrakk> \<Longrightarrow> exchanging renv s st p r q contents st0 x"
| Asks: "\<lbrakk>ex_reads x = [sj]; waiting s st p k sj; ex_to_client x = []; ex_writes x = [rj];
      before_file renv r q contents st0 k rj (ex_store x);
      ex_to_server x = []; ex_questions x = [(tj_id s, of_nat k, path, same)]\<rbrakk> \<Longrightarrow> exchanging renv s st p r q contents st0 x"
| Confirms: "\<lbrakk>ex_reads x = [sj]; waiting s st p k sj; ex_to_client x = []; ex_writes x = [rj];
      before_file renv r q contents st0 k rj (ex_store x);
      ex_to_server x = [confirm_request (tj_id s) (of_nat k) (OffsetBlk 0)]; ex_questions x = []\<rbrakk>
      \<Longrightarrow> exchanging renv s st p r q contents st0 x"
| Ends: "\<lbrakk>ex_reads x = []; ex_to_client x = ms @ [MsgDone (tj_id s) n]; handled renv ms x rj rs;
      before_file renv r q contents st0 (length (tj_files s)) rj rs; quiet x\<rbrakk> \<Longrightarrow> exchanging renv s st p r q contents st0 x"
| Over: "\<lbrakk>ex_reads x = []; ex_writes x = []; ex_to_client x = []; arrived r q contents st0 (length (tj_files s)) (ex_store x);
      quiet x\<rbrakk> \<Longrightarrow> exchanging renv s st p r q contents st0 x"

definition all_take_over :: "exchange \<Rightarrow> bool" where
  "all_take_over x \<longleftrightarrow> (\<forall>job\<in>set (ex_writes x). takes_over job)"

lemma handled_snoc:
  "handled env ms x job st \<Longrightarrow> receive_message env (MsgBlock b) ([job], st) = ([job'], st') \<Longrightarrow>
    handled env (ms @ [MsgBlock b]) x job' st'"
  by (simp add: handled_def)

lemma handled_frame:
  "ex_writes x' = ex_writes x \<Longrightarrow> ex_store x' = ex_store x \<Longrightarrow> handled env ms x' job st = handled env ms x job st"
  by (simp add: handled_def)

lemma not_handled: "handled env ms x job st \<Longrightarrow> ex_writes x \<noteq> []"
  by (auto simp: handled_def receive_nothing)

section \<open>Every step leads on\<close>

text \<open>A round that reads a chunk.\<close>

lemma chunk_step:
  assumes set: "setting senv renv s st p r q contents" and x: "ex_reads x = [sj]" "sending s st p k pos sj"
    and k: "k < length (tj_files s)" and pos: "pos \<le> length (contents ! k)"
    and hd: "handled renv (ex_to_client x) x rj rs"
    and at: "if pos = 0 then before_file renv r q contents st0 k rj rs else in_file r q contents st0 k (take pos (contents ! k)) rj rs"
    and quiet: "quiet x"
  shows "\<exists>sj' m. handle_read_jobs senv [sj] st = ([sj'], [m], None)
    \<and> exchanging renv s st p r q contents st0 (x\<lparr>ex_reads := [sj'], ex_to_client := ex_to_client x @ [m]\<rparr>)
    \<and> (ready s p (Suc k) sj' \<or> (\<exists>pos'. pos < pos' \<and> pos' \<le> length (contents ! k) \<and> sending s st p k pos' sj'))"
proof -
  note set' = set [unfolded setting_def]
  let ?v = "take BUF_SIZE (drop pos (contents ! k))"
  let ?m = "MsgBlock (block_of senv (job_name p s k) (tj_id s) (of_nat k) ?v)"
  obtain sj' where h: "handle_read_jobs senv [sj] st = ([sj'], [?m], None)"
      and sj': "if ?v = [] then after_file s st p k sj' else sending s st p k (pos + length ?v) sj'"
    using round_chunk [OF _ x(2) _ k _ refl, of senv contents] set' by blast
  have kr: "k < length (tj_files r)" and len: "length (tj_files r) < 2 ^ 31" and ids: "tj_id s = tj_id r"
    using set' k by simp_all
  have env: "env_calm renv" and sep: "separate_targets r q" and comp: "\<And>v. xe_decompress renv (xe_compress senv v) = v"
    using set' by blast+
  obtain rj' rs' where rc: "receive_message renv ?m ([rj], rs) = ([rj'], rs')"
      and i: "in_file r q contents st0 k (take pos (contents ! k) @ ?v) rj' rs'"
  proof (cases "pos = 0")
    case True
    then have b: "before_file renv r q contents st0 k rj rs" using at by simp
    show ?thesis
      using receive_first [OF env kr len sep comp b, of "job_name p s k" ?v] that unfolding True ids by auto
  next
    case False
    then have b: "in_file r q contents st0 k (take pos (contents ! k)) rj rs" using at by simp
    show ?thesis
      using receive_next [OF env kr len sep comp b, of "job_name p s k" ?v] that unfolding ids by blast
  qed
  have t: "take pos (contents ! k) @ ?v = take (pos + length ?v) (contents ! k)"
    by (cases "length (contents ! k) - pos \<le> BUF_SIZE") (simp_all add: take_add)
  let ?x = "x\<lparr>ex_reads := [sj'], ex_to_client := ex_to_client x @ [?m]\<rparr>"
  have hd': "handled renv (ex_to_client ?x) ?x rj' rs'"
    using handled_snoc [OF hd rc] by (simp add: handled_def)
  have q': "quiet ?x" using quiet by (simp add: quiet_def)
  show ?thesis
  proof (cases "?v = []")
    case True
    then have "take pos (contents ! k) = contents ! k" using pos by (simp add: BUF_SIZE_def)
    with True i have "in_file r q contents st0 k (contents ! k) rj' rs'" by simp
    from finish_file(2) [OF _ this kr len] have "before_file renv r q contents st0 (Suc k) rj' rs'" using set' by blast
    moreover have rd: "ready s p (Suc k) sj'" using True sj' ready_after_file by simp
    ultimately have "exchanging renv s st p r q contents st0 ?x" using hd' q' k by (auto intro: exchanging.Ready)
    with h rd show ?thesis by blast
  next
    case False
    then have s2: "sending s st p k (pos + length ?v) sj'" using sj' by simp
    have pos': "pos < pos + length ?v" "pos + length ?v \<le> length (contents ! k)"
    proof -
      have "0 < length ?v" using False by (simp only: length_greater_0_conv not_False_eq_True)
      then show "pos < pos + length ?v" by linarith
      show "pos + length ?v \<le> length (contents ! k)" using pos by simp
    qed
    have "pos + length ?v \<noteq> 0" using pos'(1) by linarith
    with i have "if pos + length ?v = 0 then before_file renv r q contents st0 k rj' rs'
        else in_file r q contents st0 k (take (pos + length ?v) (contents ! k)) rj' rs'"
      unfolding t by (simp only: if_False)
    then have "exchanging renv s st p r q contents st0 ?x"
      by (rule exchanging.Sends [OF _ s2 k pos'(2) hd' _ q', rotated]) simp
    with h s2 pos' show ?thesis by blast
  qed
qed

lemma same_reads: "ex_reads x = jobs \<Longrightarrow> x\<lparr>ex_reads := jobs\<rparr> = x"
  by (cases x) simp

lemma sender_step:
  assumes set: "setting senv renv s st p r q contents" and x: "exchanging renv s st p r q contents st0 x"
  shows "\<exists>x'. exchange_step senv renv st support SenderRound x = Some x' \<and> exchanging renv s st p r q contents st0 x'
    \<and> ex_writes x' = ex_writes x"
proof -
  note set' = set [unfolded setting_def]
  have idle: "ex_reads x = [] \<Longrightarrow> ?thesis" using x by (simp add: exchange_step_def handle_read_jobs_def same_reads)
  have still: "ex_reads x = [sj] \<Longrightarrow> waiting s st p k sj \<Longrightarrow> ?thesis" for sj k
    using x set' round_waiting [of s st p k sj senv] by (simp add: exchange_step_def same_reads)
  from x show ?thesis
  proof cases
    case (Sends sj k pos rj rs)
    from chunk_step [OF set Sends] Sends(1) show ?thesis by (auto simp: exchange_step_def)
  next
    case (Ready sj k rj rs)
    consider "k = length (tj_files s)" | "k < length (tj_files s)" "tj_enable_overwrite_detection s"
      | "k < length (tj_files s)" "\<not> tj_enable_overwrite_detection s" using Ready(3) by linarith
    then show ?thesis
    proof cases
      case 1
      let ?m = "MsgDone (tj_id s) (of_nat (length (tj_files s)))"
      let ?x = "x\<lparr>ex_reads := [], ex_to_client := ex_to_client x @ [?m]\<rparr>"
      have "\<exists>log. handle_read_jobs senv [sj] st = ([], [?m], log)" using round_done [of s p sj senv st] Ready(2) 1 set' by simp
      moreover have "exchanging renv s st p r q contents st0 ?x"
        by (rule exchanging.Ends [of _ "ex_to_client x"]) (use Ready 1 in \<open>simp_all add: quiet_def handled_def\<close>)
      ultimately show ?thesis using Ready(1) by (auto simp: exchange_step_def)
    next
      case 2
      obtain sj' digest where h: "handle_read_jobs senv [sj] st = ([sj'], [MsgDigest digest], None)" "waiting s st p k sj'"
          "ft_id digest = tj_id s" "ft_file_num digest = of_nat k" "\<not> ft_is_upload digest"
        using round_digest [OF _ Ready(2) _ 2(1) _ 2(2), of senv st contents] set' by blast
      let ?x = "x\<lparr>ex_reads := [sj'], ex_to_client := ex_to_client x @ [MsgDigest digest]\<rparr>"
      have "exchanging renv s st p r q contents st0 ?x"
        by (rule exchanging.Waits [OF _ h(2) _ h(3-5)]) (use Ready in \<open>simp_all add: quiet_def handled_def\<close>)
      then show ?thesis using h(1) Ready(1) by (auto simp: exchange_step_def)
    next
      case 3
      have at: "if 0 = (0 :: nat) then before_file renv r q contents st0 k rj rs
          else in_file r q contents st0 k (take 0 (contents ! k)) rj rs" using Ready(5) by simp
      from chunk_step [OF set Ready(1) ready_sending [OF Ready(2) 3(2)] 3(1) _ Ready(4) at Ready(6)] Ready(1)
      show ?thesis by (auto simp: exchange_step_def)
    qed
  qed (use idle still in blast)+
qed

text \<open>The client handles a block, the digest that ends what is under way, or the end of the job.\<close>

definition after_message :: "exchange \<Rightarrow> file_message list \<Rightarrow> transfer_job list \<Rightarrow> file_store
    \<Rightarrow> send_confirm_request list \<Rightarrow> override_question list \<Rightarrow> exchange" where
  "after_message x ms jobs store reqs questions = x\<lparr>ex_writes := jobs, ex_store := store, ex_to_client := ms,
     ex_to_server := ex_to_server x @ reqs, ex_questions := ex_questions x @ questions\<rparr>"

lemma client_step_cons:
  assumes "ex_to_client x = m # ms" "client_message renv support m (ex_writes x) (ex_store x) = Some (jobs, store, reqs, questions)"
  shows "exchange_step senv renv st support ClientMessage x = Some (after_message x ms jobs store reqs questions)"
  using assms by (simp add: exchange_step_def after_message_def)

lemma client_block:
  assumes "handled renv (m # ms) x rj rs" "ex_to_client x = m # ms @ ms'"
  shows "\<exists>jobs store. exchange_step senv renv st support ClientMessage x = Some (after_message x (ms @ ms') jobs store [] [])
    \<and> receive_message renv m (ex_writes x, ex_store x) = (jobs, store)
    \<and> handled renv ms (after_message x (ms @ ms') jobs store [] []) rj rs"
proof -
  obtain jobs store where rc: "receive_message renv m (ex_writes x, ex_store x) = (jobs, store)"
    by (cases "receive_message renv m (ex_writes x, ex_store x)") auto
  obtain b where "m = MsgBlock b" using assms(1) by (auto simp: handled_def)
  with rc have "client_message renv support m (ex_writes x) (ex_store x) = Some (jobs, store, [], [])"
    by (simp add: client_message_def)
  moreover have "handled renv ms (after_message x (ms @ ms') jobs store [] []) rj rs"
    using assms(1) rc by (simp add: handled_def after_message_def)
  ultimately show ?thesis using client_step_cons [OF assms(2)] rc by blast
qed

lemma receive_all_take_over:
  assumes "all_take_over x" "receive_message renv m (ex_writes x, ex_store x) = (jobs, store)"
  shows "all_take_over (after_message x ms jobs store reqs questions)"
  using receive_keeps [OF _ assms(2)] assms(1) by (simp add: all_take_over_def after_message_def)

lemma client_digest_step:
  assumes set: "setting senv renv s st p r q contents" and t: "all_take_over x"
    and w: "ex_reads x = [sj]" "waiting s st p k sj" "ex_to_client x = [MsgDigest digest]"
      "ft_id digest = tj_id s" "ft_file_num digest = of_nat k" "\<not> ft_is_upload digest"
      "ex_writes x = [rj]" "before_file renv r q contents st0 k rj (ex_store x)" "quiet x"
  shows "\<exists>x'. exchange_step senv renv st support ClientMessage x = Some x' \<and> exchanging renv s st p r q contents st0 x'
    \<and> all_take_over x' \<and> ex_reads x' = [sj] \<and> ex_to_client x' = []"
proof -
  note set' = set [unfolded setting_def]
  have k: "k < length (tj_files r)" and len: "length (tj_files r) < 2 ^ 31" and ids: "tj_id r = tj_id s"
    using set' w(2) by (simp_all add: waiting_def)
  have tr: "takes_over rj" using t w(7) by (simp add: all_take_over_def)
  obtain rj' reqs qs where c: "client_digest renv support digest [rj] (ex_store x) = Some ([rj'], reqs, qs)"
      "before_file renv r q contents st0 k rj' (ex_store x)" "takes_over rj'"
      and out: "reqs = [confirm_request (tj_id s) (of_nat k) (OffsetBlk 0)] \<and> qs = []
        \<or> reqs = [] \<and> (\<exists>path same. qs = [(tj_id s, of_nat k, path, same)])"
    using client_takes_file [OF _ w(8) tr k len, of digest support] set' w(4,5) unfolding ids by blast
  let ?x = "after_message x [] [rj'] (ex_store x) reqs qs"
  have st: "exchange_step senv renv st support ClientMessage x = Some ?x"
    by (rule client_step_cons [OF w(3)]) (use w(6,7) c(1) in \<open>simp add: client_message_def\<close>)
  have ex: "exchanging renv s st p r q contents st0 ?x"
    using out
  proof (elim disjE conjE exE)
    assume "reqs = [confirm_request (tj_id s) (of_nat k) (OffsetBlk 0)]" "qs = []"
    with w c(2) show ?thesis
      by (intro exchanging.Confirms [of _ sj s st p k rj']) (simp_all add: after_message_def quiet_def)
  next
    fix path same assume "reqs = []" "qs = [(tj_id s, of_nat k, path, same)]"
    with w c(2) show ?thesis
      by (intro exchanging.Asks [of _ sj s st p k rj' _ _ _ _ _ path same]) (simp_all add: after_message_def quiet_def)
  qed
  have "all_take_over ?x" using c(3) by (simp add: all_take_over_def after_message_def)
  then show ?thesis using st ex w(1) by (intro exI [of _ ?x]) (simp add: after_message_def)
qed

lemma client_done_step:
  assumes set: "setting senv renv s st p r q contents"
    and e: "ex_reads x = []" "ex_to_client x = [MsgDone (tj_id s) n]" "ex_writes x = [rj]"
      "before_file renv r q contents st0 (length (tj_files s)) rj (ex_store x)" "quiet x"
  shows "\<exists>x'. exchange_step senv renv st support ClientMessage x = Some x' \<and> exchanging renv s st p r q contents st0 x'
    \<and> all_take_over x' \<and> ex_reads x' = [] \<and> ex_to_client x' = []"
proof -
  have i: "tj_id rj = tj_id s" using set e(4) by (simp add: setting_def before_file_def same_job_def)
  let ?x = "after_message x [] [] (modify_time renv rj (ex_store x)) [] []"
  have st: "exchange_step senv renv st support ClientMessage x = Some ?x"
    by (rule client_step_cons [OF e(2)]) (use i e(3) in \<open>simp add: client_message_def receive_done\<close>)
  have "exchanging renv s st p r q contents st0 ?x"
    by (rule exchanging.Over) (use e in \<open>simp_all add: after_message_def before_file_def quiet_def\<close>)
  then show ?thesis using st e(1) by (intro exI [of _ ?x]) (simp add: after_message_def all_take_over_def)
qed

text \<open>The client's step, which takes the first message away unless there is none.\<close>

lemma handled_Nil: "handled env [] x rj rs \<longleftrightarrow> ex_writes x = [rj] \<and> ex_store x = rs"
  by (auto simp: handled_def)

lemma after_message_simps [simp]:
  "ex_reads (after_message x ms jobs store reqs questions) = ex_reads x"
  "ex_to_client (after_message x ms jobs store reqs questions) = ms"
  "quiet (after_message x ms jobs store [] []) = quiet x"
  by (simp_all add: after_message_def quiet_def)

lemma client_step:
  assumes set: "setting senv renv s st p r q contents" and x: "exchanging renv s st p r q contents st0 x" and t: "all_take_over x"
  shows "\<exists>x'. exchange_step senv renv st support ClientMessage x = Some x' \<and> exchanging renv s st p r q contents st0 x'
    \<and> all_take_over x' \<and> ex_reads x' = ex_reads x \<and> ex_to_client x' = tl (ex_to_client x)"
proof (cases "ex_to_client x")
  case Nil
  then show ?thesis using x t by (simp add: exchange_step_def)
next
  case (Cons m ms)
  have sub: ?thesis
    if hd: "handled renv (m # bs) x rj rs" and c: "ex_to_client x = m # bs @ tl'"
      and ex: "\<And>jobs store. handled renv bs (after_message x (bs @ tl') jobs store [] []) rj rs \<Longrightarrow>
        exchanging renv s st p r q contents st0 (after_message x (bs @ tl') jobs store [] [])" for bs tl' rj rs
  proof -
    obtain jobs store where a: "exchange_step senv renv st support ClientMessage x = Some (after_message x (bs @ tl') jobs store [] [])"
        "receive_message renv m (ex_writes x, ex_store x) = (jobs, store)"
        "handled renv bs (after_message x (bs @ tl') jobs store [] []) rj rs"
      using client_block [OF hd c] by blast
    show ?thesis using a(1) ex [OF a(3)] receive_all_take_over [OF t a(2)] c by simp
  qed
  from x show ?thesis
  proof cases
    case (Sends sj k pos rj rs)
    show ?thesis
      by (rule sub [of ms rj rs "[]"]) (use Sends Cons in \<open>auto intro: exchanging.Sends\<close>)
  next
    case (Ready sj k rj rs)
    show ?thesis
      by (rule sub [of ms rj rs "[]"]) (use Ready Cons in \<open>auto intro: exchanging.Ready\<close>)
  next
    case (Waits sj k ms' digest rj rs)
    show ?thesis
    proof (cases ms')
      case Nil
      then show ?thesis
        using client_digest_step [OF set t Waits(1,2) _ Waits(4-6) _ _ Waits(9), of rj st0 support] Waits(1,3,7,8)
        by (auto simp: handled_Nil)
    next
      case (Cons b bs)
      show ?thesis
        by (rule sub [of bs rj rs "[MsgDigest digest]"]) (use Waits Cons \<open>ex_to_client x = m # ms\<close> in \<open>auto intro: exchanging.Waits\<close>)
    qed
  next
    case (Ends ms' n rj rs)
    show ?thesis
    proof (cases ms')
      case Nil
      then show ?thesis
        using client_done_step [OF set Ends(1) _ _ _ Ends(5), of n rj st0 support] Ends by (auto simp: handled_Nil)
    next
      case (Cons b bs)
      show ?thesis
        by (rule sub [of bs rj rs "[MsgDone (tj_id s) n]"]) (use Ends Cons \<open>ex_to_client x = m # ms\<close> in \<open>auto intro: exchanging.Ends\<close>)
    qed
  qed (use Cons in simp_all)
qed

lemma user_answer_step:
  assumes t: "all_take_over x"
    and a: "ex_reads x = [sj]" "waiting s st p k sj" "ex_to_client x = []" "ex_writes x = [rj]"
      "before_file renv r q contents st0 k rj (ex_store x)" "tj_id r = tj_id s"
      "ex_to_server x = []" "ex_questions x = [(tj_id s, of_nat k, path, same)]"
  shows "\<exists>x'. exchange_step senv renv st support (UserAnswer True remember) x = Some x' \<and> exchanging renv s st p r q contents st0 x'
    \<and> all_take_over x' \<and> ex_reads x' = [sj] \<and> ex_to_client x' = [] \<and> ex_to_server x' = [confirm_request (tj_id s) (of_nat k) (OffsetBlk 0)]"
proof -
  have tr: "takes_over rj" using t a(4) by (simp add: all_take_over_def)
  obtain rj' where c: "set_confirm_override_file renv (tj_id s) (of_nat k) True remember [rj] (ex_store x) =
        Some ([rj'], [confirm_request (tj_id s) (of_nat k) (OffsetBlk 0)])"
      "before_file renv r q contents st0 k rj' (ex_store x)" "takes_over rj'"
    using client_answers_yes [OF a(5) tr, of remember] unfolding a(6) by blast
  let ?x = "x\<lparr>ex_writes := [rj'], ex_to_server := [confirm_request (tj_id s) (of_nat k) (OffsetBlk 0)], ex_questions := []\<rparr>"
  have st: "exchange_step senv renv st support (UserAnswer True remember) x = Some ?x"
    using a(4,7,8) c(1) by (simp add: exchange_step_def)
  have ex: "exchanging renv s st p r q contents st0 ?x"
    by (rule exchanging.Confirms [of _ sj s st p k rj']) (use a c(2) in simp_all)
  have "all_take_over ?x" using c(3) by (simp add: all_take_over_def)
  then show ?thesis using st ex a(1,3) by (intro exI [of _ ?x]) simp
qed

lemma confirm_step:
  assumes len: "length (tj_files s) < 2 ^ 31"
    and a: "ex_reads x = [sj]" "waiting s st p k sj" "ex_to_client x = []" "ex_writes x = [rj]"
      "before_file renv r q contents st0 k rj (ex_store x)"
      "ex_to_server x = [confirm_request (tj_id s) (of_nat k) (OffsetBlk 0)]" "ex_questions x = []"
  shows "\<exists>x' sj'. exchange_step senv renv st support ServerMessage x = Some x' \<and> exchanging renv s st p r q contents st0 x'
    \<and> ex_writes x' = ex_writes x \<and> ex_reads x' = [sj'] \<and> sending s st p k 0 sj'"
proof -
  obtain sj' where c: "server_confirm senv (confirm_request (tj_id s) (of_nat k) (OffsetBlk 0)) [sj] st = Some [sj']"
      "sending s st p k 0 sj'"
    using confirmed_sending [OF a(2) len, of senv] by blast
  let ?x = "x\<lparr>ex_reads := [sj'], ex_to_server := []\<rparr>"
  have st: "exchange_step senv renv st support ServerMessage x = Some ?x" using a(1,6) c(1) by (simp add: exchange_step_def)
  have k: "k < length (tj_files s)" using a(2) by (simp add: waiting_def)
  have "exchanging renv s st p r q contents st0 ?x"
    by (rule exchanging.Sends [OF _ c(2) k, of _ _ _ rj "ex_store x"]) (use a in \<open>simp_all add: handled_def quiet_def\<close>)
  then show ?thesis using st c(2) by (intro exI [of _ ?x]) simp
qed

lemma every_step:
  assumes set: "setting senv renv s st p r q contents" and x: "exchanging renv s st p r q contents st0 x"
    and t: "all_take_over x" and y: "yes e"
  shows "\<exists>x'. exchange_step senv renv st support e x = Some x' \<and> exchanging renv s st p r q contents st0 x' \<and> all_take_over x'"
proof -
  note set' = set [unfolded setting_def]
  have len: "length (tj_files s) < 2 ^ 31" and ids: "tj_id r = tj_id s" using set' by simp_all
  show ?thesis
  proof (cases e)
    case SenderRound
    then show ?thesis using sender_step [OF set x, of support] t by (auto simp: all_take_over_def)
  next
    case ClientMessage
    then show ?thesis using client_step [OF set x t, of support] by blast
  next
    case ServerMessage
    from x show ?thesis
    proof cases
      case (Confirms sj k rj)
      then show ?thesis
        using confirm_step [OF len Confirms, of senv support] t ServerMessage by (auto simp: all_take_over_def)
    qed (use ServerMessage x t in \<open>simp_all add: exchange_step_def quiet_def\<close>)
  next
    case (UserAnswer b remember)
    with y have u: "e = UserAnswer True remember" by simp
    from x show ?thesis
    proof cases
      case (Asks sj k rj path same)
      then show ?thesis
        using user_answer_step [OF t Asks(1-5) ids Asks(6,7), of senv support remember] u by blast
    qed (use u x t in \<open>simp_all add: exchange_step_def quiet_def\<close>)
  qed
qed

lemma every_run:
  assumes set: "setting senv renv s st p r q contents"
  shows "exchanging renv s st p r q contents st0 x \<Longrightarrow> all_take_over x \<Longrightarrow> \<forall>e\<in>set es. yes e \<Longrightarrow>
    \<exists>x'. exchange_run senv renv st support es x = Some x' \<and> exchanging renv s st p r q contents st0 x' \<and> all_take_over x'"
proof (induction es arbitrary: x)
  case (Cons e es)
  obtain x1 where x1: "exchange_step senv renv st support e x = Some x1" "exchanging renv s st p r q contents st0 x1" "all_take_over x1"
    using every_step [OF set Cons.prems(1,2), of e support] Cons.prems(3) by auto
  with Cons.IH [OF x1(2,3)] Cons.prems(3) show ?case by simp
qed simp

lemma exchange_over:
  assumes x: "exchanging renv s st p r q contents st0 x" and w: "ex_writes x = []"
  shows "ex_reads x = []" "arrived r q contents st0 (length (tj_files s)) (ex_store x)"
  using x by (cases; use w in \<open>auto dest: not_handled\<close>)+

section \<open>An end in reach\<close>

definition can_finish :: "transfer_env \<Rightarrow> transfer_env \<Rightarrow> file_store \<Rightarrow> bool \<Rightarrow> exchange \<Rightarrow> bool" where
  "can_finish senv renv st support x \<longleftrightarrow>
     (\<exists>es y. (\<forall>e\<in>set es. yes e) \<and> exchange_run senv renv st support es x = Some y \<and> ex_reads y = [] \<and> ex_writes y = [])"

lemma can_finish_step:
  assumes "exchange_step senv renv st support e x = Some x'" "yes e" "can_finish senv renv st support x'"
  shows "can_finish senv renv st support x"
proof -
  obtain es y where "\<forall>e\<in>set es. yes e" "exchange_run senv renv st support es x' = Some y" "ex_reads y = []" "ex_writes y = []"
    using assms(3) by (auto simp: can_finish_def)
  with assms(1,2) show ?thesis unfolding can_finish_def by (intro exI [of _ "e # es"] exI [of _ y]) simp
qed

text \<open>The client handles everything that is under way.\<close>

lemma drain:
  assumes set: "setting senv renv s st p r q contents"
    and fin: "\<And>y. exchanging renv s st p r q contents st0 y \<Longrightarrow> all_take_over y \<Longrightarrow> ex_reads y = jobs \<Longrightarrow>
      ex_to_client y = [] \<Longrightarrow> can_finish senv renv st support y"
  shows "exchanging renv s st p r q contents st0 x \<Longrightarrow> all_take_over x \<Longrightarrow> ex_reads x = jobs \<Longrightarrow>
    can_finish senv renv st support x"
proof (induction "length (ex_to_client x)" arbitrary: x)
  case 0
  then show ?case using fin by simp
next
  case (Suc n)
  obtain x' where s: "exchange_step senv renv st support ClientMessage x = Some x'"
      and x': "exchanging renv s st p r q contents st0 x'" "all_take_over x'" "ex_reads x' = jobs" "ex_to_client x' = tl (ex_to_client x)"
    using client_step [OF set Suc.prems(1,2), of support] Suc.prems(3) by blast
  have "n = length (ex_to_client x')" using Suc.hyps(2) x'(4) by simp
  from Suc.hyps(1) [OF this x'(1-3)] show ?case by (rule can_finish_step [OF s yes_simps(2)])
qed

lemma round_finish:
  assumes set: "setting senv renv s st p r q contents" and x: "exchanging renv s st p r q contents st0 x" "all_take_over x"
    and rd: "handle_read_jobs senv (ex_reads x) st = (jobs, ms, log)"
    and fin: "\<And>y. exchanging renv s st p r q contents st0 y \<Longrightarrow> all_take_over y \<Longrightarrow> ex_reads y = jobs \<Longrightarrow>
      can_finish senv renv st support y"
  shows "can_finish senv renv st support x"
proof -
  obtain x' where s: "exchange_step senv renv st support SenderRound x = Some x'"
      and x': "exchanging renv s st p r q contents st0 x'" "ex_writes x' = ex_writes x"
    using sender_step [OF set x(1), of support] by blast
  have "ex_reads x' = jobs" using s rd by (auto simp: exchange_step_def)
  with fin [OF x'(1)] x(2) x'(2) have "can_finish senv renv st support x'" by (simp add: all_take_over_def)
  then show ?thesis by (rule can_finish_step [OF s yes_simps(1)])
qed

lemma finish_ended:
  assumes set: "setting senv renv s st p r q contents" and x: "exchanging renv s st p r q contents st0 x" "all_take_over x" "ex_reads x = []"
  shows "can_finish senv renv st support x"
proof (rule drain [OF set _ x])
  fix y assume y: "exchanging renv s st p r q contents st0 y" "ex_reads y = []" "ex_to_client y = []"
  from y(1) have "ex_writes y = []" by cases (use y(2,3) in simp_all)
  with y(2) show "can_finish senv renv st support y"
    unfolding can_finish_def by (intro exI [of _ "[]"] exI [of _ y]) simp
qed

lemma finish_sending:
  assumes set: "setting senv renv s st p r q contents" and k: "k < length (tj_files s)"
    and nxt: "\<And>y sj. exchanging renv s st p r q contents st0 y \<Longrightarrow> all_take_over y \<Longrightarrow> ex_reads y = [sj] \<Longrightarrow>
      ready s p (Suc k) sj \<Longrightarrow> can_finish senv renv st support y"
  shows "exchanging renv s st p r q contents st0 x \<Longrightarrow> all_take_over x \<Longrightarrow> ex_reads x = [sj] \<Longrightarrow>
    sending s st p k pos sj \<Longrightarrow> can_finish senv renv st support x"
proof (induction "length (contents ! k) - pos" arbitrary: pos x sj rule: less_induct)
  case less
  let ?v = "take BUF_SIZE (drop pos (contents ! k))"
  let ?m = "MsgBlock (block_of senv (job_name p s k) (tj_id s) (of_nat k) ?v)"
  obtain sj' where h: "handle_read_jobs senv [sj] st = ([sj'], [?m], None)"
      and sj': "if ?v = [] then after_file s st p k sj' else sending s st p k (pos + length ?v) sj'"
    using round_chunk [OF _ less.prems(4) _ k _ refl, of senv contents] set by (auto simp: setting_def)
  have rd: "handle_read_jobs senv (ex_reads x) st = ([sj'], [?m], None)" using h less.prems(3) by simp
  show ?case
  proof (rule round_finish [OF set less.prems(1,2) rd])
    fix y assume y: "exchanging renv s st p r q contents st0 y" "all_take_over y" "ex_reads y = [sj']"
    show "can_finish senv renv st support y"
    proof (cases "?v = []")
      case True
      then show ?thesis using nxt [OF y] sj' ready_after_file by simp
    next
      case False
      then have "0 < length ?v" by (simp only: length_greater_0_conv not_False_eq_True)
      moreover have "length ?v \<le> length (contents ! k) - pos" by simp
      ultimately have "length (contents ! k) - (pos + length ?v) < length (contents ! k) - pos" by linarith
      moreover have "sending s st p k (pos + length ?v) sj'" using False sj' by simp
      ultimately show ?thesis by (rule less.hyps [OF _ y])
    qed
  qed
qed

lemma finish_waiting:
  assumes set: "setting senv renv s st p r q contents" and w: "waiting s st p k sj"
    and nxt: "\<And>y sj. exchanging renv s st p r q contents st0 y \<Longrightarrow> all_take_over y \<Longrightarrow> ex_reads y = [sj] \<Longrightarrow>
      sending s st p k 0 sj \<Longrightarrow> can_finish senv renv st support y"
    and x: "exchanging renv s st p r q contents st0 x" "all_take_over x" "ex_reads x = [sj]"
  shows "can_finish senv renv st support x"
proof (rule drain [OF set _ x])
  fix y assume y: "exchanging renv s st p r q contents st0 y" "all_take_over y" "ex_reads y = [sj]" "ex_to_client y = []"
  have len: "length (tj_files s) < 2 ^ 31" and ids: "tj_id r = tj_id s" using set by (simp_all add: setting_def)
  have conf: "can_finish senv renv st support z"
    if z: "ex_reads z = [sj]" "waiting s st p k' sj" "ex_to_client z = []" "ex_writes z = [rj]"
        "before_file renv r q contents st0 k' rj (ex_store z)"
        "ex_to_server z = [confirm_request (tj_id s) (of_nat k') (OffsetBlk 0)]" "ex_questions z = []"
      and t: "all_take_over z" for z k' rj
  proof -
    have "file_index (of_nat k) = k" "file_index (of_nat k') = k'"
      using w z(2) len by (auto intro!: file_index_of_nat simp: waiting_def)
    moreover have "tj_file_num sj = of_nat k" "tj_file_num sj = of_nat k'" using w z(2) by (simp_all add: waiting_def at_rest_def)
    ultimately have kk: "k' = k" by metis
    obtain z' sj' where c: "exchange_step senv renv st support ServerMessage z = Some z'"
        "exchanging renv s st p r q contents st0 z'" "ex_writes z' = ex_writes z" "ex_reads z' = [sj']" "sending s st p k 0 sj'"
      using confirm_step [OF len z, of senv support] unfolding kk by blast
    have "all_take_over z'" using t c(3) by (simp add: all_take_over_def)
    from nxt [OF c(2) this c(4,5)] show ?thesis by (rule can_finish_step [OF c(1) yes_simps(3)])
  qed
  show "can_finish senv renv st support y"
    using y(1)
  proof cases
    case (Asks sj' k' rj path same)
    obtain z where z: "exchange_step senv renv st support (UserAnswer True False) y = Some z" "all_take_over z"
        and ez: "exchanging renv s st p r q contents st0 z" "ex_reads z = [sj']" "ex_to_client z = []"
          "ex_to_server z = [confirm_request (tj_id s) (of_nat k') (OffsetBlk 0)]"
      using user_answer_step [OF y(2) Asks(1-5) ids Asks(6,7), of senv support False] by blast
    from ez(1) have "can_finish senv renv st support z"
      by cases (use conf z(2) ez(2-) Asks(1) y(3) in \<open>auto simp: quiet_def\<close>)
    then show ?thesis by (rule can_finish_step [OF z(1) yes_simps(4) [THEN iffD2, OF TrueI]])
  next
    case (Confirms sj' k' rj)
    then show ?thesis using conf [OF _ _ Confirms(3-7) y(2)] y(3) by simp
  qed (use y w in \<open>auto simp: sending_def waiting_def ready_def\<close>)
qed

lemma finish_ready:
  assumes set: "setting senv renv s st p r q contents"
  shows "k \<le> length (tj_files s) \<Longrightarrow> exchanging renv s st p r q contents st0 x \<Longrightarrow> all_take_over x \<Longrightarrow> ex_reads x = [sj] \<Longrightarrow>
    ready s p k sj \<Longrightarrow> can_finish senv renv st support x"
proof (induction "length (tj_files s) - k" arbitrary: k x sj)
  case 0
  then have k: "k = length (tj_files s)" by simp
  obtain ms log where "handle_read_jobs senv (ex_reads x) st = ([], ms, log)"
    using round_done [of s p sj senv st] 0 k set by (auto simp: setting_def)
  then show ?case by (rule round_finish [OF set 0(3,4)]) (rule finish_ended [OF set])
next
  case (Suc n)
  have k: "k < length (tj_files s)" and n: "n = length (tj_files s) - Suc k" using Suc.hyps(2) by simp_all
  have snd: "can_finish senv renv st support y"
    if "exchanging renv s st p r q contents st0 y" "all_take_over y" "ex_reads y = [sj']" "sending s st p k 0 sj'" for y sj'
    by (rule finish_sending [OF set k _ that]) (rule Suc.hyps(1) [OF n]; use k in simp)
  show ?case
  proof (cases "tj_enable_overwrite_detection s")
    case True
    obtain sj' digest where h: "handle_read_jobs senv [sj] st = ([sj'], [MsgDigest digest], None)" "waiting s st p k sj'"
      using round_digest [OF _ Suc.prems(5) _ k _ True, of senv st contents] set by (auto simp: setting_def)
    have rd: "handle_read_jobs senv (ex_reads x) st = ([sj'], [MsgDigest digest], None)" using h(1) Suc.prems(4) by simp
    show ?thesis
      by (rule round_finish [OF set Suc.prems(2,3) rd]) (rule finish_waiting [OF set h(2) snd])
  next
    case False
    with Suc.prems ready_sending snd show ?thesis by blast
  qed
qed

lemma finish_from_waiting:
  assumes set: "setting senv renv s st p r q contents" and w: "waiting s st p k sj"
    and x: "exchanging renv s st p r q contents st0 x" "all_take_over x" "ex_reads x = [sj]"
  shows "can_finish senv renv st support x"
proof (rule finish_waiting [OF set w _ x])
  fix y sj' assume y: "exchanging renv s st p r q contents st0 y" "all_take_over y" "ex_reads y = [sj']" "sending s st p k 0 sj'"
  have k: "k < length (tj_files s)" using w by (simp add: waiting_def)
  show "can_finish senv renv st support y"
    by (rule finish_sending [OF set k _ y]) (rule finish_ready [OF set Suc_leI [OF k]])
qed

lemma reaches_end:
  assumes set: "setting senv renv s st p r q contents" and x: "exchanging renv s st p r q contents st0 x" "all_take_over x"
  shows "can_finish senv renv st support x"
  using x(1)
proof cases
  case (Sends sj k pos rj rs)
  show ?thesis
    by (rule finish_sending [OF set Sends(3) _ x Sends(1,2)]) (rule finish_ready [OF set Suc_leI [OF Sends(3)]])
next
  case (Ready sj k rj rs)
  show ?thesis by (rule finish_ready [OF set Ready(3) x Ready(1,2)])
next
  case (Waits sj k ms digest rj rs)
  show ?thesis by (rule finish_from_waiting [OF set Waits(2) x Waits(1)])
next
  case (Asks sj k rj path same)
  show ?thesis by (rule finish_from_waiting [OF set Asks(2) x Asks(1)])
next
  case (Confirms sj k rj)
  show ?thesis by (rule finish_from_waiting [OF set Confirms(2) x Confirms(1)])
qed (rule finish_ended [OF set x]; assumption)+

section \<open>Properties\<close>

text \<open>
  C13: A transfer arrives. Let one side read files that the listing of its job names and that do not
  change, let the other write them under names that do not clash, with no call refused and the
  decompressor undoing the compressor, with overwrite detection or without, and let the user answer yes
  to every question about overwriting a file. Then, whatever the order of the sender's rounds, of the
  handling of the messages and confirmations and of the answers, there is never a panic; whenever the
  client's job is gone the sender is through with its own, every file is there with its content and its time of
  modification, no partial download and no digest file of it is left, and no other file has changed,
  whatever was there before; and the exchange never gets stuck: from wherever it is, both jobs can be
  brought to their end.
\<close>

theorem transfer_roundtrip:
  assumes s: "new_read os tree i Generic remote (FilePath p) 0 sh ir detect = Inr s"
    and r: "r = new_write i Generic remote' (FilePath q) 0 sh' ir' (tj_files s) detect'"
    and len: "length (tj_files s) < 2 ^ 31" and h: "holds_files st s p contents"
    and sep: "separate_targets r q" and ok: "st_ok store"
    and env: "env_calm senv" "env_calm renv" and comp: "\<And>v. xe_decompress renv (xe_compress senv v) = v"
    and run: "\<forall>e\<in>set es. yes e"
  shows "\<exists>x. exchange_run senv renv st support es (exchange_start s r store) = Some x
    \<and> (ex_writes x = [] \<longrightarrow> ex_reads x = []
       \<and> (\<forall>k<length (tj_files s).
            st_file (ex_store x) (target r q k) = Some \<lparr>fn_content = contents ! k, fn_mtime = fe_modified_time (tj_files s ! k)\<rparr>
            \<and> st_file (ex_store x) (download_name (target r q k)) = None \<and> st_file (ex_store x) (digest_name (target r q k)) = None)
       \<and> (\<forall>y. (\<forall>k<length (tj_files s). y \<notin> names_of (target r q k)) \<longrightarrow> st_file (ex_store x) y = st_file store y))
    \<and> (\<exists>es' y. (\<forall>e\<in>set es'. yes e) \<and> exchange_run senv renv st support (es @ es') (exchange_start s r store) = Some y
         \<and> ex_reads y = [] \<and> ex_writes y = [])"
proof -
  have r': "tj_files r = tj_files s" "same_job r q r" "tj_file_num r = 0" "tj_data_stream r = None" "tj_id r = i" "takes_over r"
    by (simp_all add: r new_write_def same_job_def default_job_def takes_over_def)
  have s': "tj_id s = i" "ready s p 0 s"
    using s by (auto simp: new_read_def ready_def at_rest_def default_job_def split: sum.splits)
  have set: "setting senv renv s st p r q contents"
    unfolding setting_def using len h sep env comp r' s'(1) by simp
  have len': "length (tj_files r) < 2 ^ 31" using len r'(1) by simp
  have "before_file renv r q contents store 0 r store" by (rule before_first_file [OF env(2) ok len' sep r'(2-4)])
  then have "exchanging renv s st p r q contents store (exchange_start s r store)"
    by (intro exchanging.Ready [OF _ s'(2), of _ _ r store]) (simp_all add: exchange_start_def handled_def quiet_def)
  moreover have "all_take_over (exchange_start s r store)" using r'(6) by (simp add: all_take_over_def exchange_start_def)
  ultimately obtain x where x: "exchange_run senv renv st support es (exchange_start s r store) = Some x"
      "exchanging renv s st p r q contents store x" "all_take_over x"
    using every_run [OF set _ _ run] by blast
  have over: "ex_writes x = [] \<Longrightarrow> ex_reads x = [] \<and> arrived r q contents store (length (tj_files s)) (ex_store x)"
    using exchange_over [OF x(2)] by simp
  obtain es' y where y: "\<forall>e\<in>set es'. yes e" "exchange_run senv renv st support es' x = Some y" "ex_reads y = []" "ex_writes y = []"
    using reaches_end [OF set x(2,3), of support] unfolding can_finish_def by blast
  have "exchange_run senv renv st support (es @ es') (exchange_start s r store) = Some y"
    by (simp add: exchange_run_append x(1) y(2))
  then show ?thesis using x(1) y(1,3,4) over unfolding arrived_def r'(1) by blast
qed

text \<open>The client already has another file of the first name.\<close>

definition old_store :: file_store where
  "old_store = \<lparr>st_names = [''/d/a'' \<mapsto> 0], st_nodes = [0 \<mapsto> \<lparr>fn_content = [7], fn_mtime = 3\<rparr>], st_next = 1\<rparr>"

theorem transfer_roundtrip_witness:
  "\<exists>s r es' y. new_read Linux (Some demo_tree) 5 Generic '''' (FilePath ''/s'') 0 False False True = Inr s
    \<and> r = new_write 5 Generic '''' (FilePath ''/d'') 0 False False (tj_files s) True
    \<and> exchange_run calm_env calm_env demo_source True
        ([SenderRound, ClientMessage, SenderRound, UserAnswer True False, ServerMessage] @ es') (exchange_start s r old_store) = Some y
    \<and> ex_reads y = [] \<and> ex_writes y = []
    \<and> st_file (ex_store y) ''/d/a'' = Some \<lparr>fn_content = [1, 2, 3], fn_mtime = 9\<rparr> \<and> st_file (ex_store y) ''/d/b.download'' = None"
proof -
  obtain s where s: "new_read Linux (Some demo_tree) 5 Generic '''' (FilePath ''/s'') 0 False False True = Inr s"
      and f: "map fe_name (tj_files s) = [''a'', ''b'']" "map fe_modified_time (tj_files s) = [9, 7]"
    by (simp add: new_read_def get_recursive_files_def drives_path_def follow_def demo_tree_def entry_of_def
        is_hidden_name_def starts_with_def path_push_def)
  obtain e1 e2 where e: "tj_files s = [e1, e2]" "fe_name e1 = ''a''" "fe_name e2 = ''b''" "fe_modified_time e1 = 9"
    using f by (auto simp: map_eq_Cons_conv)
  obtain r where r: "r = new_write 5 Generic '''' (FilePath ''/d'') 0 False False (tj_files s) True" by simp
  have t: "target r ''/d'' 0 = ''/d/a''" "target r ''/d'' (Suc 0) = ''/d/b''" "tj_files r = [e1, e2]"
    by (simp_all add: r new_write_def target_def e job_join_def path_join_def is_absolute_def starts_with_def)
  have h: "holds_files demo_source s ''/s'' [[1, 2, 3], []]"
    by (auto simp: holds_files_def e target_def job_join_def path_join_def is_absolute_def starts_with_def
        st_file_def demo_source_def less_Suc_eq numeral_2_eq_2)
  have sep: "separate_targets r ''/d''"
    by (auto simp: t less_Suc_eq numeral_2_eq_2 names_of_def download_name_def digest_name_def)
  have len: "length (tj_files s) < 2 ^ 31" by (simp add: e)
  have ok: "st_ok old_store" by (simp add: st_ok_def old_store_def)
  note rt = transfer_roundtrip [OF s r len h sep ok calm_env(1) calm_env(1) calm_env(2)]
  let ?run = "\<lambda>es. exchange_run calm_env calm_env demo_source True es (exchange_start s r old_store)"
  let ?es = "[SenderRound, ClientMessage, SenderRound, UserAnswer True False, ServerMessage]"
  have "\<forall>e\<in>set ?es. yes e" by simp
  from rt [OF this, of True] obtain es' y where y: "\<forall>e\<in>set es'. yes e" "?run (?es @ es') = Some y" "ex_reads y = []" "ex_writes y = []"
    by blast
  have "\<forall>e\<in>set (?es @ es'). yes e" using y(1) by simp
  from rt [OF this, of True] y(2,4) have fin: "\<forall>k<length (tj_files s).
      st_file (ex_store y) (target r ''/d'' k) = Some \<lparr>fn_content = [[1, 2, 3], []] ! k, fn_mtime = fe_modified_time (tj_files s ! k)\<rparr>
      \<and> st_file (ex_store y) (download_name (target r ''/d'' k)) = None"
    by auto
  have "st_file (ex_store y) ''/d/a'' = Some \<lparr>fn_content = [1, 2, 3], fn_mtime = 9\<rparr>" "st_file (ex_store y) ''/d/b.download'' = None"
    using fin [rule_format, of 0] fin [rule_format, of "Suc 0"] by (simp_all add: e t download_name_def)
  with s r y(2-4) show ?thesis by blast
qed

end
