(* ===== verification/Net_Address.thy ===== *)
theory Net_Address
  imports File_Names
begin

text \<open>
  Network addresses (\<open>AddrMangle\<close>, \<open>try_into_v4\<close> and the address tests of \<open>libs/hbb_common/src/lib.rs\<close>,
  the host and port helpers of \<open>socket_client.rs\<close>), with what they use of \<open>std::net\<close>: octets, the text of
  an address and the parser of IPv6 texts. Texts are ASCII.
\<close>

section \<open>Addresses\<close>

type_synonym u128 = "128 word"

text \<open>An address as the number its octets spell, first octet first.\<close>

datatype ip_addr = IpV4 u32 | IpV6 u128

text \<open>A socket address; one of IPv6 has the flow information and the scope as well.\<close>

datatype socket_addr = SockV4 u32 u16 | SockV6 u128 u16 u32 u32

fun sock_ip :: "socket_addr \<Rightarrow> ip_addr" where
  "sock_ip (SockV4 ip _) = IpV4 ip"
| "sock_ip (SockV6 ip _ _ _) = IpV6 ip"

fun sock_port :: "socket_addr \<Rightarrow> u16" where
  "sock_port (SockV4 _ port) = port"
| "sock_port (SockV6 _ port _ _) = port"

definition to_le :: "nat \<Rightarrow> 'a::len word \<Rightarrow> bytes" where
  "to_le n w = map (\<lambda>i. ucast (drop_bit (8 * i) w)) [0..<n]"

fun le_value :: "bytes \<Rightarrow> nat" where
  "le_value [] = 0"
| "le_value (b # bs) = unat b + 256 * le_value bs"

definition from_le :: "bytes \<Rightarrow> 'a::len word" where
  "from_le bs = of_nat (le_value bs)"

definition ipv4_octets :: "u32 \<Rightarrow> bytes" where
  "ipv4_octets ip = rev (to_le 4 ip)"

definition ipv4_from :: "bytes \<Rightarrow> u32" where
  "ipv4_from bs = from_le (rev bs)"

definition ipv6_octets :: "u128 \<Rightarrow> bytes" where
  "ipv6_octets ip = rev (to_le 16 ip)"

definition ipv6_from :: "bytes \<Rightarrow> u128" where
  "ipv6_from bs = from_le (rev bs)"

text \<open>
  \<open>Ipv6Addr::to_ipv4\<close>: the compatible form \<open>::a.b.c.d\<close> and the mapped form \<open>::ffff:a.b.c.d\<close>;
  \<open>Ipv6Addr::to_ipv4_mapped\<close>: the mapped form only.
\<close>

definition to_ipv4 :: "u128 \<Rightarrow> u32 option" where
  "to_ipv4 ip = (if drop_bit 32 ip = 0 \<or> drop_bit 32 ip = 0xFFFF then Some (ucast ip) else None)"

definition to_ipv4_mapped :: "u128 \<Rightarrow> u32 option" where
  "to_ipv4_mapped ip = (if drop_bit 32 ip = 0xFFFF then Some (ucast ip) else None)"

fun try_into_v4 :: "socket_addr \<Rightarrow> socket_addr" where
  "try_into_v4 (SockV6 ip port fl sc) =
     (if ip \<noteq> 1 then (case to_ipv4 ip of Some v4 \<Rightarrow> SockV4 v4 port | None \<Rightarrow> SockV6 ip port fl sc)
      else SockV6 ip port fl sc)"
| "try_into_v4 a = a"

section \<open>Mangled addresses\<close>

text \<open>\<open>tm\<close>: the low 32 bits of the clock in microseconds.\<close>

definition mangle_number :: "u32 \<Rightarrow> u32 \<Rightarrow> u16 \<Rightarrow> u128" where
  "mangle_number tm ip_le port =
     (let tm = ucast tm; ip = ucast ip_le; port = ucast port
      in push_bit 49 (ip + tm) OR push_bit 17 tm OR (port + (tm AND 0xFFFF)))"

definition strip_padding :: "bytes \<Rightarrow> bytes" where
  "strip_padding bs = rev (dropWhile (\<lambda>b. b = 0) (rev bs))"

definition mangle_encode :: "u32 \<Rightarrow> socket_addr \<Rightarrow> bytes" where
  "mangle_encode tm addr =
     (case try_into_v4 addr of
        SockV4 ip port \<Rightarrow> strip_padding (to_le 16 (mangle_number tm (from_le (ipv4_octets ip)) port))
      | SockV6 ip port _ _ \<Rightarrow> ipv6_octets ip @ to_le 2 port)"

text \<open>
  The differences are taken modulo \<open>2 ^ 128\<close>, as in a release build; the fallback is
  \<open>Config::get_any_listen_addr(false)\<close>, the address \<open>[::]:0\<close>.
\<close>

definition get_any_listen_addr :: "bool \<Rightarrow> socket_addr" where
  "get_any_listen_addr is_ipv4 = (if is_ipv4 then SockV4 0 0 else SockV6 0 0 0 0)"

definition mangle_decode :: "bytes \<Rightarrow> socket_addr" where
  "mangle_decode bs =
     (if 16 < length bs then
        (if length bs \<noteq> 18 then get_any_listen_addr False
         else SockV6 (ipv6_from (take 16 bs)) (from_le (drop 16 bs)) 0 0)
      else
        (let number = (from_le (bs @ replicate (16 - length bs) 0) :: u128);
             tm = drop_bit 17 number AND 0xFFFFFFFF;
             ip = to_le 4 (ucast (drop_bit 49 number - tm) :: u32);
             port = (number AND 0xFFFFFF) - (tm AND 0xFFFF)
         in SockV4 (ipv4_from ip) (ucast port)))"

section \<open>The text of an address\<close>

fun join_with :: "string \<Rightarrow> string list \<Rightarrow> string" where
  "join_with sep [] = []"
| "join_with sep [x] = x"
| "join_with sep (x # xs) = x @ sep @ join_with sep xs"

definition show_ipv4 :: "u32 \<Rightarrow> string" where
  "show_ipv4 ip = join_with ''.'' (map (\<lambda>b. show_nat (unat b)) (ipv4_octets ip))"

definition hex_digit :: "nat \<Rightarrow> char" where
  "hex_digit d = (if d < 10 then char_of (48 + d) else char_of (87 + d))"

fun show_hex :: "nat \<Rightarrow> string" where
  "show_hex n = (if n < 16 then [hex_digit n] else show_hex (n div 16) @ [hex_digit (n mod 16)])"

declare show_hex.simps [simp del]

definition ipv6_segments :: "u128 \<Rightarrow> nat list" where
  "ipv6_segments ip = map (\<lambda>i. unat (drop_bit (16 * (7 - i)) ip) mod 65536) [0..<8]"

text \<open>The first longest run of zero segments: the position, the current run and the best so far.\<close>

fun longest_zeros :: "nat \<Rightarrow> nat \<times> nat \<Rightarrow> nat \<times> nat \<Rightarrow> nat list \<Rightarrow> nat \<times> nat" where
  "longest_zeros i cur best [] = best"
| "longest_zeros i (start, n) best (x # xs) =
     (if x = 0 then
        let cur = (if n = 0 then i else start, n + 1)
        in longest_zeros (i + 1) cur (if snd best < snd cur then cur else best) xs
      else longest_zeros (i + 1) (0, 0) best xs)"

definition show_segments :: "nat list \<Rightarrow> string" where
  "show_segments ss = join_with '':'' (map show_hex ss)"

definition show_ipv6 :: "u128 \<Rightarrow> string" where
  "show_ipv6 ip =
     (case to_ipv4_mapped ip of
        Some v4 \<Rightarrow> ''::ffff:'' @ show_ipv4 v4
      | None \<Rightarrow>
          (let segs = ipv6_segments ip; (start, n) = longest_zeros 0 (0, 0) (0, 0) segs
           in if 1 < n then show_segments (take start segs) @ ''::'' @ show_segments (drop (start + n) segs)
              else show_segments segs))"

fun show_ip :: "ip_addr \<Rightarrow> string" where
  "show_ip (IpV4 ip) = show_ipv4 ip"
| "show_ip (IpV6 ip) = show_ipv6 ip"

section \<open>Parsing an IPv6 address\<close>

text \<open>
  The parser behind \<open>Ipv6Addr::from_str\<close>: each reader returns what it read and the rest of the text,
  or nothing, with the text then unread.
\<close>

definition digit_value :: "nat \<Rightarrow> char \<Rightarrow> nat option" where
  "digit_value radix c =
     (let n = of_char c :: nat;
          d = (if 48 \<le> n \<and> n \<le> 57 then n - 48
               else if 97 \<le> n \<and> n \<le> 122 then n - 87
               else if 65 \<le> n \<and> n \<le> 90 then n - 55 else radix)
      in if d < radix then Some d else None)"

fun read_digits :: "nat \<Rightarrow> nat \<Rightarrow> nat \<Rightarrow> nat \<Rightarrow> nat \<Rightarrow> string \<Rightarrow> (nat \<times> nat \<times> string) option" where
  "read_digits radix bound maxd cnt acc [] = Some (acc, cnt, [])"
| "read_digits radix bound maxd cnt acc (c # cs) =
     (case digit_value radix c of
        None \<Rightarrow> Some (acc, cnt, c # cs)
      | Some d \<Rightarrow>
          (let acc = acc * radix + d
           in if bound < acc \<or> maxd < cnt + 1 then None
              else read_digits radix bound maxd (cnt + 1) acc cs))"

definition read_number :: "nat \<Rightarrow> nat \<Rightarrow> nat \<Rightarrow> bool \<Rightarrow> string \<Rightarrow> (nat \<times> string) option" where
  "read_number radix bound maxd zero_prefix s =
     (case read_digits radix bound maxd 0 0 s of
        None \<Rightarrow> None
      | Some (v, cnt, rest) \<Rightarrow>
          (if cnt = 0 \<or> \<not> zero_prefix \<and> s ! 0 = CHR ''0'' \<and> 1 < cnt then None else Some (v, rest)))"

definition read_given_char :: "char \<Rightarrow> string \<Rightarrow> string option" where
  "read_given_char ch s = (case s of [] \<Rightarrow> None | c # cs \<Rightarrow> if c = ch then Some cs else None)"

text \<open>\<open>read_separator\<close>: the separator comes before every element but the first.\<close>

definition read_separator :: "char \<Rightarrow> nat \<Rightarrow> string \<Rightarrow> string option" where
  "read_separator sep index s = (if 0 < index then read_given_char sep s else Some s)"

fun read_ipv4_parts :: "nat \<Rightarrow> nat \<Rightarrow> string \<Rightarrow> (nat list \<times> string) option" where
  "read_ipv4_parts 0 i s = Some ([], s)"
| "read_ipv4_parts (Suc k) i s =
     (case read_separator CHR ''.'' i s of
        None \<Rightarrow> None
      | Some s \<Rightarrow>
          (case read_number 10 255 3 False s of
             None \<Rightarrow> None
           | Some (v, s) \<Rightarrow>
               (case read_ipv4_parts k (i + 1) s of None \<Rightarrow> None | Some (vs, s) \<Rightarrow> Some (v # vs, s))))"

definition read_ipv4_addr :: "string \<Rightarrow> (nat list \<times> string) option" where
  "read_ipv4_addr s = read_ipv4_parts 4 0 s"

text \<open>
  \<open>read_groups\<close>: up to \<open>limit\<close> groups, the last two of which may be written as an IPv4 address; the
  groups read, whether they end in an IPv4 address, and the rest.
\<close>

fun read_groups :: "nat \<Rightarrow> nat \<Rightarrow> string \<Rightarrow> nat list \<times> bool \<times> string" where
  "read_groups 0 i s = ([], False, s)"
| "read_groups (Suc k) i s =
     (let v4 = (if 0 < k then
                  case read_separator CHR '':'' i s of None \<Rightarrow> None | Some s \<Rightarrow> read_ipv4_addr s
                else None)
      in case v4 of
           Some (vs, s) \<Rightarrow> ([256 * vs ! 0 + vs ! 1, 256 * vs ! 2 + vs ! 3], True, s)
         | None \<Rightarrow>
             (case (case read_separator CHR '':'' i s of
                      None \<Rightarrow> None | Some s \<Rightarrow> read_number 16 65535 4 True s) of
                None \<Rightarrow> ([], False, s)
              | Some (v, s) \<Rightarrow> (let (gs, v4, s) = read_groups k (i + 1) s in (v # gs, v4, s))))"

definition segments_value :: "nat list \<Rightarrow> u128" where
  "segments_value gs = of_nat (foldl (\<lambda>n g. 65536 * n + g) 0 gs)"

definition read_ipv6_addr :: "string \<Rightarrow> (u128 \<times> string) option" where
  "read_ipv6_addr s =
     (let (head, head_v4, s) = read_groups 8 0 s in
      if length head = 8 then Some (segments_value head, s)
      else if head_v4 then None
      else case read_given_char CHR '':'' s of
             None \<Rightarrow> None
           | Some s \<Rightarrow>
               (case read_given_char CHR '':'' s of
                  None \<Rightarrow> None
                | Some s \<Rightarrow>
                    (let (tail, _, s) = read_groups (8 - (length head + 1)) 0 s
                     in Some (segments_value (head @ replicate (8 - length head - length tail) 0 @ tail), s))))"

definition ipv6_from_str :: "string \<Rightarrow> u128 option" where
  "ipv6_from_str s = (case read_ipv6_addr s of Some (ip, []) \<Rightarrow> Some ip | _ \<Rightarrow> None)"

section \<open>Tests of a text\<close>

text \<open>The regular expressions of the tests, read as recognisers of the same texts.\<close>

definition is_hex_digit :: "char \<Rightarrow> bool" where
  "is_hex_digit c \<longleftrightarrow> digit_value 16 c \<noteq> None"

definition all_digits1 :: "string \<Rightarrow> bool" where
  "all_digits1 s \<longleftrightarrow> s \<noteq> [] \<and> list_all (\<lambda>c. digit_value 10 c \<noteq> None) s"

text \<open>\<open>25[0-5]|2[0-4][0-9]|[01]?[0-9][0-9]?\<close>: one to three digits of value at most 255.\<close>

definition is_octet_str :: "string \<Rightarrow> bool" where
  "is_octet_str s \<longleftrightarrow> all_digits1 s \<and> length s \<le> 3 \<and> read_nat s \<le> 255"

definition is_ipv4_str :: "string \<Rightarrow> bool" where
  "is_ipv4_str s \<longleftrightarrow>
     (let addr = takeWhile (\<lambda>c. c \<noteq> CHR '':'') s; port = dropWhile (\<lambda>c. c \<noteq> CHR '':'') s;
          parts = split_chars (\<lambda>c. c = CHR ''.'') addr
      in length parts = 4 \<and> list_all is_octet_str parts \<and> (port = [] \<or> all_digits1 (tl port)))"

text \<open>
  \<open>([a-fA-F0-9]{1,4}:{1,2})+[a-fA-F0-9]{1,4}\<close>: the pieces between colons; an empty piece stands between
  two colons.
\<close>

fun no_two_empty :: "string list \<Rightarrow> bool" where
  "no_two_empty (x # y # xs) \<longleftrightarrow> (x \<noteq> [] \<or> y \<noteq> []) \<and> no_two_empty (y # xs)"
| "no_two_empty _ \<longleftrightarrow> True"

definition is_hex_group :: "string \<Rightarrow> bool" where
  "is_hex_group s \<longleftrightarrow> s \<noteq> [] \<and> length s \<le> 4 \<and> list_all is_hex_digit s"

definition is_ipv6_groups :: "string \<Rightarrow> bool" where
  "is_ipv6_groups s \<longleftrightarrow>
     (let parts = split_chars (\<lambda>c. c = CHR '':'') s
      in 2 \<le> length parts \<and> hd parts \<noteq> [] \<and> last parts \<noteq> [] \<and> no_two_empty parts
         \<and> list_all (\<lambda>p. p = [] \<or> is_hex_group p) parts)"

definition is_ipv6_str :: "string \<Rightarrow> bool" where
  "is_ipv6_str s \<longleftrightarrow>
     is_ipv6_groups s
     \<or> (s \<noteq> [] \<and> s ! 0 = CHR ''[''
        \<and> (let addr = takeWhile (\<lambda>c. c \<noteq> CHR '']'') (tl s); rest = dropWhile (\<lambda>c. c \<noteq> CHR '']'') (tl s)
           in is_ipv6_groups addr \<and> starts_with rest '']:''
              \<and> all_digits1 (drop 2 rest)))"

definition is_ip_str :: "string \<Rightarrow> bool" where
  "is_ip_str s \<longleftrightarrow> is_ipv4_str s \<or> is_ipv6_str s"

text \<open>
  \<open>([a-z0-9]([a-z0-9-]{0,61}[a-z0-9])?\.)+[a-z][a-z-]{0,61}[a-z]:\d{1,5}\<close>, without regard to case: labels of at
  most 63 characters that neither begin nor end with a hyphen, the last one without digits and with at
  least two characters.
\<close>

definition is_alnum :: "char \<Rightarrow> bool" where
  "is_alnum c \<longleftrightarrow> is_ascii_alphabetic c \<or> digit_value 10 c \<noteq> None"

definition is_label :: "(char \<Rightarrow> bool) \<Rightarrow> nat \<Rightarrow> string \<Rightarrow> bool" where
  "is_label ok least s \<longleftrightarrow>
     least \<le> length s \<and> length s \<le> 63 \<and> ok (hd s) \<and> ok (last s) \<and> list_all (\<lambda>c. ok c \<or> c = CHR ''-'') s"

definition is_domain_port_str :: "string \<Rightarrow> bool" where
  "is_domain_port_str s \<longleftrightarrow>
     (let dom = takeWhile (\<lambda>c. c \<noteq> CHR '':'') s; port = dropWhile (\<lambda>c. c \<noteq> CHR '':'') s;
          labels = split_chars (\<lambda>c. c = CHR ''.'') dom
      in 2 \<le> length labels \<and> list_all (is_label is_alnum 1) (butlast labels)
         \<and> is_label is_ascii_alphabetic 2 (last labels)
         \<and> port \<noteq> [] \<and> all_digits1 (tl port) \<and> length (tl port) \<le> 5)"

section \<open>Hosts and ports\<close>

text \<open>The decimal text of an \<open>i32\<close>, and \<open>str::parse::<i32>().unwrap_or(0)\<close>.\<close>

definition show_i32 :: "i32 \<Rightarrow> string" where
  "show_i32 n = (if n <s 0 then ''-'' @ show_nat (nat (- sint n)) else show_nat (unat n))"

definition parse_i32_or_0 :: "string \<Rightarrow> i32" where
  "parse_i32_or_0 s =
     (let neg = (s \<noteq> [] \<and> s ! 0 = CHR ''-'');
          ds = (if s \<noteq> [] \<and> (s ! 0 = CHR ''-'' \<or> s ! 0 = CHR ''+'') then tl s else s);
          v = (if neg then - int (read_nat ds) else int (read_nat ds))
      in if all_digits1 ds \<and> - (2 ^ 31) \<le> v \<and> v < 2 ^ 31 then of_int v else 0)"

definition check_port :: "string \<Rightarrow> i32 \<Rightarrow> string" where
  "check_port host port =
     (if is_ipv6_str host then
        (if starts_with host ''['' then host else ''['' @ host @ '']:'' @ show_i32 port)
      else if CHR '':'' \<notin> set host then host @ '':'' @ show_i32 port
      else host)"

text \<open>\<open>split("]:")\<close>: the pieces between the occurrences, from the left.\<close>

fun split_bracket_colon :: "string \<Rightarrow> string list" where
  "split_bracket_colon [] = [[]]"
| "split_bracket_colon [c] = [[c]]"
| "split_bracket_colon (c # d # cs) =
     (if c = CHR '']'' \<and> d = CHR '':'' then [] # split_bracket_colon cs
      else case split_bracket_colon (d # cs) of [] \<Rightarrow> [[c]] | w # ws \<Rightarrow> (c # w) # ws)"

definition split_positive :: "string list \<Rightarrow> (string \<times> i32) option" where
  "split_positive tmp =
     (if length tmp = 2 then
        (let port = parse_i32_or_0 (tmp ! 1) in if 0 <s port then Some (tmp ! 0, port) else None)
      else None)"

definition increase_port :: "string \<Rightarrow> i32 \<Rightarrow> string" where
  "increase_port host offset =
     (if is_ipv6_str host then
        (if starts_with host ''['' then
           case split_positive (split_bracket_colon host) of
             Some (h, port) \<Rightarrow> h @ '']:'' @ show_i32 (port + offset)
           | None \<Rightarrow> host
         else host)
      else if CHR '':'' \<in> set host then
        (case split_positive (split_chars (\<lambda>c. c = CHR '':'') host) of
           Some (h, port) \<Rightarrow> h @ '':'' @ show_i32 (port + offset)
         | None \<Rightarrow> host)
      else host)"

definition split_host_port :: "string \<Rightarrow> (string \<times> i32) option" where
  "split_host_port host =
     (if is_ipv6_str host then
        (if starts_with host ''['' then
           map_option (\<lambda>(h, port). (h @ '']'', port)) (split_positive (split_bracket_colon host))
         else None)
      else if CHR '':'' \<in> set host then split_positive (split_chars (\<lambda>c. c = CHR '':'') host)
      else None)"

section \<open>Mangling is undone\<close>

lemma length_to_le [simp]: "length (to_le n w) = n"
  by (simp add: to_le_def)

lemma to_le_Suc: "to_le (Suc n) w = ucast w # to_le n (drop_bit 8 w)"
  by (simp add: to_le_def map_upt_Suc drop_bit_drop_bit add.commute del: upt_Suc)

lemma le_value_to_le: "le_value (to_le n w) = unat w mod 256 ^ n"
proof (induction n arbitrary: w)
  case (Suc n)
  have "unat (drop_bit 8 w) = unat w div 2 ^ 8"
    by (simp only: unat_drop_bit_eq) (simp only: drop_bit_eq_div)
  then have "unat (drop_bit 8 w) = unat w div 256" by simp
  moreover have "unat (ucast w :: u8) = unat w mod 256"
    by (simp add: unsigned_ucast_eq unsigned_take_bit_eq take_bit_eq_mod)
  ultimately show ?case
    by (simp only: to_le_Suc le_value.simps Suc.IH mod_mult2_eq power_Suc)
qed (simp add: to_le_def)

lemma le_value_append: "le_value (bs @ cs) = le_value bs + 256 ^ length bs * le_value cs"
  by (induction bs) (simp_all add: algebra_simps)

lemma le_value_zeros [simp]: "le_value (replicate n 0) = 0"
  by (induction n) simp_all

lemma unat_u8: "unat (b :: u8) < 256"
  using unsigned_less [of b] by simp

lemma le_value_less: "le_value bs < 256 ^ length bs"
proof (induction bs)
  case (Cons b bs)
  with unat_u8 [of b] show ?case by simp
qed simp

lemma le_value_inj: "length bs = length cs \<Longrightarrow> le_value bs = le_value cs \<Longrightarrow> bs = cs"
proof (induction bs cs rule: list_induct2)
  case (Cons b bs c cs)
  have "unat b < 256" "unat c < 256" by (rule unat_u8)+
  moreover have e: "unat b + 256 * le_value bs = unat c + 256 * le_value cs" using Cons.prems by simp
  ultimately have "unat b = unat c"
    by (metis mod_less mod_mult_self2)
  with e have "le_value bs = le_value cs" by simp
  with \<open>unat b = unat c\<close> Cons.IH show ?case by (simp add: word_unat_eq_iff)
qed simp

lemma from_to_le:
  assumes "8 * n = LENGTH('a)"
  shows "from_le (to_le n w) = (w :: 'a::len word)"
proof -
  have "(2 :: nat) ^ LENGTH('a) = 256 ^ n" unfolding assms [symmetric] by (simp add: power_mult)
  moreover have "unat w < 2 ^ LENGTH('a)" by (rule unsigned_less)
  ultimately have "unat w < 256 ^ n" by simp
  then show ?thesis by (simp add: from_le_def le_value_to_le)
qed

lemma to_from_le:
  assumes "length bs = n" "8 * n = LENGTH('a)"
  shows "to_le n (from_le bs :: 'a::len word) = bs"
proof (rule le_value_inj)
  have "(2 :: nat) ^ LENGTH('a) = 256 ^ n" unfolding assms(2) [symmetric] by (simp add: power_mult)
  with le_value_less [of bs] assms(1) show "le_value (to_le n (from_le bs :: 'a word)) = le_value bs"
    by (simp add: le_value_to_le from_le_def unat_of_nat)
qed (simp add: assms)

lemma or_push_bit_add:
  fixes a b :: "'a::len word"
  assumes "b < 2 ^ k" "k < LENGTH('a)"
  shows "push_bit k a OR b = push_bit k a + b"
proof (rule disjunctive_add_eq_or [symmetric], rule bit_word_eqI)
  fix n
  show "bit (push_bit k a AND b) n = bit 0 n"
    using bit_less_exp [OF assms, of n] by (auto simp: bit_simps)
qed

lemma push_bit_of_nat_word: "push_bit k (of_nat n :: 'a::len word) = of_nat (2 ^ k * n)"
  by (simp add: push_bit_eq_mult)

lemma of_nat_less_exp: "n < 2 ^ k \<Longrightarrow> k < LENGTH('a) \<Longrightarrow> (of_nat n :: 'a::len word) < 2 ^ k"
proof -
  assume a: "n < 2 ^ k" "k < LENGTH('a)"
  then have "(2 :: nat) ^ k < 2 ^ LENGTH('a)" by simp
  with a have "n < 2 ^ LENGTH('a)" by linarith
  with \<open>2 ^ k < 2 ^ LENGTH('a)\<close> have "unat (of_nat n :: 'a word) = n" "unat (of_nat (2 ^ k) :: 'a word) = 2 ^ k"
    by (simp_all only: unat_of_nat mod_less)
  with a show ?thesis by (simp add: word_less_nat_alt)
qed

lemma mangle_number_of_nat:
  "mangle_number tm ip port =
     of_nat (2 ^ 49 * (unat ip + unat tm) + (2 ^ 17 * unat tm + (unat port + unat tm mod 2 ^ 16)))"
proof -
  let ?t = "unat tm" and ?i = "unat ip" and ?p = "unat port"
  have u: "(ucast tm :: u128) = of_nat ?t" "(ucast ip :: u128) = of_nat ?i" "(ucast port :: u128) = of_nat ?p"
    by simp_all
  have lo: "(of_nat ?p + (of_nat ?t AND 0xFFFF) :: u128) = of_nat (?p + ?t mod 2 ^ 16)"
    by (simp only: and_FFFF_eq_take_bit take_bit_of_nat) (simp only: take_bit_eq_mod of_nat_add)
  have "?p < 2 ^ LENGTH(16)" "?t < 2 ^ LENGTH(32)" "?i < 2 ^ LENGTH(32)"
    by (rule unsigned_less)+
  then have b: "?p + ?t mod 2 ^ 16 < 2 ^ 17" "2 ^ 17 * ?t + (?p + ?t mod 2 ^ 16) < 2 ^ 49"
    by simp_all
  have o: "push_bit 17 x OR of_nat (?p + ?t mod 2 ^ 16) = push_bit 17 x + of_nat (?p + ?t mod 2 ^ 16)"
    "push_bit 49 x OR of_nat (2 ^ 17 * ?t + (?p + ?t mod 2 ^ 16))
      = push_bit 49 x + of_nat (2 ^ 17 * ?t + (?p + ?t mod 2 ^ 16))" for x :: u128
    by (rule or_push_bit_add [OF of_nat_less_exp [OF b(1)]] or_push_bit_add [OF of_nat_less_exp [OF b(2)]]; simp)+
  have m1: "push_bit 17 (of_nat ?t :: u128) OR of_nat (?p + ?t mod 2 ^ 16)
      = of_nat (2 ^ 17 * ?t + (?p + ?t mod 2 ^ 16))"
    by (simp only: o, simp only: push_bit_of_nat_word, simp only: of_nat_add)
  have m2: "push_bit 49 (of_nat (?i + ?t) :: u128) OR of_nat (2 ^ 17 * ?t + (?p + ?t mod 2 ^ 16))
      = of_nat (2 ^ 49 * (?i + ?t) + (2 ^ 17 * ?t + (?p + ?t mod 2 ^ 16)))"
    by (simp only: o, simp only: push_bit_of_nat_word, simp only: of_nat_add)
  have m0: "(of_nat ?i + of_nat ?t :: u128) = of_nat (?i + ?t)" by simp
  show ?thesis
    by (simp only: mangle_number_def Let_def u lo or.assoc m0 m1 m2)
qed

lemma mangle_number_bound:
  "2 ^ 49 * (unat (ip :: u32) + unat (tm :: u32)) + (2 ^ 17 * unat tm + (unat (port :: u16) + unat tm mod 2 ^ 16)) < 2 ^ 83"
proof -
  have "unat port < 2 ^ LENGTH(16)" "unat tm < 2 ^ LENGTH(32)" "unat ip < 2 ^ LENGTH(32)"
    by (rule unsigned_less)+
  then show ?thesis by simp
qed

lemma le_value_strip: "le_value (strip_padding bs) = le_value bs"
proof (induction bs rule: rev_induct)
  case (snoc b bs)
  then show ?case by (auto simp: strip_padding_def le_value_append)
qed (simp add: strip_padding_def)

lemma length_strip: "length (strip_padding bs) \<le> length bs"
  using length_dropWhile_le [of "\<lambda>b. b = 0" "rev bs"] by (simp add: strip_padding_def)

lemma drop_bit_of_nat_word:
  assumes "N < 2 ^ LENGTH('a)"
  shows "drop_bit k (of_nat N :: 'a::len word) = of_nat (N div 2 ^ k)"
proof -
  have "N div 2 ^ k < 2 ^ LENGTH('a)" using assms div_le_dividend le_less_trans by blast
  with assms show ?thesis
    by (simp only: word_unat_eq_iff unat_drop_bit_eq unat_of_nat mod_less) (simp only: drop_bit_eq_div)
qed

lemma take_bit_of_nat_word: "take_bit k (of_nat N :: 'a::len word) = of_nat (N mod 2 ^ k)"
  by (simp only: take_bit_of_nat) (simp only: take_bit_eq_mod)

lemma and_mask_numerals:
  "x AND 0xFFFFFFFF = take_bit 32 (x :: u128)" "x AND 0xFFFFFF = take_bit 24 x" "x AND 0xFFFF = take_bit 16 x"
  by (simp_all add: take_bit_eq_mask mask_eq_exp_minus_1)

lemma mangle_fields:
  fixes i t p :: nat
  assumes "p < 2 ^ 16" "t < 2 ^ 32"
  defines "N \<equiv> 2 ^ 49 * (i + t) + (2 ^ 17 * t + (p + t mod 2 ^ 16))"
  shows "N div 2 ^ 49 = i + t" "N div 2 ^ 17 mod 2 ^ 32 = t"
    "N mod 2 ^ 24 = (2 ^ 17 * (t mod 2 ^ 7) + p) + t mod 2 ^ 16"
proof -
  have lo: "p + t mod 2 ^ 16 < 2 ^ 17" using assms by simp
  then have m: "2 ^ 17 * t + (p + t mod 2 ^ 16) < 2 ^ 49" using assms by simp
  show "N div 2 ^ 49 = i + t" unfolding N_def by (subst div_mult_self4) (use m in simp_all)
  have "N = 2 ^ 17 * (2 ^ 32 * (i + t) + t) + (p + t mod 2 ^ 16)" unfolding N_def by simp
  then have "N div 2 ^ 17 = 2 ^ 32 * (i + t) + t"
    using lo by (metis add.right_neutral div_less div_mult_self4 add.commute power_not_zero zero_neq_numeral)
  then show "N div 2 ^ 17 mod 2 ^ 32 = t"
    by (simp only: mod_mult_self4 mod_less [OF assms(2)])
  obtain q r where qr: "q = t div 2 ^ 7" "r = t mod 2 ^ 7" by simp
  then have t: "t = 128 * q + r" by simp
  have "2 ^ 49 * (i + t) + (2 ^ 17 * t + x) = 2 ^ 24 * (2 ^ 25 * (i + t) + q) + (2 ^ 17 * r + x)" for x
    unfolding t by simp
  then have "N = 2 ^ 24 * (2 ^ 25 * (i + t) + t div 2 ^ 7) + (2 ^ 17 * (t mod 2 ^ 7) + (p + t mod 2 ^ 16))"
    unfolding N_def qr .
  moreover have "2 ^ 17 * (t mod 2 ^ 7) + (p + t mod 2 ^ 16) < 2 ^ 24"
  proof -
    have "t mod 2 ^ 7 \<le> 127" by simp
    then show ?thesis using lo by simp
  qed
  ultimately show "N mod 2 ^ 24 = (2 ^ 17 * (t mod 2 ^ 7) + p) + t mod 2 ^ 16"
    by (metis add.assoc mod_less mod_mult_self4)
qed

lemma ucast_low:
  assumes "unat (port :: u16) < 2 ^ 16"
  shows "ucast (of_nat (2 ^ 17 * m + unat port) :: u128) = port"
proof -
  have "(2 ^ 17 * m + unat port) mod 2 ^ 128 mod 2 ^ 16 = (2 ^ 17 * m + unat port) mod 2 ^ 16"
    by (rule mod_mod_cancel) (simp add: le_imp_power_dvd)
  also have "\<dots> = (2 ^ 16 * (2 * m) + unat port) mod 2 ^ 16" by simp
  also have "\<dots> = unat port" using assms by (simp only: mod_mult_self4 mod_less)
  finally have "take_bit 16 (take_bit 128 (2 ^ 17 * m + unat port)) = unat port"
    by (simp only: take_bit_eq_mod)
  moreover have len: "LENGTH(16) = 16" "LENGTH(128) = 128" by simp_all
  ultimately show ?thesis
    by (simp only: word_unat_eq_iff unsigned_ucast_eq unsigned_take_bit_eq unsigned_of_nat of_nat_id len)
qed

lemma mangle_decode_v4:
  fixes tm :: u32 and ip :: u32 and port :: u16
  assumes v: "le_value bs = 2 ^ 49 * (unat ip + unat tm) + (2 ^ 17 * unat tm + (unat port + unat tm mod 2 ^ 16))"
    and l: "length bs \<le> 16"
  shows "mangle_decode bs = SockV4 (ipv4_from (to_le 4 ip)) port"
proof -
  let ?t = "unat tm" and ?i = "unat ip" and ?p = "unat port"
  define N where "N = 2 ^ 49 * (?i + ?t) + (2 ^ 17 * ?t + (?p + ?t mod 2 ^ 16))"
  have "?p < 2 ^ LENGTH(16)" "?t < 2 ^ LENGTH(32)" "?i < 2 ^ LENGTH(32)"
    by (rule unsigned_less)+
  then have b: "?p < 2 ^ 16" "?t < 2 ^ 32" "?i < 2 ^ 32" by simp_all
  have N: "N < 2 ^ 83" unfolding N_def using b by simp
  define number :: u128 where "number = of_nat N"
  have n: "from_le (bs @ replicate (16 - length bs) 0) = number"
    by (simp add: from_le_def le_value_append v number_def N_def)
  have l128: "N < 2 ^ LENGTH(128)" using N by simp
  note fields = mangle_fields [OF b(1,2), of ?i, folded N_def]
  have u: "(ucast tm :: u128) = of_nat ?t" by simp
  have tm: "drop_bit 17 number AND 0xFFFFFFFF = ucast tm"
    by (simp only: number_def drop_bit_of_nat_word [OF l128] and_mask_numerals take_bit_of_nat_word fields of_nat_unat)
  have "drop_bit 49 number = of_nat ?i + of_nat ?t"
    by (simp only: number_def drop_bit_of_nat_word [OF l128] fields of_nat_add)
  then have ip: "ucast (drop_bit 49 number - ucast tm) = ip"
    by (simp add: unsigned_ucast_eq take_bit_word_eq_self)
  have "number AND 0xFFFFFF = of_nat (2 ^ 17 * (?t mod 2 ^ 7) + ?p) + of_nat (?t mod 2 ^ 16)"
    by (simp only: number_def and_mask_numerals take_bit_of_nat_word fields of_nat_add)
  moreover have "ucast tm AND 0xFFFF = (of_nat (?t mod 2 ^ 16) :: u128)"
    by (simp only: u and_mask_numerals take_bit_of_nat_word)
  ultimately have "(number AND 0xFFFFFF) - (ucast tm AND 0xFFFF) = of_nat (2 ^ 17 * (?t mod 2 ^ 7) + ?p)"
    by (simp only: add_diff_cancel_right')
  then have port: "ucast ((number AND 0xFFFFFF) - (ucast tm AND 0xFFFF)) = port"
    by (simp only: ucast_low [OF b(1)])
  show ?thesis
    using l by (simp only: mangle_decode_def n tm Let_def ip port) simp
qed

definition without_scope :: "socket_addr \<Rightarrow> socket_addr" where
  "without_scope a = (case a of SockV4 ip port \<Rightarrow> SockV4 ip port | SockV6 ip port _ _ \<Rightarrow> SockV6 ip port 0 0)"

text \<open>
  A mangled address is read back exactly, whatever the clock said: decoding gives the address after
  \<open>try_into_v4\<close>, without flow information and scope. So an address of IPv4 and an ordinary address
  of IPv6 survive; an IPv6 address whose first 96 bits are zero, other than \<open>::1\<close>, comes back as an
  address of IPv4.
\<close>

theorem mangle_roundtrip:
  "mangle_decode (mangle_encode tm a) = without_scope (try_into_v4 a)"
proof (cases "try_into_v4 a")
  case (SockV4 ip port)
  define bs where "bs = strip_padding (to_le 16 (mangle_number tm (from_le (ipv4_octets ip)) port))"
  have "le_value bs = unat (mangle_number tm (from_le (ipv4_octets ip)) port) mod 256 ^ 16"
    by (simp only: bs_def le_value_strip le_value_to_le)
  moreover have "(256 :: nat) ^ 16 = 2 ^ LENGTH(128)" by simp
  ultimately have "le_value bs = unat (mangle_number tm (from_le (ipv4_octets ip)) port)"
    by (simp only: mod_less [OF unsigned_less])
  also have "\<dots> = 2 ^ 49 * (unat (from_le (ipv4_octets ip) :: u32) + unat tm)
      + (2 ^ 17 * unat tm + (unat port + unat tm mod 2 ^ 16))"
    unfolding mangle_number_of_nat unat_of_nat
    by (rule mod_less [OF less_trans [OF mangle_number_bound]]) simp
  finally have "mangle_decode bs = SockV4 (ipv4_from (to_le 4 (from_le (ipv4_octets ip) :: u32))) port"
    by (rule mangle_decode_v4) (use length_strip [of "to_le 16 _"] in \<open>simp add: bs_def\<close>)
  moreover have "ipv4_from (to_le 4 (from_le (ipv4_octets ip) :: u32)) = ip"
    by (simp add: to_from_le ipv4_octets_def ipv4_from_def from_to_le)
  ultimately show ?thesis
    by (simp add: SockV4 mangle_encode_def bs_def without_scope_def)
next
  case (SockV6 ip port fl sc)
  then show ?thesis
    by (simp add: mangle_encode_def mangle_decode_def without_scope_def ipv6_from_def ipv6_octets_def from_to_le)
qed

section \<open>Hosts with a port\<close>

lemma split_chars_none: "\<not> list_ex sep s \<Longrightarrow> split_chars sep s = [s]"
  by (induction s) simp_all

lemma split_chars_two:
  "\<not> list_ex sep s \<Longrightarrow> sep c \<Longrightarrow> \<not> list_ex sep t \<Longrightarrow> split_chars sep (s @ c # t) = [s, t]"
  by (induction s) (simp_all add: split_chars_none)

lemma digit_of_char: "d < 10 \<Longrightarrow> digit_value 10 (char_of (48 + d)) = Some d"
  by (simp add: digit_value_def)

lemma show_nat_all_digits: "all_digits1 (show_nat n)"
proof (induction n rule: show_nat.induct)
  case (1 n)
  then show ?case
    by (simp add: show_nat.simps [of n] all_digits1_def digit_of_char)
qed

lemma length_show_nat: "length (show_nat n) \<le> Suc k \<longleftrightarrow> n < 10 ^ Suc k"
proof (induction k arbitrary: n)
  case 0
  have "show_nat m \<noteq> []" for m using show_nat_all_digits [of m] by (auto simp: all_digits1_def)
  then show ?case by (simp add: show_nat.simps [of n])
next
  case (Suc k)
  have d: "n div 10 < 10 ^ Suc k \<longleftrightarrow> n < 10 ^ Suc (Suc k)"
    by (simp add: div_less_iff_less_mult mult.commute)
  show ?case
  proof (cases "n < 10")
    case True
    then have "n < 10 ^ Suc (Suc k)" by (rule less_le_trans) simp
    with True show ?thesis by (simp add: show_nat.simps [of n])
  next
    case False
    then have "length (show_nat n) = Suc (length (show_nat (n div 10)))" by (simp add: show_nat.simps [of n])
    with Suc [of "n div 10"] d show ?thesis by (simp only: Suc_le_mono)
  qed
qed

lemma digit_chars: "digit_value 10 c \<noteq> None \<Longrightarrow> digit_value 16 c \<noteq> None \<and> c \<noteq> CHR '':'' \<and> c \<noteq> CHR '']'' \<and> c \<noteq> CHR ''-'' \<and> c \<noteq> CHR ''+''"
  by (auto simp: digit_value_def Let_def split: if_splits)

lemma show_nat_chars: "c \<in> set (show_nat n) \<Longrightarrow> digit_value 10 c \<noteq> None"
  using show_nat_all_digits [of n] by (simp add: all_digits1_def list_all_iff)

lemma show_positive:
  assumes "0 <s (port :: i32)"
  shows "show_i32 port = show_nat (unat port)" "parse_i32_or_0 (show_nat (unat port)) = port"
    "0 < unat port"
proof -
  have s: "0 < sint port" using assms by (simp add: word_sless_alt)
  have l: "sint port < 2 ^ 31" using sint_lt [of port] by simp
  have "uint port = sint port mod 2 ^ 32"
    using uint_word_of_int [of "sint port", where ?'a = 32] by simp
  then have u: "uint port = sint port" using s l by simp
  show "show_i32 port = show_nat (unat port)" using assms s by (simp add: show_i32_def word_sless_alt)
  have "show_nat (unat port) \<noteq> []" using show_nat_all_digits [of "unat port"] by (simp add: all_digits1_def)
  then have "show_nat (unat port) ! 0 \<in> set (show_nat (unat port))" by simp
  then have c: "show_nat (unat port) ! 0 \<noteq> CHR ''-''" "show_nat (unat port) ! 0 \<noteq> CHR ''+''"
    using show_nat_chars digit_chars by blast+
  have v: "int (unat port) < 2 ^ 31" using u l by simp
  then have "int (unat port) < int 2147483648" by simp
  then have "unat port < 2147483648" by (simp only: of_nat_less_iff)
  show "parse_i32_or_0 (show_nat (unat port)) = port"
    using c \<open>unat port < 2147483648\<close>
    by (simp add: parse_i32_or_0_def show_nat_all_digits read_show_nat)
  show "0 < unat port" using assms by (auto simp: word_sless_alt unat_gt_0 intro: ccontr)
qed

lemma is_hex_group_show: "is_hex_group (show_nat n) \<longleftrightarrow> n < 10000"
proof -
  have "list_all is_hex_digit (show_nat n)" "show_nat n \<noteq> []"
    using show_nat_chars [of _ n] digit_chars show_nat_all_digits [of n]
    by (auto simp: list_all_iff is_hex_digit_def all_digits1_def)
  then show ?thesis using length_show_nat [of n 3] by (simp add: is_hex_group_def)
qed

lemma is_ipv6_two:
  assumes "CHR '':'' \<notin> set s" "CHR '':'' \<notin> set t"
  shows "is_ipv6_groups (s @ CHR '':'' # t) \<longleftrightarrow> is_hex_group s \<and> is_hex_group t"
proof -
  have "split_chars (\<lambda>c. c = CHR '':'') (s @ CHR '':'' # t) = [s, t]"
    using assms by (intro split_chars_two) (auto simp: list_ex_iff)
  then show ?thesis by (auto simp: is_ipv6_groups_def is_hex_group_def)
qed

lemma ipv6_needs_colon: "is_ipv6_groups s \<Longrightarrow> CHR '':'' \<in> set s"
proof (rule ccontr)
  assume i: "is_ipv6_groups s" and "CHR '':'' \<notin> set s"
  then have "split_chars (\<lambda>c. c = CHR '':'') s = [s]" by (intro split_chars_none) (auto simp: list_ex_iff)
  with i show False by (simp add: is_ipv6_groups_def)
qed

lemma not_bracketed:
  assumes "CHR '':'' \<notin> set host"
  shows "CHR '']'' \<notin> set t \<Longrightarrow> is_ipv6_str (host @ CHR '':'' # t) \<longleftrightarrow> is_ipv6_groups (host @ CHR '':'' # t)"
    "\<not> is_ipv6_str host"
proof -
  show "\<not> is_ipv6_str host"
    using assms ipv6_needs_colon [of host] ipv6_needs_colon [of "takeWhile (\<lambda>c. c \<noteq> CHR '']'') (tl host)"]
      set_takeWhileD [of "CHR '':''" _ "tl host"] list.set_sel(2) [of host]
    by (cases host) (auto simp: is_ipv6_str_def Let_def)
  assume t: "CHR '']'' \<notin> set t"
  have "\<not> (is_ipv6_groups (takeWhile (\<lambda>c. c \<noteq> CHR '']'') (h @ CHR '':'' # t))
      \<and> starts_with (dropWhile (\<lambda>c. c \<noteq> CHR '']'') (h @ CHR '':'' # t)) '']:'')"
    if h: "CHR '':'' \<notin> set h" for h
  proof (cases "CHR '']'' \<in> set h")
    case True
    then have "takeWhile (\<lambda>c. c \<noteq> CHR '']'') (h @ CHR '':'' # t) = takeWhile (\<lambda>c. c \<noteq> CHR '']'') h"
      by (intro takeWhile_append1) auto
    then show ?thesis using ipv6_needs_colon h set_takeWhileD by metis
  next
    case False
    with t have "dropWhile (\<lambda>c. c \<noteq> CHR '']'') (h @ CHR '':'' # t) = []" by (auto simp: dropWhile_eq_Nil_conv)
    then show ?thesis by (simp only: starts_with_def take_Nil) simp
  qed
  then show "is_ipv6_str (host @ CHR '':'' # t) \<longleftrightarrow> is_ipv6_groups (host @ CHR '':'' # t)"
    using assms by (cases host) (auto simp: is_ipv6_str_def Let_def)
qed

text \<open>
  Putting a port behind a host and splitting it off again gives the host and the port back, for every
  host without a colon and every positive port, except for a host of one to four hexadecimal digits with a
  port of at most four digits: \<open>cafe:8080\<close> is taken for an IPv6 address and is not split.
\<close>

theorem host_port_roundtrip:
  assumes "CHR '':'' \<notin> set host" "0 <s port"
  shows "split_host_port (check_port host port) =
    (if is_hex_group host \<and> unat port < 10000 then None else Some (host, port))"
proof -
  let ?p = "show_nat (unat port)"
  have p: "CHR '':'' \<notin> set ?p" "CHR '']'' \<notin> set ?p" using show_nat_chars digit_chars by blast+
  have c: "check_port host port = host @ CHR '':'' # ?p"
    using assms by (simp add: check_port_def not_bracketed show_positive)
  have six: "is_ipv6_str (host @ CHR '':'' # ?p) \<longleftrightarrow> is_hex_group host \<and> unat port < 10000"
    using not_bracketed(1) [OF assms(1) p(2)] is_ipv6_two [OF assms(1) p(1)] is_hex_group_show by blast
  have "split_chars (\<lambda>c. c = CHR '':'') (host @ CHR '':'' # ?p) = [host, ?p]"
    using assms p by (intro split_chars_two) (auto simp: list_ex_iff)
  moreover have "\<not> starts_with (host @ CHR '':'' # ?p) ''[''" if "is_hex_group host"
    using that by (cases host) (auto simp: starts_with_def is_hex_group_def is_hex_digit_def digit_value_def)
  ultimately show ?thesis
    using assms unfolding c split_host_port_def
    by (auto simp: six split_positive_def show_positive)
qed

theorem host_port_roundtrip_witness:
  "split_host_port (check_port ''example.org'' 21116) = Some (''example.org'', 21116)"
  by (subst host_port_roundtrip) (simp_all add: is_hex_group_def word_sless_alt)

end
