(* ===== verification/Login_Failures.thy ===== *)
theory Login_Failures
  imports Net_Address
begin

text \<open>
  The count of wrong passwords and wrong second factors per address (\<open>LOGIN_FAILURES\<close>,
  \<open>get_ipv6_prefixes\<close>, \<open>update_failure\<close> and \<open>check_failure\<close> of \<open>src/server/connection.rs\<close>), and how many
  guesses it lets through.
\<close>

section \<open>Counters\<close>

text \<open>
  For each key the minute of the last failure, the failures in that minute and all failures. The keys
  are the texts of addresses and of IPv6 prefixes.
\<close>

type_synonym failure = "i32 \<times> i32 \<times> i32"
type_synonym failures = "(string, failure) hashmap"

definition mask_u128 :: "u128 \<Rightarrow> nat \<Rightarrow> u128" where
  "mask_u128 addr prefix =
     (let m = (if prefix = 0 \<or> 128 < prefix then 0 else push_bit (128 - prefix) (- 1)) in addr AND m)"

definition get_ipv6_prefixes :: "string \<Rightarrow> (string \<times> string \<times> string) option" where
  "get_ipv6_prefixes ip =
     (let ip_only = trim_spaces (hd (split_chars (\<lambda>c. c = CHR ''%'') ip)) in
      case ipv6_from_str ip_only of
        None \<Rightarrow> None
      | Some a \<Rightarrow>
          Some (show_ipv6 (mask_u128 a 64) @ ''/64'', show_ipv6 (mask_u128 a 56) @ ''/56'',
                show_ipv6 (mask_u128 a 48) @ ''/48''))"

definition bump :: "failure \<Rightarrow> i32 \<Rightarrow> failure" where
  "bump cur time =
     (let (minute, in_minute, total) = cur in
      if minute = time then (minute, in_minute + 1, total + 1) else (time, 1, total + 1))"

definition failure_of :: "string \<Rightarrow> failures \<Rightarrow> failure" where
  "failure_of key m = (case hm_get m key of Some f \<Rightarrow> f | None \<Rightarrow> (0, 0, 0))"

fun bump_prefixes :: "i32 \<Rightarrow> string list \<Rightarrow> failures \<Rightarrow> failures" where
  "bump_prefixes time [] m = m"
| "bump_prefixes time (key # keys) m =
     bump_prefixes time keys (hm_insert key (bump (failure_of key m) time) m)"

definition update_failure :: "string \<Rightarrow> failure \<times> i32 \<Rightarrow> bool \<Rightarrow> failures \<Rightarrow> failures" where
  "update_failure ip ft remove m =
     (let (failure, time) = ft in
      if remove then
        (if fst failure \<noteq> 0 then
           case get_ipv6_prefixes ip of
             Some (p64, p56, p48) \<Rightarrow> hm_remove ip (hm_remove p48 (hm_remove p56 (hm_remove p64 m)))
           | None \<Rightarrow> hm_remove ip m
         else m)
      else case get_ipv6_prefixes ip of
        Some (p64, p56, p48) \<Rightarrow> hm_insert ip (bump failure time) (bump_prefixes time [p64, p56, p48] m)
      | None \<Rightarrow> hm_insert ip (bump failure time) m)"

datatype alarm = IpWhitelist | ExceedThirtyAttempts | SixAttemptsWithinOneMinute | ExceedIPv6PrefixAttempts

text \<open>A refusal: the error sent to the peer and the alarm raised.\<close>

type_synonym refusal = "string \<times> alarm"

definition check_failure_ipv6_prefix :: "i32 \<Rightarrow> failures \<Rightarrow> string \<Rightarrow> nat \<Rightarrow> i32 \<Rightarrow> ((failure \<times> i32) \<times> refusal) option" where
  "check_failure_ipv6_prefix time m prefix prefix_num thresh =
     (let failure_prefix = failure_of prefix m in
      if thresh <s snd (snd failure_prefix) then
        Some ((failure_prefix, time),
              ''Too many wrong attempts for IPv6 prefix /'' @ show_nat prefix_num, ExceedIPv6PrefixAttempts)
      else None)"

text \<open>\<open>now\<close>: the milliseconds since 1970.\<close>

definition minute_of :: "int \<Rightarrow> i32" where
  "minute_of now = of_int (now div 60000)"

definition check_address :: "string \<Rightarrow> i32 \<Rightarrow> failures \<Rightarrow> (failure \<times> i32) \<times> refusal option" where
  "check_address ip time m =
     (let failure = failure_of ip m; (minute, in_minute, total) = failure in
      ((failure, time),
       if 30 <s total then Some (''Too many wrong attempts'', ExceedThirtyAttempts)
       else if time = minute \<and> 6 <s in_minute then Some (''Please try 1 minute later'', SixAttemptsWithinOneMinute)
       else None))"

definition check_failure :: "string \<Rightarrow> int \<Rightarrow> failures \<Rightarrow> (failure \<times> i32) \<times> refusal option" where
  "check_failure ip now m =
     (let time = minute_of now in
      case get_ipv6_prefixes ip of
        None \<Rightarrow> check_address ip time m
      | Some (p64, p56, p48) \<Rightarrow>
          (case check_failure_ipv6_prefix time m p64 64 60 of
             Some (ft, r) \<Rightarrow> (ft, Some r)
           | None \<Rightarrow>
               (case check_failure_ipv6_prefix time m p56 56 80 of
                  Some (ft, r) \<Rightarrow> (ft, Some r)
                | None \<Rightarrow>
                    (case check_failure_ipv6_prefix time m p48 48 100 of
                       Some (ft, r) \<Rightarrow> (ft, Some r)
                     | None \<Rightarrow> check_address ip time m))))"

section \<open>Attempts one after the other\<close>

text \<open>
  An attempt: the address it comes from, the time, and whether the password (or the code) is right. It is
  examined only if the check lets it through, and counted by what the check read.
\<close>

record attempt =
  at_addr :: ip_addr
  at_now :: int
  at_right :: bool

definition attempt_ip :: "attempt \<Rightarrow> string" where
  "attempt_ip a = show_ip (at_addr a)"

definition try_attempt :: "attempt \<Rightarrow> failures \<Rightarrow> bool \<times> failures" where
  "try_attempt a m =
     (case check_failure (attempt_ip a) (at_now a) m of
        (ft, Some _) \<Rightarrow> (False, m)
      | (ft, None) \<Rightarrow> (True, update_failure (attempt_ip a) ft (at_right a) m))"

fun examined :: "attempt list \<Rightarrow> failures \<Rightarrow> attempt list" where
  "examined [] m = []"
| "examined (a # as) m =
     (let (ok, m) = try_attempt a m in if ok then a # examined as m else examined as m)"

section \<open>The keys of an address\<close>

text \<open>The counters an address counts on, most general last, with the number of failures each allows.\<close>

definition counters_of :: "string \<Rightarrow> (string \<times> nat) list" where
  "counters_of ip =
     (case get_ipv6_prefixes ip of
        None \<Rightarrow> [(ip, 30)]
      | Some (p64, p56, p48) \<Rightarrow> [(ip, 30), (p64, 60), (p56, 80), (p48, 100)])"

lemma show_nat_safe: "c \<in> set (show_nat n) \<Longrightarrow> c \<noteq> CHR ''/'' \<and> c \<noteq> CHR '':'' \<and> c \<noteq> CHR ''%''"
  using show_nat_chars [of c n] by (auto simp: digit_value_def Let_def split: if_splits)

lemma set_join_with: "c \<in> set (join_with sep xs) \<Longrightarrow> c \<in> set sep \<or> (\<exists>x \<in> set xs. c \<in> set x)"
  by (induction sep xs rule: join_with.induct) auto

lemma show_ipv4_safe: "c \<in> set (show_ipv4 ip) \<Longrightarrow> c \<noteq> CHR ''/'' \<and> c \<noteq> CHR '':'' \<and> c \<noteq> CHR ''%''"
  by (auto simp: show_ipv4_def dest!: set_join_with dest: show_nat_safe)

lemma hex_digit_safe: "d < 16 \<Longrightarrow> hex_digit d \<noteq> CHR ''/''"
  by (auto simp: hex_digit_def dest: arg_cong [where f = "of_char :: char \<Rightarrow> nat"])

lemma show_hex_safe: "CHR ''/'' \<notin> set (show_hex n)"
proof (induction n rule: show_hex.induct)
  case (1 n)
  then show ?case using hex_digit_safe [of n] hex_digit_safe [of "n mod 16"]
    by (auto simp: show_hex.simps [of n])
qed

lemma show_segments_safe: "CHR ''/'' \<notin> set (show_segments ss)"
  by (auto simp: show_segments_def show_hex_safe dest!: set_join_with)

lemma show_ip_safe: "CHR ''/'' \<notin> set (show_ip a)"
proof (cases a)
  case (IpV6 ip)
  then show ?thesis
    using show_ipv4_safe show_segments_safe
    by (auto simp: show_ipv6_def Let_def split: option.split prod.split)
qed (use show_ipv4_safe in auto)

text \<open>A text without a colon is no IPv6 address: reading consumes the text from the left.\<close>

lemma read_digits_rest:
  "read_digits radix bound maxd cnt acc s = Some (v, k, rest) \<Longrightarrow> set rest \<subseteq> set s"
proof (induction s arbitrary: cnt acc)
  case (Cons c s)
  then show ?case by (fastforce split: option.splits if_splits simp: Let_def)
qed simp

lemma read_number_rest: "read_number radix bound maxd z s = Some (v, rest) \<Longrightarrow> set rest \<subseteq> set s"
  by (auto simp: read_number_def split: option.splits if_splits dest!: read_digits_rest)

lemma read_separator_rest: "read_separator sep i s = Some rest \<Longrightarrow> set rest \<subseteq> set s"
  by (auto simp: read_separator_def read_given_char_def split: if_splits list.splits)

lemma read_ipv4_rest: "read_ipv4_parts k i s = Some (vs, rest) \<Longrightarrow> set rest \<subseteq> set s"
proof (induction k i s arbitrary: vs rest rule: read_ipv4_parts.induct)
  case (2 k i s)
  then obtain s1 v s2 vs' where
    "read_separator CHR ''.'' i s = Some s1" "read_number 10 255 3 False s1 = Some (v, s2)"
    "read_ipv4_parts k (i + 1) s2 = Some (vs', rest)"
    by (auto split: option.splits)
  moreover from this have "set rest \<subseteq> set s2" using "2.IH" by blast
  moreover have "set s2 \<subseteq> set s1" "set s1 \<subseteq> set s"
    using calculation by (auto dest: read_number_rest read_separator_rest)
  ultimately show ?case by blast
qed simp

lemma separator_needs_colon: "CHR '':'' \<notin> set s \<Longrightarrow> 0 < i \<Longrightarrow> read_separator CHR '':'' i s = None"
  by (auto simp: read_separator_def read_given_char_def split: list.split)

lemma read_groups_no_colon:
  assumes "CHR '':'' \<notin> set s"
  shows "0 < i \<Longrightarrow> read_groups k i s = ([], False, s)"
    "read_groups k i s = (gs, v4, rest) \<Longrightarrow> length gs \<le> 2 \<and> CHR '':'' \<notin> set rest"
proof -
  have later: "read_groups k i s = ([], False, s)" if "0 < i" "CHR '':'' \<notin> set s" for s and i :: nat and k
    using that by (cases k) (simp_all add: separator_needs_colon)
  show "0 < i \<Longrightarrow> read_groups k i s = ([], False, s)" using later assms by blast
  assume r: "read_groups k i s = (gs, v4, rest)"
  show "length gs \<le> 2 \<and> CHR '':'' \<notin> set rest"
  proof (cases "0 < i")
    case True
    with r later assms show ?thesis by auto
  next
    case False
    then have i: "i = 0" by simp
    show ?thesis
    proof (cases k)
      case (Suc k')
      have v: "CHR '':'' \<notin> set r" if "read_ipv4_addr s = Some (x, r)" for x r
        using that assms by (auto simp: read_ipv4_addr_def dest!: read_ipv4_rest)
      have n: "CHR '':'' \<notin> set r" if "read_number 16 65535 4 True s = Some (x, r)" for x r
        using that assms by (auto dest!: read_number_rest)
      show ?thesis
        using r assms v n later
        by (auto simp: Suc i read_separator_def Let_def split: option.splits if_splits prod.splits)
    qed (use r assms in auto)
  qed
qed

lemma no_colon_not_ipv6:
  assumes "CHR '':'' \<notin> set s"
  shows "ipv6_from_str s = None"
proof -
  obtain gs v4 rest where r: "read_groups 8 0 s = (gs, v4, rest)" by (cases "read_groups 8 0 s") auto
  with read_groups_no_colon(2) [OF assms r] have "length gs \<noteq> 8" "CHR '':'' \<notin> set rest" by simp_all
  then have "read_ipv6_addr s = None"
    by (auto simp: read_ipv6_addr_def r read_given_char_def split: list.split)
  then show ?thesis by (simp add: ipv6_from_str_def)
qed

lemma no_colon_no_prefixes:
  assumes "CHR '':'' \<notin> set ip"
  shows "get_ipv6_prefixes ip = None"
proof -
  have "CHR '':'' \<notin> set (hd (split_chars (\<lambda>c. c = CHR ''%'') ip))"
    using assms by (induction ip) (auto split: list.split)
  with set_trim_spaces have "CHR '':'' \<notin> set (trim_spaces (hd (split_chars (\<lambda>c. c = CHR ''%'') ip)))"
    by blast
  then show ?thesis by (simp add: get_ipv6_prefixes_def no_colon_not_ipv6)
qed

lemma counters_of_ipv4: "counters_of (show_ip (IpV4 a)) = [(show_ip (IpV4 a), 30)]"
proof -
  have "CHR '':'' \<notin> set (show_ipv4 a)" using show_ipv4_safe by blast
  then show ?thesis by (simp add: counters_of_def no_colon_no_prefixes)
qed

lemma prefixes_end:
  assumes "get_ipv6_prefixes ip = Some (p64, p56, p48)"
  shows "\<exists>a b c. p64 = a @ ''/64'' \<and> p56 = b @ ''/56'' \<and> p48 = c @ ''/48''"
  using assms by (auto simp: get_ipv6_prefixes_def Let_def split: option.splits)

section \<open>How many guesses are examined\<close>

text \<open>
  Counters with a limit: an attempt that hits a counter is examined only below the limit and, when wrong,
  adds one; the others leave the counter alone.
\<close>

locale guess_counter =
  fixes hit :: "'k \<Rightarrow> attempt \<Rightarrow> bool"
    and other :: "'k \<Rightarrow> attempt \<Rightarrow> bool"
    and cnt :: "'k \<Rightarrow> failures \<Rightarrow> nat"
    and limit :: "'k \<Rightarrow> nat"
  assumes hit_not_other: "hit k a \<Longrightarrow> \<not> other k a"
    and other_keeps: "other k a \<Longrightarrow> cnt k (snd (try_attempt a m)) = cnt k m"
    and hit_examined: "hit k a \<Longrightarrow> \<not> at_right a \<Longrightarrow> cnt k m \<le> limit k + 1 \<Longrightarrow> fst (try_attempt a m) \<Longrightarrow>
      cnt k m \<le> limit k \<and> cnt k (snd (try_attempt a m)) = cnt k m + 1"
begin

lemma bounded:
  assumes "\<forall>a \<in> set as. hit k a \<and> \<not> at_right a \<or> other k a" "cnt k m \<le> limit k + 1"
  shows "length (filter (hit k) (examined as m)) + cnt k m \<le> limit k + 1"
  using assms
proof (induction as arbitrary: m)
  case (Cons a as)
  obtain ok m' where t: "try_attempt a m = (ok, m')" by fastforce
  have unchanged: "m' = m" if "\<not> ok"
    using t that by (auto simp: try_attempt_def split: prod.splits option.splits)
  show ?case
  proof (cases "ok \<and> hit k a")
    case True
    then have "cnt k m \<le> limit k" "cnt k m' = cnt k m + 1"
      using hit_examined [of k a m] t Cons.prems hit_not_other by auto
    with Cons.IH [of m'] Cons.prems True show ?thesis by (simp add: t)
  next
    case False
    have "cnt k m' = cnt k m"
      using False unchanged other_keeps [of k a m] t Cons.prems by (cases ok) auto
    with Cons.IH [of m'] Cons.prems False show ?thesis by (simp add: t)
  qed
qed simp

end

text \<open>What an attempt does to a counter.\<close>

definition total :: "string \<Rightarrow> failures \<Rightarrow> nat" where
  "total k m = unat (snd (snd (failure_of k m)))"

definition key_limit :: "string \<Rightarrow> nat" where
  "key_limit k =
     (if CHR ''/'' \<notin> set k then 30 else if drop (length k - 3) k = ''/64'' then 60
      else if drop (length k - 3) k = ''/56'' then 80 else 100)"

definition counts_on :: "string \<Rightarrow> attempt \<Rightarrow> bool" where
  "counts_on k a \<longleftrightarrow> k \<in> fst ` set (counters_of (attempt_ip a))"

lemma failure_of_insert [simp]: "failure_of k (hm_insert k' f m) = (if k = k' then f else failure_of k m)"
  by (simp add: failure_of_def)

lemma failure_of_remove [simp]: "failure_of k (hm_remove k' m) = (if k = k' then (0, 0, 0) else failure_of k m)"
  by (simp add: failure_of_def)

lemma attempt_ip_safe: "CHR ''/'' \<notin> set (attempt_ip a)"
  by (simp add: attempt_ip_def show_ip_safe)

lemma counters_limit: "(k, n) \<in> set (counters_of (attempt_ip a)) \<Longrightarrow> n = key_limit k"
  using attempt_ip_safe [of a] prefixes_end [of "attempt_ip a"]
  by (auto simp: counters_of_def key_limit_def split: option.splits)

lemma update_other:
  assumes "k \<notin> fst ` set (counters_of ip)"
  shows "failure_of k (update_failure ip ft remove m) = failure_of k m"
proof (cases "get_ipv6_prefixes ip")
  case None
  with assms show ?thesis by (simp add: counters_of_def update_failure_def split: prod.split)
next
  case (Some p)
  obtain p64 p56 p48 where p: "p = (p64, p56, p48)" by (cases p)
  with Some assms have "k \<noteq> ip" "k \<noteq> p64" "k \<noteq> p56" "k \<noteq> p48" by (auto simp: counters_of_def)
  with Some p show ?thesis by (simp add: update_failure_def split: prod.split)
qed

text \<open>Within one attempt the keys are different, so a wrong guess adds one to each of its counters.\<close>

lemma update_wrong:
  assumes "k \<in> fst ` set (counters_of (attempt_ip a))"
  shows "failure_of k (update_failure (attempt_ip a) (failure_of (attempt_ip a) m, t) False m)
    = bump (failure_of k m) t"
proof (cases "get_ipv6_prefixes (attempt_ip a)")
  case None
  with assms show ?thesis by (simp add: counters_of_def update_failure_def)
next
  case (Some p)
  obtain p64 p56 p48 where p: "p = (p64, p56, p48)" by (cases p)
  with Some prefixes_end [of "attempt_ip a"] attempt_ip_safe [of a]
  have "distinct [attempt_ip a, p64, p56, p48]" by auto
  moreover have "k = attempt_ip a \<or> k = p64 \<or> k = p56 \<or> k = p48"
    using assms Some p by (auto simp: counters_of_def)
  ultimately show ?thesis using Some p by (auto simp: update_failure_def)
qed

lemma check_reads: "check_failure ip now m = (ft, None) \<Longrightarrow> ft = (failure_of ip m, minute_of now)"
  by (auto simp: check_failure_def check_address_def check_failure_ipv6_prefix_def Let_def
      split: option.splits prod.splits if_splits)

lemma check_limits:
  assumes "check_failure ip now m = (ft, None)" "(k, n) \<in> set (counters_of ip)"
  shows "\<not> of_nat n <s snd (snd (failure_of k m))"
  using assms
  by (auto simp: counters_of_def check_failure_def check_address_def check_failure_ipv6_prefix_def Let_def
      split: option.splits prod.splits if_splits)

lemma check_minute:
  assumes "check_failure ip now m = (ft, None)" "fst (failure_of ip m) = minute_of now"
  shows "\<not> 6 <s fst (snd (failure_of ip m))"
  using assms
  by (auto simp: counters_of_def check_failure_def check_address_def check_failure_ipv6_prefix_def Let_def
      split: option.splits prod.splits if_splits)

lemma sint_small:
  assumes "unat (w :: i32) < 2 ^ 31"
  shows "sint w = int (unat w)"
proof -
  have "uint w < 2 ^ 31" using assms by (metis of_nat_less_numeral_power_cancel_iff uint_nat)
  moreover have "- (2 ^ 31) \<le> uint w" using uint_ge_0 [of w] by (rule order_trans [rotated]) simp
  ultimately have "signed_take_bit 31 (uint w) = uint w" by (intro signed_take_bit_int_eq_self)
  then show ?thesis by (simp add: sint_uint)
qed

lemma below_limit:
  assumes "\<not> (of_nat n :: i32) <s w" "unat w \<le> n + 1" "n \<le> 100"
  shows "unat w \<le> n" "unat (w + 1) = unat w + 1"
proof -
  have n: "unat (of_nat n :: i32) = n" using assms(3) by (simp add: unat_of_nat)
  have "sint w = int (unat w)" by (rule sint_small) (use assms in simp)
  moreover have "sint (of_nat n :: i32) = int (unat (of_nat n :: i32))"
    by (rule sint_small) (use assms(3) in \<open>simp add: n del: of_nat_unat\<close>)
  ultimately have "sint w = int (unat w)" "sint (of_nat n :: i32) = int (unat (of_nat n :: i32))" .
  with assms(1) have "int (unat w) \<le> int n" by (simp only: word_sless_alt n not_less)
  then show le: "unat w \<le> n" by (simp only: of_nat_le_iff)
  then have "unat w + 1 < 2 ^ LENGTH(32)" using assms(3) by simp
  then show "unat (w + 1) = unat w + 1" by (simp add: unat_word_ariths)
qed

lemma try_examined:
  assumes "fst (try_attempt a m)"
  shows "check_failure (attempt_ip a) (at_now a) m = ((failure_of (attempt_ip a) m, minute_of (at_now a)), None)"
    "snd (try_attempt a m)
      = update_failure (attempt_ip a) (failure_of (attempt_ip a) m, minute_of (at_now a)) (at_right a) m"
  using assms check_reads [of "attempt_ip a" "at_now a" m]
  by (auto simp: try_attempt_def split: prod.splits option.splits)

lemma try_other:
  assumes "\<not> counts_on k a"
  shows "failure_of k (snd (try_attempt a m)) = failure_of k m"
  using assms update_other [of k "attempt_ip a"]
  by (auto simp: try_attempt_def counts_on_def split: prod.splits option.splits)

lemma try_wrong:
  assumes "counts_on k a" "\<not> at_right a" "fst (try_attempt a m)"
  shows "failure_of k (snd (try_attempt a m)) = bump (failure_of k m) (minute_of (at_now a))"
  using assms try_examined [of a m] update_wrong [of k a m] by (simp add: counts_on_def)

lemma total_bump: "snd (snd (bump f t)) = snd (snd f) + 1"
  by (simp add: bump_def split: prod.split)

lemma key_limit_le: "key_limit k \<le> 100"
  by (simp add: key_limit_def)

lemma counts_on_own: "counts_on (attempt_ip a) a"
  by (cases "get_ipv6_prefixes (attempt_ip a)") (auto simp: counts_on_def counters_of_def image_iff)

interpretation tot: guess_counter counts_on "\<lambda>k a. \<not> counts_on k a" total key_limit
proof unfold_locales
  fix k a m
  assume h: "counts_on k a" "\<not> at_right a" "total k m \<le> key_limit k + 1" "fst (try_attempt a m)"
  obtain n where n: "(k, n) \<in> set (counters_of (attempt_ip a))" using h(1) by (auto simp: counts_on_def)
  then have "n = key_limit k" by (rule counters_limit)
  with check_limits [OF try_examined(1) [OF h(4)] n]
  have "\<not> of_nat (key_limit k) <s snd (snd (failure_of k m))" by simp
  from below_limit [OF this] h(3) key_limit_le [of k]
  show "total k m \<le> key_limit k \<and> total k (snd (try_attempt a m)) = total k m + 1"
    by (simp add: total_def try_wrong [OF h(1,2,4)] total_bump)
qed (simp_all add: total_def try_other)

definition in_minute :: "string \<times> i32 \<Rightarrow> failures \<Rightarrow> nat" where
  "in_minute kt m =
     (let f = failure_of (fst kt) m in if fst f = snd kt then unat (fst (snd f)) else 0)"

definition guess_in :: "string \<times> i32 \<Rightarrow> attempt \<Rightarrow> bool" where
  "guess_in kt a \<longleftrightarrow> attempt_ip a = fst kt \<and> minute_of (at_now a) = snd kt"

interpretation minute: guess_counter guess_in "\<lambda>kt a. \<not> counts_on (fst kt) a" in_minute "\<lambda>_. 6"
proof unfold_locales
  fix kt a m
  assume h: "guess_in kt a" "\<not> at_right a" "in_minute kt m \<le> 6 + 1" "fst (try_attempt a m)"
  then have ip: "attempt_ip a = fst kt" "minute_of (at_now a) = snd kt" by (simp_all add: guess_in_def)
  note c = check_minute [OF try_examined(1) [OF h(4)]]
  have w: "failure_of (fst kt) (snd (try_attempt a m)) = bump (failure_of (fst kt) m) (snd kt)"
    using try_wrong [OF counts_on_own h(2,4)] ip by simp
  show "in_minute kt m \<le> 6 \<and> in_minute kt (snd (try_attempt a m)) = in_minute kt m + 1"
  proof (cases "fst (failure_of (fst kt) m) = snd kt")
    case True
    with c ip have "\<not> of_nat 6 <s fst (snd (failure_of (fst kt) m))" by simp
    from below_limit [OF this] h(3) True show ?thesis
      by (auto simp: in_minute_def w bump_def split: prod.splits)
  next
    case False
    then show ?thesis by (auto simp: in_minute_def w bump_def split: prod.splits)
  qed
qed (auto simp: guess_in_def counts_on_own in_minute_def try_other)

lemma counts_on_address: "CHR ''/'' \<notin> set ip \<Longrightarrow> counts_on ip a \<longleftrightarrow> attempt_ip a = ip"
  using counts_on_own [of a] prefixes_end [of "attempt_ip a"]
  by (cases "get_ipv6_prefixes (attempt_ip a)") (auto simp: counts_on_def counters_of_def)

section \<open>Attempts of connections that run in parallel\<close>

text \<open>
  Connections run in parallel, and each step below is what one of them does under one lock of the counters.
  A connection that gets an attempt reads the counters of the prefixes of its address and then that of the
  address, each under a lock of its own; a counter over its limit ends the attempt. What it read of the
  address it keeps while the password is compared, and hands it to \<open>update_failure\<close>, which takes the lock
  again. An attempt is examined when its last read lets it through.
\<close>

datatype counter_read = ReadPrefix string nat i32 | ReadAddress

definition reads_of :: "string \<Rightarrow> counter_read list" where
  "reads_of ip =
     (case get_ipv6_prefixes ip of
        None \<Rightarrow> [ReadAddress]
      | Some (p64, p56, p48) \<Rightarrow> [ReadPrefix p64 64 60, ReadPrefix p56 56 80, ReadPrefix p48 48 100, ReadAddress])"

datatype try_stage = Reading "counter_read list" | LetIn "failure \<times> i32"

datatype try_step = TryBegin nat attempt | TryRead nat | TryCount nat

record try_state =
  ts_failures :: failures
  ts_open :: "(nat, attempt \<times> try_stage) hashmap"
  ts_examined :: "attempt list"

definition read_counter :: "attempt \<Rightarrow> counter_read \<Rightarrow> failures \<Rightarrow> (failure \<times> i32) option" where
  "read_counter a r m =
     (case r of
        ReadPrefix prefix prefix_num thresh \<Rightarrow>
          (case check_failure_ipv6_prefix (minute_of (at_now a)) m prefix prefix_num thresh of
             Some _ \<Rightarrow> None
           | None \<Rightarrow> Some ((0, 0, 0), minute_of (at_now a)))
      | ReadAddress \<Rightarrow>
          (case check_address (attempt_ip a) (minute_of (at_now a)) m of
             (ft, Some _) \<Rightarrow> None
           | (ft, None) \<Rightarrow> Some ft))"

fun do_try :: "try_step \<Rightarrow> try_state \<Rightarrow> try_state" where
  "do_try (TryBegin c a) s =
     (case hm_get (ts_open s) c of
        None \<Rightarrow> s\<lparr>ts_open := hm_insert c (a, Reading (reads_of (attempt_ip a))) (ts_open s)\<rparr>
      | Some _ \<Rightarrow> s)"
| "do_try (TryRead c) s =
     (case hm_get (ts_open s) c of
        Some (a, Reading (r # rs)) \<Rightarrow>
          (case read_counter a r (ts_failures s) of
             None \<Rightarrow> s\<lparr>ts_open := hm_remove c (ts_open s)\<rparr>
           | Some ft \<Rightarrow>
               if r = ReadAddress then
                 s\<lparr>ts_open := hm_insert c (a, LetIn ft) (ts_open s), ts_examined := ts_examined s @ [a]\<rparr>
               else s\<lparr>ts_open := hm_insert c (a, Reading rs) (ts_open s)\<rparr>)
      | _ \<Rightarrow> s)"
| "do_try (TryCount c) s =
     (case hm_get (ts_open s) c of
        Some (a, LetIn ft) \<Rightarrow>
          s\<lparr>ts_failures := update_failure (attempt_ip a) ft (at_right a) (ts_failures s),
            ts_open := hm_remove c (ts_open s)\<rparr>
      | _ \<Rightarrow> s)"

definition try_steps :: "try_step list \<Rightarrow> try_state \<Rightarrow> try_state" where
  "try_steps xs s = foldl (\<lambda>s x. do_try x s) s xs"

definition nothing_tried :: try_state where
  "nothing_tried = \<lparr>ts_failures = [], ts_open = [], ts_examined = []\<rparr>"

lemma try_steps_simps [simp]: "try_steps [] s = s" "try_steps (x # xs) s = try_steps xs (do_try x s)"
  by (simp_all add: try_steps_def)

text \<open>The attempts on one counter do not overlap: each ends before the next begins; all others may.\<close>

fun one_at_a_time :: "string \<Rightarrow> try_step list \<Rightarrow> try_state \<Rightarrow> bool" where
  "one_at_a_time k [] s = True"
| "one_at_a_time k (x # xs) s =
     ((case x of
         TryBegin c a \<Rightarrow> counts_on k a \<longrightarrow> (\<forall>b \<in> fst ` snd ` set (ts_open s). \<not> counts_on k b)
       | _ \<Rightarrow> True)
      \<and> one_at_a_time k xs (do_try x s))"

text \<open>An attempt whose steps are not interrupted is \<open>try_attempt\<close>.\<close>

lemma uninterrupted:
  assumes "hm_get (ts_open s) c = None"
  shows "ts_failures (try_steps (TryBegin c a # replicate 4 (TryRead c) @ [TryCount c]) s)
      = snd (try_attempt a (ts_failures s))
    \<and> ts_examined (try_steps (TryBegin c a # replicate 4 (TryRead c) @ [TryCount c]) s)
      = ts_examined s @ (if fst (try_attempt a (ts_failures s)) then [a] else [])"
proof -
  obtain ft r where ca: "check_address (attempt_ip a) (minute_of (at_now a)) (ts_failures s) = (ft, r)" by fastforce
  show ?thesis
  proof (cases "get_ipv6_prefixes (attempt_ip a)")
    case None
    with assms ca show ?thesis
      by (cases r) (simp_all add: try_attempt_def check_failure_def reads_of_def read_counter_def eval_nat_numeral)
  next
    case (Some p)
    obtain p64 p56 p48 where p: "p = (p64, p56, p48)" by (cases p)
    let ?c = "\<lambda>q n l. check_failure_ipv6_prefix (minute_of (at_now a)) (ts_failures s) q n l"
    show ?thesis using assms ca Some p
      by (cases "?c p64 64 60"; cases "?c p56 56 80"; cases "?c p48 48 100"; cases r)
        (simp_all add: try_attempt_def check_failure_def reads_of_def read_counter_def numeral_eq_Suc
          split: prod.split del: One_nat_def)
  qed
qed

text \<open>While an attempt on a counter is open, what has been read of it so far.\<close>

definition read_key :: "string \<Rightarrow> counter_read \<Rightarrow> string" where
  "read_key ip r = (case r of ReadPrefix p n l \<Rightarrow> p | ReadAddress \<Rightarrow> ip)"

definition hits :: "string \<Rightarrow> attempt list \<Rightarrow> nat" where
  "hits k as = length (filter (counts_on k) as)"

definition stage_ok :: "string \<Rightarrow> attempt \<Rightarrow> try_stage \<Rightarrow> try_state \<Rightarrow> bool" where
  "stage_ok k a st s =
     (case st of
        Reading rs \<Rightarrow>
          hits k (ts_examined s) = total k (ts_failures s) \<and> total k (ts_failures s) \<le> key_limit k + 1
          \<and> (\<exists>rs0. reads_of (attempt_ip a) = rs0 @ rs
              \<and> (k \<in> read_key (attempt_ip a) ` set rs0 \<longrightarrow> total k (ts_failures s) \<le> key_limit k))
      | LetIn ft \<Rightarrow>
          ft = (failure_of (attempt_ip a) (ts_failures s), minute_of (at_now a))
          \<and> total k (ts_failures s) \<le> key_limit k \<and> hits k (ts_examined s) = total k (ts_failures s) + 1)"

definition idle :: "string \<Rightarrow> try_state \<Rightarrow> bool" where
  "idle k s \<longleftrightarrow> (\<forall>c a st. hm_get (ts_open s) c = Some (a, st) \<longrightarrow> \<not> counts_on k a)
     \<and> hits k (ts_examined s) = total k (ts_failures s) \<and> total k (ts_failures s) \<le> key_limit k + 1"

definition busy :: "string \<Rightarrow> nat \<Rightarrow> try_state \<Rightarrow> bool" where
  "busy k c s \<longleftrightarrow> (\<exists>a st. hm_get (ts_open s) c = Some (a, st) \<and> counts_on k a \<and> \<not> at_right a \<and> stage_ok k a st s)
     \<and> (\<forall>c' a st. c' \<noteq> c \<longrightarrow> hm_get (ts_open s) c' = Some (a, st) \<longrightarrow> \<not> counts_on k a)"

lemma hits_append [simp]: "hits k (as @ [a]) = hits k as + (if counts_on k a then 1 else 0)"
  by (simp add: hits_def)

lemma read_key_simps [simp]: "read_key ip (ReadPrefix p n l) = p" "read_key ip ReadAddress = ip"
  by (simp_all add: read_key_def)

lemma reads_counters: "fst ` set (counters_of ip) = read_key ip ` set (reads_of ip)"
proof (cases "get_ipv6_prefixes ip")
  case (Some p)
  obtain p64 p56 p48 where "p = (p64, p56, p48)" by (cases p)
  with Some show ?thesis by (simp add: counters_of_def reads_of_def insert_commute)
qed (simp add: counters_of_def reads_of_def)

lemma counts_on_reads: "counts_on k a \<longleftrightarrow> k \<in> read_key (attempt_ip a) ` set (reads_of (attempt_ip a))"
  by (simp add: counts_on_def reads_counters)

lemma address_read_last: "reads_of ip = rs0 @ ReadAddress # rs \<Longrightarrow> rs = []"
  by (cases "get_ipv6_prefixes ip") (auto simp: reads_of_def Cons_eq_append_conv)

definition read_limit :: "counter_read \<Rightarrow> i32" where
  "read_limit r = (case r of ReadPrefix p n l \<Rightarrow> l | ReadAddress \<Rightarrow> 30)"

lemma read_limit_counter:
  "r \<in> set (reads_of ip) \<Longrightarrow> (read_key ip r, unat (read_limit r)) \<in> set (counters_of ip)"
  by (cases "get_ipv6_prefixes ip") (auto simp: counters_of_def reads_of_def read_limit_def)

text \<open>A read that lets an attempt through has found its counter within the limit.\<close>

lemma read_passes:
  "read_counter a r m = Some ft \<Longrightarrow> \<not> read_limit r <s snd (snd (failure_of (read_key (attempt_ip a) r) m))"
  "read_counter a ReadAddress m = Some ft \<Longrightarrow> ft = (failure_of (attempt_ip a) m, minute_of (at_now a))"
  by (cases r) (auto simp: read_counter_def read_limit_def check_address_def check_failure_ipv6_prefix_def Let_def
      split: prod.splits if_splits)

lemma read_within:
  assumes "read_counter a r m = Some ft" "r \<in> set (reads_of (attempt_ip a))"
    "total (read_key (attempt_ip a) r) m \<le> key_limit (read_key (attempt_ip a) r) + 1"
  shows "total (read_key (attempt_ip a) r) m \<le> key_limit (read_key (attempt_ip a) r)"
proof -
  have n: "unat (read_limit r) = key_limit (read_key (attempt_ip a) r)"
    by (rule counters_limit [OF read_limit_counter [OF assms(2)]])
  have "\<not> of_nat (unat (read_limit r)) <s snd (snd (failure_of (read_key (attempt_ip a) r) m))"
    using read_passes(1) [OF assms(1)] by simp
  from below_limit(1) [OF this [unfolded n]] assms(3) key_limit_le show ?thesis by (simp add: total_def)
qed

text \<open>Steps of attempts on other counters.\<close>

lemma total_update_other:
  "\<not> counts_on k a \<Longrightarrow> total k (update_failure (attempt_ip a) ft remove m) = total k m"
  by (simp add: total_def counts_on_def update_other)

lemma other_address:
  assumes "counts_on k a" "\<not> counts_on k b"
  shows "\<not> counts_on (attempt_ip a) b"
proof
  assume "counts_on (attempt_ip a) b"
  then have "attempt_ip b = attempt_ip a" using counts_on_address [OF attempt_ip_safe] by simp
  with assms show False by (simp add: counts_on_def)
qed

lemma stage_other:
  assumes "stage_ok k a st s" "counts_on k a" "\<not> counts_on k b"
  shows "stage_ok k a st (s\<lparr>ts_open := q\<rparr>)"
    "stage_ok k a st (s\<lparr>ts_open := q, ts_examined := ts_examined s @ [b]\<rparr>)"
    "stage_ok k a st (s\<lparr>ts_failures := update_failure (attempt_ip b) ft remove (ts_failures s), ts_open := q\<rparr>)"
  using assms other_address [OF assms(2,3)] total_update_other [OF assms(3)]
  by (auto simp: stage_ok_def counts_on_def update_other split: try_stage.splits)

lemma idle_step:
  assumes "idle k s" "\<And>c a. x = TryBegin c a \<Longrightarrow> counts_on k a \<Longrightarrow> \<not> at_right a"
  shows "idle k (do_try x s) \<or> (\<exists>c. busy k c (do_try x s))"
proof (cases x)
  case (TryBegin c a)
  show ?thesis
  proof (cases "counts_on k a \<and> hm_get (ts_open s) c = None")
    case True
    with assms TryBegin have "busy k c (do_try x s)" by (auto simp: busy_def idle_def stage_ok_def)
    then show ?thesis by blast
  next
    case False
    with assms(1) TryBegin show ?thesis by (auto simp: idle_def split: option.split)
  qed
next
  case (TryRead c)
  have "idle k (do_try x s)"
    using assms(1) TryRead
    by (auto simp: idle_def split: option.split prod.split try_stage.split list.split if_split)
  then show ?thesis ..
next
  case (TryCount c)
  have "idle k (do_try x s)"
    using assms(1) TryCount
    by (auto simp: idle_def split: option.split prod.split try_stage.split)
      (metis total_update_other)+
  then show ?thesis ..
qed


text \<open>What a connection that is not on the counter does.\<close>

lemma elsewhere:
  assumes "\<And>a st. hm_get (ts_open s) c = Some (a, st) \<Longrightarrow> \<not> counts_on k a"
    and "x = TryBegin c b \<and> \<not> counts_on k b \<or> x = TryRead c \<or> x = TryCount c"
  obtains "do_try x s = s"
    | b' q where "do_try x s = s\<lparr>ts_open := q\<rparr>" "\<not> counts_on k b'"
        "q = hm_remove c (ts_open s) \<or> (\<exists>st. q = hm_insert c (b', st) (ts_open s))"
    | b' st where "do_try x s = s\<lparr>ts_open := hm_insert c (b', st) (ts_open s), ts_examined := ts_examined s @ [b']\<rparr>"
        "\<not> counts_on k b'"
    | b' ft r where "\<not> counts_on k b'"
        "do_try x s = s\<lparr>ts_failures := update_failure (attempt_ip b') ft r (ts_failures s), ts_open := hm_remove c (ts_open s)\<rparr>"
proof (cases "hm_get (ts_open s) c")
  case None
  then show ?thesis using assms(2) that(1) that(2) [of _ b] by fastforce
next
  case (Some v)
  obtain a st where v: "v = (a, st)" by (cases v)
  then have a: "\<not> counts_on k a" using assms(1) Some by blast
  consider "x = TryBegin c b" | "x = TryRead c" | "x = TryCount c" using assms(2) by blast
  then show ?thesis
  proof cases
    case 1
    with Some that(1) show ?thesis by simp
  next
    case 2
    show ?thesis
    proof (cases "\<exists>r rs. st = Reading (r # rs)")
      case True
      then obtain r rs where st: "st = Reading (r # rs)" by blast
      show ?thesis
        using 2 Some v a st that(2) [of _ a] that(3) [of a]
        by (cases "read_counter a r (ts_failures s)"; cases "r = ReadAddress") auto
    next
      case False
      then have "do_try x s = s" using 2 Some v by (auto split: try_stage.split list.split)
      then show ?thesis by (rule that(1))
    qed
  next
    case 3
    then show ?thesis using Some v a that(1) that(4) [of a] by (cases st) auto
  qed
qed

lemma stage_bound: "stage_ok k a st s \<Longrightarrow> hits k (ts_examined s) \<le> key_limit k + 1"
  by (cases st) (simp_all add: stage_ok_def)

lemma busy_other:
  assumes "busy k c s" "\<And>a st. hm_get (ts_open s) c' = Some (a, st) \<Longrightarrow> c' \<noteq> c"
    "\<And>a. x = TryBegin c' a \<Longrightarrow> \<not> counts_on k a" "x = TryBegin c' b \<or> x = TryRead c' \<or> x = TryCount c'"
  shows "busy k c (do_try x s)"
proof -
  obtain a st where own: "hm_get (ts_open s) c = Some (a, st)" "counts_on k a" "\<not> at_right a" "stage_ok k a st s"
    and others: "\<And>c' b st'. c' \<noteq> c \<Longrightarrow> hm_get (ts_open s) c' = Some (b, st') \<Longrightarrow> \<not> counts_on k b"
    using assms(1) by (auto simp: busy_def)
  have c: "c' \<noteq> c" using assms(2) own(1) by blast
  have x: "x = TryBegin c' b \<and> \<not> counts_on k b \<or> x = TryRead c' \<or> x = TryCount c'"
    using assms(3,4) by blast
  note else_where = others [OF c]
  show ?thesis
  proof (rule elsewhere [OF else_where x])
    assume "do_try x s = s"
    then show ?thesis using assms(1) by simp
  next
    fix b' q
    assume h: "do_try x s = s\<lparr>ts_open := q\<rparr>" "\<not> counts_on k b'"
      "q = hm_remove c' (ts_open s) \<or> (\<exists>st. q = hm_insert c' (b', st) (ts_open s))"
    then show ?thesis using own others c stage_other(1) [OF own(4,2) h(2), of q] by (auto simp: busy_def split: if_splits)
  next
    fix b' st'
    assume h: "do_try x s = s\<lparr>ts_open := hm_insert c' (b', st') (ts_open s), ts_examined := ts_examined s @ [b']\<rparr>"
      "\<not> counts_on k b'"
    then show ?thesis using own others c stage_other(2) [OF own(4,2) h(2)] by (auto simp: busy_def)
  next
    fix b' ft r
    assume h: "\<not> counts_on k b'"
      "do_try x s = s\<lparr>ts_failures := update_failure (attempt_ip b') ft r (ts_failures s), ts_open := hm_remove c' (ts_open s)\<rparr>"
    then show ?thesis using own others c stage_other(3) [OF own(4,2) h(1)] by (auto simp: busy_def)
  qed
qed

lemma busy_read:
  assumes "busy k c s"
  shows "idle k (do_try (TryRead c) s) \<or> busy k c (do_try (TryRead c) s)"
proof -
  obtain a st where own: "hm_get (ts_open s) c = Some (a, st)" "counts_on k a" "\<not> at_right a" "stage_ok k a st s"
    and others: "\<And>c' b st'. c' \<noteq> c \<Longrightarrow> hm_get (ts_open s) c' = Some (b, st') \<Longrightarrow> \<not> counts_on k b"
    using assms(1) by (auto simp: busy_def)
  show ?thesis
  proof (cases "\<exists>r rs. st = Reading (r # rs)")
    case False
    then have "do_try (TryRead c) s = s" using own(1) by (auto split: try_stage.split list.split)
    with assms show ?thesis by simp
  next
    case True
    then obtain r rs rs0 where st: "st = Reading (r # rs)" "reads_of (attempt_ip a) = rs0 @ r # rs"
        "k \<in> read_key (attempt_ip a) ` set rs0 \<longrightarrow> total k (ts_failures s) \<le> key_limit k"
        "hits k (ts_examined s) = total k (ts_failures s)" "total k (ts_failures s) \<le> key_limit k + 1"
      using own(4) by (auto simp: stage_ok_def)
    show ?thesis
    proof (cases "read_counter a r (ts_failures s)")
      case None
      then have "idle k (do_try (TryRead c) s)" using own st others by (auto simp: idle_def)
      then show ?thesis ..
    next
      case (Some ft)
      have "r \<in> set (reads_of (attempt_ip a))" by (simp add: st(2))
      note within = read_within [OF Some this]
      have seen: "total k (ts_failures s) \<le> key_limit k" if "k \<in> read_key (attempt_ip a) ` set (rs0 @ [r])"
        using that st(3,5) within by auto
      have "busy k c (do_try (TryRead c) s)"
      proof (cases "r = ReadAddress")
        case True
        have "rs = []" by (rule address_read_last) (use st(2) True in simp)
        then have "total k (ts_failures s) \<le> key_limit k"
          using seen own(2) st(2) by (simp add: counts_on_reads)
        then show ?thesis using own st others Some True read_passes(2) [of a "ts_failures s" ft]
          by (auto simp: busy_def stage_ok_def)
      next
        case False
        have "\<exists>rs1. reads_of (attempt_ip a) = rs1 @ rs
            \<and> (k \<in> read_key (attempt_ip a) ` set rs1 \<longrightarrow> total k (ts_failures s) \<le> key_limit k)"
          using seen st(2) by (intro exI [of _ "rs0 @ [r]"]) auto
        then show ?thesis using own st others Some False by (auto simp: busy_def stage_ok_def)
      qed
      then show ?thesis ..
    qed
  qed
qed

lemma busy_count:
  assumes "busy k c s"
  shows "idle k (do_try (TryCount c) s) \<or> busy k c (do_try (TryCount c) s)"
proof -
  obtain a st where own: "hm_get (ts_open s) c = Some (a, st)" "counts_on k a" "\<not> at_right a" "stage_ok k a st s"
    and others: "\<And>c' b st'. c' \<noteq> c \<Longrightarrow> hm_get (ts_open s) c' = Some (b, st') \<Longrightarrow> \<not> counts_on k b"
    using assms(1) by (auto simp: busy_def)
  show ?thesis
  proof (cases st)
    case (Reading rs)
    with own assms show ?thesis by simp
  next
    case (LetIn ft)
    then have ft: "ft = (failure_of (attempt_ip a) (ts_failures s), minute_of (at_now a))"
        "total k (ts_failures s) \<le> key_limit k" "hits k (ts_examined s) = total k (ts_failures s) + 1"
      using own(4) by (auto simp: stage_ok_def)
    have w: "failure_of k (update_failure (attempt_ip a) ft False (ts_failures s)) = bump (failure_of k (ts_failures s)) (minute_of (at_now a))"
      unfolding ft(1) using own(2) by (intro update_wrong) (simp add: counts_on_def)
    have "unat (snd (snd (failure_of k (ts_failures s)))) + 1 < 2 ^ LENGTH(32)"
      using ft(2) key_limit_le [of k] by (simp add: total_def)
    then have "total k (update_failure (attempt_ip a) ft False (ts_failures s)) = total k (ts_failures s) + 1"
      by (simp add: total_def w total_bump unat_word_ariths)
    then have "idle k (do_try (TryCount c) s)" using own(1,3) others LetIn ft by (auto simp: idle_def)
    then show ?thesis ..
  qed
qed

lemma busy_step:
  assumes "busy k c s" "\<And>c' a. x = TryBegin c' a \<Longrightarrow> \<not> counts_on k a \<or> hm_get (ts_open s) c' \<noteq> None"
  shows "idle k (do_try x s) \<or> busy k c (do_try x s)"
proof -
  obtain c' where x: "(\<exists>b. x = TryBegin c' b) \<or> x = TryRead c' \<or> x = TryCount c'" by (cases x) auto
  show ?thesis
  proof (cases "c' = c")
    case True
    show ?thesis
    proof (cases x)
      case (TryBegin c'' b)
      with x True have "do_try x s = s" using assms(1) by (auto simp: busy_def)
      with assms(1) show ?thesis by simp
    qed (use x True busy_read [OF assms(1)] busy_count [OF assms(1)] in auto)
  next
    case False
    show ?thesis
    proof (cases "\<exists>b. x = TryBegin c' b \<and> hm_get (ts_open s) c' \<noteq> None")
      case True
      then have "do_try x s = s" by auto
      with assms(1) show ?thesis by simp
    next
      case nb: False
      from x obtain b where "x = TryBegin c' b \<or> x = TryRead c' \<or> x = TryCount c'" by auto
      with busy_other [OF assms(1), of c' x b] False assms(2) nb show ?thesis by blast
    qed
  qed
qed

lemma open_value: "hm_get m c = Some v \<Longrightarrow> fst v \<in> fst ` snd ` set m"
  using map_of_SomeD by force

lemma tries_bounded:
  assumes "idle k s \<or> busy k c s" "one_at_a_time k xs s"
    "\<And>c a. TryBegin c a \<in> set xs \<Longrightarrow> counts_on k a \<Longrightarrow> \<not> at_right a"
  shows "hits k (ts_examined (try_steps xs s)) \<le> key_limit k + 1"
  using assms
proof (induction xs arbitrary: s c)
  case Nil
  then show ?case by (auto simp: idle_def busy_def dest: stage_bound)
next
  case (Cons x xs)
  have next_: "idle k (do_try x s) \<or> (\<exists>c. busy k c (do_try x s))"
  proof (cases "idle k s")
    case True
    show ?thesis by (rule idle_step [OF True]) (use Cons.prems(3) in auto)
  next
    case False
    then have b: "busy k c s" using Cons.prems(1) by simp
    then obtain a st where "hm_get (ts_open s) c = Some (a, st)" "counts_on k a" by (auto simp: busy_def)
    with open_value have "\<exists>b \<in> fst ` snd ` set (ts_open s). counts_on k b" by (metis fst_conv)
    with Cons.prems(2) have "x = TryBegin c' a' \<Longrightarrow> \<not> counts_on k a'" for c' a' by auto
    with busy_step [OF b, of x] show ?thesis by blast
  qed
  then obtain c' where "idle k (do_try x s) \<or> busy k c' (do_try x s)" by blast
  then have "hits k (ts_examined (try_steps xs (do_try x s))) \<le> key_limit k + 1"
    by (rule Cons.IH) (use Cons.prems(2,3) in auto)
  then show ?case by simp
qed

section \<open>The bounds\<close>

text \<open>For attempts one after the other the interpretation gives the bound at once.\<close>

lemma wrong_guesses_in_turn:
  assumes "(k, n) \<in> set (counters_of (show_ip addr))"
    and "\<forall>a \<in> set as. counts_on k a \<longrightarrow> \<not> at_right a"
  shows "length (filter (counts_on k) (examined as [])) \<le> n + 1"
proof -
  define a where "a = \<lparr>at_addr = addr, at_now = 0, at_right = False\<rparr>"
  have "n = key_limit k" using counters_limit [of k n a] assms(1) by (simp add: a_def attempt_ip_def)
  moreover have "total k [] = 0" by (simp add: total_def failure_of_def)
  ultimately show ?thesis using tot.bounded [of as k "[]"] assms(2) by auto
qed

text \<open>
  C19: Of the wrong guesses that count on the counter of one address at most 31 are examined, of those that
  count on the counter of an IPv6 prefix of length 64, 56 or 48 at most 61, 81 or 101, however the steps of
  the connections are interleaved, as long as two guesses on that one counter do not overlap in time: one
  has been refused or counted before the next is begun. Guesses on other counters may overlap with them and
  with each other, and no right guess resets the counter meanwhile. For overlapping guesses the bound fails,
  see \<open>parallel_guesses_count_once\<close>. A counter is a pair of its key and its limit.
\<close>

theorem wrong_guesses_bounded:
  assumes "(k, n) \<in> set (counters_of (show_ip addr))"
    and "one_at_a_time k steps nothing_tried"
    and "\<forall>x \<in> set steps. case x of TryBegin c a \<Rightarrow> counts_on k a \<longrightarrow> \<not> at_right a | _ \<Rightarrow> True"
  shows "length (filter (counts_on k) (ts_examined (try_steps steps nothing_tried))) \<le> n + 1"
proof -
  define a where "a = \<lparr>at_addr = addr, at_now = 0, at_right = False\<rparr>"
  have n: "n = key_limit k" using counters_limit [of k n a] assms(1) by (simp add: a_def attempt_ip_def)
  have start: "idle k nothing_tried \<or> busy k 0 nothing_tried"
    by (simp add: idle_def nothing_tried_def hits_def total_def failure_of_def)
  have wrong: "\<And>c a. TryBegin c a \<in> set steps \<Longrightarrow> counts_on k a \<Longrightarrow> \<not> at_right a" using assms(3) by fastforce
  from tries_bounded [OF start assms(2) wrong] show ?thesis by (simp add: n hits_def)
qed

definition after :: "attempt list \<Rightarrow> failures \<Rightarrow> failures" where
  "after as m = foldl (\<lambda>m a. snd (try_attempt a m)) m as"

lemma after_simps [simp]: "after [] m = m" "after (a # as) m = after as (snd (try_attempt a m))"
  by (simp_all add: after_def)

lemma examined_append: "examined (as @ bs) m = examined as m @ examined bs (after as m)"
  by (induction as arbitrary: m) (simp_all split: prod.split)

lemma examined_subset: "set (examined as m) \<subseteq> set as"
  by (induction as arbitrary: m) (auto split: prod.splits if_splits)

lemma try_refused: "\<not> fst (try_attempt a m) \<Longrightarrow> snd (try_attempt a m) = m"
  by (auto simp: try_attempt_def split: prod.splits option.splits)

lemma update_right:
  "failure_of ip (update_failure ip (f, t) True m) = (0, 0, 0) \<or> failure_of ip (update_failure ip (f, t) True m) = failure_of ip m"
  by (simp add: update_failure_def split: option.split prod.split)

lemma earlier_minutes:
  assumes "CHR ''/'' \<notin> set ip" "\<forall>a \<in> set as. attempt_ip a = ip \<longrightarrow> minute_of (at_now a) \<noteq> t" "in_minute (ip, t) m = 0"
  shows "in_minute (ip, t) (after as m) = 0"
  using assms(2,3)
proof (induction as arbitrary: m)
  case (Cons a as)
  have "in_minute (ip, t) (snd (try_attempt a m)) = 0"
  proof (cases "attempt_ip a = ip \<and> fst (try_attempt a m)")
    case True
    note e = try_examined(2) [OF conjunct2 [OF True]]
    show ?thesis
    proof (cases "at_right a")
      case r: True
      then show ?thesis
        using e True Cons.prems(2) update_right [of ip "failure_of ip m" "minute_of (at_now a)" m]
        by (auto simp: in_minute_def Let_def)
    next
      case False
      with True counts_on_own [of a] try_wrong [of ip a m] Cons.prems(1) show ?thesis
        by (auto simp: in_minute_def Let_def bump_def split: prod.splits)
    qed
  next
    case False
    then have "failure_of ip (snd (try_attempt a m)) = failure_of ip m"
      using try_other [of ip a m] try_refused [of a m] assms(1) by (auto simp: counts_on_address)
    with Cons.prems(2) show ?thesis by (simp add: in_minute_def)
  qed
  with Cons.IH Cons.prems(1) show ?case by simp
qed simp

text \<open>
  At most seven wrong guesses from one address are examined in one minute, whatever was tried from any
  address before that minute and whatever others try meanwhile.
\<close>

theorem guesses_per_minute:
  assumes "\<forall>a \<in> set before. attempt_ip a = show_ip addr \<longrightarrow> minute_of (at_now a) \<noteq> t"
    and "\<forall>a \<in> set during. attempt_ip a = show_ip addr \<longrightarrow> minute_of (at_now a) = t \<and> \<not> at_right a"
  shows "length (filter (guess_in (show_ip addr, t)) (examined (before @ during) [])) \<le> 7"
proof -
  let ?k = "(show_ip addr, t)"
  have none: "filter (guess_in ?k) (examined before []) = []"
    using examined_subset [of before "[]"] assms(1) by (auto simp: filter_empty_conv guess_in_def)
  have "in_minute ?k (after before []) = 0"
    by (rule earlier_minutes [OF show_ip_safe assms(1)]) (simp add: in_minute_def failure_of_def Let_def)
  moreover have "\<forall>a \<in> set during. guess_in ?k a \<and> \<not> at_right a \<or> \<not> counts_on (fst ?k) a"
    using assms(2) counts_on_address [OF show_ip_safe, of addr] by (auto simp: guess_in_def)
  ultimately have "length (filter (guess_in ?k) (examined during (after before []))) \<le> 7"
    using minute.bounded [of during ?k "after before []"] by simp
  then show ?thesis by (simp add: examined_append none)
qed

text \<open>
  Once an address has more than thirty failures, nothing from it is ever examined again, right
  passwords included, however much time passes and whatever anybody tries: the count only goes away with
  the process.
\<close>

theorem lockout_permanent:
  assumes "30 <s snd (snd (failure_of (show_ip addr) m))"
  shows "\<forall>a \<in> set (examined as m). at_addr a \<noteq> addr"
  using assms
proof (induction as arbitrary: m)
  case (Cons a as)
  have own: "(attempt_ip a, 30) \<in> set (counters_of (attempt_ip a))"
    by (cases "get_ipv6_prefixes (attempt_ip a)") (auto simp: counters_of_def)
  have refused: "\<not> fst (try_attempt a m)" if "attempt_ip a = show_ip addr"
    using check_limits [OF try_examined(1) own, of m] that Cons.prems by auto
  then have "failure_of (show_ip addr) (snd (try_attempt a m)) = failure_of (show_ip addr) m"
    using try_other [of "show_ip addr" a m] try_refused [of a m] counts_on_address [OF show_ip_safe, of addr a]
    by (cases "attempt_ip a = show_ip addr") simp_all
  moreover obtain ok m' where "try_attempt a m = (ok, m')" by fastforce
  ultimately show ?case
    using Cons.IH [of m'] Cons.prems refused by (cases ok) (auto simp: attempt_ip_def)
qed simp

section \<open>Attempts at the same time\<close>

text \<open>
  The check and the count of one attempt take the lock one after the other, and connections run in
  parallel. The steps of connections that guess wrongly from one address: \<open>Check c\<close> reads the counter and,
  if it lets the guess through, keeps what it read; \<open>Count c\<close> writes the count.
\<close>

datatype guess_step = Check nat | Count nat

record guess_state =
  gs_failures :: failures
  gs_read :: "(nat, failure \<times> i32) hashmap"
  gs_examined :: nat

fun do_guess :: "string \<Rightarrow> int \<Rightarrow> guess_step \<Rightarrow> guess_state \<Rightarrow> guess_state" where
  "do_guess ip now (Check c) s =
     (case check_failure ip now (gs_failures s) of
        (ft, None) \<Rightarrow> s\<lparr>gs_read := hm_insert c ft (gs_read s), gs_examined := gs_examined s + 1\<rparr>
      | (ft, Some _) \<Rightarrow> s)"
| "do_guess ip now (Count c) s =
     (case hm_get (gs_read s) c of
        Some ft \<Rightarrow> s\<lparr>gs_failures := update_failure ip ft False (gs_failures s), gs_read := hm_remove c (gs_read s)\<rparr>
      | None \<Rightarrow> s)"

definition guess_steps :: "string \<Rightarrow> int \<Rightarrow> guess_step list \<Rightarrow> guess_state \<Rightarrow> guess_state" where
  "guess_steps ip now steps s = foldl (\<lambda>s x. do_guess ip now x s) s steps"

lemma checks_first:
  assumes "gs_failures s = []" "get_ipv6_prefixes ip = None"
  shows "guess_steps ip now (map Check cs) s
    = s\<lparr>gs_read := foldl (\<lambda>m c. hm_insert c ((0, 0, 0), minute_of now) m) (gs_read s) cs,
        gs_examined := gs_examined s + length cs\<rparr>"
  using assms
proof (induction cs arbitrary: s)
  case (Cons c cs)
  have "check_failure ip now [] = (((0, 0, 0), minute_of now), None)"
    using assms(2) by (simp add: check_failure_def check_address_def failure_of_def Let_def word_sless_alt)
  with Cons.prems Cons.IH [of "do_guess ip now (Check c) s"] show ?case
    by (simp add: guess_steps_def)
qed (simp add: guess_steps_def)

lemma counts_after:
  assumes "get_ipv6_prefixes ip = None" "\<forall>c \<in> set cs. hm_get (gs_read s) c = Some ((0, 0, 0), t)" "distinct cs"
  shows "failure_of ip (gs_failures (guess_steps ip now (map Count cs) s))
      = (if cs = [] then failure_of ip (gs_failures s) else (t, 1, 1))
    \<and> gs_examined (guess_steps ip now (map Count cs) s) = gs_examined s"
  using assms(2,3)
proof (induction cs arbitrary: s)
  case (Cons c cs)
  let ?s = "do_guess ip now (Count c) s"
  have s: "failure_of ip (gs_failures ?s) = (t, 1, 1)" "gs_examined ?s = gs_examined s"
      "gs_read ?s = hm_remove c (gs_read s)"
    using Cons.prems assms(1) by (auto simp: update_failure_def bump_def)
  then have "\<forall>c \<in> set cs. hm_get (gs_read ?s) c = Some ((0, 0, 0), t)" using Cons.prems by auto
  from Cons.IH [OF this] Cons.prems s show ?case by (simp add: guess_steps_def del: do_guess.simps)
qed (simp add: guess_steps_def)

lemma get_insert_all:
  "hm_get (foldl (\<lambda>m c. hm_insert c v m) m cs) c = (if c \<in> set cs then Some v else hm_get m c)"
  by (induction cs arbitrary: m) auto

text \<open>
  C20: The bound does not hold for guesses at the same time: any number of connections from one IPv4
  address can all be let through, and their wrong guesses together count as one.
\<close>

theorem parallel_guesses_count_once:
  assumes "0 < n"
  shows "let s = guess_steps (show_ip (IpV4 a)) now (map Check [0..<n] @ map Count [0..<n])
               \<lparr>gs_failures = [], gs_read = [], gs_examined = 0\<rparr>
         in gs_examined s = n \<and> failure_of (show_ip (IpV4 a)) (gs_failures s) = (minute_of now, 1, 1)"
proof -
  let ?ip = "show_ip (IpV4 a)" and ?s0 = "\<lparr>gs_failures = [], gs_read = [], gs_examined = 0\<rparr>"
  have none: "get_ipv6_prefixes ?ip = None"
    using no_colon_no_prefixes [of ?ip] show_ipv4_safe [of "CHR '':''" a] by auto
  let ?s = "guess_steps ?ip now (map Check [0..<n]) ?s0"
  have s: "?s = \<lparr>gs_failures = [],
      gs_read = foldl (\<lambda>m c. hm_insert c ((0, 0, 0), minute_of now) m) [] [0..<n], gs_examined = n\<rparr>"
    by (simp add: checks_first [OF _ none] del: show_ip.simps)
  have "\<forall>c \<in> set [0..<n]. hm_get (gs_read ?s) c = Some ((0, 0, 0), minute_of now)"
    by (simp add: s get_insert_all del: show_ip.simps)
  from counts_after [OF none this, of now] assms show ?thesis
    by (simp add: guess_steps_def Let_def s [unfolded guess_steps_def] del: show_ip.simps)
qed

theorem parallel_guesses_count_once_witness:
  "gs_examined (guess_steps (show_ip (IpV4 1)) 0 (map Check [0..<100] @ map Count [0..<100])
     \<lparr>gs_failures = [], gs_read = [], gs_examined = 0\<rparr>) = 100"
  using parallel_guesses_count_once [of 100 1 0] by (simp only: Let_def)

text \<open>A peer at 10.0.0.7 that guesses thrice, the last time after a minute.\<close>

definition demo_attempt :: "int \<Rightarrow> attempt" where
  "demo_attempt now = \<lparr>at_addr = IpV4 0x0A000007, at_now = now, at_right = False\<rparr>"

text \<open>
  Two guesses of 10.0.0.7 under the numbers 1 and 2, one after the other, while a guess of 10.0.0.8 is let in
  before and counted after them.
\<close>

definition demo_tries :: "try_step list" where
  "demo_tries =
     [TryBegin 3 \<lparr>at_addr = IpV4 0x0A000008, at_now = 5, at_right = True\<rparr>, TryRead 3,
      TryBegin 1 (demo_attempt 5), TryRead 1, TryCount 1, TryBegin 2 (demo_attempt 6), TryRead 2, TryCount 2, TryCount 3]"

theorem wrong_guesses_bounded_witness:
  "length (filter (counts_on (show_ip (IpV4 0x0A000007))) (ts_examined (try_steps demo_tries nothing_tried))) \<le> 31"
proof -
  have "one_at_a_time (show_ip (IpV4 0x0A000007)) demo_tries nothing_tried"
    "\<forall>x \<in> set demo_tries. case x of TryBegin c a \<Rightarrow> counts_on (show_ip (IpV4 0x0A000007)) a \<longrightarrow> \<not> at_right a | _ \<Rightarrow> True"
    by code_simp+
  with wrong_guesses_bounded [of "show_ip (IpV4 0x0A000007)" 30 "IpV4 0x0A000007" demo_tries] show ?thesis
    by (simp add: counters_of_ipv4 del: show_ip.simps)
qed

theorem guesses_per_minute_witness:
  "length (filter (guess_in (show_ip (IpV4 0x0A000007), 2))
     (examined ([demo_attempt 60000] @ replicate 9 (demo_attempt 120000)) [])) \<le> 7"
  using guesses_per_minute [of "[demo_attempt 60000]" "IpV4 0x0A000007" 2 "replicate 9 (demo_attempt 120000)"]
  by (simp add: demo_attempt_def minute_of_def attempt_ip_def del: show_ip.simps)

theorem lockout_permanent_witness:
  "examined [demo_attempt 0] [(show_ip (IpV4 0x0A000007), (0, 1, 31))] = []"
proof -
  define m :: failures where "m = [(show_ip (IpV4 0x0A000007), (0, 1, 31))]"
  have "30 <s snd (snd (failure_of (show_ip (IpV4 0x0A000007)) m))"
    by (simp add: m_def failure_of_def word_sless_alt del: show_ip.simps)
  note none = lockout_permanent [OF this, of "[demo_attempt 0]"]
  have "at_addr (demo_attempt 0) = IpV4 0x0A000007" by (simp add: demo_attempt_def)
  moreover have "set (examined [demo_attempt 0] m) \<subseteq> {demo_attempt 0}"
    using examined_subset [of "[demo_attempt 0]" m] by simp
  ultimately have "a \<notin> set (examined [demo_attempt 0] m)" for a using none by blast
  then show ?thesis unfolding m_def [symmetric] by (metis list.set_intros(1) neq_Nil_conv)
qed

end
