(* ===== verification/Login_Sessions.thy ===== *)
theory Login_Sessions
  imports Login_Failures Password_Policy Version
begin

text \<open>
  What the log-on of a peer rests on besides the limits on attempts (\<open>src/server/connection.rs\<close>): the
  permissions granted by the rendezvous server or by the local options, the check of a password, and the
  sessions that let a peer come back without one.
\<close>

section \<open>Permissions\<close>

datatype permission =
  PermKeyboard | PermRemotePrinter | PermClipboard | PermFile | PermAudio | PermCamera | PermTerminal
  | PermTunnel | PermRestart | PermRecording | PermBlockInput | PermRemoteModify

fun permission_value :: "permission \<Rightarrow> nat" where
  "permission_value PermKeyboard = 0"
| "permission_value PermRemotePrinter = 1"
| "permission_value PermClipboard = 2"
| "permission_value PermFile = 3"
| "permission_value PermAudio = 4"
| "permission_value PermCamera = 5"
| "permission_value PermTerminal = 6"
| "permission_value PermTunnel = 7"
| "permission_value PermRestart = 8"
| "permission_value PermRecording = 9"
| "permission_value PermBlockInput = 10"
| "permission_value PermRemoteModify = 11"

definition get_control_permission :: "u64 \<Rightarrow> permission \<Rightarrow> bool option" where
  "get_control_permission permissions permission =
     (let index = permission_value permission in
      if index < 32 then
        (let shift = index * 2; v = drop_bit shift permissions AND 3 in
         if v = 1 then Some False else if v = 2 then Some True else None)
      else None)"

definition permission_of_option :: "string \<Rightarrow> permission option" where
  "permission_of_option opt =
     (if opt = ''enable-keyboard'' then Some PermKeyboard
      else if opt = ''enable-remote-printer'' then Some PermRemotePrinter
      else if opt = ''enable-clipboard'' then Some PermClipboard
      else if opt = ''enable-file-transfer'' then Some PermFile
      else if opt = ''enable-audio'' then Some PermAudio
      else if opt = ''enable-camera'' then Some PermCamera
      else if opt = ''enable-terminal'' then Some PermTerminal
      else if opt = ''enable-tunnel'' then Some PermTunnel
      else if opt = ''enable-remote-restart'' then Some PermRestart
      else if opt = ''enable-record-session'' then Some PermRecording
      else if opt = ''enable-block-input'' then Some PermBlockInput
      else None)"

text \<open>\<open>access_mode\<close>: a build with the \<open>flutter\<close> feature for a desktop, which reads the access mode.\<close>

definition is_permission_enabled_locally :: "bool \<Rightarrow> app_config \<Rightarrow> string \<Rightarrow> bool" where
  "is_permission_enabled_locally access_mode g opt =
     (if access_mode \<and> get_option g ''access-mode'' = ''full'' then True
      else if access_mode \<and> get_option g ''access-mode'' = ''view'' then False
      else option2bool opt (get_option g opt))"

definition granted :: "bool \<Rightarrow> app_config \<Rightarrow> string \<Rightarrow> u64 option \<Rightarrow> bool" where
  "granted access_mode g opt control_permissions =
     (case control_permissions of
        Some cp \<Rightarrow>
          (case permission_of_option opt of
             Some p \<Rightarrow>
               (case get_control_permission cp p of
                  Some enabled \<Rightarrow> enabled
                | None \<Rightarrow> is_permission_enabled_locally access_mode g opt)
           | None \<Rightarrow> is_permission_enabled_locally access_mode g opt)
      | None \<Rightarrow> is_permission_enabled_locally access_mode g opt)"

text \<open>The permissions of all connections taken together.\<close>

definition get_control_permission_state :: "permission \<Rightarrow> bool \<Rightarrow> (i32 \<times> u64) list \<Rightarrow> bool option" where
  "get_control_permission_state p disable_if_has_disabled cps =
     (let states = map (\<lambda>(_, cp). get_control_permission cp p) cps;
          has_disable = list_ex (\<lambda>s. s = Some False) states;
          has_enable = list_ex (\<lambda>s. s = Some True) states
      in if disable_if_has_disabled then
           (if has_disable then Some False else if has_enable then Some True else None)
         else
           (if has_enable then Some True else if has_disable then Some False else None))"

section \<open>The password of a request\<close>

record pw_hash =
  h_salt :: string
  h_challenge :: string

text \<open>\<open>sha256\<close>: the hash function; \<open>answer\<close>: what the peer sent.\<close>

definition validate_one_password :: "(bytes \<Rightarrow> bytes) \<Rightarrow> pw_hash \<Rightarrow> bytes \<Rightarrow> string \<Rightarrow> bool" where
  "validate_one_password sha256 h answer password =
     (if length password = 0 then False
      else sha256 (sha256 (as_bytes password @ as_bytes (h_salt h)) @ as_bytes (h_challenge h)) = answer)"

section \<open>Sessions\<close>

text \<open>
  Instants are in nanoseconds. The time of the last message is shared between the session and its
  connection (\<open>Arc<Mutex<Instant>>\<close>): it is a cell of a store, the address an index into a list.
\<close>

type_synonym instant = nat

record session_key =
  sk_peer_id :: string
  sk_name :: string
  sk_session_id :: u64

record login_session =
  s_last_recv_time :: nat
  s_random_password :: string
  s_tfa :: bool

datatype auth_conn_type = Remote | FileTransfer | PortForward | ViewCamera | Terminal

record authed_conn =
  ac_conn_id :: i32
  ac_conn_type :: auth_conn_type
  ac_session_key :: session_key
  ac_printer :: bool

record session_store =
  st_sessions :: "(session_key, login_session) hashmap"
  st_cells :: "instant list"
  st_authed :: "authed_conn list"

definition SESSION_TIMEOUT :: nat where "SESSION_TIMEOUT = 30 * 10 ^ 9"

definition is_fresh :: "instant \<Rightarrow> session_store \<Rightarrow> login_session \<Rightarrow> bool" where
  "is_fresh now st s \<longleftrightarrow> now - st_cells st ! s_last_recv_time s < SESSION_TIMEOUT"

definition retain_fresh :: "instant \<Rightarrow> session_store \<Rightarrow> session_store" where
  "retain_fresh now st = st\<lparr>st_sessions := hm_retain (\<lambda>_ s. is_fresh now st s) (st_sessions st)\<rparr>"

definition new_cell :: "instant \<Rightarrow> session_store \<Rightarrow> nat \<times> session_store" where
  "new_cell now st = (length (st_cells st), st\<lparr>st_cells := st_cells st @ [now]\<rparr>)"

definition touch_cell :: "instant \<Rightarrow> nat option \<Rightarrow> session_store \<Rightarrow> session_store" where
  "touch_cell now c st = (case c of None \<Rightarrow> st | Some i \<Rightarrow> st\<lparr>st_cells := (st_cells st)[i := now]\<rparr>)"

definition update_or_insert_session ::
  "instant \<Rightarrow> session_key \<Rightarrow> string option \<Rightarrow> bool option \<Rightarrow> session_store \<Rightarrow> session_store" where
  "update_or_insert_session now key password tfa st =
     (case hm_get (st_sessions st) key of
        Some s \<Rightarrow>
          (let s = (case password of Some p \<Rightarrow> s\<lparr>s_random_password := p\<rparr> | None \<Rightarrow> s);
               s = (case tfa of Some b \<Rightarrow> s\<lparr>s_tfa := b\<rparr> | None \<Rightarrow> s)
           in st\<lparr>st_sessions := hm_insert key s (st_sessions st)\<rparr>)
      | None \<Rightarrow>
          (let (c, st) = new_cell now st;
               s = \<lparr>s_last_recv_time = c, s_random_password = (case password of Some p \<Rightarrow> p | None \<Rightarrow> ''''),
                    s_tfa = (case tfa of Some b \<Rightarrow> b | None \<Rightarrow> False)\<rparr>
           in st\<lparr>st_sessions := hm_insert key s (st_sessions st)\<rparr>))"

definition set_session_2fa :: "instant \<Rightarrow> session_key \<Rightarrow> session_store \<Rightarrow> session_store" where
  "set_session_2fa now key st =
     (case hm_get (st_sessions st) key of
        Some s \<Rightarrow> st\<lparr>st_sessions := hm_insert key (s\<lparr>s_tfa := True\<rparr>) (st_sessions st)\<rparr>
      | None \<Rightarrow>
          (let (c, st) = new_cell now st
           in st\<lparr>st_sessions := hm_insert key
                  \<lparr>s_last_recv_time = c, s_random_password = '''', s_tfa = True\<rparr> (st_sessions st)\<rparr>))"

definition check_remove_session :: "i32 \<Rightarrow> session_key \<Rightarrow> bool \<Rightarrow> session_store \<Rightarrow> session_store" where
  "check_remove_session conn_id key is_lan st =
     (if hm_contains (st_sessions st) key then
        (if is_lan then st
         else
           (let is_remote = list_ex (\<lambda>c. ac_conn_id c = conn_id \<and> ac_conn_type c = Remote) (st_authed st);
                another_remote = list_ex (\<lambda>c. ac_conn_id c \<noteq> conn_id \<and> ac_session_key c = key
                  \<and> ac_conn_type c = Remote) (st_authed st)
            in if is_remote \<or> \<not> another_remote
               then st\<lparr>st_sessions := hm_remove key (st_sessions st)\<rparr> else st))
      else st)"

text \<open>\<open>AuthedConnID::new\<close> and its \<open>drop\<close>; the wake lock and the quality of service hear of both.\<close>

definition authed_conn_new ::
  "i32 \<Rightarrow> auth_conn_type \<Rightarrow> session_key \<Rightarrow> string \<Rightarrow> string \<Rightarrow> session_store \<Rightarrow> session_store" where
  "authed_conn_new conn_id t key version platform st =
     (let printer = (t = Remote \<and> is_support_remote_print version
            \<and> (platform = ''Windows'' \<or> platform = ''Mac OS'' \<or> platform = ''Linux''))
      in st\<lparr>st_authed := st_authed st @
           [\<lparr>ac_conn_id = conn_id, ac_conn_type = t, ac_session_key = key, ac_printer = printer\<rparr>]\<rparr>)"

definition authed_conn_drop :: "i32 \<Rightarrow> session_store \<Rightarrow> session_store" where
  "authed_conn_drop conn_id st = st\<lparr>st_authed := filter (\<lambda>c. ac_conn_id c \<noteq> conn_id) (st_authed st)\<rparr>"

definition wake_lock_counts :: "session_store \<Rightarrow> nat \<times> nat" where
  "wake_lock_counts st = (length (st_authed st), length (filter (\<lambda>c. ac_conn_type c = Remote) (st_authed st)))"

definition non_port_forward_conn_count :: "session_store \<Rightarrow> nat" where
  "non_port_forward_conn_count st = length (filter (\<lambda>c. ac_conn_type c \<noteq> PortForward) (st_authed st))"

text \<open>
  \<open>is_recent_session\<close>: with \<open>direct-tcp:\<close> in front of the user name any fresh session of the same peer
  id counts, otherwise the session of the same peer, name and session id and its password.
\<close>

definition is_recent_session ::
  "(bytes \<Rightarrow> bytes) \<Rightarrow> instant \<Rightarrow> pw_hash \<Rightarrow> string \<Rightarrow> bytes \<Rightarrow> session_key \<Rightarrow> bool \<Rightarrow> session_store \<Rightarrow> bool \<times> session_store" where
  "is_recent_session sha256 now h username answer key tfa st =
     (let st = retain_fresh now st in
      if starts_with username ''direct-tcp:'' then
        (list_ex (\<lambda>(k, s). sk_peer_id k = sk_peer_id key \<and> is_fresh now st s) (st_sessions st), st)
      else
        (case hm_get (st_sessions st) key of
           Some s \<Rightarrow>
             (answer \<noteq> [] \<and> (tfa \<and> s_tfa s \<or> \<not> tfa \<and> validate_one_password sha256 h answer (s_random_password s)), st)
         | None \<Rightarrow> (False, st)))"

end
