(* ===== verification/Login.thy ===== *)
theory Login
  imports Login_Sessions
begin

text \<open>
  How a connection gets authorised (\<open>on_open\<close>, the log-on branches of \<open>on_message\<close>,
  \<open>send_logon_response_and_keep_alive\<close>, \<open>finish_logon\<close> and the answers of the connection manager in
  \<open>Connection::start\<close>, all of \<open>src/server/connection.rs\<close>). Each step takes the connection and the statics of
  the process and returns whether the connection stays, with the messages it sends listed.
\<close>

section \<open>Requests\<close>

datatype bool_option = NotSet | No | Yes

text \<open>Of the options only the one the log-on reads.\<close>

record login_options =
  lo_terminal_persistent :: bool_option

datatype login_union =
    LoginFileTransfer string bool
  | LoginPortForward string i32
  | LoginViewCamera
  | LoginTerminal string

record login_request =
  lr_username :: string
  lr_password :: bytes
  lr_my_id :: string
  lr_my_name :: string
  lr_option :: "login_options option"
  lr_union :: "login_union option"
  lr_video_ack_required :: bool
  lr_session_id :: u64
  lr_version :: string
  lr_os_login :: "(string \<times> string) option"
  lr_my_platform :: string
  lr_hwid :: bytes
  lr_avatar :: string

definition lr_default :: login_request where
  "lr_default = \<lparr>lr_username = '''', lr_password = [], lr_my_id = '''', lr_my_name = '''', lr_option = None,
     lr_union = None, lr_video_ack_required = False, lr_session_id = 0, lr_version = '''', lr_os_login = None,
     lr_my_platform = '''', lr_hwid = [], lr_avatar = ''''\<rparr>"

definition os_username :: "login_request \<Rightarrow> string" where
  "os_username lr = (case lr_os_login lr of Some (u, _) \<Rightarrow> u | None \<Rightarrow> '''')"

definition os_password :: "login_request \<Rightarrow> string" where
  "os_password lr = (case lr_os_login lr of Some (_, p) \<Rightarrow> p | None \<Rightarrow> '''')"

text \<open>The messages handled before the check of the authorisation.\<close>

datatype login_message =
    MsgCloseReason string
  | MsgLoginRequest login_request
  | MsgAuth2fa string bytes
  | MsgTestDelay bool
  | MsgSwitchSidesResponse bytes "login_request option"

section \<open>State\<close>

datatype terminal_user_token = SelfUser | CurrentLogonUser nat

text \<open>
  The fields of a connection the log-on uses. \<open>cn_require_2fa\<close> holds the second factor, as the text it is
  stored in.
\<close>

record connection =
  cn_id :: i32
  cn_hash :: pw_hash
  cn_lr :: login_request
  cn_ip :: string
  cn_authorized :: bool
  cn_require_2fa :: "string option"
  cn_control_permissions :: "u64 option"
  cn_options_in_login :: "login_options option"
  cn_file_transfer :: "(string \<times> bool) option"
  cn_view_camera :: bool
  cn_terminal :: bool
  cn_terminal_persistent :: bool
  cn_terminal_service_id :: string
  cn_terminal_user_token :: "terminal_user_token option"
  cn_port_forward_address :: string
  cn_port_forward_socket :: bool
  cn_from_switch :: bool
  cn_keyboard :: bool
  cn_video_ack_required :: bool
  cn_cm_started :: bool
  cn_services_subed :: bool
  cn_authed_conn :: "auth_conn_type option"
  cn_session_last_recv_time :: "nat option"
  cn_last_test_delay :: "instant option"
  cn_network_delay :: u32
  cn_closed :: bool
  cn_lock_after_session_end :: bool
  cn_chat_unanswered :: bool
  cn_file_transferred :: bool

text \<open>The statics: failure counters, sessions, offers to switch sides, configuration, one-time password.\<close>

record login_world =
  lw_failures :: "failures list"
  lw_store :: session_store
  lw_switch :: "(string, instant \<times> bytes) hashmap"
  lw_app :: app_config
  lw_temporary_password :: string

text \<open>
  What the system says: the two clocks, the hash function, the answers of the authenticator, of the network
  and of the desktop. \<open>le_user_token\<close> is the token of the terminal user or an error; \<open>le_try_desktop\<close> the
  message of the headless desktop; \<open>le_windows_sessions\<close> whether a Windows host with several sessions asks the
  peer which one it wants; \<open>le_displays\<close> the error of the displays.
\<close>

record login_env =
  le_os :: target_os
  le_flutter :: bool
  le_sha256 :: "bytes \<Rightarrow> bytes"
  le_secrets :: secrets_env
  le_json :: json_codec
  le_now :: int
  le_instant :: instant
  le_totp_check :: "string \<Rightarrow> string \<Rightarrow> bool result_type"
  le_connect :: "string \<Rightarrow> bool"
  le_cidr :: "string \<Rightarrow> ip_addr \<Rightarrow> bool"
  le_auto_id :: "string option"
  le_get_2fa :: "string \<Rightarrow> string option"
  le_main_window_missing :: bool
  le_privacy_on :: bool
  le_is_logon :: bool
  le_is_installed :: bool
  le_user_token :: "string \<Rightarrow> string \<Rightarrow> string + terminal_user_token"
  le_specified_user :: "string \<Rightarrow> bool option"
  le_try_desktop :: "(string \<times> string) option \<Rightarrow> string"
  le_linux_error :: "string option"
  le_windows_sessions :: bool
  le_displays :: "string option"
  le_is_dir :: "string \<Rightarrow> bool"

text \<open>
  What the log-on tells the peer and the other parts. The connection manager gets the request as it stands;
  of the permissions only that of the keyboard is kept.
\<close>

record cm_login =
  cl_peer_id :: string
  cl_name :: string
  cl_authorized :: bool
  cl_is_file_transfer :: bool
  cl_is_view_camera :: bool
  cl_is_terminal :: bool
  cl_port_forward :: string
  cl_avatar :: string
  cl_keyboard :: bool
  cl_from_switch :: bool

datatype login_out =
    LoginError string bool
  | LoginFailed string
  | LoginPeerInfo bool
  | SendHash pw_hash
  | Alarm alarm
  | StartCmIpc
  | CmLogin cm_login
  | SendCode
  | QosOpen i32
  | QosDelay i32 nat
  | EchoTestDelay
  | UpdateCodec
  | UpdateOptions login_options
  | ReadDir string bool
  | DelayedReadDir string bool
  | InitTerminal
  | KeyboardOff
  | SubscribeCamera
  | SubscribeMonitor
  | CmClosed
  | CmDisconnected
  | VoiceInputReset
  | LockScreen

record login_state =
  lg_conn :: connection
  lg_world :: login_world
  lg_out :: "login_out list"

definition emit :: "login_out list \<Rightarrow> login_state \<Rightarrow> login_state" where
  "emit os s = s\<lparr>lg_out := lg_out s @ os\<rparr>"

abbreviation on_conn :: "(connection \<Rightarrow> connection) \<Rightarrow> login_state \<Rightarrow> login_state" where
  "on_conn f s \<equiv> s\<lparr>lg_conn := f (lg_conn s)\<rparr>"

abbreviation on_store :: "(session_store \<Rightarrow> session_store) \<Rightarrow> login_state \<Rightarrow> login_state" where
  "on_store f s \<equiv> s\<lparr>lg_world := (lg_world s)\<lparr>lw_store := f (lw_store (lg_world s))\<rparr>\<rparr>"

text \<open>\<open>if a.await ... return false\<close>: a step that ends the connection ends the rest of the handler.\<close>

type_synonym handler = "login_state \<Rightarrow> bool \<times> login_state"

definition REQUIRE_2FA :: string where "REQUIRE_2FA = ''2FA Required''"
definition LOGIN_MSG_2FA_WRONG :: string where "LOGIN_MSG_2FA_WRONG = ''Wrong 2FA Code''"
definition LOGIN_MSG_PASSWORD_WRONG :: string where "LOGIN_MSG_PASSWORD_WRONG = ''Wrong Password''"
definition LOGIN_MSG_NO_PASSWORD_ACCESS :: string where "LOGIN_MSG_NO_PASSWORD_ACCESS = ''No Password Access''"
definition LOGIN_MSG_OFFLINE :: string where "LOGIN_MSG_OFFLINE = ''Offline''"
definition DESKTOP_SESSION_NOT_READY :: string where
  "DESKTOP_SESSION_NOT_READY = ''Desktop session not ready''"
definition DESKTOP_SESSION_NOT_READY_PASSWORD_EMPTY :: string where
  "DESKTOP_SESSION_NOT_READY_PASSWORD_EMPTY = ''Desktop session not ready, password empty''"
definition DESKTOP_SESSION_NOT_READY_PASSWORD_WRONG :: string where
  "DESKTOP_SESSION_NOT_READY_PASSWORD_WRONG = ''Desktop session not ready, password wrong''"

definition enable_trusted_devices :: "app_config \<Rightarrow> bool" where
  "enable_trusted_devices g = option2bool ''enable-trusted-devices'' (get_option g ''enable-trusted-devices'')"

definition send_login_error :: "string \<Rightarrow> login_state \<Rightarrow> login_state" where
  "send_login_error err s =
     emit [LoginError err (err = REQUIRE_2FA \<and> enable_trusted_devices (lw_app (lg_world s)))] s"

definition session_key_of :: "login_request \<Rightarrow> session_key" where
  "session_key_of lr = \<lparr>sk_peer_id = lr_my_id lr, sk_name = lr_my_name lr, sk_session_id = lr_session_id lr\<rparr>"

definition is_lan :: "login_request \<Rightarrow> bool" where
  "is_lan lr = starts_with (lr_username lr) ''direct-tcp:''"

definition get_auth_conn_type :: "connection \<Rightarrow> auth_conn_type" where
  "get_auth_conn_type c =
     (if cn_file_transfer c \<noteq> None then FileTransfer
      else if cn_port_forward_socket c then PortForward
      else if cn_view_camera c then ViewCamera
      else if cn_terminal c then Terminal
      else Remote)"

definition is_remote :: "connection \<Rightarrow> bool" where
  "is_remote c \<longleftrightarrow> cn_file_transfer c = None \<and> \<not> cn_port_forward_socket c \<and> \<not> cn_view_camera c \<and> \<not> cn_terminal c"

definition try_start_cm :: "string \<Rightarrow> string \<Rightarrow> bool \<Rightarrow> login_state \<Rightarrow> login_state" where
  "try_start_cm peer_id name authorized s =
     (let c = lg_conn s in
      emit [CmLogin \<lparr>cl_peer_id = peer_id, cl_name = name, cl_authorized = authorized,
              cl_is_file_transfer = (cn_file_transfer c \<noteq> None), cl_is_view_camera = cn_view_camera c,
              cl_is_terminal = cn_terminal c, cl_port_forward = cn_port_forward_address c,
              cl_avatar = lr_avatar (cn_lr c), cl_keyboard = cn_keyboard c,
              cl_from_switch = cn_from_switch c\<rparr>] s)"

definition try_start_cm_ipc :: "login_state \<Rightarrow> login_state" where
  "try_start_cm_ipc s =
     (if cn_cm_started (lg_conn s) then s
      else emit [StartCmIpc] (on_conn (\<lambda>c. c\<lparr>cn_cm_started := True\<rparr>) s))"

section \<open>Opening\<close>

definition access_mode :: "login_env \<Rightarrow> bool" where
  "access_mode e \<longleftrightarrow> le_flutter e \<and> \<not> is_mobile (le_os e)"

definition has_permission :: "login_env \<Rightarrow> string \<Rightarrow> login_state \<Rightarrow> bool" where
  "has_permission e opt s = granted (access_mode e) (lw_app (lg_world s)) opt (cn_control_permissions (lg_conn s))"

text \<open>The connection \<open>start\<close> makes; on Android the permissions of the server are dropped.\<close>

definition conn_start :: "login_env \<Rightarrow> i32 \<Rightarrow> u64 option \<Rightarrow> pw_hash \<Rightarrow> login_world \<Rightarrow> connection" where
  "conn_start e i cp h w =
     (let cp = (if le_os e = Android then None else cp) in
      \<lparr>cn_id = i, cn_hash = h, cn_lr = lr_default, cn_ip = '''', cn_authorized = False,
       cn_require_2fa = le_get_2fa e (get_option (lw_app w) ''2fa''), cn_control_permissions = cp,
       cn_options_in_login = None, cn_file_transfer = None, cn_view_camera = False, cn_terminal = False,
       cn_terminal_persistent = False, cn_terminal_service_id = '''', cn_terminal_user_token = None,
       cn_port_forward_address = '''', cn_port_forward_socket = False, cn_from_switch = False,
       cn_keyboard = granted (access_mode e) (lw_app w) ''enable-keyboard'' cp, cn_video_ack_required = False,
       cn_cm_started = False, cn_services_subed = False, cn_authed_conn = None,
       cn_session_last_recv_time = None, cn_last_test_delay = None, cn_network_delay = 0, cn_closed = False,
       cn_lock_after_session_end = False, cn_chat_unanswered = False, cn_file_transferred = False\<rparr>)"

definition whitelist_allows :: "(string \<Rightarrow> ip_addr \<Rightarrow> bool) \<Rightarrow> string \<Rightarrow> ip_addr \<Rightarrow> bool" where
  "whitelist_allows cidr opt ip =
     (let whitelist = filter (\<lambda>x. x \<noteq> []) (split_chars (\<lambda>c. c = CHR '','') opt)
      in whitelist = [] \<or> list_ex (\<lambda>x. x = ''0.0.0.0'') whitelist \<or> list_ex (\<lambda>x. cidr x ip) whitelist)"

definition check_whitelist :: "login_env \<Rightarrow> ip_addr \<Rightarrow> handler" where
  "check_whitelist e ip s =
     (if whitelist_allows (le_cidr e) (get_option (lw_app (lg_world s)) ''whitelist'') ip then (True, s)
      else (False, emit [Alarm IpWhitelist] (send_login_error ''Your ip is blocked by the peer'' s)))"

definition on_open :: "login_env \<Rightarrow> socket_addr \<Rightarrow> handler" where
  "on_open e addr s =
     (let ip = sock_ip (try_into_v4 addr); (ok, s) = check_whitelist e ip s in
      if \<not> ok then (False, s)
      else if \<not> is_mobile (le_os e) \<and> get_option (lw_app (lg_world s)) ''allow-only-conn-window-open'' = ''Y''
              \<and> le_main_window_missing e
      then (False, send_login_error ''The main window is not open'' s)
      else (let s = on_conn (\<lambda>c. c\<lparr>cn_ip := show_ip ip\<rparr>) s
            in (True, emit [SendHash (cn_hash (lg_conn s))] s)))"

section \<open>Authorising\<close>

definition recent_session :: "login_env \<Rightarrow> bool \<Rightarrow> handler" where
  "recent_session e tfa s =
     (let c = lg_conn s; lr = cn_lr c;
          (r, st) = is_recent_session (le_sha256 e) (le_instant e) (cn_hash c) (lr_username lr) (lr_password lr)
            (session_key_of lr) tfa (lw_store (lg_world s))
      in (r, on_store (\<lambda>_. st) s))"

definition normalize_port_forward_target :: "string \<Rightarrow> i32 \<Rightarrow> string \<times> bool" where
  "normalize_port_forward_target host port =
     (let (host, port, is_rdp) = (if host = ''RDP'' \<and> port = 0 then (''localhost'', 3389, True) else (host, port, False));
          host = (if host = '''' then ''localhost'' else host)
      in (host @ '':'' @ show_i32 port, is_rdp))"

definition connect_port_forward_if_needed :: "login_env \<Rightarrow> handler" where
  "connect_port_forward_if_needed e s =
     (if cn_port_forward_socket (lg_conn s) then (True, s)
      else case lr_union (cn_lr (lg_conn s)) of
             Some (LoginPortForward host port) \<Rightarrow>
               (let (addr, is_rdp) = normalize_port_forward_target host port;
                    s = on_conn (\<lambda>c. c\<lparr>cn_port_forward_address := addr\<rparr>) s
                in if le_connect e addr then (True, on_conn (\<lambda>c. c\<lparr>cn_port_forward_socket := True\<rparr>) s)
                   else (False, send_login_error (''Failed to access remote '' @ (if is_rdp then ''RDP'' else addr)
                                  @ ''. Please make sure it is reachable/open.'') s))
           | _ \<Rightarrow> (True, s))"

text \<open>\<open>handle_windows_specific_session\<close>: whether the peer is asked for the session first.\<close>

definition windows_session_confirm :: "login_env \<Rightarrow> login_state \<Rightarrow> bool" where
  "windows_session_confirm e s \<longleftrightarrow>
     le_os e = Windows \<and> \<not> cn_terminal (lg_conn s) \<and> le_windows_sessions e
     \<and> non_port_forward_conn_count (lw_store (lg_world s)) = 1
     \<and> at_least (get_version_number (lr_version (cn_lr (lg_conn s)))) ''1.2.4''"

definition try_sub_monitor_services :: "login_state \<Rightarrow> login_state" where
  "try_sub_monitor_services s =
     (if is_remote (lg_conn s) \<and> \<not> cn_services_subed (lg_conn s)
      then emit [SubscribeMonitor] (on_conn (\<lambda>c. c\<lparr>cn_services_subed := True\<rparr>) s) else s)"

definition finish_post_logon_actions :: "login_env \<Rightarrow> bool \<Rightarrow> bool \<Rightarrow> login_state \<Rightarrow> login_state" where
  "finish_post_logon_actions e sub_service wait_confirm s =
     (let s = (case cn_options_in_login (lg_conn s) of
                 Some o' \<Rightarrow> emit [UpdateOptions o'] (on_conn (\<lambda>c. c\<lparr>cn_options_in_login := None\<rparr>) s)
               | None \<Rightarrow> s)
      in case cn_file_transfer (lg_conn s) of
           Some (dir, show_hidden) \<Rightarrow>
             (let dir = (if dir \<noteq> '''' \<and> le_is_dir e dir then dir else '''')
              in emit [if wait_confirm then DelayedReadDir dir show_hidden else ReadDir dir show_hidden] s)
         | None \<Rightarrow>
             if cn_terminal (lg_conn s) then
               emit (if is_mobile (le_os e) then [] else [InitTerminal]) (on_conn (\<lambda>c. c\<lparr>cn_keyboard := False\<rparr>) s)
             else if cn_view_camera (lg_conn s) then
               (let s = (if wait_confirm then s else emit [SubscribeCamera] s)
                in emit [KeyboardOff] (on_conn (\<lambda>c. c\<lparr>cn_keyboard := False\<rparr>) s))
             else if sub_service \<and> \<not> wait_confirm then try_sub_monitor_services s
             else s)"

definition finish_logon :: "login_env \<Rightarrow> login_state \<Rightarrow> login_state" where
  "finish_logon e s =
     (let c = lg_conn s in
      if cn_port_forward_socket c then emit [LoginPeerInfo False] s
      else if le_os e = Linux \<and> is_remote c \<and> le_linux_error e \<noteq> None
      then emit [LoginFailed (case le_linux_error e of Some err \<Rightarrow> err | None \<Rightarrow> '''')] s
      else
        (let wait_confirm = windows_session_confirm e s;
             (outs, sub_service) =
               (if cn_file_transfer c \<noteq> None \<or> cn_terminal c then ([LoginPeerInfo wait_confirm], False)
                else if cn_view_camera c then ([UpdateCodec, LoginPeerInfo wait_confirm], False)
                else case le_displays e of
                       Some err \<Rightarrow> ([UpdateCodec, LoginFailed err], False)
                     | None \<Rightarrow> ([UpdateCodec, LoginPeerInfo wait_confirm], True))
         in finish_post_logon_actions e sub_service wait_confirm (emit outs s)))"

definition authorize_connection :: "login_env \<Rightarrow> login_state \<Rightarrow> login_state" where
  "authorize_connection e s =
     (let s = on_conn (\<lambda>c. c\<lparr>cn_authorized := True\<rparr>) s;
          lr = cn_lr (lg_conn s); key = session_key_of lr; t = get_auth_conn_type (lg_conn s);
          s = (if is_lan lr then on_store (update_or_insert_session (le_instant e) key None None) s else s);
          s = on_store (authed_conn_new (cn_id (lg_conn s)) t key (lr_version lr) (lr_my_platform lr)) s;
          s = emit (if t = Remote \<or> t = ViewCamera then [QosOpen (cn_id (lg_conn s))] else []) s;
          cell = map_option s_last_recv_time (hm_get (st_sessions (lw_store (lg_world s))) key)
      in on_conn (\<lambda>c. c\<lparr>cn_authed_conn := Some t, cn_session_last_recv_time := cell\<rparr>) s)"

definition send_logon_response_and_keep_alive :: "login_env \<Rightarrow> handler" where
  "send_logon_response_and_keep_alive e s =
     (if cn_authorized (lg_conn s) then (True, s)
      else
        (let (recent, s) = (if cn_require_2fa (lg_conn s) \<noteq> None then recent_session e True s else (True, s)) in
         if \<not> recent \<and> \<not> cn_from_switch (lg_conn s) then (True, send_login_error REQUIRE_2FA (emit [SendCode] s))
         else
           (let (connected, s) = connect_port_forward_if_needed e s in
            if \<not> connected then (False, s)
            else (True, finish_logon e (authorize_connection e s)))))"

section \<open>Requests of the peer\<close>

definition app_update :: "(app_config \<Rightarrow> 'a \<times> app_config) \<Rightarrow> login_state \<Rightarrow> 'a \<times> login_state" where
  "app_update f s =
     (let (r, g) = f (lw_app (lg_world s)) in (r, s\<lparr>lg_world := (lg_world s)\<lparr>lw_app := g\<rparr>\<rparr>))"

definition device_trusted :: "int \<Rightarrow> login_request \<Rightarrow> trusted_device list \<Rightarrow> bool" where
  "device_trusted now lr devices =
     (case find (\<lambda>d. td_hwid d = lr_hwid lr) devices of
        Some d \<Rightarrow> \<not> outdate now d \<and> td_id d = lr_my_id lr \<and> td_name d = lr_my_name lr
                    \<and> td_platform d = lr_my_platform lr
      | None \<Rightarrow> False)"

definition handle_login_request_without_validation :: "login_env \<Rightarrow> login_request \<Rightarrow> login_state \<Rightarrow> login_state" where
  "handle_login_request_without_validation e lr s =
     (let s = on_conn (\<lambda>c. c\<lparr>cn_lr := lr\<rparr>) s;
          s = (case lr_option lr of Some o' \<Rightarrow> on_conn (\<lambda>c. c\<lparr>cn_options_in_login := Some o'\<rparr>) s | None \<Rightarrow> s);
          s = (if cn_require_2fa (lg_conn s) \<noteq> None \<and> lr_hwid lr \<noteq> []
                  \<and> enable_trusted_devices (lw_app (lg_world s)) then
                 let (devices, s) = app_update (get_trusted_devices (le_secrets e) (le_json e) (le_now e)) s
                 in if device_trusted (le_now e) lr devices then on_conn (\<lambda>c. c\<lparr>cn_require_2fa := None\<rparr>) s else s
               else s)
      in on_conn (\<lambda>c. c\<lparr>cn_video_ack_required := lr_video_ack_required lr\<rparr>) s)"

definition refuse :: "string \<Rightarrow> handler" where
  "refuse err s = (False, send_login_error err s)"

text \<open>\<open>fill_terminal_user_token\<close>: the account of the process, but on Windows what the system says.\<close>

definition fill_terminal_user_token :: "login_env \<Rightarrow> string \<Rightarrow> string \<Rightarrow> login_state \<Rightarrow> string option \<times> login_state" where
  "fill_terminal_user_token e username password s =
     (case (if le_os e = Windows then le_user_token e username password else Inr SelfUser) of
        Inl err \<Rightarrow> (Some err, s)
      | Inr token \<Rightarrow> (None, on_conn (\<lambda>c. c\<lparr>cn_terminal_user_token := Some token\<rparr>) s))"

definition terminal_target :: "login_env \<Rightarrow> login_request \<Rightarrow> string \<Rightarrow> handler" where
  "terminal_target e lr service_id s =
     (if \<not> has_permission e ''enable-terminal'' s then refuse ''No permission of terminal'' s
      else if le_os e = Windows \<and> os_username lr \<noteq> '''' \<and> \<not> le_is_installed e
      then refuse ''Supported only in the installed version.'' s
      else
        (let s = on_conn (\<lambda>c. c\<lparr>cn_terminal := True,
                   cn_terminal_persistent := (case cn_options_in_login c of
                      Some o' \<Rightarrow> lo_terminal_persistent o' = Yes | None \<Rightarrow> cn_terminal_persistent c),
                   cn_terminal_service_id := service_id\<rparr>) s
         in if is_mobile (le_os e) then (True, s)
            else
              (case fill_terminal_user_token e (os_username lr) (os_password lr) s of
                 (Some msg, s) \<Rightarrow> refuse msg s
               | (None, s) \<Rightarrow>
                   (case (le_specified_user e (cn_terminal_service_id (lg_conn s)),
                          cn_terminal_user_token (lg_conn s)) of
                      (Some is_user, Some token) \<Rightarrow>
                        if is_user \<noteq> (token \<noteq> SelfUser) then refuse ''Terminal service user mismatch detected.'' s
                        else (True, s)
                    | _ \<Rightarrow> (True, s)))))"

definition login_target :: "login_env \<Rightarrow> login_request \<Rightarrow> handler" where
  "login_target e lr s =
     (case lr_union lr of
        Some (LoginFileTransfer dir show_hidden) \<Rightarrow>
          if \<not> has_permission e ''enable-file-transfer'' s then refuse ''No permission of file transfer'' s
          else (True, on_conn (\<lambda>c. c\<lparr>cn_file_transfer := Some (dir, show_hidden)\<rparr>) s)
      | Some LoginViewCamera \<Rightarrow>
          if \<not> has_permission e ''enable-camera'' s then refuse ''No permission of viewing camera'' s
          else (True, on_conn (\<lambda>c. c\<lparr>cn_view_camera := True\<rparr>) s)
      | Some (LoginTerminal service_id) \<Rightarrow> terminal_target e lr service_id s
      | Some (LoginPortForward host port) \<Rightarrow>
          if \<not> has_permission e ''enable-tunnel'' s then refuse ''No permission of IP tunneling'' s
          else (True, on_conn (\<lambda>c. c\<lparr>cn_port_forward_address := fst (normalize_port_forward_target host port)\<rparr>) s)
      | None \<Rightarrow>
          if le_privacy_on e then refuse ''Someone turns on privacy mode, exit'' s else (True, s))"

fun trim_start_matches :: "string \<Rightarrow> string \<Rightarrow> string" where
  "trim_start_matches p s =
     (if p \<noteq> [] \<and> s \<noteq> [] \<and> starts_with s p then trim_start_matches p (drop (length p) s) else s)"

declare trim_start_matches.simps [simp del]

definition remove_spaces :: "string \<Rightarrow> string" where
  "remove_spaces s = filter (\<lambda>c. c \<noteq> CHR '' '') s"

definition normalized_username :: "string \<Rightarrow> string" where
  "normalized_username u =
     (if starts_with u ''nostr-webrtc://''
      then remove_spaces (hd (split_chars (\<lambda>c. c = CHR ''?'') (trim_start_matches ''nostr-webrtc://'' u)))
      else remove_spaces u)"

text \<open>Whether the request is for this machine.\<close>

definition addressed_here :: "login_env \<Rightarrow> login_request \<Rightarrow> handler" where
  "addressed_here e lr s =
     (let u = lr_username lr in
      if is_ip_str u \<or> is_domain_port_str u \<or> is_lan lr then (True, s)
      else (let (i, s) = app_update (get_id (le_secrets e) (le_auto_id e)) s
            in (normalized_username u = remove_spaces i, s)))"

definition click_only :: "login_env \<Rightarrow> login_state \<Rightarrow> bool" where
  "click_only e s \<longleftrightarrow>
     (let w = lg_world s; g = lw_app w in
      approve_mode g = ApproveClick \<and> \<not> (builtin_is g ''allow-logon-screen-password'' ''Y'' \<and> le_is_logon e)
      \<or> approve_mode g = ApproveBoth \<and> \<not> has_valid_password (lw_temporary_password w) g)"

definition validate_password :: "login_env \<Rightarrow> handler" where
  "validate_password e s =
     (let c = lg_conn s; w = lg_world s; g = lw_app w; answer = lr_password (cn_lr c);
          ok = validate_one_password (le_sha256 e) (cn_hash c) answer;
          temporary = lw_temporary_password w
      in if temporary_enabled g \<and> ok temporary
         then (True, on_store (update_or_insert_session (le_instant e) (session_key_of (cn_lr c))
                       (Some temporary) (Some False)) s)
         else if permanent_enabled g \<and> ok (get_permanent_password g) then (True, s)
         else (False, s))"

text \<open>The check and the count of an attempt of the \<open>i\<close>-th kind.\<close>

definition login_check :: "login_env \<Rightarrow> nat \<Rightarrow> login_state \<Rightarrow> (failure \<times> i32) \<times> refusal option" where
  "login_check e i s = check_failure (cn_ip (lg_conn s)) (le_now e) (lw_failures (lg_world s) ! i)"

definition login_count :: "nat \<Rightarrow> failure \<times> i32 \<Rightarrow> bool \<Rightarrow> login_state \<Rightarrow> login_state" where
  "login_count i ft remove s =
     (let w = lg_world s; fs = lw_failures w
      in s\<lparr>lg_world := w\<lparr>lw_failures := fs[i := update_failure (cn_ip (lg_conn s)) ft remove (fs ! i)]\<rparr>\<rparr>)"

definition send_refusal :: "refusal \<Rightarrow> login_state \<Rightarrow> login_state" where
  "send_refusal r s = emit [Alarm (snd r)] (send_login_error (fst r) s)"

definition accept_login :: "login_env \<Rightarrow> string \<Rightarrow> login_request \<Rightarrow> handler" where
  "accept_login e err_msg lr s =
     (if err_msg = '''' then
        (let (keep, s) = send_logon_response_and_keep_alive e s in
         if \<not> keep then (False, s)
         else (True, try_start_cm (lr_my_id lr) (lr_my_name lr) (cn_authorized (lg_conn s)) s))
      else (True, send_login_error err_msg s))"

definition password_login :: "login_env \<Rightarrow> string \<Rightarrow> login_request \<Rightarrow> handler" where
  "password_login e err_msg lr s =
     (case login_check e 0 s of
        (_, Some r) \<Rightarrow> (True, send_refusal r s)
      | (failure, None) \<Rightarrow>
          (let (ok, s) = validate_password e s in
           if \<not> ok then
             (let s = login_count 0 failure False s in
              (True, if err_msg = ''''
                     then try_start_cm (lr_my_id lr) (lr_my_name lr) False (send_login_error LOGIN_MSG_PASSWORD_WRONG s)
                     else send_login_error DESKTOP_SESSION_NOT_READY_PASSWORD_WRONG s))
           else accept_login e err_msg lr (login_count 0 failure True s)))"

definition login_decision :: "login_env \<Rightarrow> string \<Rightarrow> login_request \<Rightarrow> handler" where
  "login_decision e err_msg lr s =
     (let (here, s) = addressed_here e lr s in
      if \<not> here then refuse LOGIN_MSG_OFFLINE s
      else
        (let (recent, s) = recent_session e False s in
         if \<not> recent \<and> click_only e s then
           (let s = try_start_cm (lr_my_id lr) (lr_my_name lr) False s
            in (True, if at_least (get_version_number (lr_version lr)) ''1.2.0''
                      then send_login_error LOGIN_MSG_NO_PASSWORD_ACCESS s else s))
         else if recent then accept_login e err_msg lr s
         else if lr_password lr = [] then
           (True, if err_msg = '''' then try_start_cm (lr_my_id lr) (lr_my_name lr) False s
                  else send_login_error DESKTOP_SESSION_NOT_READY_PASSWORD_EMPTY s)
         else password_login e err_msg lr s))"

definition on_login_request :: "login_env \<Rightarrow> login_request \<Rightarrow> handler" where
  "on_login_request e lr s =
     (let s = handle_login_request_without_validation e lr s in
      if cn_authorized (lg_conn s) then (True, s)
      else
        (let (ok, s) = login_target e lr s in
         if \<not> ok then (False, s)
         else
           (let s = (if is_mobile (le_os e) then s else try_start_cm_ipc s);
                err_msg = (if le_os e = Linux then le_try_desktop e (lr_os_login lr) else '''')
            in if err_msg \<noteq> '''' \<and> err_msg \<noteq> DESKTOP_SESSION_NOT_READY then (True, send_login_error err_msg s)
               else login_decision e err_msg lr s)))"

definition on_auth2fa :: "login_env \<Rightarrow> string \<Rightarrow> bytes \<Rightarrow> handler" where
  "on_auth2fa e code hwid s =
     (case login_check e 1 s of
        (_, Some r) \<Rightarrow> (True, send_refusal r s)
      | (failure, None) \<Rightarrow>
          (case cn_require_2fa (lg_conn s) of
             None \<Rightarrow> (True, s)
           | Some totp \<Rightarrow>
               (case le_totp_check e totp code of
                  Inl _ \<Rightarrow> (True, s)
                | Inr False \<Rightarrow> (True, send_login_error LOGIN_MSG_2FA_WRONG (login_count 1 failure False s))
                | Inr True \<Rightarrow>
                    (let s = login_count 1 failure True s;
                         s = on_conn (\<lambda>c. c\<lparr>cn_require_2fa := None\<rparr>) s;
                         s = on_store (set_session_2fa (le_instant e) (session_key_of (cn_lr (lg_conn s)))) s;
                         (keep, s) = send_logon_response_and_keep_alive e s
                     in if \<not> keep then (False, s)
                        else
                          (let lr = cn_lr (lg_conn s);
                               s = try_start_cm (lr_my_id lr) (lr_my_name lr) (cn_authorized (lg_conn s)) s
                           in (True,
                               if hwid \<noteq> [] \<and> enable_trusted_devices (lw_app (lg_world s)) then
                                 snd (app_update (\<lambda>g. ((), add_trusted_device (le_secrets e) (le_json e) (le_now e)
                                   \<lparr>td_hwid = hwid, td_time = le_now e, td_id = lr_my_id lr,
                                    td_name = lr_my_name lr, td_platform = lr_my_platform lr\<rparr> g)) s)
                               else s))))))"

definition on_test_delay :: "login_env \<Rightarrow> bool \<Rightarrow> login_state \<Rightarrow> login_state" where
  "on_test_delay e from_client s =
     (if from_client then emit [EchoTestDelay] s
      else case cn_last_test_delay (lg_conn s) of
             None \<Rightarrow> s
           | Some tm \<Rightarrow>
               (let new_delay = (le_instant e - tm) div 10 ^ 6
                in emit [QosDelay (cn_id (lg_conn s)) new_delay]
                     (on_conn (\<lambda>c. c\<lparr>cn_last_test_delay := None, cn_network_delay := of_nat new_delay\<rparr>) s)))"

text \<open>An offer to switch sides lasts ten seconds and is used up by the first answer; a UUID has 16 bytes.\<close>

definition SWITCH_SIDES_TIMEOUT :: nat where "SWITCH_SIDES_TIMEOUT = 10 * 10 ^ 9"

definition insert_switch_sides_uuid :: "instant \<Rightarrow> string \<Rightarrow> bytes \<Rightarrow> login_world \<Rightarrow> login_world" where
  "insert_switch_sides_uuid now i uuid w = w\<lparr>lw_switch := hm_insert i (now, uuid) (lw_switch w)\<rparr>"

definition on_switch_sides :: "login_env \<Rightarrow> bytes \<Rightarrow> login_request option \<Rightarrow> handler" where
  "on_switch_sides e uuid req s =
     (case (if le_flutter e then req else None) of
        None \<Rightarrow> (True, s)
      | Some lr \<Rightarrow>
          (let s = handle_login_request_without_validation e lr s;
               m = hm_retain (\<lambda>_ v. le_instant e - fst v < SWITCH_SIDES_TIMEOUT) (lw_switch (lg_world s));
               old = hm_get m (lr_my_id lr);
               s = s\<lparr>lg_world := (lg_world s)\<lparr>lw_switch := hm_remove (lr_my_id lr) m\<rparr>\<rparr>
           in if length uuid = 16 \<and> map_option snd old = Some uuid then
                (let s = on_conn (\<lambda>c. c\<lparr>cn_from_switch := True\<rparr>) s;
                     (keep, s) = send_logon_response_and_keep_alive e s
                 in if \<not> keep then (False, s)
                    else
                      (let s = try_start_cm (lr_my_id lr) (lr_my_name lr) (cn_authorized (lg_conn s)) s
                       in (True, if is_mobile (le_os e) then s else try_start_cm_ipc s)))
              else (True, s)))"

text \<open>\<open>lock\<close>: whether the screen may be locked.\<close>

definition on_close :: "login_env \<Rightarrow> bool \<Rightarrow> login_state \<Rightarrow> login_state" where
  "on_close e lock s =
     (let c = lg_conn s in
      if cn_closed c then s
      else
        emit ([VoiceInputReset]
              @ (if lock \<and> cn_lock_after_session_end c \<and> cn_keyboard c \<and> \<not> is_mobile (le_os e) then [LockScreen] else [])
              @ [if (cn_chat_unanswered c \<or> cn_file_transferred c \<and> le_flutter e) \<and> \<not> is_mobile (le_os e)
                 then CmDisconnected else CmClosed])
          (on_conn (\<lambda>c. c\<lparr>cn_closed := True, cn_port_forward_socket := False\<rparr>) s))"

definition on_close_reason :: "login_env \<Rightarrow> login_state \<Rightarrow> login_state" where
  "on_close_reason e s =
     (let s = on_close e True s; lr = cn_lr (lg_conn s)
      in on_store (check_remove_session (cn_id (lg_conn s)) (session_key_of lr) (is_lan lr)) s)"

fun on_message :: "login_env \<Rightarrow> login_message \<Rightarrow> handler" where
  "on_message e (MsgCloseReason _) s = (False, on_close_reason e s)"
| "on_message e (MsgLoginRequest lr) s = on_login_request e lr s"
| "on_message e (MsgAuth2fa code hwid) s = on_auth2fa e code hwid s"
| "on_message e (MsgTestDelay from_client) s = (True, on_test_delay e from_client s)"
| "on_message e (MsgSwitchSidesResponse uuid lr) s = on_switch_sides e uuid lr s"

section \<open>The loop of a connection\<close>

text \<open>
  A message from the peer: the session hears of it before it is handled. A port forward that is authorised
  leaves the loop unless an answer to a delay test is outstanding. The connection manager: the user accepts
  the connection.
\<close>

definition receive :: "login_env \<Rightarrow> login_message \<Rightarrow> handler" where
  "receive e m s =
     (let s = on_store (touch_cell (le_instant e) (cn_session_last_recv_time (lg_conn s))) s;
          (keep, s) = on_message e m s; c = lg_conn s
      in (keep \<and> \<not> (cn_port_forward_socket c \<and> cn_authorized c \<and> cn_last_test_delay c = None), s))"

definition user_accepts :: "login_env \<Rightarrow> handler" where
  "user_accepts e s =
     (let (keep, s) = send_logon_response_and_keep_alive e (on_conn (\<lambda>c. c\<lparr>cn_require_2fa := None\<rparr>) s)
      in (keep \<and> \<not> cn_port_forward_socket (lg_conn s), s))"

text \<open>
  The end of a connection: an authorised one makes a new one-time password (\<open>rs\<close>: the random numbers), and
  leaves the list of authorised connections.
\<close>

definition conn_end :: "login_env \<Rightarrow> usize list \<Rightarrow> login_state \<Rightarrow> login_state" where
  "conn_end e rs s =
     (let c = lg_conn s;
          s = (if cn_authorized c
               then s\<lparr>lg_world := (lg_world s)\<lparr>lw_temporary_password := new_temporary_password rs (lw_app (lg_world s))\<rparr>\<rparr>
               else s);
          s = on_close e True s
      in if cn_authed_conn c \<noteq> None then on_store (authed_conn_drop (cn_id c)) s else s)"

end
