(* ===== verification/Logon_Safety.thy ===== *)
theory Logon_Safety
  imports Login
begin

text \<open>
  What an authorised connection has shown: the grounds on which the steps of the log-on authorise a
  connection, and the grounds that turn out to be missing.
\<close>

section \<open>What the steps leave alone\<close>

text \<open>Two configurations with the same options and the same permanent password.\<close>

definition same_policy :: "app_config \<Rightarrow> app_config \<Rightarrow> bool" where
  "same_policy g g' \<longleftrightarrow>
     c2_options (g_config2 g') = c2_options (g_config2 g) \<and> g_overwrite_settings g' = g_overwrite_settings g
     \<and> g_default_settings g' = g_default_settings g \<and> g_builtin_settings g' = g_builtin_settings g
     \<and> g_hard_settings g' = g_hard_settings g \<and> c_password (g_config g') = c_password (g_config g)"

lemma same_policy_refl [simp]: "same_policy g g"
  by (simp add: same_policy_def)

lemma same_policy_trans: "same_policy g g' \<Longrightarrow> same_policy g' g'' \<Longrightarrow> same_policy g g''"
  by (simp add: same_policy_def)

lemma same_policyD:
  assumes "same_policy g g'"
  shows "get_option g' k = get_option g k" "get_permanent_password g' = get_permanent_password g"
    "builtin_is g' k v = builtin_is g k v" "temporary_enabled g' = temporary_enabled g"
    "permanent_enabled g' = permanent_enabled g" "approve_mode g' = approve_mode g"
    "has_valid_password t g' = has_valid_password t g" "enable_trusted_devices g' = enable_trusted_devices g"
    "granted a g' opt cp = granted a g opt cp"
proof -
  show o': "get_option g' k = get_option g k" for k
    using assms by (simp add: same_policy_def get_option_def)
  show p: "get_permanent_password g' = get_permanent_password g" "builtin_is g' k v = builtin_is g k v"
    using assms by (simp_all add: same_policy_def get_permanent_password_def builtin_is_def Let_def)
  have v: "verification_method g' = verification_method g" by (simp add: verification_method_def o')
  show t: "temporary_enabled g' = temporary_enabled g" "permanent_enabled g' = permanent_enabled g"
    by (simp_all add: temporary_enabled_def permanent_enabled_def v)
  show "approve_mode g' = approve_mode g" by (simp add: approve_mode_def o')
  show "has_valid_password t g' = has_valid_password t g" by (simp add: has_valid_password_def t p)
  show "enable_trusted_devices g' = enable_trusted_devices g" by (simp add: enable_trusted_devices_def o')
  have "is_permission_enabled_locally a g' opt = is_permission_enabled_locally a g opt" for opt
    by (simp add: is_permission_enabled_locally_def o')
  then show "granted a g' opt cp = granted a g opt cp" by (simp add: granted_def split: option.split)
qed

lemma same_policy_set_trusted: "same_policy g (set_trusted_devices e js now ds g)"
  by (simp add: set_trusted_devices_def same_policy_def put_config2_def Let_def)

lemma same_policy_get_trusted: "same_policy g (snd (get_trusted_devices e js now g))"
  using same_policy_set_trusted [of g e js now]
  by (auto simp: get_trusted_devices_def same_policy_def Let_def split: prod.split)

lemma same_policy_get_id: "same_policy g (snd (get_id e gen g))"
  by (auto simp: get_id_def set_id_def same_policy_def put_config_def Let_def split: option.split)

lemma app_update_facts:
  assumes "app_update f s = (r, s')"
  shows "lg_conn s' = lg_conn s" "lw_failures (lg_world s') = lw_failures (lg_world s)"
    "lw_store (lg_world s') = lw_store (lg_world s)" "lw_temporary_password (lg_world s') = lw_temporary_password (lg_world s)"
    "lw_app (lg_world s') = snd (f (lw_app (lg_world s)))" "r = fst (f (lw_app (lg_world s)))"
  using assms by (auto simp: app_update_def Let_def split: prod.splits)

lemma emit_facts [simp]: "lg_conn (emit os s) = lg_conn s" "lg_world (emit os s) = lg_world s"
  by (simp_all add: emit_def)

lemma out_facts [simp]:
  "lg_conn (send_login_error err s) = lg_conn s" "lg_world (send_login_error err s) = lg_world s"
  "lg_conn (try_start_cm i n a s) = lg_conn s" "lg_world (try_start_cm i n a s) = lg_world s"
  "lg_conn (send_refusal r s) = lg_conn s" "lg_world (send_refusal r s) = lg_world s"
  "lg_conn (login_count k ft b s) = lg_conn s"
  by (simp_all add: send_login_error_def try_start_cm_def send_refusal_def login_count_def Let_def)

text \<open>What the password check and the target of a request keep of the connection.\<close>

definition same_peer :: "connection \<Rightarrow> connection \<Rightarrow> bool" where
  "same_peer c c' \<longleftrightarrow>
     cn_authorized c' = cn_authorized c \<and> cn_lr c' = cn_lr c \<and> cn_require_2fa c' = cn_require_2fa c
     \<and> cn_from_switch c' = cn_from_switch c \<and> cn_hash c' = cn_hash c \<and> cn_ip c' = cn_ip c
     \<and> cn_control_permissions c' = cn_control_permissions c \<and> cn_id c' = cn_id c"

lemma same_peer_refl [simp]: "same_peer c c"
  by (simp add: same_peer_def)

lemma same_peer_update [simp]:
  "same_peer c (c\<lparr>cn_terminal := a, cn_terminal_persistent := b, cn_terminal_service_id := d\<rparr>)"
  "same_peer c (c\<lparr>cn_file_transfer := f\<rparr>)" "same_peer c (c\<lparr>cn_view_camera := g\<rparr>)"
  "same_peer c (c\<lparr>cn_port_forward_address := h\<rparr>)" "same_peer c (c\<lparr>cn_port_forward_socket := i\<rparr>)"
  "same_peer c (c\<lparr>cn_cm_started := j\<rparr>)" "same_peer c (c\<lparr>cn_terminal_user_token := t\<rparr>)"
  by (simp_all add: same_peer_def)

lemma same_peer_trans: "same_peer c c' \<Longrightarrow> same_peer c' c'' \<Longrightarrow> same_peer c c''"
  by (simp add: same_peer_def)

lemma refuse_facts [simp]:
  "fst (refuse err s) = False" "lg_conn (snd (refuse err s)) = lg_conn s" "lg_world (snd (refuse err s)) = lg_world s"
  by (simp_all add: refuse_def)

lemma fill_token_facts:
  assumes "fill_terminal_user_token e u p s = (r, s')"
  shows "same_peer (lg_conn s) (lg_conn s')" "lg_world s' = lg_world s"
  using assms by (auto simp: fill_terminal_user_token_def split: sum.splits)

definition keeps_peer :: "login_state \<Rightarrow> bool \<times> login_state \<Rightarrow> bool" where
  "keeps_peer s r \<longleftrightarrow> same_peer (lg_conn s) (lg_conn (snd r)) \<and> lg_world (snd r) = lg_world s"

lemma keeps_peer_intros:
  "keeps_peer s s1 \<Longrightarrow> keeps_peer s s2 \<Longrightarrow> keeps_peer s (if b then s1 else s2)"
  "keeps_peer s (b, s)"
  "same_peer (lg_conn s) c \<Longrightarrow> keeps_peer s (b, s\<lparr>lg_conn := c\<rparr>)"
  "same_peer (lg_conn s) (lg_conn s') \<Longrightarrow> lg_world s' = lg_world s \<Longrightarrow> keeps_peer s (b, s')"
  "same_peer (lg_conn s) (lg_conn s') \<Longrightarrow> lg_world s' = lg_world s \<Longrightarrow> keeps_peer s (refuse err s')"
  by (simp_all add: keeps_peer_def)

lemma terminal_target_facts: "keeps_peer s (terminal_target e lr i s)"
proof -
  define s1 where "s1 = on_conn (\<lambda>c. c\<lparr>cn_terminal := True,
                   cn_terminal_persistent := (case cn_options_in_login c of
                      Some o' \<Rightarrow> lo_terminal_persistent o' = Yes | None \<Rightarrow> cn_terminal_persistent c),
                   cn_terminal_service_id := i\<rparr>) s"
  have s1: "same_peer (lg_conn s) (lg_conn s1)" "lg_world s1 = lg_world s" by (simp_all add: s1_def)
  obtain r s2 where f: "fill_terminal_user_token e (os_username lr) (os_password lr) s1 = (r, s2)" by fastforce
  have s2: "same_peer (lg_conn s) (lg_conn s2)" "lg_world s2 = lg_world s"
    using fill_token_facts [OF f] s1 same_peer_trans by auto
  note intros = keeps_peer_intros(1) keeps_peer_intros(4) [OF s1] keeps_peer_intros(4,5) [OF s2]
    keeps_peer_intros(5) [OF same_peer_refl refl]
  show ?thesis
    unfolding terminal_target_def Let_def s1_def [symmetric] f
    by (cases r; cases "le_specified_user e (cn_terminal_service_id (lg_conn s2))";
        cases "cn_terminal_user_token (lg_conn s2)")
      (simp_all only: prod.case option.case, (rule intros)+)
qed

lemma login_target_keeps: "keeps_peer s (login_target e lr s)"
proof (cases "lr_union lr")
  case None
  then show ?thesis
    unfolding login_target_def by (simp only: option.case) (rule keeps_peer_intros same_peer_refl refl)+
next
  case (Some u)
  show ?thesis
  proof (cases u)
    case (LoginTerminal i)
    with Some terminal_target_facts show ?thesis by (simp add: login_target_def)
  qed (unfold login_target_def Some, simp_all only: option.case login_union.case,
      (rule keeps_peer_intros same_peer_refl refl same_peer_update)+)
qed

lemma login_target_facts:
  assumes "login_target e lr s = (ok, s')"
  shows "same_peer (lg_conn s) (lg_conn s')" "lg_world s' = lg_world s"
  using login_target_keeps [of s e lr] assms by (simp_all add: keeps_peer_def)

definition target_permitted :: "login_env \<Rightarrow> login_request \<Rightarrow> app_config \<Rightarrow> u64 option \<Rightarrow> bool" where
  "target_permitted e lr g cp \<longleftrightarrow>
     (case lr_union lr of
        Some (LoginFileTransfer _ _) \<Rightarrow> granted (access_mode e) g ''enable-file-transfer'' cp
      | Some LoginViewCamera \<Rightarrow> granted (access_mode e) g ''enable-camera'' cp
      | Some (LoginTerminal _) \<Rightarrow> granted (access_mode e) g ''enable-terminal'' cp
      | Some (LoginPortForward _ _) \<Rightarrow> granted (access_mode e) g ''enable-tunnel'' cp
      | None \<Rightarrow> \<not> le_privacy_on e)"

lemma login_target_permitted:
  assumes "login_target e lr s = (True, s')"
  shows "target_permitted e lr (lw_app (lg_world s)) (cn_control_permissions (lg_conn s))"
proof -
  have "fst (login_target e lr s)" using assms by simp
  then show ?thesis
    by (simp add: login_target_def terminal_target_def target_permitted_def has_permission_def
        split: option.splits login_union.splits if_splits)
qed

lemma try_start_cm_ipc_facts [simp]:
  "same_peer (lg_conn s) (lg_conn (try_start_cm_ipc s))" "lg_world (try_start_cm_ipc s) = lg_world s"
  by (simp_all add: try_start_cm_ipc_def same_peer_def)

lemma recent_session_facts:
  assumes "recent_session e tfa s = (r, s')"
  shows "lg_conn s' = lg_conn s" "lw_failures (lg_world s') = lw_failures (lg_world s)"
    "lw_app (lg_world s') = lw_app (lg_world s)" "lw_temporary_password (lg_world s') = lw_temporary_password (lg_world s)"
  using assms by (auto simp: recent_session_def Let_def split: prod.splits)

lemma validate_password_facts:
  assumes "validate_password e s = (r, s')"
  shows "lg_conn s' = lg_conn s" "lw_failures (lg_world s') = lw_failures (lg_world s)"
    "lw_app (lg_world s') = lw_app (lg_world s)"
  using assms by (auto simp: validate_password_def Let_def split: if_splits)

lemma connect_facts:
  assumes "connect_port_forward_if_needed e s = (k, s')"
  shows "same_peer (lg_conn s) (lg_conn s')" "lg_world s' = lg_world s"
  using assms
  by (auto simp: connect_port_forward_if_needed_def same_peer_def Let_def
      split: if_splits option.splits login_union.splits prod.splits)

lemma same_peer_authorized: "same_peer c c' \<Longrightarrow> cn_authorized c' = cn_authorized c"
  by (simp add: same_peer_def)

lemma send_logon_grounds:
  assumes "send_logon_response_and_keep_alive e s = (k, s')" "\<not> cn_authorized (lg_conn s)" "cn_authorized (lg_conn s')"
  shows "cn_require_2fa (lg_conn s) = None \<or> fst (recent_session e True s) \<or> cn_from_switch (lg_conn s)"
proof (rule ccontr)
  assume no: "\<not> ?thesis"
  obtain r s1 where r: "recent_session e True s = (r, s1)" by fastforce
  from no assms(1,2) r have "s' = send_login_error REQUIRE_2FA (emit [SendCode] s1)"
    by (auto simp: send_logon_response_and_keep_alive_def recent_session_facts(1) [OF r])
  with assms(2,3) recent_session_facts(1) [OF r] show False by simp
qed

lemma without_validation_facts:
  assumes "s' = handle_login_request_without_validation e lr s"
  shows "cn_lr (lg_conn s') = lr" "cn_authorized (lg_conn s') = cn_authorized (lg_conn s)"
    "cn_from_switch (lg_conn s') = cn_from_switch (lg_conn s)" "cn_hash (lg_conn s') = cn_hash (lg_conn s)"
    "cn_ip (lg_conn s') = cn_ip (lg_conn s)" "cn_control_permissions (lg_conn s') = cn_control_permissions (lg_conn s)"
    "cn_id (lg_conn s') = cn_id (lg_conn s)"
    "lw_store (lg_world s') = lw_store (lg_world s)" "lw_failures (lg_world s') = lw_failures (lg_world s)"
    "lw_temporary_password (lg_world s') = lw_temporary_password (lg_world s)"
    "same_policy (lw_app (lg_world s)) (lw_app (lg_world s'))"
    "cn_require_2fa (lg_conn s') = None \<longleftrightarrow> cn_require_2fa (lg_conn s) = None \<or>
       lr_hwid lr \<noteq> [] \<and> enable_trusted_devices (lw_app (lg_world s))
       \<and> device_trusted (le_now e) lr (fst (get_trusted_devices (le_secrets e) (le_json e) (le_now e) (lw_app (lg_world s))))"
  using same_policy_get_trusted [of "lw_app (lg_world s)" "le_secrets e" "le_json e" "le_now e"]
  unfolding assms
  by (auto simp: handle_login_request_without_validation_def Let_def app_update_def
      split: option.split prod.split)

section \<open>A log-on with a password\<close>

definition comes_back :: "login_env \<Rightarrow> login_request \<Rightarrow> bool \<Rightarrow> login_state \<Rightarrow> bool" where
  "comes_back e lr tfa s \<longleftrightarrow>
     fst (is_recent_session (le_sha256 e) (le_instant e) (cn_hash (lg_conn s)) (lr_username lr) (lr_password lr)
            (session_key_of lr) tfa (lw_store (lg_world s)))"

definition second_factor_waived :: "login_env \<Rightarrow> login_request \<Rightarrow> login_state \<Rightarrow> bool" where
  "second_factor_waived e lr s \<longleftrightarrow>
     cn_require_2fa (lg_conn s) = None \<or> cn_from_switch (lg_conn s)
     \<or> lr_hwid lr \<noteq> [] \<and> enable_trusted_devices (lw_app (lg_world s))
       \<and> device_trusted (le_now e) lr (fst (get_trusted_devices (le_secrets e) (le_json e) (le_now e) (lw_app (lg_world s))))"

definition answers :: "login_env \<Rightarrow> login_request \<Rightarrow> login_state \<Rightarrow> string \<Rightarrow> bool" where
  "answers e lr s pw \<longleftrightarrow>
     pw \<noteq> '''' \<and> lr_password lr = le_sha256 e (le_sha256 e (as_bytes pw @ as_bytes (h_salt (cn_hash (lg_conn s))))
       @ as_bytes (h_challenge (cn_hash (lg_conn s))))"

definition one_time_password_right :: "login_env \<Rightarrow> login_request \<Rightarrow> login_state \<Rightarrow> bool" where
  "one_time_password_right e lr s \<longleftrightarrow>
     temporary_enabled (lw_app (lg_world s)) \<and> answers e lr s (lw_temporary_password (lg_world s))"

definition permanent_password_right :: "login_env \<Rightarrow> login_request \<Rightarrow> login_state \<Rightarrow> bool" where
  "permanent_password_right e lr s \<longleftrightarrow>
     permanent_enabled (lw_app (lg_world s)) \<and> answers e lr s (get_permanent_password (lw_app (lg_world s)))"

lemma recent_session_comes_back:
  "fst (recent_session e tfa s) = comes_back e (cn_lr (lg_conn s)) tfa s"
  by (simp add: recent_session_def comes_back_def Let_def split: prod.split)

text \<open>Two states in which a request is judged alike, except for the sessions.\<close>

definition same_judge :: "login_state \<Rightarrow> login_state \<Rightarrow> bool" where
  "same_judge s s' \<longleftrightarrow>
     cn_authorized (lg_conn s') = cn_authorized (lg_conn s) \<and> cn_hash (lg_conn s') = cn_hash (lg_conn s)
     \<and> cn_ip (lg_conn s') = cn_ip (lg_conn s) \<and> cn_from_switch (lg_conn s') = cn_from_switch (lg_conn s)
     \<and> lw_failures (lg_world s') = lw_failures (lg_world s)
     \<and> lw_temporary_password (lg_world s') = lw_temporary_password (lg_world s)
     \<and> same_policy (lw_app (lg_world s)) (lw_app (lg_world s'))"

lemma same_judge_trans: "same_judge s s' \<Longrightarrow> same_judge s' s'' \<Longrightarrow> same_judge s s''"
  using same_policy_trans by (simp add: same_judge_def) blast

lemma same_judgeD:
  assumes "same_judge s s'"
  shows "answers e lr s' = answers e lr s" "one_time_password_right e lr s' = one_time_password_right e lr s"
    "permanent_password_right e lr s' = permanent_password_right e lr s" "click_only e s' = click_only e s"
    "login_check e k s' = login_check e k s" "cn_authorized (lg_conn s') = cn_authorized (lg_conn s)"
proof -
  have h: "cn_hash (lg_conn s') = cn_hash (lg_conn s)"
      "lw_temporary_password (lg_world s') = lw_temporary_password (lg_world s)"
      "same_policy (lw_app (lg_world s)) (lw_app (lg_world s'))"
    using assms by (simp_all add: same_judge_def)
  show a: "answers e lr s' = answers e lr s" for lr by (simp add: answers_def h fun_eq_iff)
  show "one_time_password_right e lr s' = one_time_password_right e lr s"
    "permanent_password_right e lr s' = permanent_password_right e lr s" "click_only e s' = click_only e s"
    by (simp_all add: one_time_password_right_def permanent_password_right_def click_only_def a h same_policyD [OF h(3)] Let_def)
  show "login_check e k s' = login_check e k s" "cn_authorized (lg_conn s') = cn_authorized (lg_conn s)"
    using assms by (simp_all add: same_judge_def login_check_def)
qed

lemma validate_password_right:
  assumes "validate_password e s = (ok, s')" "cn_lr (lg_conn s) = lr"
  shows "ok \<longleftrightarrow> one_time_password_right e lr s \<or> permanent_password_right e lr s"
    "one_time_password_right e lr s \<Longrightarrow>
       s' = on_store (update_or_insert_session (le_instant e) (session_key_of lr)
              (Some (lw_temporary_password (lg_world s))) (Some False)) s"
    "\<not> one_time_password_right e lr s \<Longrightarrow> s' = s"
proof -
  have v: "validate_one_password (le_sha256 e) (cn_hash (lg_conn s)) (lr_password lr) pw = answers e lr s pw" for pw
    by (auto simp: validate_one_password_def answers_def)
  show "ok \<longleftrightarrow> one_time_password_right e lr s \<or> permanent_password_right e lr s"
    "one_time_password_right e lr s \<Longrightarrow>
       s' = on_store (update_or_insert_session (le_instant e) (session_key_of lr)
              (Some (lw_temporary_password (lg_world s))) (Some False)) s"
    "\<not> one_time_password_right e lr s \<Longrightarrow> s' = s"
    using assms
    by (auto simp: validate_password_def one_time_password_right_def permanent_password_right_def v Let_def
        split: if_splits)
qed

lemma addressed_here_facts:
  assumes "addressed_here e lr s = (here, s')"
  shows "lg_conn s' = lg_conn s" "same_judge s s'" "lw_store (lg_world s') = lw_store (lg_world s)"
proof -
  have "lg_conn s' = lg_conn s \<and> same_judge s s' \<and> lw_store (lg_world s') = lw_store (lg_world s)"
  proof (cases "is_ip_str (lr_username lr) \<or> is_domain_port_str (lr_username lr) \<or> is_lan lr")
    case True
    with assms show ?thesis by (auto simp: addressed_here_def same_judge_def Let_def)
  next
    case False
    obtain i s1 where i: "app_update (get_id (le_secrets e) (le_auto_id e)) s = (i, s1)" by fastforce
    with False assms have "s' = s1" by (auto simp: addressed_here_def Let_def)
    with app_update_facts [OF i] same_policy_get_id show ?thesis by (simp add: same_judge_def)
  qed
  then show "lg_conn s' = lg_conn s" "same_judge s s'" "lw_store (lg_world s') = lw_store (lg_world s)" by simp_all
qed

lemma accept_login_grounds:
  assumes "accept_login e err lr s = (k, s')" "\<not> cn_authorized (lg_conn s)" "cn_authorized (lg_conn s')"
  shows "cn_require_2fa (lg_conn s) = None \<or> comes_back e (cn_lr (lg_conn s)) True s \<or> cn_from_switch (lg_conn s)"
proof -
  obtain k1 s1 where g: "send_logon_response_and_keep_alive e s = (k1, s1)" by fastforce
  with assms have "cn_authorized (lg_conn s1)" by (auto simp: accept_login_def split: if_splits)
  from send_logon_grounds [OF g assms(2) this] show ?thesis by (simp add: recent_session_comes_back)
qed

lemma password_login_grounds:
  assumes "password_login e err lr s = (k, s')" "\<not> cn_authorized (lg_conn s)" "cn_authorized (lg_conn s')"
    "cn_lr (lg_conn s) = lr"
  shows "snd (login_check e 0 s) = None"
    "one_time_password_right e lr s \<or> permanent_password_right e lr s"
    "cn_require_2fa (lg_conn s) = None \<or> cn_from_switch (lg_conn s)
     \<or> (if one_time_password_right e lr s
        then fst (is_recent_session (le_sha256 e) (le_instant e) (cn_hash (lg_conn s)) (lr_username lr) (lr_password lr)
               (session_key_of lr) True (update_or_insert_session (le_instant e) (session_key_of lr)
                 (Some (lw_temporary_password (lg_world s))) (Some False) (lw_store (lg_world s))))
        else comes_back e lr True s)"
proof -
  obtain failure r where c: "login_check e 0 s = (failure, r)" by fastforce
  with assms show none: "snd (login_check e 0 s) = None"
    by (auto simp: password_login_def split: option.splits)
  obtain ok s1 where v: "validate_password e s = (ok, s1)" by fastforce
  note f = validate_password_facts [OF v] and w = validate_password_right [OF v assms(4)]
  from assms(1-3) c v none f have ok: "ok" "accept_login e err lr (login_count 0 failure True s1) = (k, s')"
    by (auto simp: password_login_def Let_def split: if_splits)
  then show "one_time_password_right e lr s \<or> permanent_password_right e lr s" using w by simp
  have st: "lw_store (lg_world (login_count 0 failure True s1)) = lw_store (lg_world s1)"
    by (simp add: login_count_def Let_def)
  have "cn_require_2fa (lg_conn s) = None \<or> comes_back e lr True (login_count 0 failure True s1) \<or> cn_from_switch (lg_conn s)"
    using accept_login_grounds [OF ok(2)] assms(2-4) f by simp
  then show "cn_require_2fa (lg_conn s) = None \<or> cn_from_switch (lg_conn s)
     \<or> (if one_time_password_right e lr s
        then fst (is_recent_session (le_sha256 e) (le_instant e) (cn_hash (lg_conn s)) (lr_username lr) (lr_password lr)
               (session_key_of lr) True (update_or_insert_session (le_instant e) (session_key_of lr)
                 (Some (lw_temporary_password (lg_world s))) (Some False) (lw_store (lg_world s))))
        else comes_back e lr True s)"
    using w f by (auto simp: comes_back_def st)
qed

lemma login_decision_grounds:
  assumes "login_decision e err lr s = (k, s')" "\<not> cn_authorized (lg_conn s)" "cn_authorized (lg_conn s')"
    "cn_lr (lg_conn s) = lr" "\<not> comes_back e lr False s"
  shows "\<not> click_only e s \<and> (\<exists>s1 k1. password_login e err lr s1 = (k1, s') \<and> same_judge s s1 \<and> lg_conn s1 = lg_conn s
    \<and> lw_store (lg_world s1) = retain_fresh (le_instant e) (lw_store (lg_world s)))"
proof -
  obtain here s1 where h: "addressed_here e lr s = (here, s1)" by fastforce
  obtain r s2 where r: "recent_session e False s1 = (r, s2)" by fastforce
  note hf = addressed_here_facts [OF h] and rf = recent_session_facts [OF r]
  have "r = comes_back e lr False s1" using recent_session_comes_back [of e False s1] r hf assms(4) by simp
  then have nr: "\<not> r" using assms(5) hf by (simp add: comes_back_def)
  have j: "same_judge s s2"
    using hf rf by (auto intro: same_judge_trans [OF hf(2)] simp: same_judge_def)
  have st: "lw_store (lg_world s2) = retain_fresh (le_instant e) (lw_store (lg_world s))"
    using r hf by (auto simp: recent_session_def is_recent_session_def Let_def split: prod.splits option.splits if_splits)
  have c: "lg_conn s2 = lg_conn s" using hf rf by simp
  have "here" "\<not> click_only e s2" "password_login e err lr s2 = (k, s')"
    using assms(1-3) h r nr c
    by (auto simp: login_decision_def refuse_def Let_def hf split: if_splits)
  then show ?thesis using j st c same_judgeD [OF j] by blast
qed

lemma fresh_get: "hm_wf m \<Longrightarrow> hm_get (hm_retain p m) k = Some v \<Longrightarrow> hm_get m k = Some v"
  by (auto simp: hm_get_retain split: option.splits if_splits)

lemma one_time_not_tfa:
  assumes "hm_wf (st_sessions st)"
    "hm_get (hm_retain p (st_sessions (update_or_insert_session now key pw (Some False) st))) key = Some x"
  shows "\<not> s_tfa x"
proof -
  have "hm_wf (st_sessions (update_or_insert_session now key pw (Some False) st))"
    using assms(1) by (simp add: update_or_insert_session_def new_cell_def Let_def split: option.split)
  from fresh_get [OF this assms(2)] show ?thesis
    by (auto simp: update_or_insert_session_def new_cell_def Let_def split: option.splits)
qed

text \<open>
  C21: A peer that is not of the local network and does not come back gets authorised by a request only if
  its address is not locked out, its target is permitted, the user does not have to click, and its
  answer fits the one-time password or the permanent password, whichever is enabled; and, where a second
  factor is required, only from a trusted device, after switching sides, or with the permanent password
  for a session that has shown the second factor.
\<close>

theorem password_logon:
  assumes "on_login_request e lr s = (keep, s')" "\<not> cn_authorized (lg_conn s)" "cn_authorized (lg_conn s')"
    and "\<not> is_lan lr" "\<not> comes_back e lr False s" "hm_wf (st_sessions (lw_store (lg_world s)))"
  shows "snd (login_check e 0 s) = None
    \<and> target_permitted e lr (lw_app (lg_world s)) (cn_control_permissions (lg_conn s))
    \<and> \<not> click_only e s
    \<and> (one_time_password_right e lr s \<or> permanent_password_right e lr s)
    \<and> (second_factor_waived e lr s
       \<or> \<not> one_time_password_right e lr s
         \<and> (\<exists>x. hm_get (st_sessions (lw_store (lg_world s))) (session_key_of lr) = Some x \<and> s_tfa x))"
proof -
  define s0 where "s0 = handle_login_request_without_validation e lr s"
  note f0 = without_validation_facts [OF s0_def]
  obtain ok s1 where t: "login_target e lr s0 = (ok, s1)" by fastforce
  note f1 = login_target_facts [OF t]
  define s2 where "s2 = (if is_mobile (le_os e) then s1 else try_start_cm_ipc s1)"
  define err where "err = (if le_os e = Linux then le_try_desktop e (lr_os_login lr) else '''')"
  have p2: "same_peer (lg_conn s0) (lg_conn s2)" "lg_world s2 = lg_world s0"
    using f1 try_start_cm_ipc_facts [of s1] by (auto simp: s2_def same_peer_def)
  then have c2: "cn_authorized (lg_conn s2) = cn_authorized (lg_conn s)" "cn_lr (lg_conn s2) = lr"
      "cn_hash (lg_conn s2) = cn_hash (lg_conn s)" "cn_require_2fa (lg_conn s2) = cn_require_2fa (lg_conn s0)"
      "cn_from_switch (lg_conn s2) = cn_from_switch (lg_conn s)" "cn_ip (lg_conn s2) = cn_ip (lg_conn s)"
    using f0 by (simp_all add: same_peer_def)
  have ok: "ok" and d: "login_decision e err lr s2 = (keep, s')"
    using assms(1-3) t f0(2) c2(1) f1
    by (auto simp: on_login_request_def Let_def s0_def [symmetric] s2_def err_def same_peer_def split: if_splits)
  have "target_permitted e lr (lw_app (lg_world s0)) (cn_control_permissions (lg_conn s0))"
    using login_target_permitted t ok by simp
  then have permitted: "target_permitted e lr (lw_app (lg_world s)) (cn_control_permissions (lg_conn s))"
    by (simp add: target_permitted_def same_policyD [OF f0(11)] f0 split: option.splits login_union.splits)
  have j: "same_judge s s2" using c2 p2 f0 by (simp add: same_judge_def)
  have st: "lw_store (lg_world s2) = lw_store (lg_world s)" using p2 f0 by simp
  have "\<not> comes_back e lr False s2" using assms(5) c2 st by (simp add: comes_back_def)
  from login_decision_grounds [OF d _ assms(3) c2(2) this] c2(1) assms(2) same_judgeD [OF j]
  obtain s3 k3 where s3: "\<not> click_only e s" "password_login e err lr s3 = (k3, s')" "same_judge s2 s3"
      "lg_conn s3 = lg_conn s2" "lw_store (lg_world s3) = retain_fresh (le_instant e) (lw_store (lg_world s))"
    using st by auto
  have j3: "same_judge s s3" using j s3(3) by (rule same_judge_trans)
  have "\<not> cn_authorized (lg_conn s3)" "cn_lr (lg_conn s3) = lr" using s3(4) c2 assms(2) by simp_all
  note g = password_login_grounds [OF s3(2) this(1) assms(3) this(2)] and jd = same_judgeD [OF j3]
  have waived: "cn_require_2fa (lg_conn s3) = None \<or> cn_from_switch (lg_conn s3) \<Longrightarrow> second_factor_waived e lr s"
    using s3(4) c2(4,5) f0(12) by (auto simp: second_factor_waived_def)
  have wf: "hm_wf (st_sessions (lw_store (lg_world s3)))"
    using assms(6) by (simp add: s3(5) retain_fresh_def)
  have lan: "\<not> starts_with (lr_username lr) ''direct-tcp:''" using assms(4) by (simp add: is_lan_def)
  have "second_factor_waived e lr s \<or> \<not> one_time_password_right e lr s
      \<and> (\<exists>x. hm_get (st_sessions (lw_store (lg_world s))) (session_key_of lr) = Some x \<and> s_tfa x)"
  proof (cases "one_time_password_right e lr s3")
    case True
    then show ?thesis using g(3) waived lan one_time_not_tfa [OF wf]
      by (auto simp: is_recent_session_def Let_def retain_fresh_def split: option.splits)
  next
    case False
    then have "second_factor_waived e lr s \<or> comes_back e lr True s3" using g(3) waived by auto
    then show ?thesis
    proof
      assume "comes_back e lr True s3"
      then obtain x where "hm_get (st_sessions (retain_fresh (le_instant e) (lw_store (lg_world s3)))) (session_key_of lr) = Some x" "s_tfa x"
        using lan by (auto simp: comes_back_def is_recent_session_def Let_def split: option.splits)
      then have "hm_get (st_sessions (lw_store (lg_world s))) (session_key_of lr) = Some x"
        by (auto simp: retain_fresh_def s3(5) dest!: fresh_get [OF hm_wf_retain [OF assms(6)]] fresh_get [OF assms(6)])
      with False jd \<open>s_tfa x\<close> show ?thesis by auto
    qed blast
  qed
  with g(1,2) jd permitted s3(1) show ?thesis by auto
qed

section \<open>Grounds that are missing\<close>

text \<open>A fresh session of the peer id a request of the local network names.\<close>

definition lan_session :: "instant \<Rightarrow> string \<Rightarrow> session_store \<Rightarrow> bool" where
  "lan_session now peer st \<longleftrightarrow> (\<exists>(k, x) \<in> set (st_sessions st). sk_peer_id k = peer \<and> is_fresh now st x)"

lemma lan_session_retain [simp]: "lan_session now peer (retain_fresh now st) \<longleftrightarrow> lan_session now peer st"
  by (auto simp: lan_session_def retain_fresh_def hm_retain_def is_fresh_def)

lemma lan_recent:
  assumes "starts_with u ''direct-tcp:''"
  shows "is_recent_session sha now h u a key tfa st = (lan_session now (sk_peer_id key) st, retain_fresh now st)"
proof -
  have "list_ex (\<lambda>(k, s). sk_peer_id k = sk_peer_id key \<and> is_fresh now (retain_fresh now st) s)
      (st_sessions (retain_fresh now st)) \<longleftrightarrow> lan_session now (sk_peer_id key) (retain_fresh now st)"
    by (auto simp: lan_session_def list_ex_iff)
  with assms show ?thesis by (simp add: is_recent_session_def Let_def)
qed

lemma recent_session_lan:
  assumes "is_lan (cn_lr (lg_conn s))"
  shows "recent_session e tfa s
    = (lan_session (le_instant e) (lr_my_id (cn_lr (lg_conn s))) (lw_store (lg_world s)),
       on_store (retain_fresh (le_instant e)) s)"
  using assms by (simp add: recent_session_def is_lan_def lan_recent session_key_of_def Let_def)

definition keeps_auth :: "login_state \<Rightarrow> login_state \<Rightarrow> bool" where
  "keeps_auth s s' \<longleftrightarrow> cn_authorized (lg_conn s') = cn_authorized (lg_conn s)
     \<and> cn_authed_conn (lg_conn s') = cn_authed_conn (lg_conn s) \<and> cn_id (lg_conn s') = cn_id (lg_conn s)
     \<and> lg_world s' = lg_world s"

lemma keeps_auth_refl [simp]: "keeps_auth s s"
  by (simp add: keeps_auth_def)

lemma keeps_auth_trans: "keeps_auth s s' \<Longrightarrow> keeps_auth s' s'' \<Longrightarrow> keeps_auth s s''"
  by (simp add: keeps_auth_def)

lemma keeps_auth_emit [simp]: "keeps_auth s (emit os s') = keeps_auth s s'"
  by (simp add: keeps_auth_def)

lemma keeps_auth_fields [simp]:
  "keeps_auth s (on_conn (\<lambda>c. c\<lparr>cn_options_in_login := a\<rparr>) s') = keeps_auth s s'"
  "keeps_auth s (on_conn (\<lambda>c. c\<lparr>cn_keyboard := b\<rparr>) s') = keeps_auth s s'"
  "keeps_auth s (on_conn (\<lambda>c. c\<lparr>cn_services_subed := b\<rparr>) s') = keeps_auth s s'"
  by (simp_all add: keeps_auth_def)

lemma post_logon_keeps: "keeps_auth s (finish_post_logon_actions e sub w s)"
proof -
  define s1 where "s1 = (case cn_options_in_login (lg_conn s) of
      Some o' \<Rightarrow> emit [UpdateOptions o'] (on_conn (\<lambda>c. c\<lparr>cn_options_in_login := None\<rparr>) s) | None \<Rightarrow> s)"
  have s1: "keeps_auth s s1" by (cases "cn_options_in_login (lg_conn s)") (simp_all add: s1_def)
  have "keeps_auth s1 (try_sub_monitor_services s1)" by (simp add: try_sub_monitor_services_def)
  with s1 have sub: "keeps_auth s (try_sub_monitor_services s1)" by (rule keeps_auth_trans)
  show ?thesis
  proof (cases "cn_file_transfer (lg_conn s1)")
    case None
    then show ?thesis
      using s1 sub by (simp add: finish_post_logon_actions_def s1_def [symmetric]) (simp add: keeps_auth_def)
  next
    case (Some d)
    obtain dir hid where "d = (dir, hid)" by fastforce
    with Some s1 show ?thesis by (simp add: finish_post_logon_actions_def s1_def [symmetric] Let_def)
  qed
qed

lemma finish_logon_keeps: "keeps_auth s (finish_logon e s)"
proof -
  have p: "keeps_auth s (finish_post_logon_actions e sub w (emit os s))" for sub w os
    using post_logon_keeps [of "emit os s" e sub w] by (simp add: keeps_auth_def)
  show ?thesis
    unfolding finish_logon_def Let_def
    by (cases "le_displays e") (simp_all add: p)
qed

lemma send_logon_accepts:
  assumes "cn_require_2fa (lg_conn s) = None \<or> fst (recent_session e True s) \<or> cn_from_switch (lg_conn s)"
    "\<not> cn_authorized (lg_conn s)" "lr_union (cn_lr (lg_conn s)) = None"
  shows "\<exists>s'. send_logon_response_and_keep_alive e s = (True, s') \<and> cn_authorized (lg_conn s')
    \<and> cn_authed_conn (lg_conn s') = Some (get_auth_conn_type (lg_conn s))"
proof -
  obtain r s1 where rs: "(if cn_require_2fa (lg_conn s) \<noteq> None then recent_session e True s else (True, s)) = (r, s1)"
    by (cases "if cn_require_2fa (lg_conn s) \<noteq> None then recent_session e True s else (True, s)")
  then have c: "lg_conn s1 = lg_conn s" using recent_session_facts(1) by (auto split: if_splits)
  have ok: "r \<or> cn_from_switch (lg_conn s)" using assms(1) rs by (auto split: if_splits)
  have conn: "connect_port_forward_if_needed e s1 = (True, s1)"
    using assms(3) c by (simp add: connect_port_forward_if_needed_def)
  have "send_logon_response_and_keep_alive e s = (True, finish_logon e (authorize_connection e s1))"
  proof (cases "cn_require_2fa (lg_conn s)")
    case None
    with rs have "r = True" "s1 = s" by simp_all
    with None assms(2) conn show ?thesis by (simp add: send_logon_response_and_keep_alive_def)
  next
    case (Some t)
    with rs have "recent_session e True s = (r, s1)" by simp
    with Some assms(2) conn ok c show ?thesis
      by (elim disjE) (simp_all add: send_logon_response_and_keep_alive_def)
  qed
  moreover have "get_auth_conn_type (c\<lparr>cn_authorized := True\<rparr>) = get_auth_conn_type c" for c
    by (simp add: get_auth_conn_type_def)
  then have "cn_authorized (lg_conn (authorize_connection e s1))"
    "cn_authed_conn (lg_conn (authorize_connection e s1)) = Some (get_auth_conn_type (lg_conn s))"
    using c by (simp_all add: authorize_connection_def Let_def)
  ultimately show ?thesis using finish_logon_keeps [of "authorize_connection e s1" e] by (simp add: keeps_auth_def)
qed

lemma login_target_none:
  assumes "lr_union lr = None" "\<not> le_privacy_on e"
  shows "login_target e lr s = (True, s)"
  using assms by (simp add: login_target_def)

definition ready :: "login_env \<Rightarrow> login_request \<Rightarrow> login_state \<Rightarrow> bool" where
  "ready e lr s \<longleftrightarrow> \<not> cn_authorized (lg_conn s) \<and> lr_union lr = None \<and> \<not> le_privacy_on e
     \<and> (le_os e = Linux \<longrightarrow> le_try_desktop e (lr_os_login lr) = '''')"

text \<open>A request of the local network for the desktop goes straight to the decision.\<close>

definition after_address :: "login_env \<Rightarrow> login_request \<Rightarrow> handler" where
  "after_address e lr s =
     (let (recent, s) = recent_session e False s in
      if \<not> recent \<and> click_only e s then
        (let s = try_start_cm (lr_my_id lr) (lr_my_name lr) False s
         in (True, if at_least (get_version_number (lr_version lr)) ''1.2.0''
                   then send_login_error LOGIN_MSG_NO_PASSWORD_ACCESS s else s))
      else if recent then accept_login e '''' lr s
      else if lr_password lr = [] then (True, try_start_cm (lr_my_id lr) (lr_my_name lr) False s)
      else password_login e '''' lr s)"

definition prepared :: "login_env \<Rightarrow> login_request \<Rightarrow> login_state \<Rightarrow> login_state" where
  "prepared e lr s =
     (let s = handle_login_request_without_validation e lr s in if is_mobile (le_os e) then s else try_start_cm_ipc s)"

lemma prepared_facts:
  "same_judge s (prepared e lr s)" "cn_lr (lg_conn (prepared e lr s)) = lr"
  "lw_store (lg_world (prepared e lr s)) = lw_store (lg_world s)"
  "get_auth_conn_type (lg_conn (prepared e lr s)) = get_auth_conn_type (lg_conn s)"
  "cn_require_2fa (lg_conn s) = None \<Longrightarrow> cn_require_2fa (lg_conn (prepared e lr s)) = None
     \<and> lw_app (lg_world (prepared e lr s)) = lw_app (lg_world s)"
proof -
  define s0 where "s0 = handle_login_request_without_validation e lr s"
  note f0 = without_validation_facts [OF s0_def]
  define s1 where "s1 = prepared e lr s"
  have t0: "get_auth_conn_type (lg_conn s0) = get_auth_conn_type (lg_conn s)"
    by (auto simp: s0_def handle_login_request_without_validation_def get_auth_conn_type_def Let_def app_update_def
        split: option.split prod.split)
  have f1: "same_peer (lg_conn s0) (lg_conn s1)" "lg_world s1 = lg_world s0"
    "get_auth_conn_type (lg_conn s1) = get_auth_conn_type (lg_conn s0)"
    by (simp_all add: s1_def prepared_def s0_def [symmetric] get_auth_conn_type_def try_start_cm_ipc_def
        same_peer_def Let_def)
  show "same_judge s (prepared e lr s)" "cn_lr (lg_conn (prepared e lr s)) = lr"
    "lw_store (lg_world (prepared e lr s)) = lw_store (lg_world s)"
    "get_auth_conn_type (lg_conn (prepared e lr s)) = get_auth_conn_type (lg_conn s)"
    using f0 f1 t0 by (simp_all add: same_judge_def same_peer_def s1_def [symmetric])
  assume "cn_require_2fa (lg_conn s) = None"
  moreover from this have "lw_app (lg_world s0) = lw_app (lg_world s)"
    by (simp add: s0_def handle_login_request_without_validation_def Let_def split: option.split)
  ultimately show "cn_require_2fa (lg_conn (prepared e lr s)) = None
     \<and> lw_app (lg_world (prepared e lr s)) = lw_app (lg_world s)"
    using f0(12) f1 by (simp add: s1_def [symmetric] same_peer_def)
qed

lemma request_decided:
  assumes "ready e lr s" "addressed_here e lr (prepared e lr s) = (True, prepared e lr s)"
  shows "on_login_request e lr s = after_address e lr (prepared e lr s)"
proof -
  define s0 where "s0 = handle_login_request_without_validation e lr s"
  note f0 = without_validation_facts [OF s0_def]
  have "login_target e lr s0 = (True, s0)" using assms(1) by (simp add: login_target_none ready_def)
  then have "on_login_request e lr s = login_decision e '''' lr (prepared e lr s)"
    using assms(1) f0(2)
    by (auto simp: on_login_request_def ready_def s0_def [symmetric] prepared_def Let_def)
  also have "\<dots> = after_address e lr (prepared e lr s)"
    unfolding login_decision_def after_address_def assms(2) Let_def prod.case
    by (simp only: not_True_eq_False if_False if_True refl simp_thms)
  finally show ?thesis .
qed

lemma lan_request_decided:
  assumes "ready e lr s" "is_lan lr"
  shows "\<exists>s2. on_login_request e lr s = after_address e lr s2
    \<and> same_judge s s2 \<and> cn_lr (lg_conn s2) = lr \<and> lw_store (lg_world s2) = lw_store (lg_world s)
    \<and> get_auth_conn_type (lg_conn s2) = get_auth_conn_type (lg_conn s)"
proof -
  have "addressed_here e lr (prepared e lr s) = (True, prepared e lr s)"
    using assms(2) by (simp add: addressed_here_def Let_def)
  then show ?thesis using request_decided [OF assms(1)] prepared_facts(1-4) by blast
qed

lemma accept_lan:
  assumes "is_lan (cn_lr (lg_conn s))" "lan_session (le_instant e) (lr_my_id (cn_lr (lg_conn s))) (lw_store (lg_world s))"
    "\<not> cn_authorized (lg_conn s)" "lr_union (cn_lr (lg_conn s)) = None"
  shows "cn_authorized (lg_conn (snd (accept_login e '''' lr s)))
    \<and> cn_authed_conn (lg_conn (snd (accept_login e '''' lr s))) = Some (get_auth_conn_type (lg_conn s))"
proof -
  have "fst (recent_session e True s)" using assms(1,2) by (simp add: recent_session_lan)
  then obtain s' where "send_logon_response_and_keep_alive e s = (True, s')" "cn_authorized (lg_conn s')"
      "cn_authed_conn (lg_conn s') = Some (get_auth_conn_type (lg_conn s))"
    using send_logon_accepts [of s e] assms(3,4) by blast
  then show ?thesis by (simp add: accept_login_def)
qed

text \<open>
  C22: A peer that puts \<open>direct-tcp:\<close> in front of its user name and names the id of any peer heard from in
  the last thirty seconds is authorised at once: without a password, without the second factor, whether or
  not passwords are accepted at all, and however often its address has failed. Both the prefix and the id
  are the peer's own words.
\<close>

theorem lan_peer_needs_no_secret:
  assumes "ready e lr s" "is_lan lr" "lan_session (le_instant e) (lr_my_id lr) (lw_store (lg_world s))"
  shows "cn_authorized (lg_conn (snd (on_login_request e lr s)))
    \<and> cn_authed_conn (lg_conn (snd (on_login_request e lr s))) = Some (get_auth_conn_type (lg_conn s))"
proof -
  obtain s2 where s2: "on_login_request e lr s = after_address e lr s2" "same_judge s s2" "cn_lr (lg_conn s2) = lr"
      "lw_store (lg_world s2) = lw_store (lg_world s)" "get_auth_conn_type (lg_conn s2) = get_auth_conn_type (lg_conn s)"
    using lan_request_decided [OF assms(1,2)] by blast
  let ?s3 = "on_store (retain_fresh (le_instant e)) s2"
  have "after_address e lr s2 = accept_login e '''' lr ?s3"
    using assms(2,3) s2 by (simp add: after_address_def recent_session_lan)
  moreover have "\<not> cn_authorized (lg_conn ?s3)" "lr_union (cn_lr (lg_conn ?s3)) = None"
    using assms(1) s2(2,3) by (simp_all add: ready_def same_judge_def)
  ultimately show ?thesis using accept_lan [of ?s3 e lr] assms(2,3) s2 by simp
qed

text \<open>
  C23: Where a second factor is set up, it is all a peer needs: a connection that has sent nothing before gets
  authorised for the desktop by the right code alone, without any password and whether or not passwords are
  accepted at all. All that is asked of its address is that the count of wrong codes still lets it try
  (\<open>check_failure(1)\<close>).
\<close>

theorem second_factor_alone:
  assumes "lg_conn s = (conn_start e i cp h w)\<lparr>cn_ip := ip\<rparr>" "cn_require_2fa (lg_conn s) = Some totp"
    and "le_totp_check e totp code = Inr True" "snd (login_check e 1 s) = None"
  shows "cn_authorized (lg_conn (snd (on_auth2fa e code hwid s)))
    \<and> cn_authed_conn (lg_conn (snd (on_auth2fa e code hwid s))) = Some Remote"
proof -
  obtain failure where c: "login_check e 1 s = (failure, None)"
    using assms(4) by (cases "login_check e 1 s") auto
  define s1 where "s1 = on_store (set_session_2fa (le_instant e) (session_key_of (cn_lr (lg_conn s))))
    (on_conn (\<lambda>c. c\<lparr>cn_require_2fa := None\<rparr>) (login_count 1 failure True s))"
  have l: "lg_conn s1 = (lg_conn s)\<lparr>cn_require_2fa := None\<rparr>" by (simp add: s1_def)
  have "get_auth_conn_type (lg_conn s1) = Remote" "\<not> cn_authorized (lg_conn s1)" "lr_union (cn_lr (lg_conn s1)) = None"
    unfolding l assms(1) by (simp_all add: conn_start_def get_auth_conn_type_def lr_default_def Let_def)
  moreover have "cn_require_2fa (lg_conn s1) = None" by (simp add: l)
  ultimately obtain s' where s': "send_logon_response_and_keep_alive e s1 = (True, s')" "cn_authorized (lg_conn s')"
      "cn_authed_conn (lg_conn s') = Some Remote"
    using send_logon_accepts [of s1 e] by metis
  have lr: "cn_lr (lg_conn (on_conn (\<lambda>c. c\<lparr>cn_require_2fa := None\<rparr>) (login_count 1 failure True s))) = cn_lr (lg_conn s)"
    by simp
  have "lg_conn (snd (on_auth2fa e code hwid s)) = lg_conn s'"
    using c assms(2,3) s'(1)
    by (simp add: on_auth2fa_def Let_def s1_def app_update_def split: prod.split)
  with s' show ?thesis by simp
qed

lemma insert_makes_lan_session:
  assumes "\<not> lan_session now (sk_peer_id key) st"
  shows "lan_session now (sk_peer_id key) (update_or_insert_session now key pw tfa (retain_fresh now st))"
proof -
  have "hm_get (st_sessions (retain_fresh now st)) key = None"
  proof (rule ccontr)
    assume "hm_get (st_sessions (retain_fresh now st)) key \<noteq> None"
    then obtain x where "(key, x) \<in> set (st_sessions (retain_fresh now st))" by (auto dest: hm_get_in_set)
    with assms show False by (auto simp: lan_session_def retain_fresh_def hm_retain_def)
  qed
  then obtain x where x: "hm_get (st_sessions (update_or_insert_session now key pw tfa (retain_fresh now st))) key = Some x"
      "is_fresh now (update_or_insert_session now key pw tfa (retain_fresh now st)) x"
    by (simp add: update_or_insert_session_def new_cell_def is_fresh_def SESSION_TIMEOUT_def Let_def)
  then show ?thesis by (auto simp: lan_session_def dest!: hm_get_in_set)
qed

text \<open>
  With \<open>direct-tcp:\<close> in front of the user name the one-time password is enough, although a second factor
  is set up and the device is not trusted: checking the password makes the session by which the peer then
  counts as one that has come back.
\<close>

theorem lan_password_skips_second_factor:
  assumes "ready e lr s" "is_lan lr" "one_time_password_right e lr s" "lr_password lr \<noteq> []" "\<not> click_only e s"
    "snd (login_check e 0 s) = None"
  shows "cn_authorized (lg_conn (snd (on_login_request e lr s)))"
proof -
  obtain s2 where s2: "on_login_request e lr s = after_address e lr s2" "same_judge s s2" "cn_lr (lg_conn s2) = lr"
      "lw_store (lg_world s2) = lw_store (lg_world s)"
    using lan_request_decided [OF assms(1,2)] by blast
  let ?now = "le_instant e" and ?id = "lr_my_id lr"
  let ?s3 = "on_store (retain_fresh ?now) s2"
  have a3: "\<not> cn_authorized (lg_conn ?s3)" "lr_union (cn_lr (lg_conn ?s3)) = None"
    using assms(1) s2(2,3) by (simp_all add: ready_def same_judge_def)
  show ?thesis
  proof (cases "lan_session ?now ?id (lw_store (lg_world s))")
    case True
    then have "after_address e lr s2 = accept_login e '''' lr ?s3"
      using assms(2) s2 by (simp add: after_address_def recent_session_lan)
    with accept_lan [of ?s3 e lr] assms(2) True s2 a3 show ?thesis by simp
  next
    case False
    have j3: "same_judge s ?s3" using s2(2) by (simp add: same_judge_def)
    note jd = same_judgeD [OF j3]
    have "after_address e lr s2 = password_login e '''' lr ?s3"
      using assms(2,4,5) s2 False jd(4) by (simp add: after_address_def recent_session_lan)
    moreover obtain failure where "login_check e 0 ?s3 = (failure, None)"
      using assms(6) jd(5) by (cases "login_check e 0 s") auto
    moreover obtain ok s4 where v: "validate_password e ?s3 = (ok, s4)" by fastforce
    moreover have ok: "ok" "s4 = on_store (update_or_insert_session ?now (session_key_of lr)
          (Some (lw_temporary_password (lg_world ?s3))) (Some False)) ?s3"
      using validate_password_right [OF v] s2(3) assms(3) jd(2) by auto
    moreover define s5 where "s5 = login_count 0 failure True s4"
    ultimately have "after_address e lr s2 = accept_login e '''' lr s5"
      by (simp add: password_login_def)
    moreover have "cn_lr (lg_conn s5) = lr" "\<not> cn_authorized (lg_conn s5)"
        "lw_store (lg_world s5) = lw_store (lg_world s4)"
      using ok(2) s2(3) a3 by (simp_all add: s5_def) (simp add: login_count_def Let_def)
    moreover have "lan_session ?now ?id (lw_store (lg_world s4))"
      using insert_makes_lan_session [of ?now "session_key_of lr" "lw_store (lg_world s)"] False s2(4) ok(2)
      by (simp add: session_key_of_def)
    ultimately show ?thesis using accept_lan [of s5 e lr] assms(1,2) s2(1) by (simp add: ready_def)
  qed
qed

text \<open>
  Nothing else is asked of a peer without a second factor: what the password needs to be let in.
\<close>

definition for_this_machine :: "login_request \<Rightarrow> login_state \<Rightarrow> bool" where
  "for_this_machine lr s \<longleftrightarrow>
     is_ip_str (lr_username lr) \<or> is_domain_port_str (lr_username lr) \<or> is_lan lr
     \<or> c_id (g_config (lw_app (lg_world s))) \<noteq> ''''
       \<and> normalized_username (lr_username lr) = remove_spaces (c_id (g_config (lw_app (lg_world s))))"

lemma for_this_machine_addressed: "for_this_machine lr s \<Longrightarrow> addressed_here e lr s = (True, s)"
  by (auto simp: for_this_machine_def addressed_here_def app_update_def get_id_def Let_def)

lemma accept_single_factor:
  assumes "cn_require_2fa (lg_conn s) = None" "\<not> cn_authorized (lg_conn s)" "lr_union (cn_lr (lg_conn s)) = None"
  shows "cn_authorized (lg_conn (snd (accept_login e '''' lr s)))
    \<and> cn_authed_conn (lg_conn (snd (accept_login e '''' lr s))) = Some (get_auth_conn_type (lg_conn s))"
proof -
  obtain s' where "send_logon_response_and_keep_alive e s = (True, s')" "cn_authorized (lg_conn s')"
      "cn_authed_conn (lg_conn s') = Some (get_auth_conn_type (lg_conn s))"
    using send_logon_accepts [of s e] assms by blast
  then show ?thesis by (simp add: accept_login_def)
qed

lemma right_password_accepted:
  assumes "ready e lr s" "for_this_machine lr s" "cn_require_2fa (lg_conn s) = None"
    "one_time_password_right e lr s \<or> permanent_password_right e lr s" "lr_password lr \<noteq> []"
    "\<not> click_only e s" "snd (login_check e 0 s) = None"
  shows "cn_authorized (lg_conn (snd (on_login_request e lr s)))
    \<and> cn_authed_conn (lg_conn (snd (on_login_request e lr s))) = Some (get_auth_conn_type (lg_conn s))"
proof -
  define s2 where "s2 = prepared e lr s"
  note f2 = prepared_facts [where s = s and e = e and lr = lr, folded s2_def]
  have app: "cn_require_2fa (lg_conn s2) = None" "lw_app (lg_world s2) = lw_app (lg_world s)"
    using f2(5) assms(3) by simp_all
  have "for_this_machine lr s2" using assms(2) app(2) by (simp add: for_this_machine_def)
  then have "on_login_request e lr s = after_address e lr s2"
    using request_decided [OF assms(1)] by (simp add: for_this_machine_addressed s2_def)
  moreover obtain r s3 where r: "recent_session e False s2 = (r, s3)" by fastforce
  note f3 = recent_session_facts [OF r]
  have c3: "lg_conn s3 = lg_conn s2" "same_judge s s3"
    using f2(1) f3 by (simp_all add: same_judge_def)
  note jd = same_judgeD [OF c3(2)]
  have a3: "\<not> cn_authorized (lg_conn s2)" "lr_union (cn_lr (lg_conn s2)) = None"
    using assms(1) f2(1,2) by (simp_all add: ready_def same_judge_def)
  obtain failure where ch: "login_check e 0 s3 = (failure, None)"
    using assms(7) jd(5) by (cases "login_check e 0 s") auto
  obtain ok s4 where v: "validate_password e s3 = (ok, s4)" by fastforce
  have ok: "ok" using validate_password_right(1) [OF v] c3(1) f2(2) assms(4) jd(2,3) by simp
  define s5 where "s5 = login_count 0 failure True s4"
  have "lg_conn s5 = lg_conn s2" using validate_password_facts [OF v] c3(1) by (simp add: s5_def)
  moreover have "after_address e lr s2 = accept_login e '''' lr (if r then s3 else s5)"
    using r ch v ok assms(5,6) jd(4) by (simp add: after_address_def password_login_def s5_def)
  ultimately show ?thesis
    using accept_single_factor [of s3 e lr] accept_single_factor [of s5 e lr] app(1) a3 c3(1) f2(4) by simp
qed

text \<open>
  A peer that asks for the desktop of this machine and answers with the right password is authorised, as a
  connection of the kind it asks for, when no second factor is set up, passwords are accepted and its address
  is not held back: no other answer of the machine can come between.
\<close>

theorem right_password_admits:
  assumes "ready e lr s" "for_this_machine lr s" "cn_require_2fa (lg_conn s) = None"
    "one_time_password_right e lr s \<or> permanent_password_right e lr s" "lr_password lr \<noteq> []"
    "\<not> click_only e s" "snd (login_check e 0 s) = None"
  shows "cn_authorized (lg_conn (snd (on_login_request e lr s)))
    \<and> cn_authed_conn (lg_conn (snd (on_login_request e lr s))) = Some (get_auth_conn_type (lg_conn s))"
  using right_password_accepted [OF assms] .

section \<open>Examples\<close>

text \<open>A Mac that asks for a second factor, with the one-time password \<open>k7\<close>, and a peer at 10.0.0.7.\<close>

definition sample_env :: login_env where
  "sample_env = \<lparr>le_os = MacOS, le_flutter = False, le_sha256 = (\<lambda>bs. bs), le_secrets = demo_env 0,
     le_json = demo_json, le_now = 0, le_instant = 5, le_totp_check = (\<lambda>_ code. Inr (code = ''123456'')),
     le_connect = (\<lambda>_. True), le_cidr = (\<lambda>_ _. False), le_auto_id = None, le_get_2fa = (\<lambda>_. Some ''totp''),
     le_main_window_missing = False, le_privacy_on = False, le_is_logon = False, le_is_installed = True,
     le_user_token = (\<lambda>_ _. Inr SelfUser), le_specified_user = (\<lambda>_. None), le_try_desktop = (\<lambda>_. ''''),
     le_linux_error = None, le_windows_sessions = False, le_displays = None, le_is_dir = (\<lambda>_. True)\<rparr>"

definition sample_world :: "(session_key \<times> login_session) list \<Rightarrow> instant list \<Rightarrow> login_world" where
  "sample_world ss cells = \<lparr>lw_failures = [[], []],
     lw_store = \<lparr>st_sessions = ss, st_cells = cells, st_authed = []\<rparr>, lw_switch = [],
     lw_app = demo_app\<lparr>g_overwrite_settings := [(''approve-mode'', ''password'')]\<rparr>,
     lw_temporary_password = ''k7''\<rparr>"

definition sample_hash :: pw_hash where
  "sample_hash = \<lparr>h_salt = ''s'', h_challenge = ''c''\<rparr>"

definition sample_state :: "login_world \<Rightarrow> login_state" where
  "sample_state w = \<lparr>lg_conn = (conn_start sample_env 7 None sample_hash w)\<lparr>cn_ip := ''10.0.0.7''\<rparr>, lg_world = w, lg_out = []\<rparr>"

definition sample_request :: "string \<Rightarrow> bytes \<Rightarrow> login_request" where
  "sample_request u pw = lr_default\<lparr>lr_username := u, lr_my_id := ''77'', lr_password := pw, lr_version := ''1.4.0''\<rparr>"

definition sample_session :: "(session_key \<times> login_session) list" where
  "sample_session = [(\<lparr>sk_peer_id = ''77'', sk_name = ''Ann'', sk_session_id = 3\<rparr>,
     \<lparr>s_last_recv_time = 0, s_random_password = '''', s_tfa = False\<rparr>)]"

lemmas sample_defs = sample_env_def sample_world_def sample_hash_def sample_state_def sample_request_def
  sample_session_def lr_default_def conn_start_def

theorem lan_peer_needs_no_secret_witness:
  "cn_authorized (lg_conn (snd (on_login_request sample_env (sample_request ''direct-tcp:10.0.0.1'' [])
     (sample_state (sample_world sample_session [1])))))"
  using lan_peer_needs_no_secret [of sample_env "sample_request ''direct-tcp:10.0.0.1'' []"
      "sample_state (sample_world sample_session [1])"]
  by (simp add: sample_defs ready_def is_lan_def starts_with_def lan_session_def is_fresh_def SESSION_TIMEOUT_def Let_def)

lemma sample_ip: "get_ipv6_prefixes ''10.0.0.7'' = None"
  by (rule no_colon_no_prefixes) simp

lemma sample_unlocked: "i < 2 \<Longrightarrow> snd (login_check sample_env i (sample_state (sample_world ss cs))) = None"
  by (auto simp: less_2_cases_iff login_check_def sample_defs check_failure_def check_address_def failure_of_def sample_ip
      word_sless_alt Let_def)

theorem second_factor_alone_witness:
  "cn_authorized (lg_conn (snd (on_auth2fa sample_env ''123456'' [] (sample_state (sample_world [] [])))))"
  using second_factor_alone [of "sample_state (sample_world [] [])" "''10.0.0.7''" sample_env 7 None sample_hash "sample_world [] []"
      "''totp''" "''123456''" "[]"] sample_unlocked [of 1 "[]" "[]"]
  by (simp add: sample_state_def) (simp add: sample_defs Let_def)


lemma sample_password:
  "one_time_password_right sample_env (sample_request u (as_bytes ''k7sc'')) (sample_state (sample_world ss cs))"
  by (simp add: one_time_password_right_def answers_def sample_defs as_bytes_def temporary_enabled_def verification_method_def
      get_option_def get_or_def unwrap_or_default_def demo_app_def config2_default_def Let_def)

lemma sample_no_click: "\<not> click_only sample_env (sample_state (sample_world ss cs))"
  by (simp add: click_only_def sample_defs approve_mode_def get_option_def get_or_def unwrap_or_default_def Let_def)

theorem lan_password_skips_second_factor_witness:
  "cn_authorized (lg_conn (snd (on_login_request sample_env
     (sample_request ''direct-tcp:10.0.0.1'' (as_bytes ''k7sc'')) (sample_state (sample_world [] [])))))"
  using lan_password_skips_second_factor [of sample_env "sample_request ''direct-tcp:10.0.0.1'' (as_bytes ''k7sc'')"
      "sample_state (sample_world [] [])"] sample_password sample_no_click sample_unlocked [of 0 "[]" "[]"]
  by (simp add: ready_def is_lan_def starts_with_def) (simp add: sample_defs Let_def)

definition single_factor :: login_state where
  "single_factor = on_conn (\<lambda>c. c\<lparr>cn_require_2fa := None\<rparr>) (sample_state (sample_world [] []))"

lemma sample_single_factor:
  "ready sample_env (sample_request u pw) single_factor" "cn_require_2fa (lg_conn single_factor) = None"
  "one_time_password_right sample_env (sample_request u (as_bytes ''k7sc'')) single_factor"
  "\<not> click_only sample_env single_factor" "snd (login_check sample_env 0 single_factor) = None"
  using sample_password [of u "[]" "[]"] sample_no_click [of "[]" "[]"] sample_unlocked [of 0 "[]" "[]"]
  by (simp_all add: single_factor_def ready_def one_time_password_right_def answers_def click_only_def
      login_check_def) (simp_all add: sample_defs)

lemma sample_for_this_machine: "for_this_machine (sample_request ''cafe.example:21118'' pw) s"
  by code_simp

theorem right_password_admits_witness:
  "cn_authorized (lg_conn (snd (on_login_request sample_env
     (sample_request ''cafe.example:21118'' (as_bytes ''k7sc'')) single_factor)))"
  using right_password_admits [of sample_env "sample_request ''cafe.example:21118'' (as_bytes ''k7sc'')" single_factor]
    sample_single_factor sample_for_this_machine
  by (simp add: sample_request_def as_bytes_def)

theorem password_logon_witness:
  "snd (login_check sample_env 0 single_factor) = None"
  using password_logon [of sample_env "sample_request ''cafe.example:21118'' (as_bytes ''k7sc'')" single_factor
      "fst (on_login_request sample_env (sample_request ''cafe.example:21118'' (as_bytes ''k7sc'')) single_factor)"
      "snd (on_login_request sample_env (sample_request ''cafe.example:21118'' (as_bytes ''k7sc'')) single_factor)"]
    right_password_accepted [OF sample_single_factor(1) sample_for_this_machine sample_single_factor(2) disjI1
      [OF sample_single_factor(3)] _ sample_single_factor(4,5)]
  by (simp add: comes_back_def is_recent_session_def)
    (simp add: single_factor_def sample_defs is_lan_def starts_with_def retain_fresh_def hm_retain_def as_bytes_def Let_def)

end
