(* ===== verification/Peer_Rights.thy ===== *)
theory Peer_Rights
  imports Login Server Connection_Files Privacy_Mode
begin

text \<open>
  What a peer may do, and what it is subscribed to (\<open>src/server/connection.rs\<close>): the permissions the user
  gives and takes, the options the peer sets, and the services the connection is subscribed to because of
  both. The connection of the log-on, the files of the connection, the registry of services and the manager
  of the privacy mode are parts of the state.
\<close>

section \<open>Messages\<close>

datatype permission_info =
  PiKeyboard | PiClipboard | PiAudio | PiFile | PiRestart | PiRecording | PiBlockInput

datatype image_quality = QualityNotSet | QualityLow | QualityBalanced | QualityBest

fun image_quality_value :: "image_quality \<Rightarrow> i32" where
  "image_quality_value QualityNotSet = 0"
| "image_quality_value QualityLow = 2"
| "image_quality_value QualityBalanced = 3"
| "image_quality_value QualityBest = 4"

text \<open>An enumeration of a message: a number outside it is \<open>None\<close> (\<open>enum_value()\<close> fails).\<close>

type_synonym 'a enum_or_unknown = "'a option"

record option_message =
  om_image_quality :: "image_quality enum_or_unknown"
  om_lock_after_session_end :: "bool_option enum_or_unknown"
  om_show_remote_cursor :: "bool_option enum_or_unknown"
  om_privacy_mode :: "bool_option enum_or_unknown"
  om_block_input :: "bool_option enum_or_unknown"
  om_custom_image_quality :: i32
  om_disable_audio :: "bool_option enum_or_unknown"
  om_disable_clipboard :: "bool_option enum_or_unknown"
  om_enable_file_transfer :: "bool_option enum_or_unknown"
  om_supported_decoding :: "nat option"
  om_custom_fps :: i32
  om_disable_keyboard :: "bool_option enum_or_unknown"
  om_follow_remote_cursor :: "bool_option enum_or_unknown"
  om_follow_remote_window :: "bool_option enum_or_unknown"
  om_terminal_persistent :: "bool_option enum_or_unknown"
  om_show_my_cursor :: "bool_option enum_or_unknown"

definition om_default :: option_message where
  "om_default = \<lparr>om_image_quality = Some QualityNotSet, om_lock_after_session_end = Some NotSet,
     om_show_remote_cursor = Some NotSet, om_privacy_mode = Some NotSet, om_block_input = Some NotSet,
     om_custom_image_quality = 0, om_disable_audio = Some NotSet, om_disable_clipboard = Some NotSet,
     om_enable_file_transfer = Some NotSet, om_supported_decoding = None, om_custom_fps = 0,
     om_disable_keyboard = Some NotSet, om_follow_remote_cursor = Some NotSet,
     om_follow_remote_window = Some NotSet, om_terminal_persistent = Some NotSet,
     om_show_my_cursor = Some NotSet\<rparr>"

datatype privacy_notice =
  PrvNotSupported | PrvOnSucceeded | PrvOnFailed | PrvOnFailedPlugin | PrvOffSucceeded | PrvOffFailed

datatype block_input_state = BlkOnFailed | BlkOffFailed

text \<open>The keys a peer may keep pressed; the others are one case.\<close>

datatype rdev_key =
  ShiftLeft | ShiftRight | ControlLeft | ControlRight | MetaLeft | MetaRight | Alt | AltGr | OtherKey nat

record mouse_event =
  me_mask :: i32
  me_x :: i32
  me_y :: i32

datatype touch_event = PanStart i32 i32 | PanUpdate i32 i32 | PanEnd i32 i32 | OtherTouch nat

text \<open>A control key by its number in the protocol.\<close>

datatype key_union = ControlKey nat | Chr u32 | Unicode u32 | Seq string | Win2winHotkey u32

datatype keyboard_mode = LegacyMode | MapMode | TranslateMode | AutoMode

record key_event =
  ke_down :: bool
  ke_press :: bool
  ke_union :: "key_union option"
  ke_modifiers :: "nat list"
  ke_mode :: "keyboard_mode enum_or_unknown"

datatype message_input =
    InputMouse mouse_event i32 string u32 bool bool
  | InputKey key_event bool
  | InputPointer "touch_event option" i32
  | BlockOn
  | BlockOff

text \<open>What a connection sends to the peer, to the manager, to its input thread, to the video side and to the system.\<close>

datatype peer_msg =
    SendPermission permission_info bool
  | SendBlockInputError block_input_state string
  | SendPrivacy privacy_notice string string
  | SendMessageBox string string
  | SendDisplayChanged nat
  | SendVoiceCallResponse int bool
  | SendElevation string
  | SendClip nat
  | SendTerminalResponse nat

datatype manager_msg =
    ClipToCm nat
  | ClipEnabledToCm bool
  | ChatToCm string
  | VoiceCallIncoming
  | StartVoiceCall
  | CloseVoiceCall
  | ConnectionClosed bool

datatype video_msg =
    QosImageQuality i32
  | QosCustomFps u32
  | QosAutoAdjustFps u32
  | QosRecord bool
  | EncoderUpdate nat
  | FrameFetched
  | TakeScreenshot nat string

datatype clip_effect =
    UpdateClipboard "nat list"
  | ClipToContext nat
  | ClipAudit file_audit_type "(string \<times> int) list"
  | EmptyFileClipboard

datatype elevation = ElevationDirect | ElevationLogon string string | ElevationUnknown

datatype system_call =
    MobilePointer string i32 i32 i32
  | MobileKey key_event
  | VoiceInputDevice bool
  | TerminalPersistent string bool
  | Whiteboard bool
  | Reboot
  | PlayFormat nat
  | PlayFrame nat
  | SwitchSides bytes
  | RecordResolution string "i32 \<times> i32" "i32 \<times> i32"
  | ChangeResolution string i32 i32
  | PlugIn i32
  | PlugOut i32
  | StartPortable elevation
  | ConnectUserSession u32

datatype peer_out =
    ToPeer peer_msg
  | ToCm manager_msg
  | ToInput message_input
  | ToVideo video_msg
  | Clip clip_effect
  | Sys system_call

datatype clip_answer = AnswerFiles "(string \<times> int) list" | AnswerClip nat

section \<open>State\<close>

text \<open>The permissions, but for that of the keyboard and that of files, and the options of the peer.\<close>

record rights =
  rt_clipboard :: bool
  rt_audio :: bool
  rt_restart :: bool
  rt_recording :: bool
  rt_block_input :: bool
  rt_disable_keyboard :: bool
  rt_disable_clipboard :: bool
  rt_disable_audio :: bool
  rt_enable_file_transfer :: bool
  rt_show_remote_cursor :: bool
  rt_follow_remote_cursor :: bool
  rt_follow_remote_window :: bool
  rt_show_my_cursor :: bool

record peer =
  pe_conn :: connection
  pe_argb :: u32
  pe_inner :: conn_inner
  pe_server :: server
  pe_rights :: rights
  pe_files :: conn_files
  pe_privacy :: "privacy_impl privacy_manager"
  pe_privacy_world :: priv_world
  pe_multi_ui_session :: bool
  pe_display_idx :: nat
  pe_voice_request :: "int option"
  pe_voice_calling :: bool
  pe_audio_sender :: bool
  pe_pressed :: "rdev_key list"
  pe_disconnect_timer :: "(instant \<times> u64) option"
  pe_click_time :: int
  pe_mouse_move_time :: int
  pe_out :: "peer_out list"

text \<open>
  What the build and the system say: \<open>pv_unix_clip\<close> is the feature \<open>unix-file-copy-paste\<close>; a display is its
  name and its size; \<open>pv_whiteboard\<close> the reason why cursors cannot be shown; \<open>pv_serve_clip\<close> and
  \<open>pv_terminal\<close> the answers to a clipboard message for files and of a terminal; then the errors of virtual
  displays and of the elevated helper, the sessions of Windows, and whether this is the only connection that
  is not a port forward.
\<close>

record peer_env =
  pv_login :: login_env
  pv_files :: conn_env
  pv_app :: app_config
  pv_unix_clip :: bool
  pv_primary :: nat
  pv_camera_exists :: bool
  pv_time :: int
  pv_privacy_supported :: bool
  pv_privacy_check :: string
  pv_privacy_in_time :: bool
  pv_whiteboard :: string
  pv_key_of :: "u32 \<Rightarrow> rdev_key"
  pv_retina :: "mouse_event \<Rightarrow> nat \<Rightarrow> mouse_event"
  pv_displays :: "(string \<times> i32 \<times> i32) list option"
  pv_display_known :: "video_source \<Rightarrow> nat \<Rightarrow> bool"
  pv_virtual :: "string \<Rightarrow> bool"
  pv_amyuni :: "string \<Rightarrow> bool"
  pv_serve_clip :: "nat \<Rightarrow> clip_answer list"
  pv_mac_handles :: "nat \<Rightarrow> bool"
  pv_terminal :: "nat \<Rightarrow> nat option"
  pv_virtual_supported :: bool
  pv_plug_in :: "i32 \<Rightarrow> string option"
  pv_plug_out :: "i32 \<Rightarrow> string option"
  pv_portable_running :: bool
  pv_start_portable :: "elevation \<Rightarrow> string option"
  pv_share_rdp :: bool
  pv_current_sid :: "u32 option"
  pv_sessions :: "u32 list"
  pv_only_connection :: bool

abbreviation pv_os :: "peer_env \<Rightarrow> target_os" where
  "pv_os v \<equiv> le_os (pv_login v)"

definition puts :: "peer_out list \<Rightarrow> peer \<Rightarrow> peer" where
  "puts os p = p\<lparr>pe_out := pe_out p @ os\<rparr>"

abbreviation on_rights :: "(rights \<Rightarrow> rights) \<Rightarrow> peer \<Rightarrow> peer" where
  "on_rights f p \<equiv> p\<lparr>pe_rights := f (pe_rights p)\<rparr>"

abbreviation on_login :: "(connection \<Rightarrow> connection) \<Rightarrow> peer \<Rightarrow> peer" where
  "on_login f p \<equiv> p\<lparr>pe_conn := f (pe_conn p)\<rparr>"

definition subscribe :: "string \<Rightarrow> bool \<Rightarrow> peer \<Rightarrow> peer" where
  "subscribe name sub p = p\<lparr>pe_server := srv_subscribe (pe_server p) name (pe_inner p) sub\<rparr>"

definition is_authed :: "auth_conn_type \<Rightarrow> peer \<Rightarrow> bool" where
  "is_authed t p \<longleftrightarrow> cn_authed_conn (pe_conn p) = Some t"

section \<open>Permissions\<close>

definition NAME_CLIPBOARD :: string where "NAME_CLIPBOARD = ''clipboard''"
definition NAME_FILE_CLIPBOARD :: string where "NAME_FILE_CLIPBOARD = ''file-clipboard''"
definition NAME_AUDIO :: string where "NAME_AUDIO = ''audio''"
definition NAME_CURSOR :: string where "NAME_CURSOR = ''mouse_cursor''"
definition NAME_POS :: string where "NAME_POS = ''mouse_pos''"
definition NAME_WINDOW_FOCUS :: string where "NAME_WINDOW_FOCUS = ''window_focus''"

definition peer_keyboard_enabled :: "peer \<Rightarrow> bool" where
  "peer_keyboard_enabled p \<longleftrightarrow> cn_keyboard (pe_conn p) \<and> \<not> rt_disable_keyboard (pe_rights p)"

definition clipboard_enabled :: "peer \<Rightarrow> bool" where
  "clipboard_enabled p \<longleftrightarrow> rt_clipboard (pe_rights p) \<and> \<not> rt_disable_clipboard (pe_rights p)"

definition can_sub_clipboard_service :: "peer_env \<Rightarrow> peer \<Rightarrow> bool" where
  "can_sub_clipboard_service v p \<longleftrightarrow> clipboard_enabled p \<and> peer_keyboard_enabled p
     \<and> \<not> builtin_is (pv_app v) ''one-way-clipboard-redirection'' ''Y''"

definition audio_enabled :: "peer \<Rightarrow> bool" where
  "audio_enabled p \<longleftrightarrow> rt_audio (pe_rights p) \<and> \<not> rt_disable_audio (pe_rights p)"

definition file_transfer_enabled :: "peer \<Rightarrow> bool" where
  "file_transfer_enabled p \<longleftrightarrow> nf_file (pe_files p) \<and> rt_enable_file_transfer (pe_rights p)"

definition can_sub_file_clipboard_service :: "peer_env \<Rightarrow> peer \<Rightarrow> bool" where
  "can_sub_file_clipboard_service v p \<longleftrightarrow> clipboard_enabled p \<and> file_transfer_enabled p
     \<and> \<not> builtin_is (pv_app v) ''one-way-file-transfer'' ''Y''"

text \<open>The fields \<open>start\<close> makes, and the permissions it reports before anything else.\<close>

definition rights_start :: "login_env \<Rightarrow> u64 option \<Rightarrow> login_world \<Rightarrow> rights" where
  "rights_start e cp w =
     (let cp = (if le_os e = Android then None else cp); may = (\<lambda>opt. granted (access_mode e) (lw_app w) opt cp) in
      \<lparr>rt_clipboard = may ''enable-clipboard'', rt_audio = may ''enable-audio'',
       rt_restart = may ''enable-remote-restart'', rt_recording = may ''enable-record-session'',
       rt_block_input = may ''enable-block-input'', rt_disable_keyboard = False, rt_disable_clipboard = False,
       rt_disable_audio = False, rt_enable_file_transfer = False, rt_show_remote_cursor = False,
       rt_follow_remote_cursor = False, rt_follow_remote_window = False, rt_show_my_cursor = False\<rparr>)"

definition announce_permissions :: "peer_env \<Rightarrow> peer \<Rightarrow> peer" where
  "announce_permissions v p =
     (let r = pe_rights p; k = cn_keyboard (pe_conn p);
          refused = (\<lambda>has info. if has then [] else [ToPeer (SendPermission info False)])
      in puts ((if pv_os v = Android then [ToPeer (SendPermission PiKeyboard k)] else refused k PiKeyboard)
               @ refused (rt_clipboard r) PiClipboard @ refused (rt_audio r) PiAudio
               @ refused (nf_file (pe_files p)) PiFile @ refused (rt_restart r) PiRestart
               @ refused (rt_recording r) PiRecording @ refused (rt_block_input r) PiBlockInput) p)"

section \<open>The user gives and takes permissions\<close>

text \<open>A camera viewer hears audio in a voice call only; taking audio away always works.\<close>

definition subscribe_audio :: "peer \<Rightarrow> peer" where
  "subscribe_audio p =
     (if is_authed ViewCamera p then
        (if pe_voice_calling p \<or> \<not> audio_enabled p then subscribe NAME_AUDIO (audio_enabled p) p else p)
      else subscribe NAME_AUDIO (audio_enabled p) p)"

definition subscribe_file_clipboard :: "peer_env \<Rightarrow> peer \<Rightarrow> peer" where
  "subscribe_file_clipboard v p =
     (if pv_unix_clip v then subscribe NAME_FILE_CLIPBOARD (can_sub_file_clipboard_service v p) p else p)"

definition switch_permission :: "peer_env \<Rightarrow> string \<Rightarrow> bool \<Rightarrow> peer \<Rightarrow> peer" where
  "switch_permission v name enabled p =
     (if name = ''keyboard'' then
        (let p = puts [ToPeer (SendPermission PiKeyboard enabled)] (on_login (\<lambda>c. c\<lparr>cn_keyboard := enabled\<rparr>) p);
             p = subscribe NAME_CLIPBOARD (can_sub_clipboard_service v p) p;
             p = subscribe_file_clipboard v p
         in subscribe NAME_CURSOR (enabled \<or> rt_show_remote_cursor (pe_rights p)) p)
      else if name = ''clipboard'' then
        (let p = puts [ToPeer (SendPermission PiClipboard enabled)] (on_rights (\<lambda>r. r\<lparr>rt_clipboard := enabled\<rparr>) p)
         in subscribe NAME_CLIPBOARD (can_sub_clipboard_service v p) p)
      else if name = ''audio'' then
        (let p = puts [ToPeer (SendPermission PiAudio enabled)] (on_rights (\<lambda>r. r\<lparr>rt_audio := enabled\<rparr>) p)
         in if cn_authorized (pe_conn p) then subscribe_audio p else p)
      else if name = ''file'' then
        (let p = puts [ToPeer (SendPermission PiFile enabled)] (p\<lparr>pe_files := (pe_files p)\<lparr>nf_file := enabled\<rparr>\<rparr>);
             p = (if pv_unix_clip v \<and> \<not> enabled then puts [Clip EmptyFileClipboard] p else p)
         in subscribe_file_clipboard v p)
      else if name = ''restart'' then
        puts [ToPeer (SendPermission PiRestart enabled)] (on_rights (\<lambda>r. r\<lparr>rt_restart := enabled\<rparr>) p)
      else if name = ''recording'' then
        puts [ToPeer (SendPermission PiRecording enabled)] (on_rights (\<lambda>r. r\<lparr>rt_recording := enabled\<rparr>) p)
      else if name = ''block_input'' then
        puts [ToPeer (SendPermission PiBlockInput enabled)] (on_rights (\<lambda>r. r\<lparr>rt_block_input := enabled\<rparr>) p)
      else p)"

section \<open>The privacy mode\<close>

text \<open>\<open>turn_off_privacy_to_msg\<close>, for the connection \<open>c\<close>.\<close>

definition turn_off_privacy_to_msg :: "i32 \<Rightarrow> peer \<Rightarrow> peer_msg \<times> peer" where
  "turn_off_privacy_to_msg c p =
     (let (r, s, w) = turn_off_privacy privacy_impls c None (pe_privacy p) (pe_privacy_world p);
          p = p\<lparr>pe_privacy := s, pe_privacy_world := w\<rparr>
      in (case r of
            Some (Inr _) \<Rightarrow> SendPrivacy PrvOffSucceeded '''' ''''
          | Some (Inl e) \<Rightarrow> SendPrivacy PrvOffFailed e ''''
          | None \<Rightarrow> SendPrivacy PrvOffFailed ''Not supported'' '''', p))"

definition PRIVACY_UNSUPPORTED :: string where
  "PRIVACY_UNSUPPORTED =
     ''Unsupported. 1 Multi-screen is not supported. 2 Please confirm the license is activated.''"

definition peer_turn_on_privacy :: "peer_env \<Rightarrow> string \<Rightarrow> peer \<Rightarrow> peer" where
  "peer_turn_on_privacy v key p =
     (if \<not> pv_privacy_supported v then
        puts [ToPeer (SendPrivacy PrvNotSupported PRIVACY_UNSUPPORTED key)] p
      else
        (let p = (if is_in_privacy_mode privacy_impls (pe_privacy p) then
                    (case get_cur_impl_key privacy_impls (pe_privacy p) of
                       Some pre \<Rightarrow>
                         if \<not> is_current_privacy_mode_impl privacy_impls pre (pe_privacy p)
                         then puts [ToPeer (SendPrivacy PrvOffSucceeded '''' pre)] p else p
                     | None \<Rightarrow> p)
                  else p);
             (r, s, w) = turn_on_privacy privacy_impls (pv_privacy_in_time v) key (ci_id (pe_inner p))
                           (pe_privacy p) (pe_privacy_world p);
             p = p\<lparr>pe_privacy := s, pe_privacy_world := w\<rparr>;
             (msg, p) =
               (case r of
                  Some (Inr True) \<Rightarrow>
                    if pv_privacy_check v = '''' then (SendPrivacy PrvOnSucceeded '''' key, p)
                    else (SendPrivacy PrvOnFailed (pv_privacy_check v) key,
                          snd (turn_off_privacy_to_msg (ci_id (pe_inner p)) p))
                | Some (Inr False) \<Rightarrow> (SendPrivacy PrvOnFailedPlugin '''' key, p)
                | Some (Inl e) \<Rightarrow>
                    (SendPrivacy PrvOnFailed e key,
                     if is_in_privacy_mode privacy_impls (pe_privacy p)
                     then snd (turn_off_privacy_to_msg INVALID_PRIVACY_MODE_CONN_ID p) else p)
                | None \<Rightarrow> (SendPrivacy PrvOffFailed ''Not supported'' key, p))
         in puts [ToPeer msg] p))"

definition peer_turn_off_privacy :: "peer_env \<Rightarrow> string \<Rightarrow> peer \<Rightarrow> peer" where
  "peer_turn_off_privacy v key p =
     (if \<not> pv_privacy_supported v then
        puts [ToPeer (SendPrivacy PrvNotSupported PRIVACY_UNSUPPORTED key)] p
      else (let (msg, p) = turn_off_privacy_to_msg (ci_id (pe_inner p)) p in puts [ToPeer msg] p))"

definition toggle_privacy_mode :: "peer_env \<Rightarrow> bool \<Rightarrow> string \<Rightarrow> peer \<Rightarrow> peer" where
  "toggle_privacy_mode v on key p =
     (if on then peer_turn_on_privacy v key p else peer_turn_off_privacy v key p)"

section \<open>The options of the peer\<close>

text \<open>An option that is set: \<open>Some True\<close> for yes.\<close>

definition given :: "bool_option enum_or_unknown \<Rightarrow> bool option" where
  "given q = (case q of Some Yes \<Rightarrow> Some True | Some No \<Rightarrow> Some False | _ \<Rightarrow> None)"

definition when_given :: "bool_option enum_or_unknown \<Rightarrow> (bool \<Rightarrow> peer \<Rightarrow> peer) \<Rightarrow> peer \<Rightarrow> peer" where
  "when_given q f p = (case given q of None \<Rightarrow> p | Some b \<Rightarrow> f b p)"

definition update_quality :: "option_message \<Rightarrow> peer \<Rightarrow> peer" where
  "update_quality o' p =
     (let image_quality =
        (case om_image_quality o' of
           None \<Rightarrow> None
         | Some QualityNotSet \<Rightarrow>
             Some (if 0 <s om_custom_image_quality o' then om_custom_image_quality o' else - 1)
         | Some q \<Rightarrow> Some (image_quality_value q))
      in puts ((case image_quality of Some n \<Rightarrow> if 0 <s n then [ToVideo (QosImageQuality n)] else [] | None \<Rightarrow> [])
               @ (if 0 <s om_custom_fps o' then [ToVideo (QosCustomFps (scast (om_custom_fps o')))] else [])
               @ (case om_supported_decoding o' of Some d \<Rightarrow> [ToVideo (EncoderUpdate d)] | None \<Rightarrow> [])) p)"

definition update_cursor_options :: "peer_env \<Rightarrow> option_message \<Rightarrow> peer \<Rightarrow> peer" where
  "update_cursor_options v o' p =
     (let p = (if is_mobile (pv_os v) then p else
                 when_given (om_show_remote_cursor o') (\<lambda>b p.
                   let p = on_rights (\<lambda>r. r\<lparr>rt_show_remote_cursor := b\<rparr>) p;
                       p = subscribe NAME_CURSOR (peer_keyboard_enabled p \<or> b) p
                   in subscribe NAME_POS b p) p);
          p = (if is_mobile (pv_os v) then p else
                 when_given (om_follow_remote_cursor o') (\<lambda>b. on_rights (\<lambda>r. r\<lparr>rt_follow_remote_cursor := b\<rparr>)) p)
      in when_given (om_follow_remote_window o') (\<lambda>b p.
           subscribe NAME_WINDOW_FOCUS b (on_rights (\<lambda>r. r\<lparr>rt_follow_remote_window := b\<rparr>) p)) p)"

definition update_file_option :: "peer_env \<Rightarrow> option_message \<Rightarrow> peer \<Rightarrow> peer" where
  "update_file_option v o' p =
     (if pv_os v = Windows \<or> pv_unix_clip v then
        when_given (om_enable_file_transfer o') (\<lambda>b p.
          let p = on_rights (\<lambda>r. r\<lparr>rt_enable_file_transfer := b\<rparr>) p;
              p = (if pv_os v = Windows then puts [ToCm (ClipEnabledToCm (file_transfer_enabled p))] p else p);
              p = (if pv_unix_clip v \<and> \<not> b then puts [Clip EmptyFileClipboard] p else p)
          in subscribe_file_clipboard v p) p
      else p)"

definition update_input_options :: "peer_env \<Rightarrow> option_message \<Rightarrow> peer \<Rightarrow> peer" where
  "update_input_options v o' p =
     (let p = when_given (om_disable_clipboard o') (\<lambda>b p.
            let p = on_rights (\<lambda>r. r\<lparr>rt_disable_clipboard := b\<rparr>) p
            in subscribe NAME_CLIPBOARD (can_sub_clipboard_service v p) p) p
      in when_given (om_disable_keyboard o') (\<lambda>b p.
           let p = on_rights (\<lambda>r. r\<lparr>rt_disable_keyboard := b\<rparr>) p;
               p = subscribe NAME_CLIPBOARD (can_sub_clipboard_service v p) p;
               p = subscribe_file_clipboard v p
           in subscribe NAME_CURSOR (peer_keyboard_enabled p \<or> rt_show_remote_cursor (pe_rights p)) p) p)"

text \<open>The switch of the privacy mode in the options is for peers before 1.2.4.\<close>

definition update_privacy_option :: "peer_env \<Rightarrow> option_message \<Rightarrow> peer \<Rightarrow> peer" where
  "update_privacy_option v o' p =
     (if \<not> at_least (get_version_number (lr_version (cn_lr (pe_conn p)))) ''1.2.4'' \<and> cn_keyboard (pe_conn p)
      then when_given (om_privacy_mode o') (\<lambda>b. toggle_privacy_mode v b '''') p
      else p)"

definition update_block_option :: "option_message \<Rightarrow> peer \<Rightarrow> peer" where
  "update_block_option o' p =
     when_given (om_block_input o') (\<lambda>b p.
       if cn_keyboard (pe_conn p) \<and> rt_block_input (pe_rights p)
       then puts [ToInput (if b then BlockOn else BlockOff)] p
       else if ci_tx (pe_inner p)
       then puts [ToPeer (SendBlockInputError (if b then BlkOnFailed else BlkOffFailed) ''No permission'')] p
       else p) p"

definition update_terminal_option :: "peer_env \<Rightarrow> option_message \<Rightarrow> peer \<Rightarrow> peer" where
  "update_terminal_option v o' p =
     (if is_mobile (pv_os v) then p else
        when_given (om_terminal_persistent o') (\<lambda>b p.
          puts [Sys (TerminalPersistent (cn_terminal_service_id (pe_conn p)) b)]
            (on_login (\<lambda>c. c\<lparr>cn_terminal_persistent := b\<rparr>) p)) p)"

definition update_whiteboard_option :: "peer_env \<Rightarrow> option_message \<Rightarrow> peer \<Rightarrow> peer" where
  "update_whiteboard_option v o' p =
     (if is_mobile (pv_os v) then p else
        when_given (om_show_my_cursor o') (\<lambda>b p.
          let p = on_rights (\<lambda>r. r\<lparr>rt_show_my_cursor := b\<rparr>) p
          in if pv_whiteboard v = '''' then puts [Sys (Whiteboard b)] p
             else if b then puts [ToPeer (SendMessageBox ''Show my cursor'' (pv_whiteboard v))] p
             else p) p)"

definition update_options :: "peer_env \<Rightarrow> option_message \<Rightarrow> peer \<Rightarrow> peer" where
  "update_options v o' p =
     (let p = update_quality o' p;
          p = when_given (om_lock_after_session_end o') (\<lambda>b. on_login (\<lambda>c. c\<lparr>cn_lock_after_session_end := b\<rparr>)) p;
          p = update_cursor_options v o' p;
          p = when_given (om_disable_audio o') (\<lambda>b p. subscribe_audio (on_rights (\<lambda>r. r\<lparr>rt_disable_audio := b\<rparr>) p)) p;
          p = update_file_option v o' p;
          p = update_input_options v o' p;
          p = update_privacy_option v o' p;
          p = update_block_option o' p;
          p = update_terminal_option v o' p
      in update_whiteboard_option v o' p)"

section \<open>Displays\<close>

text \<open>\<open>as usize\<close> of an \<open>i32\<close> extends the sign to 64 bits.\<close>

definition usize_of :: "i32 \<Rightarrow> nat" where
  "usize_of d = unat (scast d :: u64)"

definition video_source_of :: "peer \<Rightarrow> video_source" where
  "video_source_of p = (if cn_view_camera (pe_conn p) then Camera else Monitor)"

definition refresh_video_display :: "nat option \<Rightarrow> peer \<Rightarrow> peer" where
  "refresh_video_display display p =
     p\<lparr>pe_server := set_video_service_opt (pe_server p) (map_option (\<lambda>d. (video_source_of p, d)) display)
         ''refresh'' ''1''\<rparr>"

definition with_video_service :: "video_source \<Rightarrow> nat \<Rightarrow> server \<Rightarrow> server" where
  "with_video_service source d s =
     (if srv_contains s (get_service_name source d) then s else add_service s (video_service_new source d))"

definition switch_display_to :: "peer_env \<Rightarrow> nat \<Rightarrow> peer \<Rightarrow> peer" where
  "switch_display_to v d p =
     (let source = video_source_of p; s = pe_server p;
          s = (if d \<noteq> pv_primary v then with_video_service source d s else s);
          s = (if \<not> is_support_multi_ui_session (lr_version (cn_lr (pe_conn p)))
               then srv_subscribe s (get_service_name source (pe_display_idx p)) (pe_inner p) False else s);
          s = srv_subscribe s (get_service_name source d) (pe_inner p) True
      in p\<lparr>pe_server := s, pe_display_idx := d\<rparr>)"

text \<open>The resolution a display had is noted before it is changed, except for virtual ones.\<close>

definition change_resolution :: "peer_env \<Rightarrow> nat option \<Rightarrow> i32 \<Rightarrow> i32 \<Rightarrow> peer \<Rightarrow> peer" where
  "change_resolution v d width height p =
     (case (if cn_keyboard (pe_conn p) then pv_displays v else None) of
        None \<Rightarrow> p
      | Some displays \<Rightarrow>
          (let idx = (case d of Some i \<Rightarrow> i | None \<Rightarrow> pe_display_idx p) in
           if idx < length displays then
             (let (name, w, h) = displays ! idx in
              if pv_os v = Windows \<and> pv_virtual v name then p
              else puts ((if pv_os v = Windows \<and> pv_amyuni v name then []
                          else [Sys (RecordResolution name (w, h) (width, height))])
                         @ [Sys (ChangeResolution name width height)]) p)
           else p))"

definition handle_switch_display :: "peer_env \<Rightarrow> i32 \<Rightarrow> i32 \<Rightarrow> i32 \<Rightarrow> peer \<Rightarrow> peer" where
  "handle_switch_display v display width height p =
     (let d = usize_of display in
      if pe_display_idx p = d then p
      else
        (let p = switch_display_to v d p;
             p = (if width \<noteq> 0 \<and> height \<noteq> 0 \<and> \<not> is_mobile (pv_os v)
                  then change_resolution v None width height p else p)
         in if pv_display_known v (video_source_of p) (pe_display_idx p)
            then puts [ToPeer (SendDisplayChanged (pe_display_idx p))] p else p))"

definition peer_capture_displays :: "nat list \<Rightarrow> nat list \<Rightarrow> nat list \<Rightarrow> peer \<Rightarrow> peer" where
  "peer_capture_displays add sub sets p =
     (let source = video_source_of p;
          s = fold (with_video_service source) add (pe_server p);
          s = fold (with_video_service source) sets s;
          s = (if add \<noteq> [] then capture_displays s (pe_inner p) source add True False
               else if sub \<noteq> [] then capture_displays s (pe_inner p) source sub False True
               else capture_displays s (pe_inner p) source sets True True);
          multi = get_subbed_displays_count s (ci_id (pe_inner p)) > 1;
          s = (if rt_follow_remote_window (pe_rights p)
               then srv_subscribe s NAME_WINDOW_FOCUS (pe_inner p) (\<not> multi) else s)
      in p\<lparr>pe_server := s, pe_multi_ui_session := multi\<rparr>)"

section \<open>Voice calls\<close>

definition handle_voice_call :: "bool \<Rightarrow> peer \<Rightarrow> peer" where
  "handle_voice_call accepted p =
     (case pe_voice_request p of
        None \<Rightarrow> p
      | Some ts \<Rightarrow>
          (let p = puts ((if accepted then [Sys (VoiceInputDevice True), ToCm StartVoiceCall] else [ToCm CloseVoiceCall])
                         @ [ToPeer (SendVoiceCallResponse ts accepted)])
                     (p\<lparr>pe_voice_request := None, pe_voice_calling := accepted\<rparr>)
           in if is_authed ViewCamera p then subscribe NAME_AUDIO (audio_enabled p \<and> accepted) p else p))"

definition close_voice_call :: "peer \<Rightarrow> peer" where
  "close_voice_call p =
     (let p = puts [Sys (VoiceInputDevice False), ToCm CloseVoiceCall] (p\<lparr>pe_voice_calling := False\<rparr>)
      in if is_authed ViewCamera p then subscribe NAME_AUDIO False p else p)"

section \<open>After the log-on\<close>

text \<open>\<open>get_auto_disconenct_timer\<close>; \<open>str::parse::<u64>\<close> of the minutes.\<close>

definition parse_minutes :: "string \<Rightarrow> u64" where
  "parse_minutes s =
     (let ds = (if s \<noteq> [] \<and> s ! 0 = CHR ''+'' then tl s else s)
      in if ds \<noteq> [] \<and> list_all is_digit ds \<and> read_nat ds < 2 ^ 64 then of_nat (read_nat ds) else 10)"

definition get_auto_disconnect_timer :: "peer_env \<Rightarrow> (instant \<times> u64) option" where
  "get_auto_disconnect_timer v =
     (if get_option (pv_app v) ''allow-auto-disconnect'' = ''Y'' then
        (let minutes = parse_minutes (get_option (pv_app v) ''auto-disconnect-timeout'')
         in Some (le_instant (pv_login v), if minutes = 0 then 10 else minutes))
      else None)"

definition update_auto_disconnect_timer :: "peer_env \<Rightarrow> peer \<Rightarrow> peer" where
  "update_auto_disconnect_timer v p =
     p\<lparr>pe_disconnect_timer := map_option (\<lambda>(_, m). (le_instant (pv_login v), m)) (pe_disconnect_timer p)\<rparr>"

text \<open>The services a desktop connection is not to be subscribed to.\<close>

definition noperms_of :: "peer_env \<Rightarrow> peer \<Rightarrow> string list" where
  "noperms_of v p =
     (let r = pe_rights p; omit = (\<lambda>b name. if b then [name] else []) in
      omit (\<not> peer_keyboard_enabled p \<and> \<not> rt_show_remote_cursor r) NAME_CURSOR
      @ omit (\<not> rt_show_remote_cursor r) NAME_POS
      @ omit (\<not> rt_follow_remote_window r) NAME_WINDOW_FOCUS
      @ omit (\<not> can_sub_clipboard_service v p) NAME_CLIPBOARD
      @ omit (pv_unix_clip v \<and> \<not> can_sub_file_clipboard_service v p) NAME_FILE_CLIPBOARD
      @ omit (\<not> audio_enabled p) NAME_AUDIO)"

definition peer_sub_monitor_services :: "peer_env \<Rightarrow> peer \<Rightarrow> peer" where
  "peer_sub_monitor_services v p =
     (if is_remote (pe_conn p) \<and> \<not> cn_services_subed (pe_conn p) then
        (let p = on_login (\<lambda>c. c\<lparr>cn_services_subed := True\<rparr>) p;
             noperms = noperms_of v p;
             s = try_add_primay_video_service (pv_primary v) (pe_server p)
         in p\<lparr>pe_disconnect_timer := get_auto_disconnect_timer v,
              pe_server := add_connection (pv_primary v) s (pe_inner p) noperms\<rparr>)
      else p)"

definition try_sub_camera_displays :: "peer_env \<Rightarrow> peer \<Rightarrow> peer" where
  "try_sub_camera_displays v p =
     (let s = try_add_primary_camera_service (pv_camera_exists v) (pe_server p)
      in p\<lparr>pe_server := add_camera_connection (pv_camera_exists v) s (pe_inner p)\<rparr>)"

text \<open>
  \<open>finish_post_logon_actions\<close> with all it does to the subscriptions; \<open>opts\<close> are the options that came
  with the request. Reading the first directory and starting the terminal are in the model of the log-on.
\<close>

definition after_logon :: "peer_env \<Rightarrow> option_message option \<Rightarrow> bool \<Rightarrow> bool \<Rightarrow> peer \<Rightarrow> peer" where
  "after_logon v opts sub_service wait_confirm p =
     (let p = (case opts of Some o' \<Rightarrow> update_options v o' p | None \<Rightarrow> p);
          c = pe_conn p
      in if cn_file_transfer c \<noteq> None then p
         else if cn_terminal c then on_login (\<lambda>c. c\<lparr>cn_keyboard := False\<rparr>) p
         else if cn_view_camera c then
           (let p = (if wait_confirm then p else try_sub_camera_displays v p)
            in puts [ToPeer (SendPermission PiKeyboard False)] (on_login (\<lambda>c. c\<lparr>cn_keyboard := False\<rparr>) p))
         else if sub_service \<and> \<not> wait_confirm then peer_sub_monitor_services v p
         else p)"

end
