(* ===== verification/Peer_Messages.thy ===== *)
theory Peer_Messages
  imports Peer_Rights
begin

text \<open>
  The messages of an authorised peer (the last branch of \<open>on_message\<close> in \<open>src/server/connection.rs\<close>): which
  of them reach the input thread, the clipboard, the files, the screens and the system, and the thread that
  plays the input. File messages are handled by the model of the files of a connection; what a message
  carries for another part is a number.
\<close>

section \<open>Messages\<close>

datatype cliprdr = ClipFiles "(string \<times> int) list" | ClipData nat | ClipUnknown

datatype misc_message =
    MiscSwitchDisplay i32 i32 i32
  | MiscCaptureDisplays "i32 list" "i32 list" "i32 list"
  | MiscToggleVirtualDisplay i32 bool
  | MiscTogglePrivacyMode bool string
  | MiscChat string
  | MiscOption option_message
  | MiscRefreshVideo bool
  | MiscRefreshVideoDisplay i32
  | MiscVideoReceived
  | MiscRestartRemoteDevice
  | MiscElevationRequest elevation
  | MiscAudioFormat nat
  | MiscSwitchSidesRequest bytes
  | MiscChangeResolution i32 i32
  | MiscChangeDisplayResolution i32 i32 i32
  | MiscAutoAdjustFps u32
  | MiscClientRecordStatus bool
  | MiscSelectedSid u32
  | MiscMessageQuery i32
  | MiscOther

datatype peer_message =
    MouseEvent mouse_event
  | PointerDeviceEvent "touch_event option"
  | KeyEvent key_event
  | Clipboard nat
  | MultiClipboards "nat list"
  | Cliprdr cliprdr
  | FileAction file_action
  | FileResponse file_response
  | PeerMisc misc_message
  | AudioFrame nat
  | VoiceCallRequest bool int
  | VoiceCallResponse
  | ScreenshotRequest i32 string
  | PeerTerminalAction nat
  | OtherMessage

section \<open>Input\<close>

text \<open>\<open>crate::is_modifier\<close> and \<open>is_enter\<close>: control keys by their numbers.\<close>

definition is_modifier_event :: "key_event \<Rightarrow> bool" where
  "is_modifier_event k \<longleftrightarrow>
     (case ke_union k of Some (ControlKey n) \<Rightarrow> List.member [1, 29, 4, 23, 75, 73, 74, 64] n | _ \<Rightarrow> False)"

definition is_enter :: "key_event \<Rightarrow> bool" where
  "is_enter k \<longleftrightarrow> (case ke_union k of Some (ControlKey n) \<Rightarrow> n = 27 \<or> n = 72 | _ \<Rightarrow> False)"

fun is_modifier_key :: "rdev_key \<Rightarrow> bool" where
  "is_modifier_key (OtherKey _) = False"
| "is_modifier_key _ = True"

fun map_key_to_control_key :: "rdev_key \<Rightarrow> nat option" where
  "map_key_to_control_key Alt = Some 1"
| "map_key_to_control_key ShiftLeft = Some 29"
| "map_key_to_control_key ControlLeft = Some 4"
| "map_key_to_control_key MetaLeft = Some 23"
| "map_key_to_control_key AltGr = Some 75"
| "map_key_to_control_key ShiftRight = Some 73"
| "map_key_to_control_key ControlRight = Some 74"
| "map_key_to_control_key MetaRight = Some 64"
| "map_key_to_control_key (OtherKey _) = None"

definition is_left_up :: "mouse_event \<Rightarrow> bool" where
  "is_left_up me \<longleftrightarrow> signed_drop_bit 3 (me_mask me) = 1 \<and> me_mask me AND 7 = 2"

text \<open>The modifier a key event presses or releases.\<close>

definition modifier_of :: "(u32 \<Rightarrow> rdev_key) \<Rightarrow> key_event \<Rightarrow> rdev_key option" where
  "modifier_of key_of k =
     (case (case ke_mode k of
              Some MapMode \<Rightarrow> Some (key_of (case ke_union k of Some (Chr c) \<Rightarrow> c | _ \<Rightarrow> 0))
            | Some TranslateMode \<Rightarrow>
                (case ke_union k of Some (Chr c) \<Rightarrow> Some (key_of (c AND 0xFFFF)) | _ \<Rightarrow> None)
            | _ \<Rightarrow> None) of
        Some key \<Rightarrow> if is_modifier_key key then Some key else None
      | None \<Rightarrow> None)"

definition press_modifier :: "rdev_key option \<Rightarrow> bool \<Rightarrow> peer \<Rightarrow> peer" where
  "press_modifier key is_press p =
     (case key of
        None \<Rightarrow> p
      | Some k \<Rightarrow> p\<lparr>pe_pressed := (if is_press then List.insert k (pe_pressed p) else removeAll k (pe_pressed p))\<rparr>)"

definition on_mouse_event :: "peer_env \<Rightarrow> mouse_event \<Rightarrow> peer \<Rightarrow> peer" where
  "on_mouse_event v me p =
     (if is_authed ViewCamera p then p
      else
        (let me' = (if pv_os v = MacOS then pv_retina v me (pe_display_idx p) else me);
             input = (\<lambda>simulate show. ToInput (InputMouse me' (cn_id (pe_conn p)) (lr_my_name (cn_lr (pe_conn p)))
                        (pe_argb p) simulate show));
             p = (if is_mobile (pv_os v) then puts [Sys (MobilePointer ''mouse'' (me_mask me) (me_x me) (me_y me))] p
                  else if peer_keyboard_enabled p then
                    puts [input True (rt_show_my_cursor (pe_rights p))]
                      (if is_left_up me then p\<lparr>pe_click_time := pv_time v\<rparr> else p\<lparr>pe_mouse_move_time := pv_time v\<rparr>)
                  else if rt_show_my_cursor (pe_rights p) then puts [input False True] p
                  else p)
         in update_auto_disconnect_timer v p))"

definition on_pointer_event :: "peer_env \<Rightarrow> touch_event option \<Rightarrow> peer \<Rightarrow> peer" where
  "on_pointer_event v pde p =
     (if is_authed ViewCamera p then p
      else
        (let p = (if is_mobile (pv_os v) then
                    (case pde of
                       Some (PanStart x y) \<Rightarrow> puts [Sys (MobilePointer ''touch'' 4 x y)] p
                     | Some (PanUpdate x y) \<Rightarrow> puts [Sys (MobilePointer ''touch'' 5 x y)] p
                     | Some (PanEnd x y) \<Rightarrow> puts [Sys (MobilePointer ''touch'' 6 x y)] p
                     | _ \<Rightarrow> p)
                  else if peer_keyboard_enabled p then
                    puts [ToInput (InputPointer pde (cn_id (pe_conn p)))] (p\<lparr>pe_mouse_move_time := pv_time v\<rparr>)
                  else p)
         in update_auto_disconnect_timer v p))"

definition on_key_event :: "peer_env \<Rightarrow> key_event \<Rightarrow> peer \<Rightarrow> peer" where
  "on_key_event v me p =
     (if pv_os v = IOS \<or> is_authed ViewCamera p then p
      else
        (let key = modifier_of (pv_key_of v) me;
             down = (ke_press me \<or> ke_down me) \<and> \<not> (is_modifier_event me \<or> key \<noteq> None)
         in if pv_os v = Android then
              (let p = press_modifier key down p
               in puts [Sys (MobileKey (me\<lparr>ke_modifiers := List.map_filter map_key_to_control_key (pe_pressed p)\<rparr>))] p)
            else
              (let p = (if peer_keyboard_enabled p then
                          (let p = p\<lparr>pe_click_time := (if is_enter me then pv_time v else pe_click_time p),
                                     pe_mouse_move_time := pv_time v\<rparr>;
                               is_press = (if pv_os v = Linux then down else ke_press me);
                               p = press_modifier key is_press p;
                               whole = (case ke_union me of Some (Unicode _) \<Rightarrow> True | Some (Seq _) \<Rightarrow> True | _ \<Rightarrow> False)
                           in puts [ToInput (InputKey me (is_press \<and> \<not> whole))] p)
                        else p)
               in update_auto_disconnect_timer v p)))"

section \<open>Clipboard and files\<close>

definition on_clipboard :: "peer_env \<Rightarrow> nat \<Rightarrow> peer \<Rightarrow> peer" where
  "on_clipboard v cb p = (if rt_clipboard (pe_rights p) then puts [Clip (UpdateClipboard [cb])] p else p)"

text \<open>On Android the clipboards are taken over without a look at the permission; an iPhone ignores them.\<close>

definition on_multi_clipboards :: "peer_env \<Rightarrow> nat list \<Rightarrow> peer \<Rightarrow> peer" where
  "on_multi_clipboards v cbs p =
     (if pv_os v = Android then puts [Clip (UpdateClipboard cbs)] p
      else if pv_os v = IOS then p
      else if rt_clipboard (pe_rights p) then puts [Clip (UpdateClipboard cbs)] p
      else p)"

fun answer_out :: "clip_answer \<Rightarrow> peer_out" where
  "answer_out (AnswerFiles files) = Clip (ClipAudit RemoteSend files)"
| "answer_out (AnswerClip n) = ToPeer (SendClip n)"

definition on_cliprdr :: "peer_env \<Rightarrow> cliprdr \<Rightarrow> peer \<Rightarrow> peer" where
  "on_cliprdr v clip p =
     (if pv_os v \<noteq> Windows \<and> \<not> pv_unix_clip v then p
      else case clip of
             ClipFiles files \<Rightarrow> puts [Clip (ClipAudit RemoteReceive files)] p
           | ClipUnknown \<Rightarrow> p
           | ClipData n \<Rightarrow>
               if pv_os v = Windows then puts [ToCm (ClipToCm n)] p
               else if is_support_file_copy_paste (lr_version (cn_lr (pe_conn p))) then
                 (if pv_os v = MacOS \<and> pv_mac_handles v n then puts [Clip (ClipToContext n)] p
                  else puts (map answer_out (pv_serve_clip v n)) p)
               else p)"

text \<open>
  File messages: the files of the connection know what the log-on asked for and the version of the peer, and
  tell whether something was transferred.
\<close>

definition files_view :: "peer \<Rightarrow> conn_files" where
  "files_view p = (pe_files p)\<lparr>nf_file_transfer := cn_file_transfer (pe_conn p),
     nf_version := lr_version (cn_lr (pe_conn p)), nf_file_transferred := cn_file_transferred (pe_conn p)\<rparr>"

definition put_files :: "conn_files \<Rightarrow> peer \<Rightarrow> peer" where
  "put_files f p = on_login (\<lambda>c. c\<lparr>cn_file_transferred := nf_file_transferred f\<rparr>) (p\<lparr>pe_files := f\<rparr>)"

text \<open>\<open>None\<close> is a panic.\<close>

definition peer_file_action :: "peer_env \<Rightarrow> file_action \<Rightarrow> peer \<Rightarrow> peer option" where
  "peer_file_action v fa p = map_option (\<lambda>f. put_files f p) (on_file_action (pv_files v) fa (files_view p))"

definition peer_file_response :: "file_response \<Rightarrow> peer \<Rightarrow> peer" where
  "peer_file_response fr p = put_files (on_file_response fr (files_view p)) p"

section \<open>Everything else\<close>

definition toggle_virtual_display :: "peer_env \<Rightarrow> i32 \<Rightarrow> bool \<Rightarrow> peer \<Rightarrow> peer" where
  "toggle_virtual_display v display on p =
     (let box = (\<lambda>text. ToPeer (SendMessageBox ''Virtual display'' text)) in
      if pv_os v \<noteq> Windows then p
      else if on then
        (if \<not> pv_virtual_supported v then puts [box ''idd_not_support_under_win10_2004_tip''] p
         else puts (Sys (PlugIn display) # (case pv_plug_in v display of None \<Rightarrow> []
                      | Some err \<Rightarrow> [box (''Failed to plug in virtual display: '' @ err)])) p)
      else puts (Sys (PlugOut display) # (case pv_plug_out v display of None \<Rightarrow> []
                   | Some err \<Rightarrow> [box (''Failed to plug out virtual displays: '' @ err)])) p)"

definition handle_elevation_request :: "peer_env \<Rightarrow> elevation \<Rightarrow> peer \<Rightarrow> peer" where
  "handle_elevation_request v el p =
     (let (err, outs) =
        (if \<not> cn_keyboard (pe_conn p) then (''No permission'', [])
         else if \<not> le_is_installed (pv_login v) \<and> \<not> pv_portable_running v
         then (case pv_start_portable v el of Some e \<Rightarrow> e | None \<Rightarrow> '''', [Sys (StartPortable el)])
         else (''No need to elevate'', []))
      in update_auto_disconnect_timer v (puts (outs @ [ToPeer (SendElevation err)]) p))"

text \<open>The user session a Windows peer picked: the connection moves there, or goes on with what it waited for.\<close>

definition on_selected_sid :: "peer_env \<Rightarrow> u32 \<Rightarrow> peer \<Rightarrow> bool \<times> peer" where
  "on_selected_sid v sid p =
     (case (if pv_os v = Windows then pv_current_sid v else None) of
        None \<Rightarrow> (True, p)
      | Some current \<Rightarrow>
          if le_is_installed (pv_login v) \<and> pv_share_rdp v \<and> pv_only_connection v
             \<and> length (pv_sessions v) > 1 \<and> current \<noteq> sid \<and> sid \<in> set (pv_sessions v)
          then (False, puts [Sys (ConnectUserSession sid)] p)
          else (True,
                if cn_file_transfer (pe_conn p) \<noteq> None then
                  (case nf_delayed_read_dir (pe_files p) of
                     None \<Rightarrow> p
                   | Some (dir, hidden) \<Rightarrow>
                       put_files (send_fs (ReadDir dir hidden) ((files_view p)\<lparr>nf_delayed_read_dir := None\<rparr>)) p)
                else if cn_view_camera (pe_conn p) then try_sub_camera_displays v p
                else if \<not> cn_terminal (pe_conn p) then peer_sub_monitor_services v p
                else p))"

text \<open>\<open>on_close\<close> without locking the screen.\<close>

definition peer_on_close :: "peer_env \<Rightarrow> peer \<Rightarrow> peer" where
  "peer_on_close v p =
     (let c = pe_conn p in
      if cn_closed c then p
      else puts [Sys (VoiceInputDevice False),
                 ToCm (ConnectionClosed ((cn_chat_unanswered c \<or> cn_file_transferred c \<and> le_flutter (pv_login v))
                   \<and> \<not> is_mobile (pv_os v)))]
             (on_login (\<lambda>c. c\<lparr>cn_closed := True, cn_port_forward_socket := False\<rparr>) p))"

fun on_misc :: "peer_env \<Rightarrow> misc_message \<Rightarrow> peer \<Rightarrow> bool \<times> peer" where
  "on_misc v (MiscSwitchDisplay d width height) p = (True, handle_switch_display v d width height p)"
| "on_misc v (MiscCaptureDisplays add sub sets) p =
     (True, peer_capture_displays (map usize_of add) (map usize_of sub) (map usize_of sets) p)"
| "on_misc v (MiscToggleVirtualDisplay d on) p = (True, toggle_virtual_display v d on p)"
| "on_misc v (MiscTogglePrivacyMode on key) p = (True, toggle_privacy_mode v on key p)"
| "on_misc v (MiscChat text) p =
     (True, update_auto_disconnect_timer v
       (puts [ToCm (ChatToCm text)] (on_login (\<lambda>c. c\<lparr>cn_chat_unanswered := True\<rparr>) p)))"
| "on_misc v (MiscOption o') p = (True, update_options v o' p)"
| "on_misc v (MiscRefreshVideo r) p =
     (True, update_auto_disconnect_timer v (if r then refresh_video_display None p else p))"
| "on_misc v (MiscRefreshVideoDisplay d) p =
     (True, update_auto_disconnect_timer v (refresh_video_display (Some (usize_of d)) p))"
| "on_misc v MiscVideoReceived p = (True, puts [ToVideo FrameFetched] p)"
| "on_misc v MiscRestartRemoteDevice p =
     (True, if \<not> is_mobile (pv_os v) \<and> rt_restart (pe_rights p) then puts [Sys Reboot] p else p)"
| "on_misc v (MiscElevationRequest el) p =
     (True, if pv_os v = Windows \<and> el \<noteq> ElevationUnknown then handle_elevation_request v el p else p)"
| "on_misc v (MiscAudioFormat fmt) p =
     (True, if \<not> rt_disable_audio (pe_rights p)
            then puts [Sys (PlayFormat fmt)] (p\<lparr>pe_audio_sender := True\<rparr>) else p)"
| "on_misc v (MiscSwitchSidesRequest uuid) p =
     (if le_flutter (pv_login v) \<and> length uuid = 16 then
        (False, peer_on_close v (puts [Sys (SwitchSides uuid)] p))
      else (True, p))"
| "on_misc v (MiscChangeResolution width height) p =
     (True, if is_mobile (pv_os v) then p else change_resolution v None width height p)"
| "on_misc v (MiscChangeDisplayResolution d width height) p =
     (True, if is_mobile (pv_os v) then p else change_resolution v (Some (usize_of d)) width height p)"
| "on_misc v (MiscAutoAdjustFps fps) p = (True, puts [ToVideo (QosAutoAdjustFps fps)] p)"
| "on_misc v (MiscClientRecordStatus b) p = (True, puts [ToVideo (QosRecord b)] p)"
| "on_misc v (MiscSelectedSid sid) p = on_selected_sid v sid p"
| "on_misc v (MiscMessageQuery d) p =
     (True, if pv_display_known v (video_source_of p) (usize_of d)
            then puts [ToPeer (SendDisplayChanged (usize_of d))] p else p)"
| "on_misc v MiscOther p = (True, p)"

fun do_message :: "peer_env \<Rightarrow> peer_message \<Rightarrow> peer \<Rightarrow> (bool \<times> peer) option" where
  "do_message v (MouseEvent me) p = Some (True, on_mouse_event v me p)"
| "do_message v (PointerDeviceEvent pde) p = Some (True, on_pointer_event v pde p)"
| "do_message v (KeyEvent me) p = Some (True, on_key_event v me p)"
| "do_message v (Clipboard cb) p = Some (True, on_clipboard v cb p)"
| "do_message v (MultiClipboards cbs) p = Some (True, on_multi_clipboards v cbs p)"
| "do_message v (Cliprdr clip) p = Some (True, on_cliprdr v clip p)"
| "do_message v (FileAction fa) p = map_option (\<lambda>p. (True, p)) (peer_file_action v fa p)"
| "do_message v (FileResponse fr) p = Some (True, peer_file_response fr p)"
| "do_message v (PeerMisc m) p = Some (on_misc v m p)"
| "do_message v (AudioFrame n) p =
     Some (True, if \<not> rt_disable_audio (pe_rights p) \<and> pe_audio_sender p then puts [Sys (PlayFrame n)] p else p)"
| "do_message v (VoiceCallRequest is_connect ts) p =
     Some (True, if is_connect
                 then puts [ToCm VoiceCallIncoming] (p\<lparr>pe_voice_request := Some (if ts = 0 then pv_time v else ts)\<rparr>)
                 else close_voice_call p)"
| "do_message v VoiceCallResponse p = Some (True, p)"
| "do_message v (ScreenshotRequest d sid) p =
     Some (True, if ci_tx (pe_inner p)
                 then refresh_video_display (Some (usize_of d)) (puts [ToVideo (TakeScreenshot (usize_of d) sid)] p)
                 else p)"
| "do_message v (PeerTerminalAction a) p =
     Some (True, if is_mobile (pv_os v) \<or> cn_terminal_user_token (pe_conn p) = None then p
                 else case pv_terminal v a of Some r \<Rightarrow> puts [ToPeer (SendTerminalResponse r)] p | None \<Rightarrow> p)"
| "do_message v OtherMessage p = Some (True, p)"

definition on_peer_message :: "peer_env \<Rightarrow> peer_message \<Rightarrow> peer \<Rightarrow> (bool \<times> peer) option" where
  "on_peer_message v m p =
     (if \<not> cn_authorized (pe_conn p) \<or> cn_port_forward_socket (pe_conn p) then Some (True, p)
      else do_message v m p)"

section \<open>The input thread\<close>

text \<open>
  \<open>handle_input\<close>: the state is whether input is blocked; \<open>block_input\<close> is the answer of the system, and a
  timeout of half a second repeats the blocking. An effect is what the thread makes the system do or send.
\<close>

datatype input_effect =
    PlayMouse mouse_event i32 string u32 bool bool
  | PlayKey key_event
  | PlayPointer "touch_event option" i32
  | CallBlockInput bool
  | ReportBlockInput block_input_state string

fun handle_input_message :: "(bool \<Rightarrow> bool \<times> string) \<Rightarrow> message_input \<Rightarrow> bool \<Rightarrow> bool \<times> input_effect list" where
  "handle_input_message block_input (InputMouse me i name argb simulate show) mode =
     (mode, [PlayMouse me i name argb simulate show])"
| "handle_input_message block_input (InputKey me press) mode =
     (mode, let me = me\<lparr>ke_press := False\<rparr> in
            if press then [PlayKey (me\<lparr>ke_down := True\<rparr>), PlayKey (me\<lparr>ke_down := False\<rparr>)] else [PlayKey me])"
| "handle_input_message block_input (InputPointer pde i) mode = (mode, [PlayPointer pde i])"
| "handle_input_message block_input BlockOn mode =
     (let (ok, msg) = block_input True
      in if ok then (True, [CallBlockInput True]) else (mode, [CallBlockInput True, ReportBlockInput BlkOnFailed msg]))"
| "handle_input_message block_input BlockOff mode =
     (let (ok, msg) = block_input False
      in if ok then (False, [CallBlockInput False]) else (mode, [CallBlockInput False, ReportBlockInput BlkOffFailed msg]))"

definition handle_input_timeout :: "bool \<Rightarrow> input_effect list" where
  "handle_input_timeout mode = (if mode then [CallBlockInput True] else [])"

fun handle_input :: "(bool \<Rightarrow> bool \<times> string) \<Rightarrow> message_input option list \<Rightarrow> bool \<Rightarrow> bool \<times> input_effect list" where
  "handle_input block_input [] mode = (mode, handle_input_timeout mode)"
| "handle_input block_input (None # ms) mode =
     (let (mode', es) = handle_input block_input ms mode in (mode', handle_input_timeout mode @ es))"
| "handle_input block_input (Some m # ms) mode =
     (let (mode1, es1) = handle_input_message block_input m mode;
          (mode2, es2) = handle_input block_input ms mode1
      in (mode2, es1 @ es2))"

end
