(* ===== verification/Peer_Safety.thy ===== *)
theory Peer_Safety
  imports Peer_Messages
begin

text \<open>
  A peer has no more than it may have: an invariant of every connection over all its messages, the
  permissions the user gives and takes, the log-on and the doings of other connections; what reaches the
  input thread and the clipboard; and where rights are missing that one would expect.
\<close>

section \<open>Subscriptions\<close>

text \<open>Whether the connection of the peer is subscribed to a service.\<close>

definition subed :: "peer \<Rightarrow> string \<Rightarrow> bool" where
  "subed p name \<longleftrightarrow> subed_to (pe_server p) name (ci_id (pe_inner p))"

lemmas service_names = NAME_CLIPBOARD_def NAME_FILE_CLIPBOARD_def NAME_AUDIO_def NAME_CURSOR_def NAME_POS_def
  NAME_WINDOW_FOCUS_def

definition right_names :: "string set" where
  "right_names = {NAME_CLIPBOARD, NAME_FILE_CLIPBOARD, NAME_AUDIO, NAME_CURSOR, NAME_POS, NAME_WINDOW_FOCUS}"

lemma right_names_not_video: "name \<in> right_names \<Longrightarrow> \<not> is_video_service_name name"
  by (auto simp: right_names_def service_names is_video_service_name_def starts_with_def)

lemma right_names_members [simp]:
  "NAME_CLIPBOARD \<in> right_names" "NAME_FILE_CLIPBOARD \<in> right_names" "NAME_AUDIO \<in> right_names"
  "NAME_CURSOR \<in> right_names" "NAME_POS \<in> right_names" "NAME_WINDOW_FOCUS \<in> right_names"
  by (simp_all add: right_names_def)

text \<open>
  No subscription without a right: the permission of the user and the wish of the peer for the clipboard, for
  audio, for the cursor, for its position and for the focus of windows. A connection for the camera or a
  terminal loses its keyboard after the subscriptions were made, so the keyboard does not count there.
\<close>

definition keyboardless :: "peer \<Rightarrow> bool" where
  "keyboardless p \<longleftrightarrow> cn_view_camera (pe_conn p) \<or> cn_terminal (pe_conn p)"

definition allowed :: "peer_env \<Rightarrow> peer \<Rightarrow> string \<Rightarrow> bool" where
  "allowed v p n \<longleftrightarrow>
     (n = NAME_CLIPBOARD \<longrightarrow> clipboard_enabled p \<and> (peer_keyboard_enabled p \<or> keyboardless p)
        \<and> \<not> builtin_is (pv_app v) ''one-way-clipboard-redirection'' ''Y'')
     \<and> (n = NAME_FILE_CLIPBOARD \<longrightarrow> pv_unix_clip v \<longrightarrow>
          file_transfer_enabled p \<and> \<not> builtin_is (pv_app v) ''one-way-file-transfer'' ''Y'')
     \<and> (n = NAME_AUDIO \<longrightarrow> audio_enabled p \<and> cn_authorized (pe_conn p) \<and> (is_authed ViewCamera p \<longrightarrow> pe_voice_calling p))
     \<and> (n = NAME_CURSOR \<longrightarrow> cn_keyboard (pe_conn p) \<or> rt_show_remote_cursor (pe_rights p) \<or> keyboardless p)
     \<and> (n = NAME_POS \<longrightarrow> rt_show_remote_cursor (pe_rights p))
     \<and> (n = NAME_WINDOW_FOCUS \<longrightarrow> rt_follow_remote_window (pe_rights p))"

text \<open>The invariant, but for the services in \<open>T\<close> an operation has still to put right.\<close>

definition inv_except :: "string set \<Rightarrow> peer_env \<Rightarrow> peer \<Rightarrow> bool" where
  "inv_except T v p \<longleftrightarrow> server_wf (pe_server p) \<and> (\<forall>n. n \<notin> T \<longrightarrow> subed p n \<longrightarrow> allowed v p n)
     \<and> (is_authed ViewCamera p \<longrightarrow> cn_authorized (pe_conn p) \<and> cn_view_camera (pe_conn p))"

abbreviation peer_inv :: "peer_env \<Rightarrow> peer \<Rightarrow> bool" where
  "peer_inv \<equiv> inv_except {}"

text \<open>Two states with the same rights and the same subscriptions.\<close>

definition same_rights :: "peer \<Rightarrow> peer \<Rightarrow> bool" where
  "same_rights p p' \<longleftrightarrow>
     pe_inner p' = pe_inner p \<and> pe_server p' = pe_server p \<and> pe_rights p' = pe_rights p
     \<and> nf_file (pe_files p') = nf_file (pe_files p) \<and> pe_voice_calling p' = pe_voice_calling p
     \<and> cn_keyboard (pe_conn p') = cn_keyboard (pe_conn p) \<and> cn_authorized (pe_conn p') = cn_authorized (pe_conn p)
     \<and> cn_authed_conn (pe_conn p') = cn_authed_conn (pe_conn p)
     \<and> cn_view_camera (pe_conn p') = cn_view_camera (pe_conn p) \<and> cn_terminal (pe_conn p') = cn_terminal (pe_conn p)"

lemmas right_defs = subed_def peer_keyboard_enabled_def clipboard_enabled_def can_sub_clipboard_service_def
  audio_enabled_def file_transfer_enabled_def can_sub_file_clipboard_service_def is_authed_def keyboardless_def

lemma same_rights_refl [simp]: "same_rights p p"
  by (simp add: same_rights_def)

lemma same_rights_trans: "same_rights p p' \<Longrightarrow> same_rights p' p'' \<Longrightarrow> same_rights p p''"
  by (simp add: same_rights_def)

lemma same_rights_inv: "same_rights p p' \<Longrightarrow> inv_except T v p' = inv_except T v p"
  by (simp add: inv_except_def allowed_def same_rights_def right_defs)

lemma same_rights_updates [simp]:
  "same_rights p (puts os p') = same_rights p p'"
  "same_rights p (p'\<lparr>pe_click_time := a\<rparr>) = same_rights p p'"
  "same_rights p (p'\<lparr>pe_mouse_move_time := a\<rparr>) = same_rights p p'"
  "same_rights p (p'\<lparr>pe_pressed := ks\<rparr>) = same_rights p p'"
  "same_rights p (p'\<lparr>pe_audio_sender := b\<rparr>) = same_rights p p'"
  "same_rights p (p'\<lparr>pe_voice_request := r\<rparr>) = same_rights p p'"
  "same_rights p (p'\<lparr>pe_disconnect_timer := d\<rparr>) = same_rights p p'"
  "same_rights p (p'\<lparr>pe_privacy := m\<rparr>) = same_rights p p'"
  "same_rights p (p'\<lparr>pe_privacy_world := w\<rparr>) = same_rights p p'"
  "same_rights p (p'\<lparr>pe_multi_ui_session := b\<rparr>) = same_rights p p'"
  "same_rights p (update_auto_disconnect_timer v p') = same_rights p p'"
  by (simp_all add: same_rights_def puts_def update_auto_disconnect_timer_def)

text \<open>A change of one subscription.\<close>

lemma subscribe_fields [simp]:
  "pe_inner (subscribe name b p) = pe_inner p" "pe_rights (subscribe name b p) = pe_rights p"
  "pe_conn (subscribe name b p) = pe_conn p" "pe_files (subscribe name b p) = pe_files p"
  "pe_voice_calling (subscribe name b p) = pe_voice_calling p"
  by (simp_all add: subscribe_def)

lemma subscribe_enabled [simp]:
  "peer_keyboard_enabled (subscribe name b p) = peer_keyboard_enabled p"
  "clipboard_enabled (subscribe name b p) = clipboard_enabled p"
  "can_sub_clipboard_service v (subscribe name b p) = can_sub_clipboard_service v p"
  "audio_enabled (subscribe name b p) = audio_enabled p"
  "file_transfer_enabled (subscribe name b p) = file_transfer_enabled p"
  "can_sub_file_clipboard_service v (subscribe name b p) = can_sub_file_clipboard_service v p"
  "is_authed t (subscribe name b p) = is_authed t p" "keyboardless (subscribe name b p) = keyboardless p"
  by (simp_all add: peer_keyboard_enabled_def clipboard_enabled_def can_sub_clipboard_service_def
      audio_enabled_def file_transfer_enabled_def can_sub_file_clipboard_service_def is_authed_def keyboardless_def)

lemma subscribe_wf: "server_wf (pe_server p) \<Longrightarrow> server_wf (pe_server (subscribe name b p))"
  by (simp add: subscribe_def srv_subscribe_wf)

lemma subed_subscribe:
  assumes "server_wf (pe_server p)"
  shows "subed (subscribe name b p) n
    \<longleftrightarrow> (if n = name then b \<and> srv_contains (pe_server p) name else subed p n)"
  using subed_to_subscribe [OF assms] subed_to_contains
  by (auto simp: subed_def subscribe_def)

lemma puts_fields [simp]:
  "pe_inner (puts os p) = pe_inner p" "pe_rights (puts os p) = pe_rights p" "pe_conn (puts os p) = pe_conn p"
  "pe_files (puts os p) = pe_files p" "pe_voice_calling (puts os p) = pe_voice_calling p"
  "pe_server (puts os p) = pe_server p"
  by (simp_all add: puts_def)

lemma subed_updates [simp]:
  "subed (puts os p) n = subed p n" "subed (p\<lparr>pe_rights := r\<rparr>) n = subed p n"
  "subed (p\<lparr>pe_conn := c\<rparr>) n = subed p n" "subed (p\<lparr>pe_files := f\<rparr>) n = subed p n"
  "subed (p\<lparr>pe_voice_calling := b\<rparr>) n = subed p n" "subed (p\<lparr>pe_voice_request := r'\<rparr>) n = subed p n"
  by (simp_all add: subed_def)

text \<open>What an operation has to show: the services it touches, and that the rest is as it was.\<close>

lemmas right_rules = peer_keyboard_enabled_def clipboard_enabled_def can_sub_clipboard_service_def
  audio_enabled_def file_transfer_enabled_def can_sub_file_clipboard_service_def is_authed_def keyboardless_def

lemma subscribe_file_clipboard_simps [simp]:
  "pe_inner (subscribe_file_clipboard v p) = pe_inner p" "pe_rights (subscribe_file_clipboard v p) = pe_rights p"
  "pe_conn (subscribe_file_clipboard v p) = pe_conn p" "pe_files (subscribe_file_clipboard v p) = pe_files p"
  "pe_voice_calling (subscribe_file_clipboard v p) = pe_voice_calling p"
  "peer_keyboard_enabled (subscribe_file_clipboard v p) = peer_keyboard_enabled p"
  "can_sub_clipboard_service v (subscribe_file_clipboard v p) = can_sub_clipboard_service v p"
  by (simp_all add: subscribe_file_clipboard_def)

lemma subed_subscribe_file_clipboard:
  assumes "server_wf (pe_server p)"
  shows "server_wf (pe_server (subscribe_file_clipboard v p))"
    "subed (subscribe_file_clipboard v p) n
     \<longleftrightarrow> (if n = NAME_FILE_CLIPBOARD \<and> pv_unix_clip v
         then can_sub_file_clipboard_service v p \<and> srv_contains (pe_server p) NAME_FILE_CLIPBOARD else subed p n)"
  using assms by (auto simp: subscribe_file_clipboard_def subed_subscribe subscribe_wf)

lemma contains_subscribe [simp]:
  "srv_contains (pe_server (subscribe name b p)) n = srv_contains (pe_server p) n"
  by (simp add: subscribe_def)

text \<open>Rules for the steps of an operation: a change of the rights, then the subscriptions it affects.\<close>

lemma inv_change:
  assumes "inv_except T v p" "pe_server p' = pe_server p" "pe_inner p' = pe_inner p"
    "\<And>n. n \<notin> T' \<Longrightarrow> n \<notin> T \<and> (allowed v p n \<longrightarrow> allowed v p' n)"
    "cn_authed_conn (pe_conn p') = cn_authed_conn (pe_conn p)" "cn_authorized (pe_conn p') = cn_authorized (pe_conn p)"
    "cn_view_camera (pe_conn p') = cn_view_camera (pe_conn p)"
  shows "inv_except T' v p'"
  using assms by (auto simp: inv_except_def subed_def is_authed_def)

lemma inv_subscribe:
  assumes "inv_except (insert name T) v p" "b \<Longrightarrow> allowed v p name"
  shows "inv_except T v (subscribe name b p)"
proof -
  have "allowed v (subscribe name b p) n = allowed v p n" for n by (simp add: allowed_def)
  then show ?thesis
    using assms by (auto simp: inv_except_def subscribe_wf subed_subscribe)
qed

lemma allowed_at:
  "allowed v p NAME_CLIPBOARD \<longleftrightarrow> clipboard_enabled p \<and> (peer_keyboard_enabled p \<or> keyboardless p)
     \<and> \<not> builtin_is (pv_app v) ''one-way-clipboard-redirection'' ''Y''"
  "allowed v p NAME_FILE_CLIPBOARD \<longleftrightarrow> (pv_unix_clip v \<longrightarrow>
     file_transfer_enabled p \<and> \<not> builtin_is (pv_app v) ''one-way-file-transfer'' ''Y'')"
  "allowed v p NAME_AUDIO \<longleftrightarrow> audio_enabled p \<and> cn_authorized (pe_conn p) \<and> (is_authed ViewCamera p \<longrightarrow> pe_voice_calling p)"
  "allowed v p NAME_CURSOR \<longleftrightarrow> cn_keyboard (pe_conn p) \<or> rt_show_remote_cursor (pe_rights p) \<or> keyboardless p"
  "allowed v p NAME_POS \<longleftrightarrow> rt_show_remote_cursor (pe_rights p)"
  "allowed v p NAME_WINDOW_FOCUS \<longleftrightarrow> rt_follow_remote_window (pe_rights p)"
  by (auto simp: allowed_def service_names)

lemma inv_except_drop:
  "inv_except (insert n T) v p \<Longrightarrow> (subed p n \<Longrightarrow> allowed v p n) \<Longrightarrow> inv_except T v p"
  unfolding inv_except_def by (metis insertE)

lemma inv_subscribe_file_clipboard:
  assumes "inv_except (insert NAME_FILE_CLIPBOARD T) v p"
  shows "inv_except T v (subscribe_file_clipboard v p)"
proof (cases "pv_unix_clip v")
  case True
  with assms show ?thesis
    by (simp add: subscribe_file_clipboard_def)
      (intro inv_subscribe, auto simp: allowed_at can_sub_file_clipboard_service_def)
next
  case False
  with inv_except_drop [OF assms] show ?thesis by (simp add: subscribe_file_clipboard_def allowed_at)
qed

lemma inv_weaken: "inv_except T v p \<Longrightarrow> T \<subseteq> T' \<Longrightarrow> inv_except T' v p"
  by (auto simp: inv_except_def)

lemma inv_subscribe_audio:
  assumes "inv_except (insert NAME_AUDIO T) v p" "cn_authorized (pe_conn p)"
    "is_authed ViewCamera p \<Longrightarrow> \<not> pe_voice_calling p \<Longrightarrow> \<not> subed p NAME_AUDIO"
  shows "inv_except T v (subscribe_audio p)"
proof (cases "is_authed ViewCamera p \<and> \<not> pe_voice_calling p \<and> audio_enabled p")
  case True
  with assms(3) have "\<not> subed p NAME_AUDIO" by simp
  moreover from True have "subscribe_audio p = p" by (simp add: subscribe_audio_def)
  ultimately show ?thesis using assms(1) by (simp add: inv_except_def) (metis insertE)
next
  case False
  then have "subscribe_audio p = subscribe NAME_AUDIO (audio_enabled p) p" by (auto simp: subscribe_audio_def)
  with False assms(1,2) show ?thesis
    by (auto simp: allowed_at intro!: inv_subscribe)
qed

lemma camera_silent: "inv_except T v p \<Longrightarrow> NAME_AUDIO \<notin> T \<Longrightarrow> is_authed ViewCamera p \<Longrightarrow> \<not> pe_voice_calling p
  \<Longrightarrow> \<not> subed p NAME_AUDIO"
  by (auto simp: inv_except_def allowed_at)

lemma permission_keeps:
  assumes "peer_inv v p"
  shows "peer_inv v (switch_permission v name b p)"
proof -
  consider "name = ''keyboard''" | "name = ''clipboard''" | "name = ''audio''" | "name = ''file''"
    | "name \<notin> {''keyboard'', ''clipboard'', ''audio'', ''file''}" by blast
  then show ?thesis
  proof cases
    case 1
    define q where "q = puts [ToPeer (SendPermission PiKeyboard b)] (on_login (\<lambda>c. c\<lparr>cn_keyboard := b\<rparr>) p)"
    have k: "cn_keyboard (pe_conn q) = b" by (simp add: q_def)
    have "inv_except {NAME_CURSOR, NAME_FILE_CLIPBOARD, NAME_CLIPBOARD} v q"
      using assms by (rule inv_change) (auto simp: q_def allowed_def right_rules)
    then have "inv_except {NAME_CURSOR, NAME_FILE_CLIPBOARD} v (subscribe NAME_CLIPBOARD (can_sub_clipboard_service v q) q)"
      by (intro inv_subscribe) (auto simp: insert_commute allowed_at can_sub_clipboard_service_def)
    then have "inv_except {NAME_CURSOR} v (subscribe_file_clipboard v (subscribe NAME_CLIPBOARD (can_sub_clipboard_service v q) q))"
      by (intro inv_subscribe_file_clipboard) (simp add: insert_commute)
    then show ?thesis
      using 1 k by (simp add: switch_permission_def Let_def q_def)
        (intro inv_subscribe; auto simp: allowed_at keyboardless_def)
  next
    case 2
    define q where "q = puts [ToPeer (SendPermission PiClipboard b)] (on_rights (\<lambda>r. r\<lparr>rt_clipboard := b\<rparr>) p)"
    have "inv_except {NAME_CLIPBOARD} v q"
      using assms by (rule inv_change) (auto simp: q_def allowed_def right_rules)
    then show ?thesis
      using 2 by (simp add: switch_permission_def Let_def q_def)
        (intro inv_subscribe; auto simp: allowed_at can_sub_clipboard_service_def)
  next
    case 3
    define q where "q = puts [ToPeer (SendPermission PiAudio b)] (on_rights (\<lambda>r. r\<lparr>rt_audio := b\<rparr>) p)"
    have q: "inv_except {NAME_AUDIO} v q"
      using assms by (rule inv_change) (auto simp: q_def allowed_def right_rules)
    show ?thesis
    proof (cases "cn_authorized (pe_conn p)")
      case True
      with q have "peer_inv v (subscribe_audio q)"
        using camera_silent [OF assms] by (intro inv_subscribe_audio) (auto simp: q_def is_authed_def)
      with True 3 show ?thesis by (simp add: switch_permission_def Let_def q_def)
    next
      case False
      with assms have "\<not> subed p NAME_AUDIO" by (auto simp: inv_except_def allowed_at)
      with inv_except_drop [OF q] have "peer_inv v q" by (simp add: q_def)
      with False 3 show ?thesis by (simp add: switch_permission_def Let_def q_def)
    qed
  next
    case 4
    define q where "q = puts [ToPeer (SendPermission PiFile b)] (p\<lparr>pe_files := (pe_files p)\<lparr>nf_file := b\<rparr>\<rparr>)"
    define r where "r = (if pv_unix_clip v \<and> \<not> b then puts [Clip EmptyFileClipboard] q else q)"
    have q: "inv_except (if pv_unix_clip v then {NAME_FILE_CLIPBOARD} else {}) v r"
      using assms by (rule inv_change) (auto simp: q_def r_def allowed_def right_rules service_names split: if_splits)
    then have "peer_inv v (subscribe_file_clipboard v r)"
      by (intro inv_subscribe_file_clipboard) (auto intro: inv_weaken split: if_splits)
    moreover have "switch_permission v name b p = subscribe_file_clipboard v r"
      using 4 by (simp add: switch_permission_def Let_def q_def r_def)
    ultimately show ?thesis by simp
  next
    case 5
    have other: "peer_inv v (puts os (on_rights (rt_restart_update (\<lambda>_. b)) p))"
      "peer_inv v (puts os (on_rights (rt_recording_update (\<lambda>_. b)) p))"
      "peer_inv v (puts os (on_rights (rt_block_input_update (\<lambda>_. b)) p))" for os
      by (rule inv_change [OF assms]; simp add: allowed_def right_rules)+
    show ?thesis using 5 assms other by (simp add: switch_permission_def)
  qed
qed

section \<open>Options, displays and calls keep the invariant\<close>

lemma when_given_inv:
  assumes "inv_except T v p" "\<And>b. inv_except T v (f b p)"
  shows "inv_except T v (when_given q f p)"
  using assms by (cases "given q") (simp_all add: when_given_def)

lemma quality_keeps: "same_rights p (update_quality o' p)"
  by (simp add: update_quality_def Let_def)

lemma cursor_options_keep:
  assumes "peer_inv v p"
  shows "peer_inv v (update_cursor_options v o' p)"
proof -
  have show_cursor: "peer_inv v (subscribe NAME_POS b (subscribe NAME_CURSOR (peer_keyboard_enabled q \<or> b) q))"
    if "q = on_rights (\<lambda>r. r\<lparr>rt_show_remote_cursor := b\<rparr>) p" for b q
  proof -
    have "inv_except {NAME_POS, NAME_CURSOR} v q"
      using assms by (rule inv_change) (auto simp: that allowed_def right_rules)
    then show ?thesis
      by (intro inv_subscribe; auto simp: insert_commute allowed_at peer_keyboard_enabled_def that)
  qed
  have follow: "peer_inv v (on_rights (\<lambda>r. r\<lparr>rt_follow_remote_cursor := b\<rparr>) q)" if "peer_inv v q" for b q
    using that by (rule inv_change) (auto simp: allowed_def right_rules)
  have window: "peer_inv v (subscribe NAME_WINDOW_FOCUS b (on_rights (\<lambda>r. r\<lparr>rt_follow_remote_window := b\<rparr>) q))"
    if "peer_inv v q" for b q
  proof -
    have "inv_except {NAME_WINDOW_FOCUS} v (on_rights (\<lambda>r. r\<lparr>rt_follow_remote_window := b\<rparr>) q)"
      using that by (rule inv_change) (auto simp: allowed_def right_rules)
    then show ?thesis by (rule inv_subscribe) (simp add: allowed_at)
  qed
  show ?thesis
    unfolding update_cursor_options_def Let_def
    by (intro when_given_inv window [OF _] assms; cases "is_mobile (pv_os v)";
        (simp only: if_True if_False)?; intro when_given_inv window follow show_cursor [OF refl] assms)
qed

lemma audio_option_keeps:
  assumes "peer_inv v p" "cn_authorized (pe_conn p)"
  shows "peer_inv v (subscribe_audio (on_rights (\<lambda>r. r\<lparr>rt_disable_audio := b\<rparr>) p))"
proof -
  have "inv_except {NAME_AUDIO} v (on_rights (\<lambda>r. r\<lparr>rt_disable_audio := b\<rparr>) p)"
    using assms(1) by (rule inv_change) (auto simp: allowed_def right_rules)
  then show ?thesis
    using assms(2) camera_silent [OF assms(1)] by (intro inv_subscribe_audio) (auto simp: is_authed_def)
qed

lemma file_option_keeps:
  assumes "peer_inv v p"
  shows "peer_inv v (update_file_option v o' p)"
proof -
  have fil: "peer_inv v (subscribe_file_clipboard v
      (if pv_unix_clip v \<and> \<not> b then puts [Clip EmptyFileClipboard] q else q))"
    if "q = (if pv_os v = Windows then puts os (on_rights (\<lambda>r. r\<lparr>rt_enable_file_transfer := b\<rparr>) p)
             else on_rights (\<lambda>r. r\<lparr>rt_enable_file_transfer := b\<rparr>) p)" for b q os
  proof -
    have "inv_except {NAME_FILE_CLIPBOARD} v (if pv_unix_clip v \<and> \<not> b then puts [Clip EmptyFileClipboard] q else q)"
      using assms by (rule inv_change) (auto simp: that allowed_def right_rules)
    then show ?thesis by (rule inv_subscribe_file_clipboard)
  qed
  show ?thesis
    unfolding update_file_option_def Let_def
    by (cases "pv_os v = Windows \<or> pv_unix_clip v"; simp only: if_True if_False;
        intro when_given_inv fil [OF refl] assms)
qed

lemma input_options_keep:
  assumes "peer_inv v p"
  shows "peer_inv v (update_input_options v o' p)"
proof -
  have clip: "peer_inv v (subscribe NAME_CLIPBOARD (can_sub_clipboard_service v q) q)"
    if "q = on_rights (\<lambda>r. r\<lparr>rt_disable_clipboard := b\<rparr>) p'" "peer_inv v p'" for b q p'
  proof -
    have "inv_except {NAME_CLIPBOARD} v q"
      using that(2) by (rule inv_change) (auto simp: that(1) allowed_def right_rules)
    then show ?thesis by (rule inv_subscribe) (auto simp: allowed_at can_sub_clipboard_service_def)
  qed
  have keyb: "peer_inv v (subscribe NAME_CURSOR
      (peer_keyboard_enabled (subscribe_file_clipboard v (subscribe NAME_CLIPBOARD (can_sub_clipboard_service v q) q))
       \<or> rt_show_remote_cursor (pe_rights (subscribe_file_clipboard v
           (subscribe NAME_CLIPBOARD (can_sub_clipboard_service v q) q))))
      (subscribe_file_clipboard v (subscribe NAME_CLIPBOARD (can_sub_clipboard_service v q) q)))"
    if "q = on_rights (\<lambda>r. r\<lparr>rt_disable_keyboard := b\<rparr>) p'" "peer_inv v p'" for b q p'
  proof -
    have "inv_except {NAME_CURSOR, NAME_FILE_CLIPBOARD, NAME_CLIPBOARD} v q"
      using that(2) by (rule inv_change) (auto simp: that(1) allowed_def right_rules)
    then have "inv_except {NAME_CURSOR, NAME_FILE_CLIPBOARD} v (subscribe NAME_CLIPBOARD (can_sub_clipboard_service v q) q)"
      by (intro inv_subscribe) (auto simp: insert_commute allowed_at can_sub_clipboard_service_def)
    then have "inv_except {NAME_CURSOR} v (subscribe_file_clipboard v (subscribe NAME_CLIPBOARD (can_sub_clipboard_service v q) q))"
      by (intro inv_subscribe_file_clipboard) (simp add: insert_commute)
    then show ?thesis by (rule inv_subscribe) (auto simp: allowed_at peer_keyboard_enabled_def)
  qed
  show ?thesis
    unfolding update_input_options_def Let_def
    by (intro when_given_inv keyb [OF refl] clip [OF refl] assms)
qed

lemma when_given_same: "same_rights p q \<Longrightarrow> (\<And>b. same_rights p (f b q)) \<Longrightarrow> same_rights p (when_given o' f q)"
  by (cases "given o'") (simp_all add: when_given_def)

text \<open>The privacy mode changes its own state and tells the peer.\<close>

definition privacy_only :: "peer \<Rightarrow> peer \<Rightarrow> bool" where
  "privacy_only p q \<longleftrightarrow> (\<exists>os s w. q = p\<lparr>pe_privacy := s, pe_privacy_world := w, pe_out := pe_out p @ os\<rparr>
     \<and> (\<forall>x \<in> set os. \<exists>n text key. x = ToPeer (SendPrivacy n text key)))"

lemma privacy_only_refl [simp]: "privacy_only p p"
  unfolding privacy_only_def by (rule exI [of _ "[]"], rule exI [of _ "pe_privacy p"], rule exI [of _ "pe_privacy_world p"]) simp

lemma privacy_only_updates [simp]:
  assumes "privacy_only p q"
  shows "privacy_only p (q\<lparr>pe_privacy := s\<rparr>)" "privacy_only p (q\<lparr>pe_privacy_world := w\<rparr>)"
    "privacy_only p (puts [ToPeer (SendPrivacy n text key)] q)"
proof -
  from assms obtain os s' w' where q: "q = p\<lparr>pe_privacy := s', pe_privacy_world := w', pe_out := pe_out p @ os\<rparr>"
      "\<forall>x \<in> set os. \<exists>n text key. x = ToPeer (SendPrivacy n text key)"
    unfolding privacy_only_def by blast
  show "privacy_only p (q\<lparr>pe_privacy := s\<rparr>)"
    unfolding privacy_only_def using q by (intro exI [of _ os] exI [of _ s] exI [of _ w']) simp
  show "privacy_only p (q\<lparr>pe_privacy_world := w\<rparr>)"
    unfolding privacy_only_def using q by (intro exI [of _ os] exI [of _ s'] exI [of _ w]) simp
  show "privacy_only p (puts [ToPeer (SendPrivacy n text key)] q)"
    unfolding privacy_only_def
    using q by (intro exI [of _ "os @ [ToPeer (SendPrivacy n text key)]"] exI [of _ s'] exI [of _ w']) (auto simp: puts_def)
qed

lemma privacy_only_off:
  assumes "privacy_only p q"
  shows "privacy_only p (snd (turn_off_privacy_to_msg c q))" "\<exists>n text. fst (turn_off_privacy_to_msg c q) = SendPrivacy n text ''''"
  using assms by (auto simp: turn_off_privacy_to_msg_def Let_def split: prod.split option.split sum.split)

lemma toggle_privacy_only: "privacy_only p (toggle_privacy_mode v on key p)"
proof -
  have notice: "privacy_only p (if is_in_privacy_mode privacy_impls (pe_privacy p) then
      case get_cur_impl_key privacy_impls (pe_privacy p) of None \<Rightarrow> p
      | Some pre \<Rightarrow> if \<not> is_current_privacy_mode_impl privacy_impls pre (pe_privacy p)
                    then puts [ToPeer (SendPrivacy PrvOffSucceeded '''' pre)] p else p
    else p)" (is "privacy_only p ?q") by (simp split: option.split)
  define q where "q = ?q"
  obtain r s w where t: "turn_on_privacy privacy_impls (pv_privacy_in_time v) key (ci_id (pe_inner q)) (pe_privacy q)
      (pe_privacy_world q) = (r, s, w)" by (metis prod_cases3)
  have "privacy_only p (peer_turn_on_privacy v key p)"
  proof (cases "pv_privacy_supported v")
    case True
    show ?thesis
      unfolding peer_turn_on_privacy_def Let_def q_def [symmetric] t prod.case
      using True notice [folded q_def]
      by (cases r) (auto simp: privacy_only_off split: sum.split bool.split)
  qed (simp add: peer_turn_on_privacy_def)
  moreover have "privacy_only p (peer_turn_off_privacy v key p)"
    using privacy_only_off [of p p "ci_id (pe_inner p)"]
    by (auto simp: peer_turn_off_privacy_def split: prod.split)
  ultimately show ?thesis by (simp add: toggle_privacy_mode_def)
qed

lemma toggle_privacy_same: "same_rights p (toggle_privacy_mode v on key p)"
  using toggle_privacy_only [of p v on key] by (auto simp: privacy_only_def same_rights_def)

lemma privacy_option_same: "same_rights p (update_privacy_option v o' p)"
  by (simp add: update_privacy_option_def when_given_same toggle_privacy_same)

lemma block_option_same: "same_rights p (update_block_option o' p)"
  unfolding update_block_option_def by (rule when_given_same) simp_all

lemma login_field_same [simp]:
  "same_rights p (on_login (\<lambda>c. c\<lparr>cn_terminal_persistent := b\<rparr>) p)"
  "same_rights p (on_login (\<lambda>c. c\<lparr>cn_lock_after_session_end := b\<rparr>) p)"
  "same_rights p (on_login (\<lambda>c. c\<lparr>cn_chat_unanswered := b\<rparr>) p)"
  "same_rights p (on_login (\<lambda>c. c\<lparr>cn_closed := b, cn_port_forward_socket := b'\<rparr>) p)"
  by (simp_all add: same_rights_def)

lemma terminal_option_same: "same_rights p (update_terminal_option v o' p)"
  unfolding update_terminal_option_def by (simp add: when_given_same)

lemma whiteboard_option_keeps:
  assumes "peer_inv v p"
  shows "peer_inv v (update_whiteboard_option v o' p)"
proof -
  have "peer_inv v (puts os (on_rights (\<lambda>r. r\<lparr>rt_show_my_cursor := b\<rparr>) p))"
    "peer_inv v (on_rights (\<lambda>r. r\<lparr>rt_show_my_cursor := b\<rparr>) p)" for os b
    by (rule inv_change [OF assms]; simp add: allowed_def right_rules)+
  with assms show ?thesis
    unfolding update_whiteboard_option_def Let_def by (simp add: when_given_inv)
qed

lemma early_stages_conn:
  "pe_conn (update_quality o' p) = pe_conn p" "pe_conn (update_cursor_options v o' p) = pe_conn p"
  "cn_authorized (pe_conn (when_given q (\<lambda>b. on_login (\<lambda>c. c\<lparr>cn_lock_after_session_end := b\<rparr>)) p)) = cn_authorized (pe_conn p)"
proof -
  show "pe_conn (update_quality o' p) = pe_conn p" by (simp add: update_quality_def Let_def)
  show "cn_authorized (pe_conn (when_given q (\<lambda>b. on_login (\<lambda>c. c\<lparr>cn_lock_after_session_end := b\<rparr>)) p)) = cn_authorized (pe_conn p)"
    by (cases "given q") (simp_all add: when_given_def)
  show "pe_conn (update_cursor_options v o' p) = pe_conn p"
    by (cases "given (om_show_remote_cursor o')"; cases "given (om_follow_remote_cursor o')";
        cases "given (om_follow_remote_window o')")
      (simp_all add: update_cursor_options_def when_given_def Let_def)
qed

lemma options_keep:
  assumes "peer_inv v p" "cn_authorized (pe_conn p)"
  shows "peer_inv v (update_options v o' p)"
proof -
  define p1 where "p1 = update_quality o' p"
  define p2 where "p2 = when_given (om_lock_after_session_end o') (\<lambda>b. on_login (\<lambda>c. c\<lparr>cn_lock_after_session_end := b\<rparr>)) p1"
  define p3 where "p3 = update_cursor_options v o' p2"
  define p4 where "p4 = when_given (om_disable_audio o') (\<lambda>b p. subscribe_audio (on_rights (\<lambda>r. r\<lparr>rt_disable_audio := b\<rparr>) p)) p3"
  define p5 where "p5 = update_input_options v o' (update_file_option v o' p4)"
  have a3: "cn_authorized (pe_conn p3)"
    using assms(2) by (simp add: p3_def p2_def p1_def early_stages_conn)
  have "peer_inv v p1" using assms(1) same_rights_inv [OF quality_keeps] by (simp add: p1_def)
  moreover have "same_rights p1 p2" unfolding p2_def by (rule when_given_same) simp_all
  ultimately have "peer_inv v p3"
    using same_rights_inv [of p1 p2] by (simp add: p3_def cursor_options_keep)
  then have "peer_inv v p4"
    unfolding p4_def using a3 by (intro when_given_inv audio_option_keeps)
  then have "peer_inv v p5" by (simp add: p5_def input_options_keep file_option_keeps)
  then have "peer_inv v (update_terminal_option v o' (update_block_option o' (update_privacy_option v o' p5)))"
    using same_rights_inv [OF privacy_option_same] same_rights_inv [OF block_option_same]
      same_rights_inv [OF terminal_option_same] by simp
  moreover have "update_options v o' p = update_whiteboard_option v o'
      (update_terminal_option v o' (update_block_option o' (update_privacy_option v o' p5)))"
    by (simp only: update_options_def Let_def p1_def p2_def p3_def p4_def p5_def)
  ultimately show ?thesis by (simp add: whiteboard_option_keeps)
qed

section \<open>Video services\<close>

lemma video_name: "is_video_service_name (get_service_name source d)"
  by (cases source) (simp_all add: is_video_service_name_def get_service_name_def starts_with_def)

lemma right_name_not_video [simp]: "n \<in> right_names \<Longrightarrow> n \<noteq> get_service_name source d"
  using right_names_not_video video_name by metis

lemma allowed_outside: "n \<notin> right_names \<Longrightarrow> allowed v p n"
  by (auto simp: allowed_def right_names_def)

lemma inv_server:
  assumes "inv_except T v p" "server_wf s"
    "\<And>n. n \<in> right_names \<Longrightarrow> n \<notin> T \<Longrightarrow> subed_to s n (ci_id (pe_inner p)) \<Longrightarrow> subed p n \<or> allowed v p n"
  shows "inv_except T v (p\<lparr>pe_server := s\<rparr>)"
proof -
  have "allowed v (p\<lparr>pe_server := s\<rparr>) n = allowed v p n" for n by (simp add: allowed_def right_rules)
  then show ?thesis
    using assms allowed_outside by (fastforce simp: inv_except_def subed_def is_authed_def)
qed

text \<open>Changes of the registry that leave the services of the rights alone.\<close>

definition video_change :: "server \<Rightarrow> server \<Rightarrow> bool" where
  "video_change s s' \<longleftrightarrow> (server_wf s \<longrightarrow> server_wf s' \<and> (\<forall>n \<in> right_names. \<forall>k. subed_to s' n k = subed_to s n k))"

lemma video_change_refl [simp]: "video_change s s"
  by (simp add: video_change_def)

lemma video_change_trans: "video_change s s' \<Longrightarrow> video_change s' s'' \<Longrightarrow> video_change s s''"
  by (auto simp: video_change_def)

lemma inv_video: "inv_except T v p \<Longrightarrow> video_change (pe_server p) s \<Longrightarrow> inv_except T v (p\<lparr>pe_server := s\<rparr>)"
  by (rule inv_server) (auto simp: video_change_def inv_except_def subed_def)

lemma video_new: "sv_name (video_service_new source d) = get_service_name source d" "service_wf (video_service_new source d)"
  "\<not> is_subed (video_service_new source d) k"
  by (simp_all add: video_service_new_def service_new_def service_wf_def is_subed_def hm_contains_def)

lemma video_add: "\<not> srv_contains s (get_service_name source d) \<Longrightarrow> video_change s (add_service s (video_service_new source d))"
  by (auto simp: video_change_def add_service_def server_wf_iff subed_to_def video_new srv_contains_def hm_contains_def)

lemma video_with: "video_change s (with_video_service source d s)"
  by (simp add: with_video_service_def video_add)

lemma video_with_all: "video_change s (fold (with_video_service source) ds s)"
  by (induction ds arbitrary: s) (auto intro: video_change_trans video_with)

lemma video_subscribe: "video_change s (srv_subscribe s (get_service_name source d) c b)"
  by (auto simp: video_change_def srv_subscribe_wf subed_to_subscribe)

lemma video_subscribe_after: "video_change s s' \<Longrightarrow> video_change s (srv_subscribe s' (get_service_name source d) c b)"
  by (rule video_change_trans [OF _ video_subscribe])

lemma video_capture: "video_change s (capture_displays s c source ds inc exc)"
  using capture_displays_facts [of s c source ds inc exc] right_names_not_video
  by (auto simp: video_change_def)

lemma video_option: "video_change s (set_video_service_opt s d opt value)"
proof -
  have svc: "service_wf (fst (sv_set_option svc opt value)) = service_wf svc"
    "sv_name (fst (sv_set_option svc opt value)) = sv_name svc"
    "is_subed (fst (sv_set_option svc opt value)) k = is_subed svc k" for svc k
    by (simp_all add: sv_set_option_def service_wf_def is_subed_def)
  define f where "f = (\<lambda>k svc. if (case d of None \<Rightarrow> True | Some (source, display) \<Rightarrow> k = get_service_name source display)
      \<and> is_video_service_name k then fst (sv_set_option svc opt value) else svc)"
  have eq: "set_video_service_opt s d opt value = s\<lparr>srv_services := map (\<lambda>(k, v). (k, f k v)) (srv_services s)\<rparr>"
    by (simp add: set_video_service_opt_def f_def)
  have "server_wf s \<Longrightarrow> server_wf (set_video_service_opt s d opt value)"
    unfolding eq by (rule server_wf_visit) (simp_all add: f_def svc)
  moreover have "subed_to (set_video_service_opt s d opt value) n k = subed_to s n k" for n k
  proof -
    have "is_subed (f n svc') k = is_subed svc' k" for svc' by (simp add: f_def svc)
    moreover have "subed_to (set_video_service_opt s d opt value) n k
        = (case hm_get (srv_services s) n of None \<Rightarrow> False | Some svc \<Rightarrow> is_subed (f n svc) k)"
      unfolding eq by (rule visit_subed_to)
    ultimately show ?thesis by (cases "hm_get (srv_services s) n") (simp_all add: subed_to_def)
  qed
  ultimately show ?thesis by (simp add: video_change_def)
qed

lemma video_primary: "video_change s (try_add_primay_video_service d s)"
  by (simp add: try_add_primay_video_service_def Let_def video_add)

lemma video_primary_camera: "video_change s (try_add_primary_camera_service b s)"
  by (simp add: try_add_primary_camera_service_def Let_def video_add)

lemma video_camera: "video_change s (add_camera_connection b s c)"
proof -
  define s1 where "s1 = (if b then with_service (get_service_name Camera 0) (\<lambda>svc. on_subscribe svc c) s else s)"
  have "server_wf s \<Longrightarrow> server_wf s1"
    unfolding s1_def by (cases b) (auto intro!: server_wf_modify simp: on_subscribe_wf service_simps)
  moreover have "subed_to s1 n k = subed_to s n k" if "n \<in> right_names" for n k
    using that by (simp add: s1_def subed_to_def)
  ultimately show ?thesis
    by (auto simp: video_change_def add_camera_connection_def s1_def [symmetric] Let_def server_wf_def subed_to_def)
qed

lemma switch_display_keeps:
  assumes "peer_inv v p"
  shows "peer_inv v (switch_display_to v d p)"
proof -
  have "video_change (pe_server p) (pe_server (switch_display_to v d p))"
    unfolding switch_display_to_def Let_def
    by (simp add: video_subscribe_after video_with)
  with assms have "peer_inv v (p\<lparr>pe_server := pe_server (switch_display_to v d p)\<rparr>)" by (rule inv_video)
  moreover have "same_rights (p\<lparr>pe_server := pe_server (switch_display_to v d p)\<rparr>) (switch_display_to v d p)"
    by (simp add: switch_display_to_def same_rights_def Let_def)
  ultimately show ?thesis using same_rights_inv by blast
qed

lemma resolution_same: "same_rights p (change_resolution v d w h p)"
  by (auto simp: change_resolution_def Let_def split: option.split prod.split)

lemma handle_switch_display_keeps:
  assumes "peer_inv v p"
  shows "peer_inv v (handle_switch_display v d w h p)"
proof (cases "pe_display_idx p = usize_of d")
  case False
  define q where "q = switch_display_to v (usize_of d) p"
  have "same_rights q (handle_switch_display v d w h p)"
    using False by (simp add: handle_switch_display_def Let_def q_def resolution_same)
  with switch_display_keeps [OF assms] same_rights_inv show ?thesis unfolding q_def by blast
qed (use assms in \<open>simp add: handle_switch_display_def\<close>)

lemma capture_keeps:
  assumes "peer_inv v p"
  shows "peer_inv v (peer_capture_displays add sub sets p)"
proof -
  define source where "source = video_source_of p"
  define s where "s = fold (with_video_service source) sets (fold (with_video_service source) add (pe_server p))"
  define s1 where "s1 = (if add \<noteq> [] then capture_displays s (pe_inner p) source add True False
      else if sub \<noteq> [] then capture_displays s (pe_inner p) source sub False True
      else capture_displays s (pe_inner p) source sets True True)"
  define multi where "multi = (get_subbed_displays_count s1 (ci_id (pe_inner p)) > 1)"
  define q where "q = p\<lparr>pe_server := s1, pe_multi_ui_session := multi\<rparr>"
  have "video_change (pe_server p) s" unfolding s_def by (blast intro: video_change_trans video_with_all)
  moreover have "video_change s s1" by (simp add: s1_def video_capture)
  ultimately have "peer_inv v (p\<lparr>pe_server := s1\<rparr>)" by (intro inv_video assms) (rule video_change_trans)
  then have q: "peer_inv v q" using same_rights_inv [of "p\<lparr>pe_server := s1\<rparr>" q] by (simp add: q_def)
  show ?thesis
  proof (cases "rt_follow_remote_window (pe_rights p)")
    case True
    then have "peer_capture_displays add sub sets p = subscribe NAME_WINDOW_FOCUS (\<not> multi) q"
      by (simp add: peer_capture_displays_def Let_def source_def s_def s1_def multi_def q_def subscribe_def)
    moreover have "peer_inv v (subscribe NAME_WINDOW_FOCUS (\<not> multi) q)"
      using True by (intro inv_subscribe inv_weaken [OF q]) (simp_all add: allowed_at q_def)
    ultimately show ?thesis by simp
  next
    case False
    then have "peer_capture_displays add sub sets p = q"
      by (simp add: peer_capture_displays_def Let_def source_def s_def s1_def multi_def q_def)
    with q show ?thesis by simp
  qed
qed

lemma refresh_keeps: "peer_inv v p \<Longrightarrow> peer_inv v (refresh_video_display d p)"
  unfolding refresh_video_display_def by (intro inv_video video_option)

lemma camera_keeps: "peer_inv v p \<Longrightarrow> peer_inv v (try_sub_camera_displays v p)"
  unfolding try_sub_camera_displays_def Let_def
  by (intro inv_video video_change_trans [OF video_primary_camera video_camera])

lemma voice_keeps:
  assumes "peer_inv v p"
  shows "peer_inv v (handle_voice_call accepted p)" "peer_inv v (close_voice_call p)"
proof -
  have change: "inv_except (if is_authed ViewCamera p then {NAME_AUDIO} else {}) v q"
    if "pe_conn q = pe_conn p" "pe_rights q = pe_rights p" "pe_server q = pe_server p" "pe_inner q = pe_inner p"
      "pe_files q = pe_files p" for q
    using assms by (rule inv_change) (auto simp: that allowed_def right_rules split: if_splits)
  have authed: "is_authed ViewCamera p \<Longrightarrow> cn_authorized (pe_conn p)" using assms by (simp add: inv_except_def)
  show "peer_inv v (handle_voice_call accepted p)"
  proof (cases "pe_voice_request p")
    case (Some ts)
    define q where "q = puts ((if accepted then [Sys (VoiceInputDevice True), ToCm StartVoiceCall] else [ToCm CloseVoiceCall])
        @ [ToPeer (SendVoiceCallResponse ts accepted)]) (p\<lparr>pe_voice_request := None, pe_voice_calling := accepted\<rparr>)"
    have eq: "handle_voice_call accepted p =
        (if is_authed ViewCamera p then subscribe NAME_AUDIO (audio_enabled q \<and> accepted) q else q)"
      by (simp add: handle_voice_call_def Some q_def Let_def is_authed_def)
    have fields: "pe_voice_calling q = accepted" "pe_conn q = pe_conn p" by (simp_all add: q_def)
    from change [of q] have "inv_except (if is_authed ViewCamera p then {NAME_AUDIO} else {}) v q" by (simp add: q_def)
    then show ?thesis
      using authed fields by (auto simp: eq allowed_at is_authed_def intro!: inv_subscribe split: if_splits)
  qed (use assms in \<open>simp add: handle_voice_call_def\<close>)
  define q where "q = puts [Sys (VoiceInputDevice False), ToCm CloseVoiceCall] (p\<lparr>pe_voice_calling := False\<rparr>)"
  from change [of q] have "inv_except (if is_authed ViewCamera p then {NAME_AUDIO} else {}) v q" by (simp add: q_def)
  then show "peer_inv v (close_voice_call p)"
    by (auto simp: close_voice_call_def Let_def q_def is_authed_def intro!: inv_subscribe split: if_splits)
qed

lemma noperms_members:
  "NAME_CLIPBOARD \<in> set (noperms_of v p) \<longleftrightarrow> \<not> can_sub_clipboard_service v p"
  "NAME_FILE_CLIPBOARD \<in> set (noperms_of v p) \<longleftrightarrow> pv_unix_clip v \<and> \<not> can_sub_file_clipboard_service v p"
  "NAME_AUDIO \<in> set (noperms_of v p) \<longleftrightarrow> \<not> audio_enabled p"
  "NAME_CURSOR \<in> set (noperms_of v p) \<longleftrightarrow> \<not> peer_keyboard_enabled p \<and> \<not> rt_show_remote_cursor (pe_rights p)"
  "NAME_POS \<in> set (noperms_of v p) \<longleftrightarrow> \<not> rt_show_remote_cursor (pe_rights p)"
  "NAME_WINDOW_FOCUS \<in> set (noperms_of v p) \<longleftrightarrow> \<not> rt_follow_remote_window (pe_rights p)"
  by (simp_all add: noperms_of_def Let_def) (simp_all add: service_names)

lemma monitor_keeps:
  assumes "peer_inv v p" "cn_authorized (pe_conn p)"
  shows "peer_inv v (peer_sub_monitor_services v p)"
proof (cases "is_remote (pe_conn p) \<and> \<not> cn_services_subed (pe_conn p)")
  case True
  define s where "s = try_add_primay_video_service (pv_primary v) (pe_server p)"
  define q where "q = on_login (\<lambda>c. c\<lparr>cn_services_subed := True\<rparr>) p"
  define s1 where "s1 = add_connection (pv_primary v) s (pe_inner p) (noperms_of v q)"
  have wf: "server_wf s" and same: "\<And>n k. n \<in> right_names \<Longrightarrow> subed_to s n k = subed_to (pe_server p) n k"
    using assms(1) video_primary [of "pe_server p"] by (auto simp: s_def video_change_def inv_except_def)
  have "same_rights p q" by (simp add: q_def same_rights_def)
  then have q: "peer_inv v q" using assms(1) same_rights_inv by blast
  have no_camera: "\<not> is_authed ViewCamera q" using q True by (auto simp: inv_except_def is_remote_def q_def)
  have "allowed v q n" if "n \<in> right_names" "n \<notin> set (noperms_of v q)" for n
  proof -
    have "cn_authorized (pe_conn q)" using assms(2) by (simp add: q_def)
    with that no_camera show ?thesis
      unfolding right_names_def
      by (elim insertE emptyE) (auto simp: allowed_at noperms_members can_sub_clipboard_service_def
          can_sub_file_clipboard_service_def peer_keyboard_enabled_def)
  qed
  then have "peer_inv v (q\<lparr>pe_server := s1\<rparr>)"
    using add_connection_facts [OF wf, of "pv_primary v" "pe_inner p" "noperms_of v q"] q same
    by (intro inv_server) (auto simp: s1_def q_def subed_def)
  moreover have "same_rights (q\<lparr>pe_server := s1\<rparr>) (peer_sub_monitor_services v p)"
    using True by (simp add: peer_sub_monitor_services_def Let_def q_def s_def s1_def same_rights_def)
  ultimately show ?thesis using same_rights_inv by blast
qed (use assms in \<open>auto simp: peer_sub_monitor_services_def\<close>)

section \<open>Every step keeps the invariant\<close>

lemma mouse_same: "same_rights p (on_mouse_event v me p)"
  by (simp add: on_mouse_event_def Let_def)

lemma pointer_same: "same_rights p (on_pointer_event v pde p)"
  by (auto simp: on_pointer_event_def Let_def split: option.split touch_event.split)

lemma press_same [simp]: "same_rights p (press_modifier key b q) = same_rights p q"
  by (simp add: press_modifier_def split: option.split)

lemma key_same: "same_rights p (on_key_event v me p)"
  by (simp add: on_key_event_def Let_def)

lemma clipboard_same: "same_rights p (on_clipboard v cb p)" "same_rights p (on_multi_clipboards v cbs p)"
    "same_rights p (on_cliprdr v clip p)"
  by (auto simp: on_clipboard_def on_multi_clipboards_def on_cliprdr_def split: cliprdr.split)

lemma file_flag_frame:
  "nf_file (to_peer m c) = nf_file c" "nf_file (send_to_cm x c) = nf_file c" "nf_file (send_fs r c) = nf_file c"
  "nf_file (post_file_audit env t pa fs c) = nf_file c"
  by (simp_all add: to_peer_def send_to_cm_def send_fs_def post_file_audit_def Let_def)

lemma file_response_frame: "nf_file (on_file_response fr c) = nf_file c"
  by (cases fr) (simp_all add: file_flag_frame)

lemma read_job_frame: "nf_file (create_and_start_read_job env i jt src n h od pa chk c) = nf_file c"
  by (auto simp: create_and_start_read_job_def process_new_read_job_def file_flag_frame Let_def
      split: option.split sum.split prod.split)

lemma all_files_frame: "nf_file (all_files_action env pa i h c) = nf_file c"
  by (auto simp: all_files_action_def file_flag_frame Let_def split: option.split sum.split prod.split)

lemma file_action_frame:
  assumes "on_file_action env fa c = Some c'"
  shows "nf_file c' = nf_file c"
proof -
  have send: "nf_file (send_action env i pa h n jt c) = nf_file c" for i pa h n jt
    by (simp add: send_action_def file_flag_frame read_job_frame Let_def split: job_type.split option.split prod.split)
  have confirm: "send_confirm_action env r c = Some d \<Longrightarrow> nf_file d = nf_file c" for r d
    by (auto simp: send_confirm_action_def file_flag_frame split: option.splits if_splits)
  have cancel: "nf_file (cancel_action i c) = nf_file c" for i
    by (simp add: cancel_action_def file_flag_frame Let_def split: prod.split option.split)
  have "do_action env fa c = Some d \<Longrightarrow> nf_file d = nf_file c" for d
    by (cases fa) (auto simp: send confirm cancel receive_action_def all_files_frame file_flag_frame Let_def)
  with assms show ?thesis
    by (auto simp: on_file_action_def file_flag_frame split: if_splits file_action.splits)
qed

lemma put_files_same: "nf_file f = nf_file (pe_files p) \<Longrightarrow> same_rights p (put_files f p)"
  by (simp add: put_files_def same_rights_def)

lemma files_view_flag [simp]: "nf_file (files_view p) = nf_file (pe_files p)"
  by (simp add: files_view_def)

lemma peer_files_same:
  "peer_file_action v fa p = Some q \<Longrightarrow> same_rights p q" "same_rights p (peer_file_response fr p)"
  by (auto simp: peer_file_action_def peer_file_response_def file_response_frame dest!: file_action_frame
      intro!: put_files_same)

lemma virtual_same: "same_rights p (toggle_virtual_display v d on p)"
  by (simp add: toggle_virtual_display_def Let_def)

lemma elevation_same: "same_rights p (handle_elevation_request v el p)"
  by (simp add: handle_elevation_request_def Let_def)

lemma selected_keeps:
  assumes "peer_inv v p" "cn_authorized (pe_conn p)"
  shows "peer_inv v (snd (on_selected_sid v sid p))"
proof -
  have "same_rights p (put_files (send_fs (ReadDir dir hid) ((files_view p)\<lparr>nf_delayed_read_dir := None\<rparr>)) p)" for dir hid
    by (rule put_files_same) (simp add: file_flag_frame)
  then have "peer_inv v (put_files (send_fs (ReadDir dir hid) ((files_view p)\<lparr>nf_delayed_read_dir := None\<rparr>)) p)" for dir hid
    using assms(1) same_rights_inv by blast
  moreover have "same_rights p (puts os p)" for os by simp
  then have "peer_inv v (puts os p)" for os using assms(1) same_rights_inv by blast
  ultimately show ?thesis
    using assms camera_keeps [OF assms(1)] monitor_keeps [OF assms]
    by (simp add: on_selected_sid_def split: option.split)
qed

lemma close_same: "same_rights p (peer_on_close v p)"
  by (simp add: peer_on_close_def Let_def)

lemma misc_keeps:
  assumes "peer_inv v p" "cn_authorized (pe_conn p)"
  shows "peer_inv v (snd (on_misc v m p))"
proof -
  have same: "peer_inv v q" if "same_rights p q" for q using that assms(1) same_rights_inv by blast
  have timer: "peer_inv v (update_auto_disconnect_timer v q)" if "peer_inv v q" for q
    using that same_rights_inv [of q "update_auto_disconnect_timer v q"] by simp
  have close: "same_rights p (peer_on_close v (puts os p))" for os
    using same_rights_trans [OF _ close_same [of "puts os p" v]] by simp
  show ?thesis
    using assms
    by (cases m) (simp_all add: handle_switch_display_keeps capture_keeps options_keep refresh_keeps timer
        selected_keeps same toggle_privacy_same virtual_same elevation_same resolution_same close)
qed

lemma message_keeps:
  assumes "peer_inv v p" "on_peer_message v m p = Some (k, p')"
  shows "peer_inv v p'"
proof (cases "cn_authorized (pe_conn p) \<and> \<not> cn_port_forward_socket (pe_conn p)")
  case True
  have same: "peer_inv v q" if "same_rights p q" for q using that assms(1) same_rights_inv by blast
  have shot: "peer_inv v (refresh_video_display d (puts os p))" for d os by (simp add: refresh_keeps same)
  from True assms(2) have "do_message v m p = Some (k, p')" by (simp add: on_peer_message_def)
  moreover have "on_misc v x p = (k, p') \<Longrightarrow> peer_inv v p'" for x
    using misc_keeps [OF assms(1), of x] True by simp
  ultimately show ?thesis
    by (cases m) (auto simp: same mouse_same pointer_same key_same clipboard_same peer_files_same
        voice_keeps [OF assms(1)] shot assms(1) split: if_splits option.splits)
next
  case False
  with assms show ?thesis by (auto simp: on_peer_message_def)
qed

section \<open>All steps together\<close>

lemma when_given_conn:
  assumes "\<And>b r. cn_authorized (pe_conn (f b r)) = cn_authorized (pe_conn r)"
  shows "cn_authorized (pe_conn (when_given g f p)) = cn_authorized (pe_conn p)"
  using assms by (cases "given g") (simp_all add: when_given_def)

lemma options_authorized: "cn_authorized (pe_conn (update_options v o' p)) = cn_authorized (pe_conn p)"
proof -
  have toggle: "cn_authorized (pe_conn (toggle_privacy_mode v b impl r)) = cn_authorized (pe_conn r)" for b impl r
    using toggle_privacy_same [of r v b impl] by (simp add: same_rights_def)
  have audio: "pe_conn (subscribe_audio r) = pe_conn r" for r by (simp add: subscribe_audio_def)
  have fields: "cn_authorized (pe_conn (update_quality o' r)) = cn_authorized (pe_conn r)"
    "cn_authorized (pe_conn (update_cursor_options v o' r)) = cn_authorized (pe_conn r)"
    "cn_authorized (pe_conn (update_file_option v o' r)) = cn_authorized (pe_conn r)"
    "cn_authorized (pe_conn (update_input_options v o' r)) = cn_authorized (pe_conn r)"
    "cn_authorized (pe_conn (update_privacy_option v o' r)) = cn_authorized (pe_conn r)"
    "cn_authorized (pe_conn (update_block_option o' r)) = cn_authorized (pe_conn r)"
    "cn_authorized (pe_conn (update_terminal_option v o' r)) = cn_authorized (pe_conn r)"
    "cn_authorized (pe_conn (update_whiteboard_option v o' r)) = cn_authorized (pe_conn r)" for r
    by (simp_all add: update_quality_def update_cursor_options_def update_file_option_def update_input_options_def
        update_privacy_option_def update_block_option_def update_terminal_option_def update_whiteboard_option_def
        Let_def when_given_conn toggle)
  show ?thesis by (simp add: update_options_def Let_def fields when_given_conn audio)
qed

text \<open>
  What a log-on request may change of the connection, short of authorising it; and the steps of a connection
  from its start: requests, the authorisation with what follows it, the user and the peer in any order, and
  other connections, which leave the subscriptions of this one alone.
\<close>

definition log_on_update :: "connection \<Rightarrow> connection \<Rightarrow> bool" where
  "log_on_update c c' \<longleftrightarrow> cn_keyboard c' = cn_keyboard c \<and> cn_authorized c' = cn_authorized c
     \<and> cn_authed_conn c' = cn_authed_conn c \<and> (cn_view_camera c \<longrightarrow> cn_view_camera c') \<and> (cn_terminal c \<longrightarrow> cn_terminal c')"

inductive peer_step :: "peer_env \<Rightarrow> peer \<Rightarrow> peer \<Rightarrow> bool" for v where
  request: "\<not> cn_authorized (pe_conn p) \<Longrightarrow> log_on_update (pe_conn p) c \<Longrightarrow> peer_step v p (p\<lparr>pe_conn := c\<rparr>)"
| authorise: "\<not> cn_authorized (pe_conn p) \<Longrightarrow> lg_conn s = pe_conn p
    \<Longrightarrow> q = p\<lparr>pe_conn := lg_conn (authorize_connection (pv_login v) s)\<rparr>
    \<Longrightarrow> p' = q \<or> p' = after_logon v opts sub_service wait_confirm q \<Longrightarrow> peer_step v p p'"
| permission: "peer_step v p (switch_permission v name b p)"
| answer_call: "peer_step v p (handle_voice_call accepted p)"
| end_call: "peer_step v p (close_voice_call p)"
| message: "on_peer_message v m p = Some (k, p') \<Longrightarrow> peer_step v p p'"
| others: "server_wf s \<Longrightarrow> (\<And>n. subed_to s n (ci_id (pe_inner p)) = subed p n) \<Longrightarrow> peer_step v p (p\<lparr>pe_server := s\<rparr>)"

definition peer_new :: "peer \<Rightarrow> bool" where
  "peer_new p \<longleftrightarrow> server_wf (pe_server p) \<and> (\<forall>n. \<not> subed p n) \<and> \<not> cn_authorized (pe_conn p)
     \<and> cn_authed_conn (pe_conn p) = None"

lemma new_inv: "peer_new p \<Longrightarrow> peer_inv v p"
  by (simp add: peer_new_def inv_except_def is_authed_def)

lemma update_keeps:
  assumes "peer_inv v p" "\<not> cn_authorized (pe_conn p)" "log_on_update (pe_conn p) c"
  shows "peer_inv v (p\<lparr>pe_conn := c\<rparr>)"
proof -
  have "allowed v p n \<longrightarrow> allowed v (p\<lparr>pe_conn := c\<rparr>) n" for n
    using assms(3) by (auto simp: allowed_def log_on_update_def right_rules)
  then show ?thesis
    using assms by (auto simp: inv_except_def log_on_update_def is_authed_def)
qed

lemma authorise_keeps:
  assumes "peer_inv v p" "\<not> cn_authorized (pe_conn p)" "lg_conn s = pe_conn p"
    "q = p\<lparr>pe_conn := lg_conn (authorize_connection e s)\<rparr>"
  shows "peer_inv v q" "cn_authorized (pe_conn q)"
proof -
  define c where "c = lg_conn (authorize_connection e s)"
  have c: "cn_authorized c" "cn_keyboard c = cn_keyboard (pe_conn p)" "cn_view_camera c = cn_view_camera (pe_conn p)"
      "cn_terminal c = cn_terminal (pe_conn p)" "cn_authed_conn c = Some (get_auth_conn_type ((pe_conn p)\<lparr>cn_authorized := True\<rparr>))"
    using assms(3) by (simp_all add: c_def authorize_connection_def emit_def Let_def)
  have "get_auth_conn_type ((pe_conn p)\<lparr>cn_authorized := True\<rparr>) = ViewCamera \<Longrightarrow> cn_view_camera (pe_conn p)"
    by (simp add: get_auth_conn_type_def split: if_splits)
  moreover have "\<not> subed p NAME_AUDIO" using assms(1,2) by (auto simp: inv_except_def allowed_at)
  then have "subed p n \<Longrightarrow> allowed v p n \<longrightarrow> allowed v (p\<lparr>pe_conn := c\<rparr>) n" for n
    using c by (auto simp: allowed_def right_rules)
  ultimately show "peer_inv v q" "cn_authorized (pe_conn q)"
    using assms(1,4) c by (auto simp: inv_except_def is_authed_def c_def [symmetric])
qed

lemma after_logon_keeps:
  assumes "peer_inv v p" "cn_authorized (pe_conn p)"
  shows "peer_inv v (after_logon v opts sub_service wait_confirm p)"
proof -
  define q where "q = (case opts of Some o' \<Rightarrow> update_options v o' p | None \<Rightarrow> p)"
  have q: "peer_inv v q" using assms by (simp add: q_def options_keep split: option.split)
  have quiet: "peer_inv v (puts os (on_login (\<lambda>c. c\<lparr>cn_keyboard := False\<rparr>) r))"
    if "peer_inv v r" "cn_terminal (pe_conn r) \<or> cn_view_camera (pe_conn r)" for r os
    using that(1) by (rule inv_change) (use that(2) in \<open>auto simp: allowed_def right_rules\<close>)
  have camera: "pe_conn (try_sub_camera_displays v r) = pe_conn r" for r
    by (simp add: try_sub_camera_displays_def Let_def)
  have monitor: "peer_inv v (peer_sub_monitor_services v q)"
    using q assms(2) by (intro monitor_keeps) (auto simp: q_def options_authorized split: option.split)
  have quiet0: "peer_inv v (on_login (\<lambda>c. c\<lparr>cn_keyboard := False\<rparr>) q)" if "cn_terminal (pe_conn q)"
    using quiet [OF q, of "[]"] that by (simp add: puts_def)
  show ?thesis
    unfolding after_logon_def q_def [symmetric] Let_def
    using q quiet quiet0 camera camera_keeps [OF q] monitor by simp
qed

lemma step_keeps: "peer_step v p p' \<Longrightarrow> peer_inv v p \<Longrightarrow> peer_inv v p'"
proof (induction rule: peer_step.induct)
  case (authorise p s q p' opts sub_service wait_confirm)
  from authorise_keeps [OF authorise.prems authorise.hyps(1-3)] authorise.hyps(4) show ?case
    using after_logon_keeps by blast
next
  case (others s p)
  then show ?case by (intro inv_server) (auto simp: subed_def)
qed (auto intro: update_keeps permission_keeps voice_keeps message_keeps)

lemma reachable_inv: "(peer_step v)\<^sup>*\<^sup>* p q \<Longrightarrow> peer_inv v p \<Longrightarrow> peer_inv v q"
  by (induction rule: rtranclp_induct) (auto intro: step_keeps)

end
