(* ===== verification/Peer_Effects.thy ===== *)
theory Peer_Effects
  imports Peer_Safety
begin

text \<open>
  What the messages of a peer make the input thread, the clipboard and the system do, and the permissions each
  effect needs; what the input thread does with it.
\<close>

section \<open>Effects and the permissions for them\<close>

text \<open>
  The effects a permission guards, with the check the code makes: keys, clicks and moves that are played need
  the keyboard, a cursor that is only shown the option for it, blocking the input of the user its own permission
  and the keyboard, the clipboard and a restart theirs, a resolution and the elevated helper the keyboard. A
  viewer of the camera has no input. No other effect is permitted by a permission.
\<close>

fun permitted :: "peer_env \<Rightarrow> peer \<Rightarrow> peer_out \<Rightarrow> bool" where
  "permitted v p (ToInput (InputMouse _ _ _ _ simulate show)) =
     (\<not> is_authed ViewCamera p \<and> (if simulate then peer_keyboard_enabled p else show \<and> rt_show_my_cursor (pe_rights p)))"
| "permitted v p (ToInput (InputKey _ _)) = (\<not> is_authed ViewCamera p \<and> peer_keyboard_enabled p)"
| "permitted v p (ToInput (InputPointer _ _)) = (\<not> is_authed ViewCamera p \<and> peer_keyboard_enabled p)"
| "permitted v p (ToInput BlockOn) = (cn_keyboard (pe_conn p) \<and> rt_block_input (pe_rights p))"
| "permitted v p (ToInput BlockOff) = (cn_keyboard (pe_conn p) \<and> rt_block_input (pe_rights p))"
| "permitted v p (Clip (UpdateClipboard _)) = rt_clipboard (pe_rights p)"
| "permitted v p (Sys Reboot) = rt_restart (pe_rights p)"
| "permitted v p (Sys (RecordResolution _ _ _)) = cn_keyboard (pe_conn p)"
| "permitted v p (Sys (ChangeResolution _ _ _)) = cn_keyboard (pe_conn p)"
| "permitted v p (Sys (StartPortable _)) = cn_keyboard (pe_conn p)"
| "permitted v p _ = False"

text \<open>
  The effects the code asks no permission for, each with what it does ask: messages to the peer, the manager and
  the video side, the files on the clipboard, the input of a phone and the clipboard on Android, and calls of
  the system for virtual displays, terminals, the cursors of others, sound, switching sides, sessions of users
  and the microphone, which a message can only turn off. All others are guarded.
\<close>

fun unguarded :: "peer_env \<Rightarrow> peer \<Rightarrow> peer_out \<Rightarrow> bool" where
  "unguarded v p (ToPeer _) = True"
| "unguarded v p (ToCm _) = True"
| "unguarded v p (ToVideo _) = True"
| "unguarded v p (Clip (UpdateClipboard _)) = (pv_os v = Android)"
| "unguarded v p (Clip (ClipToContext _)) = (pv_os v = MacOS)"
| "unguarded v p (Clip (ClipAudit _ _)) = (pv_os v = Windows \<or> pv_unix_clip v)"
| "unguarded v p (Clip EmptyFileClipboard) = pv_unix_clip v"
| "unguarded v p (Sys (MobilePointer _ _ _ _)) = (is_mobile (pv_os v) \<and> \<not> is_authed ViewCamera p)"
| "unguarded v p (Sys (MobileKey _)) = (pv_os v = Android \<and> \<not> is_authed ViewCamera p)"
| "unguarded v p (Sys (PlugIn _)) = (pv_os v = Windows \<and> pv_virtual_supported v)"
| "unguarded v p (Sys (PlugOut _)) = (pv_os v = Windows)"
| "unguarded v p (Sys (TerminalPersistent _ _)) = (\<not> is_mobile (pv_os v))"
| "unguarded v p (Sys (Whiteboard _)) = (\<not> is_mobile (pv_os v) \<and> pv_whiteboard v = '''')"
| "unguarded v p (Sys (PlayFormat _)) = (\<not> rt_disable_audio (pe_rights p))"
| "unguarded v p (Sys (PlayFrame _)) = (\<not> rt_disable_audio (pe_rights p) \<and> pe_audio_sender p)"
| "unguarded v p (Sys (SwitchSides uuid)) = (le_flutter (pv_login v) \<and> length uuid = 16)"
| "unguarded v p (Sys (ConnectUserSession sid)) =
     (pv_os v = Windows \<and> le_is_installed (pv_login v) \<and> pv_share_rdp v \<and> pv_only_connection v \<and> sid \<in> set (pv_sessions v))"
| "unguarded v p (Sys (VoiceInputDevice on)) = (\<not> on)"
| "unguarded v p _ = False"

definition accounted :: "peer_env \<Rightarrow> peer \<Rightarrow> peer_out \<Rightarrow> bool" where
  "accounted v p x \<longleftrightarrow> permitted v p x \<or> unguarded v p x"

lemma accounted_simps [simp]:
  "accounted v p (ToPeer a)" "accounted v p (ToCm b)" "accounted v p (ToVideo c)"
  "accounted v p (ToInput i) = permitted v p (ToInput i)" "accounted v p (Clip cl) \<longleftrightarrow> permitted v p (Clip cl) \<or> unguarded v p (Clip cl)"
  "accounted v p (Sys y) \<longleftrightarrow> permitted v p (Sys y) \<or> unguarded v p (Sys y)"
  by (simp_all add: accounted_def)

definition adds :: "(peer_out \<Rightarrow> bool) \<Rightarrow> peer \<Rightarrow> peer \<Rightarrow> bool" where
  "adds P p q \<longleftrightarrow> (\<exists>os. pe_out q = pe_out p @ os \<and> list_all P os)"

lemma adds_weaken: "adds P p q \<Longrightarrow> (\<And>x. P x \<Longrightarrow> Q x) \<Longrightarrow> adds Q p q"
  by (auto simp: adds_def list_all_iff)

lemma adds_refl [simp]: "pe_out q = pe_out p \<Longrightarrow> adds P p q"
  by (simp add: adds_def)

lemma adds_puts: "pe_out q = pe_out p \<Longrightarrow> list_all P os \<Longrightarrow> adds P p (puts os q)"
  by (simp add: adds_def puts_def)

text \<open>Effects are plain, and the permissions of the keyboard and of blocking stay as they are.\<close>

definition plain :: "peer_env \<Rightarrow> peer \<Rightarrow> peer \<Rightarrow> bool" where
  "plain v p q \<longleftrightarrow> adds (accounted v p) p q \<and> cn_keyboard (pe_conn q) = cn_keyboard (pe_conn p)
     \<and> rt_block_input (pe_rights q) = rt_block_input (pe_rights p)"

lemma plain_refl [simp]: "plain v p p"
  by (simp add: plain_def)

lemma plain_puts [simp]: "plain v p q \<Longrightarrow> list_all (accounted v p) os \<Longrightarrow> plain v p (puts os q)"
  by (auto simp: plain_def adds_def puts_def)

lemma plain_updates [simp]:
  "plain v p (q\<lparr>pe_server := s\<rparr>) = plain v p q" "plain v p (q\<lparr>pe_files := f\<rparr>) = plain v p q"
  "plain v p (q\<lparr>pe_privacy := m\<rparr>) = plain v p q" "plain v p (q\<lparr>pe_privacy_world := w\<rparr>) = plain v p q"
  "plain v p (q\<lparr>pe_multi_ui_session := b\<rparr>) = plain v p q" "plain v p (q\<lparr>pe_display_idx := n\<rparr>) = plain v p q"
  "plain v p (q\<lparr>pe_voice_request := r\<rparr>) = plain v p q" "plain v p (q\<lparr>pe_voice_calling := b\<rparr>) = plain v p q"
  "plain v p (q\<lparr>pe_audio_sender := b\<rparr>) = plain v p q" "plain v p (q\<lparr>pe_disconnect_timer := d\<rparr>) = plain v p q"
  "plain v p (q\<lparr>pe_rights := (pe_rights q)\<lparr>rt_show_remote_cursor := b\<rparr>\<rparr>) = plain v p q"
  "plain v p (q\<lparr>pe_rights := (pe_rights q)\<lparr>rt_follow_remote_cursor := b\<rparr>\<rparr>) = plain v p q"
  "plain v p (q\<lparr>pe_rights := (pe_rights q)\<lparr>rt_follow_remote_window := b\<rparr>\<rparr>) = plain v p q"
  "plain v p (q\<lparr>pe_rights := (pe_rights q)\<lparr>rt_enable_file_transfer := b\<rparr>\<rparr>) = plain v p q"
  "plain v p (q\<lparr>pe_rights := (pe_rights q)\<lparr>rt_disable_clipboard := b\<rparr>\<rparr>) = plain v p q"
  "plain v p (q\<lparr>pe_rights := (pe_rights q)\<lparr>rt_disable_keyboard := b\<rparr>\<rparr>) = plain v p q"
  "plain v p (q\<lparr>pe_rights := (pe_rights q)\<lparr>rt_disable_audio := b\<rparr>\<rparr>) = plain v p q"
  "plain v p (q\<lparr>pe_rights := (pe_rights q)\<lparr>rt_show_my_cursor := b\<rparr>\<rparr>) = plain v p q"
  "plain v p (subscribe name b q) = plain v p q" "plain v p (update_auto_disconnect_timer v q) = plain v p q"
  by (simp_all add: plain_def adds_def subscribe_def update_auto_disconnect_timer_def)

lemma plain_conn: "plain v p q \<Longrightarrow> cn_keyboard c = cn_keyboard (pe_conn q) \<Longrightarrow> plain v p (q\<lparr>pe_conn := c\<rparr>)"
  by (simp add: plain_def adds_def)

lemma plain_fields: "plain v p q \<Longrightarrow> cn_keyboard (pe_conn q) = cn_keyboard (pe_conn p)"
  "plain v p q \<Longrightarrow> rt_block_input (pe_rights q) = rt_block_input (pe_rights p)"
  by (simp_all add: plain_def)

lemma plain_when_given: "plain v p q \<Longrightarrow> (\<And>b r. plain v p r \<Longrightarrow> plain v p (f b r)) \<Longrightarrow> plain v p (when_given g f q)"
  by (cases "given g") (simp_all add: when_given_def)

lemma plain_subscriptions [simp]:
  "plain v p (subscribe_audio q) = plain v p q" "plain v p (subscribe_file_clipboard v q) = plain v p q"
  by (simp_all add: subscribe_audio_def subscribe_file_clipboard_def)

section \<open>Options, displays and files\<close>

lemma toggle_privacy_plain: "plain v p q \<Longrightarrow> plain v p (toggle_privacy_mode v b key q)"
proof -
  assume q: "plain v p q"
  from toggle_privacy_only [of q v b key] obtain os s w
    where t: "toggle_privacy_mode v b key q = q\<lparr>pe_privacy := s, pe_privacy_world := w, pe_out := pe_out q @ os\<rparr>"
      and os: "\<forall>x \<in> set os. \<exists>n text key. x = ToPeer (SendPrivacy n text key)"
    unfolding privacy_only_def by blast
  have "list_all (accounted v p) os" using os by (fastforce simp: list_all_iff)
  with plain_puts [of v p "q\<lparr>pe_privacy := s, pe_privacy_world := w\<rparr>" os] q show ?thesis
    by (simp add: t puts_def)
qed

lemma options_plain: "plain v p q \<Longrightarrow> plain v p (update_options v o' q)"
proof -
  have "plain v p q \<Longrightarrow> plain v p (update_quality o' q)" for q by (simp add: update_quality_def Let_def split: option.split image_quality.split)
  moreover have "plain v p q \<Longrightarrow> plain v p (update_cursor_options v o' q)" for q
    by (simp add: update_cursor_options_def Let_def plain_when_given)
  moreover have "plain v p q \<Longrightarrow> plain v p (update_file_option v o' q)" for q
    by (simp add: update_file_option_def Let_def plain_when_given)
  moreover have "plain v p q \<Longrightarrow> plain v p (update_input_options v o' q)" for q
    by (simp add: update_input_options_def Let_def plain_when_given)
  moreover have "plain v p q \<Longrightarrow> plain v p (update_privacy_option v o' q)" for q
    by (simp add: update_privacy_option_def plain_when_given toggle_privacy_plain)
  moreover have "plain v p q \<Longrightarrow> plain v p (update_block_option o' q)" for q
    by (simp add: update_block_option_def plain_when_given plain_fields)
  moreover have "plain v p q \<Longrightarrow> plain v p (update_terminal_option v o' q)" for q
    by (simp add: update_terminal_option_def plain_when_given plain_conn)
  moreover have "plain v p q \<Longrightarrow> plain v p (update_whiteboard_option v o' q)" for q
    by (simp add: update_whiteboard_option_def Let_def plain_when_given)
  ultimately show "plain v p q \<Longrightarrow> plain v p (update_options v o' q)"
    by (simp add: update_options_def Let_def plain_when_given plain_conn)
qed

lemma resolution_plain: "plain v p q \<Longrightarrow> plain v p (change_resolution v d width height q)"
  by (auto simp: change_resolution_def Let_def plain_fields split: option.split prod.split if_splits)

lemma displays_plain [simp]:
  "plain v p (switch_display_to v d q) = plain v p q" "plain v p (peer_capture_displays add sub sets q) = plain v p q"
  "plain v p (refresh_video_display d' q) = plain v p q" "plain v p (try_sub_camera_displays v q) = plain v p q"
  by (simp_all add: switch_display_to_def peer_capture_displays_def refresh_video_display_def
      try_sub_camera_displays_def Let_def)

lemma switch_plain: "plain v p q \<Longrightarrow> plain v p (handle_switch_display v d width height q)"
  by (simp add: handle_switch_display_def Let_def resolution_plain)

lemma monitor_plain: "plain v p q \<Longrightarrow> plain v p (peer_sub_monitor_services v q)"
  by (simp add: peer_sub_monitor_services_def Let_def plain_conn)

lemma files_plain: "plain v p q \<Longrightarrow> plain v p (put_files f q)"
  by (simp add: put_files_def plain_conn)

section \<open>Every message\<close>

lemma plain_more:
  assumes "adds (accounted v p) p q"
  shows "\<exists>os. pe_out q = pe_out p @ os \<and> (\<forall>x \<in> set os. accounted v p x)"
  using assms by (auto simp: adds_def list_all_iff)

lemma mouse_adds: "adds (accounted v p) p (on_mouse_event v me p)"
  by (auto simp: on_mouse_event_def Let_def update_auto_disconnect_timer_def adds_def puts_def)

lemma pointer_adds: "adds (accounted v p) p (on_pointer_event v pde p)"
  by (auto simp: on_pointer_event_def Let_def update_auto_disconnect_timer_def adds_def puts_def
      split: option.split touch_event.split)

lemma press_out: "pe_out (press_modifier k b p) = pe_out p"
  by (simp add: press_modifier_def split: option.split)

lemma key_adds: "adds (accounted v p) p (on_key_event v me p)"
  by (auto simp: on_key_event_def Let_def update_auto_disconnect_timer_def adds_def puts_def press_out)

lemma clipboard_adds:
  "adds (accounted v p) p (on_clipboard v cb p)" "adds (accounted v p) p (on_multi_clipboards v cbs p)"
  by (auto simp: on_clipboard_def on_multi_clipboards_def adds_def puts_def)

lemma answers_accounted:
  assumes "pv_os v = Windows \<or> pv_unix_clip v"
  shows "list_all (accounted v p) (map answer_out cs)"
proof -
  have "accounted v p (answer_out c)" for c using assms by (cases c) simp_all
  then show ?thesis by (simp add: list_all_iff)
qed

lemma cliprdr_plain: "plain v p (on_cliprdr v clip p)"
  by (auto simp: on_cliprdr_def answers_accounted split: cliprdr.split)

lemma elevation_plain: "plain v p (handle_elevation_request v el p)"
  by (simp add: handle_elevation_request_def Let_def)

lemma virtual_plain: "plain v p (toggle_virtual_display v d on p)"
  by (simp add: toggle_virtual_display_def Let_def split: option.split)

lemma close_plain: "plain v p q \<Longrightarrow> plain v p (peer_on_close v q)"
  by (simp add: peer_on_close_def Let_def plain_conn)

lemma selected_plain: "plain v p (snd (on_selected_sid v sid p))"
  by (simp add: on_selected_sid_def monitor_plain files_plain split: option.split)

lemma misc_adds: "adds (accounted v p) p (snd (on_misc v m p))"
proof (cases "m = MiscRestartRemoteDevice")
  case True
  then show ?thesis by (auto simp: adds_def puts_def)
next
  case False
  then have "plain v p (snd (on_misc v m p))"
    by (cases m) (simp_all add: switch_plain virtual_plain toggle_privacy_plain plain_conn options_plain
        elevation_plain close_plain resolution_plain selected_plain)
  then show ?thesis by (auto simp: plain_def intro: adds_weaken)
qed

lemma message_adds:
  assumes "on_peer_message v m p = Some (k, q)"
  shows "adds (accounted v p) p q"
proof (cases "cn_authorized (pe_conn p) \<and> \<not> cn_port_forward_socket (pe_conn p)")
  case True
  with assms have m: "do_message v m p = Some (k, q)" by (simp add: on_peer_message_def)
  have weak: "adds (accounted v p) p r" if "plain v p r" for r
    using that by (auto simp: plain_def intro: adds_weaken)
  have misc: "on_misc v x p = (k, r) \<Longrightarrow> adds (accounted v p) p r" for x r using misc_adds [of v p x] by simp
  have call: "plain v p (close_voice_call p)" by (simp add: close_voice_call_def Let_def)
  have files: "peer_file_action v fa p = Some r \<Longrightarrow> adds (accounted v p) p r"
    "adds (accounted v p) p (peer_file_response fr p)" for fa fr r
    using weak [OF files_plain] by (auto simp: peer_file_action_def peer_file_response_def)
  from m show ?thesis
    by (cases m) (auto simp: mouse_adds pointer_adds key_adds clipboard_adds misc files
        weak [OF call] weak [OF cliprdr_plain] intro: weak split: if_splits option.splits)
next
  case False
  with assms show ?thesis by (auto simp: on_peer_message_def)
qed

end
