(* ===== verification/Peer_Properties.thy ===== *)
theory Peer_Properties
  imports Peer_Effects Connection_Transfers Logon_Safety
begin

text \<open>
  What holds of a connection over all it does: no subscription and no effect without the permission for it, on
  a whole run up to the thread that plays the input; and the cases where a permission does not do what its
  name says.
\<close>

section \<open>Runs of a connection\<close>

text \<open>
  The messages of the peer and the permissions switched by the user, in the order the loop of the connection
  takes them; a message after which the loop ends is the last one. \<open>None\<close> is a panic.
\<close>

datatype peer_event = FromPeer peer_message | FromUser string bool

fun peer_event_step :: "peer_env \<Rightarrow> peer_event \<Rightarrow> peer \<Rightarrow> (bool \<times> peer) option" where
  "peer_event_step v (FromPeer m) p = on_peer_message v m p"
| "peer_event_step v (FromUser name b) p = Some (True, switch_permission v name b p)"

fun peer_run :: "peer_env \<Rightarrow> peer_event list \<Rightarrow> peer \<Rightarrow> peer option" where
  "peer_run v [] p = Some p"
| "peer_run v (e # es) p =
     (case peer_event_step v e p of
        None \<Rightarrow> None
      | Some (go_on, q) \<Rightarrow> if go_on then peer_run v es q else Some q)"

lemma user_quiet: "adds (\<lambda>x. \<forall>m. x \<noteq> ToInput m) p (switch_permission v name b p)"
  by (auto simp: switch_permission_def adds_def puts_def subscribe_def subscribe_file_clipboard_def subscribe_audio_def Let_def)

text \<open>What holds along a run, and what all its effects have in common.\<close>

lemma run_effects:
  assumes "peer_run v es p = Some q" "I p"
    and step: "\<And>e r k s. e \<in> set es \<Longrightarrow> I r \<Longrightarrow> peer_event_step v e r = Some (k, s) \<Longrightarrow> I s \<and> adds Q r s"
  shows "I q \<and> adds Q p q"
  using assms
proof (induction es arbitrary: p)
  case (Cons e es)
  from Cons.prems(1) obtain k r where r: "peer_event_step v e p = Some (k, r)"
      and q: "q = r \<or> peer_run v es r = Some q"
    by (auto split: option.splits prod.splits if_splits)
  from Cons.prems(3) [OF _ Cons.prems(2) r] have ir: "I r" "adds Q p r" by simp_all
  from q show ?case
  proof
    assume "q = r"
    with ir show ?thesis by simp
  next
    assume "peer_run v es r = Some q"
    from Cons.IH [OF this ir(1)] have "I q \<and> adds Q r q" by (meson Cons.prems(3) list.set_intros(2))
    with ir(2) show ?thesis by (auto simp: adds_def)
  qed
qed simp

section \<open>Who plays input\<close>

lemma same_keyboard: "same_rights p q \<Longrightarrow> cn_keyboard (pe_conn q) = cn_keyboard (pe_conn p)
    \<and> rt_block_input (pe_rights q) = rt_block_input (pe_rights p)"
  by (simp add: same_rights_def)

lemma misc_keyboard:
  "cn_keyboard (pe_conn (snd (on_misc v m p))) = cn_keyboard (pe_conn p)
   \<and> rt_block_input (pe_rights (snd (on_misc v m p))) = rt_block_input (pe_rights p)"
proof (cases "m = MiscRestartRemoteDevice")
  case True
  then show ?thesis by simp
next
  case False
  then have "plain v p (snd (on_misc v m p))"
    by (cases m) (simp_all add: switch_plain virtual_plain toggle_privacy_plain plain_conn options_plain
        elevation_plain close_plain resolution_plain selected_plain)
  then show ?thesis by (simp add: plain_fields)
qed

lemma message_keyboard:
  assumes "on_peer_message v m p = Some (k, q)"
  shows "cn_keyboard (pe_conn q) = cn_keyboard (pe_conn p) \<and> rt_block_input (pe_rights q) = rt_block_input (pe_rights p)"
proof (cases "cn_authorized (pe_conn p) \<and> \<not> cn_port_forward_socket (pe_conn p)")
  case True
  with assms have m: "do_message v m p = Some (k, q)" by (simp add: on_peer_message_def)
  have call: "plain v p (close_voice_call p)" by (simp add: close_voice_call_def Let_def)
  have misc: "on_misc v x p = (k, r) \<Longrightarrow> cn_keyboard (pe_conn r) = cn_keyboard (pe_conn p)
      \<and> rt_block_input (pe_rights r) = rt_block_input (pe_rights p)" for x r using misc_keyboard [of v x p] by simp
  have shot: "pe_conn (refresh_video_display d r) = pe_conn r" "pe_rights (refresh_video_display d r) = pe_rights r" for d r
    by (simp_all add: refresh_video_display_def)
  from m show ?thesis
    by (cases m) (auto simp: shot plain_fields [OF call] dest!: misc same_keyboard [OF peer_files_same(1)]
        simp: same_keyboard [OF mouse_same] same_keyboard [OF pointer_same] same_keyboard [OF key_same]
        same_keyboard [OF clipboard_same(1)] same_keyboard [OF clipboard_same(2)] same_keyboard [OF clipboard_same(3)]
        same_keyboard [OF peer_files_same(2)] split: if_splits option.splits)
next
  case False
  with assms show ?thesis by (auto simp: on_peer_message_def)
qed

lemma switch_keyboard:
  "name \<noteq> ''keyboard'' \<or> \<not> b \<Longrightarrow> cn_keyboard (pe_conn (switch_permission v name b p)) \<Longrightarrow> cn_keyboard (pe_conn p)"
  "name \<noteq> ''block_input'' \<or> \<not> b \<Longrightarrow> rt_block_input (pe_rights (switch_permission v name b p)) \<Longrightarrow> rt_block_input (pe_rights p)"
  by (auto simp: switch_permission_def subscribe_file_clipboard_def subscribe_audio_def Let_def split: if_splits)

section \<open>The thread that plays the input\<close>

text \<open>
  What a run sends to the input thread. The thread takes it in this order, with timeouts (\<open>None\<close>) between.
\<close>

fun input_of :: "peer_out \<Rightarrow> message_input option" where
  "input_of (ToInput m) = Some m"
| "input_of _ = None"

definition inputs :: "peer_out list \<Rightarrow> message_input list" where
  "inputs os = List.map_filter input_of os"

lemma input_of_Some: "input_of x = Some m \<longleftrightarrow> x = ToInput m"
  by (cases x) auto

lemma map_filter_set: "m \<in> set (List.map_filter f xs) \<longleftrightarrow> (\<exists>x \<in> set xs. f x = Some m)"
  by (induction xs) (auto simp: List.map_filter_simps split: option.splits)

lemma inputs_set: "m \<in> set (inputs os) \<longleftrightarrow> ToInput m \<in> set os"
  by (auto simp: inputs_def map_filter_set input_of_Some)

lemma taken_set: "List.map_filter id ms = inputs os \<Longrightarrow> Some m \<in> set ms \<longleftrightarrow> ToInput m \<in> set os"
proof -
  assume "List.map_filter id ms = inputs os"
  then have "m \<in> set (List.map_filter id ms) \<longleftrightarrow> ToInput m \<in> set os" by (simp add: inputs_set)
  then show ?thesis by (simp add: map_filter_set)
qed

fun shown_only :: "message_input \<Rightarrow> bool" where
  "shown_only (InputMouse _ _ _ _ simulate show) = (\<not> simulate \<and> show)"
| "shown_only _ = False"

fun cursor_shown :: "input_effect \<Rightarrow> bool" where
  "cursor_shown (PlayMouse _ _ _ _ simulate show) = (\<not> simulate \<and> show)"
| "cursor_shown _ = False"

lemma thread_shows_only:
  "(\<And>m. Some m \<in> set ms \<Longrightarrow> shown_only m) \<Longrightarrow> handle_input blk ms blocked = (mode, fx)
    \<Longrightarrow> mode = blocked \<and> list_all (\<lambda>e. cursor_shown e \<or> blocked \<and> e = CallBlockInput True) fx"
proof (induction ms arbitrary: mode fx)
  case Nil
  then show ?case by (auto simp: handle_input_timeout_def)
next
  case (Cons x ms)
  obtain mode' fx' where r: "handle_input blk ms blocked = (mode', fx')" by fastforce
  from Cons.IH [OF _ r] Cons.prems(1)
  have ih: "mode' = blocked \<and> list_all (\<lambda>e. cursor_shown e \<or> blocked \<and> e = CallBlockInput True) fx'" by simp
  show ?case
  proof (cases x)
    case None
    with Cons.prems(2) r ih show ?thesis by (auto simp: handle_input_timeout_def split: if_splits)
  next
    case (Some m)
    with Cons.prems(1) have "shown_only m" by simp
    with Some Cons.prems(2) r ih show ?thesis by (cases m) auto
  qed
qed

text \<open>What the thread does while the input is blocked and nothing ends the block.\<close>

fun while_blocked :: "(bool \<Rightarrow> bool \<times> string) \<Rightarrow> message_input option \<Rightarrow> input_effect list" where
  "while_blocked blk None = [CallBlockInput True]"
| "while_blocked blk (Some m) = snd (handle_input_message blk m True)"

lemma thread_stays_blocked:
  "Some BlockOn \<notin> set ms \<Longrightarrow> Some BlockOff \<notin> set ms
    \<Longrightarrow> handle_input blk ms True = (True, concat (map (while_blocked blk) ms) @ [CallBlockInput True])
      \<and> CallBlockInput False \<notin> set (concat (map (while_blocked blk) ms))"
proof (induction ms)
  case Nil
  then show ?case by (simp add: handle_input_timeout_def)
next
  case (Cons x ms)
  show ?case
  proof (cases x)
    case None
    with Cons show ?thesis by (simp add: handle_input_timeout_def)
  next
    case (Some m)
    with Cons show ?thesis by (cases m) (auto simp: Let_def)
  qed
qed

section \<open>Examples\<close>

text \<open>A peer that was let in, on a Mac, with all permissions but that to restart; it is subscribed to nothing yet.\<close>

definition sample_rights :: rights where
  "sample_rights = \<lparr>rt_clipboard = True, rt_audio = True, rt_restart = False, rt_recording = True, rt_block_input = True,
     rt_disable_keyboard = False, rt_disable_clipboard = False, rt_disable_audio = False,
     rt_enable_file_transfer = True, rt_show_remote_cursor = False, rt_follow_remote_cursor = False,
     rt_follow_remote_window = False, rt_show_my_cursor = False\<rparr>"

definition peer_services :: server where
  "peer_services = \<lparr>srv_connections = [], srv_services =
     [(''monitor0'', service_new ''monitor0'' True), (NAME_CLIPBOARD, service_new NAME_CLIPBOARD True),
      (NAME_FILE_CLIPBOARD, service_new NAME_FILE_CLIPBOARD True)], srv_id_count = 1000\<rparr>"

definition sample_peer :: "bool \<Rightarrow> peer" where
  "sample_peer authorized = \<lparr>pe_conn = (conn_start sample_env 7 None sample_hash (sample_world [] []))
       \<lparr>cn_keyboard := True, cn_authorized := authorized, cn_authed_conn := (if authorized then Some Remote else None),
        cn_port_forward_socket := False, cn_view_camera := False\<rparr>,
     pe_argb = 0, pe_inner = sample_conn 7, pe_server = peer_services, pe_rights = sample_rights, pe_files = conn_demo,
     pe_privacy = demo_manager, pe_privacy_world = demo_world, pe_multi_ui_session = False, pe_display_idx = 0,
     pe_voice_request = None, pe_voice_calling = False, pe_audio_sender = False, pe_pressed = [],
     pe_disconnect_timer = None, pe_click_time = 0, pe_mouse_move_time = 0, pe_out = []\<rparr>"

definition sample_peer_env :: peer_env where
  "sample_peer_env = \<lparr>pv_login = sample_env, pv_files = conn_demo_env, pv_app = demo_app, pv_unix_clip = True,
     pv_primary = 0, pv_camera_exists = False, pv_time = 1000, pv_privacy_supported = True, pv_privacy_check = '''',
     pv_privacy_in_time = True, pv_whiteboard = '''', pv_key_of = (\<lambda>c. OtherKey (unat c)), pv_retina = (\<lambda>me _. me),
     pv_displays = None, pv_display_known = (\<lambda>_ d. d = 0), pv_virtual = (\<lambda>_. False), pv_amyuni = (\<lambda>_. False),
     pv_serve_clip = (\<lambda>_. []), pv_mac_handles = (\<lambda>_. False), pv_terminal = (\<lambda>_. None), pv_virtual_supported = False,
     pv_plug_in = (\<lambda>_. None), pv_plug_out = (\<lambda>_. None), pv_portable_running = False, pv_start_portable = (\<lambda>_. None),
     pv_share_rdp = False, pv_current_sid = None, pv_sessions = [], pv_only_connection = True\<rparr>"

definition sample_key :: key_event where
  "sample_key = \<lparr>ke_down = True, ke_press = False, ke_union = Some (Chr 97), ke_modifiers = [], ke_mode = Some LegacyMode\<rparr>"

lemmas sample_peer_defs = sample_peer_def sample_rights_def sample_peer_env_def sample_env_def peer_services_def
  sample_conn_def conn_start_def

lemma sample_peer_wf: "server_wf (pe_server (sample_peer b))"
  by (simp add: sample_peer_def peer_services_def server_wf_def hm_wf_def service_new_wf service_names) (simp add: service_new_def)

lemma sample_contains:
  "srv_contains (pe_server (sample_peer b)) NAME_CLIPBOARD" "srv_contains (pe_server (sample_peer b)) NAME_FILE_CLIPBOARD"
  by (simp_all add: sample_peer_def peer_services_def srv_contains_def hm_contains_def service_names)

lemma sample_subed: "\<not> subed (sample_peer b) n"
  by (auto simp: subed_def subed_to_def sample_peer_def peer_services_def is_subed_def service_new_def
      hm_contains_def split: option.splits if_splits)

section \<open>No more than the permissions allow\<close>

text \<open>
  C24: From the start of a connection on, whatever requests, log-ons, messages, calls and switches of
  permissions there are in whatever order, a subscription goes with the right to it: the clipboard with the
  permission and, for desktop connections, the keyboard, and never while redirection goes one way; copied
  files with the permission for files; audio with its permission on an authorised connection, for a viewer of
  the camera in a voice call only; the position of the cursor and the focus of windows with the options.
\<close>

theorem never_beyond_rights:
  assumes "peer_new p" "(peer_step v)\<^sup>*\<^sup>* p q"
  shows "(subed_to (pe_server q) ''clipboard'' (ci_id (pe_inner q)) \<longrightarrow>
        rt_clipboard (pe_rights q) \<and> \<not> rt_disable_clipboard (pe_rights q)
        \<and> (peer_keyboard_enabled q \<or> cn_view_camera (pe_conn q) \<or> cn_terminal (pe_conn q))
        \<and> \<not> builtin_is (pv_app v) ''one-way-clipboard-redirection'' ''Y'')
    \<and> (subed_to (pe_server q) ''file-clipboard'' (ci_id (pe_inner q)) \<longrightarrow> pv_unix_clip v \<longrightarrow>
        nf_file (pe_files q) \<and> rt_enable_file_transfer (pe_rights q)
        \<and> \<not> builtin_is (pv_app v) ''one-way-file-transfer'' ''Y'')
    \<and> (subed_to (pe_server q) ''audio'' (ci_id (pe_inner q)) \<longrightarrow>
        rt_audio (pe_rights q) \<and> \<not> rt_disable_audio (pe_rights q) \<and> cn_authorized (pe_conn q)
        \<and> (is_authed ViewCamera q \<longrightarrow> pe_voice_calling q))
    \<and> (subed_to (pe_server q) ''mouse_pos'' (ci_id (pe_inner q)) \<longrightarrow> rt_show_remote_cursor (pe_rights q))
    \<and> (subed_to (pe_server q) ''window_focus'' (ci_id (pe_inner q)) \<longrightarrow> rt_follow_remote_window (pe_rights q))"
proof -
  have inv: "subed q n \<longrightarrow> allowed v q n" for n
    using reachable_inv [OF assms(2) new_inv [OF assms(1)]] by (simp add: inv_except_def)
  have "subed q NAME_CLIPBOARD \<longrightarrow> rt_clipboard (pe_rights q) \<and> \<not> rt_disable_clipboard (pe_rights q)
        \<and> (peer_keyboard_enabled q \<or> cn_view_camera (pe_conn q) \<or> cn_terminal (pe_conn q))
        \<and> \<not> builtin_is (pv_app v) ''one-way-clipboard-redirection'' ''Y''"
    using inv [of NAME_CLIPBOARD] by (simp add: allowed_at clipboard_enabled_def keyboardless_def)
  moreover have "subed q NAME_FILE_CLIPBOARD \<longrightarrow> pv_unix_clip v \<longrightarrow> nf_file (pe_files q)
        \<and> rt_enable_file_transfer (pe_rights q) \<and> \<not> builtin_is (pv_app v) ''one-way-file-transfer'' ''Y''"
    using inv [of NAME_FILE_CLIPBOARD] by (simp add: allowed_at file_transfer_enabled_def)
  moreover have "subed q NAME_AUDIO \<longrightarrow> rt_audio (pe_rights q) \<and> \<not> rt_disable_audio (pe_rights q)
        \<and> cn_authorized (pe_conn q) \<and> (is_authed ViewCamera q \<longrightarrow> pe_voice_calling q)"
    using inv [of NAME_AUDIO] by (simp add: allowed_at audio_enabled_def)
  moreover have "subed q NAME_POS \<longrightarrow> rt_show_remote_cursor (pe_rights q)"
    "subed q NAME_WINDOW_FOCUS \<longrightarrow> rt_follow_remote_window (pe_rights q)"
    using inv [of NAME_POS] inv [of NAME_WINDOW_FOCUS] by (simp_all add: allowed_at)
  ultimately show ?thesis unfolding subed_def service_names by (intro conjI)
qed


text \<open>
  C26: Once the user has taken the keyboard away and does not give it back, nothing is played any more: whatever
  the peer sends, in whatever mixture with other switches, and however the input thread is scheduled, the
  thread shows cursors and does nothing else, except that a block of the user's input that was on already is
  renewed; no block begins and none ends.
\<close>

theorem silenced_peer_plays_nothing:
  assumes "peer_run v es p = Some q" "\<not> cn_keyboard (pe_conn p)" "FromUser ''keyboard'' True \<notin> set es"
    "pe_out q = pe_out p @ os" "List.map_filter id ms = inputs os" "handle_input blk ms blocked = (mode, fx)"
  shows "mode = blocked \<and> (\<forall>e \<in> set fx. (\<exists>me i name argb. e = PlayMouse me i name argb False True)
      \<or> blocked \<and> e = CallBlockInput True)"
proof -
  let ?Q = "\<lambda>x. \<forall>m. x = ToInput m \<longrightarrow> shown_only m"
  have "\<not> cn_keyboard (pe_conn q) \<and> adds ?Q p q"
  proof (rule run_effects [OF assms(1), where I = "\<lambda>r. \<not> cn_keyboard (pe_conn r)"])
    fix e r k s
    assume e: "e \<in> set es" and r: "\<not> cn_keyboard (pe_conn r)" and s: "peer_event_step v e r = Some (k, s)"
    show "\<not> cn_keyboard (pe_conn s) \<and> adds ?Q r s"
    proof (cases e)
      case (FromPeer m)
      with s have m: "on_peer_message v m r = Some (k, s)" by simp
      have "accounted v r x \<Longrightarrow> ?Q x" for x
        using r by (cases "(v, r, x)" rule: permitted.cases) (auto simp: peer_keyboard_enabled_def split: if_splits)
      with message_adds [OF m] message_keyboard [OF m] r show ?thesis by (auto intro: adds_weaken)
    next
      case (FromUser name b)
      have "name \<noteq> ''keyboard'' \<or> \<not> b" using e FromUser assms(3) by (cases b) auto
      with s r FromUser have "\<not> cn_keyboard (pe_conn s)" using switch_keyboard(1) [of name b v r] by auto
      moreover have "adds ?Q r (switch_permission v name b r)" by (rule adds_weaken [OF user_quiet]) simp
      ultimately show ?thesis using s FromUser by simp
    qed
  qed (rule assms(2))
  then have "ToInput m \<in> set os \<Longrightarrow> shown_only m" for m
    using assms(4) by (auto simp: adds_def list_all_iff)
  then have "mode = blocked \<and> list_all (\<lambda>e. cursor_shown e \<or> blocked \<and> e = CallBlockInput True) fx"
    using thread_shows_only [OF _ assms(6)] taken_set [OF assms(5)] by blast
  moreover have "cursor_shown e \<Longrightarrow> \<exists>me i name argb. e = PlayMouse me i name argb False True" for e
    by (cases e) auto
  ultimately show ?thesis by (fastforce simp: list_all_iff)
qed

section \<open>Where a permission does less than its name says\<close>

text \<open>
  C27: A permission to block the input of the user, or the keyboard, that is taken away while the input is
  blocked and not given back frees nothing: whatever the peer sends afterwards, also that it wants the block to
  end, and whatever other permissions are switched, the thread handles each message as under the block, never
  unblocks, blocks again at every timeout, and the last thing it does when the connection ends is to block.
\<close>

theorem revoked_block_stays:
  assumes "peer_run v es p = Some q" "\<not> (cn_keyboard (pe_conn p) \<and> rt_block_input (pe_rights p))"
    "FromUser ''keyboard'' True \<notin> set es" "FromUser ''block_input'' True \<notin> set es"
    "pe_out q = pe_out p @ os" "List.map_filter id ms = inputs os" "handle_input blk ms True = (mode, fx)"
  shows "mode \<and> fx = concat (map (while_blocked blk) ms) @ [CallBlockInput True] \<and> CallBlockInput False \<notin> set fx"
proof -
  let ?I = "\<lambda>r. \<not> (cn_keyboard (pe_conn r) \<and> rt_block_input (pe_rights r))"
  let ?Q = "\<lambda>x. x \<noteq> ToInput BlockOn \<and> x \<noteq> ToInput BlockOff"
  have "?I q \<and> adds ?Q p q"
  proof (rule run_effects [OF assms(1), where I = ?I])
    fix e r k s
    assume e: "e \<in> set es" and r: "?I r" and s: "peer_event_step v e r = Some (k, s)"
    show "?I s \<and> adds ?Q r s"
    proof (cases e)
      case (FromPeer m)
      with s have m: "on_peer_message v m r = Some (k, s)" by simp
      have "accounted v r x \<Longrightarrow> ?Q x" for x using r by auto
      with message_adds [OF m] message_keyboard [OF m] r show ?thesis by (auto intro: adds_weaken)
    next
      case (FromUser name b)
      have "name \<noteq> ''keyboard'' \<or> \<not> b" "name \<noteq> ''block_input'' \<or> \<not> b" using e FromUser assms(3,4) by (cases b; auto)+
      with s r FromUser have "?I s" using switch_keyboard [of name b v r] by auto
      moreover have "adds ?Q r (switch_permission v name b r)" by (rule adds_weaken [OF user_quiet]) simp
      ultimately show ?thesis using s FromUser by simp
    qed
  qed (rule assms(2))
  then have "ToInput BlockOn \<notin> set os" "ToInput BlockOff \<notin> set os"
    using assms(5) by (auto simp: adds_def list_all_iff)
  then have "Some BlockOn \<notin> set ms" "Some BlockOff \<notin> set ms" using taken_set [OF assms(6)] by blast+
  from thread_stays_blocked [OF this, of blk] assms(7) show ?thesis by auto
qed

text \<open>
  C28: Switching the permission for the clipboard on for a peer that has the keyboard, or the keyboard for a
  peer that has the clipboard, subscribes the peer to the clipboard although it has not logged on, whether or
  not the permission was on before: what is copied from then on is sent to it, without any password.
\<close>

theorem unauthorised_peer_gets_clipboard:
  assumes "server_wf (pe_server p)" "srv_contains (pe_server p) NAME_CLIPBOARD" "\<not> cn_authorized (pe_conn p)"
    "name = ''clipboard'' \<and> cn_keyboard (pe_conn p) \<or> name = ''keyboard'' \<and> rt_clipboard (pe_rights p)"
    "\<not> rt_disable_keyboard (pe_rights p)" "\<not> rt_disable_clipboard (pe_rights p)"
    "\<not> builtin_is (pv_app v) ''one-way-clipboard-redirection'' ''Y''"
  shows "subed (switch_permission v name True p) NAME_CLIPBOARD
    \<and> \<not> cn_authorized (pe_conn (switch_permission v name True p))"
proof -
  have can: "rt_clipboard (pe_rights p) \<Longrightarrow> can_sub_clipboard_service v (puts os (p\<lparr>pe_conn := (pe_conn p)\<lparr>cn_keyboard := True\<rparr>\<rparr>))"
    "cn_keyboard (pe_conn p) \<Longrightarrow> can_sub_clipboard_service v (puts os (p\<lparr>pe_rights := (pe_rights p)\<lparr>rt_clipboard := True\<rparr>\<rparr>))" for os
    using assms(5-7) by (simp_all add: can_sub_clipboard_service_def clipboard_enabled_def peer_keyboard_enabled_def)
  have names: "NAME_CURSOR \<noteq> NAME_CLIPBOARD" "NAME_FILE_CLIPBOARD \<noteq> NAME_CLIPBOARD" by (simp_all add: service_names)
  from assms(4) consider "name = ''clipboard''" "cn_keyboard (pe_conn p)" | "name = ''keyboard''" "rt_clipboard (pe_rights p)"
    by blast
  then show ?thesis
  proof cases
    case 1
    with assms(1-3) can show ?thesis by (simp add: switch_permission_def Let_def subed_subscribe)
  next
    case 2
    with assms(1-3) can names show ?thesis
      by (simp add: switch_permission_def Let_def subed_subscribe subscribe_wf subed_subscribe_file_clipboard)
  qed
qed

text \<open>
  Taking the permission for the clipboard away leaves a peer subscribed to copied files, although it may
  no longer be subscribed to them.
\<close>

theorem revoked_clipboard_keeps_files:
  assumes "server_wf (pe_server p)" "subed p NAME_FILE_CLIPBOARD"
  shows "subed (switch_permission v ''clipboard'' False p) NAME_FILE_CLIPBOARD
    \<and> \<not> can_sub_file_clipboard_service v (switch_permission v ''clipboard'' False p)"
  using assms by (simp add: switch_permission_def Let_def subed_subscribe service_names
      can_sub_file_clipboard_service_def clipboard_enabled_def)

lemma contains_with_video:
  "srv_contains (with_video_service src d s) n \<longleftrightarrow> srv_contains s n \<or> n = get_service_name src d"
  by (auto simp: with_video_service_def add_service_def video_new srv_contains_def hm_contains_def)

lemma contains_with_videos:
  "srv_contains (fold (with_video_service src) ds s) n \<longleftrightarrow> srv_contains s n \<or> n \<in> get_service_name src ` set ds"
  by (induction ds arbitrary: s) (auto simp: contains_with_video)

lemma captured_displays:
  assumes "server_wf (pe_server p)" "add \<noteq> []" "d \<in> set add"
  shows "subed (peer_capture_displays add sub sets p) (get_service_name (video_source_of p) d)"
proof -
  define src where "src = video_source_of p"
  define s where "s = fold (with_video_service src) sets (fold (with_video_service src) add (pe_server p))"
  have wf: "server_wf s"
    using assms(1) video_change_trans [OF video_with_all video_with_all] by (auto simp: s_def video_change_def)
  have "srv_contains s (get_service_name src d)" using assms(3) by (auto simp: s_def contains_with_videos)
  then have c: "subed_to (capture_displays s (pe_inner p) src add True False) (get_service_name src d) (ci_id (pe_inner p))"
    "server_wf (capture_displays s (pe_inner p) src add True False)"
    using capture_displays_facts [OF wf] assms(3) by (auto simp: video_name)
  have "get_service_name src d \<noteq> NAME_WINDOW_FOCUS" using right_name_not_video [of NAME_WINDOW_FOCUS src d] by force
  with c assms(2) show ?thesis
    by (simp add: peer_capture_displays_def Let_def src_def [symmetric] s_def [symmetric] subed_def subed_to_subscribe)
qed

text \<open>
  C29: A peer that was let in to transfer files sees and controls the desktop if it asks for it: the displays
  it names are captured for it although no such service was subscribed to when it logged on, and its keys are
  played as those of a desktop connection are.
\<close>

theorem file_transfer_peer_controls_desktop:
  assumes "is_authed FileTransfer p" "cn_authorized (pe_conn p)" "\<not> cn_port_forward_socket (pe_conn p)"
    "\<not> cn_view_camera (pe_conn p)" "server_wf (pe_server p)" "displays \<noteq> []" "\<not> is_mobile (pv_os v)"
    "peer_keyboard_enabled p"
  shows "(\<exists>q. on_peer_message v (PeerMisc (MiscCaptureDisplays displays [] [])) p = Some (True, q)
      \<and> (\<forall>d \<in> set displays. subed q (get_service_name Monitor (usize_of d))))
    \<and> (\<exists>q press. on_peer_message v (KeyEvent me) p = Some (True, q) \<and> ToInput (InputKey me press) \<in> set (pe_out q))"
proof
  have "video_source_of p = Monitor" using assms(4) by (simp add: video_source_of_def)
  then show "\<exists>q. on_peer_message v (PeerMisc (MiscCaptureDisplays displays [] [])) p = Some (True, q)
      \<and> (\<forall>d \<in> set displays. subed q (get_service_name Monitor (usize_of d)))"
    using captured_displays [of p "map usize_of displays"] assms(2,3,5,6) by (simp add: on_peer_message_def)
  have "\<not> is_authed ViewCamera p" "pv_os v \<noteq> IOS" "pv_os v \<noteq> Android"
    using assms(1,7) by (auto simp: is_authed_def)
  then show "\<exists>q press. on_peer_message v (KeyEvent me) p = Some (True, q) \<and> ToInput (InputKey me press) \<in> set (pe_out q)"
    using assms(2,3,8)
    by (auto simp: on_peer_message_def on_key_event_def Let_def puts_def update_auto_disconnect_timer_def)
qed

text \<open>
  While one connection holds the privacy mode, a request of another for it is refused and ends it: the
  mode is turned off under the id that stands for nobody, so unless turning off fails the screen of the first
  connection is shown again.
\<close>

theorem second_privacy_request_turns_off:
  assumes "get_privacy_mode_conn_id privacy_impls (pe_privacy p) = Some a" "a \<noteq> 0" "ci_id (pe_inner p) \<noteq> a"
    "pv_privacy_supported v"
    "turn_off_privacy privacy_impls 0 None (pe_privacy p) (pe_privacy_world p) = (Some (Inr u), s, w)"
  shows "\<not> is_in_privacy_mode privacy_impls (pe_privacy (peer_turn_on_privacy v key p))
    \<and> last (pe_out (peer_turn_on_privacy v key p)) = ToPeer (SendPrivacy PrvOnFailed OCCUPIED key)"
proof -
  have holder: "pv.holder (pe_privacy p) = a" using assms(1) by (rule pv_holder)
  have on: "turn_on_privacy privacy_impls b k (ci_id (pe_inner p)) (pe_privacy p) (pe_privacy_world p)
      = (Some (Inl OCCUPIED), pe_privacy p, pe_privacy_world p)" for b k
    unfolding not_async using pv.turn_on_other [of "pe_privacy p" "ci_id (pe_inner p)"] holder assms(2,3) by simp
  obtain m m' where m: "pm_mode (pe_privacy p) = Some m"
      "pt_turn_off privacy_impls 0 None m (pe_privacy_world p) = (Inr u, m', w)" "s = (pe_privacy p)\<lparr>pm_mode := Some m'\<rparr>"
    using assms(5) by (auto simp: turn_off_privacy_def split: option.splits prod.splits)
  have "pt_pre_conn_id privacy_impls m' = 0" using pv.off_result [OF m(2)] by simp
  then have off: "\<not> is_in_privacy_mode privacy_impls s"
    by (simp add: m(3) is_in_privacy_mode_def INVALID_PRIVACY_MODE_CONN_ID_def)
  have held: "is_in_privacy_mode privacy_impls (pe_privacy p)"
    using assms(1,2) by (auto simp: is_in_privacy_mode_def get_privacy_mode_conn_id_def INVALID_PRIVACY_MODE_CONN_ID_def)
  define notice where "notice = (case get_cur_impl_key privacy_impls (pe_privacy p) of
      Some pre \<Rightarrow> if \<not> is_current_privacy_mode_impl privacy_impls pre (pe_privacy p)
                  then puts [ToPeer (SendPrivacy PrvOffSucceeded '''' pre)] p else p
    | None \<Rightarrow> p)"
  have same: "pe_privacy notice = pe_privacy p" "pe_privacy_world notice = pe_privacy_world p" "pe_inner notice = pe_inner p"
    by (simp_all add: notice_def puts_def split: option.split)
  have "peer_turn_on_privacy v key p
      = puts [ToPeer (SendPrivacy PrvOnFailed OCCUPIED key)] (notice\<lparr>pe_privacy := s, pe_privacy_world := w\<rparr>)"
    unfolding peer_turn_on_privacy_def Let_def notice_def [symmetric] if_P [OF held] same on prod.case
    using assms(4,5) held same
    by (simp add: turn_off_privacy_to_msg_def INVALID_PRIVACY_MODE_CONN_ID_def)
  with off show ?thesis by (simp add: puts_def)
qed

section \<open>The properties on the examples\<close>

lemma sample_facts:
  "cn_keyboard (pe_conn (sample_peer b))" "cn_authorized (pe_conn (sample_peer b)) = b"
  "\<not> cn_port_forward_socket (pe_conn (sample_peer b))" "\<not> cn_view_camera (pe_conn (sample_peer b))"
  "cn_authed_conn (pe_conn (sample_peer b)) = (if b then Some Remote else None)"
  "pe_rights (sample_peer b) = sample_rights" "pe_out (sample_peer b) = []" "pe_inner (sample_peer b) = sample_conn 7"
  "pe_files (sample_peer b) = conn_demo" "pv_os sample_peer_env = MacOS" "pv_app sample_peer_env = demo_app"
  by (simp_all add: sample_peer_def sample_peer_env_def sample_env_def)

lemma sample_app: "\<not> builtin_is demo_app name ''Y''"
  by (simp add: builtin_is_def setting_is_def demo_app_def)

theorem never_beyond_rights_witness:
  "let q = switch_permission sample_peer_env ''clipboard'' True (sample_peer False)
   in subed_to (pe_server q) ''clipboard'' (ci_id (pe_inner q)) \<and> rt_clipboard (pe_rights q) \<and> peer_keyboard_enabled q"
proof -
  let ?p = "sample_peer False"
  let ?q = "switch_permission sample_peer_env ''clipboard'' True ?p"
  have new: "peer_new ?p" by (simp add: peer_new_def sample_peer_wf sample_subed sample_facts)
  have "(peer_step sample_peer_env)\<^sup>*\<^sup>* ?p ?q" by (rule r_into_rtranclp) (rule peer_step.permission)
  note all = never_beyond_rights [OF new this]
  have "subed ?q NAME_CLIPBOARD"
    by (simp add: switch_permission_def Let_def subed_subscribe sample_peer_wf sample_contains
        can_sub_clipboard_service_def clipboard_enabled_def peer_keyboard_enabled_def sample_facts sample_rights_def sample_app)
  then have "subed_to (pe_server ?q) ''clipboard'' (ci_id (pe_inner ?q))" by (simp add: subed_def service_names)
  moreover have "\<not> cn_view_camera (pe_conn ?q)" "\<not> cn_terminal (pe_conn ?q)"
    by (simp_all add: switch_permission_def Let_def sample_facts) (simp add: sample_peer_def conn_start_def)
  ultimately show ?thesis using all by (simp add: Let_def)
qed


lemma taken_all: "List.map_filter id (map Some xs) = xs"
  by (induction xs) (simp_all add: List.map_filter_simps)

definition silenced_peer :: peer where
  "silenced_peer = (let p = sample_peer True in
     p\<lparr>pe_conn := (pe_conn p)\<lparr>cn_keyboard := False\<rparr>, pe_rights := sample_rights\<lparr>rt_show_my_cursor := True\<rparr>\<rparr>)"

theorem silenced_peer_plays_nothing_witness:
  "let me = \<lparr>me_mask = 9, me_x = 3, me_y = 4\<rparr>;
       (mode, fx) = handle_input (\<lambda>_. (True, '''')) (map Some (inputs (pe_out (on_mouse_event sample_peer_env me silenced_peer)))) False
   in \<not> mode \<and> fx \<noteq> [] \<and> (\<exists>i name argb. hd fx = PlayMouse me i name argb False True)"
proof -
  define me where "me = \<lparr>me_mask = (9 :: i32), me_x = 3, me_y = 4\<rparr>"
  define q where "q = on_mouse_event sample_peer_env me silenced_peer"
  have sel: "\<not> cn_keyboard (pe_conn silenced_peer)" "pe_out silenced_peer = []"
    by (simp_all add: silenced_peer_def Let_def sample_facts)
  have run: "peer_run sample_peer_env [FromPeer (MouseEvent me)] silenced_peer = Some q"
    by (simp add: on_peer_message_def q_def silenced_peer_def Let_def sample_facts)
  obtain name argb where out: "pe_out q = [ToInput (InputMouse me 7 name argb False True)]"
    by (auto simp: q_def on_mouse_event_def silenced_peer_def Let_def sample_facts is_authed_def peer_keyboard_enabled_def
        puts_def update_auto_disconnect_timer_def sample_peer_def sample_peer_env_def sample_env_def conn_start_def)
  let ?ms = "map Some (inputs (pe_out q))"
  obtain mode fx where h: "handle_input (\<lambda>_. (True, '''')) ?ms False = (mode, fx)" by fastforce
  have "mode = False \<and> (\<forall>e \<in> set fx. (\<exists>me i name argb. e = PlayMouse me i name argb False True)
      \<or> False \<and> e = CallBlockInput True)"
    by (rule silenced_peer_plays_nothing [OF run sel(1) _ _ taken_all h]) (simp_all add: sel(2))
  moreover have "fx = [PlayMouse me 7 name argb False True]"
    using h by (simp add: out inputs_def List.map_filter_simps handle_input_timeout_def)
  ultimately show ?thesis using h by (simp add: me_def [symmetric] q_def [symmetric])
qed

definition unblocking :: option_message where
  "unblocking = om_default\<lparr>om_block_input := Some No\<rparr>"

definition unblocked_peer :: peer where
  "unblocked_peer = (sample_peer True)\<lparr>pe_rights := sample_rights\<lparr>rt_block_input := False\<rparr>\<rparr>"

theorem revoked_block_stays_witness:
  "let (mode, fx) = handle_input (\<lambda>_. (True, ''''))
       (None # map Some (inputs (pe_out (update_options sample_peer_env unblocking unblocked_peer)))) True
   in mode \<and> hd fx = CallBlockInput True \<and> CallBlockInput False \<notin> set fx \<and> last fx = CallBlockInput True"
proof -
  let ?p = unblocked_peer
  let ?q = "update_options sample_peer_env unblocking ?p"
  have run: "peer_run sample_peer_env [FromPeer (PeerMisc (MiscOption unblocking))] ?p = Some ?q"
    by (simp add: on_peer_message_def unblocked_peer_def sample_facts)
  have sel: "\<not> (cn_keyboard (pe_conn ?p) \<and> rt_block_input (pe_rights ?p))" "pe_out ?p = []"
    by (simp_all add: unblocked_peer_def sample_facts)
  let ?ms = "None # map Some (inputs (pe_out ?q))"
  have taken: "List.map_filter id ?ms = inputs (pe_out ?q)" by (simp add: List.map_filter_simps taken_all)
  obtain mode fx where h: "handle_input (\<lambda>_. (True, '''')) ?ms True = (mode, fx)" by fastforce
  have r: "mode \<and> fx = concat (map (while_blocked (\<lambda>_. (True, ''''))) ?ms) @ [CallBlockInput True]
      \<and> CallBlockInput False \<notin> set fx"
    by (rule revoked_block_stays [OF run sel(1) _ _ _ taken h]) (simp_all add: sel(2))
  note fx = r [THEN conjunct2, THEN conjunct1]
  have "hd fx = CallBlockInput True" "last fx = CallBlockInput True" by (simp_all add: fx)
  with r [THEN conjunct1] r [THEN conjunct2, THEN conjunct2] show ?thesis unfolding h Let_def prod.case by blast
qed

text \<open>A peer that has not logged on, with the keyboard but not the clipboard.\<close>

definition waiting_peer :: peer where
  "waiting_peer = (sample_peer False)\<lparr>pe_rights := sample_rights\<lparr>rt_clipboard := False\<rparr>\<rparr>"

theorem unauthorised_peer_gets_clipboard_witness:
  "\<not> can_sub_clipboard_service sample_peer_env waiting_peer
   \<and> subed (switch_permission sample_peer_env ''clipboard'' True waiting_peer) NAME_CLIPBOARD"
  using unauthorised_peer_gets_clipboard [of waiting_peer "''clipboard''" sample_peer_env]
  by (simp add: waiting_peer_def sample_peer_wf sample_contains sample_facts sample_rights_def sample_app
      can_sub_clipboard_service_def clipboard_enabled_def)

theorem revoked_clipboard_keeps_files_witness:
  "subed (switch_permission sample_peer_env ''clipboard'' False (subscribe NAME_FILE_CLIPBOARD True (sample_peer True)))
     NAME_FILE_CLIPBOARD"
  using revoked_clipboard_keeps_files [of "subscribe NAME_FILE_CLIPBOARD True (sample_peer True)" sample_peer_env]
  by (simp add: subscribe_wf subed_subscribe sample_peer_wf sample_contains)

theorem file_transfer_peer_controls_desktop_witness:
  "let p = on_login (\<lambda>c. c\<lparr>cn_authed_conn := Some FileTransfer\<rparr>) (sample_peer True)
   in (\<exists>q. on_peer_message sample_peer_env (PeerMisc (MiscCaptureDisplays [0] [] [])) p = Some (True, q)
        \<and> subed q (get_service_name Monitor 0))
     \<and> (\<exists>q press. on_peer_message sample_peer_env (KeyEvent sample_key) p = Some (True, q)
        \<and> ToInput (InputKey sample_key press) \<in> set (pe_out q))"
  using file_transfer_peer_controls_desktop [of "on_login (\<lambda>c. c\<lparr>cn_authed_conn := Some FileTransfer\<rparr>) (sample_peer True)"
      "[0]" sample_peer_env sample_key] sample_peer_wf [of True]
  by (simp add: is_authed_def sample_facts sample_rights_def peer_keyboard_enabled_def usize_of_def Let_def)

definition hidden_peer :: peer where
  "hidden_peer = (sample_peer True)\<lparr>pe_privacy := demo_manager\<lparr>pm_mode :=
     Some (Topmost ((topmost_new PRIVACY_MODE_IMPL_WIN_MAG)\<lparr>ti_conn_id := 5\<rparr>))\<rparr>\<rparr>"

theorem second_privacy_request_turns_off_witness:
  "get_privacy_mode_conn_id privacy_impls (pe_privacy hidden_peer) = Some 5
   \<and> \<not> is_in_privacy_mode privacy_impls (pe_privacy (peer_turn_on_privacy sample_peer_env '''' hidden_peer))"
proof -
  have held: "get_privacy_mode_conn_id privacy_impls (pe_privacy hidden_peer) = Some 5"
    by (simp add: hidden_peer_def get_privacy_mode_conn_id_def privacy_impls_def)
  have world: "pe_privacy_world hidden_peer = demo_world" by (simp add: hidden_peer_def sample_peer_def)
  obtain r s w where off: "turn_off_privacy privacy_impls 0 None (pe_privacy hidden_peer) (pe_privacy_world hidden_peer) = (r, s, w)"
    using prod_cases3 by blast
  have "r = Some (Inr ())"
    using off unfolding world
    by (simp add: turn_off_privacy_def hidden_peer_def privacy_impls_def topmost_turn_off_def check_off_conn_id_def
        INVALID_PRIVACY_MODE_CONN_ID_def demo_world_def Let_def)
  with off held second_privacy_request_turns_off [of hidden_peer 5 sample_peer_env "()" s w "''''"] show ?thesis
    by (simp add: hidden_peer_def sample_facts sample_conn_def sample_peer_env_def)
qed

end
