(* ===== verification/Webrtc_Chunks.thy ===== *)
theory Webrtc_Chunks
  imports Prelude
begin

text \<open>
  Messages over a WebRTC data channel (\<open>libs/hbb_common/src/webrtc.rs\<close>): a message is cut into chunks with
  a header of five bytes, and the receiver puts the chunks together again. The peer connection itself
  (\<open>webrtc-rs\<close>) is not modelled: what it tells (whether the channel is open, what a write or a read gives) is
  an argument.
\<close>

section \<open>State\<close>

definition DATA_CHANNEL_BUFFER_SIZE :: nat where "DATA_CHANNEL_BUFFER_SIZE = 4 * 1024 * 1024"
definition CHUNK_SIZE :: nat where "CHUNK_SIZE = 60 * 1024"
definition CHUNK_HEADER_SIZE :: nat where "CHUNK_HEADER_SIZE = 5"
definition CHUNK_MAGIC :: u8 where "CHUNK_MAGIC = 0xAB"

record reassembly_state =
  ra_buf :: bytes
  ra_total_chunks :: u16
  ra_next_chunk :: u16

text \<open>The stream: what its two watch channels last said, and the packets it wrote.\<close>

record webrtc_stream =
  wr_notify :: bool
  wr_failed :: bool
  wr_send_timeout :: u64
  wr_detached :: bool
  wr_reassembly :: "reassembly_state option"
  wr_closed :: bool
  wr_written :: "bytes list"

text \<open>What the watch channels say while the stream waits for its channel to open.\<close>

datatype connect_event = NotifyChanged bool | FailedChanged

definition wait_for_connect_result :: "connect_event option \<Rightarrow> webrtc_stream \<Rightarrow> unit result_type option" where
  "wait_for_connect_result ev s =
     (if wr_notify s then Some (Inr ())
      else if wr_failed s then Some (Inl ''WebRTC connection failed before data channel opened'')
      else case ev of
             None \<Rightarrow> None
           | Some (NotifyChanged True) \<Rightarrow> Some (Inr ())
           | Some (NotifyChanged False) \<Rightarrow> Some (Inl ''WebRTC data channel closed before opening'')
           | Some FailedChanged \<Rightarrow> Some (Inl ''WebRTC connection failed while waiting for data channel''))"

section \<open>Sending\<close>

definition total_chunks_of :: "bytes \<Rightarrow> nat" where
  "total_chunks_of bs = max (max (length bs + CHUNK_SIZE - 1) 1 div CHUNK_SIZE) 1"

definition chunk_packet :: "bytes \<Rightarrow> u16 \<Rightarrow> u16 \<Rightarrow> bytes" where
  "chunk_packet bs count idx =
     (let start = unat idx * CHUNK_SIZE;
          stop = min (start + CHUNK_SIZE) (length bs);
          payload = take (stop - start) (drop start bs)
      in [CHUNK_MAGIC, ucast (drop_bit 8 idx), ucast idx, ucast (drop_bit 8 count), ucast count] @ payload)"

text \<open>\<open>errs\<close>: the writes that fail, by the number of the packet.\<close>

fun write_chunks :: "(nat \<Rightarrow> string option) \<Rightarrow> bytes \<Rightarrow> u16 \<Rightarrow> nat list \<Rightarrow> webrtc_stream
    \<Rightarrow> unit result_type \<times> webrtc_stream" where
  "write_chunks errs bs count [] s = (Inr (), s)"
| "write_chunks errs bs count (i # is) s =
     (case errs i of
        Some e \<Rightarrow> (Inl e, s)
      | None \<Rightarrow> write_chunks errs bs count is
                   (s\<lparr>wr_written := wr_written s @ [chunk_packet bs count (of_nat i)]\<rparr>))"

text \<open>
  Without a timeout the sender waits for the channel as long as it takes: \<open>None\<close> if that never comes. The
  errors of the connection close it only when a timeout is set.
\<close>

definition send_bytes :: "connect_event option \<Rightarrow> (nat \<Rightarrow> string option) \<Rightarrow> bytes \<Rightarrow> webrtc_stream
    \<Rightarrow> (unit result_type \<times> webrtc_stream) option" where
  "send_bytes ev errs bs s =
     (let go = (let count = total_chunks_of bs in
                if count > 2 ^ 16 - 1 then (Inl ''WebRTC message too large to chunk'', s)
                else write_chunks errs bs (of_nat count) [0..<count] s)
      in case wait_for_connect_result ev s of
           None \<Rightarrow> if wr_send_timeout s > 0
                   then Some (Inl ''WebRTC send wait for connect timeout'', s\<lparr>wr_closed := True\<rparr>)
                   else None
         | Some (Inl e) \<Rightarrow> Some (Inl e, if wr_send_timeout s > 0 then s\<lparr>wr_closed := True\<rparr> else s)
         | Some (Inr _) \<Rightarrow> Some go)"

section \<open>Receiving\<close>

definition u16_be :: "u8 \<Rightarrow> u8 \<Rightarrow> u16" where
  "u16_be a b = push_bit 8 (ucast a) OR ucast b"

text \<open>
  One packet: a message if it completes one, and what is kept. The number of the next chunk is sixteen bits
  wide and wraps (a debug build panics there).
\<close>

definition reassemble :: "u16 \<Rightarrow> u16 \<Rightarrow> bytes \<Rightarrow> reassembly_state option \<Rightarrow> reassembly_state option" where
  "reassemble idx count payload st =
     (if idx = 0 then Some \<lparr>ra_buf = payload, ra_total_chunks = count, ra_next_chunk = 1\<rparr>
      else case st of
             None \<Rightarrow> None
           | Some r \<Rightarrow>
               if idx = ra_next_chunk r \<and> count = ra_total_chunks r
               then Some (r\<lparr>ra_buf := ra_buf r @ payload, ra_next_chunk := ra_next_chunk r + 1\<rparr>)
               else None)"

definition receive_packet :: "bytes \<Rightarrow> reassembly_state option \<Rightarrow> bytes option \<times> reassembly_state option" where
  "receive_packet p st =
     (if length p > CHUNK_HEADER_SIZE \<and> p ! 0 = CHUNK_MAGIC then
        (let idx = u16_be (p ! 1) (p ! 2); count = u16_be (p ! 3) (p ! 4); payload = drop CHUNK_HEADER_SIZE p in
         if count = 1 then (Some payload, st)
         else
           (case reassemble idx count payload st of
              None \<Rightarrow> (None, None)
            | Some r \<Rightarrow> if ra_next_chunk r = ra_total_chunks r then (Some (ra_buf r), None) else (None, Some r)))
      else (Some p, st))"

text \<open>
  The reads of the channel one after the other; the loop ends with a message or an error, and waits (\<open>None\<close>)
  when there is nothing more to read.
\<close>

datatype channel_read = ReadPacket bytes | ReadError string

fun next_loop :: "channel_read list \<Rightarrow> webrtc_stream \<Rightarrow> bytes result_type option \<times> channel_read list \<times> webrtc_stream" where
  "next_loop [] s = (None, [], s)"
| "next_loop (ReadError e # rs) s =
     (Some (Inl (''data channel read error: '' @ e)), rs, s\<lparr>wr_closed := True\<rparr>)"
| "next_loop (ReadPacket p # rs) s =
     (if p = [] then (Some (Inl ''data channel read exited with 0 bytes''), rs, s\<lparr>wr_closed := True\<rparr>)
      else
        (case receive_packet p (wr_reassembly s) of
           (Some out, st) \<Rightarrow> (Some (Inr out), rs, s\<lparr>wr_reassembly := st\<rparr>)
         | (None, st) \<Rightarrow> next_loop rs (s\<lparr>wr_reassembly := st\<rparr>)))"

text \<open>\<open>detach\<close>: the error of taking the channel over, the first time.\<close>

definition webrtc_next :: "connect_event option \<Rightarrow> string option \<Rightarrow> channel_read list \<Rightarrow> webrtc_stream
    \<Rightarrow> bytes result_type option \<times> channel_read list \<times> webrtc_stream" where
  "webrtc_next ev detach rs s =
     (case wait_for_connect_result ev s of
        None \<Rightarrow> (None, rs, s)
      | Some (Inl e) \<Rightarrow> (Some (Inl e), rs, s\<lparr>wr_closed := True\<rparr>)
      | Some (Inr _) \<Rightarrow>
          (if wr_detached s then next_loop rs s
           else case detach of
                  Some e \<Rightarrow> (Some (Inl (''data channel detach error: '' @ e)), rs, s\<lparr>wr_closed := True\<rparr>)
                | None \<Rightarrow> next_loop rs (s\<lparr>wr_detached := True\<rparr>)))"

section \<open>A message in chunks\<close>

lemma chunk_size_pos [simp]: "0 < CHUNK_SIZE" by (simp add: CHUNK_SIZE_def)

definition chunks :: "bytes \<Rightarrow> bytes list" where
  "chunks bs = map (\<lambda>i. chunk_packet bs (of_nat (total_chunks_of bs)) (of_nat i)) [0..<total_chunks_of bs]"

lemma total_chunks: "total_chunks_of bs = (if bs = [] then 1 else (length bs + CHUNK_SIZE - 1) div CHUNK_SIZE)"
proof (cases "bs = []")
  case False
  then have "CHUNK_SIZE \<le> length bs + CHUNK_SIZE - 1" by (cases bs) simp_all
  then have "1 \<le> (length bs + CHUNK_SIZE - 1) div CHUNK_SIZE" by (simp add: div_greater_zero_iff Suc_le_eq)
  moreover have "max (length bs + CHUNK_SIZE - 1) 1 = length bs + CHUNK_SIZE - 1" by (simp add: CHUNK_SIZE_def)
  ultimately show ?thesis using False by (simp add: total_chunks_of_def)
qed (simp add: total_chunks_of_def CHUNK_SIZE_def)

lemma total_chunks_fits: "total_chunks_of bs \<le> n \<longleftrightarrow> length bs \<le> n * CHUNK_SIZE" if "0 < n"
proof (cases "bs = []")
  case True
  with that show ?thesis by (simp add: total_chunks)
next
  case False
  have "(length bs + CHUNK_SIZE - 1) div CHUNK_SIZE \<le> n \<longleftrightarrow> length bs + CHUNK_SIZE - 1 < (n + 1) * CHUNK_SIZE"
    by (metis Suc_eq_plus1 chunk_size_pos div_less_iff_less_mult less_Suc_eq_le)
  with False show ?thesis by (simp add: total_chunks) (auto simp: CHUNK_SIZE_def)
qed

lemma total_chunks_cover: "length bs \<le> total_chunks_of bs * CHUNK_SIZE"
  using total_chunks_fits [of "total_chunks_of bs" bs] by (simp add: total_chunks_of_def)

lemma chunk_start: "i < total_chunks_of bs \<Longrightarrow> i * CHUNK_SIZE \<le> length bs \<and> (bs \<noteq> [] \<longrightarrow> i * CHUNK_SIZE < length bs)"
proof -
  assume i: "i < total_chunks_of bs"
  show ?thesis
  proof (cases "i = 0")
    case False
    with i total_chunks_fits [of i bs] show ?thesis by simp
  qed simp
qed

lemma chunk_parts:
  assumes "i < total_chunks_of bs" "total_chunks_of bs < 2 ^ 16"
  shows "chunk_packet bs n (of_nat i) =
    [CHUNK_MAGIC, ucast (drop_bit 8 (of_nat i :: u16)), ucast (of_nat i :: u16), ucast (drop_bit 8 n), ucast n]
      @ take CHUNK_SIZE (drop (i * CHUNK_SIZE) bs)"
proof -
  have "unat (of_nat i :: u16) = i" using assms by (simp add: unat_of_nat)
  then show ?thesis using chunk_start [OF assms(1)] by (simp add: chunk_packet_def Let_def min_def)
qed

lemma u16_be_parts: "u16_be (ucast (drop_bit 8 (n :: u16))) (ucast n) = n"
  unfolding u16_be_def by (rule bit_eqI) (auto simp: bit_simps)

text \<open>Receiving one chunk of a message.\<close>

lemma receive_chunk:
  assumes "i < total_chunks_of bs" "total_chunks_of bs < 2 ^ 16" "bs \<noteq> []" "total_chunks_of bs \<noteq> 1"
  shows "receive_packet (chunk_packet bs (of_nat (total_chunks_of bs)) (of_nat i)) st =
    (case reassemble (of_nat i) (of_nat (total_chunks_of bs)) (take CHUNK_SIZE (drop (i * CHUNK_SIZE) bs)) st of
       None \<Rightarrow> (None, None)
     | Some r \<Rightarrow> if ra_next_chunk r = ra_total_chunks r then (Some (ra_buf r), None) else (None, Some r))"
proof -
  let ?n = "of_nat (total_chunks_of bs) :: u16"
  let ?p = "take CHUNK_SIZE (drop (i * CHUNK_SIZE) bs)"
  have "?p \<noteq> []" using chunk_start [OF assms(1)] assms(3) by simp
  moreover have "?n \<noteq> 1"
    using assms(2,4) by (simp add: word_unat_eq_iff unat_of_nat)
  ultimately show ?thesis
    unfolding chunk_parts [OF assms(1,2)] receive_packet_def Let_def
    by (simp add: CHUNK_HEADER_SIZE_def u16_be_parts)
qed

lemma receive_message_from:
  assumes "k < total_chunks_of bs" "0 < k" "total_chunks_of bs < 2 ^ 16" "bs \<noteq> []"
    "wr_reassembly s = Some \<lparr>ra_buf = take (k * CHUNK_SIZE) bs, ra_total_chunks = of_nat (total_chunks_of bs), ra_next_chunk = of_nat k\<rparr>"
  shows "next_loop (map (\<lambda>i. ReadPacket (chunk_packet bs (of_nat (total_chunks_of bs)) (of_nat i))) [k..<total_chunks_of bs] @ rest) s
    = (Some (Inr bs), rest, s\<lparr>wr_reassembly := None\<rparr>)"
  using assms
proof (induction "total_chunks_of bs - k" arbitrary: k s)
  case 0
  then show ?case by simp
next
  case (Suc d)
  let ?n = "total_chunks_of bs"
  have one: "?n \<noteq> 1" using Suc.prems(1,2) by simp
  have k0: "(of_nat k :: u16) \<noteq> 0" using Suc.prems(1-3) by (simp add: word_unat_eq_iff unat_of_nat)
  have joined: "take (k * CHUNK_SIZE) bs @ take CHUNK_SIZE (drop (k * CHUNK_SIZE) bs) = take ((k + 1) * CHUNK_SIZE) bs"
    using take_add [of "k * CHUNK_SIZE" CHUNK_SIZE bs] by (simp add: add.commute)
  have re: "reassemble (of_nat k) (of_nat ?n) (take CHUNK_SIZE (drop (k * CHUNK_SIZE) bs)) (wr_reassembly s)
    = Some \<lparr>ra_buf = take ((k + 1) * CHUNK_SIZE) bs, ra_total_chunks = of_nat ?n, ra_next_chunk = of_nat (k + 1)\<rparr>"
    using k0 Suc.prems(5) joined by (simp add: reassemble_def add.commute)
  have ne: "chunk_packet bs m i \<noteq> []" for m i by (simp add: chunk_packet_def Let_def)
  have upt: "[k..<?n] = k # [k + 1..<?n]" using Suc.prems(1) by (simp add: upt_conv_Cons)
  show ?case
  proof (cases "k + 1 = ?n")
    case True
    have "take (?n * CHUNK_SIZE) bs = bs" using total_chunks_cover [of bs] by simp
    with re [unfolded True] have "receive_packet (chunk_packet bs (of_nat ?n) (of_nat k)) (wr_reassembly s) = (Some bs, None)"
      by (simp add: receive_chunk [OF Suc.prems(1,3,4) one])
    then show ?thesis using True ne by (simp add: upt)
  next
    case False
    then have less: "k + 1 < ?n" using Suc.prems(1) by simp
    have "(of_nat (k + 1) :: u16) \<noteq> of_nat ?n"
      using less Suc.prems(3) by (simp add: word_unat_eq_iff unat_of_nat del: of_nat_Suc of_nat_add)
    with re have r: "receive_packet (chunk_packet bs (of_nat ?n) (of_nat k)) (wr_reassembly s)
        = (None, Some \<lparr>ra_buf = take ((k + 1) * CHUNK_SIZE) bs, ra_total_chunks = of_nat ?n, ra_next_chunk = of_nat (k + 1)\<rparr>)"
      by (simp add: receive_chunk [OF Suc.prems(1,3,4) one])
    have "d = ?n - (k + 1)" using Suc.hyps(2) by simp
    from Suc.hyps(1) [OF this less _ Suc.prems(3,4), of "s\<lparr>wr_reassembly := Some \<lparr>ra_buf = take ((k + 1) * CHUNK_SIZE) bs,
        ra_total_chunks = of_nat ?n, ra_next_chunk = of_nat (k + 1)\<rparr>\<rparr>"]
    show ?thesis using r ne by (simp add: upt)
  qed
qed

text \<open>
  A whole message, whatever the receiver kept before: the first chunk starts anew, so a message that was broken
  off does no harm to the next.
\<close>

lemma receive_message:
  assumes "bs \<noteq> []" "total_chunks_of bs < 2 ^ 16"
  shows "next_loop (map ReadPacket (chunks bs) @ rest) s
    = (Some (Inr bs), rest, if total_chunks_of bs = 1 then s else s\<lparr>wr_reassembly := None\<rparr>)"
proof -
  let ?n = "total_chunks_of bs"
  have pos: "0 < ?n" by (simp add: total_chunks_of_def)
  have ne: "chunk_packet bs m i \<noteq> []" for m i by (simp add: chunk_packet_def Let_def)
  have upt: "[0..<?n] = 0 # [1..<?n]" using pos by (simp add: upt_conv_Cons)
  show ?thesis
  proof (cases "?n = 1")
    case True
    have "length bs \<le> CHUNK_SIZE" using total_chunks_cover [of bs] True by simp
    then have "chunk_packet bs 1 0 = [CHUNK_MAGIC, 0, 0, 0, 1] @ bs"
      using chunk_parts [of 0 bs "of_nat ?n"] True by simp
    then have "receive_packet (chunk_packet bs 1 0) st = (Some bs, st)" for st
      using assms(1) by (simp add: receive_packet_def CHUNK_HEADER_SIZE_def u16_be_def)
    then show ?thesis using True ne by (simp add: chunks_def)
  next
    case False
    then have many: "1 < ?n" using pos by simp
    let ?st = "\<lparr>ra_buf = take CHUNK_SIZE bs, ra_total_chunks = of_nat ?n :: u16, ra_next_chunk = 1\<rparr>"
    have "(1 :: u16) \<noteq> of_nat ?n" using many assms(2) by (simp add: word_unat_eq_iff unat_of_nat)
    then have r: "receive_packet (chunk_packet bs (of_nat ?n) 0) (wr_reassembly s) = (None, Some ?st)"
      using receive_chunk [OF pos assms(2,1) False, of "wr_reassembly s"] by (simp add: reassemble_def)
    have "next_loop (map (\<lambda>i. ReadPacket (chunk_packet bs (of_nat ?n) (of_nat i))) [1..<?n] @ rest) (s\<lparr>wr_reassembly := Some ?st\<rparr>)
      = (Some (Inr bs), rest, s\<lparr>wr_reassembly := None\<rparr>)"
      using receive_message_from [OF many _ assms(2,1), of "s\<lparr>wr_reassembly := Some ?st\<rparr>" rest] by simp
    with r ne False show ?thesis by (simp add: chunks_def upt o_def)
  qed
qed

section \<open>Sender and receiver\<close>

lemma write_all:
  assumes "\<And>i. i \<in> set is \<Longrightarrow> errs i = None"
  shows "write_chunks errs bs n is s = (Inr (), s\<lparr>wr_written := wr_written s @ map (\<lambda>i. chunk_packet bs n (of_nat i)) is\<rparr>)"
  using assms by (induction "is" arbitrary: s) simp_all

text \<open>Sending message after message; reading until there is nothing left.\<close>

fun send_all :: "bytes list \<Rightarrow> webrtc_stream \<Rightarrow> webrtc_stream option" where
  "send_all [] s = Some s"
| "send_all (m # ms) s =
     (case send_bytes None (\<lambda>_. None) m s of
        Some (Inr _, s') \<Rightarrow> send_all ms s'
      | _ \<Rightarrow> None)"

fun next_all :: "nat \<Rightarrow> channel_read list \<Rightarrow> webrtc_stream \<Rightarrow> bytes result_type list \<times> channel_read list \<times> webrtc_stream" where
  "next_all 0 rs s = ([], rs, s)"
| "next_all (Suc n) rs s =
     (case webrtc_next None None rs s of
        (Some r, rs', s') \<Rightarrow> let (out, rs'', s'') = next_all n rs' s' in (r # out, rs'', s'')
      | (None, rs', s') \<Rightarrow> ([], rs', s'))"

definition sendable :: "bytes \<Rightarrow> bool" where
  "sendable m \<longleftrightarrow> length m \<le> 65535 * CHUNK_SIZE"

lemma send_connected:
  assumes "wr_notify s"
  shows "send_bytes ev (\<lambda>_. None) m s = Some (if sendable m then (Inr (), s\<lparr>wr_written := wr_written s @ chunks m\<rparr>)
    else (Inl ''WebRTC message too large to chunk'', s))"
proof -
  have "sendable m \<longleftrightarrow> \<not> total_chunks_of m > 2 ^ 16 - 1" using total_chunks_fits [of 65535 m] by (auto simp: sendable_def)
  then show ?thesis
    using assms write_all [of "[0..<total_chunks_of m]" "\<lambda>_. None"]
    by (simp add: send_bytes_def wait_for_connect_result_def chunks_def Let_def)
qed

lemma send_all_written:
  "wr_notify s \<Longrightarrow> list_all sendable ms \<Longrightarrow> send_all ms s = Some (s\<lparr>wr_written := wr_written s @ concat (map chunks ms)\<rparr>)"
  by (induction ms arbitrary: s) (simp_all add: send_connected)

lemma next_all_messages:
  assumes "wr_notify r" "list_all (\<lambda>m. m \<noteq> [] \<and> sendable m) ms"
  shows "\<exists>r'. next_all (length ms) (map ReadPacket (concat (map chunks ms)) @ rest) r = (map Inr ms, rest, r')"
  using assms
proof (induction ms arbitrary: r)
  case (Cons m ms)
  have m: "m \<noteq> []" "total_chunks_of m < 2 ^ 16"
    using Cons.prems total_chunks_fits [of 65535 m] by (auto simp: sendable_def)
  define r1 where "r1 = r\<lparr>wr_detached := True\<rparr>"
  define r2 where "r2 = (if total_chunks_of m = 1 then r1 else r1\<lparr>wr_reassembly := None\<rparr>)"
  have "webrtc_next None None rs r = next_loop rs r1" for rs
  proof (cases "wr_detached r")
    case True
    then have "r1 = r" by (simp add: r1_def)
    with True Cons.prems(1) show ?thesis by (simp add: webrtc_next_def wait_for_connect_result_def)
  qed (use Cons.prems(1) in \<open>simp add: webrtc_next_def wait_for_connect_result_def r1_def\<close>)
  then have one: "webrtc_next None None (map ReadPacket (chunks m) @ rs) r = (Some (Inr m), rs, r2)" for rs
    using receive_message [OF m, of rs r1] by (simp add: r2_def)
  have "wr_notify r2" using Cons.prems(1) by (simp add: r1_def r2_def)
  from Cons.IH [OF this] Cons.prems(2)
  obtain r' where "next_all (length ms) (map ReadPacket (concat (map chunks ms)) @ rest) r2 = (map Inr ms, rest, r')" by auto
  with one [of "map ReadPacket (concat (map chunks ms)) @ rest"] show ?case by simp
qed simp

text \<open>
  C30: Messages that are neither empty nor too long arrive as they were sent, in order and with nothing left
  over, whatever chunks of earlier messages the receiver had kept: every packet the sender writes fits the
  limit of 65536 bytes of the smaller stacks.
\<close>

theorem chunked_messages_arrive:
  assumes "wr_notify s" "wr_written s = []" "wr_notify r" "\<forall>m \<in> set ms. m \<noteq> [] \<and> length m \<le> 65535 * CHUNK_SIZE"
  shows "\<exists>s' r'. send_all ms s = Some s' \<and> next_all (length ms) (map ReadPacket (wr_written s')) r = (map Inr ms, [], r')
    \<and> (\<forall>p \<in> set (wr_written s'). length p < 65536)"
proof -
  have ok: "list_all sendable ms" "list_all (\<lambda>m. m \<noteq> [] \<and> sendable m) ms"
    using assms(4) by (simp_all add: list_all_iff sendable_def)
  obtain r' where "next_all (length ms) (map ReadPacket (concat (map chunks ms))) r = (map Inr ms, [], r')"
    using next_all_messages [OF assms(3) ok(2), of "[]"] by auto
  moreover have "length (chunk_packet m n i) \<le> CHUNK_HEADER_SIZE + CHUNK_SIZE" for m n i
    by (simp add: chunk_packet_def Let_def CHUNK_HEADER_SIZE_def)
  then have "length (chunk_packet m n i) < 65536" for m n i
    by (rule le_less_trans) (simp add: CHUNK_HEADER_SIZE_def CHUNK_SIZE_def)
  then have "\<forall>p \<in> set (concat (map chunks ms)). length p < 65536" by (auto simp: chunks_def)
  ultimately show ?thesis using send_all_written [OF assms(1) ok(1)] assms(2) by simp
qed

text \<open>
  An empty message does not arrive: its only packet is the header, which is too short to count as a chunk,
  and the receiver takes the five bytes of the header for the message.
\<close>

theorem empty_message_arrives_as_header:
  assumes "wr_notify s" "wr_written s = []" "wr_notify r"
  shows "\<exists>s' r'. send_all [[]] s = Some s'
    \<and> next_all 1 (map ReadPacket (wr_written s')) r = ([Inr [0xAB, 0, 0, 0, 1]], [], r')"
proof -
  have "chunks [] = [[0xAB, 0, 0, 0, 1]]"
    by (simp add: chunks_def total_chunks chunk_packet_def CHUNK_MAGIC_def)
  with assms show ?thesis
    by (simp add: send_connected sendable_def webrtc_next_def wait_for_connect_result_def receive_packet_def
        CHUNK_HEADER_SIZE_def)
qed

definition open_stream :: webrtc_stream where
  "open_stream = \<lparr>wr_notify = True, wr_failed = False, wr_send_timeout = 0, wr_detached = False,
     wr_reassembly = Some \<lparr>ra_buf = [9], ra_total_chunks = 3, ra_next_chunk = 1\<rparr>, wr_closed = False, wr_written = []\<rparr>"

theorem chunked_messages_arrive_witness:
  "\<exists>s' r'. send_all [replicate 70000 7, [1, 2]] open_stream = Some s'
    \<and> next_all 2 (map ReadPacket (wr_written s')) open_stream = ([Inr (replicate 70000 7), Inr [1, 2]], [], r')"
  using chunked_messages_arrive [of open_stream open_stream "[replicate 70000 7, [1, 2]]"]
  by (auto simp: open_stream_def CHUNK_SIZE_def numeral_2_eq_2)

theorem empty_message_arrives_as_header_witness:
  "\<exists>r'. next_all 1 [ReadPacket [0xAB, 0, 0, 0, 1]] open_stream = ([Inr [0xAB, 0, 0, 0, 1]], [], r')"
  using empty_message_arrives_as_header [of open_stream open_stream]
  by (auto simp: open_stream_def send_connected sendable_def chunks_def total_chunks chunk_packet_def CHUNK_MAGIC_def)

end
