(* ===== verification/Nostr_Signaling.thy ===== *)
theory Nostr_Signaling
  imports Utf8
begin

text \<open>
  Finding a peer over Nostr relays (\<open>libs/hbb_common/src/nostr_signaling.rs\<close>): the host publishes the offer of
  a WebRTC session and waits for the answer, which any relay may deliver; a phone registers with a host by a
  message of its own. The relays, the signing of events (\<open>nostr\<close>), the text of JSON and base64 are arguments;
  the JSON values and the accessors the code uses are those of \<open>libs/serde_json\<close>.
\<close>

section \<open>JSON values\<close>

datatype json_value = JNull | JBool bool | JNumber string | JString string | JArray "json_value list"
  | JObject "(string \<times> json_value) list"

definition index_usize :: "json_value \<Rightarrow> nat \<Rightarrow> json_value" where
  "index_usize v i = (case v of JArray vs \<Rightarrow> if i < length vs then vs ! i else JNull | _ \<Rightarrow> JNull)"

definition index_str :: "json_value \<Rightarrow> string \<Rightarrow> json_value" where
  "index_str v k = (case v of JObject m \<Rightarrow> (case map_of m k of Some w \<Rightarrow> w | None \<Rightarrow> JNull) | _ \<Rightarrow> JNull)"

definition as_str :: "json_value \<Rightarrow> string option" where
  "as_str v = (case v of JString s \<Rightarrow> Some s | _ \<Rightarrow> None)"

definition as_array :: "json_value \<Rightarrow> json_value list option" where
  "as_array v = (case v of JArray vs \<Rightarrow> Some vs | _ \<Rightarrow> None)"

definition as_bool :: "json_value \<Rightarrow> bool option" where
  "as_bool v = (case v of JBool b \<Rightarrow> Some b | _ \<Rightarrow> None)"

section \<open>Environment and links\<close>

record nostr_env =
  ne_id :: string
  ne_json_parse :: "string \<Rightarrow> json_value option"
  ne_json_text :: "json_value \<Rightarrow> string"
  ne_b64_encode :: "bytes \<Rightarrow> string"
  ne_b64_decode :: "bytes \<Rightarrow> bytes option"
  ne_sign :: "string \<Rightarrow> string list \<Rightarrow> string result_type"

definition without_blanks :: "string \<Rightarrow> string" where
  "without_blanks s = filter (\<lambda>c. c \<noteq> CHR '' '') s"

definition DEFAULT_NOSTR_RELAYS :: "string list" where
  "DEFAULT_NOSTR_RELAYS = [''wss://relay.damus.io'', ''wss://relay.primal.net'', ''wss://relay.nostr.band'']"

record nostr_link =
  nl_device_id :: string
  nl_pubkey :: string
  nl_embedded_offer :: "string option"
  nl_password :: "string option"

fun join_amp :: "string list \<Rightarrow> string" where
  "join_amp [] = ''''"
| "join_amp [p] = p"
| "join_amp (p # ps) = p @ ''&'' @ join_amp ps"

definition to_uri :: "nostr_env \<Rightarrow> nostr_link \<Rightarrow> string" where
  "to_uri e l =
     (let offer = (case nl_embedded_offer l of Some v \<Rightarrow> ne_b64_encode e (as_bytes v) | None \<Rightarrow> '''');
          parts = (if offer \<noteq> '''' then [''offer='' @ offer] else [])
            @ (case nl_password l of Some p \<Rightarrow> [''pwd='' @ p] | None \<Rightarrow> []);
          query = (if parts = [] then '''' else ''?'' @ join_amp parts)
      in ''nostr-webrtc://'' @ nl_device_id l @ query @ ''#'' @ nl_pubkey l)"

definition is_nostr_webrtc_uri :: "string \<Rightarrow> bool" where
  "is_nostr_webrtc_uri v \<longleftrightarrow> starts_with v ''nostr-webrtc://''"

section \<open>Publishing\<close>

definition normalize_webrtc_endpoint :: "nostr_env \<Rightarrow> string \<Rightarrow> string" where
  "normalize_webrtc_endpoint e s =
     (if starts_with s ''webrtc://'' then s else ''webrtc://'' @ ne_b64_encode e (as_bytes s))"

text \<open>The hashtags of an event; \<open>show_nat\<close> prints the number of the session.\<close>

definition signal_tags :: "string \<Rightarrow> string \<Rightarrow> u64 \<Rightarrow> string list" where
  "signal_tags device_id suffix session =
     (let norm = without_blanks device_id
      in [if suffix = [] then norm else norm @ suffix, ''session_'' @ show_nat (unat session)])"

definition build_signal_event :: "nostr_env \<Rightarrow> string \<Rightarrow> string \<Rightarrow> string \<Rightarrow> u64 \<Rightarrow> string result_type" where
  "build_signal_event e device_id endpoint suffix session = ne_sign e endpoint (signal_tags device_id suffix session)"

text \<open>
  What a relay says to an event, once the connection stands and the event is written; whatever it says is
  logged, and the event counts as published.
\<close>

datatype relay_reply = ReplyText string | ReplyOther | ReplyError string | ReplyClosed | ReplyTimeout

datatype reply_log = Accepted string | Rejected string | Unexpected string | NoJson string | Ignored | StreamErrorLogged | ClosedLogged | TimedOut

definition reply_logged :: "nostr_env \<Rightarrow> relay_reply \<Rightarrow> reply_log" where
  "reply_logged e r =
     (case r of
        ReplyText t \<Rightarrow>
          (case ne_json_parse e t of
             Some (JArray a) \<Rightarrow>
               if 4 \<le> length a \<and> as_str (a ! 0) = Some ''OK'' \<and> as_bool (a ! 2) = Some True then Accepted t
               else if 4 \<le> length a \<and> as_str (a ! 0) = Some ''OK'' \<and> as_bool (a ! 2) = Some False then Rejected t
               else Unexpected t
           | _ \<Rightarrow> NoJson t)
      | ReplyOther \<Rightarrow> Ignored
      | ReplyError _ \<Rightarrow> StreamErrorLogged
      | ReplyClosed \<Rightarrow> ClosedLogged
      | ReplyTimeout \<Rightarrow> TimedOut)"

text \<open>\<open>connected\<close> and \<open>written\<close>: whether the connection stands and the event could be written to it.\<close>

definition publish_event_to_relay :: "nostr_env \<Rightarrow> unit result_type \<Rightarrow> unit result_type \<Rightarrow> relay_reply \<Rightarrow> string
    \<Rightarrow> unit result_type \<times> (string \<times> reply_log) option" where
  "publish_event_to_relay e connected written reply event =
     (case connected of
        Inl err \<Rightarrow> (Inl err, None)
      | Inr _ \<Rightarrow>
          (case ne_json_parse e event of
             None \<Rightarrow> (Inl ''not a JSON value'', None)
           | Some v \<Rightarrow>
               (case written of
                  Inl err \<Rightarrow> (Inl err, None)
                | Inr _ \<Rightarrow> (Inr (), Some (ne_json_text e (JArray [JString ''EVENT'', v]), reply_logged e reply)))))"

definition publish_signal :: "nostr_env \<Rightarrow> string \<Rightarrow> string \<Rightarrow> string \<Rightarrow> string \<Rightarrow> u64
    \<Rightarrow> (string \<Rightarrow> string \<Rightarrow> unit result_type) \<Rightarrow> unit result_type \<times> (string \<times> string) list" where
  "publish_signal e device_id sdp suffix label session publish =
     (case build_signal_event e device_id (normalize_webrtc_endpoint e sdp) suffix session of
        Inl err \<Rightarrow> (Inl err, [])
      | Inr event \<Rightarrow>
          (let sent = map (\<lambda>relay. (relay, event)) DEFAULT_NOSTR_RELAYS;
               good = filter (\<lambda>relay. publish relay event = Inr ()) DEFAULT_NOSTR_RELAYS
           in (if good = [] then Inl (''failed to publish WebRTC '' @ label @ '' to all relays'') else Inr (), sent)))"

definition publish_webrtc_offer :: "nostr_env \<Rightarrow> string \<Rightarrow> string \<Rightarrow> u64
    \<Rightarrow> (string \<Rightarrow> string \<Rightarrow> unit result_type) \<Rightarrow> unit result_type \<times> (string \<times> string) list" where
  "publish_webrtc_offer e device_id sdp session publish = publish_signal e device_id sdp '''' ''offer'' session publish"

definition publish_webrtc_answer :: "nostr_env \<Rightarrow> string \<Rightarrow> string
    \<Rightarrow> (string \<Rightarrow> string \<Rightarrow> unit result_type) \<Rightarrow> unit result_type \<times> (string \<times> string) list" where
  "publish_webrtc_answer e device_id sdp publish = publish_signal e device_id sdp ''_answer'' ''answer'' 0 publish"

definition publish_webrtc_registration :: "nostr_env \<Rightarrow> string \<Rightarrow> string
    \<Rightarrow> (string \<Rightarrow> string \<Rightarrow> unit result_type) \<Rightarrow> unit result_type \<times> (string \<times> string) list" where
  "publish_webrtc_registration e device_id msg publish = publish_signal e device_id msg ''_reg'' ''registration'' 0 publish"

section \<open>What a relay delivers\<close>

text \<open>\<open>str::splitn\<close>.\<close>

fun splitn :: "nat \<Rightarrow> char \<Rightarrow> string \<Rightarrow> string list" where
  "splitn 0 c s = []"
| "splitn (Suc 0) c s = [s]"
| "splitn (Suc (Suc n)) c s =
     (case dropWhile (\<lambda>x. x \<noteq> c) s of
        [] \<Rightarrow> [s]
      | _ # rest \<Rightarrow> takeWhile (\<lambda>x. x \<noteq> c) s # splitn (Suc n) c rest)"

definition part_or :: "string list \<Rightarrow> nat \<Rightarrow> string \<Rightarrow> string" where
  "part_or parts i def = (if i < length parts then parts ! i else def)"

text \<open>A oneshot channel: its receiver waits, got the answer, went away, or was let down by the sender.\<close>

datatype channel = Open | Delivered string | ReceiverDropped | SenderDropped

record host_signals =
  hs_session :: u64
  hs_pending :: "nat option"
  hs_channels :: "channel list"
  hs_cache :: "(u64 \<times> string) option"
  hs_handler :: bool
  hs_registered :: "string list"

definition tag_is :: "string \<Rightarrow> json_value \<Rightarrow> bool" where
  "tag_is name tag \<longleftrightarrow>
     (case as_array tag of
        Some t \<Rightarrow> 2 \<le> length t \<and> as_str (t ! 0) = Some ''t'' \<and> as_str (t ! 1) = Some name
      | None \<Rightarrow> False)"

datatype relay_signal = AnswerSignal string | RegistrationSignal string

definition relay_signal_of :: "nostr_env \<Rightarrow> string \<Rightarrow> relay_signal option" where
  "relay_signal_of e text =
     (case ne_json_parse e text of
        None \<Rightarrow> None
      | Some arr \<Rightarrow>
          (if as_str (index_usize arr 0) \<noteq> Some ''EVENT'' then None
           else let event = index_usize arr 2 in
             case as_str (index_str event ''content'') of
               None \<Rightarrow> None
             | Some content \<Rightarrow>
                 (if \<not> starts_with content ''webrtc://'' then None
                  else let device_id = without_blanks (ne_id e);
                           answer_tag = device_id @ ''_answer''; reg_tag = device_id @ ''_reg'';
                           tags = (case as_array (index_str event ''tags'') of Some ts \<Rightarrow> ts | None \<Rightarrow> []);
                           has_answer_tag = list_ex (tag_is answer_tag) tags;
                           has_reg_tag = list_ex (\<lambda>t. \<not> tag_is answer_tag t \<and> tag_is reg_tag t) tags
                       in if has_answer_tag then Some (AnswerSignal content)
                          else if has_reg_tag then Some (RegistrationSignal content)
                          else None)))"

definition deliver_answer :: "string \<Rightarrow> 'a host_signals_scheme \<Rightarrow> 'a host_signals_scheme" where
  "deliver_answer content h =
     (case hs_pending h of
        None \<Rightarrow> h\<lparr>hs_cache := Some (hs_session h, content)\<rparr>
      | Some c \<Rightarrow>
          (let h1 = h\<lparr>hs_pending := None\<rparr> in
           if hs_channels h ! c = ReceiverDropped then h1\<lparr>hs_cache := Some (hs_session h, content)\<rparr>
           else h1\<lparr>hs_channels := (hs_channels h)[c := Delivered content]\<rparr>))"

definition device_json :: "nostr_env \<Rightarrow> string \<Rightarrow> string \<Rightarrow> string \<Rightarrow> string \<Rightarrow> string" where
  "device_json e name i ip pw = ne_json_text e (JObject [(''name'', JString name), (''id'', JString i),
     (''ip'', JString ip), (''temp_password'', JString pw)])"

text \<open>The message of a phone, if the content of the event carries one.\<close>

definition registration_in :: "nostr_env \<Rightarrow> string \<Rightarrow> string option" where
  "registration_in e content =
     (case ne_b64_decode e (as_bytes (drop (length ''webrtc://'') content)) of
        None \<Rightarrow> None
      | Some decoded \<Rightarrow>
          (if \<not> valid_utf8 decoded then None
           else let msg = str_of_bytes decoded in
             if starts_with msg ''ANUVADINI_HELLO:'' then Some msg else None))"

definition registration_json :: "nostr_env \<Rightarrow> string \<Rightarrow> string" where
  "registration_json e msg =
     (let parts = splitn 5 (CHR '':'') msg
      in device_json e (part_or parts 1 ''Unknown Device'') (part_or parts 2 ''unknown'') (part_or parts 4 '''')
           (part_or parts 3 ''''))"

definition register_device :: "nostr_env \<Rightarrow> string \<Rightarrow> 'a host_signals_scheme \<Rightarrow> 'a host_signals_scheme" where
  "register_device e content h =
     (case registration_in e content of
        None \<Rightarrow> h
      | Some msg \<Rightarrow>
          (if hs_handler h then h\<lparr>hs_registered := hs_registered h @ [registration_json e msg]\<rparr> else h))"

definition handle_relay_message :: "nostr_env \<Rightarrow> string \<Rightarrow> 'a host_signals_scheme \<Rightarrow> 'a host_signals_scheme" where
  "handle_relay_message e text h =
     (case relay_signal_of e text of
        None \<Rightarrow> h
      | Some (AnswerSignal content) \<Rightarrow> deliver_answer content h
      | Some (RegistrationSignal content) \<Rightarrow> register_device e content h)"

section \<open>Waiting for the answer\<close>

text \<open>
  \<open>wait_for_webrtc_answer\<close> in its four parts, each under a lock of its own: it looks into the cache, leaves a sender
  for the relays, waits for the receiver or the timeout, and takes the sender away. A relay that delivers an
  answer holds the lock of the sender all the time.
\<close>

definition drop_sender :: "nat option \<Rightarrow> channel list \<Rightarrow> channel list" where
  "drop_sender p cs =
     (case p of Some c \<Rightarrow> if cs ! c = Open then cs[c := SenderDropped] else cs | None \<Rightarrow> cs)"

definition wait_check :: "u64 \<Rightarrow> 'a host_signals_scheme \<Rightarrow> string option \<times> 'a host_signals_scheme" where
  "wait_check my h =
     (let cached = hs_cache h; h = h\<lparr>hs_cache := None\<rparr>
      in case cached of
           Some (s, content) \<Rightarrow> (if s = my then Some content else None, h)
         | None \<Rightarrow> (None, h))"

definition wait_register :: "'a host_signals_scheme \<Rightarrow> nat \<times> 'a host_signals_scheme" where
  "wait_register h =
     (let c = length (hs_channels h)
      in (c, h\<lparr>hs_pending := Some c, hs_channels := drop_sender (hs_pending h) (hs_channels h @ [Open])\<rparr>))"

definition wait_receive :: "bool \<Rightarrow> nat \<Rightarrow> 'a host_signals_scheme \<Rightarrow> string result_type option \<times> 'a host_signals_scheme" where
  "wait_receive elapsed c h =
     (case hs_channels h ! c of
        Delivered a \<Rightarrow> (Some (Inr a), h)
      | Open \<Rightarrow>
          (if elapsed then (Some (Inl ''Timed out waiting for WebRTC answer from Nostr''),
             h\<lparr>hs_channels := (hs_channels h)[c := ReceiverDropped]\<rparr>)
           else (None, h))
      | _ \<Rightarrow> (Some (Inl ''WebRTC answer channel was dropped''), h))"

definition wait_end :: "'a host_signals_scheme \<Rightarrow> 'a host_signals_scheme" where
  "wait_end h = h\<lparr>hs_pending := None, hs_channels := drop_sender (hs_pending h) (hs_channels h)\<rparr>"

section \<open>The loop of the host\<close>

datatype host_phase = Idle | Preparing | Checked | Waiting nat | Ending "string result_type" | Answered string | Serving | Stuck

record nostr_host = host_signals +
  nh_running :: bool
  nh_phase :: host_phase
  nh_device_id :: string
  nh_my_session :: u64
  nh_starter :: bool
  nh_offer_watch :: bool
  nh_offers :: "string list"

definition host_new :: nostr_host where
  "host_new = \<lparr>hs_session = 0, hs_pending = None, hs_channels = [], hs_cache = None, hs_handler = False,
     hs_registered = [], nh_running = False, nh_phase = Idle, nh_device_id = [], nh_my_session = 0,
     nh_starter = False, nh_offer_watch = False, nh_offers = []\<rparr>"

text \<open>\<open>keys\<close>: the public key in hexadecimal, or why there is none.\<close>

definition generate_host_nostr_webrtc_uri :: "nostr_env \<Rightarrow> string result_type \<Rightarrow> string \<Rightarrow> nostr_host
    \<Rightarrow> string result_type \<times> nostr_host" where
  "generate_host_nostr_webrtc_uri e keys permanent_password h =
     (case keys of
        Inl err \<Rightarrow> (Inl err, h)
      | Inr pubkey \<Rightarrow>
          (let device_id = without_blanks (ne_id e);
               uri = to_uri e \<lparr>nl_device_id = device_id, nl_pubkey = pubkey, nl_embedded_offer = None,
                 nl_password = Some permanent_password\<rparr>
           in if nh_running h then (Inr uri, h)
              else (Inr uri, h\<lparr>nh_running := True, hs_session := hs_session h + 1, nh_my_session := hs_session h + 1,
                     nh_device_id := device_id, nh_phase := Preparing\<rparr>)))"

definition leave_loop :: "nostr_host \<Rightarrow> nostr_host" where
  "leave_loop h = h\<lparr>nh_running := False, nh_phase := Idle\<rparr>"

definition next_session :: "nostr_host \<Rightarrow> nostr_host" where
  "next_session h = h\<lparr>hs_session := hs_session h + 1, nh_my_session := hs_session h + 1, nh_phase := Preparing\<rparr>"

text \<open>
  The local endpoint is there (or why it is not); the offer has been published, successfully or not.
\<close>

definition host_prepared :: "nostr_env \<Rightarrow> string result_type \<Rightarrow> string result_type \<Rightarrow> nostr_host \<Rightarrow> nostr_host" where
  "host_prepared e endpoint keys h =
     (case endpoint of
        Inl _ \<Rightarrow> next_session h
      | Inr local \<Rightarrow>
          (case keys of
             Inl _ \<Rightarrow> leave_loop h
           | Inr pubkey \<Rightarrow>
               (let uri = to_uri e \<lparr>nl_device_id = nh_device_id h, nl_pubkey = pubkey, nl_embedded_offer = Some local,
                      nl_password = None\<rparr>;
                    h1 = (if nh_offer_watch h then h\<lparr>nh_offers := nh_offers h @ [uri]\<rparr> else h)
                in case wait_check (nh_my_session h) h1 of
                     (Some content, h2) \<Rightarrow> h2\<lparr>nh_phase := Answered content\<rparr>
                   | (None, h2) \<Rightarrow> h2\<lparr>nh_phase := Checked\<rparr>)))"

datatype host_event =
    Relay string
  | Generate "string result_type" string
  | RuntimeFailed
  | Prepared "string result_type" "string result_type"
  | Register
  | Await bool
  | EndWait
  | Applied bool
  | Served
  | SetHandler
  | SetStarter
  | WatchOffers

text \<open>One step of the process; an event that does not concern the phase of the loop changes nothing.\<close>

definition host_step :: "nostr_env \<Rightarrow> nostr_host \<Rightarrow> host_event \<Rightarrow> nostr_host" where
  "host_step e h ev =
     (case ev of
        Relay text \<Rightarrow> handle_relay_message e text h
      | Generate keys pw \<Rightarrow> snd (generate_host_nostr_webrtc_uri e keys pw h)
      | SetHandler \<Rightarrow> h\<lparr>hs_handler := True\<rparr>
      | SetStarter \<Rightarrow> h\<lparr>nh_starter := True\<rparr>
      | WatchOffers \<Rightarrow> h\<lparr>nh_offer_watch := True\<rparr>
      | RuntimeFailed \<Rightarrow> if nh_phase h = Preparing then leave_loop h else h
      | Prepared endpoint keys \<Rightarrow> if nh_phase h = Preparing then host_prepared e endpoint keys h else h
      | Register \<Rightarrow>
          if nh_phase h = Checked then (let (c, h') = wait_register h in h'\<lparr>nh_phase := Waiting c\<rparr>) else h
      | Await elapsed \<Rightarrow>
          (case nh_phase h of
             Waiting c \<Rightarrow> (case wait_receive elapsed c h of (Some r, h') \<Rightarrow> h'\<lparr>nh_phase := Ending r\<rparr> | (None, h') \<Rightarrow> h')
           | _ \<Rightarrow> h)
      | EndWait \<Rightarrow>
          (case nh_phase h of
             Ending (Inr a) \<Rightarrow> (wait_end h)\<lparr>nh_phase := Answered a\<rparr>
           | Ending (Inl _) \<Rightarrow> next_session (wait_end h)
           | _ \<Rightarrow> h)
      | Applied ok \<Rightarrow>
          (case nh_phase h of
             Answered _ \<Rightarrow> if \<not> ok then next_session h
                           else h\<lparr>nh_phase := (if nh_starter h then Serving else Stuck)\<rparr>
           | _ \<Rightarrow> h)
      | Served \<Rightarrow> if nh_phase h = Serving then next_session h else h)"

definition host_run :: "nostr_env \<Rightarrow> host_event list \<Rightarrow> nostr_host" where
  "host_run e evs = foldl (host_step e) host_new evs"

section \<open>Whose answer it is\<close>

definition answer_in :: "nostr_env \<Rightarrow> string \<Rightarrow> string option" where
  "answer_in e text = (case relay_signal_of e text of Some (AnswerSignal a) \<Rightarrow> Some a | _ \<Rightarrow> None)"

text \<open>The answer \<open>a\<close> came in while the number of the session was \<open>n\<close>.\<close>

definition heard :: "nostr_env \<Rightarrow> host_event list \<Rightarrow> u64 \<Rightarrow> string \<Rightarrow> bool" where
  "heard e evs n a \<longleftrightarrow> (\<exists>pre text post. evs = pre @ Relay text # post \<and> answer_in e text = Some a
     \<and> hs_session (host_run e pre) = n)"

lemma host_run_snoc [simp]: "host_run e (evs @ [ev]) = host_step e (host_run e evs) ev"
  by (simp add: host_run_def)

lemma host_run_append: "host_run e (evs @ evs') = foldl (host_step e) (host_run e evs) evs'"
  by (simp add: host_run_def)

lemma heard_snoc: "heard e evs n a \<Longrightarrow> heard e (evs @ [ev]) n a"
  unfolding heard_def by fastforce

lemma heard_now: "answer_in e text = Some a \<Longrightarrow> heard e (evs @ [Relay text]) (hs_session (host_run e evs)) a"
  unfolding heard_def by blast

definition answer_ok :: "nostr_env \<Rightarrow> host_event list \<Rightarrow> nostr_host \<Rightarrow> bool" where
  "answer_ok e evs h \<longleftrightarrow>
     (\<forall>n a. hs_cache h = Some (n, a) \<longrightarrow> heard e evs n a)
     \<and> (\<forall>c. hs_pending h = Some c \<longrightarrow> c < length (hs_channels h) \<and> (nh_phase h = Waiting c \<or> (\<exists>r. nh_phase h = Ending r)))
     \<and> nh_my_session h = hs_session h
     \<and> (nh_running h \<longleftrightarrow> nh_phase h \<noteq> Idle)
     \<and> (case nh_phase h of
          Waiting c \<Rightarrow> c < length (hs_channels h) \<and> (\<forall>a. hs_channels h ! c = Delivered a \<longrightarrow> heard e evs (hs_session h) a)
        | Ending (Inr a) \<Rightarrow> heard e evs (hs_session h) a
        | Answered a \<Rightarrow> heard e evs (hs_session h) a
        | _ \<Rightarrow> True)"

lemma answer_okI:
  assumes "\<And>n a. hs_cache h = Some (n, a) \<Longrightarrow> heard e evs n a"
    "\<And>c. hs_pending h = Some c \<Longrightarrow> c < length (hs_channels h) \<and> (nh_phase h = Waiting c \<or> (\<exists>r. nh_phase h = Ending r))"
    "nh_my_session h = hs_session h" "nh_running h \<longleftrightarrow> nh_phase h \<noteq> Idle"
    "\<And>c. nh_phase h = Waiting c \<Longrightarrow> c < length (hs_channels h)"
    "\<And>c a. nh_phase h = Waiting c \<Longrightarrow> hs_channels h ! c = Delivered a \<Longrightarrow> heard e evs (hs_session h) a"
    "\<And>a. nh_phase h = Ending (Inr a) \<or> nh_phase h = Answered a \<Longrightarrow> heard e evs (hs_session h) a"
  shows "answer_ok e evs h"
  unfolding answer_ok_def using assms by (auto split: host_phase.split sum.split)

lemma answer_okD:
  assumes "answer_ok e evs h"
  shows "hs_cache h = Some (n, a) \<Longrightarrow> heard e evs n a"
    "hs_pending h = Some c \<Longrightarrow> c < length (hs_channels h)"
    "hs_pending h = Some c \<Longrightarrow> nh_phase h = Waiting c \<or> (\<exists>r. nh_phase h = Ending r)"
    "nh_my_session h = hs_session h" "nh_running h \<longleftrightarrow> nh_phase h \<noteq> Idle"
    "nh_phase h = Waiting c \<Longrightarrow> c < length (hs_channels h)"
    "nh_phase h = Waiting c \<Longrightarrow> hs_channels h ! c = Delivered a \<Longrightarrow> heard e evs (hs_session h) a"
    "nh_phase h = Ending (Inr a) \<or> nh_phase h = Answered a \<Longrightarrow> heard e evs (hs_session h) a"
  using assms unfolding answer_ok_def by auto

lemma answer_ok_later: "answer_ok e evs h \<Longrightarrow> answer_ok e (evs @ [ev]) h"
  by (rule answer_okI) (auto dest: answer_okD heard_snoc)

text \<open>A host that is about to prepare a session has no waiter: only the cache counts.\<close>

lemma answer_ok_fresh:
  assumes "\<And>n a. hs_cache h = Some (n, a) \<Longrightarrow> heard e evs n a" "hs_pending h = None" "nh_my_session h = hs_session h"
    "nh_running h \<longleftrightarrow> nh_phase h \<noteq> Idle" "nh_phase h \<in> {Idle, Preparing, Checked, Serving, Stuck}"
  shows "answer_ok e evs h"
  using assms by (intro answer_okI) auto

lemma answer_ok_no_waiter:
  assumes "answer_ok e evs h" "nh_phase h \<in> {Idle, Preparing, Checked, Serving, Stuck} \<or> (\<exists>a. nh_phase h = Answered a)"
  shows "hs_pending h = None"
  using answer_okD(3) [OF assms(1)] assms(2) by (cases "hs_pending h") auto

lemma answer_ok_cong:
  assumes "answer_ok e evs h" "hs_session h' = hs_session h" "hs_pending h' = hs_pending h" "hs_channels h' = hs_channels h"
    "hs_cache h' = hs_cache h" "nh_running h' = nh_running h" "nh_phase h' = nh_phase h" "nh_my_session h' = nh_my_session h"
  shows "answer_ok e evs h'"
  using assms(1) unfolding answer_ok_def assms(2-8) .

lemma deliver_ok:
  assumes ok: "answer_ok e evs h" and a: "answer_in e text = Some a" and h: "h = host_run e evs"
  shows "answer_ok e (evs @ [Relay text]) (deliver_answer a h)"
proof -
  have new: "heard e (evs @ [Relay text]) (hs_session h) a" using heard_now [OF a] h by simp
  note D = answer_okD [OF answer_ok_later [OF ok]]
  show ?thesis
  proof (cases "hs_pending h")
    case None
    then show ?thesis using D new by (intro answer_okI) (auto simp: deliver_answer_def)
  next
    case (Some c)
    have phase: "nh_phase h = Waiting c \<or> (\<exists>r. nh_phase h = Ending r)" "c < length (hs_channels h)"
      using answer_okD(2,3) [OF ok Some] by auto
    show ?thesis using D new Some phase
      by (intro answer_okI) (auto simp: deliver_answer_def nth_list_update Let_def split: if_splits)
  qed
qed

lemma relay_ok:
  assumes "answer_ok e evs h" "h = host_run e evs"
  shows "answer_ok e (evs @ [Relay text]) (handle_relay_message e text h)"
proof (cases "relay_signal_of e text")
  case None
  then show ?thesis using answer_ok_later [OF assms(1)] by (simp add: handle_relay_message_def)
next
  case (Some sig)
  show ?thesis
  proof (cases sig)
    case (AnswerSignal a)
    with Some deliver_ok [OF assms(1) _ assms(2)] show ?thesis by (simp add: handle_relay_message_def answer_in_def)
  next
    case (RegistrationSignal c)
    have "answer_ok e (evs @ [Relay text]) (register_device e c h)"
      by (rule answer_ok_cong [OF answer_ok_later [OF assms(1)]]) (simp_all add: register_device_def split: option.split)
    with Some RegistrationSignal show ?thesis by (simp add: handle_relay_message_def)
  qed
qed

lemma fresh_session_ok:
  assumes "answer_ok e evs h" "hs_pending h = None"
  shows "nh_phase h \<noteq> Idle \<Longrightarrow> answer_ok e evs (next_session h)" "answer_ok e evs (leave_loop h)"
  using answer_okD(1,4,5) [OF assms(1)] assms(2)
  by (auto intro!: answer_ok_fresh simp: next_session_def leave_loop_def)

lemma generate_ok:
  assumes "answer_ok e evs h"
  shows "answer_ok e evs (snd (generate_host_nostr_webrtc_uri e keys pw h))"
proof (cases "nh_running h")
  case False
  then have "hs_pending h = None" using answer_okD(5) [OF assms] answer_ok_no_waiter [OF assms] by simp
  then show ?thesis using False assms answer_okD(1) [OF assms]
    by (auto intro!: answer_ok_fresh simp: generate_host_nostr_webrtc_uri_def Let_def split: sum.split)
qed (use assms in \<open>simp add: generate_host_nostr_webrtc_uri_def Let_def split: sum.split\<close>)

lemma prepared_ok:
  assumes ok: "answer_ok e evs h" and phase: "nh_phase h = Preparing"
  shows "answer_ok e evs (host_prepared e endpoint keys h)"
proof -
  have none: "hs_pending h = None" using answer_ok_no_waiter [OF ok] phase by simp
  note D = answer_okD [OF ok]
  have F: "answer_ok e evs (next_session h)" "answer_ok e evs (leave_loop h)"
    using fresh_session_ok [OF ok none] phase by simp_all
  show ?thesis
  proof (cases endpoint)
    case (Inr local)
    show ?thesis
    proof (cases keys)
      case (Inr pubkey)
      show ?thesis
        unfolding host_prepared_def \<open>endpoint = Inr local\<close> Inr
        using D none phase
        by (auto intro!: answer_okI simp: wait_check_def Let_def split: option.split prod.split sum.split)
    qed (simp add: host_prepared_def Inr F)
  qed (simp add: host_prepared_def F)
qed

lemma register_ok:
  assumes "answer_ok e evs h" "nh_phase h = Checked"
  shows "answer_ok e evs (host_step e h Register)"
proof -
  have "hs_pending h = None" using answer_ok_no_waiter [OF assms(1)] assms(2) by simp
  then show ?thesis using assms(2) answer_okD(1,4,5) [OF assms(1)]
    by (auto intro!: answer_okI simp: host_step_def wait_register_def drop_sender_def Let_def)
qed

lemma host_step_ok:
  assumes ok: "answer_ok e evs h" and h: "h = host_run e evs"
  shows "answer_ok e (evs @ [ev]) (host_step e h ev)"
proof (cases ev)
  case (Relay msg)
  then show ?thesis using relay_ok [OF ok h] by (simp add: host_step_def)
next
  case Register
  then show ?thesis using register_ok [OF answer_ok_later [OF ok]] answer_ok_later [OF ok]
    by (cases "nh_phase h = Checked") (simp_all add: host_step_def)
next
  case (Await elapsed)
  show ?thesis using answer_okD [OF answer_ok_later [OF ok, where ev = ev]] unfolding Await
    by (auto intro!: answer_okI simp: host_step_def wait_receive_def nth_list_update split: host_phase.split channel.split)
next
  case EndWait
  show ?thesis
  proof (cases "\<exists>r. nh_phase h = Ending r")
    case True
    then obtain r where r: "nh_phase h = Ending r" by blast
    have "answer_ok e (evs @ [ev]) ((wait_end h)\<lparr>nh_phase := (case r of Inr a \<Rightarrow> Answered a | Inl _ \<Rightarrow> Preparing)\<rparr>)"
      using answer_okD [OF answer_ok_later [OF ok, where ev = ev]] r
      by (auto intro!: answer_okI simp: wait_end_def split: sum.splits)
    from this fresh_session_ok(1) [OF this] r show ?thesis
      by (cases r) (auto simp: host_step_def EndWait wait_end_def next_session_def)
  next
    case False
    then show ?thesis using answer_ok_later [OF ok] by (simp add: host_step_def EndWait split: host_phase.split)
  qed
next
  case (Applied b)
  have "answer_ok e evs (host_step e h (Applied b))"
  proof (cases "\<exists>a. nh_phase h = Answered a")
    case True
    then have "hs_pending h = None" using answer_ok_no_waiter [OF ok] by blast
    then show ?thesis using fresh_session_ok(1) [OF ok] answer_okD(1,4,5) [OF ok] True
      by (auto intro!: answer_ok_fresh simp: host_step_def next_session_def)
  qed (use ok in \<open>simp add: host_step_def split: host_phase.split\<close>)
  then show ?thesis using answer_ok_later Applied by simp
next
  case Served
  then show ?thesis using answer_ok_later [OF ok] fresh_session_ok [OF answer_ok_later [OF ok]] answer_ok_no_waiter [OF ok]
    by (simp add: host_step_def)
next
  case RuntimeFailed
  then show ?thesis using answer_ok_later [OF ok] fresh_session_ok [OF answer_ok_later [OF ok]] answer_ok_no_waiter [OF ok]
    by (simp add: host_step_def)
next
  case (Prepared endpoint keys)
  then show ?thesis using prepared_ok [OF answer_ok_later [OF ok]] answer_ok_later [OF ok] by (simp add: host_step_def)
next
  case (Generate keys pw)
  then show ?thesis using generate_ok [OF answer_ok_later [OF ok]] by (simp add: host_step_def)
qed (auto intro: answer_ok_cong [OF answer_ok_later [OF ok]] simp: host_step_def)

lemma host_run_ok: "answer_ok e evs (host_run e evs)"
proof (induction evs rule: rev_induct)
  case Nil
  show ?case by (rule answer_ok_fresh) (simp_all add: host_run_def host_new_def)
next
  case (snoc ev evs)
  then show ?case using host_step_ok by simp
qed

text \<open>A waiter that has heard nothing is the one the relays deliver to.\<close>

definition waiter_ok :: "nostr_host \<Rightarrow> bool" where
  "waiter_ok h \<longleftrightarrow> (\<forall>c. nh_phase h = Waiting c \<and> hs_channels h ! c = Open \<longrightarrow> hs_pending h = Some c)"

lemma waiter_ok_other: "\<forall>c. nh_phase h \<noteq> Waiting c \<Longrightarrow> waiter_ok h"
  by (simp add: waiter_ok_def)

lemma waiter_step:
  assumes ok: "answer_ok e evs h" and w: "waiter_ok h"
  shows "waiter_ok (host_step e h ev)"
proof (cases ev)
  case (Relay msg)
  have "waiter_ok (deliver_answer a h)" for a
    using w answer_okD(2,3) [OF ok]
    by (auto simp: waiter_ok_def deliver_answer_def Let_def nth_list_update split: option.split if_splits)
  moreover have "waiter_ok (register_device e a h)" for a
    using w by (simp add: waiter_ok_def register_device_def split: option.split)
  ultimately show ?thesis using w
    by (simp add: Relay host_step_def handle_relay_message_def split: option.split relay_signal.split)
next
  case (Await b)
  show ?thesis
    using w by (auto simp: Await host_step_def waiter_ok_def wait_receive_def split: host_phase.split channel.split)
next
  case (Prepared endpoint keys)
  show ?thesis
    using w unfolding Prepared host_step_def host_prepared_def
    by (auto simp: waiter_ok_def wait_check_def Let_def next_session_def leave_loop_def
        split: sum.split option.split if_splits prod.split)
next
  case Register
  show ?thesis
    using w by (auto simp: Register host_step_def waiter_ok_def wait_register_def Let_def)
qed (use w in \<open>auto simp: host_step_def waiter_ok_def generate_host_nostr_webrtc_uri_def Let_def next_session_def
    leave_loop_def split: host_phase.split sum.split\<close>)

lemma host_run_waiter: "waiter_ok (host_run e evs)"
proof (induction evs rule: rev_induct)
  case Nil
  show ?case by (simp add: host_run_def host_new_def waiter_ok_def)
next
  case (snoc ev evs)
  with waiter_step [OF host_run_ok] show ?case by simp
qed

lemma answer_step: "answer_in e msg = Some a \<Longrightarrow> host_step e h (Relay msg) = deliver_answer a h"
  by (simp add: host_step_def handle_relay_message_def answer_in_def split: option.splits relay_signal.splits)

text \<open>An answer in the cache for the session that is being prepared is taken at once.\<close>

lemma prepared_with_answer:
  assumes "nh_phase h = Preparing" "hs_cache h = Some (nh_my_session h, a)"
  shows "nh_phase (host_step e h (Prepared (Inr local) (Inr k))) = Answered a"
  using assms by (simp add: host_step_def host_prepared_def wait_check_def Let_def)

lemma prepared_after_answer:
  assumes ok: "answer_ok e evs h" and p: "nh_phase h = Preparing" and a: "answer_in e msg = Some a"
  shows "nh_phase (host_step e (host_step e h (Relay msg)) (Prepared (Inr local) (Inr k))) = Answered a"
proof (rule prepared_with_answer)
  have "hs_pending h = None" using answer_ok_no_waiter [OF ok] p by simp
  then have d: "host_step e h (Relay msg) = h\<lparr>hs_cache := Some (hs_session h, a)\<rparr>"
    by (simp add: answer_step [OF a] deliver_answer_def)
  show "nh_phase (host_step e h (Relay msg)) = Preparing"
    "hs_cache (host_step e h (Relay msg)) = Some (nh_my_session (host_step e h (Relay msg)), a)"
    using p answer_okD(4) [OF ok] by (simp_all add: d)
qed

text \<open>
  C31: The answer a session applies came in while that session was the current one: an answer that came in under
  the number of an earlier session, cached or not, is never applied by a later one. For which offer it was made
  is not known; an answer that a relay delivers once more counts anew.
\<close>

theorem answers_belong_to_session:
  assumes "nh_phase (host_run e evs) = Answered a"
  shows "\<exists>pre msg post. evs = pre @ Relay msg # post \<and> answer_in e msg = Some a
    \<and> hs_session (host_run e pre) = hs_session (host_run e evs)"
  using answer_okD(8) [OF host_run_ok] assms unfolding heard_def by blast

text \<open>An answer while a session prepares its offer, and one while it waits.\<close>

lemma answer_while_preparing:
  assumes "answer_in e msg = Some a" "nh_phase (host_run e evs) = Preparing"
  shows "nh_phase (host_run e (evs @ [Relay msg, Prepared (Inr endpoint) (Inr key), Register, Await elapsed, EndWait])) = Answered a"
  using prepared_after_answer [OF host_run_ok assms(2,1)]
  by (simp add: host_run_append) (simp add: host_step_def)

lemma answer_while_waiting:
  assumes "answer_in e msg = Some a" "nh_phase (host_run e evs) = Waiting c" "hs_channels (host_run e evs) ! c = Open"
  shows "nh_phase (host_run e (evs @ [Relay msg, Prepared (Inr endpoint) (Inr key), Register, Await elapsed, EndWait])) = Answered a"
proof -
  have p: "hs_pending (host_run e evs) = Some c" using host_run_waiter assms(2,3) by (simp add: waiter_ok_def)
  have "c < length (hs_channels (host_run e evs))" using answer_okD(2) [OF host_run_ok p] .
  with p assms(2,3) show ?thesis
    by (simp add: host_run_append answer_step [OF assms(1)] deliver_answer_def Let_def)
      (simp add: host_step_def wait_receive_def)
qed

text \<open>An answer between the look into the cache and the sender goes into the cache, where nobody looks again.\<close>

lemma answer_in_between:
  assumes "answer_in e msg = Some a" "nh_phase (host_run e evs) = Checked"
  shows "nh_phase (host_run e (evs @ [Relay msg, Register, Await True, EndWait])) = Preparing
    \<and> hs_session (host_run e (evs @ [Relay msg, Register, Await True, EndWait])) = hs_session (host_run e evs) + 1
    \<and> hs_cache (host_run e (evs @ [Relay msg, Register, Await True, EndWait])) = Some (hs_session (host_run e evs), a)"
proof -
  have "hs_pending (host_run e evs) = None" using answer_ok_no_waiter [OF host_run_ok] assms(2) by simp
  with assms(2) show ?thesis
    by (simp add: host_run_append answer_step [OF assms(1)] deliver_answer_def)
      (simp add: host_step_def wait_register_def wait_receive_def wait_end_def next_session_def drop_sender_def Let_def)
qed

text \<open>
  C32: An answer that comes while a session publishes its offer, before it looks into the cache, or while it waits
  and has heard none, is the one the session applies. One that comes between its look into the cache and the
  moment it leaves a sender for the relays is lost: if no other comes the session times out, and the answer lies
  in the cache under the number of a session that is over.
\<close>

theorem answer_in_time_is_applied:
  assumes "answer_in e msg = Some a"
  shows "(nh_phase (host_run e evs) = Preparing
      \<or> (\<exists>c. nh_phase (host_run e evs) = Waiting c \<and> hs_channels (host_run e evs) ! c = Open) \<longrightarrow>
      nh_phase (host_run e (evs @ [Relay msg, Prepared (Inr endpoint) (Inr key), Register, Await elapsed, EndWait]))
        = Answered a)
    \<and> (nh_phase (host_run e evs) = Checked \<longrightarrow>
      nh_phase (host_run e (evs @ [Relay msg, Register, Await True, EndWait])) = Preparing
      \<and> hs_session (host_run e (evs @ [Relay msg, Register, Await True, EndWait])) = hs_session (host_run e evs) + 1
      \<and> hs_cache (host_run e (evs @ [Relay msg, Register, Await True, EndWait])) = Some (hs_session (host_run e evs), a))"
  using answer_while_preparing [OF assms] answer_while_waiting [OF assms] answer_in_between [OF assms] by blast

text \<open>
  C33: An answer counts for whatever session is current when a relay delivers it, also when an earlier session has
  already been served with it: a relay that sends the event again, as every relay does after it is subscribed to
  anew, makes the next session apply the answer to the last one's offer.
\<close>

theorem repeated_answer_is_applied_again:
  assumes "nh_phase (host_run e evs) = Answered a" "answer_in e msg = Some a" "nh_starter (host_run e evs)"
  shows "nh_phase (host_run e (evs @ [Applied True, Served, Relay msg, Prepared (Inr endpoint) (Inr key)])) = Answered a
    \<and> hs_session (host_run e (evs @ [Applied True, Served, Relay msg, Prepared (Inr endpoint) (Inr key)]))
      = hs_session (host_run e evs) + 1"
proof -
  let ?h = "host_run e (evs @ [Applied True, Served])"
  have h: "?h = next_session ((host_run e evs)\<lparr>nh_phase := Serving\<rparr>)"
    using assms(1,3) by (simp add: host_run_append host_step_def)
  have p: "nh_phase ?h = Preparing" by (simp add: h next_session_def)
  have s: "hs_session (host_step e (host_step e ?h (Relay msg)) (Prepared (Inr endpoint) (Inr key))) = hs_session ?h"
    using p by (simp add: answer_step [OF assms(2)] host_step_def [of e _ "Prepared _ _"] deliver_answer_def Let_def
        host_prepared_def wait_check_def split: option.split)
  have "hs_session ?h = hs_session (host_run e evs) + 1" by (simp add: h next_session_def)
  with prepared_after_answer [OF host_run_ok p assms(2)] s show ?thesis
    by (simp add: host_run_append)
qed

section \<open>Who sent it\<close>

lemma event_parts: "index_usize (JArray [a, b, c]) 0 = a" "index_usize (JArray [a, b, c]) 2 = c"
  by (simp_all add: index_usize_def)

text \<open>
  What a message of a relay does depends on the content and the tags of its event alone: the key and the
  signature of the author are never looked at, so anybody who knows the id of the host can answer its offer or
  register a device.
\<close>

theorem relay_messages_need_no_author:
  assumes "ne_json_parse e msg1 = Some (JArray [JString ''EVENT'', sub1, event1])"
    "ne_json_parse e msg2 = Some (JArray [JString ''EVENT'', sub2, event2])"
    "index_str event1 ''content'' = index_str event2 ''content''"
    "index_str event1 ''tags'' = index_str event2 ''tags''"
  shows "handle_relay_message e msg1 h = handle_relay_message e msg2 h"
proof -
  have "relay_signal_of e msg1 = relay_signal_of e msg2"
    unfolding relay_signal_of_def assms(1,2) option.case event_parts assms(3,4) Let_def by (rule refl)
  then show ?thesis by (simp add: handle_relay_message_def)
qed

section \<open>Registering a phone\<close>

text \<open>\<open>publish_nostr_registration\<close> of \<open>src/flutter_ffi.rs\<close>.\<close>

definition registration_message :: "string \<Rightarrow> string \<Rightarrow> string \<Rightarrow> string \<Rightarrow> string \<Rightarrow> string" where
  "registration_message name i permanent temporary offer =
     ''ANUVADINI_HELLO:'' @ name @ '':'' @ without_blanks i @ '':''
       @ (if permanent = '''' then temporary else permanent) @ '':'' @ offer"

definition publish_nostr_registration :: "nostr_env \<Rightarrow> string \<Rightarrow> string \<Rightarrow> string \<Rightarrow> string \<Rightarrow> string
    \<Rightarrow> (string \<Rightarrow> string \<Rightarrow> unit result_type) \<Rightarrow> unit result_type \<times> (string \<times> string) list" where
  "publish_nostr_registration e laptop_device_id name permanent temporary offer publish =
     publish_webrtc_registration e laptop_device_id (registration_message name (ne_id e) permanent temporary offer) publish"

lemma splitn_colon: "CHR '':'' \<notin> set p \<Longrightarrow> splitn (Suc (Suc n)) (CHR '':'') (p @ CHR '':'' # s) = p # splitn (Suc n) (CHR '':'') s"
proof -
  assume p: "CHR '':'' \<notin> set p"
  have "dropWhile (\<lambda>x. x \<noteq> CHR '':'') (p @ CHR '':'' # s) = CHR '':'' # s" "takeWhile (\<lambda>x. x \<noteq> CHR '':'') (p @ CHR '':'' # s) = p"
    using p by (induction p) auto
  then show ?thesis by simp
qed

lemma splitn_hello:
  "splitn 5 (CHR '':'') (''ANUVADINI_HELLO:'' @ s) = ''ANUVADINI_HELLO'' # splitn 4 (CHR '':'') s"
  using splitn_colon [of "''ANUVADINI_HELLO''" 3 s] by (simp add: eval_nat_numeral)

lemma split_registration:
  assumes "CHR '':'' \<notin> set n" "CHR '':'' \<notin> set i" "CHR '':'' \<notin> set p"
  shows "splitn 4 (CHR '':'') (n @ '':'' @ i @ '':'' @ p @ '':'' @ offer) = [n, i, p, offer]"
  using splitn_colon [OF assms(1), of 2] splitn_colon [OF assms(2), of 1] splitn_colon [OF assms(3), of 0]
  by (simp add: eval_nat_numeral)

lemma without_blanks_colon: "CHR '':'' \<notin> set s \<Longrightarrow> CHR '':'' \<notin> set (without_blanks s)"
  by (simp add: without_blanks_def)

text \<open>The event of a registration as a relay hands it on: only its content and its tags matter.\<close>

definition carries_signal :: "nostr_env \<Rightarrow> string \<Rightarrow> string \<Rightarrow> string list \<Rightarrow> bool" where
  "carries_signal e msg content tags \<longleftrightarrow>
     (case ne_json_parse e msg of
        Some v \<Rightarrow> as_str (index_usize v 0) = Some ''EVENT''
          \<and> as_str (index_str (index_usize v 2) ''content'') = Some content
          \<and> as_array (index_str (index_usize v 2) ''tags'') = Some (map (\<lambda>t. JArray [JString ''t'', JString t]) tags)
      | None \<Rightarrow> False)"

lemma registration_signal:
  assumes "carries_signal e msg content (signal_tags device_id ''_reg'' session)" "starts_with content ''webrtc://''"
    "without_blanks device_id = without_blanks (ne_id e)" "without_blanks (ne_id e) @ ''_answer'' \<noteq> ''session_'' @ show_nat (unat session)"
  shows "relay_signal_of e msg = Some (RegistrationSignal content)"
proof -
  obtain v where v: "ne_json_parse e msg = Some v" "as_str (index_usize v 0) = Some ''EVENT''"
      "as_str (index_str (index_usize v 2) ''content'') = Some content"
      "as_array (index_str (index_usize v 2) ''tags'') = Some (map (\<lambda>t. JArray [JString ''t'', JString t]) (signal_tags device_id ''_reg'' session))"
    using assms(1) by (auto simp: carries_signal_def split: option.splits)
  show ?thesis using assms(2-4) v
    by (simp add: relay_signal_of_def Let_def signal_tags_def tag_is_def as_array_def as_str_def)
qed

text \<open>
  C34: The registration a phone publishes reaches the host as it was meant: whichever event carries it, the device
  that the host learns of has the name, the id, the password and the offer of the phone, if there is no colon in
  the first three.
\<close>

theorem registration_arrives:
  assumes "\<forall>bs. ne_b64_decode host (as_bytes (ne_b64_encode phone bs)) = Some bs"
    "carries_signal host msg
       (normalize_webrtc_endpoint phone (registration_message name i permanent temporary offer))
       (signal_tags laptop ''_reg'' 0)"
    "without_blanks laptop = without_blanks (ne_id host)" "hs_handler h"
    "valid_utf8 (as_bytes (registration_message name i permanent temporary offer))"
    "CHR '':'' \<notin> set (name @ i @ permanent @ temporary)"
  shows "handle_relay_message host msg h = h\<lparr>hs_registered := hs_registered h
    @ [device_json host name (without_blanks i) offer (if permanent = '''' then temporary else permanent)]\<rparr>"
proof -
  let ?m = "registration_message name i permanent temporary offer"
  let ?pw = "if permanent = '''' then temporary else permanent"
  have content: "normalize_webrtc_endpoint phone ?m = ''webrtc://'' @ ne_b64_encode phone (as_bytes ?m)"
    by (simp add: normalize_webrtc_endpoint_def starts_with_def registration_message_def)
  have "last (without_blanks (ne_id host) @ ''_answer'') = CHR ''r''" by simp
  moreover have "last (''session_'' @ show_nat (unat (0 :: u64))) = CHR ''0''" by code_simp
  ultimately have "without_blanks (ne_id host) @ ''_answer'' \<noteq> ''session_'' @ show_nat (unat (0 :: u64))" by force
  with registration_signal [OF assms(2) _ assms(3)] have sig: "relay_signal_of host msg
    = Some (RegistrationSignal (''webrtc://'' @ ne_b64_encode phone (as_bytes ?m)))"
    unfolding content by (simp add: starts_with_def)
  have "registration_in host (''webrtc://'' @ ne_b64_encode phone (as_bytes ?m)) = Some ?m"
    using assms(1,5) by (simp add: registration_in_def) (simp add: registration_message_def starts_with_def)
  moreover have "splitn 5 (CHR '':'') ?m = [''ANUVADINI_HELLO'', name, without_blanks i, ?pw, offer]"
    using assms(6) split_registration [OF _ without_blanks_colon, of name i ?pw offer]
    unfolding registration_message_def splitn_hello by simp
  ultimately show ?thesis using assms(4) sig
    by (simp add: handle_relay_message_def register_device_def registration_json_def part_or_def)
qed

text \<open>
  With a colon in its name a phone is registered under half of it, with the rest for its id, its id for its
  password, and its password in front of its offer.
\<close>

lemma colon_in_name_shifts_registration:
  assumes "CHR '':'' \<notin> set (a @ b @ i)"
  shows "registration_json e (registration_message (a @ '':'' @ b) i pw '''' offer)
    = device_json e a b ((if pw = '''' then '''' else pw) @ '':'' @ offer) (without_blanks i)"
proof -
  have "splitn 5 (CHR '':'') (registration_message (a @ '':'' @ b) i pw '''' offer)
    = [''ANUVADINI_HELLO'', a, b, without_blanks i, (if pw = '''' then '''' else pw) @ '':'' @ offer]"
    using assms split_registration [OF _ _ without_blanks_colon, of a b i "(if pw = '''' then '''' else pw) @ '':'' @ offer"]
    unfolding registration_message_def append_assoc splitn_hello by simp
  then show ?thesis by (simp add: registration_json_def part_or_def)
qed

section \<open>Examples\<close>

text \<open>
  A relay whose messages are \<open>answer\<close>, \<open>forged\<close> (the same answer by another author) and \<open>hello\<close>; base64 is the
  identity.
\<close>

definition demo_event :: "string \<Rightarrow> string list \<Rightarrow> string \<Rightarrow> json_value" where
  "demo_event content tags author = JArray [JString ''EVENT'', JString ''sub_webrtc_signals'', JObject
     [(''content'', JString content), (''pubkey'', JString author),
      (''tags'', JArray (map (\<lambda>t. JArray [JString ''t'', JString t]) tags))]]"

definition demo_hello :: string where
  "demo_hello = registration_message ''Ann'' ''77'' '''' ''k7'' ''webrtc://x''"

definition demo_nostr :: nostr_env where
  "demo_nostr = \<lparr>ne_id = ''4 2'',
     ne_json_parse = (\<lambda>t. if t = ''answer'' then Some (demo_event ''webrtc://a'' [''42_answer'', ''session_0''] ''ann'')
       else if t = ''forged'' then Some (demo_event ''webrtc://a'' [''42_answer'', ''session_0''] ''eve'')
       else if t = ''hello'' then Some (demo_event (''webrtc://'' @ demo_hello) [''42_reg'', ''session_0''] ''ann'')
       else None),
     ne_json_text = (\<lambda>_. ''{}''), ne_b64_encode = str_of_bytes, ne_b64_decode = Some, ne_sign = (\<lambda>c _. Inr c)\<rparr>"

definition demo_checked :: "host_event list" where
  "demo_checked = [SetStarter, Generate (Inr ''pk'') '''', Prepared (Inr ''webrtc://o'') (Inr ''pk'')]"

definition demo_waiting :: "host_event list" where
  "demo_waiting = demo_checked @ [Register]"

definition demo_answered :: "host_event list" where
  "demo_answered = demo_waiting @ [Relay ''answer'', Await False, EndWait]"

lemma demo_parse:
  "ne_json_parse demo_nostr ''answer'' = Some (demo_event ''webrtc://a'' [''42_answer'', ''session_0''] ''ann'')"
  "ne_json_parse demo_nostr ''forged'' = Some (demo_event ''webrtc://a'' [''42_answer'', ''session_0''] ''eve'')"
  by (simp_all add: demo_nostr_def)

lemma demo_answer: "answer_in demo_nostr ''answer'' = Some ''webrtc://a''" by code_simp

lemma demo_phase_checked: "nh_phase (host_run demo_nostr demo_checked) = Checked" by code_simp

lemma demo_phases: "nh_phase (host_run demo_nostr demo_waiting) = Waiting 0 \<and> hs_channels (host_run demo_nostr demo_waiting) = [Open]"
  "nh_phase (host_run demo_nostr demo_answered) = Answered ''webrtc://a''" "nh_starter (host_run demo_nostr demo_answered)"
  by (code_simp, code_simp, code_simp)

theorem answers_belong_to_session_witness:
  "\<exists>pre msg post. demo_answered = pre @ Relay msg # post \<and> answer_in demo_nostr msg = Some ''webrtc://a''
    \<and> hs_session (host_run demo_nostr pre) = hs_session (host_run demo_nostr demo_answered)"
  by (rule answers_belong_to_session [OF demo_phases(2)])

theorem answer_in_time_is_applied_witness:
  "nh_phase (host_run demo_nostr (demo_waiting @ [Relay ''answer'', Prepared (Inr []) (Inr []), Register, Await True, EndWait]))
    = Answered ''webrtc://a''
   \<and> nh_phase (host_run demo_nostr (demo_checked @ [Relay ''answer'', Register, Await True, EndWait])) = Preparing"
  using answer_in_time_is_applied [OF demo_answer, of demo_waiting "[]" "[]" True] demo_phases(1)
    answer_in_time_is_applied [OF demo_answer, of demo_checked "[]" "[]" True] demo_phase_checked by simp

theorem repeated_answer_is_applied_again_witness:
  "nh_phase (host_run demo_nostr (demo_answered @ [Applied True, Served, Relay ''answer'', Prepared (Inr []) (Inr [])]))
    = Answered ''webrtc://a''"
  using repeated_answer_is_applied_again [OF demo_phases(2) demo_answer demo_phases(3)] by blast

theorem relay_messages_need_no_author_witness:
  "handle_relay_message demo_nostr ''answer'' host_new = handle_relay_message demo_nostr ''forged'' host_new"
  by (rule relay_messages_need_no_author [OF demo_parse [unfolded demo_event_def]]) (simp_all add: index_str_def)

theorem registration_arrives_witness:
  "hs_registered (handle_relay_message demo_nostr ''hello'' (host_new\<lparr>hs_handler := True\<rparr>)) = [device_json demo_nostr ''Ann'' ''77'' ''webrtc://x'' ''k7'']"
proof -
  have v: "valid_utf8 (as_bytes demo_hello)" by (rule ascii_valid_utf8) code_simp
  have c: "carries_signal demo_nostr ''hello'' (normalize_webrtc_endpoint demo_nostr demo_hello) (signal_tags ''42'' ''_reg'' 0)"
    by code_simp
  note registration_arrives [OF _ c [unfolded demo_hello_def] _ _ v [unfolded demo_hello_def], of "host_new\<lparr>hs_handler := True\<rparr>"]
  then show ?thesis by (simp add: demo_nostr_def host_new_def without_blanks_def)
qed

end
