(* ===== verification/Lan_Pairing.thy ===== *)
theory Lan_Pairing
  imports Logon_Safety Nostr_Signaling
begin

text \<open>
  Pairing over the local network: the listener for direct connections and the commands a peer may send it before
  any log-on (\<open>direct_server\<close> and \<open>handle_anuvadini_command\<close> of \<open>src/rendezvous_mediator.rs\<close>), with the passwords
  \<open>src/ui_interface.rs\<close> hands out. The text of JSON is an argument.
\<close>

section \<open>Text\<close>

text \<open>\<open>str::trim\<close>: the characters of \<open>White_Space\<close> as they are encoded.\<close>

definition white_spaces :: "string list" where
  "white_spaces = map str_of_bytes ([[9], [10], [11], [12], [13], [32], [0xC2, 0x85], [0xC2, 0xA0], [0xE1, 0x9A, 0x80]]
     @ map (\<lambda>i. [0xE2, 0x80, 0x80 + of_nat i]) [0..<11]
     @ [[0xE2, 0x80, 0xA8], [0xE2, 0x80, 0xA9], [0xE2, 0x80, 0xAF], [0xE2, 0x81, 0x9F], [0xE3, 0x80, 0x80]])"

function strip_prefixes :: "string list \<Rightarrow> string \<Rightarrow> string" where
  "strip_prefixes ps s =
     (case find (\<lambda>p. p \<noteq> [] \<and> starts_with s p) ps of
        None \<Rightarrow> s
      | Some p \<Rightarrow> strip_prefixes ps (drop (length p) s))"
  by pat_completeness auto
termination
proof (relation "measure (\<lambda>(_, s). length s)")
  fix ps s p
  assume "find (\<lambda>p. p \<noteq> [] \<and> starts_with s p) ps = Some p"
  then have "p \<noteq> []" "starts_with s p" by (auto simp: find_Some_iff)
  then have "s \<noteq> []" by (auto simp: starts_with_def)
  with \<open>p \<noteq> []\<close> show "((ps, drop (length p) s), ps, s) \<in> measure (\<lambda>(_, s). length s)" by simp
qed simp

declare strip_prefixes.simps [simp del]

definition str_trim :: "string \<Rightarrow> string" where
  "str_trim s = rev (strip_prefixes (map rev white_spaces) (rev (strip_prefixes white_spaces s)))"

text \<open>\<open>s.replace(p, "")\<close>.\<close>

function remove_all_of :: "string \<Rightarrow> string \<Rightarrow> string" where
  "remove_all_of p s =
     (if p = [] \<or> s = [] then s
      else if starts_with s p then remove_all_of p (drop (length p) s)
      else hd s # remove_all_of p (tl s))"
  by pat_completeness auto
termination by (relation "measure (\<lambda>(_, s). length s)") auto

declare remove_all_of.simps [simp del]

definition is_char_boundary :: "string \<Rightarrow> nat \<Rightarrow> bool" where
  "is_char_boundary s i \<longleftrightarrow> i = 0 \<or> i = length s \<or> (i < length s \<and> \<not> is_continuation (as_bytes s ! i))"

section \<open>The listener\<close>

definition get_direct_port :: "app_config \<Rightarrow> i32" where
  "get_direct_port g =
     (let port = parse_i32_or_0 (get_option g ''direct-access-port'')
      in if port \<le>s 0 then of_nat RENDEZVOUS_PORT + 2 else port)"

text \<open>
  One round of \<open>direct_server\<close>: it binds when it does not listen (\<open>bound\<close> is the error, if any), and stops listening
  when the port of the options is another one. After a failure it waits for the port to change. No option keeps
  it from listening: \<open>disabled\<close> is always false.
\<close>

record direct_listener =
  dl_listens :: bool
  dl_port :: i32
  dl_ready :: bool
  dl_failed :: bool

definition direct_server_round :: "app_config \<Rightarrow> string option \<Rightarrow> direct_listener \<Rightarrow> direct_listener \<times> string list" where
  "direct_server_round g bound d =
     (if dl_failed d then (d\<lparr>dl_failed := (dl_port d = get_direct_port g)\<rparr>, [])
      else if \<not> dl_listens d then
        (case bound of
           None \<Rightarrow> (d\<lparr>dl_listens := True, dl_port := get_direct_port g, dl_ready := True\<rparr>, [''started''])
         | Some err \<Rightarrow> (d\<lparr>dl_port := get_direct_port g, dl_ready := False, dl_failed := True\<rparr>, [''error:'' @ err]))
      else if dl_port d \<noteq> get_direct_port g then (d\<lparr>dl_listens := False, dl_ready := False\<rparr>, [])
      else (d, []))"

text \<open>What is done with a connection, by the first bytes that are there within three seconds.\<close>

datatype direct_access = PairingCommand | PeerConnection

definition direct_access_of :: "bytes \<Rightarrow> direct_access" where
  "direct_access_of peeked =
     (let buf = take 32 peeked
      in if 10 \<le> length buf \<and> take 10 buf = as_bytes ''ANUVADINI_'' then PairingCommand else PeerConnection)"

section \<open>Passwords shown\<close>

text \<open>
  The environment of the commands: whether the build has the Flutter front end, the passwords a desktop process
  holds or asks the service for, the text of JSON.
\<close>

record pairing_env =
  pa_flutter :: bool
  pa_ui_temporary :: string
  pa_ipc_permanent :: string
  pa_json_text :: "json_value \<Rightarrow> string"

definition main_get_temporary_password :: "pairing_env \<Rightarrow> target_os \<Rightarrow> login_world \<Rightarrow> string" where
  "main_get_temporary_password p os w = (if is_mobile os then lw_temporary_password w else pa_ui_temporary p)"

definition main_get_permanent_password :: "pairing_env \<Rightarrow> target_os \<Rightarrow> login_world \<Rightarrow> string" where
  "main_get_permanent_password p os w = (if is_mobile os then get_permanent_password (lw_app w) else pa_ipc_permanent p)"

section \<open>Commands\<close>

datatype pairing_effect = PushEvent string | Reply string

definition NEWLINE :: string where "NEWLINE = [CHR 0x0A]"

definition global_event :: "pairing_env \<Rightarrow> string \<Rightarrow> string \<Rightarrow> pairing_effect list" where
  "global_event p name data =
     (if pa_flutter p then [PushEvent (pa_json_text p (JObject [(''name'', JString name), (''data'', JString data)]))] else [])"

definition handle_mobile_registration :: "pairing_env \<Rightarrow> ip_addr \<Rightarrow> string \<Rightarrow> pairing_effect list" where
  "handle_mobile_registration p ip msg =
     (let parts = splitn 5 (CHR '':'') msg;
          name = part_or parts 1 ''Unknown Device''; i = part_or parts 2 ''unknown''; temp_password = part_or parts 3 '''';
          ip_text = remove_all_of ''::ffff:'' (show_ip ip);
          device = pa_json_text p (JObject [(''name'', JString name), (''id'', JString i), (''ip'', JString ip_text),
            (''temp_password'', JString temp_password)])
      in global_event p ''mobile_device_registered'' device @ [Reply (''ANUVADINI_ACK'' @ NEWLINE)])"

definition handle_control_request :: "pairing_env \<Rightarrow> string \<Rightarrow> pairing_effect list" where
  "handle_control_request p msg =
     (let parts = splitn 4 (CHR '':'') msg;
          laptop_ip = str_trim (part_or parts 1 ''''); temp_password = part_or parts 2 '''';
          request = pa_json_text p (JObject [(''ip'', JString laptop_ip), (''password'', JString temp_password)])
      in global_event p ''mobile_control_request'' request @ [Reply (''ANUVADINI_ACK'' @ NEWLINE)])"

definition handle_auth_request :: "pairing_env \<Rightarrow> target_os \<Rightarrow> login_world \<Rightarrow> pairing_effect list" where
  "handle_auth_request p os w =
     (let password = (if \<not> pa_flutter p then ''''
            else if main_get_temporary_password p os w \<noteq> '''' then main_get_temporary_password p os w
            else main_get_permanent_password p os w)
      in [Reply (if password = '''' then ''ANUVADINI_ACK:'' @ NEWLINE else ''ANUVADINI_ACK:'' @ password @ NEWLINE)])"

text \<open>
  \<open>received\<close>: what one read of at most 512 bytes gives within three seconds. A command that is not known is
  logged up to its eightieth byte, which panics inside a character: the left summand.
\<close>

definition handle_anuvadini_command :: "pairing_env \<Rightarrow> target_os \<Rightarrow> login_world \<Rightarrow> ip_addr \<Rightarrow> bytes option
    \<Rightarrow> string + pairing_effect list" where
  "handle_anuvadini_command p os w ip received =
     (case received of
        None \<Rightarrow> Inr []
      | Some bs \<Rightarrow>
          (if take 512 bs = [] then Inr []
           else let msg = str_trim (str_of_bytes (from_utf8_lossy (take 512 bs))) in
             if starts_with msg ''ANUVADINI_HELLO'' then Inr (handle_mobile_registration p ip msg)
             else if starts_with msg ''ANUVADINI_CONTROL'' then Inr (handle_control_request p msg)
             else if starts_with msg ''ANUVADINI_AUTH'' then Inr (handle_auth_request p os w)
             else if is_char_boundary msg (min (length msg) 80) then Inr []
             else Inl ''byte index is not a char boundary''))"

section \<open>What a stranger gets\<close>

text \<open>Trimming leaves a text alone that begins and ends with a visible character of ASCII.\<close>

definition visible :: "char \<Rightarrow> bool" where
  "visible c \<longleftrightarrow> 33 \<le> (of_char c :: nat) \<and> (of_char c :: nat) < 128"

lemma white_spaces_ends: "list_all (\<lambda>p. p \<noteq> [] \<and> \<not> visible (hd p) \<and> \<not> visible (last p)) white_spaces"
  by code_simp

lemma strip_nothing:
  assumes "s \<noteq> []" "visible (hd s)" "list_all (\<lambda>p. p \<noteq> [] \<and> \<not> visible (hd p)) ps"
  shows "strip_prefixes ps s = s"
proof -
  have "\<not> starts_with s p" if "p \<in> set ps" for p
  proof
    assume "starts_with s p"
    moreover have "p \<noteq> []" "\<not> visible (hd p)" using assms(3) that by (auto simp: list_all_iff)
    ultimately have "hd p = hd s" by (cases p; cases s) (auto simp: starts_with_def)
    with assms(2) \<open>\<not> visible (hd p)\<close> show False by simp
  qed
  then have "find (\<lambda>p. p \<noteq> [] \<and> starts_with s p) ps = None" by (simp add: find_None_iff)
  then show ?thesis by (simp add: strip_prefixes.simps)
qed

lemma trim_visible:
  assumes "s \<noteq> []" "visible (hd s)" "visible (last s)"
  shows "str_trim s = s"
proof -
  have "strip_prefixes white_spaces s = s"
    using assms white_spaces_ends by (intro strip_nothing) (auto simp: list_all_iff)
  moreover have "strip_prefixes (map rev white_spaces) (rev s) = rev s"
    using assms white_spaces_ends by (intro strip_nothing) (auto simp: list_all_iff hd_rev)
  ultimately show ?thesis by (simp add: str_trim_def)
qed

lemma auth_command:
  "handle_anuvadini_command p os w ip (Some (as_bytes ''ANUVADINI_AUTH'')) = Inr (handle_auth_request p os w)"
proof -
  have "from_utf8_lossy (take 512 (as_bytes ''ANUVADINI_AUTH'')) = as_bytes ''ANUVADINI_AUTH''"
    using from_utf8_lossy_valid [OF ascii_valid_utf8] by (simp add: as_bytes_def)
  moreover have "str_trim ''ANUVADINI_AUTH'' = ''ANUVADINI_AUTH''" by (rule trim_visible) (simp_all add: visible_def)
  moreover have "take 512 (as_bytes ''ANUVADINI_AUTH'') \<noteq> []" by (simp add: as_bytes_def)
  ultimately show ?thesis
    by (simp add: handle_anuvadini_command_def starts_with_def del: take_as_bytes)
qed

text \<open>The peer's side: the password in the reply, and the answer to the challenge of the machine.\<close>

definition password_in_reply :: "string \<Rightarrow> string" where
  "password_in_reply r = takeWhile (\<lambda>c. c \<noteq> CHR 0x0A) (drop (length ''ANUVADINI_ACK:'') r)"

definition password_answer :: "(bytes \<Rightarrow> bytes) \<Rightarrow> pw_hash \<Rightarrow> string \<Rightarrow> bytes" where
  "password_answer sha256 h pw = sha256 (sha256 (as_bytes pw @ as_bytes (h_salt h)) @ as_bytes (h_challenge h))"

lemma auth_reply:
  assumes "pa_flutter p" "main_get_temporary_password p os w = pw" "pw \<noteq> ''''" "CHR 0x0A \<notin> set pw"
  shows "\<exists>r. handle_auth_request p os w = [Reply r] \<and> password_in_reply r = pw"
proof -
  have "takeWhile (\<lambda>c. c \<noteq> CHR 0x0A) (pw @ [CHR 0x0A]) = pw" using assms(4) by (subst takeWhile_append2) auto
  with assms(1-3) show ?thesis by (simp add: handle_auth_request_def password_in_reply_def NEWLINE_def)
qed

text \<open>
  C35: Whoever reaches the port for direct connections gets into the machine: the reply to the command
  \<open>ANUVADINI_AUTH\<close>, which asks for nothing, holds the one-time password, and a log-on that answers the challenge
  with it is authorised when no second factor is set up. On a phone the password is that of the service itself;
  on a desktop it is the copy the process keeps.
\<close>

theorem lan_stranger_gets_in:
  assumes "pa_flutter p" "main_get_temporary_password p (le_os e) (lg_world s) = lw_temporary_password (lg_world s)"
    "temporary_enabled (lw_app (lg_world s))" "lw_temporary_password (lg_world s) \<noteq> ''''"
    "CHR 0x0A \<notin> set (lw_temporary_password (lg_world s))"
    and "ready e lr s" "for_this_machine lr s" "cn_require_2fa (lg_conn s) = None" "\<not> click_only e s"
    "snd (login_check e 0 s) = None" "lr_password lr \<noteq> []"
    and "handle_anuvadini_command p (le_os e) (lg_world s) ip (Some (as_bytes ''ANUVADINI_AUTH'')) = Inr [Reply r]"
    "lr_password lr = password_answer (le_sha256 e) (cn_hash (lg_conn s)) (password_in_reply r)"
  shows "cn_authorized (lg_conn (snd (on_login_request e lr s)))"
proof -
  have "password_in_reply r = lw_temporary_password (lg_world s)"
    using auth_reply [OF assms(1,2,4,5)] assms(12) by (auto simp: auth_command)
  then have "one_time_password_right e lr s"
    using assms(3,4,13) by (simp add: one_time_password_right_def answers_def password_answer_def)
  from right_password_accepted [OF assms(6-8) disjI1 [OF this] assms(11,9,10)] show ?thesis ..
qed

text \<open>
  A command that is not known is logged up to its eightieth byte: two bytes of one character around it are
  enough for a panic of the task.
\<close>

lemma unknown_command_panics:
  "handle_anuvadini_command p os w ip (Some (as_bytes (''ANUVADINI_'' @ replicate 69 (CHR ''x'')) @ [0xC3, 0xA9, 0x78]))
    = Inl ''byte index is not a char boundary''"
proof -
  let ?bs = "as_bytes (''ANUVADINI_'' @ replicate 69 (CHR ''x'')) @ [0xC3, 0xA9, 0x78]"
  have "valid_utf8 ?bs" by code_simp
  then have lossy: "from_utf8_lossy (take 512 ?bs) = ?bs" by (simp add: from_utf8_lossy_valid)
  have trimmed: "str_trim (str_of_bytes ?bs) = str_of_bytes ?bs"
    by (rule trim_visible) (simp_all add: visible_def str_of_bytes_def as_bytes_def)
  have rep: "replicate 69 (CHR ''x'') = CHR ''x'' # replicate 68 (CHR ''x'')" by (simp add: numeral_eq_Suc)
  have other: "\<not> starts_with (str_of_bytes ?bs) (''ANUVADINI_'' @ c # cs)" if "c \<noteq> CHR ''x''" for c cs
    using that unfolding rep by (simp add: starts_with_def)
  have words: "''ANUVADINI_HELLO'' = ''ANUVADINI_'' @ CHR ''H'' # ''ELLO''"
    "''ANUVADINI_CONTROL'' = ''ANUVADINI_'' @ CHR ''C'' # ''ONTROL''" "''ANUVADINI_AUTH'' = ''ANUVADINI_'' @ CHR ''A'' # ''UTH''"
    by simp_all
  have named: "\<not> starts_with (str_of_bytes ?bs) ''ANUVADINI_HELLO''" "\<not> starts_with (str_of_bytes ?bs) ''ANUVADINI_CONTROL''"
    "\<not> starts_with (str_of_bytes ?bs) ''ANUVADINI_AUTH''"
    unfolding words by (rule other; simp)+
  have "length ?bs = 82" "?bs ! 80 = 0xA9" by (simp_all add: nth_append)
  then have bound: "\<not> is_char_boundary (str_of_bytes ?bs) (min (length (str_of_bytes ?bs)) 80)"
    by (simp only: is_char_boundary_def as_bytes_str_of_bytes length_str_of_bytes) (simp add: is_continuation_def)
  have some: "take 512 ?bs \<noteq> []" by simp
  show ?thesis by (simp only: handle_anuvadini_command_def option.case if_False if_True Let_def lossy trimmed named bound some)
qed

section \<open>Example\<close>

text \<open>The machine of the log-on examples in a build with the Flutter front end, which shows its password.\<close>

definition lan_env :: login_env where
  "lan_env = sample_env\<lparr>le_flutter := True\<rparr>"

definition lan_pairing :: pairing_env where
  "lan_pairing = \<lparr>pa_flutter = True, pa_ui_temporary = ''k7'', pa_ipc_permanent = '''', pa_json_text = (\<lambda>_. ''{}'')\<rparr>"

theorem lan_stranger_gets_in_witness:
  "cn_authorized (lg_conn (snd (on_login_request lan_env
     (sample_request ''cafe.example:21118'' (as_bytes ''k7sc'')) single_factor)))"
proof -
  let ?lr = "sample_request ''cafe.example:21118'' (as_bytes ''k7sc'')"
  have f: "ready lan_env ?lr single_factor" "\<not> click_only lan_env single_factor"
    "snd (login_check lan_env 0 single_factor) = None" "lr_password ?lr \<noteq> []"
    using sample_single_factor(1) [of "''cafe.example:21118''" "as_bytes ''k7sc''"] sample_single_factor(4,5)
    by (simp_all add: lan_env_def ready_def click_only_def login_check_def) (simp add: sample_defs as_bytes_def)
  have t: "temporary_enabled (lw_app (lg_world single_factor))" "lw_temporary_password (lg_world single_factor) = ''k7''"
    using sample_single_factor(3) by (simp_all add: one_time_password_right_def) (simp add: single_factor_def sample_defs)
  have m: "main_get_temporary_password lan_pairing (le_os lan_env) (lg_world single_factor) = ''k7''"
    by (simp add: main_get_temporary_password_def lan_pairing_def lan_env_def sample_env_def)
  have r: "handle_anuvadini_command lan_pairing (le_os lan_env) (lg_world single_factor) (IpV4 0) (Some (as_bytes ''ANUVADINI_AUTH''))
      = Inr [Reply (''ANUVADINI_ACK:k7'' @ NEWLINE)]"
    unfolding auth_command handle_auth_request_def m by (simp add: lan_pairing_def)
  show ?thesis
    by (rule lan_stranger_gets_in [OF _ _ t(1) _ _ f(1) sample_for_this_machine sample_single_factor(2) f(2,3,4) r])
      (simp_all add: m t(2), simp_all add: lan_pairing_def lan_env_def sample_env_def single_factor_def sample_state_def
        sample_request_def conn_start_def sample_hash_def password_answer_def password_in_reply_def NEWLINE_def as_bytes_def)
qed

end
