(* ===== verification/Client_Config.thy ===== *)
theory Client_Config
  imports Peer_Rights
begin

text \<open>
  The side that controls another machine: what it keeps of a peer (\<open>PeerConfig\<close> of \<open>libs/hbb_common/src/config.rs\<close>)
  and the options of a session (\<open>LoginConfigHandler\<close> of \<open>src/client.rs\<close>). A file of a peer is the configuration
  stored last under its name; the defaults of the user, the cipher of the machine, base64 and SHA-256 are arguments.
\<close>

section \<open>State\<close>

record peer_info_serde =
  pi_username :: string
  pi_hostname :: string
  pi_platform :: string

text \<open>The fields of \<open>PeerConfig\<close> a session reads or writes; \<open>pc_rest\<close> stands for the layout of its windows.\<close>

record peer_config =
  pc_password :: bytes
  pc_image_quality :: string
  pc_custom_image_quality :: "i32 list"
  pc_show_remote_cursor :: bool
  pc_lock_after_session_end :: bool
  pc_terminal_persistent :: bool
  pc_privacy_mode :: bool
  pc_allow_swap_key :: bool
  pc_disable_audio :: bool
  pc_disable_clipboard :: bool
  pc_enable_file_copy_paste :: bool
  pc_show_quality_monitor :: bool
  pc_follow_remote_cursor :: bool
  pc_follow_remote_window :: bool
  pc_view_only :: bool
  pc_show_my_cursor :: bool
  pc_keyboard_mode :: string
  pc_options :: "(string, string) hashmap"
  pc_info :: peer_info_serde
  pc_rest :: nat

datatype password_source = PersonalAb bytes | SharedAb string | UndefinedSource

datatype client_conn_type = DefaultConn | FileTransferConn | PortForwardConn | RdpConn | ViewCameraConn | TerminalConn

datatype client_out =
    MsgBox string string string string
  | SendLogin login_request
  | SendSwitchSides bytes login_request
  | SendOption option_message
  | EmptyClipboardFiles
  | SyncPasswordToAb string bytes

text \<open>
  The handler of a session, with the files of the peers (\<open>lc_files\<close>, by the name \<open>PeerConfig::path\<close> makes of the id)
  and what it sends and shows (\<open>lc_out\<close>).
\<close>

record client =
  lc_id :: string
  lc_conn_type :: client_conn_type
  lc_is_terminal_admin :: bool
  lc_hash :: pw_hash
  lc_password :: bytes
  lc_remember :: bool
  lc_config :: peer_config
  lc_port_forward :: "string \<times> i32"
  lc_version :: int
  lc_features :: "bool option"
  lc_session_id :: u64
  lc_force_relay :: bool
  lc_direct :: "bool option"
  lc_switch_uuid :: "string option"
  lc_other_server :: "(string \<times> string \<times> string) option"
  lc_custom_fps :: "u64 option"
  lc_password_source :: password_source
  lc_shared_password :: "string option"
  lc_files :: "(string, peer_config) hashmap"
  lc_out :: "client_out list"

text \<open>
  The environment: \<open>ce_default\<close> is \<open>PeerConfig::default\<close> with the defaults of the user, \<open>ce_decoding\<close> the codecs the
  machine decodes, \<open>ce_public_server\<close> whether the public server is used; the rest is what a log-on says of this
  machine, and the address book.
\<close>

record client_env =
  ce_secrets :: secrets_env
  ce_default :: peer_config
  ce_sha256 :: "bytes \<Rightarrow> bytes"
  ce_b64_encode :: "bytes \<Rightarrow> string"
  ce_b64_decode :: "string \<Rightarrow> bytes option"
  ce_parse_uuid :: "string \<Rightarrow> bytes option"
  ce_flutter :: bool
  ce_unix_clip :: bool
  ce_public_server :: bool
  ce_decoding :: nat
  ce_default_connect_password :: string
  ce_my_id :: string
  ce_my_name :: string
  ce_my_platform :: string
  ce_avatar :: string
  ce_hwid :: bytes
  ce_client_version :: string
  ce_rendezvous_server :: string
  ce_remote_dir :: "string \<Rightarrow> string \<Rightarrow> string"
  ce_ab_password :: "string \<Rightarrow> string option"

section \<open>Files of peers\<close>

definition forbidden_in_path :: "char \<Rightarrow> bool" where
  "forbidden_in_path c \<longleftrightarrow> c \<in> {CHR ''<'', CHR ''>'', CHR '':'', CHR ''/'', CHR 0x5C, CHR ''|'', CHR ''?'', CHR ''*''}"

definition peer_path :: "client_env \<Rightarrow> string \<Rightarrow> string" where
  "peer_path e i = (if list_ex forbidden_in_path i then ''base64_'' @ ce_b64_encode e (as_bytes i) else i)"

definition SECRET_OPTIONS :: "string list" where
  "SECRET_OPTIONS = [''rdp_password'', ''os-username'', ''os-password'']"

definition seal_option :: "client_env \<Rightarrow> string \<Rightarrow> peer_config \<Rightarrow> peer_config" where
  "seal_option e opt c =
     c\<lparr>pc_options := hm_modify opt (\<lambda>v. encrypt_str_or_original (ce_secrets e) v PASSWORD_ENC_VERSION ENCRYPT_MAX_LEN) (pc_options c)\<rparr>"

definition peer_config_store :: "client_env \<Rightarrow> string \<Rightarrow> peer_config \<Rightarrow> (string, peer_config) hashmap
    \<Rightarrow> (string, peer_config) hashmap" where
  "peer_config_store e i c files =
     (let c = c\<lparr>pc_password := encrypt_vec_or_original (ce_secrets e) (pc_password c) PASSWORD_ENC_VERSION ENCRYPT_MAX_LEN\<rparr>;
          c = fold (seal_option e) SECRET_OPTIONS c
      in hm_insert (peer_path e i) c files)"

text \<open>Opening the options in their turn, and whether one of them asks for storing the file again.\<close>

definition open_option :: "client_env \<Rightarrow> string \<Rightarrow> peer_config \<times> bool \<Rightarrow> peer_config \<times> bool" where
  "open_option e opt cs =
     (let (c, store) = cs in
      case hm_get (pc_options c) opt of
        None \<Rightarrow> (c, store)
      | Some v \<Rightarrow>
          (let (w, _, store2) = decrypt_str_or_original (ce_secrets e) v PASSWORD_ENC_VERSION
           in (c\<lparr>pc_options := hm_insert opt w (pc_options c)\<rparr>, store \<or> store2)))"

definition peer_config_load :: "client_env \<Rightarrow> string \<Rightarrow> (string, peer_config) hashmap
    \<Rightarrow> peer_config \<times> (string, peer_config) hashmap" where
  "peer_config_load e i files =
     (case hm_get files (peer_path e i) of
        None \<Rightarrow> (ce_default e, files)
      | Some c \<Rightarrow>
          (let (password, _, store) = decrypt_vec_or_original (ce_secrets e) (pc_password c) PASSWORD_ENC_VERSION;
               (c, store) = fold (open_option e) SECRET_OPTIONS (c\<lparr>pc_password := password\<rparr>, store)
           in (c, if store then peer_config_store e i c files else files)))"

section \<open>Configuration of the session\<close>

definition nostr_device_id :: "string \<Rightarrow> string" where
  "nostr_device_id i =
     (if starts_with i ''nostr-webrtc://''
      then hd (split_chars (\<lambda>c. c = CHR ''?'') (trim_start_matches ''nostr-webrtc://'' i))
      else i)"

definition load_config :: "client_env \<Rightarrow> client \<Rightarrow> peer_config \<times> client" where
  "load_config e l =
     (let (c, files) = peer_config_load e (nostr_device_id (lc_id l)) (lc_files l) in (c, l\<lparr>lc_files := files\<rparr>))"

definition save_config :: "client_env \<Rightarrow> peer_config \<Rightarrow> client \<Rightarrow> client" where
  "save_config e c l = l\<lparr>lc_files := peer_config_store e (lc_id l) c (lc_files l), lc_config := c\<rparr>"

definition lc_get_option :: "client \<Rightarrow> string \<Rightarrow> string" where
  "lc_get_option l k = (case hm_get (pc_options (lc_config l)) k of Some v \<Rightarrow> v | None \<Rightarrow> '''')"

definition lc_set_option :: "client_env \<Rightarrow> string \<Rightarrow> string \<Rightarrow> client \<Rightarrow> client" where
  "lc_set_option e k v l =
     (let (c, l) = load_config e l in
      if v = lc_get_option l k then l else save_config e (c\<lparr>pc_options := hm_insert k v (pc_options c)\<rparr>) l)"

definition should_auto_login :: "client \<Rightarrow> string" where
  "should_auto_login l =
     (let p = lc_get_option l ''os-password''
      in if p \<noteq> '''' \<and> pc_lock_after_session_end (lc_config l) \<and> lc_get_option l ''auto-login'' \<noteq> '''' then p else '''')"

definition get_toggle_option :: "client \<Rightarrow> string \<Rightarrow> bool" where
  "get_toggle_option l name =
     (let c = lc_config l in
      if name = ''show-remote-cursor'' then pc_show_remote_cursor c
      else if name = ''lock-after-session-end'' then pc_lock_after_session_end c
      else if name = ''terminal-persistent'' then pc_terminal_persistent c
      else if name = ''privacy-mode'' then pc_privacy_mode c
      else if name = ''enable-file-copy-paste'' then pc_enable_file_copy_paste c
      else if name = ''disable-audio'' then pc_disable_audio c
      else if name = ''disable-clipboard'' then pc_disable_clipboard c
      else if name = ''show-quality-monitor'' then pc_show_quality_monitor c
      else if name = ''allow_swap_key'' then pc_allow_swap_key c
      else if name = ''view-only'' then pc_view_only c
      else if name = ''show-my-cursor'' then pc_show_my_cursor c
      else if name = ''follow-remote-cursor'' then pc_follow_remote_cursor c
      else if name = ''follow-remote-window'' then pc_follow_remote_window c
      else lc_get_option l name \<noteq> '''')"

definition yes_no :: "bool \<Rightarrow> bool_option enum_or_unknown" where
  "yes_no b = Some (if b then Yes else No)"

text \<open>What switching an option changes in the configuration, and the option to be sent for it.\<close>

definition toggled :: "client \<Rightarrow> string \<Rightarrow> peer_config \<Rightarrow> (peer_config \<times> option_message) option" where
  "toggled l name c =
     (if name = ''show-remote-cursor'' then
        (let b = \<not> pc_show_remote_cursor c in Some (c\<lparr>pc_show_remote_cursor := b\<rparr>, om_default\<lparr>om_show_remote_cursor := yes_no b\<rparr>))
      else if name = ''follow-remote-cursor'' then
        (let b = \<not> pc_follow_remote_cursor c in Some (c\<lparr>pc_follow_remote_cursor := b\<rparr>, om_default\<lparr>om_follow_remote_cursor := yes_no b\<rparr>))
      else if name = ''follow-remote-window'' then
        (let b = \<not> pc_follow_remote_window c in Some (c\<lparr>pc_follow_remote_window := b\<rparr>, om_default\<lparr>om_follow_remote_window := yes_no b\<rparr>))
      else if name = ''disable-audio'' then
        (let b = \<not> pc_disable_audio c in Some (c\<lparr>pc_disable_audio := b\<rparr>, om_default\<lparr>om_disable_audio := yes_no b\<rparr>))
      else if name = ''disable-clipboard'' then
        (let b = \<not> pc_disable_clipboard c in Some (c\<lparr>pc_disable_clipboard := b\<rparr>, om_default\<lparr>om_disable_clipboard := yes_no b\<rparr>))
      else if name = ''lock-after-session-end'' then
        (let b = \<not> pc_lock_after_session_end c
         in Some (c\<lparr>pc_lock_after_session_end := b\<rparr>, om_default\<lparr>om_lock_after_session_end := yes_no b\<rparr>))
      else if name = ''terminal-persistent'' then
        (let b = \<not> pc_terminal_persistent c in Some (c\<lparr>pc_terminal_persistent := b\<rparr>, om_default\<lparr>om_terminal_persistent := yes_no b\<rparr>))
      else if name = ''privacy-mode'' then Some (c, om_default\<lparr>om_privacy_mode := yes_no (\<not> pc_privacy_mode c)\<rparr>)
      else if name = ''enable-file-copy-paste'' then
        (let b = \<not> pc_enable_file_copy_paste c
         in Some (c\<lparr>pc_enable_file_copy_paste := b\<rparr>, om_default\<lparr>om_enable_file_transfer := yes_no b\<rparr>))
      else if name = ''block-input'' then Some (c, om_default\<lparr>om_block_input := yes_no True\<rparr>)
      else if name = ''unblock-input'' then Some (c, om_default\<lparr>om_block_input := yes_no False\<rparr>)
      else if name = ''show-quality-monitor'' then Some (c\<lparr>pc_show_quality_monitor := \<not> pc_show_quality_monitor c\<rparr>, om_default)
      else if name = ''allow_swap_key'' then Some (c\<lparr>pc_allow_swap_key := \<not> pc_allow_swap_key c\<rparr>, om_default)
      else if name = ''view-only'' then
        (if \<not> pc_view_only c then
           Some (c\<lparr>pc_view_only := True\<rparr>,
             om_default\<lparr>om_disable_keyboard := yes_no True, om_disable_clipboard := yes_no True,
               om_show_remote_cursor := yes_no True, om_enable_file_transfer := yes_no False,
               om_lock_after_session_end := yes_no False\<rparr>)
         else
           (let o' = om_default\<lparr>om_disable_keyboard := yes_no False,
                  om_disable_clipboard := yes_no (get_toggle_option l ''disable-clipboard''),
                  om_show_remote_cursor := yes_no (get_toggle_option l ''show-remote-cursor''),
                  om_enable_file_transfer := yes_no (pc_enable_file_copy_paste (lc_config l)),
                  om_lock_after_session_end := yes_no (pc_lock_after_session_end (lc_config l))\<rparr>
            in if pc_show_my_cursor c
               then Some (c\<lparr>pc_view_only := False, pc_show_my_cursor := False\<rparr>, o'\<lparr>om_show_my_cursor := yes_no False\<rparr>)
               else Some (c\<lparr>pc_view_only := False\<rparr>, o')))
      else if name = ''show-my-cursor'' then
        (let b = \<not> pc_show_my_cursor c in Some (c\<lparr>pc_show_my_cursor := b\<rparr>, om_default\<lparr>om_show_my_cursor := yes_no b\<rparr>))
      else None)"

definition contains_block_input :: "string \<Rightarrow> bool" where
  "contains_block_input name \<longleftrightarrow> list_ex (\<lambda>i. starts_with (drop i name) ''block-input'') [0..<length name]"

definition toggle_option :: "client_env \<Rightarrow> string \<Rightarrow> client \<Rightarrow> client" where
  "toggle_option e name l =
     (let (c, l) = load_config e l in
      case toggled l name c of
        None \<Rightarrow>
          (let opts = pc_options (lc_config l);
               is_set = (case hm_get opts name of Some v \<Rightarrow> v \<noteq> '''' | None \<Rightarrow> False);
               c' = (lc_config l)\<lparr>pc_options := (if is_set then hm_remove name opts else hm_insert name ''Y'' opts)\<rparr>
           in l\<lparr>lc_config := c', lc_files := peer_config_store e (lc_id l) c' (lc_files l)\<rparr>)
      | Some (c', o') \<Rightarrow>
          (let l = (if ce_unix_clip e \<and> om_enable_file_transfer o' = Some No
                    then l\<lparr>lc_out := lc_out l @ [EmptyClipboardFiles]\<rparr> else l);
               l = (if contains_block_input name then l else save_config e c' l)
           in l\<lparr>lc_out := lc_out l @ [SendOption o']\<rparr>))"

section \<open>Quality\<close>

definition get_image_quality_enum :: "string \<Rightarrow> bool \<Rightarrow> image_quality option" where
  "get_image_quality_enum q ignore_default =
     (if q = ''low'' then Some QualityLow
      else if q = ''best'' then Some QualityBest
      else if q = ''balanced'' then (if ignore_default then None else Some QualityBalanced)
      else None)"

definition save_custom_image_quality :: "client_env \<Rightarrow> i32 \<Rightarrow> client \<Rightarrow> client" where
  "save_custom_image_quality e q l =
     (let (c, l) = load_config e l;
          l = save_config e (c\<lparr>pc_image_quality := ''custom'', pc_custom_image_quality := [q]\<rparr>) l
      in l\<lparr>lc_out := lc_out l @ [SendOption (om_default\<lparr>om_custom_image_quality := push_bit 8 q\<rparr>)]\<rparr>)"

definition save_image_quality :: "client_env \<Rightarrow> string \<Rightarrow> client \<Rightarrow> client" where
  "save_image_quality e v l =
     (let (c, l) = load_config e l; l = save_config e (c\<lparr>pc_image_quality := v\<rparr>) l
      in case get_image_quality_enum v False of
           Some q \<Rightarrow> l\<lparr>lc_out := lc_out l @ [SendOption (om_default\<lparr>om_image_quality := Some q\<rparr>)]\<rparr>
         | None \<Rightarrow> l)"

text \<open>\<open>str::parse::<i32>\<close>.\<close>

definition parse_i32 :: "string \<Rightarrow> i32 option" where
  "parse_i32 s =
     (let neg = (s \<noteq> [] \<and> s ! 0 = CHR ''-'');
          ds = (if s \<noteq> [] \<and> (s ! 0 = CHR ''-'' \<or> s ! 0 = CHR ''+'') then tl s else s);
          v = (if neg then - int (read_nat ds) else int (read_nat ds))
      in if ds \<noteq> [] \<and> list_all is_digit ds \<and> - (2 ^ 31) \<le> v \<and> v < 2 ^ 31 then Some (of_int v) else None)"

definition show_i32 :: "i32 \<Rightarrow> string" where
  "show_i32 n = (if n <s 0 then ''-'' @ show_nat (nat (- sint n)) else show_nat (nat (sint n)))"

definition set_custom_fps :: "client_env \<Rightarrow> i32 \<Rightarrow> bool \<Rightarrow> client \<Rightarrow> client" where
  "set_custom_fps e fps save l =
     (let l = (if save then (let (c, l) = load_config e l
                 in save_config e (c\<lparr>pc_options := hm_insert ''custom-fps'' (show_i32 fps) (pc_options c)\<rparr>) l) else l)
      in l\<lparr>lc_custom_fps := Some (scast fps), lc_out := lc_out l @ [SendOption (om_default\<lparr>om_custom_fps := fps\<rparr>)]\<rparr>)"

section \<open>The options of a log-on\<close>

definition custom_quality :: "client_env \<Rightarrow> client \<Rightarrow> option_message \<Rightarrow> option_message \<times> client" where
  "custom_quality e l o' =
     (let (c, l) = load_config e l;
          allow_more = (\<not> ce_public_server e \<or> lc_direct l = Some True);
          quality = (case pc_custom_image_quality c of
                       [] \<Rightarrow> 50
                     | q # _ \<Rightarrow> if \<not> allow_more \<and> 100 <s q then 50 else q);
          o' = o'\<lparr>om_custom_image_quality := push_bit 8 quality\<rparr>
      in case (if ce_flutter e then hm_get (pc_options (lc_config l)) ''custom-fps'' else None) of
           None \<Rightarrow> (o', l)
         | Some s \<Rightarrow>
             (let fps = (case parse_i32 s of Some n \<Rightarrow> n | None \<Rightarrow> 30);
                  fps = (if \<not> allow_more \<and> 30 <s fps then 30 else fps)
              in (o'\<lparr>om_custom_fps := fps\<rparr>, l\<lparr>lc_custom_fps := Some (scast fps)\<rparr>)))"

definition yes_if :: "bool \<Rightarrow> bool_option enum_or_unknown" where
  "yes_if b = Some (if b then Yes else NotSet)"

definition get_option_message :: "client_env \<Rightarrow> bool \<Rightarrow> client \<Rightarrow> option_message option \<times> client" where
  "get_option_message e ignore_default l =
     (if lc_conn_type l \<in> {PortForwardConn, RdpConn, FileTransferConn} then (None, l)
      else if lc_conn_type l = TerminalConn then
        (if get_toggle_option l ''terminal-persistent'' then (Some (om_default\<lparr>om_terminal_persistent := Some Yes\<rparr>), l)
         else (None, l))
      else
        (let q = pc_image_quality (lc_config l);
             (o', l) = (case get_image_quality_enum q ignore_default of
                          Some q \<Rightarrow> (om_default\<lparr>om_image_quality := Some q\<rparr>, l)
                        | None \<Rightarrow> if q = ''custom'' then custom_quality e l om_default else (om_default, l));
             t = get_toggle_option l; view_only = t ''view-only''
         in (Some (o'\<lparr>om_disable_keyboard := yes_if view_only,
                om_show_remote_cursor := yes_if (view_only \<or> t ''show-remote-cursor''),
                om_show_my_cursor := yes_if (view_only \<and> t ''show-my-cursor''),
                om_follow_remote_cursor := yes_if (t ''follow-remote-cursor''),
                om_follow_remote_window := yes_if (t ''follow-remote-window''),
                om_lock_after_session_end := yes_if (\<not> view_only \<and> t ''lock-after-session-end''),
                om_disable_audio := yes_if (t ''disable-audio''),
                om_enable_file_transfer := yes_if (\<not> view_only \<and> t ''enable-file-copy-paste''),
                om_disable_clipboard := yes_if (view_only \<or> t ''disable-clipboard''),
                om_supported_decoding := Some (ce_decoding e)\<rparr>), l)))"

end
