(* ===== verification/Client_Options.thy ===== *)
theory Client_Options
  imports Client_Config Peer_Properties
begin

text \<open>
  Both sides of a session: what the controlling side stores of a peer it loads again, and the flags the machine it
  controls keeps for the connection follow the options the session shows.
\<close>

section \<open>Files of peers\<close>

text \<open>A configuration that comes back from its file as it was.\<close>

definition storable_config :: "client_env \<Rightarrow> peer_config \<Rightarrow> bool" where
  "storable_config e c \<longleftrightarrow>
     (pc_password c = [] \<or> length (pc_password c) \<le> ENCRYPT_MAX_LEN \<and> \<not> is_encrypted (ce_secrets e) (pc_password c))
     \<and> hm_wf (pc_options c)
     \<and> list_all (\<lambda>opt. case hm_get (pc_options c) opt of None \<Rightarrow> True | Some v \<Rightarrow> v = '''' \<or> storable (ce_secrets e) v) SECRET_OPTIONS"

lemma sealed_option:
  assumes "secrets_ok s" "v = '''' \<or> storable s v"
  shows "\<exists>b. decrypt_str_or_original s (encrypt_str_or_original s v PASSWORD_ENC_VERSION ENCRYPT_MAX_LEN) PASSWORD_ENC_VERSION
    = (v, b, False)"
  using assms storable_roundtrip [of s v] empty_roundtrip [of s ENCRYPT_MAX_LEN]
  by (cases "v = ''''") (auto simp: PASSWORD_ENC_VERSION_def)

lemma sealed_password:
  assumes "secrets_ok s" "v = [] \<or> length v \<le> ENCRYPT_MAX_LEN \<and> \<not> is_encrypted s v"
  shows "\<exists>b. decrypt_vec_or_original s (encrypt_vec_or_original s v PASSWORD_ENC_VERSION ENCRYPT_MAX_LEN) PASSWORD_ENC_VERSION
    = (v, b, False)"
proof (cases "v = []")
  case True
  then show ?thesis
    by (auto simp: encrypt_vec_or_original_def is_encrypted_def encrypt_def decrypt_vec_or_original_def secrets_consts
        PASSWORD_ENC_VERSION_def)
next
  case False
  with assms encrypt_vec_sealed [of v ENCRYPT_MAX_LEN s] decrypt_vec_sealed [of s v] show ?thesis
    by (auto simp: PASSWORD_ENC_VERSION_def)
qed

text \<open>The options with those of a set of names sealed.\<close>

definition sealed_map :: "client_env \<Rightarrow> string set \<Rightarrow> (string, string) hashmap \<Rightarrow> (string, string) hashmap" where
  "sealed_map e S m = map (\<lambda>(a, v). (a, if a \<in> S
     then encrypt_str_or_original (ce_secrets e) v PASSWORD_ENC_VERSION ENCRYPT_MAX_LEN else v)) m"

lemma sealed_map_simps:
  "sealed_map e S [] = []"
  "sealed_map e S ((a, v) # m) = (a, if a \<in> S
     then encrypt_str_or_original (ce_secrets e) v PASSWORD_ENC_VERSION ENCRYPT_MAX_LEN else v) # sealed_map e S m"
  by (simp_all add: sealed_map_def)

lemma sealed_map_get:
  "hm_get (sealed_map e S m) k = map_option (\<lambda>v. if k \<in> S
     then encrypt_str_or_original (ce_secrets e) v PASSWORD_ENC_VERSION ENCRYPT_MAX_LEN else v) (hm_get m k)"
  by (induction m) (auto simp: sealed_map_def)

lemma sealed_map_insert:
  assumes "hm_wf m" "k \<notin> S"
  shows "hm_modify k (\<lambda>v. encrypt_str_or_original (ce_secrets e) v PASSWORD_ENC_VERSION ENCRYPT_MAX_LEN) (sealed_map e S m)
    = sealed_map e (insert k S) m"
    and "hm_get m k = Some v \<Longrightarrow> hm_insert k v (sealed_map e (insert k S) m) = sealed_map e S m"
    and "hm_get m k = None \<Longrightarrow> sealed_map e (insert k S) m = sealed_map e S m"
proof -
  show none: "hm_get m k = None \<Longrightarrow> sealed_map e (insert k S) m = sealed_map e S m" for m
    unfolding sealed_map_def by (rule map_cong) (auto simp: map_of_eq_None_iff image_iff)
  show "hm_get m k = Some v \<Longrightarrow> hm_insert k v (sealed_map e (insert k S) m) = sealed_map e S m"
    using assms(1)
  proof (induction m)
    case (Cons x m)
    obtain a w where x: "x = (a, w)" by fastforce
    show ?case
    proof (cases "a = k")
      case True
      then have "hm_get m k = None" using Cons.prems(2) x by (auto simp: hm_wf_def map_of_eq_None_iff)
      with True none x Cons.prems(1) assms(2) show ?thesis by (simp add: sealed_map_def)
    next
      case False
      with Cons x show ?thesis by (simp add: sealed_map_def hm_wf_def)
    qed
  qed simp
  show "hm_modify k (\<lambda>v. encrypt_str_or_original (ce_secrets e) v PASSWORD_ENC_VERSION ENCRYPT_MAX_LEN) (sealed_map e S m)
    = sealed_map e (insert k S) m"
    using assms(1)
  proof (induction m)
    case (Cons x m)
    obtain a w where x: "x = (a, w)" by fastforce
    show ?case
    proof (cases "a = k")
      case True
      then have "hm_get m k = None" using Cons.prems x by (auto simp: hm_wf_def map_of_eq_None_iff)
      with True none x assms(2) show ?thesis by (simp add: sealed_map_def hm_modify_def)
    next
      case False
      with Cons.IH Cons.prems x show ?thesis
        by (cases "hm_get m k") (auto simp: sealed_map_simps sealed_map_get hm_wf_def hm_modify_def)
    qed
  qed (simp add: sealed_map_def hm_modify_def)
qed

lemma sealed_options:
  "hm_wf m \<Longrightarrow> set opts \<inter> S = {} \<Longrightarrow> distinct opts \<Longrightarrow>
   fold (seal_option e) opts (c\<lparr>pc_options := sealed_map e S m\<rparr>) = c\<lparr>pc_options := sealed_map e (S \<union> set opts) m\<rparr>"
proof (induction opts arbitrary: S)
  case (Cons k opts)
  then have "k \<notin> S" by simp
  then have "seal_option e k (c\<lparr>pc_options := sealed_map e S m\<rparr>) = c\<lparr>pc_options := sealed_map e (insert k S) m\<rparr>"
    using sealed_map_insert(1) [OF Cons.prems(1)] by (simp add: seal_option_def)
  with Cons.IH [of "insert k S"] Cons.prems show ?case by simp
qed simp

lemma opened_options:
  assumes "secrets_ok (ce_secrets e)" "hm_wf m"
  shows "distinct opts \<Longrightarrow>
    list_all (\<lambda>opt. case hm_get m opt of None \<Rightarrow> True | Some v \<Rightarrow> v = '''' \<or> storable (ce_secrets e) v) opts \<Longrightarrow>
    fold (open_option e) opts (c\<lparr>pc_options := sealed_map e (set opts) m\<rparr>, False) = (c\<lparr>pc_options := m\<rparr>, False)"
proof (induction opts)
  case Nil
  have "sealed_map e {} m = m" by (simp add: sealed_map_def)
  then show ?case by simp
next
  case (Cons k opts)
  have "open_option e k (c\<lparr>pc_options := sealed_map e (insert k (set opts)) m\<rparr>, False)
    = (c\<lparr>pc_options := sealed_map e (set opts) m\<rparr>, False)"
  proof (cases "hm_get m k")
    case None
    with sealed_map_insert(3) [OF assms(2), of k] Cons.prems(1) show ?thesis
      by (simp add: open_option_def sealed_map_get)
  next
    case (Some v)
    then obtain b where "decrypt_str_or_original (ce_secrets e)
        (encrypt_str_or_original (ce_secrets e) v PASSWORD_ENC_VERSION ENCRYPT_MAX_LEN) PASSWORD_ENC_VERSION = (v, b, False)"
      using sealed_option [OF assms(1), of v] Cons.prems(2) by auto
    with Some sealed_map_insert(2) [OF assms(2) _ Some] Cons.prems(1) show ?thesis
      by (simp add: open_option_def sealed_map_get)
  qed
  with Cons show ?case by simp
qed

text \<open>What a session stores it loads again.\<close>

lemma load_stored:
  assumes "secrets_ok (ce_secrets e)" "storable_config e c"
  shows "peer_config_load e i (peer_config_store e i c files) = (c, peer_config_store e i c files)"
proof -
  let ?c = "c\<lparr>pc_password := encrypt_vec_or_original (ce_secrets e) (pc_password c) PASSWORD_ENC_VERSION ENCRYPT_MAX_LEN\<rparr>"
  have wf: "hm_wf (pc_options c)" and d: "distinct SECRET_OPTIONS"
    using assms(2) by (simp_all add: storable_config_def SECRET_OPTIONS_def)
  have e0: "sealed_map e {} m = m" for m by (simp add: sealed_map_def)
  have s: "fold (seal_option e) SECRET_OPTIONS ?c = ?c\<lparr>pc_options := sealed_map e (set SECRET_OPTIONS) (pc_options c)\<rparr>"
    using sealed_options [OF wf _ d, of "{}" e ?c] by (simp add: e0)
  obtain b where p: "decrypt_vec_or_original (ce_secrets e) (encrypt_vec_or_original (ce_secrets e) (pc_password c)
      PASSWORD_ENC_VERSION ENCRYPT_MAX_LEN) PASSWORD_ENC_VERSION = (pc_password c, b, False)"
    using sealed_password [OF assms(1), of "pc_password c"] assms(2) by (auto simp: storable_config_def)
  have "fold (open_option e) SECRET_OPTIONS (c\<lparr>pc_options := sealed_map e (set SECRET_OPTIONS) (pc_options c)\<rparr>, False) = (c, False)"
    using opened_options [OF assms(1) wf d, of c] assms(2) by (simp add: storable_config_def)
  moreover have "?c\<lparr>pc_options := m, pc_password := pc_password c\<rparr> = c\<lparr>pc_options := m\<rparr>" for m by simp
  ultimately show ?thesis
    unfolding peer_config_load_def peer_config_store_def Let_def s by (simp add: p)
qed

section \<open>What the options of a message do to the flags of the peer\<close>

definition flag :: "bool_option enum_or_unknown \<Rightarrow> bool \<Rightarrow> bool" where
  "flag q old = (case given q of Some b \<Rightarrow> b | None \<Rightarrow> old)"

lemma flag_simps [simp]: "flag (yes_no b) old = b" "flag (Some NotSet) old = old" "flag (Some Yes) old = True"
  "flag (yes_if b) old = (b \<or> old)"
  by (auto simp: flag_def given_def yes_no_def yes_if_def)

lemma when_given_rights:
  assumes "\<And>b p. pe_rights (f b p) = g b (pe_rights p)"
  shows "pe_rights (when_given q f p) = (case given q of Some b \<Rightarrow> g b (pe_rights p) | None \<Rightarrow> pe_rights p)"
  using assms by (simp add: when_given_def split: option.split)

lemma cursor_flags:
  "pe_rights (update_cursor_options v o' p) =
     (let r = pe_rights p in
      r\<lparr>rt_show_remote_cursor := (if is_mobile (pv_os v) then rt_show_remote_cursor r else flag (om_show_remote_cursor o') (rt_show_remote_cursor r)),
        rt_follow_remote_cursor := (if is_mobile (pv_os v) then rt_follow_remote_cursor r else flag (om_follow_remote_cursor o') (rt_follow_remote_cursor r)),
        rt_follow_remote_window := flag (om_follow_remote_window o') (rt_follow_remote_window r)\<rparr>)"
  by (simp add: update_cursor_options_def when_given_def flag_def Let_def split: option.split)

lemma file_flags:
  "pe_rights (update_file_option v o' p) =
     (pe_rights p)\<lparr>rt_enable_file_transfer := (if pv_os v = Windows \<or> pv_unix_clip v
        then flag (om_enable_file_transfer o') (rt_enable_file_transfer (pe_rights p)) else rt_enable_file_transfer (pe_rights p))\<rparr>"
  by (simp add: update_file_option_def when_given_def flag_def Let_def split: option.split)

lemma input_flags:
  "pe_rights (update_input_options v o' p) =
     (pe_rights p)\<lparr>rt_disable_clipboard := flag (om_disable_clipboard o') (rt_disable_clipboard (pe_rights p)),
        rt_disable_keyboard := flag (om_disable_keyboard o') (rt_disable_keyboard (pe_rights p))\<rparr>"
  by (simp add: update_input_options_def when_given_def flag_def Let_def split: option.split)

lemma audio_flags:
  "pe_rights (when_given (om_disable_audio o') (\<lambda>b p. subscribe_audio (on_rights (\<lambda>r. r\<lparr>rt_disable_audio := b\<rparr>) p)) p) =
     (pe_rights p)\<lparr>rt_disable_audio := flag (om_disable_audio o') (rt_disable_audio (pe_rights p))\<rparr>"
  by (simp add: when_given_def flag_def subscribe_audio_def split: option.split)

lemma cursor_lock: "pe_conn (update_cursor_options v o' p) = pe_conn p"
  by (simp add: update_cursor_options_def when_given_def Let_def split: option.split)

lemma file_lock: "pe_conn (update_file_option v o' p) = pe_conn p"
  by (simp add: update_file_option_def when_given_def Let_def split: option.split)

lemma input_lock: "pe_conn (update_input_options v o' p) = pe_conn p"
  by (simp add: update_input_options_def when_given_def Let_def split: option.split)

lemma audio_lock:
  "pe_conn (when_given q (\<lambda>b p. subscribe_audio (on_rights (\<lambda>r. r\<lparr>rt_disable_audio := b\<rparr>) p)) p) = pe_conn p"
  by (simp add: when_given_def subscribe_audio_def split: option.split)

lemma privacy_lock: "pe_conn (update_privacy_option v o' p) = pe_conn p" "pe_rights (update_privacy_option v o' p) = pe_rights p"
proof -
  have "pe_conn (toggle_privacy_mode v b key p) = pe_conn p \<and> pe_rights (toggle_privacy_mode v b key p) = pe_rights p" for b key
    using toggle_privacy_only [of p v b key] by (auto simp: privacy_only_def)
  then show "pe_conn (update_privacy_option v o' p) = pe_conn p" "pe_rights (update_privacy_option v o' p) = pe_rights p"
    by (simp_all add: update_privacy_option_def when_given_def split: option.split)
qed

lemma block_lock: "pe_conn (update_block_option o' p) = pe_conn p" "pe_rights (update_block_option o' p) = pe_rights p"
  by (simp_all add: update_block_option_def when_given_def split: option.split)

lemma terminal_lock:
  "cn_lock_after_session_end (pe_conn (update_terminal_option v o' p)) = cn_lock_after_session_end (pe_conn p)"
  "pe_rights (update_terminal_option v o' p) = pe_rights p"
  by (simp_all add: update_terminal_option_def when_given_def split: option.split)

lemma whiteboard_lock:
  "pe_conn (update_whiteboard_option v o' p) = pe_conn p"
  "pe_rights (update_whiteboard_option v o' p) =
     (pe_rights p)\<lparr>rt_show_my_cursor := rt_show_my_cursor (pe_rights (update_whiteboard_option v o' p))\<rparr>"
  by (simp_all add: update_whiteboard_option_def when_given_def Let_def split: option.split)

lemma early_lock:
  "pe_conn (update_quality o' p) = pe_conn p" "pe_rights (update_quality o' p) = pe_rights p"
  "pe_rights (when_given q (\<lambda>b. on_login (\<lambda>c. c\<lparr>cn_lock_after_session_end := b\<rparr>)) p) = pe_rights p"
  "cn_lock_after_session_end (pe_conn (when_given q (\<lambda>b. on_login (\<lambda>c. c\<lparr>cn_lock_after_session_end := b\<rparr>)) p))
     = flag q (cn_lock_after_session_end (pe_conn p))"
  by (simp_all add: update_quality_def when_given_def flag_def Let_def split: option.split)

lemmas option_stages = cursor_flags file_flags input_flags audio_flags cursor_lock file_lock input_lock audio_lock
  privacy_lock block_lock terminal_lock early_lock

lemma option_flags:
  defines "q o' p v \<equiv> update_options v o' p"
  shows "rt_disable_keyboard (pe_rights (q o' p v)) = flag (om_disable_keyboard o') (rt_disable_keyboard (pe_rights p))"
    "rt_disable_clipboard (pe_rights (q o' p v)) = flag (om_disable_clipboard o') (rt_disable_clipboard (pe_rights p))"
    "rt_disable_audio (pe_rights (q o' p v)) = flag (om_disable_audio o') (rt_disable_audio (pe_rights p))"
    "rt_follow_remote_window (pe_rights (q o' p v)) = flag (om_follow_remote_window o') (rt_follow_remote_window (pe_rights p))"
    "\<not> is_mobile (pv_os v) \<Longrightarrow>
       rt_show_remote_cursor (pe_rights (q o' p v)) = flag (om_show_remote_cursor o') (rt_show_remote_cursor (pe_rights p))"
    "\<not> is_mobile (pv_os v) \<Longrightarrow>
       rt_follow_remote_cursor (pe_rights (q o' p v)) = flag (om_follow_remote_cursor o') (rt_follow_remote_cursor (pe_rights p))"
    "pv_os v = Windows \<or> pv_unix_clip v \<Longrightarrow>
       rt_enable_file_transfer (pe_rights (q o' p v)) = flag (om_enable_file_transfer o') (rt_enable_file_transfer (pe_rights p))"
    "cn_lock_after_session_end (pe_conn (q o' p v)) = flag (om_lock_after_session_end o') (cn_lock_after_session_end (pe_conn p))"
  unfolding q_def update_options_def Let_def
  by (subst whiteboard_lock, simp add: option_stages Let_def)+

section \<open>The flags of the peer follow the options of the session\<close>

text \<open>What the machine that is controlled keeps, for a configuration of the session.\<close>

definition agrees :: "peer_env \<Rightarrow> peer_config \<Rightarrow> peer \<Rightarrow> bool" where
  "agrees v c p \<longleftrightarrow>
     (let r = pe_rights p in
      rt_disable_keyboard r = pc_view_only c
      \<and> rt_disable_clipboard r = (pc_view_only c \<or> pc_disable_clipboard c)
      \<and> rt_disable_audio r = pc_disable_audio c
      \<and> rt_follow_remote_window r = pc_follow_remote_window c
      \<and> cn_lock_after_session_end (pe_conn p) = (\<not> pc_view_only c \<and> pc_lock_after_session_end c)
      \<and> (\<not> is_mobile (pv_os v) \<longrightarrow> rt_show_remote_cursor r = (pc_view_only c \<or> pc_show_remote_cursor c)
           \<and> rt_follow_remote_cursor r = pc_follow_remote_cursor c)
      \<and> (pv_os v = Windows \<or> pv_unix_clip v \<longrightarrow>
           rt_enable_file_transfer r = (\<not> pc_view_only c \<and> pc_enable_file_copy_paste c)))"

text \<open>A peer that has just been let in: no option is set.\<close>

definition no_flags :: "peer \<Rightarrow> bool" where
  "no_flags p \<longleftrightarrow>
     (let r = pe_rights p in
      \<not> rt_disable_keyboard r \<and> \<not> rt_disable_clipboard r \<and> \<not> rt_disable_audio r \<and> \<not> rt_follow_remote_window r
      \<and> \<not> rt_show_remote_cursor r \<and> \<not> rt_follow_remote_cursor r \<and> \<not> rt_enable_file_transfer r
      \<and> \<not> cn_lock_after_session_end (pe_conn p))"

fun options_in :: "client_out list \<Rightarrow> option_message list" where
  "options_in [] = []"
| "options_in (SendOption o' # os) = o' # options_in os"
| "options_in (_ # os) = options_in os"

lemma options_in_append [simp]: "options_in (xs @ ys) = options_in xs @ options_in ys"
  by (induction xs rule: options_in.induct) simp_all

text \<open>The files hold what the session shows, under an id that is no link.\<close>

definition synced :: "client_env \<Rightarrow> client \<Rightarrow> bool" where
  "synced e l \<longleftrightarrow> secrets_ok (ce_secrets e) \<and> storable_config e (lc_config l)
     \<and> \<not> starts_with (lc_id l) ''nostr-webrtc://'' \<and> load_config e l = (lc_config l, l)"

lemma synced_out: "synced e (l\<lparr>lc_out := os\<rparr>) = synced e l"
  by (cases l) (auto simp: synced_def load_config_def Let_def split: prod.split)

lemma save_synced:
  assumes "secrets_ok (ce_secrets e)" "storable_config e c" "\<not> starts_with (lc_id l) ''nostr-webrtc://''"
  shows "synced e (save_config e c l)"
  using assms load_stored [OF assms(1,2)] by (simp add: synced_def save_config_def load_config_def nostr_device_id_def)

lemma toggled_storable:
  assumes "toggled l name c = Some (c', o')" "storable_config e c"
  shows "storable_config e c'"
proof -
  have "pc_password c' = pc_password c \<and> pc_options c' = pc_options c"
    using assms(1) unfolding toggled_def Let_def by (auto split: if_splits)
  with assms(2) show ?thesis by (simp add: storable_config_def)
qed

text \<open>While the session is for viewing only, the options that this sets by itself are left alone.\<close>

definition ruled_by_view_only :: "string \<Rightarrow> bool" where
  "ruled_by_view_only name \<longleftrightarrow>
     name \<in> {''disable-clipboard'', ''show-remote-cursor'', ''enable-file-copy-paste'', ''lock-after-session-end''}"

fun untangled :: "client_env \<Rightarrow> string list \<Rightarrow> client \<Rightarrow> bool" where
  "untangled e [] l = True"
| "untangled e (name # names) l \<longleftrightarrow>
     (ruled_by_view_only name \<longrightarrow> \<not> pc_view_only (lc_config l)) \<and> name \<notin> set SECRET_OPTIONS
     \<and> untangled e names (toggle_option e name l)"

definition switches :: "string list" where
  "switches = [''show-remote-cursor'', ''follow-remote-cursor'', ''follow-remote-window'', ''disable-audio'',
     ''disable-clipboard'', ''lock-after-session-end'', ''terminal-persistent'', ''privacy-mode'',
     ''enable-file-copy-paste'', ''block-input'', ''unblock-input'', ''show-quality-monitor'', ''allow_swap_key'',
     ''view-only'', ''show-my-cursor'']"

lemma toggled_switch: "name \<notin> set switches \<Longrightarrow> toggled l name c = None"
  unfolding switches_def toggled_def by (simp only: list.set insert_iff empty_iff de_Morgan_disj if_False simp_thms)

lemma toggled_values:
  "toggled l ''show-remote-cursor'' c = Some (c\<lparr>pc_show_remote_cursor := \<not> pc_show_remote_cursor c\<rparr>,
     om_default\<lparr>om_show_remote_cursor := yes_no (\<not> pc_show_remote_cursor c)\<rparr>)"
  "toggled l ''follow-remote-cursor'' c = Some (c\<lparr>pc_follow_remote_cursor := \<not> pc_follow_remote_cursor c\<rparr>,
     om_default\<lparr>om_follow_remote_cursor := yes_no (\<not> pc_follow_remote_cursor c)\<rparr>)"
  "toggled l ''follow-remote-window'' c = Some (c\<lparr>pc_follow_remote_window := \<not> pc_follow_remote_window c\<rparr>,
     om_default\<lparr>om_follow_remote_window := yes_no (\<not> pc_follow_remote_window c)\<rparr>)"
  "toggled l ''disable-audio'' c = Some (c\<lparr>pc_disable_audio := \<not> pc_disable_audio c\<rparr>,
     om_default\<lparr>om_disable_audio := yes_no (\<not> pc_disable_audio c)\<rparr>)"
  "toggled l ''disable-clipboard'' c = Some (c\<lparr>pc_disable_clipboard := \<not> pc_disable_clipboard c\<rparr>,
     om_default\<lparr>om_disable_clipboard := yes_no (\<not> pc_disable_clipboard c)\<rparr>)"
  "toggled l ''lock-after-session-end'' c = Some (c\<lparr>pc_lock_after_session_end := \<not> pc_lock_after_session_end c\<rparr>,
     om_default\<lparr>om_lock_after_session_end := yes_no (\<not> pc_lock_after_session_end c)\<rparr>)"
  "toggled l ''terminal-persistent'' c = Some (c\<lparr>pc_terminal_persistent := \<not> pc_terminal_persistent c\<rparr>,
     om_default\<lparr>om_terminal_persistent := yes_no (\<not> pc_terminal_persistent c)\<rparr>)"
  "toggled l ''privacy-mode'' c = Some (c, om_default\<lparr>om_privacy_mode := yes_no (\<not> pc_privacy_mode c)\<rparr>)"
  "toggled l ''enable-file-copy-paste'' c = Some (c\<lparr>pc_enable_file_copy_paste := \<not> pc_enable_file_copy_paste c\<rparr>,
     om_default\<lparr>om_enable_file_transfer := yes_no (\<not> pc_enable_file_copy_paste c)\<rparr>)"
  "toggled l ''block-input'' c = Some (c, om_default\<lparr>om_block_input := yes_no True\<rparr>)"
  "toggled l ''unblock-input'' c = Some (c, om_default\<lparr>om_block_input := yes_no False\<rparr>)"
  "toggled l ''show-quality-monitor'' c = Some (c\<lparr>pc_show_quality_monitor := \<not> pc_show_quality_monitor c\<rparr>, om_default)"
  "toggled l ''allow_swap_key'' c = Some (c\<lparr>pc_allow_swap_key := \<not> pc_allow_swap_key c\<rparr>, om_default)"
  "toggled l ''show-my-cursor'' c = Some (c\<lparr>pc_show_my_cursor := \<not> pc_show_my_cursor c\<rparr>,
     om_default\<lparr>om_show_my_cursor := yes_no (\<not> pc_show_my_cursor c)\<rparr>)"
  unfolding toggled_def Let_def by simp_all

lemma toggled_view_only:
  "toggled l ''view-only'' c =
     (if \<not> pc_view_only c then
        Some (c\<lparr>pc_view_only := True\<rparr>,
          om_default\<lparr>om_disable_keyboard := yes_no True, om_disable_clipboard := yes_no True,
            om_show_remote_cursor := yes_no True, om_enable_file_transfer := yes_no False,
            om_lock_after_session_end := yes_no False\<rparr>)
      else if pc_show_my_cursor c then
        Some (c\<lparr>pc_view_only := False, pc_show_my_cursor := False\<rparr>,
          om_default\<lparr>om_disable_keyboard := yes_no False,
            om_disable_clipboard := yes_no (pc_disable_clipboard (lc_config l)),
            om_show_remote_cursor := yes_no (pc_show_remote_cursor (lc_config l)),
            om_enable_file_transfer := yes_no (pc_enable_file_copy_paste (lc_config l)),
            om_lock_after_session_end := yes_no (pc_lock_after_session_end (lc_config l)),
            om_show_my_cursor := yes_no False\<rparr>)
      else
        Some (c\<lparr>pc_view_only := False\<rparr>,
          om_default\<lparr>om_disable_keyboard := yes_no False,
            om_disable_clipboard := yes_no (pc_disable_clipboard (lc_config l)),
            om_show_remote_cursor := yes_no (pc_show_remote_cursor (lc_config l)),
            om_enable_file_transfer := yes_no (pc_enable_file_copy_paste (lc_config l)),
            om_lock_after_session_end := yes_no (pc_lock_after_session_end (lc_config l))\<rparr>))"
  unfolding toggled_def Let_def get_toggle_option_def by simp

lemma om_default_simps:
  "om_lock_after_session_end om_default = Some NotSet" "om_show_remote_cursor om_default = Some NotSet"
  "om_disable_audio om_default = Some NotSet" "om_disable_clipboard om_default = Some NotSet"
  "om_enable_file_transfer om_default = Some NotSet" "om_disable_keyboard om_default = Some NotSet"
  "om_follow_remote_cursor om_default = Some NotSet" "om_follow_remote_window om_default = Some NotSet"
  by (simp_all add: om_default_def)

text \<open>The flags of the peer after the options of one message, by those the message carries.\<close>

lemma agreesI:
  assumes "flag (om_disable_keyboard o') (rt_disable_keyboard (pe_rights p)) = pc_view_only c"
    "flag (om_disable_clipboard o') (rt_disable_clipboard (pe_rights p)) = (pc_view_only c \<or> pc_disable_clipboard c)"
    "flag (om_disable_audio o') (rt_disable_audio (pe_rights p)) = pc_disable_audio c"
    "flag (om_follow_remote_window o') (rt_follow_remote_window (pe_rights p)) = pc_follow_remote_window c"
    "flag (om_lock_after_session_end o') (cn_lock_after_session_end (pe_conn p))
       = (\<not> pc_view_only c \<and> pc_lock_after_session_end c)"
    "\<not> is_mobile (pv_os v) \<Longrightarrow> flag (om_show_remote_cursor o') (rt_show_remote_cursor (pe_rights p))
       = (pc_view_only c \<or> pc_show_remote_cursor c)"
    "\<not> is_mobile (pv_os v) \<Longrightarrow> flag (om_follow_remote_cursor o') (rt_follow_remote_cursor (pe_rights p))
       = pc_follow_remote_cursor c"
    "pv_os v = Windows \<or> pv_unix_clip v \<Longrightarrow> flag (om_enable_file_transfer o') (rt_enable_file_transfer (pe_rights p))
       = (\<not> pc_view_only c \<and> pc_enable_file_copy_paste c)"
  shows "agrees v c (update_options v o' p)"
  using assms unfolding agrees_def Let_def by (simp add: option_flags)

lemma agreesD:
  assumes "agrees v c p"
  shows "rt_disable_keyboard (pe_rights p) = pc_view_only c"
    "rt_disable_clipboard (pe_rights p) = (pc_view_only c \<or> pc_disable_clipboard c)"
    "rt_disable_audio (pe_rights p) = pc_disable_audio c"
    "rt_follow_remote_window (pe_rights p) = pc_follow_remote_window c"
    "cn_lock_after_session_end (pe_conn p) = (\<not> pc_view_only c \<and> pc_lock_after_session_end c)"
    "\<not> is_mobile (pv_os v) \<Longrightarrow> rt_show_remote_cursor (pe_rights p) = (pc_view_only c \<or> pc_show_remote_cursor c)"
    "\<not> is_mobile (pv_os v) \<Longrightarrow> rt_follow_remote_cursor (pe_rights p) = pc_follow_remote_cursor c"
    "pv_os v = Windows \<or> pv_unix_clip v \<Longrightarrow>
       rt_enable_file_transfer (pe_rights p) = (\<not> pc_view_only c \<and> pc_enable_file_copy_paste c)"
  using assms unfolding agrees_def Let_def by simp_all

lemma other_switch:
  assumes "name \<in> set switches" "name \<noteq> ''view-only''"
  shows "name = ''show-remote-cursor'' \<or> name = ''follow-remote-cursor'' \<or> name = ''follow-remote-window''
    \<or> name = ''disable-audio'' \<or> name = ''disable-clipboard'' \<or> name = ''lock-after-session-end''
    \<or> name = ''terminal-persistent'' \<or> name = ''privacy-mode'' \<or> name = ''enable-file-copy-paste''
    \<or> name = ''block-input'' \<or> name = ''unblock-input'' \<or> name = ''show-quality-monitor''
    \<or> name = ''allow_swap_key'' \<or> name = ''show-my-cursor''"
  using assms(1) unfolding switches_def list.set insert_iff empty_iff
  by (elim disjE) (use assms(2) in \<open>simp_all only: simp_thms\<close>)

lemma ruled_values:
  "ruled_by_view_only ''disable-clipboard''" "ruled_by_view_only ''show-remote-cursor''"
  "ruled_by_view_only ''enable-file-copy-paste''" "ruled_by_view_only ''lock-after-session-end''"
  by (simp_all add: ruled_by_view_only_def)

lemma toggled_agrees:
  assumes "toggled l name (lc_config l) = Some (c', o')" "agrees v (lc_config l) p"
    "ruled_by_view_only name \<Longrightarrow> \<not> pc_view_only (lc_config l)"
  shows "agrees v c' (update_options v o' p)"
proof -
  note a = agreesD [OF assms(2)]
  have "name \<in> set switches" using assms(1) toggled_switch [of name] by fastforce
  then consider "name = ''view-only''" | "name \<noteq> ''view-only''" "name \<in> set switches" by auto
  then show ?thesis
  proof cases
    case 1
    with assms(1) have "Some (c', o') = toggled l ''view-only'' (lc_config l)" by simp
    then show ?thesis
      unfolding toggled_view_only by (intro agreesI) (auto simp: om_default_simps a split: if_splits)
  next
    case 2
    have vo: "ruled_by_view_only name \<longrightarrow> \<not> pc_view_only (lc_config l)" using assms(3) by blast
    have "case toggled l name (lc_config l) of Some (c', o') \<Rightarrow> agrees v c' (update_options v o' p) | None \<Rightarrow> True"
      using other_switch [OF 2(2,1)] vo
      by (elim disjE; hypsubst_thin; unfold toggled_values option.case prod.case; intro agreesI;
          simp add: om_default_simps a ruled_values)
    then show ?thesis by (simp add: assms(1))
  qed
qed

lemma load_keeps_synced:
  "synced e l \<Longrightarrow> load_config e l = (lc_config l, l)"
  by (simp add: synced_def)

text \<open>One option is switched: what is sent brings the peer where the session is.\<close>

lemma toggle_step:
  assumes "synced e l" "agrees v (lc_config l) p" "name \<notin> set SECRET_OPTIONS"
    "ruled_by_view_only name \<longrightarrow> \<not> pc_view_only (lc_config l)"
  shows "\<exists>os. options_in (lc_out (toggle_option e name l)) = options_in (lc_out l) @ os
    \<and> synced e (toggle_option e name l) \<and> agrees v (lc_config (toggle_option e name l)) (fold (update_options v) os p)"
proof (cases "toggled l name (lc_config l)")
  case None
  let ?m = "pc_options (lc_config l)"
  define c' where "c' = (lc_config l)\<lparr>pc_options := (if case hm_get ?m name of Some v \<Rightarrow> v \<noteq> '''' | None \<Rightarrow> False
    then hm_remove name ?m else hm_insert name ''Y'' ?m)\<rparr>"
  have st: "storable_config e (lc_config l)" using assms(1) by (simp add: synced_def)
  have "hm_get (pc_options c') k = hm_get ?m k" if "k \<in> set SECRET_OPTIONS" for k
    using that assms(3) st by (auto simp: c'_def storable_config_def)
  then have "storable_config e c'"
    using st by (auto simp: storable_config_def c'_def list_all_iff)
  moreover have "toggle_option e name l = save_config e c' l"
    using None by (simp add: toggle_option_def load_keeps_synced [OF assms(1)] save_config_def c'_def Let_def)
  moreover have "agrees v c' p" using assms(2) by (simp add: agrees_def c'_def)
  moreover have "lc_config (save_config e c' l) = c'" "lc_out (save_config e c' l) = lc_out l" by (simp_all add: save_config_def)
  moreover have "synced e (save_config e c' l)"
    using assms(1) calculation(1) by (intro save_synced) (simp_all add: synced_def)
  ultimately show ?thesis by (intro exI [of _ "[]"]) simp
next
  case (Some x)
  then obtain c' o' where t: "toggled l name (lc_config l) = Some (c', o')" by (cases x) auto
  have st: "storable_config e c'" using toggled_storable [OF t] assms(1) by (simp add: synced_def)
  have ag: "agrees v c' (update_options v o' p)" using toggled_agrees [OF t assms(2)] assms(4) by blast
  define l1 where "l1 = (if ce_unix_clip e \<and> om_enable_file_transfer o' = Some No
    then l\<lparr>lc_out := lc_out l @ [EmptyClipboardFiles]\<rparr> else l)"
  have l1: "synced e l1" "lc_config l1 = lc_config l" "options_in (lc_out l1) = options_in (lc_out l)"
    using assms(1) by (simp_all add: l1_def synced_out)
  define l2 where "l2 = (if contains_block_input name then l1 else save_config e c' l1)"
  have r: "toggle_option e name l = l2\<lparr>lc_out := lc_out l2 @ [SendOption o']\<rparr>"
    by (simp add: toggle_option_def load_keeps_synced [OF assms(1)] t l1_def l2_def Let_def)
  have "lc_config l2 = c'" if "contains_block_input name"
  proof -
    have "name \<in> set switches" using t toggled_switch [of name] by fastforce
    then have "name = ''block-input'' \<or> name = ''unblock-input''"
      using that unfolding switches_def list.set by (elim insertE emptyE) (simp_all add: contains_block_input_def starts_with_def upt_rec)
    then show ?thesis using t that l1(2) by (auto simp: l2_def toggled_values)
  qed
  then have c2: "lc_config l2 = c'" by (auto simp: l2_def save_config_def)
  have "synced e l2" using l1(1) save_synced [OF _ st, of l1] by (auto simp: l2_def synced_def)
  moreover have "options_in (lc_out l2) = options_in (lc_out l)" using l1(3) by (simp add: l2_def save_config_def)
  ultimately show ?thesis using ag c2 r by (intro exI [of _ "[o']"]) (simp add: synced_out)
qed

lemma toggles_agree:
  assumes "synced e l" "agrees v (lc_config l) p" "untangled e names l"
  shows "\<exists>os. options_in (lc_out (fold (toggle_option e) names l)) = options_in (lc_out l) @ os
    \<and> agrees v (lc_config (fold (toggle_option e) names l)) (fold (update_options v) os p)"
  using assms
proof (induction names arbitrary: l p)
  case Nil
  then show ?case by (intro exI [of _ "[]"]) simp
next
  case (Cons name names)
  obtain os where s: "options_in (lc_out (toggle_option e name l)) = options_in (lc_out l) @ os"
    "synced e (toggle_option e name l)" "agrees v (lc_config (toggle_option e name l)) (fold (update_options v) os p)"
    using toggle_step [OF Cons.prems(1,2), of name] Cons.prems(3) by auto
  obtain os2 where "options_in (lc_out (fold (toggle_option e) names (toggle_option e name l)))
      = options_in (lc_out (toggle_option e name l)) @ os2"
    "agrees v (lc_config (fold (toggle_option e) names (toggle_option e name l)))
      (fold (update_options v) os2 (fold (update_options v) os p))"
    using Cons.IH [OF s(2,3)] Cons.prems(3) by auto
  with s(1) show ?case by (intro exI [of _ "os @ os2"]) simp
qed

text \<open>The options of the log-on request.\<close>

lemma custom_quality_flags:
  assumes "custom_quality e l o' = (q, l')" "synced e l"
  shows "lc_config l' = lc_config l" "lc_out l' = lc_out l" "synced e l'"
proof -
  show "lc_config l' = lc_config l" "lc_out l' = lc_out l"
    using assms load_keeps_synced [OF assms(2)]
    by (auto simp: custom_quality_def Let_def split: option.splits if_splits)
  show "synced e l'"
    using assms load_keeps_synced [OF assms(2)]
    by (cases l) (auto simp: custom_quality_def Let_def synced_def load_config_def split: option.splits if_splits prod.splits)
qed

lemma login_options_agree:
  assumes "get_option_message e d l = (Some o', l')" "synced e l" "lc_conn_type l \<noteq> TerminalConn" "no_flags p"
  shows "agrees v (lc_config l') (update_options v o' p) \<and> synced e l' \<and> lc_out l' = lc_out l"
proof -
  obtain q l1 where q: "(case get_image_quality_enum (pc_image_quality (lc_config l)) d of
        Some q \<Rightarrow> (om_default\<lparr>om_image_quality := Some q\<rparr>, l)
      | None \<Rightarrow> if pc_image_quality (lc_config l) = ''custom'' then custom_quality e l om_default else (om_default, l)) = (q, l1)"
    by fastforce
  have l1: "lc_config l1 = lc_config l" "synced e l1" "lc_out l1 = lc_out l"
    using q assms(2) custom_quality_flags [OF _ assms(2)] by (auto split: option.splits if_splits)
  from assms(1,3) q have l': "l' = l1" by (auto simp: get_option_message_def Let_def split: if_splits)
  have "agrees v (lc_config l) (update_options v o' p)"
    using assms(1,3,4) q l1(1) by (intro agreesI) (auto simp: get_option_message_def Let_def get_toggle_option_def no_flags_def split: if_splits)
  with l1 l' show ?thesis by simp
qed

text \<open>
  C36: The machine that is controlled does what the session shows. After the options of the log-on, and after every switch
  the user sets in the session, the flags the peer keeps for the connection (keyboard, clipboard, sound, files, cursors,
  lock at the end) are those of the configuration of the session, where viewing only overrules its parts; it is enough
  that the options viewing only sets by itself are not switched meanwhile.
\<close>

theorem options_agree:
  assumes "synced e l" "lc_conn_type l \<noteq> TerminalConn" "no_flags p"
    "get_option_message e d l = (Some o', l')" "untangled e names l'"
  shows "\<exists>os. options_in (lc_out (fold (toggle_option e) names l')) = options_in (lc_out l) @ os
    \<and> agrees v (lc_config (fold (toggle_option e) names l')) (fold (update_options v) (o' # os) p)"
proof -
  note a = login_options_agree [OF assms(4,1-3), of v]
  then show ?thesis using toggles_agree [of e l' v "update_options v o' p" names] assms(5) by simp
qed

section \<open>An example\<close>

definition demo_peer_config :: peer_config where
  "demo_peer_config = \<lparr>pc_password = [], pc_image_quality = ''balanced'', pc_custom_image_quality = [],
     pc_show_remote_cursor = False, pc_lock_after_session_end = True, pc_terminal_persistent = False,
     pc_privacy_mode = False, pc_allow_swap_key = False, pc_disable_audio = False, pc_disable_clipboard = False,
     pc_enable_file_copy_paste = True, pc_show_quality_monitor = False, pc_follow_remote_cursor = False,
     pc_follow_remote_window = False, pc_view_only = False, pc_show_my_cursor = False, pc_keyboard_mode = '''',
     pc_options = [], pc_info = \<lparr>pi_username = '''', pi_hostname = '''', pi_platform = ''''\<rparr>, pc_rest = 0\<rparr>"

definition demo_client_env :: client_env where
  "demo_client_env = \<lparr>ce_secrets = demo_env 0, ce_default = demo_peer_config, ce_sha256 = (\<lambda>bs. bs),
     ce_b64_encode = (\<lambda>bs. str_of_bytes bs), ce_b64_decode = (\<lambda>s. Some (as_bytes s)),
     ce_parse_uuid = (\<lambda>_. None), ce_flutter = True, ce_unix_clip = True, ce_public_server = False, ce_decoding = 3,
     ce_default_connect_password = '''', ce_my_id = ''77'', ce_my_name = ''Ann'', ce_my_platform = ''Linux'',
     ce_avatar = '''', ce_hwid = [], ce_client_version = ''1.4.0'', ce_rendezvous_server = ''rs.example'',
     ce_remote_dir = (\<lambda>d _. d), ce_ab_password = (\<lambda>_. None)\<rparr>"

definition demo_client :: "string \<Rightarrow> client" where
  "demo_client i = \<lparr>lc_id = i, lc_conn_type = DefaultConn, lc_is_terminal_admin = False,
     lc_hash = sample_hash, lc_password = [], lc_remember = False,
     lc_config = demo_peer_config, lc_port_forward = ('''', 0), lc_version = 0, lc_features = None, lc_session_id = 3,
     lc_force_relay = False, lc_direct = None, lc_switch_uuid = None, lc_other_server = None, lc_custom_fps = None,
     lc_password_source = UndefinedSource, lc_shared_password = None, lc_files = [], lc_out = []\<rparr>"

lemma demo_storable: "storable_config demo_client_env demo_peer_config"
  by (simp add: storable_config_def demo_peer_config_def hm_wf_def list_all_iff)

lemma demo_synced: "\<not> starts_with i ''nostr-webrtc://'' \<Longrightarrow> synced demo_client_env (demo_client i)"
  using demo_storable by (simp add: synced_def demo_client_def load_config_def peer_config_load_def demo_env_ok demo_client_env_def)

definition quiet_peer :: peer where
  "quiet_peer = (sample_peer True)\<lparr>pe_rights := sample_rights\<lparr>rt_enable_file_transfer := False\<rparr>\<rparr>"

text \<open>The session of an example switches the clipboard off, is then for viewing only, and switches the sound off.\<close>

theorem options_agree_witness:
  "\<exists>os. options_in (lc_out (fold (toggle_option demo_client_env) [''disable-clipboard'', ''view-only'', ''disable-audio'']
          (demo_client ''42''))) = os
    \<and> agrees sample_peer_env (lc_config (fold (toggle_option demo_client_env)
          [''disable-clipboard'', ''view-only'', ''disable-audio''] (demo_client ''42'')))
        (fold (update_options sample_peer_env) (the (fst (get_option_message demo_client_env True (demo_client ''42''))) # os)
          quiet_peer)"
proof -
  let ?c = "demo_client ''42''" and ?e = demo_client_env and ?names = "[''disable-clipboard'', ''view-only'', ''disable-audio'']"
  have s: "synced ?e ?c" by (rule demo_synced) (simp add: starts_with_def)
  have f: "no_flags quiet_peer" by (simp add: no_flags_def quiet_peer_def sample_rights_def sample_peer_def conn_start_def)
  have g: "get_option_message ?e True ?c = (Some (the (fst (get_option_message ?e True ?c))), ?c)"
    by (simp add: get_option_message_def demo_client_def demo_peer_config_def get_image_quality_enum_def Let_def)
  have u: "untangled ?e ?names ?c"
    by (simp add: ruled_by_view_only_def SECRET_OPTIONS_def demo_client_def demo_peer_config_def)
  show ?thesis
    using options_agree [OF s _ f g u] by (simp add: demo_client_def del: fold_simps)
qed

end
