(* ===== verification/Client_Login.thy ===== *)
theory Client_Login
  imports Client_Config
begin

text \<open>
  How the controlling side logs on (\<open>src/client.rs\<close>): where the password comes from, the answer to the challenge of the
  peer, the log-on request, what is done about an error, and what is remembered once the peer has let it in.
\<close>

section \<open>The source of a password\<close>

text \<open>SHA-256 over a password and the salt: what is kept of a password.\<close>

definition salted :: "client_env \<Rightarrow> string \<Rightarrow> pw_hash \<Rightarrow> bytes" where
  "salted e pw h = ce_sha256 e (as_bytes pw @ as_bytes (h_salt h))"

definition is_personal_ab :: "password_source \<Rightarrow> bytes \<Rightarrow> bool" where
  "is_personal_ab src pw \<longleftrightarrow> pw \<noteq> [] \<and> (case src of PersonalAb p \<Rightarrow> p = pw | _ \<Rightarrow> False)"

definition is_shared_ab :: "client_env \<Rightarrow> password_source \<Rightarrow> bytes \<Rightarrow> pw_hash \<Rightarrow> bool" where
  "is_shared_ab e src pw h \<longleftrightarrow> pw \<noteq> [] \<and> (case src of SharedAb p \<Rightarrow> pw = salted e p h | _ \<Rightarrow> False)"

section \<open>Starting a session\<close>

definition PUBLIC_SERVER :: string where "PUBLIC_SERVER = ''public''"
definition RS_PUB_KEY :: string where "RS_PUB_KEY = ''''"

definition ends_with :: "string \<Rightarrow> string \<Rightarrow> bool" where
  "ends_with s p \<longleftrightarrow> starts_with (rev s) (rev p)"

definition handle_relay_id :: "string \<Rightarrow> string" where
  "handle_relay_id i = (if ends_with i [CHR 0x5C, CHR ''r''] \<or> ends_with i ''/r'' then take (length i - 2) i else i)"

definition nth_part :: "string list \<Rightarrow> nat \<Rightarrow> string" where
  "nth_part parts i = (if i < length parts then parts ! i else '''')"

text \<open>The value of \<open>key\<close> in the arguments after the server; names are compared in lower case (of ASCII).\<close>

definition server_key :: "string \<Rightarrow> string" where
  "server_key args =
     (let pairs = concat (map (\<lambda>arg.
            let k = takeWhile (\<lambda>c. c \<noteq> CHR ''='') arg in
            if length k < length arg then [(map ascii_lower k, drop (length k + 1) arg)] else [])
          (split_chars (\<lambda>c. c = CHR ''&'') args))
      in case hm_get (hm_extend [] pairs) ''key'' of Some v \<Rightarrow> v | None \<Rightarrow> '''')"

text \<open>The token of a session to be taken over: the last password, its source and the number of the session.\<close>

record conn_token =
  ct_password :: bytes
  ct_password_source :: password_source
  ct_session_id :: u64

text \<open>
  \<open>must_relay\<close>: whether web sockets or a proxy are used; \<open>rand\<close>: the random number; \<open>token\<close>: what the text of the token
  says; \<open>admin\<close>: the environment variable.
\<close>

definition initialize :: "client_env \<Rightarrow> string \<Rightarrow> client_conn_type \<Rightarrow> string option \<Rightarrow> bool \<Rightarrow> string option
    \<Rightarrow> conn_token option \<Rightarrow> bool \<Rightarrow> u64 \<Rightarrow> bool \<Rightarrow> client \<Rightarrow> client" where
  "initialize e i conn_type switch_uuid force_relay shared_password token must_relay rand admin l =
     (let (i, force_relay, l) =
        (if list_ex (\<lambda>c. c = CHR ''@'') i then
           (let v = split_chars (\<lambda>c. c = CHR ''@'') i; raw_id = nth_part v 0;
                sk = split_chars (\<lambda>c. c = CHR ''?'') (nth_part v 1); server = nth_part sk 0; args = nth_part sk 1;
                key = (if server = PUBLIC_SERVER then RS_PUB_KEY else server_key args);
                real_id = handle_relay_id raw_id
            in (real_id @ ''@'' @ server, force_relay \<or> real_id \<noteq> raw_id,
                l\<lparr>lc_other_server := Some (real_id, server, key)\<rparr>))
         else (let real_id = handle_relay_id i in (real_id, force_relay \<or> real_id \<noteq> i, l)));
          l = l\<lparr>lc_id := i, lc_conn_type := conn_type\<rparr>;
          (config, l) = load_config e l;
          l = l\<lparr>lc_remember := (pc_password config \<noteq> []), lc_config := config\<rparr>;
          (sid, l) = (case token of
                        Some t \<Rightarrow> (ct_session_id t, l\<lparr>lc_password := ct_password t, lc_password_source := ct_password_source t\<rparr>)
                      | None \<Rightarrow> (0, l));
          sid = (if sid = 0 then (if rand = 0 then 1 else rand) else sid);
          l = l\<lparr>lc_session_id := sid,
                lc_force_relay := (option2bool ''force-always-relay'' (lc_get_option l ''force-always-relay'') \<or> force_relay \<or> must_relay)\<rparr>;
          l = (case lc_other_server l of
                 Some (real_id, server, key) \<Rightarrow>
                   (if lc_get_option l ''other-server-key'' \<noteq> '''' \<and> key = ''''
                    then l\<lparr>lc_other_server := Some (real_id, server, lc_get_option l ''other-server-key'')\<rparr> else l)
               | None \<Rightarrow> l)
      in l\<lparr>lc_direct := None, lc_switch_uuid := switch_uuid, lc_shared_password := shared_password,
           lc_is_terminal_admin := (conn_type = TerminalConn \<and> admin)\<rparr>)"

section \<open>The request\<close>

definition get_key_terminal_service_id :: "client \<Rightarrow> string" where
  "get_key_terminal_service_id l = (if lc_is_terminal_admin l then ''terminal-admin-service-id'' else ''terminal-service-id'')"

definition get_remote_dir :: "client_env \<Rightarrow> client \<Rightarrow> string" where
  "get_remote_dir e l = ce_remote_dir e (lc_get_option l ''remote_dir'') (pi_username (pc_info (lc_config l)))"

text \<open>Of the options a request carries only whether the terminal is to persist matters to the log-on of the peer.\<close>

definition login_options_of :: "option_message \<Rightarrow> login_options" where
  "login_options_of o' = \<lparr>lo_terminal_persistent = (case om_terminal_persistent o' of Some b \<Rightarrow> b | None \<Rightarrow> NotSet)\<rparr>"

definition create_login_msg :: "client_env \<Rightarrow> string \<Rightarrow> string \<Rightarrow> bytes \<Rightarrow> client \<Rightarrow> login_request \<times> client" where
  "create_login_msg e osu osp password l =
     (let (my_id, pure_id) =
        (case lc_other_server l of
           Some (i, _, _) \<Rightarrow> (ce_my_id e @ ''@'' @ ce_rendezvous_server e, i)
         | None \<Rightarrow> (ce_my_id e, nostr_device_id (lc_id l)));
          (opts, l) = get_option_message e True l;
          union = (case lc_conn_type l of
                     FileTransferConn \<Rightarrow> Some (LoginFileTransfer (get_remote_dir e l) (lc_get_option l ''remote_show_hidden'' \<noteq> ''''))
                   | ViewCameraConn \<Rightarrow> Some LoginViewCamera
                   | PortForwardConn \<Rightarrow> Some (LoginPortForward (fst (lc_port_forward l)) (snd (lc_port_forward l)))
                   | RdpConn \<Rightarrow> Some (LoginPortForward (fst (lc_port_forward l)) (snd (lc_port_forward l)))
                   | TerminalConn \<Rightarrow> Some (LoginTerminal (lc_get_option l (get_key_terminal_service_id l)))
                   | DefaultConn \<Rightarrow> None)
      in (\<lparr>lr_username = pure_id, lr_password = password, lr_my_id = my_id, lr_my_name = ce_my_name e,
           lr_option = map_option login_options_of opts, lr_union = union, lr_video_ack_required = False,
           lr_session_id = lc_session_id l, lr_version = ce_client_version e, lr_os_login = Some (osu, osp),
           lr_my_platform = ce_my_platform e,
           lr_hwid = (if lc_get_option l ''trust-this-device'' = ''Y'' then ce_hwid e else []),
           lr_avatar = ce_avatar e\<rparr>, l))"

definition send_login :: "client_env \<Rightarrow> string \<Rightarrow> string \<Rightarrow> bytes \<Rightarrow> client \<Rightarrow> client" where
  "send_login e osu osp password l =
     (let (lr, l) = create_login_msg e osu osp password l
      in l\<lparr>lc_out := lc_out l @ [SendLogin lr]\<rparr>)"

definition send_switch_login_request :: "client_env \<Rightarrow> bytes \<Rightarrow> client \<Rightarrow> client" where
  "send_switch_login_request e uuid l =
     (let (lr, l) = create_login_msg e '''' '''' [] l in l\<lparr>lc_out := lc_out l @ [SendSwitchSides uuid lr]\<rparr>)"

definition msgbox :: "string \<Rightarrow> string \<Rightarrow> string \<Rightarrow> string \<Rightarrow> client \<Rightarrow> client" where
  "msgbox typ title msg link l = l\<lparr>lc_out := lc_out l @ [MsgBox typ title msg link]\<rparr>"

section \<open>The challenge\<close>

text \<open>\<open>ce_ab_password\<close>: the hash the personal address book holds for a peer, when the user is logged on to it.\<close>

definition try_get_password_from_personal_ab :: "client_env \<Rightarrow> client \<Rightarrow> bytes \<Rightarrow> bytes \<times> client" where
  "try_get_password_from_personal_ab e l password =
     (case Option.bind (ce_ab_password e (lc_id l)) (ce_b64_decode e) of
        Some hash_password \<Rightarrow>
          (if hash_password \<noteq> [] then (hash_password, l\<lparr>lc_password_source := PersonalAb hash_password\<rparr>) else (password, l))
      | None \<Rightarrow> (password, l))"

text \<open>The passwords in the order they are tried.\<close>

definition choose_password :: "client_env \<Rightarrow> string \<Rightarrow> pw_hash \<Rightarrow> client \<Rightarrow> bytes \<times> client" where
  "choose_password e preset h l =
     (let password = lc_password l;
          (password, l) = (if password = [] \<and> preset \<noteq> ''''
                           then (salted e preset h, l\<lparr>lc_password_source := UndefinedSource\<rparr>) else (password, l));
          shared = lc_shared_password l; l = l\<lparr>lc_shared_password := None\<rparr>;
          (password, l) = (case shared of
                             Some p \<Rightarrow> if p \<noteq> '''' then (salted e p h, l\<lparr>lc_password_source := SharedAb p\<rparr>) else (password, l)
                           | None \<Rightarrow> (password, l));
          (password, l) = (if password = [] then
                             (let p = pc_password (lc_config l)
                              in (p, if p \<noteq> [] then l\<lparr>lc_password_source := UndefinedSource\<rparr> else l))
                           else (password, l));
          (password, l) = (if password = [] then try_get_password_from_personal_ab e l password else (password, l));
          p = ce_default_connect_password e
      in if password = [] \<and> p \<noteq> '''' then (salted e p h, l\<lparr>lc_password_source := SharedAb p\<rparr>) else (password, l))"

definition handle_hash :: "client_env \<Rightarrow> string \<Rightarrow> pw_hash \<Rightarrow> client \<Rightarrow> client" where
  "handle_hash e preset h l =
     (let l = l\<lparr>lc_hash := h\<rparr>; uuid = Option.bind (lc_switch_uuid l) (ce_parse_uuid e); l = l\<lparr>lc_switch_uuid := None\<rparr> in
      case uuid of
        Some u \<Rightarrow> (send_switch_login_request e u l)\<lparr>lc_password_source := UndefinedSource\<rparr>
      | None \<Rightarrow>
          (let (password, l) = choose_password e preset h l; l = l\<lparr>lc_password := password\<rparr> in
           if lc_conn_type l = TerminalConn \<and> lc_is_terminal_admin l then
             msgbox (if password = [] then ''terminal-admin-login-password'' else ''terminal-admin-login'') '''' '''' '''' l
           else
             (let (answer, l) = (if password = [] then ([], msgbox ''input-password'' ''Password Required'' '''' '''' l)
                                 else (ce_sha256 e (password @ as_bytes (h_challenge h)), l));
                  (osu, osp) = (if lc_conn_type l = TerminalConn then ('''', '''')
                    else (lc_get_option l ''os-username'', lc_get_option l ''os-password''))
              in send_login e osu osp answer l)))"

section \<open>The user\<close>

definition handle_login_from_ui :: "client_env \<Rightarrow> string \<Rightarrow> string \<Rightarrow> string \<Rightarrow> bool \<Rightarrow> client \<Rightarrow> client" where
  "handle_login_from_ui e osu osp password remember l =
     (let (hash_password, l) =
        (if password = '''' then
           (if lc_password l = [] then
              (let p = pc_password (lc_config l)
               in (p, if p \<noteq> [] then l\<lparr>lc_password_source := UndefinedSource\<rparr> else l))
            else (lc_password l, l))
         else (salted e password (lc_hash l), l\<lparr>lc_password_source := UndefinedSource, lc_remember := remember\<rparr>));
          l = l\<lparr>lc_password := hash_password\<rparr>
      in send_login e osu osp (ce_sha256 e (hash_password @ as_bytes (h_challenge (lc_hash l)))) l)"

text \<open>The errors with a message of their own: its type, title, text and link, and whether the user may try again.\<close>

definition LINK_HEADLESS_LINUX_SUPPORT :: string where
  "LINK_HEADLESS_LINUX_SUPPORT = ''https://github.com/anuvadini/anuvadini/wiki/Headless-Linux-Support''"

definition SCRAP_X11_REF_URL :: string where
  "SCRAP_X11_REF_URL = ''https://anuvadini.com/docs/en/manual/linux/#x11-required''"

definition contains_text :: "string \<Rightarrow> string \<Rightarrow> bool" where
  "contains_text s p \<longleftrightarrow> list_ex (\<lambda>i. starts_with (drop i s) p) [0..<length s + 1]"

definition LOGIN_ERROR_MAP :: "(string \<times> string \<times> string \<times> string \<times> string \<times> bool) list" where
  "LOGIN_ERROR_MAP =
     [(''Wayland login screen is not supported'', ''error'', ''Login Error'', ''Login screen using Wayland is not supported'',
         ''https://anuvadini.com/docs/en/manual/linux/#login-screen'', True),
      (''Desktop session not ready'', ''session-login'', '''', '''', '''', True),
      (''Desktop xsession failed'', ''session-re-login'', '''', '''', '''', True),
      (''Desktop session another user login'', ''info-nocancel'', ''another_user_login_title_tip'',
         ''another_user_login_text_tip'', '''', False),
      (''Desktop xorg not found'', ''info-nocancel'', ''xorg_not_found_title_tip'', ''xorg_not_found_text_tip'',
         LINK_HEADLESS_LINUX_SUPPORT, True),
      (''Desktop none'', ''info-nocancel'', ''no_desktop_title_tip'', ''no_desktop_text_tip'', LINK_HEADLESS_LINUX_SUPPORT, True),
      (''Desktop session not ready, password empty'', ''session-login-password'', '''', '''', '''', True),
      (''Desktop session not ready, password wrong'', ''session-login-re-password'', '''', '''', '''', True),
      (LOGIN_MSG_NO_PASSWORD_ACCESS, ''wait-remote-accept-nook'', ''Prompt'',
         ''Please wait for the remote side to accept your session request...'', '''', True)]"

definition handle_login_error :: "client_env \<Rightarrow> string \<Rightarrow> client \<Rightarrow> bool \<times> client" where
  "handle_login_error e err l =
     (if err = ''Empty Password'' then (True, msgbox ''input-password'' ''Password Required'' '''' '''' (l\<lparr>lc_password := []\<rparr>))
      else if err = LOGIN_MSG_PASSWORD_WRONG then
        (True, msgbox ''re-input-password'' err ''Do you want to enter again?'' '''' (l\<lparr>lc_password := []\<rparr>))
      else if err = LOGIN_MSG_2FA_WRONG \<or> err = REQUIRE_2FA then
        (True, msgbox ''input-2fa'' err '''' ''''
           (if lc_get_option l ''trust-this-device'' = ''Y'' then lc_set_option e ''trust-this-device'' '''' l else l))
      else case map_of LOGIN_ERROR_MAP err of
             Some (typ, title, msg, link, again) \<Rightarrow> (again, msgbox typ title msg link l)
           | None \<Rightarrow> (False, msgbox ''error'' ''Login Error'' err
                        (if contains_text err ''x11 expected'' then SCRAP_X11_REF_URL else '''') l))"

section \<open>The peer has let it in\<close>

text \<open>The names of the keyboard modes, and the modes a version and platform of a peer support.\<close>

fun keyboard_mode_name :: "keyboard_mode \<Rightarrow> string" where
  "keyboard_mode_name LegacyMode = ''legacy''"
| "keyboard_mode_name MapMode = ''map''"
| "keyboard_mode_name TranslateMode = ''translate''"
| "keyboard_mode_name AutoMode = ''auto''"

definition keyboard_mode_of :: "string \<Rightarrow> keyboard_mode option" where
  "keyboard_mode_of s =
     (if s = ''legacy'' then Some LegacyMode else if s = ''map'' then Some MapMode
      else if s = ''translate'' then Some TranslateMode else if s = ''auto'' then Some AutoMode else None)"

definition is_keyboard_mode_supported :: "keyboard_mode \<Rightarrow> i64 \<Rightarrow> string \<Rightarrow> bool" where
  "is_keyboard_mode_supported m version platform =
     (case m of
        LegacyMode \<Rightarrow> True
      | MapMode \<Rightarrow> \<not> is_android platform \<and> get_version_number ''1.2.0'' \<le>s version
      | _ \<Rightarrow> get_version_number ''1.2.0'' \<le>s version)"

definition get_supported_keyboard_modes :: "i64 \<Rightarrow> string \<Rightarrow> keyboard_mode list" where
  "get_supported_keyboard_modes version platform =
     filter (\<lambda>m. is_keyboard_mode_supported m version platform) [LegacyMode, MapMode, TranslateMode, AutoMode]"

record client_peer_info =
  cpi_username :: string
  cpi_hostname :: string
  cpi_platform :: string
  cpi_version :: string
  cpi_privacy_mode :: "bool option"

definition remembered :: "client_env \<Rightarrow> client \<Rightarrow> peer_config \<Rightarrow> peer_config" where
  "remembered e l config =
     (let password = lc_password l; password0 = pc_password config in
      if lc_remember l then
        (if password \<noteq> [] \<and> password \<noteq> password0 \<and> \<not> is_shared_ab e (lc_password_source l) password (lc_hash l)
         then config\<lparr>pc_password := password\<rparr> else config)
      else if is_personal_ab (lc_password_source l) password then config\<lparr>pc_password := password\<rparr>
      else if password0 \<noteq> [] then config\<lparr>pc_password := []\<rparr>
      else config)"

definition settled_keyboard_mode :: "string \<Rightarrow> client_peer_info \<Rightarrow> string" where
  "settled_keyboard_mode current pi =
     (let version = get_version_number (cpi_version pi) in
      if current = '''' then
        keyboard_mode_name (if is_keyboard_mode_supported MapMode version (cpi_platform pi) then MapMode else LegacyMode)
      else
        (let m = (case keyboard_mode_of current of Some m \<Rightarrow> m | None \<Rightarrow> LegacyMode)
         in if m \<in> set (get_supported_keyboard_modes version (cpi_platform pi)) then current
            else keyboard_mode_name LegacyMode))"

definition client_handle_peer_info :: "client_env \<Rightarrow> client_peer_info \<Rightarrow> client \<Rightarrow> client" where
  "client_handle_peer_info e pi l =
     (let l = (if cpi_version pi \<noteq> '''' then l\<lparr>lc_version := sint (get_version_number (cpi_version pi))\<rparr> else l);
          l = l\<lparr>lc_features := cpi_privacy_mode pi\<rparr>;
          (config, l) = load_config e l;
          config = config\<lparr>pc_info := \<lparr>pi_username = cpi_username pi, pi_hostname = cpi_hostname pi, pi_platform = cpi_platform pi\<rparr>\<rparr>;
          config = remembered e l config;
          config = (case lc_other_server l of
                      Some (_, b, c) \<Rightarrow> if b \<noteq> PUBLIC_SERVER
                        then config\<lparr>pc_options := hm_insert ''other-server-key'' c (pc_options config)\<rparr> else config
                    | None \<Rightarrow> config);
          config = (if lc_force_relay l then config\<lparr>pc_options := hm_insert ''force-always-relay'' ''Y'' (pc_options config)\<rparr>
                    else config);
          l = (if ce_flutter e \<and> pc_password config \<noteq> [] \<and> \<not> is_shared_ab e (lc_password_source l) (lc_password l) (lc_hash l)
                  \<and> \<not> is_personal_ab (lc_password_source l) (lc_password l)
               then l\<lparr>lc_out := lc_out l @ [SyncPasswordToAb (lc_id l) (pc_password config)]\<rparr> else l);
          config = config\<lparr>pc_keyboard_mode := settled_keyboard_mode (pc_keyboard_mode config) pi\<rparr>
      in save_config e config l)"

definition get_conn_token :: "client \<Rightarrow> conn_token option" where
  "get_conn_token l =
     (if lc_password l = [] then None
      else Some \<lparr>ct_password = lc_password l, ct_password_source = lc_password_source l, ct_session_id = lc_session_id l\<rparr>)"

end
