(* ===== verification/Client_Logon.thy ===== *)
theory Client_Logon
  imports Client_Options Client_Login
begin

text \<open>
  Both sides of a log-on: the password the user types or had remembered opens the machine it belongs to, a password of a
  shared address book is not remembered, and what is kept under an id that is a link is never read again.
\<close>

section \<open>The request opens the machine\<close>

text \<open>The id a request is addressed to.\<close>

definition target_id :: "client \<Rightarrow> string" where
  "target_id l = (case lc_other_server l of Some (i, _, _) \<Rightarrow> i | None \<Rightarrow> nostr_device_id (lc_id l))"

text \<open>
  The machine: it is the one the session is for, lets passwords in at all, asks for no second factor, and is not locked.
\<close>

definition open_for :: "login_env \<Rightarrow> client \<Rightarrow> (string \<times> string) \<Rightarrow> login_state \<Rightarrow> bool" where
  "open_for le l os s \<longleftrightarrow>
     for_this_machine (lr_default\<lparr>lr_username := target_id l\<rparr>) s
     \<and> \<not> cn_authorized (lg_conn s) \<and> \<not> le_privacy_on le \<and> (le_os le = Linux \<longrightarrow> le_try_desktop le (Some os) = '''')
     \<and> cn_require_2fa (lg_conn s) = None \<and> \<not> click_only le s \<and> snd (login_check le 0 s) = None"

lemma open_for_cong:
  assumes "lc_id l' = lc_id l" "lc_other_server l' = lc_other_server l"
  shows "open_for le l' os s = open_for le l os s"
  using assms unfolding open_for_def target_id_def by metis

text \<open>A password the machine accepts.\<close>

definition accepted :: "login_state \<Rightarrow> string \<Rightarrow> bool" where
  "accepted s pw \<longleftrightarrow>
     pw \<noteq> '''' \<and> (temporary_enabled (lw_app (lg_world s)) \<and> pw = lw_temporary_password (lg_world s)
       \<or> permanent_enabled (lw_app (lg_world s)) \<and> pw = get_permanent_password (lw_app (lg_world s)))"

lemma load_config_keeps:
  "load_config e l = (c, l') \<Longrightarrow> l' = l\<lparr>lc_files := lc_files l'\<rparr>"
  by (auto simp: load_config_def Let_def split: prod.splits)

lemma custom_quality_keeps:
  "custom_quality e l o' = (q, l') \<Longrightarrow> l' = l\<lparr>lc_files := lc_files l', lc_custom_fps := lc_custom_fps l'\<rparr>"
  by (cases "load_config e l") (auto dest!: load_config_keeps simp: custom_quality_def Let_def split: option.splits if_splits)

lemma option_message_keeps:
  assumes "get_option_message e d l = (q, l')"
  shows "l' = l\<lparr>lc_files := lc_files l', lc_custom_fps := lc_custom_fps l'\<rparr>"
  using assms
  by (cases "custom_quality e l om_default")
    (auto dest!: custom_quality_keeps simp: get_option_message_def Let_def split: option.splits if_splits)

lemma login_msg_facts:
  assumes "create_login_msg e osu osp pw l = (lr, l')"
  shows "l' = l\<lparr>lc_files := lc_files l', lc_custom_fps := lc_custom_fps l'\<rparr>"
    "lr_username lr = target_id l" "lr_password lr = pw" "lr_os_login lr = Some (osu, osp)"
    "lc_conn_type l = DefaultConn \<Longrightarrow> lr_union lr = None"
proof -
  obtain q l2 where g: "get_option_message e True l = (q, l2)" by fastforce
  note k = option_message_keeps [OF g]
  have t: "lc_conn_type l2 = lc_conn_type l" by (subst k) simp
  show "lr_username lr = target_id l" "lr_password lr = pw" "lr_os_login lr = Some (osu, osp)"
    "lc_conn_type l = DefaultConn \<Longrightarrow> lr_union lr = None"
    using assms t by (auto simp: create_login_msg_def g target_id_def Let_def split: option.splits)
  have "l' = l2" using assms by (auto simp: create_login_msg_def g Let_def split: prod.splits)
  then show "l' = l\<lparr>lc_files := lc_files l', lc_custom_fps := lc_custom_fps l'\<rparr>" using k by simp
qed

lemma for_target: "lr_username lr = i \<Longrightarrow> for_this_machine lr s = for_this_machine (lr_default\<lparr>lr_username := i\<rparr>) s"
  by (simp add: for_this_machine_def is_lan_def)

text \<open>A request with the answer to the challenge of the machine.\<close>

lemma answer_admits:
  assumes "lc_conn_type l = DefaultConn" "open_for le l (osu, osp) s" "accepted s pw"
    "ce_sha256 e = le_sha256 le" "\<And>bs. le_sha256 le bs \<noteq> []" "h = cn_hash (lg_conn s)"
  shows "\<exists>lr. lc_out (send_login e osu osp (ce_sha256 e (salted e pw h @ as_bytes (h_challenge h))) l)
      = lc_out l @ [SendLogin lr]
    \<and> cn_authorized (lg_conn (snd (on_login_request le lr s)))
    \<and> cn_authed_conn (lg_conn (snd (on_login_request le lr s))) = Some (get_auth_conn_type (lg_conn s))"
proof -
  let ?pw = "ce_sha256 e (salted e pw h @ as_bytes (h_challenge h))"
  obtain lr l' where m: "create_login_msg e osu osp ?pw l = (lr, l')" by fastforce
  note f = login_msg_facts [OF m]
  have o': "lc_out l' = lc_out l" by (subst f(1)) simp
  have "cn_authorized (lg_conn (snd (on_login_request le lr s)))
    \<and> cn_authed_conn (lg_conn (snd (on_login_request le lr s))) = Some (get_auth_conn_type (lg_conn s))"
  proof (rule right_password_accepted)
    show "ready le lr s" using f(4,5) assms(1,2) by (simp add: ready_def open_for_def)
    show "for_this_machine lr s" using for_target [OF f(2), of s] assms(2) by (simp add: open_for_def)
    show "cn_require_2fa (lg_conn s) = None" "\<not> click_only le s" "snd (login_check le 0 s) = None"
      using assms(2) by (simp_all add: open_for_def)
    show "lr_password lr \<noteq> []" using f(3) assms(4,5) by simp
    show "one_time_password_right le lr s \<or> permanent_password_right le lr s"
      using assms(3,4,6) f(3)
      by (auto simp: accepted_def one_time_password_right_def permanent_password_right_def answers_def salted_def)
  qed
  with m o' show ?thesis by (simp add: send_login_def)
qed

text \<open>
  C37: The password the user types opens the machine: the session sends one log-on request, and the machine authorises it,
  if the password is its one-time or its permanent password (and that kind is enabled), the session has the salt and the
  challenge of the machine, and nothing else stands in the way (a second factor, approval by click, too many failures).
\<close>

theorem typed_password_admits:
  assumes "lc_conn_type l = DefaultConn" "open_for le l (osu, osp) s" "accepted s pw"
    "ce_sha256 e = le_sha256 le" "\<And>bs. le_sha256 le bs \<noteq> []" "lc_hash l = cn_hash (lg_conn s)"
  shows "\<exists>lr. lc_out (handle_login_from_ui e osu osp pw remember l) = lc_out l @ [SendLogin lr]
    \<and> cn_authorized (lg_conn (snd (on_login_request le lr s)))"
proof -
  define l1 where "l1 = l\<lparr>lc_password_source := UndefinedSource, lc_remember := remember, lc_password := salted e pw (lc_hash l)\<rparr>"
  have "lc_conn_type l1 = DefaultConn" "open_for le l1 (osu, osp) s" "lc_out l1 = lc_out l"
    using assms(1,2) open_for_cong [of l1 l] by (simp_all add: l1_def)
  moreover have "handle_login_from_ui e osu osp pw remember l
    = send_login e osu osp (ce_sha256 e (salted e pw (lc_hash l) @ as_bytes (h_challenge (lc_hash l)))) l1"
    using assms(3) by (simp add: handle_login_from_ui_def l1_def accepted_def)
  ultimately show ?thesis
    using answer_admits [of l1 le osu osp s pw e "lc_hash l", OF _ _ assms(3,4) assms(5) assms(6)] by auto
qed

section \<open>What is remembered\<close>

text \<open>The configuration a session keeps once the peer has let it in.\<close>

lemma handle_peer_info_config:
  assumes "load_config e (l\<lparr>lc_version := w, lc_features := cpi_privacy_mode pi\<rparr>) = (c, l1)"
    "w = (if cpi_version pi \<noteq> '''' then sint (get_version_number (cpi_version pi)) else lc_version l)"
  shows "pc_password (lc_config (client_handle_peer_info e pi l)) = pc_password (remembered e l c)"
    "lc_files (client_handle_peer_info e pi l)
      = peer_config_store e (lc_id l) (lc_config (client_handle_peer_info e pi l)) (lc_files l1)"
    "lc_id (client_handle_peer_info e pi l) = lc_id l"
    "lc_out (client_handle_peer_info e pi l) = lc_out l \<or>
      \<not> is_shared_ab e (lc_password_source l) (lc_password l) (lc_hash l)
      \<and> lc_out (client_handle_peer_info e pi l) = lc_out l @ [SyncPasswordToAb (lc_id l) (pc_password (remembered e l c))]"
proof -
  note k = load_config_keeps [OF assms(1)]
  have l1: "lc_password l1 = lc_password l" "lc_remember l1 = lc_remember l" "lc_hash l1 = lc_hash l"
    "lc_password_source l1 = lc_password_source l" "lc_id l1 = lc_id l" "lc_out l1 = lc_out l"
    by (subst k, simp)+
  have start: "(if cpi_version pi \<noteq> '''' then l\<lparr>lc_version := sint (get_version_number (cpi_version pi))\<rparr> else l)
      \<lparr>lc_features := cpi_privacy_mode pi\<rparr> = l\<lparr>lc_version := w, lc_features := cpi_privacy_mode pi\<rparr>"
    using assms(2) by (cases l) simp
  have r: "pc_password (remembered e l1 (c\<lparr>pc_info := i\<rparr>)) = pc_password (remembered e l c)" for i
    by (simp add: remembered_def l1 Let_def)
  show "pc_password (lc_config (client_handle_peer_info e pi l)) = pc_password (remembered e l c)"
    "lc_files (client_handle_peer_info e pi l)
      = peer_config_store e (lc_id l) (lc_config (client_handle_peer_info e pi l)) (lc_files l1)"
    "lc_id (client_handle_peer_info e pi l) = lc_id l"
    "lc_out (client_handle_peer_info e pi l) = lc_out l \<or>
      \<not> is_shared_ab e (lc_password_source l) (lc_password l) (lc_hash l)
      \<and> lc_out (client_handle_peer_info e pi l) = lc_out l @ [SyncPasswordToAb (lc_id l) (pc_password (remembered e l c))]"
    unfolding client_handle_peer_info_def Let_def start assms(1) prod.case
    by (auto simp: save_config_def l1 r split: option.split prod.split)
qed

lemma handle_peer_info_options:
  assumes "load_config e (l\<lparr>lc_version := w, lc_features := cpi_privacy_mode pi\<rparr>) = (c, l1)"
    "w = (if cpi_version pi \<noteq> '''' then sint (get_version_number (cpi_version pi)) else lc_version l)"
    "lc_other_server l = None" "\<not> lc_force_relay l"
  shows "pc_options (lc_config (client_handle_peer_info e pi l)) = pc_options c"
proof -
  note k = load_config_keeps [OF assms(1)]
  have l1: "lc_other_server l1 = None" "\<not> lc_force_relay l1" using assms(3,4) by (subst k, simp)+
  have start: "(if cpi_version pi \<noteq> '''' then l\<lparr>lc_version := sint (get_version_number (cpi_version pi))\<rparr> else l)
      \<lparr>lc_features := cpi_privacy_mode pi\<rparr> = l\<lparr>lc_version := w, lc_features := cpi_privacy_mode pi\<rparr>"
    using assms(2) by (cases l) simp
  have "pc_options (remembered e l1 c') = pc_options c'" for c' by (simp add: remembered_def Let_def)
  then show ?thesis
    unfolding client_handle_peer_info_def Let_def start assms(1) prod.case by (simp add: save_config_def l1)
qed

lemma remembered_when_asked:
  assumes "lc_remember l" "lc_password l \<noteq> []" "lc_password_source l = UndefinedSource"
  shows "pc_password (remembered e l c) = lc_password l"
  using assms by (simp add: remembered_def is_shared_ab_def Let_def)

lemma shared_not_kept:
  assumes "is_shared_ab e (lc_password_source l) (lc_password l) (lc_hash l)"
  shows "pc_password (remembered e l c) = pc_password c \<or> pc_password (remembered e l c) = []"
  using assms by (auto simp: remembered_def is_shared_ab_def is_personal_ab_def Let_def split: password_source.splits)

text \<open>A session for an id without a server in it starts from what is stored under the id.\<close>

lemma initialize_loaded:
  assumes "list_all (\<lambda>c. c \<noteq> CHR ''@'') i" "handle_relay_id i = i" "\<not> starts_with i ''nostr-webrtc://''"
    "peer_config_load e i (lc_files l0) = (c, files)" "lc_other_server l0 = None"
  shows "let l = initialize e i ct None fr shared None relay rand admin l0 in
     lc_config l = c \<and> lc_password l = lc_password l0 \<and> lc_id l = i \<and> lc_conn_type l = ct \<and> lc_switch_uuid l = None
     \<and> lc_shared_password l = shared \<and> lc_other_server l = None \<and> lc_out l = lc_out l0"
proof -
  have at_: "\<not> list_ex (\<lambda>c. c = CHR ''@'') i" using assms(1) by (auto simp: list_ex_iff list_all_iff)
  have "load_config e (l0\<lparr>lc_id := i, lc_conn_type := ct\<rparr>) = (c, l0\<lparr>lc_id := i, lc_conn_type := ct, lc_files := files\<rparr>)"
    using assms(3,4) by (simp add: load_config_def nostr_device_id_def)
  then show ?thesis
    using at_ assms(2,5) by (simp add: initialize_def Let_def)
qed

lemma remembered_is_chosen:
  assumes "lc_password l = []" "lc_shared_password l = None" "pc_password (lc_config l) \<noteq> []"
  shows "choose_password e '''' h l = (pc_password (lc_config l),
    l\<lparr>lc_shared_password := None, lc_password_source := UndefinedSource\<rparr>)"
  using assms by (simp add: choose_password_def Let_def)

text \<open>
  C38: A remembered password opens the machine again. The user types the password and asks to remember it, the peer lets
  the session in; a later session to the same id, started from the files alone, answers the next challenge of the machine
  by itself, and the machine authorises it as long as it still accepts the password and keeps its salt.
\<close>

theorem remembered_password_admits:
  assumes l1_def: "l1 = client_handle_peer_info e pi (handle_login_from_ui e osu osp pw True l)"
    and l2_def: "l2 = initialize e (lc_id l) DefaultConn None fr None None relay rand admin l0"
    and id_: "list_all (\<lambda>c. c \<noteq> CHR ''@'') (lc_id l)" "handle_relay_id (lc_id l) = lc_id l"
      "\<not> starts_with (lc_id l) ''nostr-webrtc://''"
    and kept: "secrets_ok (ce_secrets e)" "storable_config e (lc_config l1)"
    and later: "lc_files l0 = lc_files l1" "lc_password l0 = []" "lc_other_server l0 = None"
    and machine: "open_for le l2 (lc_get_option l2 ''os-username'', lc_get_option l2 ''os-password'') s" "accepted s pw"
      "ce_sha256 e = le_sha256 le" "\<And>bs. le_sha256 le bs \<noteq> []"
      "h = cn_hash (lg_conn s)" "h_salt h = h_salt (lc_hash l)"
  shows "\<exists>lr. lc_out (handle_hash e '''' h l2) = lc_out l2 @ [SendLogin lr]
    \<and> cn_authorized (lg_conn (snd (on_login_request le lr s)))"
proof -
  define lu where "lu = handle_login_from_ui e osu osp pw True l"
  have ne: "salted e pw h \<noteq> []" for h using machine(3,4) by (simp add: salted_def)
  have pw: "pw \<noteq> ''''" using machine(2) by (simp add: accepted_def)
  obtain lr lu' where m: "create_login_msg e osu osp (ce_sha256 e (salted e pw (lc_hash l) @ as_bytes (h_challenge (lc_hash l))))
      (l\<lparr>lc_password_source := UndefinedSource, lc_remember := True, lc_password := salted e pw (lc_hash l)\<rparr>) = (lr, lu')"
    by fastforce
  note k = login_msg_facts(1) [OF m]
  have u: "lu = lu'\<lparr>lc_out := lc_out lu' @ [SendLogin lr]\<rparr>"
    using m pw by (simp add: lu_def handle_login_from_ui_def send_login_def)
  have lu: "lc_password lu = salted e pw (lc_hash l)" "lc_remember lu" "lc_password_source lu = UndefinedSource" "lc_id lu = lc_id l"
    unfolding u by (subst k, simp)+
  define w where "w = (if cpi_version pi \<noteq> '''' then sint (get_version_number (cpi_version pi)) else lc_version lu)"
  obtain c l' where ld: "load_config e (lu\<lparr>lc_version := w, lc_features := cpi_privacy_mode pi\<rparr>) = (c, l')" by fastforce
  note i = handle_peer_info_config [OF ld w_def, unfolded lu_def, folded l1_def, folded lu_def]
  have pass: "pc_password (lc_config l1) = salted e pw (lc_hash l)"
    using i(1) remembered_when_asked [of lu e c] lu ne by (simp add: l1_def lu_def)
  have "lc_files l0 = peer_config_store e (lc_id l) (lc_config l1) (lc_files l')"
    using i(2) later(1) lu(4) by (simp add: l1_def lu_def)
  then have load: "peer_config_load e (lc_id l) (lc_files l0) = (lc_config l1, lc_files l0)"
    using load_stored [OF kept] by simp
  note j = initialize_loaded [OF id_ load later(3), of DefaultConn fr None relay rand admin, folded l2_def, unfolded Let_def]
  define l3 where "l3 = l2\<lparr>lc_hash := h, lc_switch_uuid := None, lc_shared_password := None,
    lc_password_source := UndefinedSource, lc_password := salted e pw h\<rparr>"
  have same: "salted e pw h = salted e pw (lc_hash l)" using machine(6) by (simp add: salted_def)
  have ch: "choose_password e '''' h (l2\<lparr>lc_hash := h, lc_switch_uuid := None\<rparr>) = (salted e pw h,
      l2\<lparr>lc_hash := h, lc_switch_uuid := None, lc_shared_password := None, lc_password_source := UndefinedSource\<rparr>)"
    using remembered_is_chosen [of "l2\<lparr>lc_hash := h, lc_switch_uuid := None\<rparr>" e h] j later(2) pass ne same by simp
  have opt: "lc_get_option l3 n = lc_get_option l2 n" for n by (simp add: l3_def lc_get_option_def)
  have l3: "lc_conn_type l3 = DefaultConn" "lc_id l3 = lc_id l2" "lc_other_server l3 = lc_other_server l2" "lc_out l3 = lc_out l2"
    using j by (simp_all add: l3_def)
  have "handle_hash e '''' h l2 = send_login e (lc_get_option l2 ''os-username'') (lc_get_option l2 ''os-password'')
      (ce_sha256 e (salted e pw h @ as_bytes (h_challenge h))) l3"
    using j ch ne l3(1) opt by (simp add: handle_hash_def Let_def l3_def)
  moreover have "open_for le l3 (lc_get_option l2 ''os-username'', lc_get_option l2 ''os-password'') s"
    using machine(1) open_for_cong [of l3 l2] l3 by simp
  ultimately show ?thesis
    using answer_admits [OF l3(1) _ machine(2,3,4,5)] l3(4) by auto
qed

section \<open>What is not remembered\<close>

lemma load_config_fst: "lc_id l' = lc_id l \<Longrightarrow> lc_files l' = lc_files l \<Longrightarrow> fst (load_config e l') = fst (load_config e l)"
  by (simp add: load_config_def Let_def split: prod.split)

lemma send_login_keeps:
  "lc_password (send_login e osu osp pw l) = lc_password l" "lc_hash (send_login e osu osp pw l) = lc_hash l"
  "lc_password_source (send_login e osu osp pw l) = lc_password_source l"
proof -
  obtain lr l' where m: "create_login_msg e osu osp pw l = (lr, l')" by fastforce
  note k = login_msg_facts(1) [OF m]
  have s: "send_login e osu osp pw l = l'\<lparr>lc_out := lc_out l' @ [SendLogin lr]\<rparr>" by (simp add: send_login_def m)
  show "lc_password (send_login e osu osp pw l) = lc_password l" "lc_hash (send_login e osu osp pw l) = lc_hash l"
    "lc_password_source (send_login e osu osp pw l) = lc_password_source l"
    unfolding s by (subst k, simp)+
qed

lemma shared_is_chosen:
  assumes "lc_shared_password l = Some p" "p \<noteq> ''''" "salted e p h \<noteq> []"
  shows "fst (choose_password e preset h l) = salted e p h"
    "lc_password_source (snd (choose_password e preset h l)) = SharedAb p"
    "lc_hash (snd (choose_password e preset h l)) = lc_hash l"
  using assms by (simp_all add: choose_password_def Let_def)

lemma shared_logon:
  assumes "lc_shared_password l = Some p" "p \<noteq> ''''" "salted e p h \<noteq> []"
    "Option.bind (lc_switch_uuid l) (ce_parse_uuid e) = None"
  shows "lc_password (handle_hash e preset h l) = salted e p h \<and> lc_hash (handle_hash e preset h l) = h
    \<and> lc_password_source (handle_hash e preset h l) = SharedAb p"
proof -
  let ?l = "l\<lparr>lc_hash := h, lc_switch_uuid := None\<rparr>"
  obtain l' where c: "choose_password e preset h ?l = (salted e p h, l')" "lc_password_source l' = SharedAb p" "lc_hash l' = h"
    using shared_is_chosen [of ?l p e h preset] assms by (cases "choose_password e preset h ?l") simp
  with assms(3,4) show ?thesis
    by (simp add: handle_hash_def msgbox_def send_login_keeps Let_def split: prod.split)
qed

text \<open>
  C39: A password of a shared address book is not remembered. Once a session has answered the challenge with one, what is
  kept of the peer when it lets the session in is the password that was kept before or none, whether or not the session
  is to remember its password, and nothing is sent to the address book.
\<close>

theorem shared_password_not_remembered:
  assumes "lc_shared_password l = Some p" "p \<noteq> ''''" "\<And>bs. ce_sha256 e bs \<noteq> []"
    "Option.bind (lc_switch_uuid l) (ce_parse_uuid e) = None"
    "l1 = handle_hash e preset h l" "l2 = client_handle_peer_info e pi l1"
  shows "(pc_password (lc_config l2) = pc_password (fst (load_config e l1)) \<or> pc_password (lc_config l2) = [])
    \<and> lc_out l2 = lc_out l1"
proof -
  have ne: "salted e p h \<noteq> []" using assms(3) by (simp add: salted_def)
  note s = shared_logon [OF assms(1,2) ne assms(4), of preset, folded assms(5)]
  have shared: "is_shared_ab e (lc_password_source l1) (lc_password l1) (lc_hash l1)" using s ne by (simp add: is_shared_ab_def)
  define w where "w = (if cpi_version pi \<noteq> '''' then sint (get_version_number (cpi_version pi)) else lc_version l1)"
  obtain c l' where ld: "load_config e (l1\<lparr>lc_version := w, lc_features := cpi_privacy_mode pi\<rparr>) = (c, l')" by fastforce
  have "c = fst (load_config e l1)"
    using load_config_fst [of "l1\<lparr>lc_version := w, lc_features := cpi_privacy_mode pi\<rparr>" l1 e] ld by simp
  with handle_peer_info_config(1,4) [OF ld w_def, folded assms(6)] shared_not_kept [OF shared, of c] shared show ?thesis by auto
qed

text \<open>An id that is a link: its settings are written under the whole link and read under the id of the device.\<close>

lemma link_has_other_path:
  assumes "starts_with i ''nostr-webrtc://''" "\<not> list_ex forbidden_in_path (nostr_device_id i)"
    "\<not> starts_with (nostr_device_id i) ''base64_''"
  shows "peer_path e i \<noteq> peer_path e (nostr_device_id i)"
proof -
  have "take (length ''nostr-webrtc://'') i = ''nostr-webrtc://''" using assms(1) by (simp only: starts_with_def)
  moreover have "CHR '':'' \<in> set ''nostr-webrtc://''" by simp
  ultimately have "CHR '':'' \<in> set i" by (metis in_set_takeD)
  then have "list_ex forbidden_in_path i" by (auto simp: list_ex_iff forbidden_in_path_def)
  then have "peer_path e i = ''base64_'' @ ce_b64_encode e (as_bytes i)" "peer_path e (nostr_device_id i) = nostr_device_id i"
    using assms(2) by (simp_all only: peer_path_def if_True if_False)
  with assms(3) starts_with_append [of "''base64_''"] show ?thesis by metis
qed

lemma link_not_synced:
  assumes "hm_get (lc_files l) (peer_path e (nostr_device_id (lc_id l))) = None"
    "peer_path e (lc_id l) \<noteq> peer_path e (nostr_device_id (lc_id l))"
  shows "load_config e l = (ce_default e, l)"
    "hm_get (lc_files (toggle_option e ''disable-audio'' l)) (peer_path e (nostr_device_id (lc_id l))) = None"
    "lc_id (toggle_option e ''disable-audio'' l) = lc_id l"
    "options_in (lc_out (toggle_option e ''disable-audio'' l)) = options_in (lc_out l)
      @ [om_default\<lparr>om_disable_audio := yes_no (\<not> pc_disable_audio (ce_default e))\<rparr>]"
proof -
  show ld: "load_config e l = (ce_default e, l)" using assms(1) by (simp add: load_config_def peer_config_load_def)
  have f: "om_enable_file_transfer om_default \<noteq> Some No" by (simp add: om_default_def)
  have b: "\<not> contains_block_input ''disable-audio''" by (simp add: contains_block_input_def starts_with_def upt_rec)
  have t: "toggle_option e ''disable-audio'' l =
      (let l' = save_config e ((ce_default e)\<lparr>pc_disable_audio := \<not> pc_disable_audio (ce_default e)\<rparr>) l
       in l'\<lparr>lc_out := lc_out l' @ [SendOption (om_default\<lparr>om_disable_audio := yes_no (\<not> pc_disable_audio (ce_default e))\<rparr>)]\<rparr>)"
    using f b by (simp add: toggle_option_def ld toggled_values Let_def)
  show "hm_get (lc_files (toggle_option e ''disable-audio'' l)) (peer_path e (nostr_device_id (lc_id l))) = None"
    "lc_id (toggle_option e ''disable-audio'' l) = lc_id l"
    "options_in (lc_out (toggle_option e ''disable-audio'' l)) = options_in (lc_out l)
      @ [om_default\<lparr>om_disable_audio := yes_no (\<not> pc_disable_audio (ce_default e))\<rparr>]"
    unfolding t using assms by (simp_all add: save_config_def peer_config_store_def Let_def)
qed

text \<open>
  C40: In a session to a link of Nostr nothing that is set is read again: however often the sound is switched, the session
  starts from the defaults each time and sends the same option, so that it never gets back to where it was; a password
  that was to be remembered is stored, and not found.
\<close>

theorem nostr_settings_lost:
  assumes "starts_with (lc_id l) ''nostr-webrtc://''" "\<not> list_ex forbidden_in_path (nostr_device_id (lc_id l))"
    "\<not> starts_with (nostr_device_id (lc_id l)) ''base64_''" "hm_get (lc_files l) (nostr_device_id (lc_id l)) = None"
  shows "options_in (lc_out (fold (toggle_option e) (replicate n ''disable-audio'') l)) = options_in (lc_out l)
      @ replicate n (om_default\<lparr>om_disable_audio := yes_no (\<not> pc_disable_audio (ce_default e))\<rparr>)
    \<and> fst (load_config e (client_handle_peer_info e pi (fold (toggle_option e) (replicate n ''disable-audio'') l))) = ce_default e"
proof -
  note other = link_has_other_path [OF assms(1-3), of e]
  have "peer_path e (nostr_device_id (lc_id l)) = nostr_device_id (lc_id l)" using assms(2) by (simp add: peer_path_def)
  then have none: "hm_get (lc_files l) (peer_path e (nostr_device_id (lc_id l))) = None" using assms(4) by simp
  have "options_in (lc_out (fold (toggle_option e) (replicate n ''disable-audio'') l)) = options_in (lc_out l)
      @ replicate n (om_default\<lparr>om_disable_audio := yes_no (\<not> pc_disable_audio (ce_default e))\<rparr>)
    \<and> lc_id (fold (toggle_option e) (replicate n ''disable-audio'') l) = lc_id l
    \<and> hm_get (lc_files (fold (toggle_option e) (replicate n ''disable-audio'') l)) (peer_path e (nostr_device_id (lc_id l))) = None"
    using none other
  proof (induction n arbitrary: l)
    case (Suc n)
    note s = link_not_synced [OF Suc.prems]
    show ?case using Suc.IH [of "toggle_option e ''disable-audio'' l"] s Suc.prems(2) by simp
  qed simp
  moreover have "fst (load_config e (client_handle_peer_info e pi m)) = ce_default e"
    if m: "lc_id m = lc_id l" "hm_get (lc_files m) (peer_path e (nostr_device_id (lc_id l))) = None" for m
  proof -
    define w where "w = (if cpi_version pi \<noteq> '''' then sint (get_version_number (cpi_version pi)) else lc_version m)"
    have ld: "load_config e (m\<lparr>lc_version := w, lc_features := cpi_privacy_mode pi\<rparr>)
        = (ce_default e, m\<lparr>lc_version := w, lc_features := cpi_privacy_mode pi\<rparr>)"
      using m by (simp add: load_config_def peer_config_load_def)
    note i = handle_peer_info_config(2,3) [OF ld w_def]
    have "hm_get (lc_files (client_handle_peer_info e pi m)) (peer_path e (nostr_device_id (lc_id l))) = None"
      using i(1) m other by (simp add: peer_config_store_def Let_def)
    then show ?thesis using i(2) m(1) by (simp add: load_config_def peer_config_load_def)
  qed
  ultimately show ?thesis by blast
qed

section \<open>Examples\<close>

text \<open>A hash that is never empty, on both sides, and a machine without a second factor at \<open>cafe.example:21118\<close>.\<close>

definition hashing_env :: client_env where
  "hashing_env = demo_client_env\<lparr>ce_sha256 := (\<lambda>bs. 1 # bs)\<rparr>"

definition hashing_login_env :: login_env where
  "hashing_login_env = sample_env\<lparr>le_sha256 := (\<lambda>bs. 1 # bs)\<rparr>"

definition cafe :: string where
  "cafe = ''cafe.example:21118''"

definition cafe_info :: client_peer_info where
  "cafe_info = \<lparr>cpi_username = ''ann'', cpi_hostname = ''cafe'', cpi_platform = ''Linux'', cpi_version = ''1.4.0'',
     cpi_privacy_mode = None\<rparr>"

lemma cafe_facts:
  "list_all (\<lambda>c. c \<noteq> CHR ''@'') cafe" "handle_relay_id cafe = cafe" "\<not> starts_with cafe ''nostr-webrtc://''"
  by (code_simp, code_simp, code_simp)

lemma cafe_open:
  assumes "lc_id l = cafe" "lc_other_server l = None"
  shows "open_for hashing_login_env l os single_factor"
proof -
  have t: "target_id l = cafe" using assms cafe_facts(3) by (simp add: target_id_def nostr_device_id_def)
  have "for_this_machine (lr_default\<lparr>lr_username := cafe\<rparr>) single_factor"
    using for_target [of "sample_request cafe []" cafe single_factor] sample_for_this_machine [of "[]" single_factor]
    by (simp add: sample_request_def cafe_def)
  moreover have "ready sample_env (sample_request cafe []) single_factor" by (rule sample_single_factor)
  moreover have "click_only hashing_login_env single_factor = click_only sample_env single_factor"
    "login_check hashing_login_env 0 single_factor = login_check sample_env 0 single_factor"
    by (simp_all add: hashing_login_env_def click_only_def login_check_def failure_of_def Let_def)
  moreover have "le_os hashing_login_env = MacOS" "\<not> le_privacy_on hashing_login_env"
    by (simp_all add: hashing_login_env_def sample_env_def)
  ultimately show ?thesis
    using sample_single_factor(2,4,5) by (simp add: open_for_def t ready_def)
qed

lemma cafe_accepts: "accepted single_factor ''k7''"
  using sample_single_factor(3) by (simp add: accepted_def one_time_password_right_def single_factor_def sample_defs)

lemma cafe_hash: "cn_hash (lg_conn single_factor) = sample_hash"
  by (simp add: single_factor_def sample_state_def conn_start_def)

lemma hashing: "ce_sha256 hashing_env = le_sha256 hashing_login_env" "le_sha256 hashing_login_env bs \<noteq> []"
  by (simp_all add: hashing_env_def hashing_login_env_def)

theorem typed_password_admits_witness:
  "\<exists>lr. lc_out (handle_login_from_ui hashing_env '''' '''' ''k7'' False (demo_client cafe)) = [SendLogin lr]
    \<and> cn_authorized (lg_conn (snd (on_login_request hashing_login_env lr single_factor)))"
proof -
  have c: "lc_conn_type (demo_client cafe) = DefaultConn" "lc_hash (demo_client cafe) = cn_hash (lg_conn single_factor)"
    "lc_id (demo_client cafe) = cafe" "lc_other_server (demo_client cafe) = None" "lc_out (demo_client cafe) = []"
    by (simp_all add: demo_client_def cafe_hash)
  show ?thesis
    using typed_password_admits [OF c(1) cafe_open [OF c(3,4)] cafe_accepts hashing c(2), where remember = False] c(5) by simp
qed

definition first_session :: client where
  "first_session = client_handle_peer_info hashing_env cafe_info (handle_login_from_ui hashing_env '''' '''' ''k7'' True
     ((demo_client cafe)\<lparr>lc_hash := \<lparr>h_salt = ''s'', h_challenge = ''z''\<rparr>\<rparr>))"

definition second_session :: client where
  "second_session = initialize hashing_env cafe DefaultConn None False None None False 9 False
     ((demo_client '''')\<lparr>lc_files := lc_files first_session\<rparr>)"

lemma first_storable: "storable_config hashing_env (lc_config first_session)"
proof -
  define lu where "lu = handle_login_from_ui hashing_env '''' '''' ''k7'' True
    ((demo_client cafe)\<lparr>lc_hash := \<lparr>h_salt = ''s'', h_challenge = ''z''\<rparr>\<rparr>)"
  have u: "lu = (demo_client cafe)\<lparr>lc_hash := \<lparr>h_salt = ''s'', h_challenge = ''z''\<rparr>, lc_remember := True,
      lc_password := [1, 107, 55, 115], lc_out := lc_out lu\<rparr>"
    by (simp add: lu_def handle_login_from_ui_def send_login_def create_login_msg_def get_option_message_def
        demo_client_def demo_peer_config_def get_image_quality_enum_def salted_def hashing_env_def as_bytes_def Let_def)
  have none: "load_config hashing_env (lu\<lparr>lc_version := w, lc_features := q\<rparr>)
      = (demo_peer_config, lu\<lparr>lc_version := w, lc_features := q\<rparr>)" for w q
    by (subst (1 2) u) (simp add: load_config_def peer_config_load_def demo_client_def hashing_env_def demo_client_env_def)
  have "pc_password (remembered hashing_env lu demo_peer_config) = [1, 107, 55, 115]"
    by (subst u) (simp add: remembered_def demo_client_def demo_peer_config_def is_shared_ab_def)
  moreover have "lc_other_server lu = None" "\<not> lc_force_relay lu" by (subst u, simp add: demo_client_def)+
  ultimately have "pc_password (lc_config first_session) = [1, 107, 55, 115]" "pc_options (lc_config first_session) = []"
    using handle_peer_info_config(1) [where pi = cafe_info, OF none refl] handle_peer_info_options [where pi = cafe_info, OF none refl]
    by (simp_all add: first_session_def lu_def [symmetric] demo_peer_config_def)
  then show ?thesis
    by (simp add: storable_config_def hm_wf_def list_all_iff hashing_env_def demo_client_env_def is_encrypted_def
        ENCRYPT_MAX_LEN_def version_00_def VERSION_LEN_def as_bytes_def)
qed

theorem remembered_password_admits_witness:
  "\<exists>lr. lc_out (handle_hash hashing_env '''' sample_hash second_session) = lc_out second_session @ [SendLogin lr]
    \<and> cn_authorized (lg_conn (snd (on_login_request hashing_login_env lr single_factor)))"
proof -
  let ?l = "(demo_client cafe)\<lparr>lc_hash := \<lparr>h_salt = ''s'', h_challenge = ''z''\<rparr>\<rparr>"
  let ?m = "(demo_client '''')\<lparr>lc_files := lc_files first_session\<rparr>"
  have i: "lc_id ?l = cafe" "lc_files ?m = lc_files first_session" "lc_password ?m = []" "lc_other_server ?m = None"
    "h_salt sample_hash = h_salt (lc_hash ?l)" by (simp_all add: demo_client_def sample_hash_def)
  obtain c files where "peer_config_load hashing_env cafe (lc_files ?m) = (c, files)" by fastforce
  from initialize_loaded [OF cafe_facts this i(4), of DefaultConn False None False 9 False]
  have s2: "lc_id second_session = cafe" "lc_other_server second_session = None" by (simp_all add: second_session_def Let_def)
  have sd: "second_session = initialize hashing_env (lc_id ?l) DefaultConn None False None None False 9 False ?m"
    by (simp only: second_session_def i(1))
  have f: "list_all (\<lambda>c. c \<noteq> CHR ''@'') (lc_id ?l)" "handle_relay_id (lc_id ?l) = lc_id ?l"
    "\<not> starts_with (lc_id ?l) ''nostr-webrtc://''" by (simp_all only: i(1) cafe_facts simp_thms)
  have s: "secrets_ok (ce_secrets hashing_env)" by (simp add: hashing_env_def demo_client_env_def demo_env_ok)
  show ?thesis
    by (rule remembered_password_admits [OF first_session_def sd f s first_storable i(2,3,4) cafe_open [OF s2]
        cafe_accepts hashing cafe_hash [symmetric] i(5)])
qed

theorem shared_password_not_remembered_witness:
  "let l1 = handle_hash hashing_env '''' sample_hash ((demo_client cafe)\<lparr>lc_shared_password := Some ''team''\<rparr>);
       l2 = client_handle_peer_info hashing_env cafe_info l1
   in (pc_password (lc_config l2) = pc_password (fst (load_config hashing_env l1)) \<or> pc_password (lc_config l2) = [])
     \<and> lc_out l2 = lc_out l1"
proof -
  have "lc_shared_password ((demo_client cafe)\<lparr>lc_shared_password := Some ''team''\<rparr>) = Some ''team''"
    "Option.bind (lc_switch_uuid ((demo_client cafe)\<lparr>lc_shared_password := Some ''team''\<rparr>)) (ce_parse_uuid hashing_env) = None"
    by (simp_all add: demo_client_def)
  moreover have "ce_sha256 hashing_env bs \<noteq> []" for bs by (simp add: hashing_env_def)
  ultimately show ?thesis
    using shared_password_not_remembered [where p = "''team''" and e = hashing_env and h = sample_hash and preset = "''''"
        and pi = cafe_info and l = "(demo_client cafe)\<lparr>lc_shared_password := Some ''team''\<rparr>", OF _ _ _ _ refl refl]
    by (simp add: Let_def)
qed

theorem nostr_settings_lost_witness:
  "options_in (lc_out (fold (toggle_option demo_client_env) (replicate 2 ''disable-audio'') (demo_client ''nostr-webrtc://42?offer=x'')))
     = replicate 2 (om_default\<lparr>om_disable_audio := yes_no True\<rparr>)"
proof -
  have "starts_with ''nostr-webrtc://42?offer=x'' ''nostr-webrtc://''" "nostr_device_id ''nostr-webrtc://42?offer=x'' = ''42''"
    by (code_simp, code_simp)
  moreover have "\<not> list_ex forbidden_in_path ''42''" "\<not> starts_with ''42'' ''base64_''"
    by (simp_all add: forbidden_in_path_def starts_with_def)
  ultimately show ?thesis
    using nostr_settings_lost [of "demo_client ''nostr-webrtc://42?offer=x''" demo_client_env 2 cafe_info]
    by (simp add: demo_client_def demo_client_env_def demo_peer_config_def)
qed

end
