(* ===== verification/Spec2Isabelle.thy ===== *)
theory Spec2Isabelle
  imports Tcp_Stream Server Video_QoS Password_Policy Privacy_Mode Terminal_Sessions Connection_Transfers Transfer_Exchange
    Logon_Safety Peer_Properties Webrtc_Chunks Nostr_Signaling Lan_Pairing Client_Logon
begin

text \<open>
  Verification of AnuA, a remote desktop program in Rust: the machine that is controlled (the service process and
  its connection manager), the log-on and the options of the side that controls it, and the parts of the shared library
  \<open>libs/hbb_common\<close> both sides use.

  \<^bold>\<open>How the program fits together.\<close> A peer reaches the machine over a framed TCP stream (\<open>tcp.rs\<close> over
  \<open>bytes_codec.rs\<close>), over a WebRTC data channel (\<open>webrtc.rs\<close>, found by way of Nostr relays,
  \<open>nostr_signaling.rs\<close>), or over the listener for direct connections (\<open>rendezvous_mediator.rs\<close>), which also
  takes the pairing commands. Each connection is a task of \<open>src/server/connection.rs\<close>: it logs the peer on
  (passwords of \<open>password_security.rs\<close> and \<open>config.rs\<close>, limits on attempts, sessions, second factor), subscribes it
  to the services of the registry (\<open>src/server.rs\<close>, \<open>service.rs\<close>), and then acts on its messages: input goes to a
  thread, file requests to the jobs of \<open>fs.rs\<close> in the connection or in the connection manager
  (\<open>ui_cm_interface.rs\<close>), terminal actions to \<open>terminal_service.rs\<close>. The video services ask \<open>video_qos.rs\<close> for
  their frame rate and bit rate; \<open>privacy_mode.rs\<close> hides the screen for one connection at a time.

  \<^bold>\<open>Theories and the code they model.\<close> A struct is a record with a prefix of its own (\<open>bc_\<close>, \<open>fs_\<close>, \<open>tj_\<close>, \<open>cn_\<close> and so
  on), an enum a datatype, a function a definition of the same name where HOL leaves that name free; statics of the
  process are fields of a state record that is handed through. The components, in the order they build on each other:

  \<^item> \<open>Prelude\<close>: machine words, results, hash maps as association lists, text helpers; \<open>Utf8\<close>: Rust strings as
    sequences of UTF-8 bytes; \<open>F32\<close>: rounding as \<open>f32\<close> does it.
  \<^item> Transport. \<open>Bytes_Codec\<close> (\<open>bytes_codec.rs\<close>), \<open>Framing\<close> (the locale \<open>framing\<close>: what the read loop needs of a codec,
    interpreted by the codec), \<open>Tcp_Stream\<close> (\<open>tcp.rs\<close>), \<open>Webrtc_Chunks\<close> (messages of \<open>webrtc.rs\<close>),
    \<open>Nostr_Signaling\<close> (\<open>nostr_signaling.rs\<close>, registration in \<open>flutter_ffi.rs\<close>), \<open>Net_Address\<close> (\<open>lib.rs\<close>,
    \<open>socket_client.rs\<close>), \<open>Version\<close> (\<open>lib.rs\<close>, \<open>common.rs\<close>).
  \<^item> Settings. \<open>Secrets\<close> and \<open>Password_Policy\<close> (\<open>password_security.rs\<close>), \<open>Config\<close> (\<open>config.rs\<close>).
  \<^item> Log-on. \<open>Login_Failures\<close> (with the locale \<open>guess_counter\<close>, interpreted for the total and the minute),
    \<open>Login_Sessions\<close>, \<open>Login\<close> (the branches of \<open>on_message\<close> before authorisation), \<open>Logon_Safety\<close> (what an authorised
    connection has shown), \<open>Lan_Pairing\<close> (the pairing commands of \<open>rendezvous_mediator.rs\<close>).
  \<^item> Services. \<open>Service\<close> (with the locale \<open>subscription\<close>), \<open>Server\<close>, \<open>Video_QoS\<close>, \<open>Privacy_Mode\<close> (with the locale
    \<open>privacy_contract\<close>, interpreted by the model of the two implementations it has).
  \<^item> An authorised peer. \<open>Peer_Rights\<close> (permissions, options, subscriptions), \<open>Peer_Messages\<close> (the rest of
    \<open>on_message\<close> and the thread that plays input), \<open>Peer_Safety\<close>, \<open>Peer_Effects\<close> (what holds of one step) and
    \<open>Peer_Properties\<close> (what holds of whole runs).
  \<^item> Files. \<open>File_Listing\<close>, \<open>Transfer_Job\<close> and \<open>Transfer_Run\<close> (\<open>fs.rs\<close>, on the files of \<open>File_Store\<close>),
    \<open>Transfer_Exchange\<close> (a download with its confirmations: \<open>io_loop.rs\<close>, \<open>connection.rs\<close>), \<open>File_Names\<close>,
    \<open>Cm_Files\<close> and \<open>Cm_Safety\<close> (\<open>ui_cm_interface.rs\<close>), \<open>Connection_Files\<close> and \<open>Connection_Transfers\<close>
    (\<open>connection.rs\<close>).
  \<^item> Terminals. \<open>Output_Buffer\<close>, \<open>Terminal_Service\<close> and \<open>Terminal_Sessions\<close> (\<open>terminal_service.rs\<close>), \<open>Terminal_Helper\<close>
    (\<open>terminal_helper.rs\<close>).
  \<^item> The controlling side. \<open>Client_Config\<close> (\<open>PeerConfig\<close> of \<open>config.rs\<close>, the options of \<open>LoginConfigHandler\<close> in
    \<open>client.rs\<close>), \<open>Client_Login\<close> (its log-on), \<open>Client_Options\<close> and \<open>Client_Logon\<close> (both sides together).

  \<^bold>\<open>What the theorems show.\<close> Packets, sealed messages, chunks, stored secrets, transfers and registrations come out as they
  went in (round trips). Subscriptions, the registry of terminals, the jobs of the connection manager and the rights of a
  peer keep their invariants in every reachable state. What a peer can do is bounded: no effect without the permission but those listed as unguarded,
  no file outside the target, no authorisation without one of the listed grounds, no more guesses than the limits when
  they do not overlap; what an attacker on the wire can make of a secured connection is the messages of both ends. The
  redraw of a terminal and the version numbers refine a specification that says what they are for; the flags the
  controlled machine keeps for a connection refine the configuration of the session, and a password that was typed or
  remembered opens the machine it belongs to. Where the code does not
  do what it means to, the theorem of kind \<open>error\<close> states what it does: the grounds of authorisation that ask for no
  secret, the permissions whose withdrawal has no effect, the messages of an end that are accepted when they are reflected, the
  answer of a WebRTC session that is applied twice, or lost between the two locks of its waiter.

  \<^bold>\<open>Time, order and loops.\<close> Tasks and threads that share state are steps (\<open>fun\<close> on an event type, or an inductive
  relation) and properties quantify over all their interleavings: a
  step is what the code does under one lock or between two awaits, so subscribing and the single messages of a snapshot
  interleave, the reads and writes of the counters of guesses, and the look into the cache of answers with the waiter.
  Divisions of machine words that panic on zero are checked, additions wrap as in the release profile. A loop with a bound on its rounds is a recursion
  over it; the loop that trims the output history may run for ever and is a \<open>partial_function\<close>, so that termination and
  divergence are both theorems. No definition runs out of fuel silently: \<open>next_all\<close>, \<open>host_run\<close> and the runs of
  transfers take the number or the list of their steps, and the theorems say how many are enough or that an end can
  be reached from every state.

  \<^bold>\<open>Arguments of the model.\<close> Ciphers, hashes, base64, compression, JSON texts, TOTP codes, the answers of the operating
  system and the clock are fields of environment records. What is assumed of them is stated in the theorem
  that needs it (opening undoes sealing, decoding undoes encoding, the system refuses nothing), and each such theorem has
  a witness on a concrete environment.

  \<^bold>\<open>Not modelled.\<close> Code whose behaviour is that of the operating system, of a device or of a library: capture and encoding
  of the screen and of sound (\<open>libs/scrap\<close>, \<open>video_service.rs\<close> apart from its names, \<open>audio_service.rs\<close>,
  \<open>display_service.rs\<close>), injection of input and keyboard layouts (\<open>libs/enigo\<close>, \<open>input_service.rs\<close>,
  \<open>uinput.rs\<close>, most of \<open>keyboard.rs\<close>), clipboards (\<open>clipboard.rs\<close>, \<open>libs/clipboard\<close>), virtual displays and printers,
  platform code (\<open>src/platform\<close>), sockets, proxies, TLS and the set-up of WebRTC connections. User interfaces and
  their bindings (\<open>src/ui\<close>, \<open>flutter.rs\<close>, most of \<open>flutter_ffi.rs\<close> and \<open>ui_interface.rs\<close>), translations, plugins,
  the account and update services (\<open>hbbs_http\<close>, \<open>updater.rs\<close>), the loop of a session of the controlling side
  (\<open>io_loop.rs\<close>, but for its downloads) and the decoders and the setters of layouts of \<open>client.rs\<close> are left out as well; so are the vendored crates under \<open>libs\<close>, of which only the
  accessors of \<open>serde_json\<close> are used.
\<close>

end
